(* ===== verification/Prelude.thy ===== *)
theory Prelude
  imports Main "HOL-Library.Word"
begin

text \<open>
  Shared vocabulary of the development: the machine types of the C code, the outcome of a
  C function (a value, an error the code reports, or an operation the C standard leaves
  undefined), byte buffers with uninitialised cells, and the lemma collections that the
  component theories use.
\<close>

unbundle bit_operations_syntax

section \<open>Machine types\<close>

type_synonym u8 = "8 word"
type_synonym u16 = "16 word"
type_synonym u32 = "32 word"
type_synonym u64 = "64 word"

text \<open>
  A \<open>tstr\<close> is the nullable byte string of the \<open>tstr\<close> library: \<open>None\<close> is \<open>tstr_null ()\<close>.
  A \<open>SizedBuffer\<close> is a heap buffer with its size: \<open>None\<close> is \<open>{ .data = NULL, .size = 0 }\<close>.
\<close>

type_synonym bytes = "u8 list"
type_synonym tstr = "bytes option"
type_synonym SizedBuffer = "bytes option"

section \<open>Outcomes of C functions\<close>

text \<open>
  \<open>Undef\<close> marks the executions the C standard gives no meaning to, the failing \<open>assert\<close>s and
  the \<open>exit\<close> of \<open>UNREACHABLE ()\<close>; a theorem that a function never returns it is a safety
  theorem.
\<close>

datatype fault =
    OutOfBounds | Uninitialised | ShiftRange | SignedOverflow | DivisionByZero
  | AssertFailed | ProcessExit | UseAfterFree

datatype ('e, 'a) res = Ok 'a | Err 'e | Undef fault

fun rbind :: "('e, 'a) res \<Rightarrow> ('a \<Rightarrow> ('e, 'b) res) \<Rightarrow> ('e, 'b) res" where
  "rbind (Ok x) f = f x"
| "rbind (Err e) f = Err e"
| "rbind (Undef u) f = Undef u"

lemma rbind_Ok_iff: "rbind m f = Ok y \<longleftrightarrow> (\<exists>x. m = Ok x \<and> f x = Ok y)"
  by (cases m) auto

lemma rbind_Undef_iff:
  "rbind m f = Undef u \<longleftrightarrow> m = Undef u \<or> (\<exists>x. m = Ok x \<and> f x = Undef u)"
  by (cases m) auto

lemma rbind_Err_iff:
  "rbind m f = Err e \<longleftrightarrow> m = Err e \<or> (\<exists>x. m = Ok x \<and> f x = Err e)"
  by (cases m) auto

lemma rbind_cong [fundef_cong]:
  "m = m' \<Longrightarrow> (\<And>x. m' = Ok x \<Longrightarrow> f x = f' x) \<Longrightarrow> rbind m f = rbind m' f'"
  by (cases m') auto

lemmas rbind_iffs = rbind_Ok_iff rbind_Undef_iff rbind_Err_iff

lemma rbind_assoc: "rbind (rbind m f) g = rbind m (\<lambda>x. rbind (f x) g)"
  by (cases m) auto

text \<open>A caller that replaces the error it receives.\<close>

fun map_err :: "('e \<Rightarrow> 'f) \<Rightarrow> ('e, 'a) res \<Rightarrow> ('f, 'a) res" where
  "map_err f (Ok x) = Ok x"
| "map_err f (Err e) = Err (f e)"
| "map_err f (Undef u) = Undef u"

lemma map_err_iffs [simp]:
  "map_err f m = Ok x \<longleftrightarrow> m = Ok x"
  "map_err f m = Undef u \<longleftrightarrow> m = Undef u"
  "map_err f m = Err e \<longleftrightarrow> (\<exists>d. m = Err d \<and> e = f d)"
  by (cases m; auto)+

section \<open>A safety logic for outcomes\<close>

text \<open>
  \<open>outcome P F m\<close>: if \<open>m\<close> returns, the value satisfies \<open>P\<close>, and a fault is one of \<open>F\<close>. The
  rules follow the control flow of the code; \<open>outcome_intros\<close> collects them.
\<close>

named_theorems outcome_intros \<open>rules for the outcome of composed calls\<close>

definition outcome :: "('a \<Rightarrow> bool) \<Rightarrow> (fault \<Rightarrow> bool) \<Rightarrow> ('e, 'a) res \<Rightarrow> bool" where
  "outcome P F m \<longleftrightarrow> (case m of Ok x \<Rightarrow> P x | Err _ \<Rightarrow> True | Undef u \<Rightarrow> F u)"

lemma outcome_simps [simp]:
  "outcome P F (Ok x) \<longleftrightarrow> P x" "outcome P F (Err e)" "outcome P F (Undef u) \<longleftrightarrow> F u"
  by (simp_all add: outcome_def)

lemma outcome_rbind [outcome_intros]:
  "outcome P F m \<Longrightarrow> (\<And>x. P x \<Longrightarrow> m = Ok x \<Longrightarrow> outcome Q F (f x)) \<Longrightarrow> outcome Q F (rbind m f)"
  by (cases m) auto

lemma outcome_map_err [simp]: "outcome P F (map_err f m) \<longleftrightarrow> outcome P F m"
  by (cases m) auto

lemma outcome_weaken:
  "outcome P F m \<Longrightarrow> (\<And>x. P x \<Longrightarrow> m = Ok x \<Longrightarrow> Q x) \<Longrightarrow> (\<And>u. F u \<Longrightarrow> G u) \<Longrightarrow> outcome Q G m"
  by (cases m) auto

lemma outcome_OkD: "outcome P F m \<Longrightarrow> m = Ok x \<Longrightarrow> P x"
  by simp

lemma outcome_UndefD: "outcome P F m \<Longrightarrow> m = Undef u \<Longrightarrow> F u"
  by simp

section \<open>Memory cells\<close>

text \<open>
  A heap array is a list with one cell per element; \<open>None\<close> is a cell that was never written.
  Reads and writes check the bounds, a read also that the cell is initialised.
\<close>

type_synonym membuf = "u8 option list"

definition read_cell :: "'a option list \<Rightarrow> nat \<Rightarrow> ('e, 'a) res" where
  "read_cell es i =
     (if i < length es then (case es ! i of None \<Rightarrow> Undef Uninitialised | Some e \<Rightarrow> Ok e)
      else Undef OutOfBounds)"

definition write_cell :: "'a option list \<Rightarrow> nat \<Rightarrow> 'a \<Rightarrow> ('e, 'a option list) res" where
  "write_cell es i e = (if i < length es then Ok (es[i := Some e]) else Undef OutOfBounds)"

definition check_assert :: "bool \<Rightarrow> ('e, unit) res" where
  "check_assert P = (if P then Ok () else Undef AssertFailed)"

lemma read_cell_Some: "i < length es \<Longrightarrow> es ! i = Some e \<Longrightarrow> read_cell es i = Ok e"
  by (simp add: read_cell_def)

lemma write_cell_Ok: "i < length es \<Longrightarrow> write_cell es i e = Ok (es[i := Some e])"
  by (simp add: write_cell_def)

lemma check_assert_Ok: "P \<Longrightarrow> check_assert P = Ok ()"
  by (simp add: check_assert_def)

definition memcpy_cells :: "'a option list \<Rightarrow> nat \<Rightarrow> 'a list \<Rightarrow> ('e, 'a option list) res" where
  "memcpy_cells buf off xs =
     (if off + length xs \<le> length buf
      then Ok (take off buf @ map Some xs @ drop (off + length xs) buf) else Undef OutOfBounds)"

text \<open>\<open>filled buf xs\<close>: the block starts with the values \<open>xs\<close>; how writers grow it.\<close>

definition filled :: "'a option list \<Rightarrow> 'a list \<Rightarrow> bool" where
  "filled buf xs \<longleftrightarrow> length xs \<le> length buf \<and> take (length xs) buf = map Some xs"

lemma filled_Nil [simp]: "filled buf []"
  by (simp add: filled_def)

lemma filled_iff_nth:
  "filled buf xs \<longleftrightarrow> length xs \<le> length buf \<and> (\<forall>i < length xs. buf ! i = Some (xs ! i))"
  by (auto simp: filled_def list_eq_iff_nth_eq)

lemma filled_write:
  assumes "filled buf xs" "length xs < length buf"
  shows "write_cell buf (length xs) x = Ok (buf[length xs := Some x])"
    and "filled (buf[length xs := Some x]) (xs @ [x])"
  using assms by (auto simp: filled_iff_nth nth_append less_Suc_eq write_cell_Ok)

lemma filled_update_last:
  assumes "filled buf (xs @ [x])"
  shows "read_cell buf (length xs) = Ok x"
    and "write_cell buf (length xs) y = Ok (buf[length xs := Some y])"
    and "filled (buf[length xs := Some y]) (xs @ [y])"
  using assms by (auto simp: filled_iff_nth nth_append less_Suc_eq write_cell_Ok read_cell_def)

lemma filled_memcpy:
  assumes "filled buf xs" "length xs + length ys \<le> length buf"
  shows "\<exists>buf'. memcpy_cells buf (length xs) ys = Ok buf' \<and> length buf' = length buf \<and>
    filled buf' (xs @ ys)"
  using assms by (simp add: memcpy_cells_def filled_def min_def)

section \<open>Words\<close>

lemma unat_u64_less [simp]: "unat (w :: u64) < 18446744073709551616"
  by (rule order.strict_trans2 [OF unsigned_less]) simp

lemma unat_u64_mod [simp]: "unat (w :: u64) mod 18446744073709551616 = unat w"
  by simp

lemma unat_of_nat_u64 [simp]:
  "n < 18446744073709551616 \<Longrightarrow> unat (word_of_nat n :: u64) = n"
  by (simp add: unsigned_of_nat take_bit_nat_eq_self)

lemma unat_of_nat_u8 [simp]: "n < 256 \<Longrightarrow> unat (word_of_nat n :: u8) = n"
  by (simp add: unsigned_of_nat take_bit_nat_eq_self)

lemma unat_u8_less [simp]: "unat (b :: u8) < 256"
  by (rule order.strict_trans2 [OF unsigned_less]) simp

section \<open>Arithmetic on \<open>size_t\<close>\<close>

text \<open>
  Lengths and counters are natural numbers; where the code adds or subtracts counters that no
  allocation bounds, the 64-bit wrap-around is written out. \<open>size_simps\<close> collects the conditions
  under which it does not happen.
\<close>

named_theorems size_simps \<open>size_t arithmetic without wrap-around\<close>

definition size_add :: "nat \<Rightarrow> nat \<Rightarrow> nat" where
  "size_add a b = (a + b) mod 2 ^ 64"

definition size_sub :: "nat \<Rightarrow> nat \<Rightarrow> nat" where
  "size_sub a b = nat ((int a - int b) mod 2 ^ 64)"

lemma size_add_exact [size_simps]: "a + b < 2 ^ 64 \<Longrightarrow> size_add a b = a + b"
  by (simp add: size_add_def)

lemma size_sub_exact [size_simps]:
  assumes "b \<le> a" "a < 2 ^ 64"
  shows "size_sub a b = a - b"
proof -
  have "(int a - int b) mod 2 ^ 64 = int a - int b" using assms by (intro mod_pos_pos_trivial) auto
  then show ?thesis using assms by (simp add: size_sub_def nat_diff_distrib)
qed

section \<open>Finished blocks\<close>

text \<open>A block is handed out as the list of its bytes; every byte must have been written.\<close>

fun read_block :: "membuf \<Rightarrow> ('e, bytes) res" where
  "read_block [] = Ok []"
| "read_block (c # cs) =
     (case c of None \<Rightarrow> Undef Uninitialised | Some b \<Rightarrow> rbind (read_block cs) (\<lambda>bs. Ok (b # bs)))"

lemma read_block_map_Some: "read_block (map Some bs) = Ok bs"
  by (induction bs) auto

lemma read_block_filled: "filled buf xs \<Longrightarrow> read_block (take (length xs) buf) = Ok xs"
  by (simp add: filled_def read_block_map_Some)

end
