(* ===== verification/Number_Parsing.thy ===== *)
theory Number_Parsing
  imports Prelude
begin

text \<open>
  \<open>src/utils/number_parsing.c\<close>: the decimal parsers \<open>parse_u64\<close> and \<open>parse_i64\<close>. Both run the
  same digit loop on a \<open>uint64_t\<close> accumulator, with the wrap-around of the multiplication
  kept. The reference is \<open>dec_value\<close>, the unbounded value of a digit string.
\<close>

section \<open>The parsers\<close>

text \<open>
  The digit loop: a byte outside \<open>'0'..'9'\<close> fails, and so does a step after which the
  accumulator is smaller than before (the code's overflow check).
\<close>

fun parse_digits :: "bytes \<Rightarrow> u64 \<Rightarrow> u64 option" where
  "parse_digits [] result = Some result"
| "parse_digits (c # cs) result =
     (if c < 48 \<or> c > 57 then None
      else let result' = result * 10 + ucast (c - 48)
           in if result' < result then None else parse_digits cs result')"

definition parse_u64 :: "bytes \<Rightarrow> u64 option" where
  "parse_u64 to_parse = (if to_parse = [] then None else parse_digits to_parse 0)"

text \<open>
  \<open>parse_i64\<close> reports failure as \<open>Err ()\<close>. The negation \<open>-((int64_t)result_temp)\<close> of
  \<open>INT64_MIN\<close> overflows, which the guard before it lets through.
\<close>

definition parse_i64 :: "bytes \<Rightarrow> (unit, int) res" where
  "parse_i64 to_parse =
     (case to_parse of
        [] \<Rightarrow> Err ()
      | c # cs \<Rightarrow>
          (let has_sign = (c = 45);
               rest = (if c = 45 \<or> c = 43 then cs else to_parse)
           in if rest = [] then Err ()
              else (case parse_digits rest 0 of
                  None \<Rightarrow> Err ()
                | Some result_temp \<Rightarrow>
                    if has_sign then
                      (if result_temp > 9223372036854775807 + 1 then Err ()
                       else if result_temp = 9223372036854775808 then Undef SignedOverflow
                       else Ok (- sint result_temp))
                    else if result_temp > 9223372036854775807 then Err ()
                    else Ok (sint result_temp))))"

section \<open>The reference: decimal notation\<close>

definition digit_string :: "bytes \<Rightarrow> bool" where
  "digit_string cs \<longleftrightarrow> (\<forall>c \<in> set cs. 48 \<le> c \<and> c \<le> 57)"

definition digit_val :: "u8 \<Rightarrow> nat" where
  "digit_val c = unat c - 48"

fun dec_acc :: "nat \<Rightarrow> bytes \<Rightarrow> nat" where
  "dec_acc a [] = a"
| "dec_acc a (c # cs) = dec_acc (a * 10 + digit_val c) cs"

definition dec_value :: "bytes \<Rightarrow> nat" where
  "dec_value cs = dec_acc 0 cs"

fun print_nat :: "nat \<Rightarrow> bytes" where
  "print_nat n = (if n < 10 then [word_of_nat (48 + n)]
                  else print_nat (n div 10) @ [word_of_nat (48 + n mod 10)])"

declare print_nat.simps [simp del]

lemma digit_string_Cons [simp]:
  "digit_string (c # cs) \<longleftrightarrow> (48 \<le> c \<and> c \<le> 57) \<and> digit_string cs"
  by (auto simp: digit_string_def)

lemma digit_string_Nil [simp]: "digit_string []"
  by (simp add: digit_string_def)

lemma digit_string_append [simp]:
  "digit_string (xs @ ys) \<longleftrightarrow> digit_string xs \<and> digit_string ys"
  by (auto simp: digit_string_def)

lemma dec_acc_append: "dec_acc a (xs @ ys) = dec_acc (dec_acc a xs) ys"
  by (induction xs arbitrary: a) auto

lemma dec_acc_eq: "dec_acc a cs = a * 10 ^ length cs + dec_acc 0 cs"
proof (induction cs arbitrary: a)
  case (Cons c cs)
  show ?case
    using Cons.IH [of "a * 10 + digit_val c"] Cons.IH [of "digit_val c"]
    by (simp add: algebra_simps)
qed simp

lemma dec_acc_mod: "dec_acc (a mod m) cs mod m = dec_acc a cs mod m"
proof -
  have "(a mod m * k + d) mod m = (a * k + d) mod m" for k d :: nat
    by (metis mod_add_left_eq mod_mult_left_eq)
  then show ?thesis by (metis dec_acc_eq)
qed

lemma dec_acc_ge: "a \<le> dec_acc a cs"
proof -
  have "a * 1 \<le> a * 10 ^ length cs" by (intro mult_le_mono2) simp
  then show ?thesis using dec_acc_eq [of a cs] by linarith
qed

lemma digit_val_word:
  assumes "48 \<le> c" "c \<le> 57"
  shows "unat (c - 48 :: u8) = digit_val c" "digit_val c < 10"
proof -
  have "48 \<le> unat c" "unat c \<le> 57"
    using assms by (simp_all add: word_le_nat_alt)
  then show "digit_val c < 10" by (simp add: digit_val_def)
  show "unat (c - 48 :: u8) = digit_val c"
    using assms(1) by (simp add: digit_val_def unat_sub)
qed

section \<open>Correctness of the digit loop\<close>

text \<open>One step of the accumulator, exact as long as the decimal value fits 64 bits.\<close>

lemma unat_digit_step:
  assumes "48 \<le> c" "c \<le> 57"
  shows "unat (r * 10 + ucast (c - 48) :: u64) = (unat r * 10 + digit_val c) mod 2 ^ 64"
proof -
  have "unat (ucast (c - 48 :: u8) :: u64) = digit_val c"
    using digit_val_word [OF assms] by (simp add: unsigned_ucast_eq take_bit_nat_eq_self_iff)
  then show ?thesis by (simp add: unat_word_ariths mod_simps)
qed

lemma parse_digits_Some:
  "parse_digits cs r = Some v \<Longrightarrow> digit_string cs \<and> unat v = dec_acc (unat r) cs mod 2 ^ 64"
proof (induction cs arbitrary: r)
  case (Cons c cs)
  then have c: "48 \<le> c" "c \<le> 57"
    and step: "parse_digits cs (r * 10 + ucast (c - 48)) = Some v"
    by (auto simp: Let_def not_less split: if_splits)
  have "unat v = dec_acc ((unat r * 10 + digit_val c) mod 2 ^ 64) cs mod 2 ^ 64"
    using Cons.IH [OF step] unat_digit_step [OF c] by simp
  also have "\<dots> = dec_acc (unat r * 10 + digit_val c) cs mod 2 ^ 64"
    by (rule dec_acc_mod)
  finally show ?case using Cons.IH [OF step] c by simp
qed simp

lemma parse_digits_exact:
  "digit_string cs \<Longrightarrow> dec_acc (unat r) cs < 2 ^ 64 \<Longrightarrow>
   parse_digits cs r = Some (word_of_nat (dec_acc (unat r) cs))"
proof (induction cs arbitrary: r)
  case (Cons c cs)
  let ?r = "r * 10 + ucast (c - 48) :: u64"
  have c: "48 \<le> c" "c \<le> 57" using Cons.prems by auto
  have lt: "unat r * 10 + digit_val c < 2 ^ 64"
    using Cons.prems(2) dec_acc_ge [of "unat r * 10 + digit_val c" cs] by simp
  then have eq: "unat ?r = unat r * 10 + digit_val c"
    using unat_digit_step [OF c, of r] by simp
  then have "\<not> ?r < r" by (simp add: word_less_nat_alt)
  with c eq Cons.IH [of ?r] Cons.prems show ?case
    by (simp add: Let_def not_less)
qed simp

lemma parse_digits_not_digits: "\<not> digit_string cs \<Longrightarrow> parse_digits cs r = None"
  using parse_digits_Some by (metis option.exhaust)

lemma dec_value_bound: "digit_string cs \<Longrightarrow> dec_value cs < 10 ^ length cs"
proof (induction cs rule: rev_induct)
  case (snoc c cs)
  then have "digit_val c < 10" by (simp add: digit_val_word)
  with snoc show ?case by (simp add: dec_value_def dec_acc_append)
qed (simp add: dec_value_def)

lemma print_nat_digits: "digit_string (print_nat n)"
proof (induction n rule: print_nat.induct)
  case (1 n)
  have *: "48 \<le> (word_of_nat (48 + k) :: u8) \<and> word_of_nat (48 + k) \<le> (57 :: u8)" if "k < 10" for k
    using that by (simp add: word_le_nat_alt unsigned_of_nat take_bit_eq_mod del: of_nat_add)
  show ?case using 1 * by (subst print_nat.simps) (auto simp del: of_nat_add)
qed

lemma print_nat_value: "dec_value (print_nat n) = n"
proof (induction n rule: print_nat.induct)
  case (1 n)
  have *: "digit_val (word_of_nat (48 + k)) = k" if "k < 10" for k
    using that by (simp add: digit_val_def unsigned_of_nat take_bit_eq_mod del: of_nat_add)
  show ?case
    using 1 by (subst print_nat.simps) (auto simp: dec_value_def dec_acc_append * simp del: of_nat_add)
qed

lemma print_nat_not_Nil [simp]: "print_nat n \<noteq> []"
  by (subst print_nat.simps) simp

lemma print_nat_hd: "print_nat n = c # cs \<Longrightarrow> c \<noteq> 45 \<and> c \<noteq> 43"
  using print_nat_digits [of n] by (auto simp: word_le_nat_alt)


definition print_int :: "int \<Rightarrow> bytes" where
  "print_int v = (if v < 0 then 45 # print_nat (nat (- v)) else print_nat (nat v))"

lemma parse_digits_print_nat:
  "n < 2 ^ 64 \<Longrightarrow> parse_digits (print_nat n) 0 = Some (word_of_nat n)"
  using parse_digits_exact [of "print_nat n" 0] print_nat_digits print_nat_value
  by (simp add: dec_value_def)

lemma sint_word_of_nat_u64: "n < 2 ^ 63 \<Longrightarrow> sint (word_of_nat n :: u64) = int n"
  by (simp add: signed_of_nat signed_take_bit_int_eq_self)

lemma word_of_nat_u64_less:
  "n < 2 ^ 64 \<Longrightarrow> (word_of_nat n :: u64) \<le> w \<longleftrightarrow> n \<le> unat w"
  by (simp add: word_le_nat_alt)

section \<open>Properties\<close>

text \<open>
  \<open>parse_u64\<close> is the decimal parser it is meant to be on every input whose value fits
  64 bits: a non-empty digit string gives exactly its decimal value, anything else fails.
\<close>

theorem parse_u64_correct:
  assumes "digit_string s \<longrightarrow> dec_value s < 2 ^ 64"
  shows "parse_u64 s =
    (if s \<noteq> [] \<and> digit_string s then Some (word_of_nat (dec_value s)) else None)"
  using assms parse_digits_exact [of s 0] parse_digits_not_digits [of s 0]
  by (auto simp: parse_u64_def dec_value_def)

theorem parse_u64_correct_witness: "parse_u64 [49, 50, 48] = Some 120"
  using parse_u64_correct [of "[49, 50, 48]"]
  by (simp add: dec_value_def digit_val_def)

text \<open>
  The overflow check of \<open>parse_u64\<close> is incomplete: the 20-digit string
  30000000000000000000 is above \<open>UINT64_MAX\<close>, and the parser returns its value modulo
  \<open>2 ^ 64\<close> as a success.
\<close>

theorem parse_u64_overflow_accepted:
  "\<exists>s v. digit_string s \<and> 2 ^ 64 \<le> dec_value s \<and> parse_u64 s = Some v
     \<and> unat v = dec_value s mod 2 ^ 64"
proof -
  let ?s = "[51, 48, 48, 48, 48, 48, 48, 48, 48, 48, 48, 48, 48, 48, 48, 48, 48, 48, 48, 48] :: bytes"
  have d: "digit_string ?s" by (simp add: digit_string_def)
  have v: "dec_value ?s = 30000000000000000000"
    by (simp add: dec_value_def digit_val_def)
  have p: "parse_u64 ?s = Some 11553255926290448384"
    by (simp add: parse_u64_def)
  show ?thesis using d v p by (intro exI [of _ ?s]) simp
qed

text \<open>
  Round trip: \<open>parse_i64\<close> reads back the decimal notation of every signed 64-bit value
  above \<open>INT64_MIN\<close>.
\<close>

theorem parse_i64_roundtrip:
  assumes "- (2 ^ 63) < v" and "v < 2 ^ 63"
  shows "parse_i64 (print_int v) = Ok v"
proof (cases "v < 0")
  case True
  define n where "n = nat (- v)"
  with True assms have v: "v = - int n" and n: "n < 2 ^ 63" by simp_all
  then have "(word_of_nat n :: u64) < 9223372036854775808"
    by (simp add: word_less_nat_alt)
  with True n show ?thesis
    by (auto simp: v parse_i64_def print_int_def parse_digits_print_nat sint_word_of_nat_u64)
next
  case False
  define n where "n = nat v"
  with False assms have v: "v = int n" and n: "n < 2 ^ 63" by simp_all
  then have le: "(word_of_nat n :: u64) \<le> 9223372036854775807"
    by (simp add: word_of_nat_u64_less)
  obtain c cs where cs: "print_nat n = c # cs" by (cases "print_nat n") auto
  with n le print_nat_hd [OF cs] parse_digits_print_nat [of n] show ?thesis
    by (simp add: v parse_i64_def print_int_def sint_word_of_nat_u64 not_less Let_def
        del: parse_digits.simps)
qed

theorem parse_i64_roundtrip_witness: "parse_i64 [45, 52, 50] = Ok (- 42)"
  using parse_i64_roundtrip [of "- 42"] by (simp add: print_int_def print_nat.simps)

text \<open>
  \<open>parse_i64\<close> has exactly one kind of undefined execution: the text of a minus sign
  and \<open>2 ^ 63\<close> passes the range check and reaches the negation of \<open>INT64_MIN\<close>.
\<close>

theorem parse_i64_undefined_iff:
  "parse_i64 s = Undef u \<longleftrightarrow>
     u = SignedOverflow \<and> (\<exists>cs. s = 45 # cs \<and> cs \<noteq> [] \<and> parse_digits cs 0 = Some (2 ^ 63))"
  by (auto simp: parse_i64_def Let_def split: list.splits option.splits if_splits)

end
