(* ===== verification/Serialize.thy ===== *)
theory Serialize
  imports Prelude
begin

text \<open>
  \<open>src/generic/serialize.c\<close> and the address helpers of \<open>src/generic/ip.c\<close>: integers to bytes and
  back. The byte order of the host, a compile-time constant of the C code, is the first
  argument of every function, so that a theorem for all orders covers both builds. A
  \<open>SerializeResultN\<close> is the list of its bytes; the deserialisers read exactly the bytes they
  are given, and their callers take the slice.
\<close>

datatype byte_order = LITTLE_ENDIAN | BIG_ENDIAN

section \<open>Words as byte lists\<close>

definition le_bytes :: "nat \<Rightarrow> 'a::len word \<Rightarrow> bytes" where
  "le_bytes n w = map (\<lambda>i. ucast (drop_bit (8 * i) w)) [0..<n]"

fun of_le_bytes :: "bytes \<Rightarrow> 'a::len word" where
  "of_le_bytes [] = 0"
| "of_le_bytes (b # bs) = ucast b OR push_bit 8 (of_le_bytes bs)"

text \<open>\<open>memcpy\<close> between an integer object and a byte array, and the byte swap.\<close>

definition memcpy_out :: "byte_order \<Rightarrow> nat \<Rightarrow> 'a::len word \<Rightarrow> bytes" where
  "memcpy_out ord n w = (case ord of LITTLE_ENDIAN \<Rightarrow> le_bytes n w
                                   | BIG_ENDIAN \<Rightarrow> rev (le_bytes n w))"

definition memcpy_in :: "byte_order \<Rightarrow> bytes \<Rightarrow> 'a::len word" where
  "memcpy_in ord bs = of_le_bytes (case ord of LITTLE_ENDIAN \<Rightarrow> bs | BIG_ENDIAN \<Rightarrow> rev bs)"

definition bswap :: "nat \<Rightarrow> 'a::len word \<Rightarrow> 'a word" where
  "bswap n w = of_le_bytes (rev (le_bytes n w))"

text \<open>The macros: \<open>LE_TO_HOST\<close>, \<open>BE_TO_HOST\<close>, \<open>HOST_TO_BE\<close>; \<open>htons\<close>, \<open>htonl\<close>, \<open>ntohs\<close>, \<open>ntohl\<close>.\<close>

definition LE_TO_HOST :: "byte_order \<Rightarrow> nat \<Rightarrow> 'a::len word \<Rightarrow> 'a word" where
  "LE_TO_HOST ord n w = (case ord of LITTLE_ENDIAN \<Rightarrow> w | BIG_ENDIAN \<Rightarrow> bswap n w)"

definition BE_TO_HOST :: "byte_order \<Rightarrow> nat \<Rightarrow> 'a::len word \<Rightarrow> 'a word" where
  "BE_TO_HOST ord n w = (case ord of LITTLE_ENDIAN \<Rightarrow> bswap n w | BIG_ENDIAN \<Rightarrow> w)"

definition HOST_TO_BE :: "byte_order \<Rightarrow> nat \<Rightarrow> 'a::len word \<Rightarrow> 'a word" where
  "HOST_TO_BE ord n w = (case ord of LITTLE_ENDIAN \<Rightarrow> bswap n w | BIG_ENDIAN \<Rightarrow> w)"

definition hton :: "byte_order \<Rightarrow> nat \<Rightarrow> 'a::len word \<Rightarrow> 'a word" where
  "hton ord n w = (case ord of LITTLE_ENDIAN \<Rightarrow> bswap n w | BIG_ENDIAN \<Rightarrow> w)"

definition ntoh :: "byte_order \<Rightarrow> nat \<Rightarrow> 'a::len word \<Rightarrow> 'a word" where
  "ntoh ord n w = (case ord of LITTLE_ENDIAN \<Rightarrow> bswap n w | BIG_ENDIAN \<Rightarrow> w)"

section \<open>Deserialisers\<close>

definition deserialize_u64_host_to_host :: "byte_order \<Rightarrow> bytes \<Rightarrow> u64" where
  "deserialize_u64_host_to_host ord bs = memcpy_in ord (take 8 bs)"

definition deserialize_u32_host_to_host :: "byte_order \<Rightarrow> bytes \<Rightarrow> u32" where
  "deserialize_u32_host_to_host ord bs = memcpy_in ord (take 4 bs)"

definition deserialize_u16_host_to_host :: "byte_order \<Rightarrow> bytes \<Rightarrow> u16" where
  "deserialize_u16_host_to_host ord bs = memcpy_in ord (take 2 bs)"

definition deserialize_u16_le_to_no :: "byte_order \<Rightarrow> bytes \<Rightarrow> u16" where
  "deserialize_u16_le_to_no ord bs =
     hton ord 2 (LE_TO_HOST ord 2 (deserialize_u16_host_to_host ord bs))"

definition deserialize_u32_le_to_no :: "byte_order \<Rightarrow> bytes \<Rightarrow> u32" where
  "deserialize_u32_le_to_no ord bs =
     hton ord 4 (LE_TO_HOST ord 4 (deserialize_u32_host_to_host ord bs))"

definition deserialize_u16_le_to_host :: "byte_order \<Rightarrow> bytes \<Rightarrow> u16" where
  "deserialize_u16_le_to_host ord bs = LE_TO_HOST ord 2 (deserialize_u16_host_to_host ord bs)"

definition deserialize_u32_le_to_host :: "byte_order \<Rightarrow> bytes \<Rightarrow> u32" where
  "deserialize_u32_le_to_host ord bs = LE_TO_HOST ord 4 (deserialize_u32_host_to_host ord bs)"

definition deserialize_u16_be_to_host :: "byte_order \<Rightarrow> bytes \<Rightarrow> u16" where
  "deserialize_u16_be_to_host ord bs = BE_TO_HOST ord 2 (deserialize_u16_host_to_host ord bs)"

definition deserialize_u32_be_to_host :: "byte_order \<Rightarrow> bytes \<Rightarrow> u32" where
  "deserialize_u32_be_to_host ord bs = BE_TO_HOST ord 4 (deserialize_u32_host_to_host ord bs)"

definition deserialize_u64_be_to_host :: "byte_order \<Rightarrow> bytes \<Rightarrow> u64" where
  "deserialize_u64_be_to_host ord bs = BE_TO_HOST ord 8 (deserialize_u64_host_to_host ord bs)"

section \<open>Serialisers\<close>

definition serialize_u64_host_to_host :: "byte_order \<Rightarrow> u64 \<Rightarrow> bytes" where
  "serialize_u64_host_to_host ord w = memcpy_out ord 8 w"

definition serialize_u32_host_to_host :: "byte_order \<Rightarrow> u32 \<Rightarrow> bytes" where
  "serialize_u32_host_to_host ord w = memcpy_out ord 4 w"

definition serialize_u16_host_to_host :: "byte_order \<Rightarrow> u16 \<Rightarrow> bytes" where
  "serialize_u16_host_to_host ord w = memcpy_out ord 2 w"

definition serialize_u16_no_to_host :: "byte_order \<Rightarrow> u16 \<Rightarrow> bytes" where
  "serialize_u16_no_to_host ord w = serialize_u16_host_to_host ord (ntoh ord 2 w)"

definition serialize_u16_host_to_be :: "byte_order \<Rightarrow> u16 \<Rightarrow> bytes" where
  "serialize_u16_host_to_be ord w = serialize_u16_host_to_host ord (HOST_TO_BE ord 2 w)"

definition serialize_u32_no_to_host :: "byte_order \<Rightarrow> u32 \<Rightarrow> bytes" where
  "serialize_u32_no_to_host ord w = serialize_u32_host_to_host ord (ntoh ord 4 w)"

definition serialize_u32_host_to_be :: "byte_order \<Rightarrow> u32 \<Rightarrow> bytes" where
  "serialize_u32_host_to_be ord w = serialize_u32_host_to_host ord (HOST_TO_BE ord 4 w)"

definition serialize_u64_host_to_be :: "byte_order \<Rightarrow> u64 \<Rightarrow> bytes" where
  "serialize_u64_host_to_be ord w = serialize_u64_host_to_host ord (HOST_TO_BE ord 8 w)"

text \<open>\<open>src/generic/ip.c\<close>: an IPv4 address is kept in network order (\<open>s_addr\<close>).\<close>

definition get_ipv4_address_from_host_bytes :: "byte_order \<Rightarrow> bytes \<Rightarrow> u32" where
  "get_ipv4_address_from_host_bytes ord bs = deserialize_u32_le_to_no ord bs"

definition get_raw_bytes_as_host_bytes_from_ipv4_address :: "byte_order \<Rightarrow> u32 \<Rightarrow> bytes" where
  "get_raw_bytes_as_host_bytes_from_ipv4_address ord addr =
     (let result = serialize_u32_no_to_host ord addr
      in [result ! 0, result ! 1, result ! 2, result ! 3])"

section \<open>Bit-level facts\<close>

lemma length_le_bytes [simp]: "length (le_bytes n w) = n"
  by (simp add: le_bytes_def)

lemma le_bytes_bit: "i < n \<Longrightarrow> bit (le_bytes n w ! i) j \<longleftrightarrow> j < 8 \<and> bit w (8 * i + j)"
  by (auto simp: le_bytes_def bit_ucast_iff bit_drop_bit_eq ac_simps dest: bit_imp_le_length)

lemma of_le_bytes_bit:
  "bit (of_le_bytes bs :: 'a::len word) i \<longleftrightarrow>
     i < LENGTH('a) \<and> i div 8 < length bs \<and> bit (bs ! (i div 8)) (i mod 8)"
proof (induction bs arbitrary: i)
  case (Cons b bs)
  show ?case
  proof (cases "i < 8")
    case True
    then show ?thesis
      by (auto simp: bit_or_iff bit_push_bit_iff bit_ucast_iff dest: bit_imp_le_length)
  next
    case False
    then obtain k where i: "i = k + 8" by (metis le_add_diff_inverse2 not_less)
    have k: "(k + 8) div 8 = Suc (k div 8)" by simp
    have "\<not> bit b (k + 8)" using bit_imp_le_length [of b "k + 8"] by auto
    then show ?thesis
      by (auto simp: i k bit_or_iff bit_push_bit_iff bit_ucast_iff Cons.IH)
  qed
qed simp

lemma of_le_bytes_le_bytes:
  assumes "LENGTH('a) = 8 * n"
  shows "of_le_bytes (le_bytes n w) = (w :: 'a::len word)"
proof (rule bit_eqI)
  fix i assume "possible_bit TYPE('a word) i"
  then have i: "i < LENGTH('a)" by simp
  then have "i div 8 < n" using assms by simp
  moreover have "8 * (i div 8) + i mod 8 = i" by simp
  ultimately show "bit (of_le_bytes (le_bytes n w) :: 'a word) i \<longleftrightarrow> bit w i"
    using i by (simp add: of_le_bytes_bit le_bytes_bit del: mult_div_mod_eq)
qed

lemma le_bytes_of_le_bytes:
  assumes "LENGTH('a) = 8 * n" "length bs = n"
  shows "le_bytes n (of_le_bytes bs :: 'a::len word) = bs"
proof (rule nth_equalityI)
  fix i assume "i < length (le_bytes n (of_le_bytes bs :: 'a word))"
  then have i: "i < n" by simp
  show "le_bytes n (of_le_bytes bs :: 'a word) ! i = bs ! i"
  proof (rule bit_eqI)
    fix j assume "possible_bit TYPE(u8) j"
    then have j: "j < 8" by simp
    have "8 * i + j < 8 * n" using i j by linarith
    then show "bit (le_bytes n (of_le_bytes bs :: 'a word) ! i) j \<longleftrightarrow> bit (bs ! i) j"
      using i j assms by (simp add: le_bytes_bit of_le_bytes_bit)
  qed
qed (simp add: assms)

section \<open>The contract of a fixed-width codec\<close>

text \<open>
  What the frame writers and readers rely on: a serialiser of fixed width and a deserialiser
  that reads its value back from the front of any longer byte sequence.
\<close>

locale byte_codec =
  fixes ser :: "'a \<Rightarrow> bytes"
    and des :: "bytes \<Rightarrow> 'a"
    and width :: nat
  assumes ser_length: "length (ser x) = width"
    and des_ser: "des (ser x @ rest) = x"
    and ser_des: "width \<le> length bs \<Longrightarrow> ser (des bs) = take width bs"
begin

lemma des_ser_exact: "des (ser x) = x"
  using des_ser [of x "[]"] by simp

lemma ser_append_eq_iff: "ser x @ r = ser y @ s \<longleftrightarrow> x = y \<and> r = s"
proof
  assume *: "ser x @ r = ser y @ s"
  then have "x = y" using des_ser by metis
  with * show "x = y \<and> r = s" by simp
qed simp

lemma ser_surj: "length bs = width \<Longrightarrow> ser (des bs) = bs"
  using ser_des [of bs] by simp

end

lemmas serialize_defs =
  serialize_u64_host_to_be_def serialize_u32_host_to_be_def serialize_u16_host_to_be_def
  serialize_u64_host_to_host_def serialize_u32_host_to_host_def serialize_u16_host_to_host_def
  deserialize_u64_be_to_host_def deserialize_u32_be_to_host_def deserialize_u16_be_to_host_def
  deserialize_u64_host_to_host_def deserialize_u32_host_to_host_def
  deserialize_u16_host_to_host_def memcpy_out_def memcpy_in_def HOST_TO_BE_def BE_TO_HOST_def
  LE_TO_HOST_def hton_def ntoh_def bswap_def

lemma serialize_be_bytes:
  "serialize_u16_host_to_be ord a = rev (le_bytes 2 a)"
  "serialize_u32_host_to_be ord b = rev (le_bytes 4 b)"
  "serialize_u64_host_to_be ord c = rev (le_bytes 8 c)"
  by (cases ord; simp add: serialize_defs le_bytes_of_le_bytes)+

lemma deserialize_be_bytes:
  "2 \<le> length bs \<Longrightarrow> deserialize_u16_be_to_host ord bs = of_le_bytes (rev (take 2 bs))"
  "4 \<le> length bs \<Longrightarrow> deserialize_u32_be_to_host ord bs = of_le_bytes (rev (take 4 bs))"
  "8 \<le> length bs \<Longrightarrow> deserialize_u64_be_to_host ord bs = of_le_bytes (rev (take 8 bs))"
  by (cases ord; simp add: serialize_defs le_bytes_of_le_bytes)+

interpretation u16_be: byte_codec "serialize_u16_host_to_be ord" "deserialize_u16_be_to_host ord" 2
  for ord
  by unfold_locales
    (simp_all add: serialize_be_bytes deserialize_be_bytes of_le_bytes_le_bytes le_bytes_of_le_bytes)

interpretation u32_be: byte_codec "serialize_u32_host_to_be ord" "deserialize_u32_be_to_host ord" 4
  for ord
  by unfold_locales
    (simp_all add: serialize_be_bytes deserialize_be_bytes of_le_bytes_le_bytes le_bytes_of_le_bytes)

interpretation u64_be: byte_codec "serialize_u64_host_to_be ord" "deserialize_u64_be_to_host ord" 8
  for ord
  by unfold_locales
    (simp_all add: serialize_be_bytes deserialize_be_bytes of_le_bytes_le_bytes le_bytes_of_le_bytes)

section \<open>Properties\<close>

text \<open>
  The big-endian serialisers and deserialisers are inverse on every host: what is
  written on a host of one byte order is read back unchanged on a host of any other.
\<close>

theorem be_roundtrip:
  "deserialize_u16_be_to_host ord' (serialize_u16_host_to_be ord a) = a \<and>
   deserialize_u32_be_to_host ord' (serialize_u32_host_to_be ord b) = b \<and>
   deserialize_u64_be_to_host ord' (serialize_u64_host_to_be ord c) = c"
  using u16_be.des_ser_exact u32_be.des_ser_exact u64_be.des_ser_exact
  by (metis serialize_be_bytes)

text \<open>
  Four address bytes survive the trip through the network-order representation of an
  IPv4 address on a little-endian host; on a big-endian host they come back reversed, since
  the reader takes little-endian bytes and the writer emits host-order ones.
\<close>

theorem ipv4_bytes_roundtrip:
  assumes "length bs = 4"
  shows "get_raw_bytes_as_host_bytes_from_ipv4_address ord (get_ipv4_address_from_host_bytes ord bs)
    = (case ord of LITTLE_ENDIAN \<Rightarrow> bs | BIG_ENDIAN \<Rightarrow> rev bs)"
proof -
  have four: "[xs ! 0, xs ! Suc 0, xs ! 2, xs ! 3] = xs" if "length xs = 4" for xs :: bytes
    using that by (auto simp: numeral_eq_Suc length_Suc_conv)
  show ?thesis
    using assms
    by (cases ord)
      (simp_all add: get_raw_bytes_as_host_bytes_from_ipv4_address_def Let_def
        get_ipv4_address_from_host_bytes_def deserialize_u32_le_to_no_def
        serialize_u32_no_to_host_def serialize_defs four le_bytes_of_le_bytes of_le_bytes_le_bytes)
qed

theorem ipv4_bytes_roundtrip_witness:
  "get_raw_bytes_as_host_bytes_from_ipv4_address LITTLE_ENDIAN
     (get_ipv4_address_from_host_bytes LITTLE_ENDIAN [127, 0, 0, 1]) = [127, 0, 0, 1]"
  using ipv4_bytes_roundtrip [of "[127, 0, 0, 1]" LITTLE_ENDIAN] by simp

end
