(* ===== verification/Hpack_Huffman.thy ===== *)
theory Hpack_Huffman
  imports Prelude
begin

text \<open>
  \<open>src/http/hpack_huffman.c\<close>: the bit-level Huffman decoder and encoder of HPACK. The decoding tree
  and the encoding map come from a generated file, so both are arguments here (inside the
  record of the global data); the locale \<open>huffman_code\<close> states what the code relies on of them,
  and the theory \<open>Hpack_Tables\<close> discharges it for the tables of the generator.

  A \<open>HuffmanNode\<close> is a tree instead of a node array with pointers: the comparison
  \<open>current_node == tree->root\<close> is equality of trees, which agrees with pointer equality since a
  node of a finite tree is never equal to a proper subtree of it. Buffer sizes are unbounded
  naturals: the product \<open>buffer.size * 8\<close> overflows only for buffers beyond \<open>2 ^ 61\<close> bytes.
\<close>

section \<open>Data\<close>

datatype HuffmanNode =
    HuffmanNodeNode HuffmanNode HuffmanNode
  | HuffmanNodeEnd u8
  | HuffmanNodeError

record HuffmanEncodeEntry =
  bit_size :: nat
  enc_value :: u32

record BitPos =
  pos :: nat
  bits_pos :: nat

record GlobalHpackHuffmanData =
  huff_tree :: "HuffmanNode option"
  huff_map :: "(u8 \<Rightarrow> HuffmanEncodeEntry) option"

datatype huffman_error =
    TreeIsNull | GlobalTreeNotInitialized | GlobalMapNotInitialized | InputNullOrEmpty
  | FailedMalloc | EosReceived | ResultMemoryOverflow | MoreThanOneByteNotDecoded
  | EightOrMoreBitsNotDecoded | LastBitsNotEos | ReallocFailed | MaxSizeIsZero
  | NotEnoughSizeInOutBuffer | SizeNotExact

definition global_initialize_http2_hpack_huffman_data ::
  "HuffmanNode option \<Rightarrow> (u8 \<Rightarrow> HuffmanEncodeEntry) option \<Rightarrow> GlobalHpackHuffmanData
     \<Rightarrow> GlobalHpackHuffmanData" where
  "global_initialize_http2_hpack_huffman_data get_tree get_map g =
     \<lparr>huff_tree = (if huff_tree g = None then get_tree else huff_tree g),
      huff_map = (if huff_map g = None then get_map else huff_map g)\<rparr>"

definition global_free_http2_hpack_huffman_data ::
  "GlobalHpackHuffmanData \<Rightarrow> GlobalHpackHuffmanData" where
  "global_free_http2_hpack_huffman_data g = \<lparr>huff_tree = None, huff_map = None\<rparr>"

section \<open>Decoder\<close>

definition bit_pos_inc :: "BitPos \<Rightarrow> BitPos" where
  "bit_pos_inc p =
     (if bits_pos p + 1 \<ge> 8 then \<lparr>pos = pos p + 1, bits_pos = 0\<rparr>
      else p\<lparr>bits_pos := bits_pos p + 1\<rparr>)"

definition bit_pos_mask :: "u8 list" where
  "bit_pos_mask = [0x80, 0x40, 0x20, 0x10, 0x08, 0x04, 0x02, 0x01]"

definition get_bit_at :: "bytes \<Rightarrow> BitPos \<Rightarrow> (huffman_error, bool) res" where
  "get_bit_at data p =
     (if pos p < length data \<and> bits_pos p < 8
      then Ok (data ! pos p AND bit_pos_mask ! bits_pos p \<noteq> 0)
      else Undef OutOfBounds)"

text \<open>
  The loop over the input bits. \<open>values\<close> is the filled part of the output block, which has
  \<open>memory_size + 1\<close> bytes; the result is \<open>last_pos\<close>, the node reached and the output.
\<close>

function decode_loop ::
  "HuffmanNode \<Rightarrow> bytes \<Rightarrow> nat \<Rightarrow> BitPos \<Rightarrow> BitPos \<Rightarrow> HuffmanNode \<Rightarrow> bytes
     \<Rightarrow> (huffman_error, BitPos \<times> HuffmanNode \<times> bytes) res" where
  "decode_loop root data memory_size current_pos last_pos current_node values =
     (if pos current_pos < length data then
        (case current_node of
           HuffmanNodeNode bit_0 bit_1 \<Rightarrow>
             rbind (get_bit_at data current_pos) (\<lambda>b.
             let next_node = (if b then bit_1 else bit_0) in
             case next_node of
               HuffmanNodeError \<Rightarrow> Err EosReceived
             | HuffmanNodeEnd v \<Rightarrow>
                 if length values < memory_size + 1 then
                   (let values' = values @ [v] in
                    if length values' \<ge> memory_size then Err ResultMemoryOverflow
                    else decode_loop root data memory_size (bit_pos_inc current_pos)
                           (bit_pos_inc current_pos) root values')
                 else Undef OutOfBounds
             | HuffmanNodeNode _ _ \<Rightarrow>
                 decode_loop root data memory_size (bit_pos_inc current_pos) last_pos next_node values)
         | _ \<Rightarrow> Undef AssertFailed)
      else Ok (last_pos, current_node, values))"
  by pat_completeness auto
termination
  by (relation "measures [\<lambda>(root, data, m, p, l, n, v). length data - pos p,
                          \<lambda>(root, data, m, p, l, n, v). 8 - bits_pos p]")
    (auto simp: bit_pos_inc_def split: if_splits)

declare decode_loop.simps [simp del]

definition huffman_return_ok :: "(nat \<Rightarrow> bool) \<Rightarrow> bytes \<Rightarrow> (huffman_error, bytes) res" where
  "huffman_return_ok alloc values =
     (if alloc (length values + 1) then Ok values else Err ReallocFailed)"

definition decode_bytes_huffman_impl ::
  "(nat \<Rightarrow> bool) \<Rightarrow> HuffmanNode option \<Rightarrow> bytes \<Rightarrow> (huffman_error, bytes) res" where
  "decode_bytes_huffman_impl alloc tree buffer =
     (case tree of
        None \<Rightarrow> Err TreeIsNull
      | Some root \<Rightarrow>
          if buffer = [] then Err InputNullOrEmpty
          else
            (let memory_size = (length buffer * 8 + (5 - 1)) div 5;
                 begin_pos = \<lparr>pos = 0, bits_pos = 0\<rparr>
             in if \<not> alloc (memory_size + 1) then Err FailedMalloc
                else
                  rbind (decode_loop root buffer memory_size begin_pos begin_pos root [])
                    (\<lambda>(last_pos, current_node, values).
                    if current_node = root then huffman_return_ok alloc values
                    else if length buffer \<ge> pos last_pos then huffman_return_ok alloc values
                    else if size_sub (length buffer) (pos last_pos) > 1
                    then Err MoreThanOneByteNotDecoded
                    else
                      (let bits_not_decoded = 8 - bits_pos last_pos in
                       if bits_not_decoded \<ge> 8 then Err EightOrMoreBitsNotDecoded
                       else if \<not> pos last_pos < length buffer then Undef OutOfBounds
                       else
                         (let bits_mask = (push_bit bits_not_decoded 1 - 1 :: u8) in
                          if buffer ! pos last_pos AND bits_mask \<noteq> 0xFF AND bits_mask
                          then Err LastBitsNotEos
                          else huffman_return_ok alloc values)))))"

definition hpack_huffman_decode_bytes ::
  "(nat \<Rightarrow> bool) \<Rightarrow> GlobalHpackHuffmanData \<Rightarrow> bytes \<Rightarrow> (huffman_error, bytes) res" where
  "hpack_huffman_decode_bytes alloc g buffer =
     (if huff_tree g = None then Err GlobalTreeNotInitialized
      else decode_bytes_huffman_impl alloc (huff_tree g) buffer)"

section \<open>Encoder\<close>

definition hpack_huffman_get_encoded_size_impl :: "(u8 \<Rightarrow> HuffmanEncodeEntry) \<Rightarrow> bytes \<Rightarrow> nat" where
  "hpack_huffman_get_encoded_size_impl m str =
     (fold (\<lambda>c result_bits. result_bits + bit_size (m c)) str 0 + 7) div 8"

definition hpack_huffman_get_encoded_size ::
  "GlobalHpackHuffmanData \<Rightarrow> bytes \<Rightarrow> (huffman_error, nat) res" where
  "hpack_huffman_get_encoded_size g str =
     (case huff_map g of
        None \<Rightarrow> Undef AssertFailed
      | Some m \<Rightarrow> Ok (hpack_huffman_get_encoded_size_impl m str))"

text \<open>
  The two loops of \<open>hpack_huffman_encode_value_fixed_size_impl\<close>, over the bits of one symbol and over
  the symbols. \<open>data_ptr[k]\<close> is cell \<open>off + k\<close> of the block the caller allocated; the first
  write to a byte sets it to 0 before the bound is checked, as in the code.
\<close>

fun encode_bits_loop ::
  "nat \<Rightarrow> nat \<Rightarrow> nat \<Rightarrow> u32 \<Rightarrow> BitPos \<Rightarrow> membuf \<Rightarrow> (huffman_error, BitPos \<times> membuf) res" where
  "encode_bits_loop max_size off 0 v current_pos buf = Ok (current_pos, buf)"
| "encode_bits_loop max_size off (Suc todo) v current_pos buf =
     rbind (if bits_pos current_pos = 0 then write_cell buf (off + pos current_pos) 0 else Ok buf)
       (\<lambda>buf1.
     if pos current_pos \<ge> max_size then Err NotEnoughSizeInOutBuffer
     else
       rbind (read_cell buf1 (off + pos current_pos)) (\<lambda>old.
       rbind (write_cell buf1 (off + pos current_pos)
                (old OR push_bit (7 - bits_pos current_pos) (ucast (v AND 0x01)))) (\<lambda>buf2.
       encode_bits_loop max_size off todo (drop_bit 1 v) (bit_pos_inc current_pos) buf2)))"

fun encode_chars_loop ::
  "(u8 \<Rightarrow> HuffmanEncodeEntry) \<Rightarrow> nat \<Rightarrow> nat \<Rightarrow> bytes \<Rightarrow> BitPos \<Rightarrow> membuf
     \<Rightarrow> (huffman_error, BitPos \<times> membuf) res" where
  "encode_chars_loop m max_size off [] current_pos buf = Ok (current_pos, buf)"
| "encode_chars_loop m max_size off (c # cs) current_pos buf =
     rbind (encode_bits_loop max_size off (bit_size (m c)) (enc_value (m c)) current_pos buf)
       (\<lambda>(current_pos', buf'). encode_chars_loop m max_size off cs current_pos' buf')"

definition hpack_huffman_encode_value_fixed_size_impl ::
  "(u8 \<Rightarrow> HuffmanEncodeEntry) \<Rightarrow> membuf \<Rightarrow> nat \<Rightarrow> nat \<Rightarrow> bytes
     \<Rightarrow> (huffman_error, nat \<times> membuf) res" where
  "hpack_huffman_encode_value_fixed_size_impl m buf off max_size str =
     (if str = [] then Ok (0, buf)
      else if max_size = 0 then Err MaxSizeIsZero
      else
        rbind (encode_chars_loop m max_size off str \<lparr>pos = 0, bits_pos = 0\<rparr> buf)
          (\<lambda>(current_pos, buf1).
        if bits_pos current_pos > 0 then
          (let missing_bits = 8 - bits_pos current_pos in
           rbind (read_cell buf1 (off + pos current_pos)) (\<lambda>old.
           rbind (write_cell buf1 (off + pos current_pos) (old OR (push_bit missing_bits 1 - 1)))
             (\<lambda>buf2. Ok (pos current_pos + 1, buf2))))
        else Ok (pos current_pos, buf1)))"

definition hpack_huffman_encode_value_fixed_size ::
  "GlobalHpackHuffmanData \<Rightarrow> membuf \<Rightarrow> nat \<Rightarrow> nat \<Rightarrow> bytes \<Rightarrow> (huffman_error, nat \<times> membuf) res" where
  "hpack_huffman_encode_value_fixed_size g buf off max_size str =
     (case huff_map g of
        None \<Rightarrow> Err GlobalMapNotInitialized
      | Some m \<Rightarrow> hpack_huffman_encode_value_fixed_size_impl m buf off max_size str)"

text \<open>
  The allocating encoder; a finished block is read out as the list of its bytes.
\<close>

definition hpack_huffman_encode_value_impl ::
  "(nat \<Rightarrow> bool) \<Rightarrow> GlobalHpackHuffmanData \<Rightarrow> (u8 \<Rightarrow> HuffmanEncodeEntry) \<Rightarrow> bytes
     \<Rightarrow> (huffman_error, SizedBuffer) res" where
  "hpack_huffman_encode_value_impl alloc g m str =
     rbind (hpack_huffman_get_encoded_size g str) (\<lambda>size.
     if size = 0 then Ok None
     else if \<not> alloc size then Err FailedMalloc
     else
       rbind (hpack_huffman_encode_value_fixed_size_impl m (replicate size None) 0 size str)
         (\<lambda>(result_size, buf).
       if result_size \<noteq> size then Err SizeNotExact
       else rbind (read_block buf) (\<lambda>bs. Ok (Some bs))))"

definition hpack_huffman_encode_value ::
  "(nat \<Rightarrow> bool) \<Rightarrow> GlobalHpackHuffmanData \<Rightarrow> bytes \<Rightarrow> (huffman_error, SizedBuffer) res" where
  "hpack_huffman_encode_value alloc g str =
     (case huff_map g of
        None \<Rightarrow> Err GlobalMapNotInitialized
      | Some m \<Rightarrow> hpack_huffman_encode_value_impl alloc g m str)"

section \<open>Bit strings\<close>

text \<open>
  The references: the bits of a byte string, most significant first; the byte string that
  holds a bit string; a position as a bit count.
\<close>

definition bit_pos_of :: "nat \<Rightarrow> BitPos" where
  "bit_pos_of n = \<lparr>pos = n div 8, bits_pos = n mod 8\<rparr>"

definition data_bits :: "bytes \<Rightarrow> bool list" where
  "data_bits data = map (\<lambda>j. bit (data ! (j div 8)) (7 - j mod 8)) [0..<8 * length data]"

definition byte_at :: "bool list \<Rightarrow> nat \<Rightarrow> u8" where
  "byte_at bs k =
     horner_sum of_bool 2 (map (\<lambda>i. 8 * k + (7 - i) < length bs \<and> bs ! (8 * k + (7 - i))) [0..<8])"

definition pack_bits :: "bool list \<Rightarrow> bytes" where
  "pack_bits bs = map (byte_at bs) [0..<(length bs + 7) div 8]"

lemma bit_pos_of_sel [simp]: "pos (bit_pos_of n) = n div 8" "bits_pos (bit_pos_of n) = n mod 8"
  by (simp_all add: bit_pos_of_def)

lemma bit_pos_inc_of [simp]: "bit_pos_inc (bit_pos_of n) = bit_pos_of (Suc n)"
  by (auto simp: bit_pos_inc_def bit_pos_of_def div_Suc mod_Suc)

lemma bit_pos_of_0: "bit_pos_of 0 = \<lparr>pos = 0, bits_pos = 0\<rparr>"
  by (simp add: bit_pos_of_def)

lemma length_data_bits [simp]: "length (data_bits data) = 8 * length data"
  by (simp add: data_bits_def)

lemma bit_byte_at: "bit (byte_at bs k) n \<longleftrightarrow> n < 8 \<and> 8 * k + (7 - n) < length bs \<and> bs ! (8 * k + (7 - n))"
  by (auto simp: byte_at_def bit_horner_sum_bit_word_iff)

lemma length_pack_bits [simp]: "length (pack_bits bs) = (length bs + 7) div 8"
  by (simp add: pack_bits_def)

lemma data_bits_pack_bits:
  assumes "8 dvd length bs"
  shows "data_bits (pack_bits bs) = bs"
proof (rule nth_equalityI)
  from assms obtain m where m: "length bs = 8 * m" by blast
  show "length (data_bits (pack_bits bs)) = length bs" by (simp add: m)
  fix j assume "j < length (data_bits (pack_bits bs))"
  then have j: "j < 8 * m" by (simp add: m)
  then have "j div 8 < m" by simp
  moreover have "8 * (j div 8) + (7 - (7 - j mod 8)) = j" by simp
  moreover have "7 - j mod 8 < 8" by (rule le_less_trans [OF diff_le_self]) simp
  ultimately show "data_bits (pack_bits bs) ! j = bs ! j"
    using j by (simp add: data_bits_def pack_bits_def bit_byte_at m del: diff_diff_cancel)
qed

lemma bit_pos_mask_nth: "k < 8 \<Longrightarrow> bit_pos_mask ! k = 2 ^ (7 - k)"
  by (auto simp: bit_pos_mask_def numeral_eq_Suc less_Suc_eq)

lemma get_bit_at_data_bits:
  assumes "n < 8 * length data"
  shows "get_bit_at data (bit_pos_of n) = Ok (data_bits data ! n)"
proof -
  have "n div 8 < length data" using assms by simp
  then show ?thesis
    using assms by (simp add: get_bit_at_def data_bits_def bit_pos_mask_nth and_exp_eq_0_iff_not_bit)
qed

section \<open>The decoder on bit strings\<close>

fun decode_bits ::
  "HuffmanNode \<Rightarrow> nat \<Rightarrow> bool list \<Rightarrow> HuffmanNode \<Rightarrow> bytes
     \<Rightarrow> (huffman_error, HuffmanNode \<times> bytes) res" where
  "decode_bits root m [] node vals = Ok (node, vals)"
| "decode_bits root m (b # bs) node vals =
     (case node of
        HuffmanNodeNode bit_0 bit_1 \<Rightarrow>
          (case (if b then bit_1 else bit_0) of
             HuffmanNodeError \<Rightarrow> Err EosReceived
           | HuffmanNodeEnd v \<Rightarrow>
               if length vals + 1 \<ge> m then Err ResultMemoryOverflow
               else decode_bits root m bs root (vals @ [v])
           | HuffmanNodeNode x y \<Rightarrow> decode_bits root m bs (HuffmanNodeNode x y) vals)
      | _ \<Rightarrow> Undef AssertFailed)"

lemma decode_loop_step:
  assumes "n < 8 * length data" "length vals \<le> m"
  shows "decode_loop root data m (bit_pos_of n) l node vals =
    (case node of
       HuffmanNodeNode bit_0 bit_1 \<Rightarrow>
         (case (if data_bits data ! n then bit_1 else bit_0) of
            HuffmanNodeError \<Rightarrow> Err EosReceived
          | HuffmanNodeEnd v \<Rightarrow>
              if length vals + 1 \<ge> m then Err ResultMemoryOverflow
              else decode_loop root data m (bit_pos_of (Suc n)) (bit_pos_of (Suc n)) root (vals @ [v])
          | HuffmanNodeNode x y \<Rightarrow>
              decode_loop root data m (bit_pos_of (Suc n)) l (HuffmanNodeNode x y) vals)
     | _ \<Rightarrow> Undef AssertFailed)"
proof -
  have "n div 8 < length data" using assms(1) by simp
  then show ?thesis
    using assms
    by (subst decode_loop.simps)
      (simp add: get_bit_at_data_bits Let_def split: HuffmanNode.split)
qed

lemma decode_loop_bits:
  assumes "n \<le> 8 * length data" "length vals \<le> m" "pos l \<le> length data"
  shows "rbind (decode_loop root data m (bit_pos_of n) l node vals) (\<lambda>(l', nd, vs). Ok (nd, vs)) =
      decode_bits root m (drop n (data_bits data)) node vals
    \<and> (\<forall>l' nd vs. decode_loop root data m (bit_pos_of n) l node vals = Ok (l', nd, vs) \<longrightarrow>
         pos l' \<le> length data)"
  using assms
proof (induction "8 * length data - n" arbitrary: n l node vals)
  case 0
  then have n: "n = 8 * length data" by simp
  have "decode_loop root data m (bit_pos_of n) l node vals = Ok (l, node, vals)"
    by (subst decode_loop.simps) (simp add: n)
  then show ?case using 0 n by simp
next
  case (Suc k)
  then have n: "n < 8 * length data" and k: "k = 8 * length data - Suc n" by simp_all
  have drop: "drop n (data_bits data) = data_bits data ! n # drop (Suc n) (data_bits data)"
    using n by (simp add: Cons_nth_drop_Suc)
  have "Suc n div 8 \<le> length data" using n by simp
  then have IH1: "rbind (decode_loop root data m (bit_pos_of (Suc n)) (bit_pos_of (Suc n)) root (vals @ [v]))
        (\<lambda>(l', nd, vs). Ok (nd, vs)) = decode_bits root m (drop (Suc n) (data_bits data)) root (vals @ [v])
      \<and> (\<forall>l' nd vs. decode_loop root data m (bit_pos_of (Suc n)) (bit_pos_of (Suc n)) root (vals @ [v])
          = Ok (l', nd, vs) \<longrightarrow> pos l' \<le> length data)" if "length vals + 1 < m" for v
    using n that by (intro Suc.hyps(1) [OF k]) simp_all
  have IH2: "rbind (decode_loop root data m (bit_pos_of (Suc n)) l c vals)
        (\<lambda>(l', nd, vs). Ok (nd, vs)) = decode_bits root m (drop (Suc n) (data_bits data)) c vals
      \<and> (\<forall>l' nd vs. decode_loop root data m (bit_pos_of (Suc n)) l c vals = Ok (l', nd, vs) \<longrightarrow>
          pos l' \<le> length data)" for c
    using n Suc.prems by (intro Suc.hyps(1) [OF k]) simp_all
  show ?case
  proof (cases node)
    case (HuffmanNodeNode x y)
    then show ?thesis
      using IH1 IH2 n Suc.prems(2)
      by (cases "if data_bits data ! n then y else x")
        (simp_all add: decode_loop_step drop)
  qed (simp_all add: decode_loop_step n Suc.prems(2) drop)
qed

lemma decode_impl_bits:
  assumes "buffer \<noteq> []" "alloc ((length buffer * 8 + 4) div 5 + 1)"
  shows "decode_bytes_huffman_impl alloc (Some root) buffer =
    rbind (decode_bits root ((length buffer * 8 + 4) div 5) (data_bits buffer) root [])
      (\<lambda>(nd, vs). huffman_return_ok alloc vs)"
proof -
  let ?m = "(length buffer * 8 + 4) div 5"
  let ?run = "decode_loop root buffer ?m (bit_pos_of 0) (bit_pos_of 0) root []"
  have loop: "rbind ?run (\<lambda>(l', nd, vs). Ok (nd, vs)) = decode_bits root ?m (data_bits buffer) root []"
    and le: "\<forall>l' nd vs. ?run = Ok (l', nd, vs) \<longrightarrow> pos l' \<le> length buffer"
    using decode_loop_bits [of 0 buffer "[]" ?m "bit_pos_of 0" root root] by auto
  have "decode_bytes_huffman_impl alloc (Some root) buffer =
      rbind ?run (\<lambda>(l', nd, vs). huffman_return_ok alloc vs)"
    using assms le
    by (cases ?run) (auto simp: decode_bytes_huffman_impl_def Let_def bit_pos_of_0)
  also have "\<dots> = rbind (rbind ?run (\<lambda>(l', nd, vs). Ok (nd, vs))) (\<lambda>(nd, vs). huffman_return_ok alloc vs)"
    by (cases ?run) auto
  finally show ?thesis by (simp only: loop)
qed

section \<open>Code words\<close>

fun walk :: "HuffmanNode \<Rightarrow> bool list \<Rightarrow> HuffmanNode option" where
  "walk node [] = Some node"
| "walk (HuffmanNodeNode bit_0 bit_1) (b # bs) = walk (if b then bit_1 else bit_0) bs"
| "walk _ (b # bs) = None"

definition code_bits :: "HuffmanEncodeEntry \<Rightarrow> bool list" where
  "code_bits e = map (bit (enc_value e)) [0..<bit_size e]"

lemma length_code_bits [simp]: "length (code_bits e) = bit_size e"
  by (simp add: code_bits_def)

lemma walk_Cons_Some:
  "walk node (b # bs) = Some nd \<longleftrightarrow>
     (\<exists>x y. node = HuffmanNodeNode x y \<and> walk (if b then y else x) bs = Some nd)"
  by (cases node) auto

lemma decode_bits_code:
  "walk node bs = Some (HuffmanNodeEnd v) \<Longrightarrow> bs \<noteq> [] \<Longrightarrow>
   decode_bits root m (bs @ rest) node vals =
     (if length vals + 1 \<ge> m then Err ResultMemoryOverflow
      else decode_bits root m rest root (vals @ [v]))"
proof (induction bs arbitrary: node)
  case (Cons b bs)
  then obtain x y where node: "node = HuffmanNodeNode x y"
    and w: "walk (if b then y else x) bs = Some (HuffmanNodeEnd v)"
    by (auto simp: walk_Cons_Some)
  show ?case
  proof (cases bs)
    case Nil
    then show ?thesis using node w by simp
  next
    case (Cons c cs)
    then obtain x' y' where child: "(if b then y else x) = HuffmanNodeNode x' y'"
      using w by (auto simp: walk_Cons_Some)
    have "decode_bits root m (bs @ rest) (HuffmanNodeNode x' y') vals =
        (if length vals + 1 \<ge> m then Err ResultMemoryOverflow
         else decode_bits root m rest root (vals @ [v]))"
      using Cons.IH [of "HuffmanNodeNode x' y'"] w child Cons by simp
    then show ?thesis using node child by simp
  qed
qed simp

lemma decode_bits_pad:
  "(\<And>k. k \<le> length bs \<Longrightarrow> \<exists>x y. walk node (take k bs) = Some (HuffmanNodeNode x y)) \<Longrightarrow>
   \<exists>nd. decode_bits root m bs node vals = Ok (nd, vals)"
proof (induction bs arbitrary: node)
  case (Cons b bs)
  obtain x y where node: "node = HuffmanNodeNode x y"
    using Cons.prems [of 0] by auto
  have *: "\<exists>x' y'. walk (if b then y else x) (take k bs) = Some (HuffmanNodeNode x' y')"
    if "k \<le> length bs" for k
    using Cons.prems [of "Suc k"] that node by simp
  obtain x' y' where child: "(if b then y else x) = HuffmanNodeNode x' y'"
    using * [of 0] by auto
  have "\<exists>nd. decode_bits root m bs (HuffmanNodeNode x' y') vals = Ok (nd, vals)"
    using Cons.IH [of "HuffmanNodeNode x' y'"] * child by simp
  then show ?case using node child by simp
qed simp

section \<open>The encoder writes the packed code words\<close>

text \<open>
  \<open>bits_written\<close> relates the block before the loop, the bits emitted so far and the block now:
  the bytes from \<open>off\<close> on hold the bits, the rest is untouched.
\<close>

definition bits_written :: "membuf \<Rightarrow> nat \<Rightarrow> bool list \<Rightarrow> membuf \<Rightarrow> bool" where
  "bits_written buf0 off bs buf \<longleftrightarrow>
     length buf = length buf0 \<and>
     (\<forall>k < (length bs + 7) div 8. buf ! (off + k) = Some (byte_at bs k)) \<and>
     (\<forall>i. i < off \<or> off + (length bs + 7) div 8 \<le> i \<longrightarrow> buf ! i = buf0 ! i)"

lemma byte_at_append_below: "k < length bs div 8 \<Longrightarrow> byte_at (bs @ xs) k = byte_at bs k"
  by (rule bit_eqI) (auto simp: bit_byte_at nth_append)

lemma byte_at_Nil_tail: "length bs \<le> 8 * k \<Longrightarrow> byte_at bs k = 0"
  by (rule bit_eqI) (auto simp: bit_byte_at)

lemma byte_at_snoc:
  "byte_at (bs @ [b]) (length bs div 8) =
     byte_at bs (length bs div 8) OR push_bit (7 - length bs mod 8) (of_bool b)"
proof (rule bit_eqI)
  fix n assume "possible_bit TYPE(u8) n"
  then have n: "n < 8" by simp
  let ?j = "8 * (length bs div 8) + (7 - n)"
  have eq: "?j = length bs \<longleftrightarrow> n = 7 - length bs mod 8"
    using n mult_div_mod_eq [of 8 "length bs"] mod_less_divisor [of 8 "length bs"] by linarith
  show "bit (byte_at (bs @ [b]) (length bs div 8)) n \<longleftrightarrow>
      bit (byte_at bs (length bs div 8) OR push_bit (7 - length bs mod 8) (of_bool b)) n"
    using n eq
    by (auto simp: bit_byte_at bit_or_iff bit_push_bit_iff nth_append less_Suc_eq bit_of_bool_iff)
qed

lemma byte_at_pad:
  assumes "length bs mod 8 \<noteq> 0"
  shows "byte_at (bs @ replicate (8 - length bs mod 8) True) (length bs div 8) =
     byte_at bs (length bs div 8) OR (push_bit (8 - length bs mod 8) 1 - 1)"
proof (rule bit_eqI)
  fix n assume "possible_bit TYPE(u8) n"
  then have n: "n < 8" by simp
  let ?r = "length bs mod 8" and ?j = "8 * (length bs div 8) + (7 - n)"
  have len: "length bs = 8 * (length bs div 8) + ?r" by simp
  have r: "?r < 8" by simp
  have mask: "(push_bit (8 - ?r) 1 - 1 :: u8) = mask (8 - ?r)"
    by (simp add: mask_eq_exp_minus_1 push_bit_eq_mult)
  have c1: "?j < length bs \<longleftrightarrow> \<not> n < 8 - ?r" using len r n by linarith
  have c2: "?j < length bs + (8 - ?r)" using len r n by linarith
  have c3: "(bs @ replicate (8 - ?r) True) ! ?j" if "\<not> ?j < length bs"
    unfolding nth_append using that c2 by (simp only: if_False) (subst nth_replicate, linarith, simp)
  show "bit (byte_at (bs @ replicate (8 - ?r) True) (length bs div 8)) n \<longleftrightarrow>
      bit (byte_at bs (length bs div 8) OR (push_bit (8 - ?r) 1 - 1)) n"
    unfolding mask using n c1 c2 c3
    by (auto simp: bit_byte_at bit_or_iff bit_mask_iff nth_append_left)
qed

lemma ceil8_Suc: "(Suc n + 7) div 8 = Suc (n div 8)"
  by simp

lemma ceil8_cases: "(n + 7) div 8 = (if n mod 8 = 0 then n div 8 else Suc (n div 8))"
  by presburger

lemma ceil8_five: "8 * ((5 * l + 7) div 8) = 5 * l \<longleftrightarrow> 8 dvd (l :: nat)"
proof -
  have "8 dvd 5 * l \<longleftrightarrow> 8 dvd l" by presburger
  moreover have "8 * ((n + 7) div 8) = n \<longleftrightarrow> 8 dvd n" for n :: nat by presburger
  ultimately show ?thesis by simp
qed

lemma bits_written_step:
  assumes w: "bits_written buf0 off bs buf" and b: "off + length bs div 8 < length buf0"
  shows "\<exists>buf1. (if length bs mod 8 = 0 then write_cell buf (off + length bs div 8) 0 else Ok buf)
        = (Ok buf1 :: (huffman_error, membuf) res) \<and>
      read_cell buf1 (off + length bs div 8)
        = (Ok (byte_at bs (length bs div 8)) :: (huffman_error, u8) res) \<and>
      length buf1 = length buf0 \<and>
      bits_written buf0 off (bs @ [x]) (buf1[off + length bs div 8 := Some (byte_at (bs @ [x]) (length bs div 8))])"
proof -
  let ?k = "length bs div 8"
  let ?b1 = "if length bs mod 8 = 0 then buf[off + ?k := Some 0] else buf"
  have len: "length buf = length buf0" using w by (simp add: bits_written_def)
  have cell: "?b1 ! (off + ?k) = Some (byte_at bs ?k)"
    using w b len byte_at_Nil_tail [of bs ?k] by (auto simp: bits_written_def ceil8_cases)
  have low: "buf ! (off + k) = Some (byte_at bs k)" if "k < ?k" for k
    using w that by (auto simp: bits_written_def ceil8_cases)
  have out: "buf ! i = buf0 ! i" if "i < off \<or> off + Suc ?k \<le> i" for i
    using w that by (auto simp: bits_written_def ceil8_cases split: if_splits)
  have "bits_written buf0 off (bs @ [x]) (?b1[off + ?k := Some (byte_at (bs @ [x]) ?k)])"
    unfolding bits_written_def length_append list.size add_0_right add_Suc_right ceil8_Suc [simplified]
    using low out b len byte_at_append_below [of _ bs "[x]"]
    by (auto simp: less_Suc_eq nth_list_update)
  then show ?thesis
    using cell b len by (intro exI [of _ ?b1]) (auto simp: write_cell_Ok read_cell_Some)
qed

lemma encode_bits_loop_correct:
  assumes "bits_written buf0 off bs buf" "off + (length bs + n + 7) div 8 \<le> length buf0"
    and "(length bs + n + 7) div 8 \<le> max_size"
  shows "\<exists>buf'. encode_bits_loop max_size off n v (bit_pos_of (length bs)) buf
      = Ok (bit_pos_of (length bs + n), buf') \<and>
    bits_written buf0 off (bs @ map (bit v) [0..<n]) buf'"
  using assms
proof (induction n arbitrary: v bs buf)
  case (Suc n)
  let ?k = "length bs div 8"
  have bound: "?k < (length bs + Suc n + 7) div 8" by (simp add: less_Suc_eq_le div_le_mono)
  then have k: "off + ?k < length buf0" "?k < max_size" using Suc.prems by linarith+
  obtain buf1 where b1:
    "(if length bs mod 8 = 0 then write_cell buf (off + ?k) 0 else Ok buf)
        = (Ok buf1 :: (huffman_error, membuf) res)"
    "read_cell buf1 (off + ?k) = (Ok (byte_at bs ?k) :: (huffman_error, u8) res)"
    "length buf1 = length buf0"
    "bits_written buf0 off (bs @ [bit v 0]) (buf1[off + ?k := Some (byte_at (bs @ [bit v 0]) ?k)])"
    using bits_written_step [OF Suc.prems(1) k(1), of "bit v 0"] by blast
  let ?b2 = "buf1[off + ?k := Some (byte_at (bs @ [bit v 0]) ?k)]"
  have bit0: "ucast (v AND 1) = (of_bool (bit v 0) :: u8)"
    by (simp add: and_one_eq bit_0 mod_2_eq_odd)
  have w2: "write_cell buf1 (off + ?k) (byte_at bs ?k OR push_bit (7 - length bs mod 8) (ucast (v AND 1)))
      = (Ok ?b2 :: (huffman_error, membuf) res)"
    using b1(3) k by (simp add: write_cell_Ok byte_at_snoc bit0)
  have len: "length (bs @ [bit v 0]) + n = length bs + Suc n" by simp
  obtain buf' where
    "encode_bits_loop max_size off n (drop_bit 1 v) (bit_pos_of (length (bs @ [bit v 0]))) ?b2
      = Ok (bit_pos_of (length (bs @ [bit v 0]) + n), buf')"
    "bits_written buf0 off ((bs @ [bit v 0]) @ map (bit (drop_bit 1 v)) [0..<n]) buf'"
    using Suc.IH [OF b1(4), of "drop_bit 1 v"] Suc.prems(2,3) unfolding len by blast
  moreover have "map (bit v) [0..<Suc n] = bit v 0 # map (bit (drop_bit 1 v)) [0..<n]"
    by (simp add: upt_conv_Cons map_Suc_upt [symmetric] bit_drop_bit_eq comp_def del: upt_Suc)
  moreover have "encode_bits_loop max_size off (Suc n) v (bit_pos_of (length bs)) buf =
      encode_bits_loop max_size off n (drop_bit 1 v) (bit_pos_of (length (bs @ [bit v 0]))) ?b2"
    by (simp only: encode_bits_loop.simps bit_pos_of_sel b1(1,2) rbind.simps w2
        bit_pos_inc_of k(2) [unfolded not_le [symmetric]] if_False length_append_singleton)
  ultimately show ?case using len by simp
qed simp

lemma encode_chars_loop_correct:
  assumes "bits_written buf0 off bs buf"
    and "off + (length bs + length (concat (map (\<lambda>c. code_bits (m c)) str)) + 7) div 8 \<le> length buf0"
    and "(length bs + length (concat (map (\<lambda>c. code_bits (m c)) str)) + 7) div 8 \<le> max_size"
  shows "\<exists>buf'. encode_chars_loop m max_size off str (bit_pos_of (length bs)) buf =
      Ok (bit_pos_of (length bs + length (concat (map (\<lambda>c. code_bits (m c)) str))), buf') \<and>
    bits_written buf0 off (bs @ concat (map (\<lambda>c. code_bits (m c)) str)) buf'"
  using assms
proof (induction str arbitrary: bs buf)
  case (Cons c cs)
  let ?rest = "concat (map (\<lambda>c. code_bits (m c)) cs)" and ?n = "bit_size (m c)"
  have mono: "(length bs + ?n + 7) div 8 \<le> (length bs + (?n + length ?rest) + 7) div 8"
    by (intro div_le_mono) simp
  then obtain b1 where b1:
    "encode_bits_loop max_size off ?n (enc_value (m c)) (bit_pos_of (length bs)) buf
      = Ok (bit_pos_of (length bs + ?n), b1)"
    "bits_written buf0 off (bs @ code_bits (m c)) b1"
    using encode_bits_loop_correct [OF Cons.prems(1), of ?n max_size "enc_value (m c)"] Cons.prems(2,3)
    unfolding code_bits_def by fastforce
  have len: "length (bs @ code_bits (m c)) + length ?rest
      = length bs + length (concat (map (\<lambda>c. code_bits (m c)) (c # cs)))" by simp
  show ?case
    using Cons.IH [OF b1(2)] b1(1) Cons.prems(2,3) unfolding len by simp
qed simp

section \<open>What the code relies on of the generated tables\<close>

text \<open>
  The reference encoding: the code words of the symbols, filled up to whole bytes with the
  leading ones of the end-of-string code.
\<close>

definition code_string :: "(u8 \<Rightarrow> HuffmanEncodeEntry) \<Rightarrow> bytes \<Rightarrow> bool list" where
  "code_string m str = concat (map (\<lambda>c. code_bits (m c)) str)"

definition pad8 :: "bool list \<Rightarrow> bool list" where
  "pad8 bs = bs @ replicate ((8 - length bs mod 8) mod 8) True"

definition huffman_encoded :: "(u8 \<Rightarrow> HuffmanEncodeEntry) \<Rightarrow> bytes \<Rightarrow> bytes" where
  "huffman_encoded m str = pack_bits (pad8 (code_string m str))"

lemma length_pad8: "length (pad8 bs) = 8 * ((length bs + 7) div 8)"
proof -
  have "n + (8 - n mod 8) mod 8 = 8 * ((n + 7) div 8)" for n :: nat
  proof (cases "n mod 8 = 0")
    case False
    have "8 * q + r + (8 - r) = 8 * Suc q" if "r < 8" for q r :: nat
      using that by simp
    from this [of "n mod 8" "n div 8"]
    have "n + (8 - n mod 8) = 8 * Suc (n div 8)" by simp
    then show ?thesis using False by (simp add: ceil8_cases del: mult_Suc_right)
  qed (auto simp: ceil8_cases)
  then show ?thesis by (simp add: pad8_def)
qed

lemma encoded_size_eq:
  "hpack_huffman_get_encoded_size_impl m str = (length (code_string m str) + 7) div 8"
proof -
  have "fold (\<lambda>c r. r + bit_size (m c)) str a = a + length (code_string m str)" for a
    by (induction str arbitrary: a) (simp_all add: code_string_def)
  then show ?thesis by (simp add: hpack_huffman_get_encoded_size_impl_def)
qed

lemma length_huffman_encoded:
  "length (huffman_encoded m str) = hpack_huffman_get_encoded_size_impl m str"
  by (simp add: huffman_encoded_def length_pad8 encoded_size_eq)

lemma data_bits_huffman_encoded: "data_bits (huffman_encoded m str) = pad8 (code_string m str)"
  unfolding huffman_encoded_def by (rule data_bits_pack_bits) (simp add: length_pad8)

text \<open>The final step of the encoder, the padding of the last byte.\<close>

lemma bits_written_pad:
  assumes w: "bits_written buf0 off bs buf" and r: "length bs mod 8 \<noteq> 0"
    and b: "off + length bs div 8 < length buf0"
  shows "read_cell buf (off + length bs div 8)
        = (Ok (byte_at bs (length bs div 8)) :: (huffman_error, u8) res) \<and>
    bits_written buf0 off (pad8 bs)
      (buf[off + length bs div 8 :=
         Some (byte_at bs (length bs div 8) OR (push_bit (8 - length bs mod 8) 1 - 1))])"
proof -
  let ?k = "length bs div 8"
  have ceil: "(length bs + 7) div 8 = Suc ?k" using r by (simp add: ceil8_cases)
  have pad: "pad8 bs = bs @ replicate (8 - length bs mod 8) True" using r by (simp add: pad8_def)
  have len: "length buf = length buf0" using w by (simp add: bits_written_def)
  have "buf ! (off + ?k) = Some (byte_at bs ?k)" using w by (simp add: bits_written_def ceil)
  moreover have "(length (pad8 bs) + 7) div 8 = Suc ?k" by (simp add: length_pad8 ceil)
  ultimately show ?thesis
    using w b len byte_at_pad [OF r] byte_at_append_below [of _ bs]
    by (auto simp: bits_written_def read_cell_Some pad ceil nth_list_update less_Suc_eq)
qed

locale huffman_code =
  fixes root :: HuffmanNode
    and m :: "u8 \<Rightarrow> HuffmanEncodeEntry"
  assumes code_leaf: "walk root (code_bits (m c)) = Some (HuffmanNodeEnd c)"
    and code_min: "5 \<le> bit_size (m c)"
    and ones_inner: "k < 8 \<Longrightarrow> \<exists>x y. walk root (replicate k True) = Some (HuffmanNodeNode x y)"
begin

lemma code_string_ge: "5 * length str \<le> length (code_string m str)"
proof (induction str)
  case (Cons c cs)
  then show ?case using code_min [of c] by (simp add: code_string_def)
qed (simp add: code_string_def)

lemma code_string_five:
  "length (code_string m str) = 5 * length str \<longleftrightarrow> (\<forall>c \<in> set str. bit_size (m c) = 5)"
proof (induction str)
  case (Cons c cs)
  then show ?case
    using code_min [of c] code_string_ge [of cs] by (auto simp: code_string_def)
qed (simp add: code_string_def)

lemma encoded_size_pos:
  "str \<noteq> [] \<Longrightarrow> 0 < hpack_huffman_get_encoded_size_impl m str"
  using code_string_ge [of str] by (cases str) (auto simp: encoded_size_eq)

lemma encode_fixed_correct:
  assumes off: "off + hpack_huffman_get_encoded_size_impl m str \<le> length buf"
    and max: "hpack_huffman_get_encoded_size_impl m str \<le> max_size"
  shows "\<exists>buf'. hpack_huffman_encode_value_fixed_size_impl m buf off max_size str =
      Ok (hpack_huffman_get_encoded_size_impl m str, buf') \<and>
    bits_written buf off (pad8 (code_string m str)) buf'"
proof (cases "str = []")
  case True
  then show ?thesis
    by (simp add: hpack_huffman_encode_value_fixed_size_impl_def encoded_size_eq code_string_def
        pad8_def bits_written_def)
next
  case False
  let ?bs = "code_string m str"
  have "bits_written buf off [] buf" by (simp add: bits_written_def)
  then obtain b1 where b1:
    "encode_chars_loop m max_size off str (bit_pos_of 0) buf = Ok (bit_pos_of (length ?bs), b1)"
    "bits_written buf off ?bs b1"
    using encode_chars_loop_correct [of buf off "[]" buf m str max_size] off max
    by (auto simp: encoded_size_eq code_string_def)
  have "max_size \<noteq> 0" using encoded_size_pos [OF False] max by simp
  then have run: "hpack_huffman_encode_value_fixed_size_impl m buf off max_size str =
      (if length ?bs mod 8 > 0 then
          rbind (read_cell b1 (off + length ?bs div 8)) (\<lambda>old.
          rbind (write_cell b1 (off + length ?bs div 8)
            (old OR (push_bit (8 - length ?bs mod 8) 1 - 1))) (\<lambda>buf2. Ok (length ?bs div 8 + 1, buf2)))
        else Ok (length ?bs div 8, b1))"
    using b1(1) False
    by (simp add: hpack_huffman_encode_value_fixed_size_impl_def bit_pos_of_0 Let_def)
  show ?thesis
  proof (cases "length ?bs mod 8 = 0")
    case True
    then show ?thesis using run b1(2) by (simp add: encoded_size_eq ceil8_cases pad8_def)
  next
    case neq: False
    then have ceil: "hpack_huffman_get_encoded_size_impl m str = Suc (length ?bs div 8)"
      by (simp add: encoded_size_eq ceil8_cases)
    then have k: "off + length ?bs div 8 < length buf" using off by simp
    moreover have "length b1 = length buf" using b1(2) by (simp add: bits_written_def)
    ultimately show ?thesis
      using bits_written_pad [OF b1(2) neq k] run neq ceil by (simp add: write_cell_Ok)
  qed
qed

lemma decode_code_string:
  assumes "pad = replicate k True" "k < 8" "length vals < mx \<or> str = []"
  shows "if str \<noteq> [] \<and> mx \<le> length vals + length str
    then decode_bits root mx (code_string m str @ pad) root vals = Err ResultMemoryOverflow
    else \<exists>nd. decode_bits root mx (code_string m str @ pad) root vals = Ok (nd, vals @ str)"
  using assms(3)
proof (induction str arbitrary: vals)
  case Nil
  have "\<exists>x y. walk root (take j pad) = Some (HuffmanNodeNode x y)" if "j \<le> length pad" for j
    using that assms(1,2) ones_inner [of j] by (simp add: min_def)
  then show ?case
    using decode_bits_pad [of pad root root mx vals] by (auto simp: code_string_def)
next
  case (Cons c cs)
  have ne: "code_bits (m c) \<noteq> []" using code_min [of c] length_code_bits [of "m c"] by (metis not_numeral_le_zero list.size(3))
  have step: "decode_bits root mx (code_string m (c # cs) @ pad) root vals =
      (if mx \<le> length vals + 1 then Err ResultMemoryOverflow
       else decode_bits root mx (code_string m cs @ pad) root (vals @ [c]))"
    using decode_bits_code [OF code_leaf ne, of root mx "code_string m cs @ pad" vals]
    by (simp add: code_string_def)
  show ?case
  proof (cases "mx \<le> length vals + 1")
    case True
    then show ?thesis unfolding step using Cons.prems by simp
  next
    case False
    then show ?thesis
      unfolding step using Cons.IH [of "vals @ [c]"] by (cases cs) auto
  qed
qed

lemma decode_encoded:
  assumes ne: "str \<noteq> []" and alloc: "\<And>n. alloc n"
  shows "decode_bytes_huffman_impl alloc (Some root) (huffman_encoded m str) =
    (if (\<forall>c \<in> set str. bit_size (m c) = 5) \<and> 8 dvd length str then Err ResultMemoryOverflow
     else Ok str)"
proof -
  let ?B = "length (code_string m str)"
  let ?n = "(?B + 7) div 8" and ?pad = "replicate ((8 - ?B mod 8) mod 8) True"
  let ?mx = "(?n * 8 + 4) div 5"
  have len: "length (huffman_encoded m str) = ?n" by (simp add: length_huffman_encoded encoded_size_eq)
  have "0 < ?n" using encoded_size_pos [OF ne] by (simp add: encoded_size_eq)
  then have ne': "huffman_encoded m str \<noteq> []" using len by auto
  have bits: "data_bits (huffman_encoded m str) = code_string m str @ ?pad"
    by (simp add: data_bits_huffman_encoded pad8_def)
  have "0 < ?mx" using \<open>0 < ?n\<close> by simp
  then have run: "if ?mx \<le> length str
      then decode_bits root ?mx (code_string m str @ ?pad) root [] = Err ResultMemoryOverflow
      else \<exists>nd. decode_bits root ?mx (code_string m str @ ?pad) root [] = Ok (nd, str)"
    using decode_code_string [OF refl, of "(8 - ?B mod 8) mod 8" "[]" ?mx str] ne
    by (simp cong: if_cong)
  have up: "?B \<le> 8 * ?n" by simp
  have "?mx \<le> length str \<longleftrightarrow> 8 * ?n \<le> 5 * length str" by linarith
  also have "\<dots> \<longleftrightarrow> ?B = 5 * length str \<and> 8 * ?n = ?B"
    using code_string_ge [of str] up by linarith
  also have "\<dots> \<longleftrightarrow> (\<forall>c \<in> set str. bit_size (m c) = 5) \<and> 8 dvd length str"
  proof -
    have "8 * ?n = ?B \<longleftrightarrow> 8 dvd length str" if "?B = 5 * length str"
      unfolding that by (rule ceil8_five)
    then show ?thesis using code_string_five [of str] by blast
  qed
  finally have cond: "?mx \<le> length str \<longleftrightarrow>
      (\<forall>c \<in> set str. bit_size (m c) = 5) \<and> 8 dvd length str" .
  have "decode_bytes_huffman_impl alloc (Some root) (huffman_encoded m str) =
      rbind (decode_bits root ?mx (code_string m str @ ?pad) root [])
        (\<lambda>(nd, vs). huffman_return_ok alloc vs)"
    using decode_impl_bits [OF ne', of alloc root] alloc unfolding len bits by simp
  with run show ?thesis
    unfolding cond using alloc by (auto simp: huffman_return_ok_def split: if_splits)
qed

end

end
