(* ===== verification/Hpack_Tables.thy ===== *)
theory Hpack_Tables
  imports Hpack_Huffman
begin

text \<open>
  The tables of \<open>tools/helper/src/hpack.ts\<close>, from which the build generates the C sources
  \<open>generated_hpack_huffman.c\<close> and \<open>generated_hpack.c\<close>: the Huffman code of RFC 7541 with the construction of
  the decoding tree and of the encoding map, and the static header table. The checks at the
  end discharge the contract \<open>huffman_code\<close> for them.
\<close>

section \<open>The Huffman code\<close>

definition rawCodes :: "(int \<times> string) list" where
  "rawCodes = [
     (0, ''11111111|11000''), (1, ''11111111|11111111|1011000''),
     (2, ''11111111|11111111|11111110|0010''), (3, ''11111111|11111111|11111110|0011''),
     (4, ''11111111|11111111|11111110|0100''), (5, ''11111111|11111111|11111110|0101''),
     (6, ''11111111|11111111|11111110|0110''), (7, ''11111111|11111111|11111110|0111''),
     (8, ''11111111|11111111|11111110|1000''), (9, ''11111111|11111111|11101010''),
     (10, ''11111111|11111111|11111111|111100''), (11, ''11111111|11111111|11111110|1001''),
     (12, ''11111111|11111111|11111110|1010''), (13, ''11111111|11111111|11111111|111101''),
     (14, ''11111111|11111111|11111110|1011''), (15, ''11111111|11111111|11111110|1100''),
     (16, ''11111111|11111111|11111110|1101''), (17, ''11111111|11111111|11111110|1110''),
     (18, ''11111111|11111111|11111110|1111''), (19, ''11111111|11111111|11111111|0000''),
     (20, ''11111111|11111111|11111111|0001''), (21, ''11111111|11111111|11111111|0010''),
     (22, ''11111111|11111111|11111111|111110''), (23, ''11111111|11111111|11111111|0011''),
     (24, ''11111111|11111111|11111111|0100''), (25, ''11111111|11111111|11111111|0101''),
     (26, ''11111111|11111111|11111111|0110''), (27, ''11111111|11111111|11111111|0111''),
     (28, ''11111111|11111111|11111111|1000''), (29, ''11111111|11111111|11111111|1001''),
     (30, ''11111111|11111111|11111111|1010''), (31, ''11111111|11111111|11111111|1011''),
     (32, ''010100''), (33, ''11111110|00''), (34, ''11111110|01''), (35, ''11111111|1010''),
     (36, ''11111111|11001''), (37, ''010101''), (38, ''11111000''), (39, ''11111111|010''),
     (40, ''11111110|10''), (41, ''11111110|11''), (42, ''11111001''), (43, ''11111111|011''),
     (44, ''11111010''), (45, ''010110''), (46, ''010111''), (47, ''011000''), (48, ''00000''),
     (49, ''00001''), (50, ''00010''), (51, ''011001''), (52, ''011010''), (53, ''011011''),
     (54, ''011100''), (55, ''011101''), (56, ''011110''), (57, ''011111''), (58, ''1011100''),
     (59, ''11111011''), (60, ''11111111|1111100''), (61, ''100000''), (62, ''11111111|1011''),
     (63, ''11111111|00''), (64, ''11111111|11010''), (65, ''100001''), (66, ''1011101''),
     (67, ''1011110''), (68, ''1011111''), (69, ''1100000''), (70, ''1100001''), (71, ''1100010''),
     (72, ''1100011''), (73, ''1100100''), (74, ''1100101''), (75, ''1100110''), (76, ''1100111''),
     (77, ''1101000''), (78, ''1101001''), (79, ''1101010''), (80, ''1101011''), (81, ''1101100''),
     (82, ''1101101''), (83, ''1101110''), (84, ''1101111''), (85, ''1110000''), (86, ''1110001''),
     (87, ''1110010''), (88, ''11111100''), (89, ''1110011''), (90, ''11111101''),
     (91, ''11111111|11011''), (92, ''11111111|11111110|000''), (93, ''11111111|11100''),
     (94, ''11111111|111100''), (95, ''100010''), (96, ''11111111|1111101''), (97, ''00011''),
     (98, ''100011''), (99, ''00100''), (100, ''100100''), (101, ''00101''), (102, ''100101''),
     (103, ''100110''), (104, ''100111''), (105, ''00110''), (106, ''1110100''),
     (107, ''1110101''), (108, ''101000''), (109, ''101001''), (110, ''101010''), (111, ''00111''),
     (112, ''101011''), (113, ''1110110''), (114, ''101100''), (115, ''01000''), (116, ''01001''),
     (117, ''101101''), (118, ''1110111''), (119, ''1111000''), (120, ''1111001''),
     (121, ''1111010''), (122, ''1111011''), (123, ''11111111|1111110''), (124, ''11111111|100''),
     (125, ''11111111|111101''), (126, ''11111111|11101''),
     (127, ''11111111|11111111|11111111|1100''), (128, ''11111111|11111110|0110''),
     (129, ''11111111|11111111|010010''), (130, ''11111111|11111110|0111''),
     (131, ''11111111|11111110|1000''), (132, ''11111111|11111111|010011''),
     (133, ''11111111|11111111|010100''), (134, ''11111111|11111111|010101''),
     (135, ''11111111|11111111|1011001''), (136, ''11111111|11111111|010110''),
     (137, ''11111111|11111111|1011010''), (138, ''11111111|11111111|1011011''),
     (139, ''11111111|11111111|1011100''), (140, ''11111111|11111111|1011101''),
     (141, ''11111111|11111111|1011110''), (142, ''11111111|11111111|11101011''),
     (143, ''11111111|11111111|1011111''), (144, ''11111111|11111111|11101100''),
     (145, ''11111111|11111111|11101101''), (146, ''11111111|11111111|010111''),
     (147, ''11111111|11111111|1100000''), (148, ''11111111|11111111|11101110''),
     (149, ''11111111|11111111|1100001''), (150, ''11111111|11111111|1100010''),
     (151, ''11111111|11111111|1100011''), (152, ''11111111|11111111|1100100''),
     (153, ''11111111|11111110|11100''), (154, ''11111111|11111111|011000''),
     (155, ''11111111|11111111|1100101''), (156, ''11111111|11111111|011001''),
     (157, ''11111111|11111111|1100110''), (158, ''11111111|11111111|1100111''),
     (159, ''11111111|11111111|11101111''), (160, ''11111111|11111111|011010''),
     (161, ''11111111|11111110|11101''), (162, ''11111111|11111110|1001''),
     (163, ''11111111|11111111|011011''), (164, ''11111111|11111111|011100''),
     (165, ''11111111|11111111|1101000''), (166, ''11111111|11111111|1101001''),
     (167, ''11111111|11111110|11110''), (168, ''11111111|11111111|1101010''),
     (169, ''11111111|11111111|011101''), (170, ''11111111|11111111|011110''),
     (171, ''11111111|11111111|11110000''), (172, ''11111111|11111110|11111''),
     (173, ''11111111|11111111|011111''), (174, ''11111111|11111111|1101011''),
     (175, ''11111111|11111111|1101100''), (176, ''11111111|11111111|00000''),
     (177, ''11111111|11111111|00001''), (178, ''11111111|11111111|100000''),
     (179, ''11111111|11111111|00010''), (180, ''11111111|11111111|1101101''),
     (181, ''11111111|11111111|100001''), (182, ''11111111|11111111|1101110''),
     (183, ''11111111|11111111|1101111''), (184, ''11111111|11111110|1010''),
     (185, ''11111111|11111111|100010''), (186, ''11111111|11111111|100011''),
     (187, ''11111111|11111111|100100''), (188, ''11111111|11111111|1110000''),
     (189, ''11111111|11111111|100101''), (190, ''11111111|11111111|100110''),
     (191, ''11111111|11111111|1110001''), (192, ''11111111|11111111|11111000|00''),
     (193, ''11111111|11111111|11111000|01''), (194, ''11111111|11111110|1011''),
     (195, ''11111111|11111110|001''), (196, ''11111111|11111111|100111''),
     (197, ''11111111|11111111|1110010''), (198, ''11111111|11111111|101000''),
     (199, ''11111111|11111111|11110110|0''), (200, ''11111111|11111111|11111000|10''),
     (201, ''11111111|11111111|11111000|11''), (202, ''11111111|11111111|11111001|00''),
     (203, ''11111111|11111111|11111011|110''), (204, ''11111111|11111111|11111011|111''),
     (205, ''11111111|11111111|11111001|01''), (206, ''11111111|11111111|11110001''),
     (207, ''11111111|11111111|11110110|1''), (208, ''11111111|11111110|010''),
     (209, ''11111111|11111111|00011''), (210, ''11111111|11111111|11111001|10''),
     (211, ''11111111|11111111|11111100|000''), (212, ''11111111|11111111|11111100|001''),
     (213, ''11111111|11111111|11111001|11''), (214, ''11111111|11111111|11111100|010''),
     (215, ''11111111|11111111|11110010''), (216, ''11111111|11111111|00100''),
     (217, ''11111111|11111111|00101''), (218, ''11111111|11111111|11111010|00''),
     (219, ''11111111|11111111|11111010|01''), (220, ''11111111|11111111|11111111|1101''),
     (221, ''11111111|11111111|11111100|011''), (222, ''11111111|11111111|11111100|100''),
     (223, ''11111111|11111111|11111100|101''), (224, ''11111111|11111110|1100''),
     (225, ''11111111|11111111|11110011''), (226, ''11111111|11111110|1101''),
     (227, ''11111111|11111111|00110''), (228, ''11111111|11111111|101001''),
     (229, ''11111111|11111111|00111''), (230, ''11111111|11111111|01000''),
     (231, ''11111111|11111111|1110011''), (232, ''11111111|11111111|101010''),
     (233, ''11111111|11111111|101011''), (234, ''11111111|11111111|11110111|0''),
     (235, ''11111111|11111111|11110111|1''), (236, ''11111111|11111111|11110100''),
     (237, ''11111111|11111111|11110101''), (238, ''11111111|11111111|11111010|10''),
     (239, ''11111111|11111111|1110100''), (240, ''11111111|11111111|11111010|11''),
     (241, ''11111111|11111111|11111100|110''), (242, ''11111111|11111111|11111011|00''),
     (243, ''11111111|11111111|11111011|01''), (244, ''11111111|11111111|11111100|111''),
     (245, ''11111111|11111111|11111101|000''), (246, ''11111111|11111111|11111101|001''),
     (247, ''11111111|11111111|11111101|010''), (248, ''11111111|11111111|11111101|011''),
     (249, ''11111111|11111111|11111111|1110''), (250, ''11111111|11111111|11111101|100''),
     (251, ''11111111|11111111|11111101|101''), (252, ''11111111|11111111|11111101|110''),
     (253, ''11111111|11111111|11111101|111''), (254, ''11111111|11111111|11111110|000''),
     (255, ''11111111|11111111|11111011|10''), (256, ''11111111|11111111|11111111|111111'')]"

definition code_word :: "string \<Rightarrow> bool list" where
  "code_word bits = map (\<lambda>c. c = CHR ''1'') (filter (\<lambda>c. c \<noteq> CHR ''|'') bits)"

text \<open>
  The generator's tree: an end node holds a symbol, 256 standing for the end-of-string code,
  or nothing yet. \<open>None\<close> is a thrown error.
\<close>

datatype gen_node = GenNode gen_node gen_node | GenEnd "int option"

fun insert_code :: "int \<Rightarrow> bool list \<Rightarrow> gen_node \<Rightarrow> gen_node option" where
  "insert_code symb [] node = Some node"
| "insert_code symb (b # bs) (GenEnd v) = None"
| "insert_code symb (b # bs) (GenNode bitZero bitOne) =
     map_option (\<lambda>child. if b then GenNode bitZero child else GenNode child bitOne)
       (case (if b then bitOne else bitZero) of
          GenEnd (Some _) \<Rightarrow> None
        | GenEnd None \<Rightarrow>
            if bs = [] then Some (GenEnd (Some symb))
            else insert_code symb bs (GenNode (GenEnd None) (GenEnd None))
        | GenNode x y \<Rightarrow> insert_code symb bs (GenNode x y))"

fun codesToTree :: "(int \<times> string) list \<Rightarrow> gen_node \<Rightarrow> gen_node option" where
  "codesToTree [] root = Some root"
| "codesToTree ((symb, bits) # codes) root =
     (case insert_code symb (code_word bits) root of
        None \<Rightarrow> None
      | Some root' \<Rightarrow> codesToTree codes root')"

fun toCNode :: "gen_node \<Rightarrow> HuffmanNode option" where
  "toCNode (GenEnd None) = None"
| "toCNode (GenEnd (Some v)) =
     (if v = 256 then Some HuffmanNodeError
      else if v < 0 \<or> v > 255 then None
      else Some (HuffmanNodeEnd (word_of_int v)))"
| "toCNode (GenNode bitZero bitOne) =
     (case toCNode bitZero of
        None \<Rightarrow> None
      | Some x \<Rightarrow> (case toCNode bitOne of None \<Rightarrow> None | Some y \<Rightarrow> Some (HuffmanNodeNode x y)))"

definition get_hpack_huffman_tree :: "HuffmanNode option" where
  "get_hpack_huffman_tree =
     Option.bind (codesToTree rawCodes (GenNode (GenEnd None) (GenEnd None))) toCNode"

definition encodeNodeToC :: "bool list \<Rightarrow> HuffmanEncodeEntry" where
  "encodeNodeToC bits = \<lparr>bit_size = length bits, enc_value = horner_sum of_bool 2 bits\<rparr>"

definition get_hpack_huffman_encode_map :: "u8 \<Rightarrow> HuffmanEncodeEntry" where
  "get_hpack_huffman_encode_map c = encodeNodeToC (code_word (snd (rawCodes ! unat c)))"

section \<open>Checks of the Huffman code\<close>

fun gen_walk :: "gen_node \<Rightarrow> bool list \<Rightarrow> gen_node option" where
  "gen_walk node [] = Some node"
| "gen_walk (GenNode bitZero bitOne) (b # bs) = gen_walk (if b then bitOne else bitZero) bs"
| "gen_walk (GenEnd v) (b # bs) = None"

fun gen_complete :: "gen_node \<Rightarrow> bool" where
  "gen_complete (GenEnd v) = (case v of None \<Rightarrow> False | Some s \<Rightarrow> 0 \<le> s \<and> s \<le> 256)"
| "gen_complete (GenNode x y) = (gen_complete x \<and> gen_complete y)"

definition codes_ok :: bool where
  "codes_ok \<longleftrightarrow>
     (case codesToTree rawCodes (GenNode (GenEnd None) (GenEnd None)) of
        None \<Rightarrow> False
      | Some t \<Rightarrow> gen_complete t \<and>
          list_all (\<lambda>(symb, bits). gen_walk t (code_word bits) = Some (GenEnd (Some symb))) rawCodes)"

lemma codes_ok: codes_ok
  by code_simp

end
