(* ===== verification/Hpack_Codes.thy ===== *)
theory Hpack_Codes
  imports Hpack_Tables
begin

text \<open>
  The Huffman code of the generator meets the contract of the decoder and encoder, and what
  follows for \<open>src/http/hpack_huffman.c\<close> running on it.
\<close>

section \<open>The contract holds for the generated tables\<close>

definition gen_tree :: gen_node where
  "gen_tree = the (codesToTree rawCodes (GenNode (GenEnd None) (GenEnd None)))"

definition hpack_huffman_root :: HuffmanNode where
  "hpack_huffman_root = the (toCNode gen_tree)"

lemma gen_tree_facts:
  "codesToTree rawCodes (GenNode (GenEnd None) (GenEnd None)) = Some gen_tree"
  "gen_complete gen_tree"
  "list_all (\<lambda>(symb, bits). gen_walk gen_tree (code_word bits) = Some (GenEnd (Some symb))) rawCodes"
  using codes_ok unfolding codes_ok_def gen_tree_def by (auto split: option.splits)

lemma raw_codes_symbols: "map fst rawCodes = map int [0..<257]"
  unfolding rawCodes_def by (simp add: upt_conv_Cons)

lemma raw_codes_lengths:
  "list_all (\<lambda>(symb, bits). 5 \<le> length (code_word bits) \<and> length (code_word bits) \<le> 32) rawCodes"
  by code_simp

lemma raw_codes_eos: "code_word (snd (rawCodes ! 256)) = replicate 30 True"
  by code_simp

lemma toCNode_complete: "gen_complete t \<Longrightarrow> \<exists>n. toCNode t = Some n"
  by (induction t) (auto split: option.splits)

lemma toCNode_walk:
  "toCNode t = Some n \<Longrightarrow> gen_walk t bs = Some t' \<Longrightarrow> \<exists>n'. toCNode t' = Some n' \<and> walk n bs = Some n'"
proof (induction t bs arbitrary: n rule: gen_walk.induct)
  case (2 x y b bs)
  then show ?case by (cases b) (auto split: option.splits)
qed auto

lemma walk_prefix_inner:
  "walk node (xs @ y # ys) = Some z \<Longrightarrow> \<exists>a b. walk node xs = Some (HuffmanNodeNode a b)"
proof (induction xs arbitrary: node)
  case Nil
  then show ?case by (cases node) auto
next
  case (Cons x xs)
  then show ?case by (cases node) (auto split: if_splits)
qed

lemma hpack_huffman_root: "get_hpack_huffman_tree = Some hpack_huffman_root"
  using toCNode_complete [OF gen_tree_facts(2)]
  by (auto simp: get_hpack_huffman_tree_def gen_tree_facts(1) hpack_huffman_root_def)

lemma toCNode_gen_tree: "toCNode gen_tree = Some hpack_huffman_root"
  using hpack_huffman_root by (simp add: get_hpack_huffman_tree_def gen_tree_facts(1))

lemma length_rawCodes: "length rawCodes = 257"
  using arg_cong [OF raw_codes_symbols, of length] by simp

lemma rawCodes_nth:
  assumes "i < 257"
  shows "fst (rawCodes ! i) = int i"
    and "gen_walk gen_tree (code_word (snd (rawCodes ! i))) = Some (GenEnd (Some (int i)))"
    and "5 \<le> length (code_word (snd (rawCodes ! i)))" "length (code_word (snd (rawCodes ! i))) \<le> 32"
proof -
  have "map fst rawCodes ! i = int i" using assms by (simp add: raw_codes_symbols del: upt_Suc)
  then show f: "fst (rawCodes ! i) = int i" using assms by (simp add: length_rawCodes)
  have mem: "rawCodes ! i \<in> set rawCodes" using assms by (simp add: length_rawCodes)
  show "gen_walk gen_tree (code_word (snd (rawCodes ! i))) = Some (GenEnd (Some (int i)))"
    using gen_tree_facts(3) mem f by (auto simp: list_all_iff split_beta)
  show "5 \<le> length (code_word (snd (rawCodes ! i)))" "length (code_word (snd (rawCodes ! i))) \<le> 32"
    using raw_codes_lengths mem by (auto simp: list_all_iff split_beta)
qed

lemma code_bits_encodeNodeToC: "length bs \<le> 32 \<Longrightarrow> code_bits (encodeNodeToC bs) = bs"
  by (rule nth_equalityI) (auto simp: code_bits_def encodeNodeToC_def bit_horner_sum_bit_word_iff)

lemma hpack_walk:
  assumes "i < 257"
  shows "\<exists>n. walk hpack_huffman_root (code_word (snd (rawCodes ! i))) = Some n \<and>
    toCNode (GenEnd (Some (int i))) = Some n"
  using toCNode_walk [OF toCNode_gen_tree rawCodes_nth(2) [OF assms]] by blast

interpretation hpack_code: huffman_code hpack_huffman_root get_hpack_huffman_encode_map
proof
  fix c :: u8 and k :: nat
  have c: "unat c < 257" using unat_u8_less [of c] by linarith
  have c': "int (unat c) \<noteq> 256" using unat_u8_less [of c] by linarith
  show "walk hpack_huffman_root (code_bits (get_hpack_huffman_encode_map c)) = Some (HuffmanNodeEnd c)"
    using hpack_walk [OF c] rawCodes_nth(4) [OF c] c'
    by (simp add: get_hpack_huffman_encode_map_def code_bits_encodeNodeToC split: if_splits)
  show "5 \<le> bit_size (get_hpack_huffman_encode_map c)"
    using rawCodes_nth(3) [OF c] by (simp add: get_hpack_huffman_encode_map_def encodeNodeToC_def)
  assume k: "k < 8"
  have "replicate 30 True = replicate k True @ True # replicate (29 - k) True"
    using k by (simp flip: replicate_Suc replicate_add)
  then show "\<exists>x y. walk hpack_huffman_root (replicate k True) = Some (HuffmanNodeNode x y)"
    using hpack_walk [of 256] raw_codes_eos walk_prefix_inner [of hpack_huffman_root] by fastforce
qed

section \<open>The initialised global data\<close>

definition g_huffman_data :: GlobalHpackHuffmanData where
  "g_huffman_data =
     global_initialize_http2_hpack_huffman_data get_hpack_huffman_tree
       (Some get_hpack_huffman_encode_map) \<lparr>huff_tree = None, huff_map = None\<rparr>"

lemma g_huffman_data_sel [simp]:
  "huff_tree g_huffman_data = Some hpack_huffman_root"
  "huff_map g_huffman_data = Some get_hpack_huffman_encode_map"
  by (simp_all add: g_huffman_data_def global_initialize_http2_hpack_huffman_data_def hpack_huffman_root)

definition five_bit :: "u8 \<Rightarrow> bool" where
  "five_bit c \<longleftrightarrow> bit_size (get_hpack_huffman_encode_map c) = 5"

lemma hpack_root_inner: "\<exists>x y. hpack_huffman_root = HuffmanNodeNode x y"
  using hpack_code.ones_inner [of 0] by simp

lemma decode_bits_outcomes:
  assumes "\<exists>x y. root = HuffmanNodeNode x y"
  shows "\<exists>x y. node = HuffmanNodeNode x y \<Longrightarrow>
    decode_bits root m bs node vals \<noteq> Undef u \<and>
    (decode_bits root m bs node vals = Err e \<longrightarrow> e = EosReceived \<or> e = ResultMemoryOverflow)"
proof (induction bs arbitrary: node vals)
  case (Cons b bs)
  then obtain x y where node: "node = HuffmanNodeNode x y" by blast
  show ?case
    using Cons.IH assms
    by (cases "if b then y else x") (auto simp: node)
qed simp

lemma huffman_decode_bits:
  assumes "buffer \<noteq> []"
  shows "hpack_huffman_decode_bytes alloc g_huffman_data buffer =
    (if \<not> alloc ((length buffer * 8 + 4) div 5 + 1) then Err FailedMalloc
     else rbind (decode_bits hpack_huffman_root ((length buffer * 8 + 4) div 5) (data_bits buffer)
            hpack_huffman_root []) (\<lambda>(nd, vs). huffman_return_ok alloc vs))"
  using decode_impl_bits [OF assms, of alloc hpack_huffman_root] assms
  by (auto simp: hpack_huffman_decode_bytes_def decode_bytes_huffman_impl_def)

lemma huffman_return_ok_outcomes:
  "huffman_return_ok alloc vs = Ok vs \<or> huffman_return_ok alloc vs = Err ReallocFailed"
  by (simp add: huffman_return_ok_def)

lemma huffman_decode_outcomes:
  "hpack_huffman_decode_bytes alloc g_huffman_data buffer \<noteq> Undef u \<and>
   (hpack_huffman_decode_bytes alloc g_huffman_data buffer = Err e \<longrightarrow>
      e \<in> {InputNullOrEmpty, FailedMalloc, EosReceived, ResultMemoryOverflow, ReallocFailed})"
proof (cases "buffer = []")
  case True
  then show ?thesis
    by (simp add: hpack_huffman_decode_bytes_def decode_bytes_huffman_impl_def)
next
  case False
  let ?run = "decode_bits hpack_huffman_root ((length buffer * 8 + 4) div 5) (data_bits buffer)
      hpack_huffman_root []"
  show ?thesis
    using decode_bits_outcomes [OF hpack_root_inner hpack_root_inner, of "(length buffer * 8 + 4) div 5"
        "data_bits buffer" "[]"] huffman_return_ok_outcomes [of alloc]
    unfolding huffman_decode_bits [OF False]
    by (cases ?run) (auto simp: huffman_return_ok_def split: if_splits)
qed

lemma bits_written_block:
  assumes "bits_written buf0 0 (pad8 bs) buf" "length buf0 = (length bs + 7) div 8"
  shows "buf = map Some (pack_bits (pad8 bs))"
  using assms
  by (intro nth_equalityI) (auto simp: bits_written_def length_pad8 pack_bits_def)

lemma huffman_encode_value_correct:
  assumes "str \<noteq> []" "\<And>n. alloc n"
  shows "hpack_huffman_encode_value alloc g_huffman_data str =
    Ok (Some (huffman_encoded get_hpack_huffman_encode_map str))"
proof -
  let ?m = get_hpack_huffman_encode_map
  let ?n = "hpack_huffman_get_encoded_size_impl ?m str"
  obtain buf where buf: "hpack_huffman_encode_value_fixed_size_impl ?m (replicate ?n None) 0 ?n str = Ok (?n, buf)"
    "bits_written (replicate ?n None) 0 (pad8 (code_string ?m str)) buf"
    using hpack_code.encode_fixed_correct [of 0 str "replicate ?n None" ?n] by auto
  have "buf = map Some (huffman_encoded ?m str)"
    unfolding huffman_encoded_def using bits_written_block [OF buf(2)] by (simp add: encoded_size_eq)
  with buf(1) show ?thesis
    using hpack_code.encoded_size_pos [OF assms(1)] assms(2)
    by (simp add: hpack_huffman_encode_value_def hpack_huffman_encode_value_impl_def
        hpack_huffman_get_encoded_size_def read_block_map_Some)
qed

section \<open>Properties\<close>

text \<open>
  C29. Huffman round trip, exactly: with the generated tables and a working allocator, every
  non-empty string is encoded, and decoding the result gives the string back, except when the
  string consists of five-bit symbols only and its length is a multiple of eight; then the
  decoder reports a full output block although the input is valid.
\<close>

theorem huffman_roundtrip:
  assumes "str \<noteq> []" and "\<forall>n. alloc n"
  shows "\<exists>bs. hpack_huffman_encode_value alloc g_huffman_data str = Ok (Some bs) \<and>
    hpack_huffman_decode_bytes alloc g_huffman_data bs =
      (if (\<forall>c \<in> set str. five_bit c) \<and> 8 dvd length str then Err ResultMemoryOverflow else Ok str)"
  using huffman_encode_value_correct [OF assms(1), of alloc] hpack_code.decode_encoded [OF assms(1), of alloc]
    assms(2)
  by (simp add: hpack_huffman_decode_bytes_def five_bit_def)

theorem huffman_roundtrip_witness:
  "\<exists>bs. hpack_huffman_encode_value (\<lambda>_. True) g_huffman_data [120] = Ok (Some bs) \<and>
    hpack_huffman_decode_bytes (\<lambda>_. True) g_huffman_data bs = Ok [120]"
  using huffman_roundtrip [of "[120]" "\<lambda>_. True"] by simp

lemma five_bit_testcase: "list_all five_bit [116, 101, 115, 116, 99, 97, 115, 101]"
  unfolding five_bit_def get_hpack_huffman_encode_map_def encodeNodeToC_def HuffmanEncodeEntry.select_convs
  by code_simp

text \<open>
  A concrete string the decoder rejects: the encoder accepts the eight letters
  \<open>testcase\<close>, and the decoder answers its output with a memory-overflow error.
\<close>

theorem huffman_testcase_rejected:
  "\<exists>bs. hpack_huffman_encode_value (\<lambda>_. True) g_huffman_data [116, 101, 115, 116, 99, 97, 115, 101]
       = Ok (Some bs) \<and>
     hpack_huffman_decode_bytes (\<lambda>_. True) g_huffman_data bs = Err ResultMemoryOverflow"
proof -
  have "\<forall>c \<in> set [116, 101, 115, 116, 99, 97, 115, 101 :: u8]. five_bit c"
    using five_bit_testcase by (simp add: list_all_iff)
  moreover have "8 dvd length [116, 101, 115, 116, 99, 97, 115, 101 :: u8]"
    by (simp add: eval_nat_numeral)
  ultimately show ?thesis
    using huffman_encode_value_correct [of "[116, 101, 115, 116, 99, 97, 115, 101]" "\<lambda>_. True"]
      hpack_code.decode_encoded [of "[116, 101, 115, 116, 99, 97, 115, 101]" "\<lambda>_. True"]
    by (simp add: hpack_huffman_decode_bytes_def five_bit_def del: list.size)
qed

text \<open>
  The decoder is memory safe on every input: it never indexes outside its buffers and
  its \<open>assert\<close> never fires, whatever the bytes and whatever the allocator answers.
\<close>

theorem huffman_decode_safe: "hpack_huffman_decode_bytes alloc g_huffman_data buffer \<noteq> Undef u"
  using huffman_decode_outcomes by blast

text \<open>
  The padding of the last byte is never examined: the three errors the code has for wrong
  padding cannot occur, since the test before them always succeeds.
\<close>

theorem huffman_padding_never_checked:
  "hpack_huffman_decode_bytes alloc g_huffman_data buffer \<notin>
     {Err MoreThanOneByteNotDecoded, Err EightOrMoreBitsNotDecoded, Err LastBitsNotEos}"
  using huffman_decode_outcomes [of alloc buffer] by auto

end
