(* ===== verification/Hpack_Integer.thy ===== *)
theory Hpack_Integer
  imports Prelude
begin

text \<open>
  The variable-length integers of HPACK in \<open>src/http/hpack.c\<close> (RFC 7541, section 5.1):
  \<open>decode_hpack_variable_integer\<close> and \<open>encode_hpack_variable_integer\<close>. The decoder shifts an \<open>int\<close>, which is undefined
  as soon as the product leaves the 31 value bits; the model says so with \<open>Undef ShiftRange\<close>.
\<close>

section \<open>Decoder\<close>

datatype hpack_integer_error = NotEnoughBytes | FinalIntegerTooBig

text \<open>\<open>(byte & 0x7F) << amount\<close>: both operands are promoted to a 32-bit \<open>int\<close>.\<close>

definition int_shift_left :: "u8 \<Rightarrow> nat \<Rightarrow> ('e, u64) res" where
  "int_shift_left b amount =
     (if amount < 32 \<and> unat b * 2 ^ amount < 2 ^ 31 then Ok (word_of_nat (unat b * 2 ^ amount))
      else Undef ShiftRange)"

text \<open>The result carries the new value of \<open>*pos\<close>.\<close>

function decode_int_loop ::
  "bytes \<Rightarrow> nat \<Rightarrow> nat \<Rightarrow> u64 \<Rightarrow> (hpack_integer_error, u64 \<times> nat) res" where
  "decode_int_loop data pos amount result =
     (if pos \<ge> length data then Err NotEnoughBytes
      else
        (let byte = data ! pos in
         if amount div 8 \<ge> 8 - 1 then Err FinalIntegerTooBig
         else
           rbind (int_shift_left (byte AND 0x7F) amount) (\<lambda>part.
           let result' = result + part in
           if byte AND 0x80 = 0 then Ok (result', pos + 1)
           else decode_int_loop data (pos + 1) (amount + 7) result')))"
  by pat_completeness auto
termination
  by (relation "measure (\<lambda>(data, pos, amount, result). length data - pos)") auto

declare decode_int_loop.simps [simp del]

definition decode_hpack_variable_integer ::
  "bytes \<Rightarrow> nat \<Rightarrow> nat \<Rightarrow> (hpack_integer_error, u64 \<times> nat) res" where
  "decode_hpack_variable_integer data pos prefix_bits =
     (let mask = (push_bit prefix_bits 1 - 1 :: u8) in
      if \<not> pos < length data then Undef OutOfBounds
      else
        (let first_byte = data ! pos AND mask in
         if first_byte < mask then Ok (ucast first_byte, pos + 1)
         else decode_int_loop data (pos + 1) 0 (ucast first_byte)))"

section \<open>Encoder\<close>

text \<open>\<open>(sizeof (HpackVariableInteger) * 8 + 7) / 7\<close>\<close>

definition MAX_HPACK_VARIABLE_INTEGER_SIZE :: nat where
  "MAX_HPACK_VARIABLE_INTEGER_SIZE = (8 * 8 + 7) div 7"

text \<open>
  \<open>out_bytes[k]\<close> is cell \<open>off + k\<close> of the caller's block; the first byte already holds the bits
  above the prefix. The result is the \<open>int8_t\<close> return value and the block.
\<close>

function encode_int_loop :: "membuf \<Rightarrow> nat \<Rightarrow> nat \<Rightarrow> u64 \<Rightarrow> ('e, int \<times> membuf) res" where
  "encode_int_loop buf off idx v =
     (if idx > MAX_HPACK_VARIABLE_INTEGER_SIZE then Ok (-1, buf)
      else if v \<ge> 0x80 then
        rbind (write_cell buf (off + idx) (0x80 + ucast (v AND 0x7F))) (\<lambda>buf'.
        encode_int_loop buf' off (idx + 1) (v div 0x80))
      else
        rbind (write_cell buf (off + idx) (ucast v)) (\<lambda>buf'. Ok (int (idx + 1), buf')))"
  by pat_completeness auto
termination
  by (relation "measure (\<lambda>(buf, off, idx, v). Suc MAX_HPACK_VARIABLE_INTEGER_SIZE - idx)") auto

declare encode_int_loop.simps [simp del]

definition encode_hpack_variable_integer ::
  "membuf \<Rightarrow> nat \<Rightarrow> u64 \<Rightarrow> nat \<Rightarrow> ('e, int \<times> membuf) res" where
  "encode_hpack_variable_integer buf off input prefix_bits =
     (let mask = (push_bit prefix_bits 1 - 1 :: u8) in
      rbind (read_cell buf off) (\<lambda>first.
      if input < ucast mask then
        rbind (write_cell buf off (first OR ucast (input AND ucast mask))) (\<lambda>buf'. Ok (1, buf'))
      else
        rbind (write_cell buf off (first OR mask)) (\<lambda>buf'.
        encode_int_loop buf' off 1 (input - ucast mask))))"

section \<open>The reference encoding\<close>

fun cont_bytes :: "nat \<Rightarrow> bytes" where
  "cont_bytes v = (if v \<ge> 128 then word_of_nat (128 + v mod 128) # cont_bytes (v div 128)
                   else [word_of_nat v])"

declare cont_bytes.simps [simp del]

definition int_bytes :: "u8 \<Rightarrow> nat \<Rightarrow> nat \<Rightarrow> bytes" where
  "int_bytes hi prefix_bits v =
     (if v < 2 ^ prefix_bits - 1 then [hi OR word_of_nat v]
      else (hi OR mask prefix_bits) # cont_bytes (v - (2 ^ prefix_bits - 1)))"

lemma cont_bytes_not_Nil [simp]: "cont_bytes v \<noteq> []"
  by (subst cont_bytes.simps) simp

lemma int_bytes_not_Nil [simp]: "int_bytes hi p v \<noteq> []"
  by (simp add: int_bytes_def)

lemma length_cont_bytes: "v < 128 ^ n \<Longrightarrow> 0 < n \<Longrightarrow> length (cont_bytes v) \<le> n"
proof (induction n arbitrary: v)
  case (Suc n)
  show ?case
  proof (cases "v < 128")
    case True
    then show ?thesis by (subst cont_bytes.simps) simp
  next
    case False
    then have "0 < n" using Suc.prems by (cases n) auto
    moreover have "v div 128 < 128 ^ n"
      using Suc.prems by (simp add: less_mult_imp_div_less mult.commute)
    ultimately have "length (cont_bytes (v div 128)) \<le> n" by (intro Suc.IH)
    with False show ?thesis by (subst cont_bytes.simps) simp
  qed
qed simp

lemma length_int_bytes: "v < 2 ^ 31 \<Longrightarrow> length (int_bytes hi p v) \<le> 6"
  using length_cont_bytes [of "v - (2 ^ p - 1)" 5] by (auto simp: int_bytes_def)

section \<open>The decoder reads the reference encoding\<close>

lemma cont_byte_parts:
  assumes "k < 128"
  shows "(word_of_nat (128 + k) :: u8) AND 0x7F = word_of_nat k"
    and "(word_of_nat (128 + k) :: u8) AND 0x80 \<noteq> 0"
    and "(word_of_nat k :: u8) AND 0x7F = word_of_nat k"
    and "(word_of_nat k :: u8) AND 0x80 = 0"
proof -
  have m: "(0x7F :: u8) = mask 7" by (simp add: mask_eq_exp_minus_1)
  have e: "(0x80 :: u8) = 2 ^ 7" by simp
  have lo: "take_bit 7 (word_of_nat n :: u8) = word_of_nat (take_bit 7 n)" for n
    by (simp add: take_bit_of_nat)
  have t: "take_bit 7 (128 + k) = k" "take_bit 7 k = k"
    using assms by (simp_all add: take_bit_eq_mod)
  show "(word_of_nat (128 + k) :: u8) AND 0x7F = word_of_nat k"
    unfolding m take_bit_eq_mask [symmetric] lo t ..
  show "(word_of_nat k :: u8) AND 0x7F = word_of_nat k"
    unfolding m take_bit_eq_mask [symmetric] lo t ..
  have "(128 + k) div 128 = 1" using assms by (simp add: div_nat_eqI)
  then have b: "bit (128 + k) 7" "\<not> bit k 7"
    using assms by (simp_all add: bit_iff_odd)
  show "(word_of_nat (128 + k) :: u8) AND 0x80 \<noteq> 0" "(word_of_nat k :: u8) AND 0x80 = 0"
    unfolding e and_exp_eq_0_iff_not_bit using b by (simp_all add: bit_of_nat_iff del: of_nat_add)
qed

lemma decode_int_loop_cont:
  assumes "data = pre @ cont_bytes v @ suf" "v * 2 ^ amount < 2 ^ 31" "amount < 32"
  shows "decode_int_loop data (length pre) amount result =
    Ok (result + word_of_nat (v * 2 ^ amount), length pre + length (cont_bytes v))"
  using assms
proof (induction v arbitrary: pre amount result rule: cont_bytes.induct)
  case (1 v)
  show ?case
  proof (cases "128 \<le> v")
    case False
    then have c: "cont_bytes v = [word_of_nat v]" by (subst cont_bytes.simps) simp
    have sh: "int_shift_left (word_of_nat v) amount = Ok (word_of_nat (v * 2 ^ amount))"
      using False "1.prems" by (simp add: int_shift_left_def del: of_nat_mult)
    show ?thesis
      using False "1.prems" cont_byte_parts(3,4) [of v]
      by (subst decode_int_loop.simps) (simp add: c sh nth_append Let_def del: of_nat_mult)
  next
    case True
    let ?b = "word_of_nat (128 + v mod 128) :: u8"
    have c: "cont_bytes v = ?b # cont_bytes (v div 128)"
      using True by (subst cont_bytes.simps) simp
    have split: "v * 2 ^ amount = (v mod 128) * 2 ^ amount + (v div 128) * 2 ^ (amount + 7)"
    proof -
      have "v * 2 ^ amount = (v mod 128 + 128 * (v div 128)) * 2 ^ amount" by simp
      then show ?thesis by (simp only: power_add distrib_right) simp
    qed
    have hi: "v div 128 \<ge> 1" using True by (simp add: div_greater_zero_iff Suc_le_eq)
    then have "1 * 2 ^ (amount + 7) \<le> v div 128 * 2 ^ (amount + 7)" by (intro mult_le_mono1)
    then have "2 ^ (amount + 7) < (2 :: nat) ^ 31" using split "1.prems"(2) by linarith
    then have am: "amount + 7 < 31" by (rule power_less_imp_less_exp [rotated]) simp
    then have small: "\<not> 7 \<le> amount div 8" by simp
    have sh: "int_shift_left (word_of_nat (v mod 128)) amount
        = (Ok (word_of_nat (v mod 128 * 2 ^ amount)) :: (hpack_integer_error, u64) res)"
      using split "1.prems" by (simp add: int_shift_left_def del: of_nat_mult)
    have "decode_int_loop data (length pre) amount result =
        decode_int_loop data (length (pre @ [?b])) (amount + 7)
          (result + word_of_nat (v mod 128 * 2 ^ amount))"
      using "1.prems"(1) small cont_byte_parts(1,2) [of "v mod 128"]
      by (subst decode_int_loop.simps) (simp add: c sh nth_append Let_def del: of_nat_mult of_nat_add)
    also have "\<dots> = Ok (result + word_of_nat (v mod 128 * 2 ^ amount)
          + word_of_nat (v div 128 * 2 ^ (amount + 7)),
        length (pre @ [?b]) + length (cont_bytes (v div 128)))"
      using "1.prems"(1) am split "1.prems"(2) True
      by (intro "1.IH") (simp_all add: c)
    also have "result + word_of_nat (v mod 128 * 2 ^ amount) + word_of_nat (v div 128 * 2 ^ (amount + 7))
        = (result + word_of_nat (v * 2 ^ amount) :: u64)"
      unfolding split of_nat_add by (simp add: add.assoc)
    finally show ?thesis by (simp add: c)
  qed
qed

lemma hi_or_low:
  assumes "hi AND mask p = 0" "p \<le> 8" "v < 2 ^ p"
  shows "(hi OR word_of_nat v) AND mask p = (word_of_nat v :: u8)"
proof -
  have "(word_of_nat v :: u8) AND mask p = word_of_nat v"
    using assms(3) by (simp add: take_bit_eq_mask [symmetric] take_bit_of_nat take_bit_nat_eq_self)
  then show ?thesis using assms(1) by (simp add: bit.conj_disj_distrib2)
qed

lemma mask_u8: "(mask p :: u8) = word_of_nat (2 ^ p - 1)"
  by (simp add: mask_eq_exp_minus_1 of_nat_diff)

lemma unat_mask_u8: "p \<le> 8 \<Longrightarrow> unat (mask p :: u8) = 2 ^ p - 1"
  using power_increasing [of p 8 "2 :: nat"] by (simp add: mask_u8 unat_of_nat_u8 del: of_nat_diff)

lemma prefix_mask: "(push_bit p 1 - 1 :: u8) = mask p" "(2 ^ p - 1 :: u8) = mask p"
  by (simp_all add: mask_eq_exp_minus_1 push_bit_eq_mult)

lemma two_pow_le: "p \<le> 8 \<Longrightarrow> (2 :: nat) ^ p \<le> 256"
  using power_increasing [of p 8 "2 :: nat"] by simp

lemma decode_int_bytes_rem:
  assumes "hi AND mask p = 0" "p \<le> 8" "v - (2 ^ p - 1) < 2 ^ 31"
  shows "decode_hpack_variable_integer (pre @ int_bytes hi p v @ suf) (length pre) p =
    Ok (word_of_nat v, length pre + length (int_bytes hi p v))"
proof (cases "v < 2 ^ p - 1")
  case True
  with two_pow_le [OF assms(2)] have v: "v < 256" "v < 2 ^ p" by linarith+
  have "(word_of_nat v :: u8) < mask p"
    using True v by (simp add: word_less_nat_alt unat_mask_u8 [OF assms(2)])
  moreover have "ucast (word_of_nat v :: u8) = (word_of_nat v :: u64)"
    using v by (intro word_unat_eq_iff [THEN iffD2]) (simp add: unsigned_ucast_eq take_bit_nat_eq_self)
  ultimately show ?thesis
    using True hi_or_low [OF assms(1,2) v(2)]
    by (simp add: decode_hpack_variable_integer_def int_bytes_def prefix_mask nth_append Let_def)
next
  case False
  let ?m = "2 ^ p - 1 :: nat"
  have m: "?m < 2 ^ p" by simp
  have first: "(hi OR mask p) AND mask p = (mask p :: u8)"
    using hi_or_low [OF assms(1,2) m] unfolding mask_u8 [symmetric] .
  have u: "ucast (mask p :: u8) = (word_of_nat ?m :: u64)"
    using two_pow_le [OF assms(2)]
    by (intro word_unat_eq_iff [THEN iffD2])
       (simp add: unsigned_ucast_eq take_bit_nat_eq_self unat_mask_u8 [OF assms(2)] del: of_nat_diff)
  have b: "(v - ?m) * 2 ^ 0 < 2 ^ 31"
    using assms(3) by simp
  have "decode_int_loop (pre @ int_bytes hi p v @ suf) (length (pre @ [hi OR mask p])) 0 (ucast (mask p :: u8))
     = Ok (ucast (mask p :: u8) + word_of_nat ((v - ?m) * 2 ^ 0),
           length (pre @ [hi OR mask p]) + length (cont_bytes (v - ?m)))"
    using False by (intro decode_int_loop_cont [OF _ b]) (simp_all add: int_bytes_def)
  moreover have "(word_of_nat ?m + word_of_nat (v - ?m) :: u64) = word_of_nat v"
    using False by (simp add: of_nat_add [symmetric] del: of_nat_add of_nat_diff)
  ultimately show ?thesis
    using False first
    by (simp add: decode_hpack_variable_integer_def int_bytes_def prefix_mask nth_append Let_def u
        del: of_nat_diff)
qed

lemma decode_int_bytes:
  assumes "hi AND mask p = 0" "p \<le> 8" "v < 2 ^ 31"
  shows "decode_hpack_variable_integer (pre @ int_bytes hi p v @ suf) (length pre) p =
    Ok (word_of_nat v, length pre + length (int_bytes hi p v))"
  using le_less_trans [OF diff_le_self assms(3), of "2 ^ p - 1"]
  by (intro decode_int_bytes_rem assms)

section \<open>The encoder writes the reference encoding\<close>

lemma low_seven:
  "(ucast ((v :: u64) AND 0x7F) :: u8) = word_of_nat (unat v mod 128)"
proof -
  have "v AND 0x7F = take_bit 7 v" by (simp add: take_bit_eq_mask mask_eq_exp_minus_1)
  then have "unat (v AND 0x7F) = unat v mod 128"
    by (simp only: unsigned_take_bit_eq) (simp add: take_bit_eq_mod)
  then show ?thesis
    by (intro word_unat_eq_iff [THEN iffD2]) (simp only: unsigned_ucast_eq, simp add: take_bit_eq_mod)
qed

lemma encode_int_loop_cont:
  assumes "filled buf xs" "off + idx = length xs"
    "idx + length (cont_bytes v) \<le> MAX_HPACK_VARIABLE_INTEGER_SIZE + 1"
    "length xs + length (cont_bytes v) \<le> length buf" "unat w = v"
  shows "\<exists>buf'. encode_int_loop buf off idx w =
      (Ok (int (idx + length (cont_bytes v)), buf') :: ('e, _) res) \<and>
    length buf' = length buf \<and> filled buf' (xs @ cont_bytes v)"
  using assms
proof (induction v arbitrary: buf xs idx w rule: cont_bytes.induct)
  case (1 v)
  have room: "length xs < length buf" "\<not> idx > MAX_HPACK_VARIABLE_INTEGER_SIZE"
  proof -
    have "0 < length (cont_bytes v)" by simp
    then show "length xs < length buf" "\<not> idx > MAX_HPACK_VARIABLE_INTEGER_SIZE"
      using "1.prems"(3,4) by linarith+
  qed
  show ?case
  proof (cases "128 \<le> v")
    case False
    then have c: "cont_bytes v = [word_of_nat v]" by (subst cont_bytes.simps) simp
    have w: "\<not> w \<ge> 0x80" "(ucast w :: u8) = word_of_nat v"
      using False "1.prems"(5)
      by (auto simp: word_le_nat_alt unsigned_ucast_eq take_bit_nat_eq_self word_unat_eq_iff)
    show ?thesis
      using filled_write(2) [OF "1.prems"(1) room(1), of "word_of_nat v"] w room "1.prems"(2)
      by (subst encode_int_loop.simps) (simp add: c write_cell_Ok)
  next
    case True
    let ?b = "word_of_nat (128 + v mod 128) :: u8"
    have c: "cont_bytes v = ?b # cont_bytes (v div 128)"
      using True by (subst cont_bytes.simps) simp
    have w: "w \<ge> 0x80" "0x80 + (ucast (w AND 0x7F) :: u8) = ?b" "unat (w div 0x80) = v div 128"
      using True "1.prems"(5) by (auto simp: word_le_nat_alt low_seven unat_div)
    let ?buf = "buf[length xs := Some ?b]"
    note wr = filled_write [OF "1.prems"(1) room(1), of ?b]
    have "\<exists>buf'. encode_int_loop ?buf off (idx + 1) (w div 0x80) =
        (Ok (int (idx + 1 + length (cont_bytes (v div 128))), buf') :: ('e, _) res) \<and>
        length buf' = length ?buf \<and> filled buf' ((xs @ [?b]) @ cont_bytes (v div 128))"
      by (rule "1.IH" [OF True wr(2)]) (use "1.prems" w(3) in \<open>simp_all add: c\<close>)
    then show ?thesis
      using w(1,2) room "1.prems"(2)
      by (subst encode_int_loop.simps) (simp add: c write_cell_Ok del: of_nat_add)
  qed
qed

lemma encode_int_bytes:
  assumes "filled buf (bs @ [hi])" "p \<le> 8" "unat w = v"
    "length bs + length (int_bytes hi p v) \<le> length buf"
    "length (int_bytes hi p v) \<le> MAX_HPACK_VARIABLE_INTEGER_SIZE + 1"
  shows "\<exists>buf'. encode_hpack_variable_integer buf (length bs) w p =
      (Ok (int (length (int_bytes hi p v)), buf') :: ('e, _) res) \<and>
    length buf' = length buf \<and> filled buf' (bs @ int_bytes hi p v)"
proof -
  note up = filled_update_last [OF assms(1)]
  have m: "ucast (mask p :: u8) = (word_of_nat (2 ^ p - 1) :: u64)"
    using two_pow_le [OF assms(2)]
    by (intro word_unat_eq_iff [THEN iffD2])
       (simp add: unsigned_ucast_eq take_bit_nat_eq_self unat_mask_u8 [OF assms(2)] del: of_nat_diff)
  have um: "unat (ucast (mask p :: u8) :: u64) = 2 ^ p - 1"
    using two_pow_le [OF assms(2)] by (simp add: m del: of_nat_diff)
  show ?thesis
  proof (cases "v < 2 ^ p - 1")
    case True
    have "w AND ucast (mask p :: u8) = w"
    proof -
      have "w AND mask p = w"
        using True assms(3) by (simp add: take_bit_eq_mask [symmetric] 
            word_unat_eq_iff unsigned_take_bit_eq take_bit_nat_eq_self)
      moreover have "ucast (mask p :: u8) = (mask p :: u64)"
        unfolding m by (simp add: mask_eq_exp_minus_1 of_nat_diff)
      ultimately show ?thesis by simp
    qed
    moreover have "(ucast w :: u8) = word_of_nat v"
      using True two_pow_le [OF assms(2)] assms(3)
      by (auto simp: word_unat_eq_iff unsigned_ucast_eq take_bit_nat_eq_self)
    ultimately show ?thesis
      using True assms(3) um up(3)
      by (simp add: up(1,2) encode_hpack_variable_integer_def prefix_mask Let_def int_bytes_def word_less_nat_alt)
  next
    case False
    let ?r = "v - (2 ^ p - 1)"
    have w: "unat (w - ucast (mask p :: u8)) = ?r"
      using False assms(3) um by (subst unat_sub) (auto simp: word_le_nat_alt)
    let ?buf = "buf[length bs := Some (hi OR mask p)]"
    have "\<exists>buf'. encode_int_loop ?buf (length bs) 1 (w - ucast (mask p :: u8)) =
        (Ok (int (1 + length (cont_bytes ?r)), buf') :: ('e, _) res) \<and> length buf' = length ?buf \<and>
        filled buf' ((bs @ [hi OR mask p]) @ cont_bytes ?r)"
      using assms(4,5) False w up(3) by (intro encode_int_loop_cont) (simp_all add: int_bytes_def)
    then show ?thesis
      using False assms(3) um
      by (simp add: up(1,2) encode_hpack_variable_integer_def prefix_mask Let_def int_bytes_def word_less_nat_alt)
  qed
qed

section \<open>Every outcome of the decoder\<close>

lemma decode_int_loop_too_big:
  assumes "data = pre @ cont_bytes v @ suf" "2 ^ 31 \<le> v * 2 ^ amount \<or> 32 \<le> amount" "amount < 56"
  shows "decode_int_loop data (length pre) amount result = Undef ShiftRange"
  using assms
proof (induction v arbitrary: pre amount result rule: cont_bytes.induct)
  case (1 v)
  have small: "\<not> 7 \<le> amount div 8" using "1.prems"(3) by simp
  have nz: "cont_bytes v ! 0 = data ! length pre" "length pre < length data"
    using "1.prems"(1) by (simp_all add: nth_append)
  show ?case
  proof (cases "128 \<le> v")
    case False
    then have c: "cont_bytes v = [word_of_nat v]" by (subst cont_bytes.simps) simp
    show ?thesis
      using False nz(2) nz(1) [symmetric] small cont_byte_parts(3,4) [of v] "1.prems"(2)
      by (subst decode_int_loop.simps) (auto simp add: c Let_def int_shift_left_def)
  next
    case True
    let ?b = "word_of_nat (128 + v mod 128) :: u8"
    have c: "cont_bytes v = ?b # cont_bytes (v div 128)"
      using True by (subst cont_bytes.simps) simp
    have step: "decode_int_loop data (length pre) amount result =
        rbind (int_shift_left (word_of_nat (v mod 128)) amount) (\<lambda>part.
          decode_int_loop data (length (pre @ [?b])) (amount + 7) (result + part))"
      using nz(2) nz(1) [symmetric] small cont_byte_parts(1,2) [of "v mod 128"]
      by (subst decode_int_loop.simps) (simp add: c Let_def del: of_nat_add)
    show ?thesis
    proof (cases "amount < 32 \<and> v mod 128 * 2 ^ amount < 2 ^ 31")
      case False
      then show ?thesis unfolding step by (auto simp add: int_shift_left_def)
    next
      case ok: True
      have "2 ^ 31 \<le> v div 128 * 2 ^ (amount + 7) \<or> 32 \<le> amount + 7"
      proof (cases "amount < 25")
        case True
        then have e: "(2 :: nat) ^ 31 = 2 ^ (24 - amount) * 2 ^ (amount + 7)"
          by (simp add: power_add [symmetric])
        have "2 ^ 31 = 2 ^ (31 - amount) * (2 :: nat) ^ amount"
          using True by (simp add: power_add [symmetric])
        then have "2 ^ (31 - amount) * 2 ^ amount \<le> v * 2 ^ amount" using "1.prems"(2) ok by linarith
        then have "2 ^ (31 - amount) \<le> v" by simp
        moreover have "(2 :: nat) ^ (31 - amount) = 2 ^ (24 - amount) * 128"
        proof -
          have "31 - amount = (24 - amount) + 7" using True by simp
          then show ?thesis by (simp only: power_add) simp
        qed
        ultimately have "2 ^ (24 - amount) \<le> v div 128" by (simp add: less_eq_div_iff_mult_less_eq)
        then show ?thesis unfolding e by (intro disjI1 mult_le_mono1)
      qed simp
      then have "decode_int_loop data (length (pre @ [?b])) (amount + 7)
          (result + word_of_nat (v mod 128 * 2 ^ amount)) = Undef ShiftRange"
        using ok "1.prems"(1) by (intro "1.IH" [OF True]) (simp_all add: c)
      then show ?thesis unfolding step using ok by (simp add: int_shift_left_def del: of_nat_mult)
    qed
  qed
qed

lemma decode_int_loop_outcomes:
  assumes "unat result < 2 ^ 31 * (amount + 1)"
  shows "case decode_int_loop data pos amount result of
      Ok (v, pos') \<Rightarrow> pos < pos' \<and> pos' \<le> length data \<and> unat v < 2 ^ 37
    | Err e \<Rightarrow> True | Undef u \<Rightarrow> u = ShiftRange"
  using assms
proof (induction data pos amount result rule: decode_int_loop.induct)
  case (1 data pos amount result)
  show ?case
  proof (cases "pos \<ge> length data \<or> amount div 8 \<ge> 8 - 1")
    case True
    then show ?thesis by (subst decode_int_loop.simps) (auto simp: Let_def)
  next
    case False
    let ?b = "data ! pos"
    show ?thesis
    proof (cases "int_shift_left (?b AND 0x7F) amount :: (hpack_integer_error, u64) res")
      case (Ok part)
      then have part: "unat part < 2 ^ 31" "amount < 32"
        by (auto simp: int_shift_left_def simp del: of_nat_mult split: if_splits)
      have s: "unat (result + part) = unat result + unat part"
        using "1.prems" part by (subst unat_add_lem [THEN iffD1]) auto
      then have s': "unat (result + part) < 2 ^ 31 * (amount + 7 + 1)" "unat (result + part) < 2 ^ 37"
        using "1.prems" part by auto
      have step: "decode_int_loop data pos amount result =
          (if ?b AND 0x80 = 0 then Ok (result + part, pos + 1)
           else decode_int_loop data (pos + 1) (amount + 7) (result + part))"
        using False Ok by (subst decode_int_loop.simps) (simp add: Let_def)
      show ?thesis
      proof (cases "?b AND 0x80 = 0")
        case True
        then show ?thesis using False s'(2) by (simp add: step)
      next
        case cont: False
        have "case decode_int_loop data (pos + 1) (amount + 7) (result + part) of
            Ok (v, pos') \<Rightarrow> pos + 1 < pos' \<and> pos' \<le> length data \<and> unat v < 2 ^ 37
          | Err e \<Rightarrow> True | Undef u \<Rightarrow> u = ShiftRange"
          using False Ok cont s'(1) by (intro "1.IH") (auto simp: Let_def)
        then show ?thesis using cont by (simp add: step split: res.splits prod.splits)
      qed
    next
      case (Undef u)
      then show ?thesis
        using False
        by (subst decode_int_loop.simps) (auto simp: Let_def int_shift_left_def split: if_splits)
    qed (simp add: int_shift_left_def split: if_splits)
  qed
qed

lemma decode_integer_outcomes:
  assumes "pos < length data"
  shows "case decode_hpack_variable_integer data pos p of
      Ok (v, pos') \<Rightarrow> pos < pos' \<and> pos' \<le> length data \<and> unat v < 2 ^ 37
    | Err e \<Rightarrow> True | Undef u \<Rightarrow> u = ShiftRange"
proof -
  have b: "unat (ucast (b :: u8) :: u64) < 256" for b
    by (rule le_less_trans [OF _ unat_u8_less [of b]]) (simp add: unsigned_ucast_eq)
  have b': "unat (ucast (b :: u8) :: u64) < 2 ^ 31 * (0 + 1)" "unat (ucast (b :: u8) :: u64) < 2 ^ 37" for b
    using b [of b] by auto
  show ?thesis
    using decode_int_loop_outcomes [OF b'(1) [of "data ! pos AND mask p"], where data = data and pos = "pos + 1"]
      assms b'(2) [of "data ! pos AND mask p"]
    by (auto simp: prefix_mask decode_hpack_variable_integer_def Let_def split: res.splits prod.splits)
qed

section \<open>The interface: self-delimiting codes\<close>

text \<open>
  A code whose decoder, started anywhere in a block, reads back what the encoder put there and
  stops right behind it; \<open>ok x suf\<close> restricts the values and what may follow. The integers of
  this theory and the string literals of the header fields are such codes.
\<close>

locale prefix_codec =
  fixes enc :: "'a \<Rightarrow> bytes"
    and dec :: "bytes \<Rightarrow> nat \<Rightarrow> ('e, 'a \<times> nat) res"
    and ok :: "'a \<Rightarrow> bytes \<Rightarrow> bool"
  assumes dec_enc:
    "ok x suf \<Longrightarrow> dec (pre @ enc x @ suf) (length pre) = Ok (x, length pre + length (enc x))"
begin

lemma dec_start: "ok x suf \<Longrightarrow> dec (enc x @ suf) 0 = Ok (x, length (enc x))"
  using dec_enc [of x suf "[]"] by simp

text \<open>No code word is a proper prefix of another one.\<close>

lemma prefix_free:
  assumes "enc x @ s = enc y @ t" "ok x s" "ok y t"
  shows "x = y \<and> s = t"
proof -
  have "(Ok (x, length (enc x)) :: ('e, 'a \<times> nat) res) = Ok (y, length (enc y))"
    using dec_start [OF assms(2)] dec_start [OF assms(3)] assms(1) by metis
  then show ?thesis using assms(1) by simp
qed

end

interpretation int_codec:
  prefix_codec "\<lambda>v :: u64. int_bytes hi p (unat v)" "\<lambda>data pos. decode_hpack_variable_integer data pos p"
    "\<lambda>v _. unat v < 2 ^ 31 \<and> hi AND mask p = 0 \<and> p \<le> 8"
  for hi p
proof
  fix x :: u64 and suf pre :: bytes
  assume "unat x < 2 ^ 31 \<and> hi AND mask p = 0 \<and> p \<le> 8"
  then show "decode_hpack_variable_integer (pre @ int_bytes hi p (unat x) @ suf) (length pre) p =
      Ok (x, length pre + length (int_bytes hi p (unat x)))"
    using decode_int_bytes [of hi p "unat x" pre suf] by simp
qed

lemma length_int_bytes_u64: "length (int_bytes hi p (unat (w :: u64))) \<le> 11"
proof -
  have "unat w - (2 ^ p - 1) < 128 ^ 10"
    using le_less_trans [OF diff_le_self, of "unat w" "128 ^ 10" "2 ^ p - 1"] unat_u64_less [of w]
    by simp
  then show ?thesis using length_cont_bytes [of "unat w - (2 ^ p - 1)" 10] by (simp add: int_bytes_def)
qed

lemma decode_int_bytes_too_big:
  assumes "hi AND mask p = 0" "p \<le> 8" "2 ^ 31 \<le> v - (2 ^ p - 1)"
  shows "decode_hpack_variable_integer (pre @ int_bytes hi p v @ suf) (length pre) p = Undef ShiftRange"
proof -
  let ?m = "2 ^ p - 1 :: nat"
  have v: "\<not> v < ?m" using assms(3) by (metis diff_is_0_eq less_imp_le_nat not_le zero_less_numeral zero_less_power)
  have first: "(hi OR mask p) AND mask p = (mask p :: u8)"
    using hi_or_low [OF assms(1,2), of ?m] unfolding mask_u8 [symmetric] by simp
  have "decode_int_loop (pre @ int_bytes hi p v @ suf) (length (pre @ [hi OR mask p])) 0 (ucast (mask p :: u8))
     = Undef ShiftRange"
    using v assms(3) by (intro decode_int_loop_too_big [of _ _ "v - ?m" suf]) (simp_all add: int_bytes_def)
  then show ?thesis
    using v first
    by (simp add: decode_hpack_variable_integer_def int_bytes_def prefix_mask nth_append Let_def)
qed

section \<open>Properties\<close>



end
