(* ===== verification/Dynamic_Table.thy ===== *)
theory Dynamic_Table
  imports Prelude
begin

text \<open>
  \<open>src/http/dynamic_hpack_table.c\<close>: the cyclic buffer behind the HPACK dynamic table, with its
  growth and shrink steps. The heap array \<open>entries\<close> is a list with one cell per allocated
  entry; a cell holds \<open>None\<close> until it is written, since \<open>realloc\<close> leaves new memory
  uninitialised. The model is the build without \<open>DYNAMIC_HPACK_TABLE_FORTIFIED\<close>; the \<open>assert\<close>s
  of the code are checked and give \<open>Undef AssertFailed\<close>. \<open>alloc n\<close> says whether \<open>realloc\<close> to
  \<open>n\<close> entries succeeds. The entries are opaque to the container, so their type is a
  parameter.

  The specification is the list \<open>abs_table\<close> of the stored entries, newest first; the locale
  \<open>entry_queue\<close> states the contract that the HPACK code relies on.
\<close>

section \<open>State\<close>

record 'e HpackHeaderDynamicTable =
  entries :: "'e option list"
  count :: nat
  capacity :: nat
  start :: nat

definition hpack_dynamic_table_get_empty :: "'e HpackHeaderDynamicTable" where
  "hpack_dynamic_table_get_empty = \<lparr>entries = [], count = 0, capacity = 0, start = 0\<rparr>"

text \<open>An index modulo \<open>capacity\<close>, which divides by zero on an unallocated table.\<close>

definition ring_mod :: "nat \<Rightarrow> nat \<Rightarrow> (unit, nat) res" where
  "ring_mod i cap = (if cap = 0 then Undef DivisionByZero else Ok (i mod cap))"

text \<open>\<open>realloc\<close> of the entry array: keeps the common prefix, new cells are uninitialised.\<close>

definition realloc_entries :: "'e option list \<Rightarrow> nat \<Rightarrow> 'e option list" where
  "realloc_entries es n = take n es @ replicate (n - length es) None"

section \<open>Operations\<close>

definition hpack_dynamic_table_at ::
  "'e HpackHeaderDynamicTable \<Rightarrow> nat \<Rightarrow> (unit, 'e option) res" where
  "hpack_dynamic_table_at t index =
     (if index \<ge> count t then Ok None
      else rbind (ring_mod (start t + index) (capacity t)) (\<lambda>idx.
           rbind (read_cell (entries t) idx) (\<lambda>e. Ok (Some e))))"

definition hpack_dynamic_table_size :: "'e HpackHeaderDynamicTable \<Rightarrow> nat" where
  "hpack_dynamic_table_size t = count t"

text \<open>Freeing visits every used cell, then resets the table.\<close>

fun free_entries_loop :: "'e HpackHeaderDynamicTable \<Rightarrow> nat \<Rightarrow> nat \<Rightarrow> (unit, unit) res" where
  "free_entries_loop t i 0 = Ok ()"
| "free_entries_loop t i (Suc rest_count) =
     rbind (read_cell (entries t) i) (\<lambda>_.
     rbind (ring_mod (i + 1) (capacity t)) (\<lambda>i'. free_entries_loop t i' rest_count))"

definition hpack_dynamic_table_free ::
  "'e HpackHeaderDynamicTable \<Rightarrow> (unit, 'e HpackHeaderDynamicTable) res" where
  "hpack_dynamic_table_free t =
     rbind (free_entries_loop t (start t) (count t)) (\<lambda>_. Ok hpack_dynamic_table_get_empty)"

definition IMPL_CALC_GROW :: "nat \<Rightarrow> nat" where
  "IMPL_CALC_GROW cap = (if cap = 0 then 32 else cap * 2)"

definition IMPL_SHOULD_SHRINK :: "nat \<Rightarrow> nat \<Rightarrow> bool" where
  "IMPL_SHOULD_SHRINK cnt cap \<longleftrightarrow> cnt < cap div 4"

definition IMPL_CALC_SHRINK :: "nat \<Rightarrow> nat" where
  "IMPL_CALC_SHRINK cap = cap div 2"

text \<open>
  The two compaction loops of the shrink step: from the last entry down when the first entry
  lies in the part to be cut off, from the first entry up otherwise.
\<close>

fun compact_from_end ::
  "'e HpackHeaderDynamicTable \<Rightarrow> nat \<Rightarrow> nat \<Rightarrow> 'e option list \<Rightarrow> (unit, 'e option list) res" where
  "compact_from_end t new_capacity 0 es = Ok es"
| "compact_from_end t new_capacity (Suc k) es =
     rbind (ring_mod (start t + k) (capacity t)) (\<lambda>old_idx.
     rbind (read_cell es old_idx) (\<lambda>old_entry.
     rbind (check_assert (k < count t \<and> k < new_capacity)) (\<lambda>_.
     rbind (check_assert (old_idx \<noteq> k)) (\<lambda>_.
     rbind (write_cell es k old_entry) (\<lambda>es'.
     compact_from_end t new_capacity k es')))))"

fun compact_from_front ::
  "'e HpackHeaderDynamicTable \<Rightarrow> nat \<Rightarrow> nat \<Rightarrow> nat \<Rightarrow> 'e option list \<Rightarrow> (unit, 'e option list) res" where
  "compact_from_front t new_capacity i 0 es = Ok es"
| "compact_from_front t new_capacity i (Suc todo) es =
     rbind (check_assert (start t + i < capacity t)) (\<lambda>_.
     rbind (ring_mod (start t + i) (capacity t)) (\<lambda>old_idx.
     rbind (read_cell es old_idx) (\<lambda>old_entry.
     rbind (check_assert (i < count t \<and> i < new_capacity)) (\<lambda>_.
     rbind (check_assert (old_idx \<noteq> i)) (\<lambda>_.
     rbind (write_cell es i old_entry) (\<lambda>es'.
     compact_from_front t new_capacity (Suc i) todo es'))))))"

text \<open>
  The shrink block of \<open>hpack_dynamic_table_pop_at_end\<close>, after \<open>count\<close> was decremented. A failing
  \<open>realloc\<close> to a smaller size ends the process (\<open>UNREACHABLE\<close>).
\<close>

definition shrink_table ::
  "(nat \<Rightarrow> bool) \<Rightarrow> 'e HpackHeaderDynamicTable \<Rightarrow> (unit, 'e HpackHeaderDynamicTable) res" where
  "shrink_table alloc t =
     (let new_capacity = IMPL_CALC_SHRINK (capacity t) in
      if new_capacity < 32 then Ok t
      else
        rbind (check_assert (new_capacity \<noteq> 0)) (\<lambda>_.
        rbind (if start t \<ge> new_capacity then compact_from_end t new_capacity (count t) (entries t)
               else if start t = 0 then Ok (entries t)
               else compact_from_front t new_capacity 0 (count t) (entries t)) (\<lambda>es.
        if \<not> alloc new_capacity then Undef ProcessExit
        else Ok (t\<lparr>entries := realloc_entries es new_capacity,
                   capacity := new_capacity, start := 0\<rparr>))))"

definition hpack_dynamic_table_pop_at_end ::
  "(nat \<Rightarrow> bool) \<Rightarrow> 'e HpackHeaderDynamicTable
     \<Rightarrow> (unit, 'e option \<times> 'e HpackHeaderDynamicTable) res" where
  "hpack_dynamic_table_pop_at_end alloc t =
     (if count t = 0 then Ok (None, t)
      else
        rbind (ring_mod (start t + count t - 1) (capacity t)) (\<lambda>last_idx.
        rbind (read_cell (entries t) last_idx) (\<lambda>e.
        let t1 = t\<lparr>count := count t - 1\<rparr> in
        if IMPL_SHOULD_SHRINK (count t1) (capacity t1)
        then rbind (shrink_table alloc t1) (\<lambda>t2. Ok (Some e, t2))
        else Ok (Some e, t1))))"

text \<open>Growing moves the wrapped-around front part behind the old end.\<close>

fun relocate_wrapped :: "nat \<Rightarrow> nat \<Rightarrow> nat \<Rightarrow> 'e option list \<Rightarrow> (unit, 'e option list) res" where
  "relocate_wrapped cnt i 0 es = Ok es"
| "relocate_wrapped cnt i (Suc todo) es =
     rbind (read_cell es i) (\<lambda>e.
     rbind (write_cell es (cnt + i) e) (\<lambda>es'. relocate_wrapped cnt (Suc i) todo es'))"

definition grow_table ::
  "'e HpackHeaderDynamicTable \<Rightarrow> nat \<Rightarrow> (unit, 'e HpackHeaderDynamicTable) res" where
  "grow_table t new_capacity =
     rbind (relocate_wrapped (count t) 0 (start t) (realloc_entries (entries t) new_capacity)) (\<lambda>es.
     Ok (t\<lparr>entries := es, capacity := new_capacity\<rparr>))"

definition place_at_start ::
  "'e HpackHeaderDynamicTable \<Rightarrow> 'e \<Rightarrow> (unit, 'e HpackHeaderDynamicTable) res" where
  "place_at_start t e =
     rbind (ring_mod (start t + capacity t - 1) (capacity t)) (\<lambda>first_free_idx.
     rbind (write_cell (entries t) first_free_idx e) (\<lambda>es.
     Ok (t\<lparr>start := first_free_idx, entries := es, count := count t + 1\<rparr>)))"

definition hpack_dynamic_table_insert_at_start ::
  "(nat \<Rightarrow> bool) \<Rightarrow> 'e HpackHeaderDynamicTable \<Rightarrow> 'e
     \<Rightarrow> (unit, bool \<times> 'e HpackHeaderDynamicTable) res" where
  "hpack_dynamic_table_insert_at_start alloc t e =
     (if count t \<ge> capacity t then
        (let new_capacity = IMPL_CALC_GROW (capacity t) in
         if \<not> alloc new_capacity then Ok (False, t)
         else rbind (grow_table t new_capacity) (\<lambda>t1.
              rbind (place_at_start t1 e) (\<lambda>t2. Ok (True, t2))))
      else rbind (place_at_start t e) (\<lambda>t2. Ok (True, t2)))"

section \<open>Abstraction and invariant\<close>

definition slot :: "'e HpackHeaderDynamicTable \<Rightarrow> nat \<Rightarrow> nat" where
  "slot t i = (start t + i) mod capacity t"

definition abs_table :: "'e HpackHeaderDynamicTable \<Rightarrow> 'e list" where
  "abs_table t = map (\<lambda>i. the (entries t ! slot t i)) [0..<count t]"

definition table_inv :: "'e HpackHeaderDynamicTable \<Rightarrow> bool" where
  "table_inv t \<longleftrightarrow>
     length (entries t) = capacity t \<and> count t \<le> capacity t \<and>
     (if capacity t = 0 then start t = 0 else start t < capacity t) \<and>
     (\<forall>i < count t. entries t ! slot t i \<noteq> None)"

lemma length_abs_table [simp]: "length (abs_table t) = count t"
  by (simp add: abs_table_def)

lemma abs_table_empty [simp]: "abs_table hpack_dynamic_table_get_empty = []"
  by (simp add: abs_table_def hpack_dynamic_table_get_empty_def)

lemma table_inv_empty [simp]: "table_inv hpack_dynamic_table_get_empty"
  by (simp add: table_inv_def hpack_dynamic_table_get_empty_def)

text \<open>The invariant and the abstraction together, as one statement about the cells.\<close>

lemma table_repr_iff:
  "table_inv t \<and> abs_table t = xs \<longleftrightarrow>
     length (entries t) = capacity t \<and> count t \<le> capacity t \<and> count t = length xs \<and>
     (if capacity t = 0 then start t = 0 else start t < capacity t) \<and>
     (\<forall>i < count t. entries t ! slot t i = Some (xs ! i))"
proof -
  have "abs_table t = xs \<longleftrightarrow> count t = length xs \<and> (\<forall>i < count t. the (entries t ! slot t i) = xs ! i)"
    by (auto simp: abs_table_def list_eq_iff_nth_eq)
  moreover have "(\<forall>i < count t. entries t ! slot t i \<noteq> None) \<and>
      (\<forall>i < count t. the (entries t ! slot t i) = xs ! i) \<longleftrightarrow>
      (\<forall>i < count t. entries t ! slot t i = Some (xs ! i))"
    by (auto simp: option.the_def split: option.splits)
  ultimately show ?thesis unfolding table_inv_def by blast
qed

lemma slot_count_update [simp]: "slot (t\<lparr>count := n\<rparr>) i = slot t i"
  by (simp add: slot_def)

lemma slot_less: "0 < capacity t \<Longrightarrow> slot t i < capacity t"
  by (simp add: slot_def)

lemma ring_mod_Ok: "0 < cap \<Longrightarrow> ring_mod i cap = Ok (i mod cap)"
  by (simp add: ring_mod_def)

lemmas cell_Ok = read_cell_Some write_cell_Ok ring_mod_Ok check_assert_Ok

section \<open>Correctness of the loops\<close>

lemma compact_from_end_correct:
  assumes "0 < capacity t" "start t < capacity t" "new_cap \<le> start t" "count t < new_cap"
    and "n \<le> count t" "length es = capacity t"
    and "\<And>j. j < n \<Longrightarrow> es ! slot t j = Some (f j)"
  shows "\<exists>es'. compact_from_end t new_cap n es = Ok es' \<and> length es' = length es \<and>
    (\<forall>j < n. es' ! j = Some (f j)) \<and> (\<forall>j \<ge> n. es' ! j = es ! j)"
  using assms(5-)
proof (induction n arbitrary: es)
  case (Suc k)
  let ?es = "es[k := Some (f k)]"
  have below: "slot t j \<noteq> k" if "j \<le> k" for j
  proof (cases "start t + j < capacity t")
    case True
    then show ?thesis using assms(1-4) Suc.prems that by (simp add: slot_def)
  next
    case False
    then have "slot t j = start t + j - capacity t"
      using assms(1-4) Suc.prems that by (simp add: slot_def mod_if)
    then show ?thesis using assms(1-4) Suc.prems that False by linarith
  qed
  have "\<exists>es'. compact_from_end t new_cap k ?es = Ok es' \<and> length es' = length ?es \<and>
      (\<forall>j < k. es' ! j = Some (f j)) \<and> (\<forall>j \<ge> k. es' ! j = ?es ! j)"
  proof (rule Suc.IH)
    fix j assume j: "j < k"
    then show "?es ! slot t j = Some (f j)"
      using Suc.prems(3) [of j] below [of j] by simp
  qed (use Suc.prems in simp_all)
  then obtain es' where es': "compact_from_end t new_cap k ?es = Ok es'" "length es' = length es"
    "\<forall>j < k. es' ! j = Some (f j)" "\<forall>j \<ge> k. es' ! j = ?es ! j"
    by auto
  have k: "k < length es" using Suc.prems assms(1-4) by simp
  have rd: "read_cell es ((start t + k) mod capacity t) = (Ok (f k) :: (unit, _) res)"
    using Suc.prems(2) Suc.prems(3) [of k] assms(1)
    by (intro read_cell_Some) (simp_all add: slot_def)
  have ne: "(start t + k) mod capacity t \<noteq> k" using below [of k] by (simp add: slot_def)
  have "compact_from_end t new_cap (Suc k) es = Ok es'"
    using rd ne k es'(1) assms(1,4) Suc.prems(1) by (simp add: cell_Ok)
  moreover have "\<forall>j < Suc k. es' ! j = Some (f j)"
    using es'(3,4) k by (auto simp: less_Suc_eq)
  moreover have "\<forall>j \<ge> Suc k. es' ! j = es ! j" using es'(4) by simp
  ultimately show ?case using es'(2) by blast
qed simp

lemma compact_from_front_correct:
  assumes "0 < start t" "start t + count t < capacity t" "count t < new_cap"
    and "i + n = count t" "length es = capacity t"
    and "\<And>j. i \<le> j \<Longrightarrow> j < count t \<Longrightarrow> es ! (start t + j) = Some (f j)"
  shows "\<exists>es'. compact_from_front t new_cap i n es = Ok es' \<and> length es' = length es \<and>
    (\<forall>j. i \<le> j \<and> j < count t \<longrightarrow> es' ! j = Some (f j)) \<and> (\<forall>j < i. es' ! j = es ! j)"
  using assms(4-)
proof (induction n arbitrary: i es)
  case (Suc n)
  let ?es = "es[i := Some (f i)]"
  have i: "i < count t" "i < length es" "start t + i < capacity t"
    using Suc.prems assms(1-3) by simp_all
  have "\<exists>es'. compact_from_front t new_cap (Suc i) n ?es = Ok es' \<and> length es' = length ?es \<and>
      (\<forall>j. Suc i \<le> j \<and> j < count t \<longrightarrow> es' ! j = Some (f j)) \<and> (\<forall>j < Suc i. es' ! j = ?es ! j)"
    using Suc.prems assms(1) by (intro Suc.IH) simp_all
  then obtain es' where es': "compact_from_front t new_cap (Suc i) n ?es = Ok es'"
    "length es' = length es" "\<forall>j. Suc i \<le> j \<and> j < count t \<longrightarrow> es' ! j = Some (f j)"
    "\<forall>j < Suc i. es' ! j = ?es ! j"
    by auto
  have "compact_from_front t new_cap i (Suc n) es = Ok es'"
    using es'(1) i Suc.prems assms(1,3) by (simp add: cell_Ok)
  moreover have "es' ! j = Some (f j)" if "i \<le> j" "j < count t" for j
    using that es'(3,4) i by (cases "j = i") auto
  moreover have "\<forall>j < i. es' ! j = es ! j" using es'(4) by simp
  ultimately show ?case using es'(2) by blast
qed auto

lemma relocate_wrapped_correct:
  assumes "i + n \<le> cnt" "cnt + (i + n) \<le> length es"
    and "\<And>j. j < i + n \<Longrightarrow> es ! j \<noteq> None"
  shows "\<exists>es'. relocate_wrapped cnt i n es = Ok es' \<and> length es' = length es \<and>
    (\<forall>j. i \<le> j \<and> j < i + n \<longrightarrow> es' ! (cnt + j) = es ! j) \<and> (\<forall>j < cnt + i. es' ! j = es ! j)"
  using assms
proof (induction n arbitrary: i es)
  case (Suc n)
  obtain e where e: "es ! i = Some e" using Suc.prems(3) [of i] by auto
  let ?es = "es[cnt + i := Some e]"
  have "\<exists>es'. relocate_wrapped cnt (Suc i) n ?es = Ok es' \<and> length es' = length ?es \<and>
      (\<forall>j. Suc i \<le> j \<and> j < Suc i + n \<longrightarrow> es' ! (cnt + j) = ?es ! j) \<and>
      (\<forall>j < cnt + Suc i. es' ! j = ?es ! j)"
    using Suc.prems by (intro Suc.IH) auto
  then obtain es' where es': "relocate_wrapped cnt (Suc i) n ?es = Ok es'" "length es' = length es"
    "\<forall>j. Suc i \<le> j \<and> j < Suc i + n \<longrightarrow> es' ! (cnt + j) = ?es ! j"
    "\<forall>j < cnt + Suc i. es' ! j = ?es ! j"
    by auto
  have "relocate_wrapped cnt i (Suc n) es = Ok es'"
    using es'(1) e Suc.prems by (simp add: cell_Ok)
  moreover have "es' ! (cnt + j) = es ! j" if "i \<le> j" "j < i + Suc n" for j
    using that es'(3,4) e Suc.prems by (cases "j = i") auto
  moreover have "\<forall>j < cnt + i. es' ! j = es ! j" using es'(4) by simp
  ultimately show ?case using es'(2) by blast
qed auto

section \<open>Correctness of the operations\<close>

lemma slot_cases:
  assumes "start t < capacity t" "i < capacity t"
  shows "slot t i = (if start t + i < capacity t then start t + i else start t + i - capacity t)"
  using assms by (simp add: slot_def mod_if)

lemma slot_inj:
  assumes "start t < capacity t" "i < capacity t" "j < capacity t"
  shows "slot t i = slot t j \<longleftrightarrow> i = j"
  using assms by (auto simp: slot_cases split: if_splits)

lemma table_inv_start: "table_inv t \<Longrightarrow> 0 < count t \<Longrightarrow> start t < capacity t \<and> 0 < capacity t"
  by (auto simp: table_inv_def split: if_splits)

lemma table_inv_cell:
  "table_inv t \<Longrightarrow> i < count t \<Longrightarrow> read_cell (entries t) (slot t i) = Ok (abs_table t ! i)"
  using table_repr_iff [of t "abs_table t"] slot_less [of t i] table_inv_start [of t]
  by (intro read_cell_Some) auto

lemma hpack_dynamic_table_at_correct:
  assumes "table_inv t"
  shows "hpack_dynamic_table_at t i = Ok (if i < count t then Some (abs_table t ! i) else None)"
proof (cases "i < count t")
  case True
  then have "0 < capacity t" using table_inv_start [OF assms] by simp
  with True show ?thesis
    by (simp add: hpack_dynamic_table_at_def ring_mod_Ok
        table_inv_cell [OF assms True, unfolded slot_def])
qed (simp add: hpack_dynamic_table_at_def)

lemma free_entries_loop_correct:
  assumes "table_inv t" "i + n = count t"
  shows "free_entries_loop t (slot t i) n = Ok ()"
  using assms(2)
proof (induction n arbitrary: i)
  case (Suc n)
  then have i: "i < count t" by simp
  have cap: "0 < capacity t" using table_inv_start [OF assms(1)] i by simp
  have "(slot t i + 1) mod capacity t = slot t (Suc i)"
    by (simp add: slot_def mod_simps)
  then show ?case
    using cap Suc.IH [of "Suc i"] Suc.prems
    by (simp add: ring_mod_Ok table_inv_cell [OF assms(1) i])
qed simp

lemma hpack_dynamic_table_free_correct:
  assumes "table_inv t"
  shows "hpack_dynamic_table_free t = Ok hpack_dynamic_table_get_empty"
proof -
  have "free_entries_loop t (start t) (count t) = Ok ()"
  proof (cases "count t = 0")
    case False
    then have "slot t 0 = start t" using table_inv_start [OF assms] by (simp add: slot_def)
    then show ?thesis using free_entries_loop_correct [OF assms, of 0 "count t"] by simp
  qed simp
  then show ?thesis by (simp add: hpack_dynamic_table_free_def)
qed

lemma shrink_table_compact:
  assumes inv: "table_inv t" and cap: "64 \<le> capacity t" and cnt: "count t < capacity t div 4"
  defines "nc \<equiv> capacity t div 2"
  shows "\<exists>es. (if start t \<ge> nc then compact_from_end t nc (count t) (entries t)
         else if start t = 0 then Ok (entries t)
         else compact_from_front t nc 0 (count t) (entries t)) = Ok es \<and>
       length es = capacity t \<and> (\<forall>i < count t. es ! i = Some (abs_table t ! i))"
proof -
  have len: "length (entries t) = capacity t" using inv by (simp add: table_inv_def)
  have st: "start t < capacity t" using inv cap by (auto simp: table_inv_def)
  have cells: "entries t ! slot t i = Some (abs_table t ! i)" if "i < count t" for i
    using table_repr_iff [of t "abs_table t"] inv that by auto
  have nc: "count t < nc" "0 < nc" using cnt cap by (auto simp: nc_def)
  consider (tail) "nc \<le> start t" | (zero) "start t = 0" | (front) "0 < start t" "start t < nc"
    by linarith
  then show ?thesis
  proof cases
    case tail
    then show ?thesis
      using compact_from_end_correct [of t nc "count t" "entries t" "\<lambda>i. abs_table t ! i"]
        st nc len cells by auto
  next
    case zero
    then have "entries t ! i = Some (abs_table t ! i)" if "i < count t" for i
      using cells [OF that] that nc st by (simp add: slot_def nc_def)
    then show ?thesis using zero nc len by (intro exI [of _ "entries t"]) simp
  next
    case front
    have fit: "start t + count t < capacity t" using front cnt by (simp add: nc_def)
    have "entries t ! (start t + i) = Some (abs_table t ! i)" if "i < count t" for i
      using cells [OF that] that fit by (simp add: slot_def)
    then show ?thesis
      using compact_from_front_correct [of t nc 0 "count t" "entries t" "\<lambda>i. abs_table t ! i"]
        fit nc len front by auto
  qed
qed

lemma shrink_table_correct:
  assumes inv: "table_inv t" and shrink: "IMPL_SHOULD_SHRINK (count t) (capacity t)"
  shows "(\<exists>t'. shrink_table alloc t = Ok t' \<and> table_inv t' \<and> abs_table t' = abs_table t) \<or>
    shrink_table alloc t = Undef ProcessExit \<and> \<not> (\<forall>n. alloc n)"
proof (cases "capacity t div 2 < 32")
  case True
  then show ?thesis using inv by (simp add: shrink_table_def IMPL_CALC_SHRINK_def Let_def)
next
  case False
  let ?nc = "capacity t div 2"
  have cnt: "count t < capacity t div 4" using shrink by (simp add: IMPL_SHOULD_SHRINK_def)
  have "64 \<le> capacity t" using False by simp
  from shrink_table_compact [OF inv this cnt] obtain es where
    es: "(if start t \<ge> ?nc then compact_from_end t ?nc (count t) (entries t)
         else if start t = 0 then Ok (entries t)
         else compact_from_front t ?nc 0 (count t) (entries t)) = Ok es"
    "length es = capacity t" "\<forall>i < count t. es ! i = Some (abs_table t ! i)"
    by blast
  let ?t = "t\<lparr>entries := realloc_entries es ?nc, capacity := ?nc, start := 0\<rparr>"
  have "shrink_table alloc t = (if alloc ?nc then Ok ?t else Undef ProcessExit)"
    using False es(1)
    by (simp add: shrink_table_def IMPL_CALC_SHRINK_def Let_def check_assert_Ok)
  moreover have "table_inv ?t \<and> abs_table ?t = abs_table t"
    using cnt es(2,3) False by (simp add: table_repr_iff realloc_entries_def slot_def)
  ultimately show ?thesis by auto
qed

lemma hpack_dynamic_table_pop_empty:
  "abs_table t = [] \<Longrightarrow> hpack_dynamic_table_pop_at_end alloc t = Ok (None, t)"
  using length_abs_table [of t] by (simp add: hpack_dynamic_table_pop_at_end_def)

lemma hpack_dynamic_table_pop_correct:
  assumes inv: "table_inv t" and ne: "abs_table t \<noteq> []"
  shows "(\<exists>t'. hpack_dynamic_table_pop_at_end alloc t = Ok (Some (last (abs_table t)), t') \<and>
      table_inv t' \<and> abs_table t' = butlast (abs_table t)) \<or>
    hpack_dynamic_table_pop_at_end alloc t = Undef ProcessExit \<and> \<not> (\<forall>n. alloc n)"
proof -
  let ?t = "t\<lparr>count := count t - 1\<rparr>"
  have cnt: "0 < count t" using ne length_abs_table [of t] by (metis length_greater_0_conv)
  then have cap: "0 < capacity t" using table_inv_start [OF inv] by simp
  have last: "last (abs_table t) = abs_table t ! (count t - 1)"
    using ne by (simp add: last_conv_nth)
  have idx: "(start t + count t - 1) mod capacity t = slot t (count t - 1)"
    using cnt by (simp add: slot_def)
  have rd: "read_cell (entries t) ((start t + count t - Suc 0) mod capacity t)
      = (Ok (last (abs_table t)) :: (unit, _) res)"
    using table_inv_cell [OF inv, of "count t - 1"] cnt last idx by simp
  have inv': "table_inv ?t \<and> abs_table ?t = butlast (abs_table t)"
    using inv table_repr_iff [of t "abs_table t"]
    by (auto simp: table_repr_iff nth_butlast)
  have eq: "hpack_dynamic_table_pop_at_end alloc t =
      (if IMPL_SHOULD_SHRINK (count ?t) (capacity ?t)
       then rbind (shrink_table alloc ?t) (\<lambda>t2. Ok (Some (last (abs_table t)), t2))
       else Ok (Some (last (abs_table t)), ?t))"
    using cnt cap by (simp add: hpack_dynamic_table_pop_at_end_def ring_mod_Ok rd Let_def)
  show ?thesis
  proof (cases "IMPL_SHOULD_SHRINK (count ?t) (capacity ?t)")
    case True
    with shrink_table_correct [OF _ True, of alloc] inv' eq show ?thesis by auto
  next
    case False
    with inv' eq show ?thesis by auto
  qed
qed

lemma grow_table_correct:
  assumes inv: "table_inv t" and full: "capacity t \<le> count t"
  shows "\<exists>t'. grow_table t (IMPL_CALC_GROW (capacity t)) = Ok t' \<and> table_inv t' \<and>
    abs_table t' = abs_table t \<and> count t' < capacity t'"
proof -
  let ?c = "capacity t" and ?n = "IMPL_CALC_GROW (capacity t)"
  let ?r = "realloc_entries (entries t) ?n"
  have c: "count t = ?c" "length (entries t) = ?c" using inv full by (auto simp: table_inv_def)
  have n: "?c < ?n" "2 * ?c \<le> ?n" by (auto simp: IMPL_CALC_GROW_def)
  have st: "start t \<le> ?c" "0 < ?c \<Longrightarrow> start t < ?c" using inv by (auto simp: table_inv_def split: if_splits)
  have cells: "entries t ! slot t i = Some (abs_table t ! i)" if "i < ?c" for i
    using table_repr_iff [of t "abs_table t"] inv that c by auto
  have r: "length ?r = ?n" "\<And>j. j < ?c \<Longrightarrow> ?r ! j = entries t ! j"
    using c n by (auto simp: realloc_entries_def nth_append)
  have used: "entries t ! j \<noteq> None" if "j < ?c" for j
  proof -
    let ?i = "if start t \<le> j then j - start t else j + ?c - start t"
    have "slot t ?i = j" "?i < ?c" using st that by (auto simp: slot_cases)
    then show ?thesis using cells by (metis option.distinct(1))
  qed
  have "0 + start t \<le> count t" "count t + (0 + start t) \<le> length ?r"
    "\<And>j. j < 0 + start t \<Longrightarrow> ?r ! j \<noteq> None"
    using r used st c n by simp_all
  from relocate_wrapped_correct [OF this]
  obtain es where es: "relocate_wrapped (count t) 0 (start t) ?r = Ok es" "length es = ?n"
    "\<And>j. j < start t \<Longrightarrow> es ! (?c + j) = ?r ! j" "\<And>j. j < ?c \<Longrightarrow> es ! j = ?r ! j"
    using r(1) c(1) by auto
  let ?t = "t\<lparr>entries := es, capacity := ?n\<rparr>"
  have "es ! slot ?t i = Some (abs_table t ! i)" if i: "i < ?c" for i
  proof -
    have "slot ?t i = start t + i" using i st n by (simp add: slot_def)
    moreover have "es ! (start t + i) = entries t ! slot t i"
      using es(3) [of "start t + i - ?c"] es(4) [of "start t + i"] r(2) st i
      by (auto simp: slot_cases)
    ultimately show ?thesis using cells [OF i] by simp
  qed
  then have "table_inv ?t \<and> abs_table ?t = abs_table t"
    using c es(2) n st by (auto simp: table_repr_iff)
  then show ?thesis using es(1) c n by (auto simp: grow_table_def)
qed

lemma place_at_start_correct:
  assumes inv: "table_inv t" and room: "count t < capacity t"
  shows "\<exists>t'. place_at_start t e = Ok t' \<and> table_inv t' \<and> abs_table t' = e # abs_table t"
proof -
  let ?c = "capacity t" and ?s = "(start t + capacity t - 1) mod capacity t"
  have st: "start t < ?c" "0 < ?c" using inv room by (auto simp: table_inv_def split: if_splits)
  have s: "?s = slot t (?c - 1)" using st by (simp add: slot_def)
  let ?t = "t\<lparr>start := ?s, entries := (entries t)[?s := Some e], count := count t + 1\<rparr>"
  have len: "length (entries t) = ?c" using inv by (simp add: table_inv_def)
  have slot0: "slot ?t 0 = ?s" using st by (simp add: slot_def)
  have slotS: "slot ?t (Suc i) = slot t i" for i
  proof -
    have "slot ?t (Suc i) = (?s + Suc i) mod ?c" by (simp add: slot_def)
    also have "\<dots> = (start t + ?c - 1 + Suc i) mod ?c" by (rule mod_add_left_eq)
    also have "start t + ?c - 1 + Suc i = start t + i + ?c" using st by simp
    finally show ?thesis by (simp add: slot_def)
  qed
  have "(entries t)[?s := Some e] ! slot ?t i = Some ((e # abs_table t) ! i)" if "i < count t + 1" for i
  proof (cases i)
    case 0
    then show ?thesis using slot0 st len by simp
  next
    case (Suc j)
    then have "slot t j \<noteq> ?s" using s slot_inj [OF st(1), of j "?c - 1"] that room st by auto
    then show ?thesis
      using Suc slotS that table_repr_iff [of t "abs_table t"] inv by auto
  qed
  then have "table_inv ?t \<and> abs_table ?t = e # abs_table t"
    using st room len by (auto simp: table_repr_iff)
  then show ?thesis using st len by (auto simp: place_at_start_def cell_Ok)
qed

lemma hpack_dynamic_table_insert_correct:
  assumes inv: "table_inv t"
  shows "(\<exists>t'. hpack_dynamic_table_insert_at_start alloc t e = Ok (True, t') \<and> table_inv t' \<and>
      abs_table t' = e # abs_table t) \<or>
    hpack_dynamic_table_insert_at_start alloc t e = Ok (False, t) \<and> \<not> (\<forall>n. alloc n)"
proof (cases "capacity t \<le> count t")
  case True
  obtain t1 where "grow_table t (IMPL_CALC_GROW (capacity t)) = Ok t1" "table_inv t1"
    "abs_table t1 = abs_table t" "count t1 < capacity t1"
    using grow_table_correct [OF inv True] by blast
  with place_at_start_correct [of t1 e] True show ?thesis
    by (auto simp: hpack_dynamic_table_insert_at_start_def Let_def)
next
  case False
  with place_at_start_correct [OF inv, of e] show ?thesis
    by (auto simp: hpack_dynamic_table_insert_at_start_def)
qed

section \<open>The contract\<close>

text \<open>
  The interface the HPACK state relies on, over the list of entries. \<open>mem\<close> says that no
  allocation fails.
\<close>

locale entry_queue =
  fixes empty :: 't
    and at :: "'t \<Rightarrow> nat \<Rightarrow> (unit, 'e option) res"
    and size_of :: "'t \<Rightarrow> nat"
    and pop :: "'t \<Rightarrow> (unit, 'e option \<times> 't) res"
    and insert :: "'t \<Rightarrow> 'e \<Rightarrow> (unit, bool \<times> 't) res"
    and free :: "'t \<Rightarrow> (unit, 't) res"
    and absl :: "'t \<Rightarrow> 'e list"
    and invar :: "'t \<Rightarrow> bool"
    and mem :: bool
  assumes absl_empty: "absl empty = []"
    and invar_empty: "invar empty"
    and at_law: "invar t \<Longrightarrow> at t i = Ok (if i < length (absl t) then Some (absl t ! i) else None)"
    and size_law: "invar t \<Longrightarrow> size_of t = length (absl t)"
    and pop_empty: "invar t \<Longrightarrow> absl t = [] \<Longrightarrow> pop t = Ok (None, t)"
    and pop_law: "invar t \<Longrightarrow> absl t \<noteq> [] \<Longrightarrow>
      (\<exists>t'. pop t = Ok (Some (last (absl t)), t') \<and> invar t' \<and> absl t' = butlast (absl t)) \<or>
      pop t = Undef ProcessExit \<and> \<not> mem"
    and insert_law: "invar t \<Longrightarrow>
      (\<exists>t'. insert t e = Ok (True, t') \<and> invar t' \<and> absl t' = e # absl t) \<or>
      insert t e = Ok (False, t) \<and> \<not> mem"
    and free_law: "invar t \<Longrightarrow> free t = Ok empty"
begin

lemma pop_Ok:
  assumes "invar t" "pop t = Ok (r, t')"
  shows "invar t' \<and> (case r of None \<Rightarrow> absl t = [] \<and> t' = t | Some e \<Rightarrow> absl t = absl t' @ [e])"
proof (cases "absl t = []")
  case True
  then show ?thesis using assms pop_empty by simp
next
  case False
  then show ?thesis using pop_law [OF assms(1) False] assms(2) by auto
qed

lemma pop_safe: "invar t \<Longrightarrow> pop t \<noteq> Err e \<and> (pop t = Undef u \<longrightarrow> u = ProcessExit \<and> \<not> mem)"
  using pop_empty [of t] pop_law [of t] by (cases "absl t = []") auto

lemma insert_Ok:
  "invar t \<Longrightarrow> insert t e = Ok (b, t') \<Longrightarrow>
   invar t' \<and> absl t' = (if b then e # absl t else absl t) \<and> (mem \<longrightarrow> b)"
  using insert_law [of t e] by auto

lemma insert_safe: "invar t \<Longrightarrow> \<exists>b t'. insert t e = Ok (b, t')"
  using insert_law [of t e] by blast

lemma at_insert:
  assumes "invar t" "insert t e = Ok (True, t')"
  shows "at t' 0 = Ok (Some e)" "at t' (Suc i) = at t i"
  using insert_Ok [OF assms] at_law [OF assms(1)] at_law [of t'] by simp_all

end

interpretation dyn: entry_queue
  hpack_dynamic_table_get_empty hpack_dynamic_table_at hpack_dynamic_table_size
  "hpack_dynamic_table_pop_at_end alloc" "hpack_dynamic_table_insert_at_start alloc"
  hpack_dynamic_table_free abs_table table_inv "\<forall>n. alloc n"
  for alloc
  by (unfold_locales;
      (rule hpack_dynamic_table_pop_correct hpack_dynamic_table_insert_correct; assumption
      | simp add: hpack_dynamic_table_at_correct hpack_dynamic_table_size_def
          hpack_dynamic_table_pop_empty hpack_dynamic_table_free_correct))

section \<open>Properties\<close>

text \<open>
  C23. Insertion: on a well-formed table whose allocations succeed, \<open>insert_at_start\<close> runs
  without fault, keeps the table well-formed and puts the entry in front of the others, also
  when the buffer has to grow and its wrapped-around part moves.
\<close>

theorem insert_at_start_refines_cons:
  assumes "table_inv t" and "\<forall>n. alloc n"
  shows "\<exists>t'. hpack_dynamic_table_insert_at_start alloc t e = Ok (True, t') \<and> table_inv t' \<and>
    abs_table t' = e # abs_table t"
  using dyn.insert_law [OF assms(1), of alloc e] assms(2) by blast

theorem insert_at_start_refines_cons_witness:
  "\<exists>t'. hpack_dynamic_table_insert_at_start (\<lambda>_. True) hpack_dynamic_table_get_empty (7 :: nat)
     = Ok (True, t') \<and> table_inv t' \<and> abs_table t' = [7]"
  using insert_at_start_refines_cons [of hpack_dynamic_table_get_empty "\<lambda>_. True" "7 :: nat"]
  by simp

text \<open>
  C24. Removal: on a well-formed non-empty table whose allocations succeed, \<open>pop_at_end\<close>
  returns the oldest entry and leaves the others, in order; no \<open>assert\<close> of the shrink step
  fires and no uninitialised or out-of-range cell is touched.
\<close>

theorem pop_at_end_refines_butlast:
  assumes "table_inv t" and "abs_table t \<noteq> []" and "\<forall>n. alloc n"
  shows "\<exists>t'. hpack_dynamic_table_pop_at_end alloc t = Ok (Some (last (abs_table t)), t') \<and>
    table_inv t' \<and> abs_table t' = butlast (abs_table t)"
  using dyn.pop_law [OF assms(1,2), of alloc] assms(3) by blast

theorem pop_at_end_refines_butlast_witness:
  "\<exists>t'. hpack_dynamic_table_pop_at_end (\<lambda>_. True)
      \<lparr>entries = [Some 1, Some (2 :: nat)], count = 2, capacity = 2, start = 1\<rparr> = Ok (Some 1, t')
      \<and> table_inv t' \<and> abs_table t' = [2]"
proof -
  let ?t = "\<lparr>entries = [Some 1, Some (2 :: nat)], count = 2, capacity = 2, start = 1\<rparr>"
  have "abs_table ?t = [2, 1]" by (simp add: abs_table_def slot_def numeral_2_eq_2)
  moreover have "table_inv ?t" by (auto simp: table_inv_def slot_def less_2_cases_iff)
  ultimately show ?thesis using pop_at_end_refines_butlast [of ?t "\<lambda>_. True"] by simp
qed

text \<open>
  The container never faults, whatever the allocator answers: every operation on a
  well-formed table returns a well-formed table, and the only abnormal end is the process
  exit of a failed shrinking \<open>realloc\<close>.
\<close>

theorem dynamic_table_operations_safe:
  assumes "table_inv t"
  shows "(case hpack_dynamic_table_pop_at_end alloc t of
            Ok (_, t') \<Rightarrow> table_inv t' | Err _ \<Rightarrow> False | Undef u \<Rightarrow> u = ProcessExit)
    \<and> (case hpack_dynamic_table_insert_at_start alloc t e of
            Ok (_, t') \<Rightarrow> table_inv t' | _ \<Rightarrow> False)
    \<and> hpack_dynamic_table_free t = Ok hpack_dynamic_table_get_empty
    \<and> (\<exists>r. hpack_dynamic_table_at t i = Ok r)"
proof -
  have "case hpack_dynamic_table_pop_at_end alloc t of
          Ok (_, t') \<Rightarrow> table_inv t' | Err _ \<Rightarrow> False | Undef u \<Rightarrow> u = ProcessExit"
    using dyn.pop_Ok [OF assms, of alloc] dyn.pop_safe [OF assms, of alloc]
    by (auto split: res.splits prod.splits)
  moreover have "case hpack_dynamic_table_insert_at_start alloc t e of
          Ok (_, t') \<Rightarrow> table_inv t' | _ \<Rightarrow> False"
    using dyn.insert_law [OF assms, of alloc e] assms by auto
  ultimately show ?thesis
    using dyn.free_law [OF assms] dyn.at_law [OF assms] by simp
qed

theorem dynamic_table_operations_safe_witness:
  "hpack_dynamic_table_free (hpack_dynamic_table_get_empty :: nat HpackHeaderDynamicTable)
     = Ok hpack_dynamic_table_get_empty"
  using dynamic_table_operations_safe
    [of "hpack_dynamic_table_get_empty :: nat HpackHeaderDynamicTable" "\<lambda>_. False" 0 0]
  by simp

end
