(* ===== verification/Hpack_Static.thy ===== *)
theory Hpack_Static
  imports Prelude
begin

text \<open>
  The static header table of HPACK and the two lookups the build generates from it
  (\<open>tools/helper/src/hpack.ts\<close> writes \<open>generated_hpack.c\<close>). The generated string switches compare
  a string with a fixed list of strings; the model keeps their result, the position of the string
  in that list. The lookups reach the compressor through the interface \<open>static_lookup\<close>.
\<close>

section \<open>Header fields and table entries\<close>

record HttpHeaderField =
  hf_key :: bytes
  hf_value :: bytes

text \<open>Keys are never null; a static entry may have a null value.\<close>

record HpackHeaderDynamicEntry =
  entry_key :: bytes
  entry_value :: tstr

datatype StaticTableFindResult = StaticNotFound | StaticKeyFound nat | StaticAllFound nat

section \<open>The table\<close>

definition str_bytes :: "string \<Rightarrow> bytes" where
  "str_bytes s = map (\<lambda>c. word_of_nat (of_char c)) s"

definition rawHeaderTable :: "(string \<times> string option) list" where
  "rawHeaderTable =
    [
     ('':authority'', None), ('':method'', Some ''GET''), ('':method'', Some ''POST''),
     ('':path'', Some ''/''), ('':path'', Some ''/index.html''), ('':scheme'', Some ''http''),
     ('':scheme'', Some ''https''), ('':status'', Some ''200''), ('':status'', Some ''204''),
     ('':status'', Some ''206''), ('':status'', Some ''304''), ('':status'', Some ''400''),
     ('':status'', Some ''404''), ('':status'', Some ''500''), (''accept-charset'', None),
     (''accept-encoding'', Some ''gzip, deflate''), (''accept-language'', None),
     (''accept-ranges'', None), (''accept'', None), (''access-control-allow-origin'', None),
     (''age'', None), (''allow'', None), (''authorization'', None), (''cache-control'', None),
     (''content-disposition'', None), (''content-encoding'', None), (''content-language'', None),
     (''content-length'', None), (''content-location'', None), (''content-range'', None),
     (''content-type'', None), (''cookie'', None), (''date'', None), (''etag'', None),
     (''expect'', None), (''expires'', None), (''from'', None), (''host'', None),
     (''if-match'', None), (''if-modified-since'', None), (''if-none-match'', None),
     (''if-range'', None), (''if-unmodified-since'', None), (''last-modified'', None),
     (''link'', None), (''location'', None), (''max-forwards'', None),
     (''proxy-authenticate'', None), (''proxy-authorization'', None), (''range'', None),
     (''referer'', None), (''refresh'', None), (''retry-after'', None), (''server'', None),
     (''set-cookie'', None), (''strict-transport-security'', None), (''transfer-encoding'', None),
     (''user-agent'', None), (''vary'', None), (''via'', None), (''www-authenticate'', None)
    ]"

definition HPACK_STATIC_HEADER_TABLE_SIZE :: nat where
  "HPACK_STATIC_HEADER_TABLE_SIZE = 61"

definition get_hpack_static_header_table_entries :: "HpackHeaderDynamicEntry list" where
  "get_hpack_static_header_table_entries =
     map (\<lambda>(k, v). \<lparr>entry_key = str_bytes k, entry_value = map_option str_bytes v\<rparr>) rawHeaderTable"

section \<open>The generated lookups\<close>

text \<open>The rows of one key, with their index; \<open>strncmp\<close> with the length of the literal.\<close>

definition static_rows :: "bytes \<Rightarrow> (nat \<times> tstr) list" where
  "static_rows k =
     map (\<lambda>(i, e). (i, entry_value e))
       (filter (\<lambda>(i, e). entry_key e = k) (enumerate 1 get_hpack_static_header_table_entries))"

definition strncmp_eq :: "bytes \<Rightarrow> bytes \<Rightarrow> bool" where
  "strncmp_eq v lit \<longleftrightarrow> take (length lit) v = lit"

definition hpack_generated_find_in_static_table_fast :: "HttpHeaderField \<Rightarrow> StaticTableFindResult" where
  "hpack_generated_find_in_static_table_fast field =
     (case static_rows (hf_key field) of
        [] \<Rightarrow> StaticNotFound
      | [(i, v)] \<Rightarrow>
          (case v of
             None \<Rightarrow> StaticKeyFound i
           | Some lit \<Rightarrow> if strncmp_eq (hf_value field) lit then StaticAllFound i else StaticKeyFound i)
      | (i, v) # rows \<Rightarrow>
          (case find (\<lambda>(j, w). w = Some (hf_value field)) ((i, v) # rows) of
             Some (j, w) \<Rightarrow> StaticAllFound j
           | None \<Rightarrow> StaticKeyFound i))"

definition commonHpackKeyNames :: "string list" where
  "commonHpackKeyNames =
     [''date'', ''cookie'', ''server'', ''content-encoding'', ''host'', ''user-agent'']"

definition hpack_generated_is_common_field_key_fast :: "bytes \<Rightarrow> bool" where
  "hpack_generated_is_common_field_key_fast str_view =
     (case str_view of
        [] \<Rightarrow> False
      | c # _ \<Rightarrow> c = 0x3A \<or> str_view \<in> set (map str_bytes commonHpackKeyNames))"

section \<open>The interface of the lookup\<close>

text \<open>
  What a compressor needs of a lookup in a table: a hit names an entry with the key of the field,
  and a full hit one with its value too. \<open>good\<close> are the fields the lookup answers soundly.
\<close>

locale static_lookup =
  fixes table :: "HpackHeaderDynamicEntry list"
    and lookup :: "HttpHeaderField \<Rightarrow> StaticTableFindResult"
    and good :: "HttpHeaderField \<Rightarrow> bool"
  assumes key_found: "lookup f = StaticKeyFound i \<Longrightarrow>
      0 < i \<and> i \<le> length table \<and> entry_key (table ! (i - 1)) = hf_key f"
    and all_found: "lookup f = StaticAllFound i \<Longrightarrow>
      0 < i \<and> i \<le> length table \<and> entry_key (table ! (i - 1)) = hf_key f"
    and all_found_value: "lookup f = StaticAllFound i \<Longrightarrow> good f \<Longrightarrow>
      entry_value (table ! (i - 1)) = Some (hf_value f)"
begin

lemma hit_bounds: "lookup f \<in> {StaticKeyFound i, StaticAllFound i} \<Longrightarrow> 0 < i \<and> i \<le> length table"
  using key_found all_found by blast

lemma all_found_entry:
  assumes "lookup f = StaticAllFound i" "good f"
  shows "table ! (i - 1) = \<lparr>entry_key = hf_key f, entry_value = Some (hf_value f)\<rparr>"
  using all_found [OF assms(1)] all_found_value [OF assms] by (simp add: HpackHeaderDynamicEntry.equality)

end

section \<open>The generated lookup implements it\<close>

text \<open>The one field value the generated lookup mistakes for a table entry.\<close>

definition static_prefix_clash :: "HttpHeaderField \<Rightarrow> bool" where
  "static_prefix_clash f \<longleftrightarrow>
     hf_key f = str_bytes ''accept-encoding'' \<and>
     strncmp_eq (hf_value f) (str_bytes ''gzip, deflate'') \<and> hf_value f \<noteq> str_bytes ''gzip, deflate''"

lemma length_static_table: "length get_hpack_static_header_table_entries = HPACK_STATIC_HEADER_TABLE_SIZE"
  by (simp add: get_hpack_static_header_table_entries_def rawHeaderTable_def HPACK_STATIC_HEADER_TABLE_SIZE_def)

lemma static_rows_sound:
  assumes "(i, v) \<in> set (static_rows k)"
  shows "0 < i \<and> i \<le> length get_hpack_static_header_table_entries \<and>
    get_hpack_static_header_table_entries ! (i - 1) = \<lparr>entry_key = k, entry_value = v\<rparr>"
  using assms
  by (auto simp: static_rows_def in_set_enumerate_eq intro!: HpackHeaderDynamicEntry.equality)

lemma str_bytes_eq_iff [simp]: "str_bytes s = str_bytes t \<longleftrightarrow> s = t"
proof -
  have "inj (\<lambda>c. word_of_nat (of_char c) :: u8)"
  proof (rule injI)
    fix c d :: char
    have b: "(of_char x :: nat) < 256" for x by (cases x) (simp add: of_char_def horner_sum_simps)
    assume "(word_of_nat (of_char c) :: u8) = word_of_nat (of_char d)"
    then have "unat (word_of_nat (of_char c) :: u8) = unat (word_of_nat (of_char d) :: u8)" by simp
    then show "c = d" using b by simp
  qed
  then show ?thesis by (simp add: str_bytes_def)
qed

lemma length_static_rows:
  "length (static_rows (str_bytes k)) = length (filter (\<lambda>(k', v). k' = k) rawHeaderTable)"
proof -
  have "length (filter (\<lambda>(i, e). entry_key e = str_bytes k) (enumerate n (map f xs))) =
      length (filter (\<lambda>(k', v). k' = k) xs)"
    if "f = (\<lambda>(k, v). \<lparr>entry_key = str_bytes k, entry_value = map_option str_bytes v\<rparr>)"
    for n f and xs :: "(string \<times> string option) list"
    using that by (induction xs arbitrary: n) (auto simp: enumerate_simps)
  then show ?thesis by (simp add: static_rows_def get_hpack_static_header_table_entries_def)
qed

lemma single_rows_table:
  "filter (\<lambda>(k, v). v \<noteq> None \<and> length (filter (\<lambda>(k', v). k' = k) rawHeaderTable) = 1) rawHeaderTable =
   [(''accept-encoding'', Some ''gzip, deflate'')]"
  by code_simp

lemma single_row:
  assumes "static_rows k = [(i, Some lit)]"
  shows "k = str_bytes ''accept-encoding'' \<and> lit = str_bytes ''gzip, deflate''"
proof -
  let ?T = get_hpack_static_header_table_entries
  have e: "0 < i" "i \<le> length ?T" "?T ! (i - 1) = \<lparr>entry_key = k, entry_value = Some lit\<rparr>"
    using static_rows_sound [of i "Some lit" k] assms by auto
  then have "\<lparr>entry_key = k, entry_value = Some lit\<rparr> \<in> set ?T"
    by (metis One_nat_def Suc_le_eq Suc_pred nth_mem)
  then obtain k' v where r: "(k', Some v) \<in> set rawHeaderTable" "k = str_bytes k'" "lit = str_bytes v"
    by (auto simp: get_hpack_static_header_table_entries_def map_option_case split: option.splits)
  moreover have "length (filter (\<lambda>(k'', v). k'' = k') rawHeaderTable) = 1"
    using arg_cong [OF assms, of length] by (simp add: r(2) length_static_rows)
  ultimately have "(k', Some v) \<in>
      set (filter (\<lambda>(k, v). v \<noteq> None \<and> length (filter (\<lambda>(k', v). k' = k) rawHeaderTable) = 1) rawHeaderTable)"
    by simp
  then show ?thesis unfolding single_rows_table using r by simp
qed

lemma find_SomeD: "find P xs = Some x \<Longrightarrow> x \<in> set xs \<and> P x"
  by (induction xs) (auto split: if_splits)

lemma find_static_cases:
  "hpack_generated_find_in_static_table_fast f = StaticKeyFound i \<Longrightarrow> \<exists>v. (i, v) \<in> set (static_rows (hf_key f))"
  "hpack_generated_find_in_static_table_fast f = StaticAllFound i \<Longrightarrow>
     \<exists>v. (i, v) \<in> set (static_rows (hf_key f)) \<and>
       (v = Some (hf_value f) \<or>
        (\<exists>lit. static_rows (hf_key f) = [(i, Some lit)] \<and> v = Some lit \<and> strncmp_eq (hf_value f) lit))"
proof -
  show "\<exists>v. (i, v) \<in> set (static_rows (hf_key f))"
    if "hpack_generated_find_in_static_table_fast f = StaticKeyFound i"
    using that
    by (auto simp: hpack_generated_find_in_static_table_fast_def split: list.splits option.splits if_splits)
  show "\<exists>v. (i, v) \<in> set (static_rows (hf_key f)) \<and>
       (v = Some (hf_value f) \<or>
        (\<exists>lit. static_rows (hf_key f) = [(i, Some lit)] \<and> v = Some lit \<and> strncmp_eq (hf_value f) lit))"
    if "hpack_generated_find_in_static_table_fast f = StaticAllFound i"
    using that
    by (auto simp: hpack_generated_find_in_static_table_fast_def dest!: find_SomeD
        split: list.splits option.splits if_splits)
qed

interpretation generated_static:
  static_lookup get_hpack_static_header_table_entries hpack_generated_find_in_static_table_fast
    "\<lambda>f. \<not> static_prefix_clash f"
proof
  fix f i
  let ?T = get_hpack_static_header_table_entries
  show "0 < i \<and> i \<le> length ?T \<and> entry_key (?T ! (i - 1)) = hf_key f"
    if "hpack_generated_find_in_static_table_fast f = StaticKeyFound i"
    using find_static_cases(1) [OF that] static_rows_sound by force
  assume all: "hpack_generated_find_in_static_table_fast f = StaticAllFound i"
  then obtain v where v: "(i, v) \<in> set (static_rows (hf_key f))"
      "v = Some (hf_value f) \<or>
        (\<exists>lit. static_rows (hf_key f) = [(i, Some lit)] \<and> v = Some lit \<and> strncmp_eq (hf_value f) lit)"
    using find_static_cases(2) by blast
  note e = static_rows_sound [OF v(1)]
  show "0 < i \<and> i \<le> length ?T \<and> entry_key (?T ! (i - 1)) = hf_key f" using e by simp
  assume good: "\<not> static_prefix_clash f"
  have "v = Some (hf_value f)"
    using v(2)
  proof
    assume "\<exists>lit. static_rows (hf_key f) = [(i, Some lit)] \<and> v = Some lit \<and> strncmp_eq (hf_value f) lit"
    then obtain lit where lit: "static_rows (hf_key f) = [(i, Some lit)]" "v = Some lit"
        "strncmp_eq (hf_value f) lit" by blast
    show ?thesis using single_row [OF lit(1)] lit(2,3) good by (auto simp: static_prefix_clash_def)
  qed
  then show "entry_value (?T ! (i - 1)) = Some (hf_value f)" using e by simp
qed

end
