(* ===== verification/Hpack_State.thy ===== *)
theory Hpack_State
  imports Dynamic_Table Hpack_Static
begin

text \<open>
  The byte-bounded dynamic table of \<open>src/http/hpack.c\<close>: \<open>HpackDynamicTableState\<close>, the entry size of
  RFC 7541, section 4.1, insertion with eviction (section 4.4) and eviction on a size change
  (section 4.3), and the constructors and setters of the two states that wrap it. The counters
  are \<open>size_t\<close> values, so sums and differences of them wrap.

  The specification is \<open>spec_insert\<close> and \<open>evict_list\<close> on the list of the entries, newest first. The
  locale \<open>synced_store\<close> states what keeps the tables of the two ends of a connection equal.
\<close>

section \<open>State\<close>

record HpackDynamicTableState =
  dynamic_table :: "HpackHeaderDynamicEntry HpackHeaderDynamicTable"
  max_dynamic_table_byte_size :: nat
  current_dynamic_table_byte_size :: nat

text \<open>\<open>HpackDecompressState\<close> and \<open>HpackCompressState\<close> are structs with this state as the only field.\<close>

type_synonym HpackDecompressState = HpackDynamicTableState
type_synonym HpackCompressState = HpackDynamicTableState

definition tstr_len :: "tstr \<Rightarrow> nat" where
  "tstr_len s = (case s of None \<Rightarrow> 0 | Some bs \<Rightarrow> length bs)"

definition get_dynamic_entry_size :: "HpackHeaderDynamicEntry \<Rightarrow> nat" where
  "get_dynamic_entry_size e = size_add (size_add (length (entry_key e)) (tstr_len (entry_value e))) 32"

section \<open>Operations\<close>

lemma pop_count_less:
  "hpack_dynamic_table_pop_at_end alloc t = Ok (Some e, t') \<Longrightarrow> count t' < count t"
  by (auto simp: hpack_dynamic_table_pop_at_end_def shrink_table_def rbind_iffs Let_def split: if_splits)

text \<open>
  The eviction loop, \<open>while (current + new_size > max)\<close>. \<open>insert_entry_into_dynamic_table\<close> runs it with
  the size of the new entry, \<open>dynamic_table_evict_entries_on_table_change\<close> with 0.
\<close>

function evict_loop ::
  "(nat \<Rightarrow> bool) \<Rightarrow> nat \<Rightarrow> HpackDynamicTableState \<Rightarrow> (unit, HpackDynamicTableState) res" where
  "evict_loop alloc new_size state =
     (if size_add (current_dynamic_table_byte_size state) new_size > max_dynamic_table_byte_size state then
        rbind (hpack_dynamic_table_pop_at_end alloc (dynamic_table state)) (\<lambda>(entry_res, t').
        case entry_res of
          None \<Rightarrow> Ok (state\<lparr>dynamic_table := t'\<rparr>)
        | Some e \<Rightarrow>
            evict_loop alloc new_size
              (state\<lparr>dynamic_table := t',
                 current_dynamic_table_byte_size :=
                   size_sub (current_dynamic_table_byte_size state) (get_dynamic_entry_size e)\<rparr>))
      else Ok state)"
  by pat_completeness auto
termination
  by (relation "measure (\<lambda>(alloc, n, state). count (dynamic_table state))") (auto dest: pop_count_less)

declare evict_loop.simps [simp del]

definition insert_entry_into_dynamic_table ::
  "(nat \<Rightarrow> bool) \<Rightarrow> HpackDynamicTableState \<Rightarrow> HpackHeaderDynamicEntry
     \<Rightarrow> (unit, HpackDynamicTableState) res" where
  "insert_entry_into_dynamic_table alloc state new_entry =
     (let new_size = get_dynamic_entry_size new_entry in
      if new_size > max_dynamic_table_byte_size state then
        rbind (hpack_dynamic_table_free (dynamic_table state)) (\<lambda>t'.
        Ok (state\<lparr>dynamic_table := t', current_dynamic_table_byte_size := 0\<rparr>))
      else
        rbind (evict_loop alloc new_size state) (\<lambda>state1.
        rbind (hpack_dynamic_table_insert_at_start alloc (dynamic_table state1) new_entry)
          (\<lambda>(success, t').
        if \<not> success then Ok (state1\<lparr>dynamic_table := t'\<rparr>)
        else Ok (state1\<lparr>dynamic_table := t',
                   current_dynamic_table_byte_size :=
                     size_add (current_dynamic_table_byte_size state1) new_size\<rparr>))))"

definition dynamic_table_evict_entries_on_table_change ::
  "(nat \<Rightarrow> bool) \<Rightarrow> HpackDynamicTableState \<Rightarrow> (unit, HpackDynamicTableState) res" where
  "dynamic_table_evict_entries_on_table_change alloc state =
     (if max_dynamic_table_byte_size state = 0 then
        rbind (hpack_dynamic_table_free (dynamic_table state)) (\<lambda>t'.
        Ok (state\<lparr>dynamic_table := t', current_dynamic_table_byte_size := 0\<rparr>))
      else evict_loop alloc 0 state)"

definition set_hpack_decompress_state_setting ::
  "(nat \<Rightarrow> bool) \<Rightarrow> HpackDecompressState \<Rightarrow> nat \<Rightarrow> (unit, HpackDecompressState) res" where
  "set_hpack_decompress_state_setting alloc state max_size =
     dynamic_table_evict_entries_on_table_change alloc (state\<lparr>max_dynamic_table_byte_size := max_size\<rparr>)"

definition set_hpack_compress_state_setting ::
  "(nat \<Rightarrow> bool) \<Rightarrow> HpackCompressState \<Rightarrow> nat \<Rightarrow> (unit, HpackCompressState) res" where
  "set_hpack_compress_state_setting alloc state max_size =
     dynamic_table_evict_entries_on_table_change alloc (state\<lparr>max_dynamic_table_byte_size := max_size\<rparr>)"

definition get_default_hpack_dynamic_table_state :: "nat \<Rightarrow> HpackDynamicTableState" where
  "get_default_hpack_dynamic_table_state max_size =
     \<lparr>dynamic_table = hpack_dynamic_table_get_empty, max_dynamic_table_byte_size = max_size,
      current_dynamic_table_byte_size = 0\<rparr>"

text \<open>The constructors allocate one struct and give \<open>NULL\<close> when that fails.\<close>

definition get_default_hpack_decompress_state :: "(nat \<Rightarrow> bool) \<Rightarrow> nat \<Rightarrow> HpackDecompressState option" where
  "get_default_hpack_decompress_state alloc max_size =
     (if alloc 1 then Some (get_default_hpack_dynamic_table_state max_size) else None)"

definition get_default_hpack_compress_state :: "(nat \<Rightarrow> bool) \<Rightarrow> nat \<Rightarrow> HpackCompressState option" where
  "get_default_hpack_compress_state alloc max_size =
     (if alloc 1 then Some (get_default_hpack_dynamic_table_state max_size) else None)"

definition free_dynamic_table_state :: "HpackDynamicTableState \<Rightarrow> (unit, HpackDynamicTableState) res" where
  "free_dynamic_table_state state =
     rbind (hpack_dynamic_table_free (dynamic_table state)) (\<lambda>t'. Ok (state\<lparr>dynamic_table := t'\<rparr>))"

section \<open>Specification\<close>

definition entry_bytes :: "HpackHeaderDynamicEntry \<Rightarrow> nat" where
  "entry_bytes e = length (entry_key e) + tstr_len (entry_value e) + 32"

definition table_bytes :: "HpackHeaderDynamicEntry list \<Rightarrow> nat" where
  "table_bytes es = (\<Sum>e \<leftarrow> es. entry_bytes e)"

text \<open>Drop the oldest entries until the rest fits.\<close>

function evict_list :: "nat \<Rightarrow> HpackHeaderDynamicEntry list \<Rightarrow> HpackHeaderDynamicEntry list" where
  "evict_list limit es = (if table_bytes es \<le> limit then es else evict_list limit (butlast es))"
  by pat_completeness auto
termination
proof (relation "measure (\<lambda>(l, es). length es)")
  fix limit es
  assume "\<not> table_bytes es \<le> limit"
  then have "es \<noteq> []" by (auto simp: table_bytes_def)
  then show "((limit, butlast es), limit, es) \<in> measure (\<lambda>(l, es). length es)" by simp
qed simp

declare evict_list.simps [simp del]

definition spec_insert ::
  "nat \<Rightarrow> HpackHeaderDynamicEntry \<Rightarrow> HpackHeaderDynamicEntry list \<Rightarrow> HpackHeaderDynamicEntry list" where
  "spec_insert limit e es =
     (if entry_bytes e > limit then [] else e # evict_list (limit - entry_bytes e) es)"

definition state_view :: "HpackDynamicTableState \<Rightarrow> HpackHeaderDynamicEntry list \<times> nat" where
  "state_view state = (abs_table (dynamic_table state), max_dynamic_table_byte_size state)"

text \<open>
  The counter is the size of the stored entries and stays within the limit; limits are below
  \<open>2 ^ 63\<close>, so no sum of the code wraps.
\<close>

definition state_counts :: "HpackDynamicTableState \<Rightarrow> bool" where
  "state_counts state \<longleftrightarrow>
     table_inv (dynamic_table state) \<and>
     current_dynamic_table_byte_size state = table_bytes (abs_table (dynamic_table state)) \<and>
     current_dynamic_table_byte_size state < 2 ^ 63"

definition state_inv :: "HpackDynamicTableState \<Rightarrow> bool" where
  "state_inv state \<longleftrightarrow>
     state_counts state \<and> max_dynamic_table_byte_size state < 2 ^ 63 \<and>
     current_dynamic_table_byte_size state \<le> max_dynamic_table_byte_size state"

lemma table_bytes_simps [simp]:
  "table_bytes [] = 0" "table_bytes (e # es) = entry_bytes e + table_bytes es"
  "table_bytes (es @ fs) = table_bytes es + table_bytes fs"
  by (simp_all add: table_bytes_def)

lemma evict_list_cases:
  "table_bytes es \<le> limit \<Longrightarrow> evict_list limit es = es"
  "\<not> table_bytes es \<le> limit \<Longrightarrow> evict_list limit es = evict_list limit (butlast es)"
  by (subst evict_list.simps; simp)+

lemma evict_list_fits: "table_bytes (evict_list limit es) \<le> limit"
proof (induction limit es rule: evict_list.induct)
  case (1 limit es)
  then show ?case by (cases "table_bytes es \<le> limit") (simp_all add: evict_list_cases)
qed

lemma evict_list_prefix: "\<exists>n. evict_list limit es = take n es"
proof (induction limit es rule: evict_list.induct)
  case (1 limit es)
  show ?case
  proof (cases "table_bytes es \<le> limit")
    case True
    then show ?thesis by (auto simp: evict_list_cases intro: exI [of _ "length es"])
  next
    case False
    then obtain n where "evict_list limit (butlast es) = take n (butlast es)" using "1.IH" by blast
    then show ?thesis using False by (auto simp: evict_list_cases butlast_conv_take)
  qed
qed

lemma evict_list_longest:
  assumes "table_bytes (take n es) \<le> limit" "n \<le> length es"
  shows "n \<le> length (evict_list limit es)"
  using assms
proof (induction limit es rule: evict_list.induct)
  case (1 limit es)
  show ?case
  proof (cases "table_bytes es \<le> limit")
    case True
    then show ?thesis using "1.prems" by (simp add: evict_list_cases)
  next
    case False
    then have "n < length es" using "1.prems" by (cases "n = length es") auto
    moreover have "n \<le> length (evict_list limit (butlast es))"
      using "1.prems" \<open>n < length es\<close> False
      by (intro "1.IH") (auto simp: butlast_conv_take min_def)
    ultimately show ?thesis using False by (simp add: evict_list_cases)
  qed
qed

lemma table_bytes_take_le: "table_bytes (take n es) \<le> table_bytes es"
  by (metis append_take_drop_id le_add1 table_bytes_simps(3))

lemma entry_bytes_le_table: "e \<in> set es \<Longrightarrow> entry_bytes e \<le> table_bytes es"
  by (induction es) auto

lemma get_dynamic_entry_size_exact [size_simps]:
  "entry_bytes e < 2 ^ 64 \<Longrightarrow> get_dynamic_entry_size e = entry_bytes e"
  by (simp add: get_dynamic_entry_size_def entry_bytes_def size_add_def)

section \<open>The operations implement the specification\<close>

lemma evict_loop_correct:
  assumes "state_counts state" "new_size \<le> max_dynamic_table_byte_size state" "new_size < 2 ^ 63"
  shows "case evict_loop alloc new_size state of
      Ok state' \<Rightarrow> state_counts state' \<and>
        current_dynamic_table_byte_size state' + new_size \<le> max_dynamic_table_byte_size state \<and>
        state_view state' =
          (evict_list (max_dynamic_table_byte_size state - new_size) (abs_table (dynamic_table state)),
           max_dynamic_table_byte_size state)
    | Err _ \<Rightarrow> False
    | Undef u \<Rightarrow> u = ProcessExit \<and> \<not> (\<forall>n. alloc n)"
  using assms
proof (induction alloc new_size state rule: evict_loop.induct)
  case (1 alloc new_size state)
  let ?t = "dynamic_table state" and ?max = "max_dynamic_table_byte_size state"
    and ?cur = "current_dynamic_table_byte_size state"
  have inv: "table_inv ?t" and cur: "?cur = table_bytes (abs_table ?t)" "?cur < 2 ^ 63"
    using "1.prems"(1) by (auto simp: state_counts_def)
  have sum: "size_add ?cur new_size = ?cur + new_size"
    using cur(2) "1.prems"(3) by (intro size_simps) simp
  show ?case
  proof (cases "?cur + new_size > ?max")
    case False
    then have "evict_loop alloc new_size state = Ok state" by (subst evict_loop.simps) (simp add: sum)
    then show ?thesis using False "1.prems"(1) cur(1) by (simp add: state_view_def evict_list_cases)
  next
    case True
    then have nonempty: "abs_table ?t \<noteq> []" using cur(1) "1.prems"(2) by auto
    show ?thesis
    proof (cases "hpack_dynamic_table_pop_at_end alloc ?t")
      case (Ok r)
      obtain x t' where r: "r = (x, t')" by fastforce
      from dyn.pop_Ok [OF inv Ok [unfolded r]] nonempty obtain e where
        e: "x = Some e" "table_inv t'" "abs_table ?t = abs_table t' @ [e]"
        by (cases x) auto
      have small: "entry_bytes e \<le> ?cur" by (simp add: cur(1) e(3))
      have sz: "size_sub ?cur (get_dynamic_entry_size e) = table_bytes (abs_table t')"
        using small cur e(3) by (simp add: size_simps)
      let ?s = "state\<lparr>dynamic_table := t', current_dynamic_table_byte_size := table_bytes (abs_table t')\<rparr>"
      have step: "evict_loop alloc new_size state = evict_loop alloc new_size ?s"
        using True by (subst evict_loop.simps) (simp add: sum Ok r e(1) sz)
      have big: "evict_list (?max - new_size) (abs_table ?t) = evict_list (?max - new_size) (abs_table t')"
        using True cur(1) "1.prems"(2) by (simp add: e(3) evict_list_cases)
      have "state_counts ?s" using e(2,3) cur by (simp add: state_counts_def)
      then show ?thesis
        using "1.IH" [of r x t' e] True Ok r e(1) sz "1.prems"(2,3)
        by (simp add: step sum big split: res.splits)
    next
      case (Undef u)
      then show ?thesis
        using dyn.pop_safe [OF inv, of alloc] True by (subst evict_loop.simps) (auto simp: sum)
    qed (use dyn.pop_safe [OF inv, of alloc] in auto)
  qed
qed

lemma state_view_sel:
  assumes "state_view state = (es, limit)"
  shows "abs_table (dynamic_table state) = es" "max_dynamic_table_byte_size state = limit"
  using assms by (simp_all add: state_view_def)

lemma state_inv_facts:
  assumes "state_inv state"
  shows "table_inv (dynamic_table state)" "state_counts state" "max_dynamic_table_byte_size state < 2 ^ 63"
    "table_bytes (abs_table (dynamic_table state)) \<le> max_dynamic_table_byte_size state"
  using assms by (auto simp: state_inv_def state_counts_def)

lemma insert_entry_correct:
  assumes inv: "state_inv state" and small: "entry_bytes e < 2 ^ 64"
    and view: "state_view state = (es, limit)"
  shows "case insert_entry_into_dynamic_table alloc state e of
      Ok state' \<Rightarrow> state_inv state' \<and>
        (state_view state' = (spec_insert limit e es, limit) \<or>
         \<not> (\<forall>n. alloc n) \<and> state_view state' = (evict_list (limit - entry_bytes e) es, limit))
    | Err _ \<Rightarrow> False
    | Undef u \<Rightarrow> u = ProcessExit \<and> \<not> (\<forall>n. alloc n)"
proof (cases "entry_bytes e > limit")
  case True
  then show ?thesis
    using inv state_view_sel [OF view] dyn.free_law [OF state_inv_facts(1) [OF inv]]
    by (simp add: insert_entry_into_dynamic_table_def get_dynamic_entry_size_exact [OF small] Let_def
        spec_insert_def state_view_def state_inv_def state_counts_def)
next
  case False
  note sel = state_view_sel [OF view]
  have fits: "entry_bytes e \<le> max_dynamic_table_byte_size state" "entry_bytes e < 2 ^ 63"
    using False sel state_inv_facts(3) [OF inv] by auto
  note loop = evict_loop_correct [OF state_inv_facts(2) [OF inv] fits, of alloc, unfolded sel]
  show ?thesis
  proof (cases "evict_loop alloc (entry_bytes e) state")
    case (Ok state1)
    with loop have l: "state_counts state1" "current_dynamic_table_byte_size state1 + entry_bytes e \<le> limit"
      "state_view state1 = (evict_list (limit - entry_bytes e) es, limit)" by simp_all
    note sel1 = state_view_sel [OF l(3)]
    have t1: "table_inv (dynamic_table state1)" using l(1) by (simp add: state_counts_def)
    have add: "size_add (current_dynamic_table_byte_size state1) (entry_bytes e) =
        current_dynamic_table_byte_size state1 + entry_bytes e"
      using l(2) sel(2) state_inv_facts(3) [OF inv] by (intro size_simps) simp
    have lim: "limit < 2 ^ 63" using sel(2) state_inv_facts(3) [OF inv] by simp
    from dyn.insert_law [OF t1, of alloc e] show ?thesis
    proof
      assume "\<exists>t'. hpack_dynamic_table_insert_at_start alloc (dynamic_table state1) e = Ok (True, t') \<and>
        table_inv t' \<and> abs_table t' = e # abs_table (dynamic_table state1)"
      then obtain t' where t': "hpack_dynamic_table_insert_at_start alloc (dynamic_table state1) e = Ok (True, t')"
        "table_inv t'" "abs_table t' = e # abs_table (dynamic_table state1)" by blast
      then show ?thesis
        using False Ok l lim sel sel1 add
        by (simp add: insert_entry_into_dynamic_table_def get_dynamic_entry_size_exact [OF small] Let_def
            spec_insert_def state_view_def state_inv_def state_counts_def)
    next
      assume "hpack_dynamic_table_insert_at_start alloc (dynamic_table state1) e =
        Ok (False, dynamic_table state1) \<and> \<not> (\<forall>n. alloc n)"
      then show ?thesis
        using False Ok l lim sel sel1
        by (simp add: insert_entry_into_dynamic_table_def get_dynamic_entry_size_exact [OF small] Let_def
            state_view_def state_inv_def state_counts_def)
    qed
  next
    case (Undef u)
    with loop show ?thesis
      using False sel
      by (simp add: insert_entry_into_dynamic_table_def get_dynamic_entry_size_exact [OF small] Let_def)
  qed (use loop in simp)
qed

lemma resize_correct:
  assumes inv: "state_counts state" and max: "max_dynamic_table_byte_size state < 2 ^ 63"
    and view: "state_view state = (es, limit)"
  shows "case dynamic_table_evict_entries_on_table_change alloc state of
      Ok state' \<Rightarrow> state_inv state' \<and> state_view state' = (evict_list limit es, limit)
    | Err _ \<Rightarrow> False
    | Undef u \<Rightarrow> u = ProcessExit \<and> \<not> (\<forall>n. alloc n)"
proof (cases "limit = 0")
  case True
  have t: "table_inv (dynamic_table state)" using inv by (simp add: state_counts_def)
  have "evict_list 0 es = []"
    using evict_list_fits [of 0 es] by (cases "evict_list 0 es") (auto simp: entry_bytes_def)
  then show ?thesis
    using True state_view_sel [OF view] dyn.free_law [OF t]
    by (simp add: dynamic_table_evict_entries_on_table_change_def state_view_def state_inv_def state_counts_def)
next
  case False
  then show ?thesis
    using evict_loop_correct [OF inv, of 0 alloc] state_view_sel [OF view] max
    by (auto simp: dynamic_table_evict_entries_on_table_change_def state_inv_def state_view_def
        split: res.splits)
qed

section \<open>The interface: stores that stay in step\<close>

text \<open>
  Two ends of a connection hold one store each and apply the same changes. \<open>view\<close> is what the
  other end has to agree on; \<open>mem\<close> says that allocation succeeds.
\<close>

locale synced_store =
  fixes ins :: "'s \<Rightarrow> 'e \<Rightarrow> (unit, 's) res"
    and resize :: "'s \<Rightarrow> nat \<Rightarrow> (unit, 's) res"
    and view :: "'s \<Rightarrow> 'v"
    and spec_ins :: "'e \<Rightarrow> 'v \<Rightarrow> 'v"
    and spec_resize :: "nat \<Rightarrow> 'v \<Rightarrow> 'v"
    and inv :: "'s \<Rightarrow> bool"
    and fits :: "'e \<Rightarrow> bool"
    and bound :: nat
    and mem :: bool
  assumes ins_law: "inv s \<Longrightarrow> fits e \<Longrightarrow> mem \<Longrightarrow>
      \<exists>s'. ins s e = Ok s' \<and> inv s' \<and> view s' = spec_ins e (view s)"
    and resize_law: "inv s \<Longrightarrow> n < bound \<Longrightarrow> mem \<Longrightarrow>
      \<exists>s'. resize s n = Ok s' \<and> inv s' \<and> view s' = spec_resize n (view s)"
    and ins_inv: "inv s \<Longrightarrow> fits e \<Longrightarrow> ins s e = Ok s' \<Longrightarrow> inv s'"
    and resize_inv: "inv s \<Longrightarrow> n < bound \<Longrightarrow> resize s n = Ok s' \<Longrightarrow> inv s'"
    and ins_safe: "inv s \<Longrightarrow> fits e \<Longrightarrow> ins s e \<noteq> Err () \<and> (ins s e = Undef u \<longrightarrow> u = ProcessExit)"
    and resize_safe: "inv s \<Longrightarrow> n < bound \<Longrightarrow>
      resize s n \<noteq> Err () \<and> (resize s n = Undef u \<longrightarrow> u = ProcessExit)"
begin

lemma ins_sync:
  assumes "inv s" "inv t" "view s = view t" "fits e" mem
  shows "\<exists>s' t'. ins s e = Ok s' \<and> ins t e = Ok t' \<and> inv s' \<and> inv t' \<and> view s' = view t'"
  using ins_law [OF assms(1,4,5)] ins_law [OF assms(2,4,5)] assms(3) by fastforce

lemma resize_sync:
  assumes "inv s" "inv t" "view s = view t" "n < bound" mem
  shows "\<exists>s' t'. resize s n = Ok s' \<and> resize t n = Ok t' \<and> inv s' \<and> inv t' \<and> view s' = view t'"
  using resize_law [OF assms(1,4,5)] resize_law [OF assms(2,4,5)] assms(3) by fastforce

text \<open>A sequence of changes, as one store sees it.\<close>

primrec run :: "('e + nat) list \<Rightarrow> 's \<Rightarrow> (unit, 's) res" where
  "run [] s = Ok s"
| "run (x # xs) s = rbind (case x of Inl e \<Rightarrow> ins s e | Inr n \<Rightarrow> resize s n) (run xs)"

lemma run_sync:
  assumes "inv s" "inv t" "view s = view t" "mem"
    "\<forall>x \<in> set xs. case x of Inl e \<Rightarrow> fits e | Inr n \<Rightarrow> n < bound"
  shows "\<exists>s' t'. run xs s = Ok s' \<and> run xs t = Ok t' \<and> inv s' \<and> inv t' \<and> view s' = view t'"
  using assms
proof (induction xs arbitrary: s t)
  case (Cons x xs)
  show ?case
  proof (cases x)
    case (Inl e)
    with Cons.prems ins_sync [of s t e] obtain s' t'
      where "ins s e = Ok s'" "ins t e = Ok t'" "inv s'" "inv t'" "view s' = view t'" by auto
    then show ?thesis using Cons.IH [of s' t'] Cons.prems Inl by auto
  next
    case (Inr n)
    with Cons.prems resize_sync [of s t n] obtain s' t'
      where "resize s n = Ok s'" "resize t n = Ok t'" "inv s'" "inv t'" "view s' = view t'" by auto
    then show ?thesis using Cons.IH [of s' t'] Cons.prems Inr by auto
  qed
qed auto

end

interpretation store: synced_store
  "insert_entry_into_dynamic_table alloc" "set_hpack_decompress_state_setting alloc" state_view
  "\<lambda>e (es, limit). (spec_insert limit e es, limit)" "\<lambda>n (es, limit). (evict_list n es, n)"
  state_inv "\<lambda>e. entry_bytes e < 2 ^ 64" "2 ^ 63" "\<forall>n. alloc n"
  for alloc
proof
  fix s s' :: HpackDynamicTableState and e :: HpackHeaderDynamicEntry and n :: nat and u
  obtain es limit where v: "state_view s = (es, limit)" by fastforce
  {
    assume h: "state_inv s" "entry_bytes e < 2 ^ 64"
    note c = insert_entry_correct [OF h v, of alloc]
    show "insert_entry_into_dynamic_table alloc s e \<noteq> Err () \<and>
        (insert_entry_into_dynamic_table alloc s e = Undef u \<longrightarrow> u = ProcessExit)"
      using c by (auto split: res.splits)
    show "\<exists>s'. insert_entry_into_dynamic_table alloc s e = Ok s' \<and> state_inv s' \<and>
        state_view s' = (case state_view s of (es, limit) \<Rightarrow> (spec_insert limit e es, limit))"
      if "\<forall>n. alloc n" using c that v by (auto split: res.splits)
    show "state_inv s'" if "insert_entry_into_dynamic_table alloc s e = Ok s'"
      using c that by auto
  next
    assume h: "state_inv s" "n < 2 ^ 63"
    let ?s = "s\<lparr>max_dynamic_table_byte_size := n\<rparr>"
    have "state_counts ?s" "state_view ?s = (es, n)"
      using h v by (simp_all add: state_inv_def state_counts_def state_view_def)
    note c = resize_correct [OF this(1) _ this(2), of alloc, simplified,
        folded set_hpack_decompress_state_setting_def, OF h(2) [simplified]]
    show "set_hpack_decompress_state_setting alloc s n \<noteq> Err () \<and>
        (set_hpack_decompress_state_setting alloc s n = Undef u \<longrightarrow> u = ProcessExit)"
      using c by (auto split: res.splits)
    show "\<exists>s'. set_hpack_decompress_state_setting alloc s n = Ok s' \<and> state_inv s' \<and>
        state_view s' = (case state_view s of (es, limit) \<Rightarrow> (evict_list n es, n))"
      if "\<forall>n. alloc n" using c that v by (auto split: res.splits)
    show "state_inv s'" if "set_hpack_decompress_state_setting alloc s n = Ok s'"
      using c that by auto
  }
qed

lemma evict_list_maximal:
  obtains k where "k \<le> length es" "evict_list limit es = take k es" "table_bytes (take k es) \<le> limit"
    "k < length es \<Longrightarrow> limit < table_bytes (take (Suc k) es)"
proof -
  obtain n where n: "evict_list limit es = take n es" using evict_list_prefix by blast
  define k where "k = min n (length es)"
  have k: "k \<le> length es" "evict_list limit es = take k es" by (simp_all add: k_def n min_def)
  moreover have "table_bytes (take k es) \<le> limit" using evict_list_fits [of limit es] k(2) by simp
  moreover have "limit < table_bytes (take (Suc k) es)" if "k < length es"
    using evict_list_longest [of "Suc k" es limit] that k by (cases "limit < table_bytes (take (Suc k) es)") auto
  ultimately show ?thesis using that by blast
qed

section \<open>Reachable states\<close>

text \<open>
  The states a connection can bring the table into: a fresh table, insertions and size changes,
  whatever the allocator answers.
\<close>

inductive table_reach :: "(nat \<Rightarrow> bool) \<Rightarrow> HpackDynamicTableState \<Rightarrow> bool" for alloc where
  fresh: "n < 2 ^ 63 \<Longrightarrow> table_reach alloc (get_default_hpack_dynamic_table_state n)"
| insertion: "table_reach alloc s \<Longrightarrow> entry_bytes e < 2 ^ 64 \<Longrightarrow>
    insert_entry_into_dynamic_table alloc s e = Ok s' \<Longrightarrow> table_reach alloc s'"
| size_change: "table_reach alloc s \<Longrightarrow> n < 2 ^ 63 \<Longrightarrow>
    set_hpack_decompress_state_setting alloc s n = Ok s' \<Longrightarrow> table_reach alloc s'"

lemma state_inv_fresh: "n < 2 ^ 63 \<Longrightarrow> state_inv (get_default_hpack_dynamic_table_state n)"
  by (simp add: get_default_hpack_dynamic_table_state_def state_inv_def state_counts_def)

lemma table_reach_inv: "table_reach alloc s \<Longrightarrow> state_inv s"
proof (induction rule: table_reach.induct)
  case (fresh n)
  then show ?case by (rule state_inv_fresh)
next
  case (insertion s e s')
  then show ?case using store.ins_inv by blast
next
  case (size_change s n s')
  then show ?case using store.resize_inv by blast
qed

section \<open>Properties\<close>

text \<open>
  C22. Insertion into the dynamic table: an entry larger than the limit empties the table; any
  other entry becomes the newest one and the oldest entries go, exactly as many as needed for the
  whole to fit the limit. The byte counter stays exact.
\<close>

theorem insert_entry_evicts_oldest:
  assumes "state_inv s" and "entry_bytes e < 2 ^ 64" and "\<forall>n. alloc n"
  defines "es \<equiv> abs_table (dynamic_table s)" and "limit \<equiv> max_dynamic_table_byte_size s"
  shows "\<exists>s'. insert_entry_into_dynamic_table alloc s e = Ok s' \<and> state_inv s' \<and>
    max_dynamic_table_byte_size s' = limit \<and>
    (if entry_bytes e > limit then abs_table (dynamic_table s') = []
     else \<exists>k \<le> length es. abs_table (dynamic_table s') = e # take k es \<and>
            entry_bytes e + table_bytes (take k es) \<le> limit \<and>
            (k < length es \<longrightarrow> limit < entry_bytes e + table_bytes (take (Suc k) es)))"
proof -
  obtain s' where s': "insert_entry_into_dynamic_table alloc s e = Ok s'" "state_inv s'"
      "state_view s' = (spec_insert limit e es, limit)"
    using store.ins_law [OF assms(1-3)] by (auto simp: state_view_def es_def limit_def)
  obtain k where k: "k \<le> length es" "evict_list (limit - entry_bytes e) es = take k es"
      "table_bytes (take k es) \<le> limit - entry_bytes e"
      "k < length es \<Longrightarrow> limit - entry_bytes e < table_bytes (take (Suc k) es)"
    using evict_list_maximal [of es "limit - entry_bytes e"] by blast
  have "(if entry_bytes e > limit then spec_insert limit e es = []
      else \<exists>k \<le> length es. spec_insert limit e es = e # take k es \<and>
            entry_bytes e + table_bytes (take k es) \<le> limit \<and>
            (k < length es \<longrightarrow> limit < entry_bytes e + table_bytes (take (Suc k) es)))"
    using k by (auto simp: spec_insert_def intro!: exI [of _ k])
  then show ?thesis using s' by (auto simp: state_view_def)
qed

theorem insert_entry_evicts_oldest_witness:
  "\<exists>s'. insert_entry_into_dynamic_table (\<lambda>_. True) (get_default_hpack_dynamic_table_state 100)
       \<lparr>entry_key = [1, 2], entry_value = Some [3]\<rparr> = Ok s' \<and> state_inv s' \<and>
     abs_table (dynamic_table s') = [\<lparr>entry_key = [1, 2], entry_value = Some [3]\<rparr>]"
proof -
  let ?s = "get_default_hpack_dynamic_table_state 100"
  have a: "abs_table (dynamic_table ?s) = []" "max_dynamic_table_byte_size ?s = 100"
    by (simp_all add: get_default_hpack_dynamic_table_state_def)
  show ?thesis
    using insert_entry_evicts_oldest [OF state_inv_fresh, of 100
        "\<lparr>entry_key = [1, 2], entry_value = Some [3]\<rparr>" "\<lambda>_. True"]
    by (auto simp: a entry_bytes_def tstr_len_def)
qed



end
