(* ===== verification/Hpack_Env.thy ===== *)
theory Hpack_Env
  imports Hpack_Codes Hpack_Integer Hpack_State
begin

text \<open>
  What the compressor and the decompressor of \<open>src/http/hpack.c\<close> share besides the dynamic table:
  the global tables set up by \<open>global_initialize_http2_hpack_data\<close>, the build mode, and the
  combined index space of the static and the dynamic table (RFC 7541, section 2.3.3).

  The allocator and the vector library \<open>tvec\<close> are parameters: \<open>env_alloc n\<close> says whether an
  allocation of size \<open>n\<close> succeeds, \<open>env_push n\<close> whether \<open>TVEC_PUSH\<close> onto a vector of length
  \<open>n\<close> does. \<open>env_ndebug\<close> is the \<open>NDEBUG\<close> of a release build. The string library \<open>tstr\<close> is
  taken to return its copies.
\<close>

section \<open>Environment\<close>

record hpack_env =
  env_alloc :: "nat \<Rightarrow> bool"
  env_push :: "nat \<Rightarrow> bool"
  env_ndebug :: bool
  env_static :: "HpackHeaderDynamicEntry list option"
  env_huffman :: GlobalHpackHuffmanData
  env_find :: "HttpHeaderField \<Rightarrow> StaticTableFindResult"
  env_common :: "bytes \<Rightarrow> bool"

text \<open>The program before and after its global initialisation.\<close>

definition initial_env :: "(nat \<Rightarrow> bool) \<Rightarrow> (nat \<Rightarrow> bool) \<Rightarrow> bool \<Rightarrow> hpack_env" where
  "initial_env alloc push ndebug =
     \<lparr>env_alloc = alloc, env_push = push, env_ndebug = ndebug, env_static = None,
      env_huffman = \<lparr>huff_tree = None, huff_map = None\<rparr>,
      env_find = hpack_generated_find_in_static_table_fast,
      env_common = hpack_generated_is_common_field_key_fast\<rparr>"

definition global_initialize_hpack_static_header_table_data :: "hpack_env \<Rightarrow> hpack_env" where
  "global_initialize_hpack_static_header_table_data env =
     env\<lparr>env_static := Some get_hpack_static_header_table_entries\<rparr>"

definition global_initialize_http2_hpack_data :: "hpack_env \<Rightarrow> hpack_env" where
  "global_initialize_http2_hpack_data env =
     global_initialize_hpack_static_header_table_data
       (env\<lparr>env_huffman := global_initialize_http2_hpack_huffman_data get_hpack_huffman_tree
                (Some get_hpack_huffman_encode_map) (env_huffman env)\<rparr>)"

definition server_env :: "(nat \<Rightarrow> bool) \<Rightarrow> (nat \<Rightarrow> bool) \<Rightarrow> bool \<Rightarrow> hpack_env" where
  "server_env alloc push ndebug = global_initialize_http2_hpack_data (initial_env alloc push ndebug)"

lemma server_env_sel [simp]:
  "env_alloc (server_env alloc push ndebug) = alloc"
  "env_push (server_env alloc push ndebug) = push"
  "env_ndebug (server_env alloc push ndebug) = ndebug"
  "env_static (server_env alloc push ndebug) = Some get_hpack_static_header_table_entries"
  "env_huffman (server_env alloc push ndebug) = g_huffman_data"
  "env_find (server_env alloc push ndebug) = hpack_generated_find_in_static_table_fast"
  "env_common (server_env alloc push ndebug) = hpack_generated_is_common_field_key_fast"
  by (simp_all add: server_env_def global_initialize_http2_hpack_data_def initial_env_def
      global_initialize_hpack_static_header_table_data_def g_huffman_data_def)

section \<open>The index space\<close>

definition hpack_get_table_entry_at ::
  "hpack_env \<Rightarrow> HpackDynamicTableState \<Rightarrow> nat \<Rightarrow> (unit, HpackHeaderDynamicEntry option) res" where
  "hpack_get_table_entry_at env state idx =
     (if idx = 0 then Ok None
      else if idx \<le> HPACK_STATIC_HEADER_TABLE_SIZE then
        (case env_static env of
           None \<Rightarrow> Undef AssertFailed
         | Some static_header_table \<Rightarrow>
             if idx - 1 < length static_header_table then Ok (Some (static_header_table ! (idx - 1)))
             else Undef OutOfBounds)
      else
        (let dynamic_index = idx - HPACK_STATIC_HEADER_TABLE_SIZE - 1 in
         if hpack_dynamic_table_size (dynamic_table state) \<le> dynamic_index then Ok None
         else hpack_dynamic_table_at (dynamic_table state) dynamic_index))"

definition table_entry :: "HpackHeaderDynamicEntry list \<Rightarrow> nat \<Rightarrow> HpackHeaderDynamicEntry option" where
  "table_entry es idx =
     (let all_entries = get_hpack_static_header_table_entries @ es in
      if 0 < idx \<and> idx \<le> length all_entries then Some (all_entries ! (idx - 1)) else None)"

lemma hpack_get_table_entry_at_correct:
  assumes "table_inv (dynamic_table state)"
  shows "hpack_get_table_entry_at (server_env alloc push ndebug) state idx =
    Ok (table_entry (abs_table (dynamic_table state)) idx)"
  using assms length_static_table
  by (auto simp: hpack_get_table_entry_at_def table_entry_def Let_def nth_append dyn.at_law dyn.size_law)

lemma table_entry_static:
  assumes "0 < i" "i \<le> length get_hpack_static_header_table_entries"
  shows "table_entry es i = Some (get_hpack_static_header_table_entries ! (i - 1))"
  using assms by (simp add: table_entry_def nth_append)

lemma table_entry_dynamic:
  assumes "i < length es"
  shows "table_entry es (i + 1 + HPACK_STATIC_HEADER_TABLE_SIZE) = Some (es ! i)"
  using assms length_static_table by (simp add: table_entry_def nth_append)

lemma static_entry_small:
  assumes "e \<in> set get_hpack_static_header_table_entries"
  shows "length (entry_key e) < 64"
proof -
  have "list_all (\<lambda>(k, v). length k < 64) rawHeaderTable" by code_simp
  then show ?thesis
    using assms by (auto simp: get_hpack_static_header_table_entries_def str_bytes_def list_all_iff)
qed

lemma table_entry_key_bound:
  assumes "table_entry es i = Some e" "table_bytes es < 2 ^ 63"
  shows "length (entry_key e) < 2 ^ 63"
proof -
  let ?all = "get_hpack_static_header_table_entries @ es"
  have "e = ?all ! (i - 1)" "i - 1 < length ?all"
    using assms(1) by (auto simp: table_entry_def Let_def split: if_splits)
  then have "e \<in> set ?all" using nth_mem by blast
  then show ?thesis
    using static_entry_small [of e] entry_bytes_le_table [of e es] assms(2) by (auto simp: entry_bytes_def)
qed

end
