(* ===== verification/Hpack_Decode.thy ===== *)
theory Hpack_Decode
  imports Hpack_Env
begin

text \<open>
  The header-block decoder of \<open>src/http/hpack.c\<close>: string literals, the five representations of
  RFC 7541, section 6, and the loop over a block. Positions index the input block; a parse function
  returns the new position. The state after an error is part of the error value, since the
  decoder keeps the changes of the representations before it.
\<close>

section \<open>String literals\<close>

datatype literal_string_error =
    NotEnoughAtStart | IntegerError hpack_integer_error | NotEnoughAfterLength | NotEnoughData
  | HuffmanError huffman_error | LiteralOOM

text \<open>
  The part after the length. \<open>*pos + length\<close> is a \<open>size_t\<close> sum; a buffer that leaves the block after
  a wrapped sum would be read out of bounds. A debug build asserts that a decoded string has no
  NUL byte.
\<close>

definition read_string_octets ::
  "hpack_env \<Rightarrow> bytes \<Rightarrow> bool \<Rightarrow> nat \<Rightarrow> nat \<Rightarrow> (literal_string_error, bytes \<times> nat) res" where
  "read_string_octets env data is_huffman len position =
     (if position \<ge> length data then Err NotEnoughAfterLength
      else if len = 0 then Ok ([], position)
      else if size_add position len > length data then Err NotEnoughData
      else if position + len > length data then Undef OutOfBounds
      else
        (let raw_bytes = take len (drop position data); pos1 = position + len in
         if is_huffman then
           rbind (map_err HuffmanError (hpack_huffman_decode_bytes (env_alloc env) (env_huffman env) raw_bytes))
             (\<lambda>result.
           if \<not> env_ndebug env \<and> 0 \<in> set result then Undef AssertFailed else Ok (result, pos1))
         else if \<not> env_alloc env (len + 1) then Err LiteralOOM
         else Ok (raw_bytes, pos1)))"

definition parse_literal_string_value ::
  "hpack_env \<Rightarrow> bytes \<Rightarrow> nat \<Rightarrow> (literal_string_error, bytes \<times> nat) res" where
  "parse_literal_string_value env data position =
     (if position \<ge> length data then Err NotEnoughAtStart
      else
        (let is_huffman = data ! position AND 0x80 \<noteq> 0 in
         rbind (map_err IntegerError (decode_hpack_variable_integer data position 7)) (\<lambda>(len, pos1).
         read_string_octets env data is_huffman (unat len) pos1)))"

section \<open>Representations\<close>

text \<open>\<open>TVEC_PUSH (HttpHeaderField, headers, field)\<close>\<close>

definition push_header ::
  "hpack_env \<Rightarrow> HttpHeaderField list \<Rightarrow> HttpHeaderField \<Rightarrow> (unit, HttpHeaderField list) res" where
  "push_header env headers field =
     (if env_push env (length headers) then Ok (headers @ [field]) else Err ())"

text \<open>
  A null value in the table is an error in a release build and an empty string in a debug build
  (whose report to a test callback is not part of the model).
\<close>

definition parse_hpack_indexed_header_field ::
  "hpack_env \<Rightarrow> bytes \<Rightarrow> nat \<Rightarrow> HttpHeaderField list \<Rightarrow> HpackDecompressState
     \<Rightarrow> (unit, nat \<times> HttpHeaderField list) res" where
  "parse_hpack_indexed_header_field env data position headers state =
     rbind (map_err (\<lambda>_. ()) (decode_hpack_variable_integer data position 7)) (\<lambda>(index, pos1).
     if index = 0 then Err ()
     else
       rbind (hpack_get_table_entry_at env state (unat index)) (\<lambda>entry_res.
       case entry_res of
         None \<Rightarrow> Err ()
       | Some entry \<Rightarrow>
           (case entry_value entry of
              None \<Rightarrow>
                if env_ndebug env then Err ()
                else rbind (push_header env headers \<lparr>hf_key = entry_key entry, hf_value = []\<rparr>)
                       (\<lambda>headers'. Ok (pos1, headers'))
            | Some v \<Rightarrow>
                rbind (push_header env headers \<lparr>hf_key = entry_key entry, hf_value = v\<rparr>)
                  (\<lambda>headers'. Ok (pos1, headers')))))"

text \<open>
  The three literal representations share their body: an index of \<open>prefix_bits\<close> bits names the
  key, or 0 and a string literal follows; then comes the value, and the field is appended.
\<close>

definition parse_literal_key ::
  "hpack_env \<Rightarrow> bytes \<Rightarrow> nat \<Rightarrow> HpackDecompressState \<Rightarrow> nat \<Rightarrow> (unit, bytes \<times> nat) res" where
  "parse_literal_key env data position state prefix_bits =
     rbind (map_err (\<lambda>_. ()) (decode_hpack_variable_integer data position prefix_bits)) (\<lambda>(index, pos1).
     if index = 0 then map_err (\<lambda>_. ()) (parse_literal_string_value env data pos1)
     else
       rbind (hpack_get_table_entry_at env state (unat index)) (\<lambda>entry.
       case entry of None \<Rightarrow> Err () | Some entry_ok \<Rightarrow> Ok (entry_key entry_ok, pos1)))"

definition parse_literal_field ::
  "hpack_env \<Rightarrow> bytes \<Rightarrow> nat \<Rightarrow> HttpHeaderField list \<Rightarrow> HpackDecompressState \<Rightarrow> nat
     \<Rightarrow> (unit, HttpHeaderField \<times> nat \<times> HttpHeaderField list) res" where
  "parse_literal_field env data position headers state prefix_bits =
     rbind (parse_literal_key env data position state prefix_bits) (\<lambda>(header_key, pos1).
     if pos1 \<ge> length data then Err ()
     else
       rbind (map_err (\<lambda>_. ()) (parse_literal_string_value env data pos1)) (\<lambda>(v, pos2).
       let header_field = \<lparr>hf_key = header_key, hf_value = v\<rparr> in
       rbind (push_header env headers header_field) (\<lambda>headers'.
       Ok (header_field, pos2, headers'))))"

definition parse_hpack_literal_header_field_with_incremental_indexing ::
  "hpack_env \<Rightarrow> bytes \<Rightarrow> nat \<Rightarrow> HttpHeaderField list \<Rightarrow> HpackDecompressState
     \<Rightarrow> (unit, nat \<times> HttpHeaderField list \<times> HpackDecompressState) res" where
  "parse_hpack_literal_header_field_with_incremental_indexing env data position headers state =
     rbind (parse_literal_field env data position headers state 6) (\<lambda>(field, pos1, headers').
     rbind (insert_entry_into_dynamic_table (env_alloc env) state
              \<lparr>entry_key = hf_key field, entry_value = Some (hf_value field)\<rparr>) (\<lambda>state'.
     Ok (pos1, headers', state')))"

definition parse_hpack_dynamic_table_size_update ::
  "hpack_env \<Rightarrow> bytes \<Rightarrow> nat \<Rightarrow> HpackDecompressState \<Rightarrow> (unit, nat \<times> HpackDecompressState) res" where
  "parse_hpack_dynamic_table_size_update env data position state =
     rbind (map_err (\<lambda>_. ()) (decode_hpack_variable_integer data position 5)) (\<lambda>(new_size, pos1).
     rbind (set_hpack_decompress_state_setting (env_alloc env) state (unat new_size)) (\<lambda>state'.
     Ok (pos1, state')))"

definition parse_hpack_literal_header_field_never_indexed ::
  "hpack_env \<Rightarrow> bytes \<Rightarrow> nat \<Rightarrow> HttpHeaderField list \<Rightarrow> HpackDecompressState
     \<Rightarrow> (unit, nat \<times> HttpHeaderField list) res" where
  "parse_hpack_literal_header_field_never_indexed env data position headers state =
     rbind (parse_literal_field env data position headers state 4) (\<lambda>(field, pos1, headers'). Ok (pos1, headers'))"

definition parse_hpack_literal_header_field_without_indexing ::
  "hpack_env \<Rightarrow> bytes \<Rightarrow> nat \<Rightarrow> HttpHeaderField list \<Rightarrow> HpackDecompressState
     \<Rightarrow> (unit, nat \<times> HttpHeaderField list) res" where
  "parse_hpack_literal_header_field_without_indexing env data position headers state =
     rbind (parse_literal_field env data position headers state 4) (\<lambda>(field, pos1, headers'). Ok (pos1, headers'))"

section \<open>The loop over a block\<close>

datatype decompress_error =
    StateIsNull | ErrorInIndexed | ErrorInIncremental | ErrorInSizeUpdate | ErrorInNeverIndexed
  | ErrorInWithoutIndexing

text \<open>One iteration: the first byte selects the representation.\<close>

definition decompress_step ::
  "hpack_env \<Rightarrow> bytes \<Rightarrow> nat \<Rightarrow> HttpHeaderField list \<Rightarrow> HpackDecompressState
     \<Rightarrow> (decompress_error, nat \<times> HttpHeaderField list \<times> HpackDecompressState) res" where
  "decompress_step env data position headers state =
     (let byte = data ! position in
      if byte AND 0x80 \<noteq> 0 then
        map_err (\<lambda>_. ErrorInIndexed)
          (rbind (parse_hpack_indexed_header_field env data position headers state) (\<lambda>(pos1, headers').
           Ok (pos1, headers', state)))
      else if byte AND 0xC0 = 0x40 then
        map_err (\<lambda>_. ErrorInIncremental)
          (parse_hpack_literal_header_field_with_incremental_indexing env data position headers state)
      else if byte AND 0xE0 = 0x20 then
        map_err (\<lambda>_. ErrorInSizeUpdate)
          (rbind (parse_hpack_dynamic_table_size_update env data position state) (\<lambda>(pos1, state').
           Ok (pos1, headers, state')))
      else if byte AND 0xF0 = 0x10 then
        map_err (\<lambda>_. ErrorInNeverIndexed)
          (rbind (parse_hpack_literal_header_field_never_indexed env data position headers state)
             (\<lambda>(pos1, headers'). Ok (pos1, headers', state)))
      else
        rbind (check_assert (byte AND 0xF0 = 0)) (\<lambda>_.
        map_err (\<lambda>_. ErrorInWithoutIndexing)
          (rbind (parse_hpack_literal_header_field_without_indexing env data position headers state)
             (\<lambda>(pos1, headers'). Ok (pos1, headers', state)))))"

text \<open>Every representation moves the position forward, so the loop ends.\<close>

lemma decode_integer_progress:
  assumes "decode_hpack_variable_integer data position p = Ok (v, pos')"
  shows "position < pos'"
  using assms decode_integer_outcomes [of position data p]
  by (cases "position < length data") (auto simp: decode_hpack_variable_integer_def Let_def)

lemma parse_string_progress:
  assumes "parse_literal_string_value env data position = Ok (s, pos')"
  shows "position < pos'"
  using assms
  by (auto simp: parse_literal_string_value_def read_string_octets_def rbind_iffs Let_def
      split: if_splits dest!: decode_integer_progress)

lemma parse_literal_key_progress:
  assumes "parse_literal_key env data position state p = Ok (k, pos')"
  shows "position < pos'"
  using assms
  by (auto simp: parse_literal_key_def rbind_iffs split: if_splits option.splits
      dest!: decode_integer_progress parse_string_progress)

lemma parse_literal_field_progress:
  assumes "parse_literal_field env data position headers state p = Ok (f, pos', headers')"
  shows "position < pos'"
  using assms
  by (auto simp: parse_literal_field_def rbind_iffs Let_def split: if_splits
      dest!: parse_literal_key_progress parse_string_progress)

lemma decompress_step_progress:
  assumes "decompress_step env data position headers state = Ok (pos', headers', state')"
  shows "position < pos'"
  using assms
  by (auto simp: decompress_step_def rbind_iffs Let_def
      parse_hpack_indexed_header_field_def parse_hpack_literal_header_field_with_incremental_indexing_def
      parse_hpack_dynamic_table_size_update_def parse_hpack_literal_header_field_never_indexed_def
      parse_hpack_literal_header_field_without_indexing_def
      split: if_splits option.splits dest!: parse_literal_field_progress decode_integer_progress)

function decompress_loop ::
  "hpack_env \<Rightarrow> bytes \<Rightarrow> nat \<Rightarrow> HttpHeaderField list \<Rightarrow> HpackDecompressState
     \<Rightarrow> (decompress_error \<times> HpackDecompressState, HttpHeaderField list \<times> HpackDecompressState) res" where
  "decompress_loop env data position headers state =
     (if position < length data then
        rbind (map_err (\<lambda>e. (e, state)) (decompress_step env data position headers state))
          (\<lambda>(pos', headers', state'). decompress_loop env data pos' headers' state')
      else Ok (headers, state))"
  by pat_completeness auto
termination
  by (relation "measure (\<lambda>(env, data, position, headers, state). length data - position)")
    (auto dest!: decompress_step_progress)

declare decompress_loop.simps [simp del]

definition http2_hpack_decompress_data_impl ::
  "hpack_env \<Rightarrow> HpackDecompressState \<Rightarrow> bytes
     \<Rightarrow> (decompress_error \<times> HpackDecompressState, HttpHeaderField list \<times> HpackDecompressState) res" where
  "http2_hpack_decompress_data_impl env state input = decompress_loop env input 0 [] state"

definition http2_hpack_decompress_data ::
  "hpack_env \<Rightarrow> HpackDecompressState option \<Rightarrow> bytes
     \<Rightarrow> (decompress_error \<times> HpackDecompressState option, HttpHeaderField list \<times> HpackDecompressState) res" where
  "http2_hpack_decompress_data env decompress_state input =
     (case decompress_state of
        None \<Rightarrow> Err (StateIsNull, None)
      | Some state \<Rightarrow> map_err (\<lambda>(e, s). (e, Some s)) (http2_hpack_decompress_data_impl env state input))"

section \<open>Safety\<close>

text \<open>
  The faults a block can cause: the undefined shift of a long integer, the process exit of the
  dynamic table, and in a debug build the assertion on decoded strings.
\<close>

definition decode_fault :: "bool \<Rightarrow> fault \<Rightarrow> bool" where
  "decode_fault ndebug u \<longleftrightarrow> u = ShiftRange \<or> u = ProcessExit \<or> \<not> ndebug \<and> u = AssertFailed"

lemma decode_bits_length:
  "decode_bits root m bs node vals = Ok (nd, vs) \<Longrightarrow> length vs \<le> max (length vals) m"
  by (induction root m bs node vals arbitrary: nd vs rule: decode_bits.induct)
    (force split: HuffmanNode.splits if_splits)+

lemma huffman_decode_length:
  assumes "hpack_huffman_decode_bytes alloc g_huffman_data buffer = Ok s"
  shows "length s \<le> 2 * length buffer"
proof (cases "buffer = []")
  case True
  then show ?thesis using assms huffman_decode_outcomes [of alloc "[]"]
    by (simp add: hpack_huffman_decode_bytes_def decode_bytes_huffman_impl_def)
next
  case False
  have "(length buffer * 8 + 4) div 5 \<le> 2 * length buffer" using False by (cases "length buffer") auto
  then show ?thesis
    using assms huffman_decode_bits [OF False, of alloc]
    by (auto simp: rbind_iffs huffman_return_ok_def split: if_splits dest!: decode_bits_length)
qed

lemma integer_outcome:
  assumes "position < length data"
  shows "outcome (\<lambda>(v, pos'). pos' \<le> length data \<and> unat v < 2 ^ 37) (decode_fault ndebug)
    (decode_hpack_variable_integer data position p)"
  using decode_integer_outcomes [OF assms, of p]
  by (auto simp: outcome_def decode_fault_def split: res.splits)

lemma read_octets_outcome:
  assumes "length data < 2 ^ 60" "len < 2 ^ 37"
  shows "outcome (\<lambda>(s, pos'). pos' \<le> length data \<and> length s \<le> 2 * length data) (decode_fault ndebug)
    (read_string_octets (server_env alloc push ndebug) data h len position)"
proof (cases "position < length data")
  case True
  have sum: "size_add position len = position + len"
    using True assms by (intro size_simps) simp
  let ?raw = "take len (drop position data)"
  have "outcome (\<lambda>s. length s \<le> 2 * length data) (decode_fault ndebug)
      (hpack_huffman_decode_bytes alloc g_huffman_data ?raw)"
    using huffman_decode_outcomes [of alloc ?raw] huffman_decode_length [of alloc ?raw]
    by (cases "hpack_huffman_decode_bytes alloc g_huffman_data ?raw") fastforce+
  then show ?thesis
    by (cases "hpack_huffman_decode_bytes alloc g_huffman_data ?raw")
      (auto simp: sum decode_fault_def read_string_octets_def Let_def)
qed (simp add: read_string_octets_def)

lemma parse_string_outcome:
  assumes "length data < 2 ^ 60"
  shows "outcome (\<lambda>(s, pos'). pos' \<le> length data \<and> length s \<le> 2 * length data) (decode_fault ndebug)
    (parse_literal_string_value (server_env alloc push ndebug) data position)"
proof (cases "position < length data")
  case True
  show ?thesis
    using True integer_outcome [OF True, of ndebug 7] read_octets_outcome [OF assms]
    by (auto simp: parse_literal_string_value_def Let_def intro!: outcome_rbind)
qed (simp add: parse_literal_string_value_def)

lemma get_entry_outcome:
  assumes "state_inv state"
  shows "outcome (\<lambda>r. \<forall>e. r = Some e \<longrightarrow> length (entry_key e) < 2 ^ 63) F
    (hpack_get_table_entry_at (server_env alloc push ndebug) state idx)"
proof -
  have "table_bytes (abs_table (dynamic_table state)) < 2 ^ 63" using state_inv_facts [OF assms] by linarith
  then show ?thesis
    using state_inv_facts(1) [OF assms] table_entry_key_bound
    by (simp add: hpack_get_table_entry_at_correct)
qed

lemma parse_key_outcome:
  assumes "state_inv state" "length data < 2 ^ 60" "position < length data"
  shows "outcome (\<lambda>(k, pos'). length k < 2 ^ 63) (decode_fault ndebug)
    (parse_literal_key (server_env alloc push ndebug) data position state p)"
proof -
  have str: "outcome (\<lambda>(k, pos'). length k < 2 ^ 63) (decode_fault ndebug)
      (parse_literal_string_value (server_env alloc push ndebug) data pos1)" for pos1
    using assms(2) by (auto intro: outcome_weaken [OF parse_string_outcome [OF assms(2)]])
  have tab: "outcome (\<lambda>(k, pos'). length k < 2 ^ 63) (decode_fault ndebug)
      (rbind (hpack_get_table_entry_at (server_env alloc push ndebug) state i) (\<lambda>entry.
        case entry of None \<Rightarrow> Err () | Some entry_ok \<Rightarrow> Ok (entry_key entry_ok, pos1)))" for i pos1
    by (rule outcome_rbind [OF get_entry_outcome [OF assms(1)]]) (simp split: option.splits)
  show ?thesis
    using integer_outcome [OF assms(3), of ndebug p] str tab
    by (auto simp: parse_literal_key_def intro!: outcome_rbind [where P = "\<lambda>(v, pos'). pos' \<le> length data \<and> unat v < 2 ^ 37"])
qed

lemma parse_field_outcome:
  assumes "state_inv state" "length data < 2 ^ 60" "position < length data"
  shows "outcome (\<lambda>(f, pos', headers'). length (hf_key f) < 2 ^ 63 \<and> length (hf_value f) < 2 ^ 62)
    (decode_fault ndebug)
    (parse_literal_field (server_env alloc push ndebug) data position headers state p)"
proof -
  have push: "outcome (\<lambda>_. True) F (push_header env headers f)" for F env f
    by (simp add: push_header_def)
  have str: "outcome (\<lambda>(k, pos'). length k < 2 ^ 62) (decode_fault ndebug)
      (parse_literal_string_value (server_env alloc push ndebug) data pos1)" for pos1
    using assms(2) by (auto intro: outcome_weaken [OF parse_string_outcome [OF assms(2)]])
  show ?thesis
    using parse_key_outcome [OF assms] str push
    by (fastforce simp: parse_literal_field_def Let_def intro!: outcome_rbind)
qed

lemma store_outcome:
  assumes "state_inv state"
  shows "entry_bytes e < 2 ^ 64 \<Longrightarrow>
      outcome state_inv (decode_fault ndebug) (insert_entry_into_dynamic_table alloc state e)"
    and "n < 2 ^ 63 \<Longrightarrow>
      outcome state_inv (decode_fault ndebug) (set_hpack_decompress_state_setting alloc state n)"
  using store.ins_inv [OF assms] store.ins_safe [OF assms] store.resize_inv [OF assms]
    store.resize_safe [OF assms]
  by (auto simp: outcome_def decode_fault_def split: res.splits)

lemma all_bytes: "(\<And>n. n < 256 \<Longrightarrow> P (word_of_nat n)) \<Longrightarrow> P (b :: u8)"
proof -
  assume "\<And>n. n < 256 \<Longrightarrow> P (word_of_nat n)"
  from this [OF unat_u8_less, of b] show "P b" by simp
qed

lemma dispatch_exhaustive:
  assumes "b AND 0x80 = 0" "b AND 0xC0 \<noteq> 0x40" "b AND 0xE0 \<noteq> 0x20" "b AND 0xF0 \<noteq> (0x10 :: u8)"
  shows "b AND 0xF0 = 0"
proof -
  let ?P = "\<lambda>b :: u8. b AND 0x80 = 0 \<longrightarrow> b AND 0xC0 \<noteq> 0x40 \<longrightarrow> b AND 0xE0 \<noteq> 0x20 \<longrightarrow>
    b AND 0xF0 \<noteq> 0x10 \<longrightarrow> b AND 0xF0 = 0"
  have "list_all (\<lambda>n. ?P (word_of_nat n)) [0..<256]" by code_simp
  then have "\<And>n. n < 256 \<Longrightarrow> ?P (word_of_nat n)" by (auto simp: list_all_iff)
  then show ?thesis using all_bytes [of ?P b] assms by blast
qed

lemma decompress_step_outcome:
  assumes "state_inv state" "length data < 2 ^ 60" "position < length data"
  shows "outcome (\<lambda>(pos', headers', state'). state_inv state') (decode_fault ndebug)
    (decompress_step (server_env alloc push ndebug) data position headers state)"
proof -
  let ?env = "server_env alloc push ndebug"
  note field = parse_field_outcome [OF assms, of ndebug alloc push]
    and int = integer_outcome [OF assms(3), of ndebug]
  have indexed: "outcome (\<lambda>_. True) (decode_fault ndebug)
      (parse_hpack_indexed_header_field ?env data position headers state)"
    unfolding parse_hpack_indexed_header_field_def
    by (rule outcome_rbind [where P = "\<lambda>_. True"])
      (auto simp: push_header_def hpack_get_table_entry_at_correct state_inv_facts(1) [OF assms(1)]
        intro: outcome_weaken [OF int] split: option.splits)
  have entry: "entry_bytes \<lparr>entry_key = hf_key f, entry_value = Some (hf_value f)\<rparr> < 2 ^ 64"
    if "length (hf_key f) < 2 ^ 63" "length (hf_value f) < 2 ^ 62" for f
    using that by (simp add: entry_bytes_def tstr_len_def)
  have incremental: "outcome (\<lambda>(pos', headers', state'). state_inv state') (decode_fault ndebug)
      (parse_hpack_literal_header_field_with_incremental_indexing ?env data position headers state)"
    unfolding parse_hpack_literal_header_field_with_incremental_indexing_def
    by (rule outcome_rbind [OF field])
      (auto intro!: outcome_rbind [where P = state_inv] store_outcome(1) [OF assms(1)] entry)
  have update: "outcome (\<lambda>(pos', state'). state_inv state') (decode_fault ndebug)
      (parse_hpack_dynamic_table_size_update ?env data position state)"
    unfolding parse_hpack_dynamic_table_size_update_def
    by (rule outcome_rbind [where P = "\<lambda>(v, pos'). unat v < 2 ^ 37"])
      (auto intro!: outcome_rbind [where P = state_inv] store_outcome(2) [OF assms(1)]
        intro: outcome_weaken [OF int])
  have keep: "outcome (\<lambda>(pos', headers', state'). state_inv state') (decode_fault ndebug)
      (rbind m (\<lambda>(pos1, headers'). Ok (pos1, headers', state)))"
    if "outcome (\<lambda>_. True) (decode_fault ndebug) m" for m :: "(unit, nat \<times> HttpHeaderField list) res"
    by (rule outcome_rbind [OF that]) (use assms(1) in auto)
  have plain: "outcome (\<lambda>_. True) (decode_fault ndebug)
      (rbind (parse_literal_field ?env data position headers state 4) (\<lambda>(f, pos1, headers'). Ok (pos1, headers')))"
    by (rule outcome_rbind [OF field]) auto
  have update': "outcome (\<lambda>(pos', headers', state'). state_inv state') (decode_fault ndebug)
      (rbind (parse_hpack_dynamic_table_size_update ?env data position state) (\<lambda>(pos1, state').
        Ok (pos1, headers, state')))"
    by (rule outcome_rbind [OF update]) auto
  note branches = keep [OF indexed] incremental update' keep [OF plain]
  show ?thesis
    using branches dispatch_exhaustive [of "data ! position"]
    unfolding decompress_step_def Let_def parse_hpack_literal_header_field_never_indexed_def
      parse_hpack_literal_header_field_without_indexing_def
    by (simp add: check_assert_def)
qed

lemma decompress_loop_unfold:
  "position < length data \<Longrightarrow> decompress_loop env data position headers state =
     rbind (map_err (\<lambda>e. (e, state)) (decompress_step env data position headers state))
       (\<lambda>(pos', headers', state'). decompress_loop env data pos' headers' state')"
  "\<not> position < length data \<Longrightarrow> decompress_loop env data position headers state = Ok (headers, state)"
  by (subst decompress_loop.simps; simp)+

text \<open>The state is well-formed after success and after an error.\<close>

definition block_outcome ::
  "bool \<Rightarrow> (decompress_error \<times> HpackDecompressState, HttpHeaderField list \<times> HpackDecompressState) res \<Rightarrow> bool"
  where
  "block_outcome ndebug r \<longleftrightarrow>
     (case r of
        Ok (headers, state) \<Rightarrow> state_inv state
      | Err (e, state) \<Rightarrow> state_inv state
      | Undef u \<Rightarrow> decode_fault ndebug u)"

lemma decompress_loop_outcome:
  assumes "state_inv state" "length data < 2 ^ 60"
  shows "block_outcome ndebug (decompress_loop (server_env alloc push ndebug) data position headers state)"
  using assms(1)
proof (induction "length data - position" arbitrary: position headers state rule: less_induct)
  case less
  let ?env = "server_env alloc push ndebug"
  show ?case
  proof (cases "position < length data")
    case False
    then show ?thesis using less.prems by (simp add: decompress_loop_unfold block_outcome_def)
  next
    case True
    note step = decompress_step_outcome [OF less.prems assms(2) True, of ndebug alloc push headers]
    show ?thesis
    proof (cases "decompress_step ?env data position headers state")
      case (Ok r)
      obtain p' h' s' where r: "r = (p', h', s')" by (cases r)
      have "state_inv s'" "position < p'"
        using step Ok r decompress_step_progress [of ?env data position headers state p' h' s'] by simp_all
      then have "block_outcome ndebug (decompress_loop ?env data p' h' s')"
        using True by (intro less.hyps) simp_all
      then show ?thesis using True Ok r by (simp add: decompress_loop_unfold)
    qed (use True step less.prems in \<open>simp_all add: decompress_loop_unfold block_outcome_def\<close>)
  qed
qed

section \<open>Properties\<close>

text \<open>
  C5. Safety of decompression: on any input below \<open>2 ^ 60\<close> bytes and from a well-formed
  state, whatever the allocator does, the decoder ends (its loop is total), touches no byte outside the block
  or the tables, and leaves the state well-formed also when it reports an error. The only faults
  are the undefined shift in a long integer, the process exit of a failing shrinking \<open>realloc\<close>, and
  in a debug build the assertion against NUL bytes in Huffman strings.
\<close>

theorem decompress_safe:
  assumes "state_inv state" and "length input < 2 ^ 60"
  shows "case http2_hpack_decompress_data (server_env alloc push ndebug) (Some state) input of
      Ok (headers, state') \<Rightarrow> state_inv state'
    | Err (e, state') \<Rightarrow> (\<exists>s. state' = Some s \<and> state_inv s)
    | Undef u \<Rightarrow> u = ShiftRange \<or> u = ProcessExit \<or> \<not> ndebug \<and> u = AssertFailed"
  using decompress_loop_outcome [OF assms, of ndebug alloc push 0 "[]"]
  by (auto simp: http2_hpack_decompress_data_def http2_hpack_decompress_data_impl_def
      block_outcome_def decode_fault_def split: res.splits)

theorem decompress_safe_witness:
  "case http2_hpack_decompress_data (server_env (\<lambda>_. False) (\<lambda>_. True) True)
       (Some (get_default_hpack_dynamic_table_state 4096)) [0x82] of
      Ok (headers, state') \<Rightarrow> state_inv state'
    | Err (e, state') \<Rightarrow> (\<exists>s. state' = Some s \<and> state_inv s)
    | Undef u \<Rightarrow> u = ShiftRange \<or> u = ProcessExit"
  using decompress_safe [OF state_inv_fresh, of 4096 "[0x82]" True "\<lambda>_. False" "\<lambda>_. True"]
  by (simp split: res.splits prod.splits)

end
