(* ===== verification/Hpack_Encode.thy ===== *)
theory Hpack_Encode
  imports Hpack_Env
begin

text \<open>
  The header-block encoder of \<open>src/http/hpack.c\<close>: the encoders of a single field (indexed, literal never
  indexed and literal with incremental indexing, each literal with a key index or a key string and
  with or without Huffman coding), the table search and the two compression loops.

  An encoder fills a block of \<open>max_size\<close> cells that \<open>malloc\<close> leaves uninitialised and cuts it to the
  used part. \<open>Err ()\<close> stands for the returned \<open>{ .data = NULL, .size = 0 }\<close>.
\<close>

datatype Http2HpackHuffmanUsage =
  Http2HpackHuffmanUsageAuto | Http2HpackHuffmanUsageAlways | Http2HpackHuffmanUsageNever

datatype Http2HpackCompressType =
    Http2HpackCompressTypeNoTableUsage | Http2HpackCompressTypeStaticTableUsage
  | Http2HpackCompressTypeAllTablesUsage

datatype Http2HpackTableAddType =
  Http2HpackTableAddTypeNone | Http2HpackTableAddTypeCommon | Http2HpackTableAddTypeAll

record Http2HpackCompressOptions =
  huffman_usage :: Http2HpackHuffmanUsage
  compress_type :: Http2HpackCompressType
  table_add_type :: Http2HpackTableAddType

section \<open>Blocks\<close>

definition allocate_sized_buffer :: "hpack_env \<Rightarrow> nat \<Rightarrow> (unit, membuf) res" where
  "allocate_sized_buffer env n = (if env_alloc env n then Ok (replicate n None) else Err ())"

text \<open>The common end of the encoders: the overflow test and the \<open>realloc\<close> to the used size.\<close>

definition finish_buffer :: "hpack_env \<Rightarrow> membuf \<Rightarrow> nat \<Rightarrow> (unit, bytes) res" where
  "finish_buffer env buf i =
     (if i > length buf then Err ()
      else if \<not> env_alloc env i then Err ()
      else read_block (take i buf))"

text \<open>
  An integer at offset \<open>i\<close> and the test of its result; \<open>strict\<close> is the second half of
  \<open>result < 1 || (size_t) result > MAX_HPACK_VARIABLE_INTEGER_SIZE\<close>, which some encoders leave out.
\<close>

definition put_integer :: "bool \<Rightarrow> membuf \<Rightarrow> nat \<Rightarrow> nat \<Rightarrow> nat \<Rightarrow> (unit, nat \<times> membuf) res" where
  "put_integer strict buf i v prefix_bits =
     rbind (encode_hpack_variable_integer buf i (word_of_nat v) prefix_bits) (\<lambda>(result, buf').
     if result < 1 \<or> strict \<and> nat result > MAX_HPACK_VARIABLE_INTEGER_SIZE then Err ()
     else Ok (i + nat result, buf'))"

text \<open>The blocks \<open>encode key\<close> and \<open>encode value\<close>, without and with Huffman coding.\<close>

definition put_plain_string :: "membuf \<Rightarrow> nat \<Rightarrow> bytes \<Rightarrow> (unit, nat \<times> membuf) res" where
  "put_plain_string buf i str =
     rbind (write_cell buf i 0x00) (\<lambda>buf1.
     rbind (put_integer True buf1 i (length str) 7) (\<lambda>(i1, buf2).
     rbind (memcpy_cells buf2 i1 str) (\<lambda>buf3. Ok (i1 + length str, buf3))))"

definition put_huffman_string ::
  "hpack_env \<Rightarrow> membuf \<Rightarrow> nat \<Rightarrow> bytes \<Rightarrow> nat \<Rightarrow> (unit, nat \<times> membuf) res" where
  "put_huffman_string env buf i str size_str =
     rbind (write_cell buf i 0x80) (\<lambda>buf1.
     rbind (put_integer False buf1 i size_str 7) (\<lambda>(i1, buf2).
     rbind (map_err (\<lambda>_. ()) (hpack_huffman_encode_value_fixed_size (env_huffman env) buf2 i1 size_str str))
       (\<lambda>(result_size, buf3).
     if result_size \<noteq> size_str then Err () else Ok (i1 + result_size, buf3))))"

section \<open>Literal, never indexed\<close>

definition encode_single_header_field_literal_never_indexed_variant1_no_huffman ::
  "hpack_env \<Rightarrow> nat \<Rightarrow> bytes \<Rightarrow> (unit, bytes) res" where
  "encode_single_header_field_literal_never_indexed_variant1_no_huffman env field_key_table_idx field_value =
     (let max_size =
        1 + MAX_HPACK_VARIABLE_INTEGER_SIZE + MAX_HPACK_VARIABLE_INTEGER_SIZE + length field_value in
      rbind (allocate_sized_buffer env max_size) (\<lambda>buf0.
      rbind (write_cell buf0 0 0x10) (\<lambda>buf1.
      rbind (put_integer True buf1 0 field_key_table_idx 4) (\<lambda>(i, buf2).
      rbind (put_plain_string buf2 i field_value) (\<lambda>(i', buf3).
      finish_buffer env buf3 i')))))"

definition encode_single_header_field_literal_never_indexed_variant1_huffman ::
  "hpack_env \<Rightarrow> nat \<Rightarrow> bytes \<Rightarrow> nat \<Rightarrow> (unit, bytes) res" where
  "encode_single_header_field_literal_never_indexed_variant1_huffman env field_key_table_idx field_value size_value =
     (let max_size =
        1 + MAX_HPACK_VARIABLE_INTEGER_SIZE + MAX_HPACK_VARIABLE_INTEGER_SIZE + size_value in
      rbind (allocate_sized_buffer env max_size) (\<lambda>buf0.
      rbind (write_cell buf0 0 0x10) (\<lambda>buf1.
      rbind (put_integer False buf1 0 field_key_table_idx 4) (\<lambda>(i, buf2).
      rbind (put_huffman_string env buf2 i field_value size_value) (\<lambda>(i', buf3).
      finish_buffer env buf3 i')))))"

text \<open>\<open>hpack_huffman_get_encoded_size\<close> asserts that the code map is initialised.\<close>

definition encoded_size :: "hpack_env \<Rightarrow> bytes \<Rightarrow> (unit, nat) res" where
  "encoded_size env str = map_err (\<lambda>_. ()) (hpack_huffman_get_encoded_size (env_huffman env) str)"

definition encode_single_header_field_literal_never_indexed_variant1 ::
  "hpack_env \<Rightarrow> nat \<Rightarrow> bytes \<Rightarrow> Http2HpackHuffmanUsage \<Rightarrow> (unit, bytes) res" where
  "encode_single_header_field_literal_never_indexed_variant1 env field_key_table_idx field_value usage =
     (case usage of
        Http2HpackHuffmanUsageNever \<Rightarrow>
          encode_single_header_field_literal_never_indexed_variant1_no_huffman env field_key_table_idx field_value
      | Http2HpackHuffmanUsageAlways \<Rightarrow>
          rbind (encoded_size env field_value) (\<lambda>size_value.
          encode_single_header_field_literal_never_indexed_variant1_huffman env field_key_table_idx
            field_value size_value)
      | Http2HpackHuffmanUsageAuto \<Rightarrow>
          rbind (encoded_size env field_value) (\<lambda>size_value.
          if size_value < length field_value then
            encode_single_header_field_literal_never_indexed_variant1_huffman env field_key_table_idx
              field_value size_value
          else
            encode_single_header_field_literal_never_indexed_variant1_no_huffman env field_key_table_idx
              field_value))"

definition encode_single_header_field_literal_never_indexed_variant2_no_huffman ::
  "hpack_env \<Rightarrow> HttpHeaderField \<Rightarrow> (unit, bytes) res" where
  "encode_single_header_field_literal_never_indexed_variant2_no_huffman env field =
     (let max_size = MAX_HPACK_VARIABLE_INTEGER_SIZE + MAX_HPACK_VARIABLE_INTEGER_SIZE
          + length (hf_key field) + length (hf_value field) + 1 in
      rbind (allocate_sized_buffer env max_size) (\<lambda>buf0.
      rbind (write_cell buf0 0 0x10) (\<lambda>buf1.
      rbind (put_plain_string buf1 1 (hf_key field)) (\<lambda>(i, buf2).
      rbind (put_plain_string buf2 i (hf_value field)) (\<lambda>(i', buf3).
      finish_buffer env buf3 i')))))"

definition encode_single_header_field_literal_never_indexed_variant2_huffman ::
  "hpack_env \<Rightarrow> HttpHeaderField \<Rightarrow> nat \<Rightarrow> nat \<Rightarrow> (unit, bytes) res" where
  "encode_single_header_field_literal_never_indexed_variant2_huffman env field size_key size_value =
     (let max_size = MAX_HPACK_VARIABLE_INTEGER_SIZE + MAX_HPACK_VARIABLE_INTEGER_SIZE
          + size_key + size_value + 1 in
      rbind (allocate_sized_buffer env max_size) (\<lambda>buf0.
      rbind (write_cell buf0 0 0x10) (\<lambda>buf1.
      rbind (put_huffman_string env buf1 1 (hf_key field) size_key) (\<lambda>(i, buf2).
      rbind (put_huffman_string env buf2 i (hf_value field) size_value) (\<lambda>(i', buf3).
      finish_buffer env buf3 i')))))"

definition encode_single_header_field_literal_never_indexed_variant2 ::
  "hpack_env \<Rightarrow> HttpHeaderField \<Rightarrow> Http2HpackHuffmanUsage \<Rightarrow> (unit, bytes) res" where
  "encode_single_header_field_literal_never_indexed_variant2 env field usage =
     (case usage of
        Http2HpackHuffmanUsageNever \<Rightarrow>
          encode_single_header_field_literal_never_indexed_variant2_no_huffman env field
      | Http2HpackHuffmanUsageAlways \<Rightarrow>
          rbind (encoded_size env (hf_key field)) (\<lambda>size_key.
          rbind (encoded_size env (hf_value field)) (\<lambda>size_value.
          encode_single_header_field_literal_never_indexed_variant2_huffman env field size_key size_value))
      | Http2HpackHuffmanUsageAuto \<Rightarrow>
          rbind (encoded_size env (hf_key field)) (\<lambda>size_key.
          rbind (encoded_size env (hf_value field)) (\<lambda>size_value.
          if size_key + size_value < length (hf_key field) + length (hf_value field) then
            encode_single_header_field_literal_never_indexed_variant2_huffman env field size_key size_value
          else encode_single_header_field_literal_never_indexed_variant2_no_huffman env field)))"

section \<open>Literal, with incremental indexing\<close>

text \<open>After the block is finished, the field goes into the dynamic table.\<close>

definition insert_encoded_field ::
  "hpack_env \<Rightarrow> HttpHeaderField \<Rightarrow> HpackCompressState \<Rightarrow> bytes \<Rightarrow> (unit, bytes \<times> HpackCompressState) res" where
  "insert_encoded_field env field state buffer =
     rbind (insert_entry_into_dynamic_table (env_alloc env) state
              \<lparr>entry_key = hf_key field, entry_value = Some (hf_value field)\<rparr>) (\<lambda>state'.
     Ok (buffer, state'))"

definition encode_single_header_field_literal_incremental_indexing_variant1_no_huffman ::
  "hpack_env \<Rightarrow> nat \<Rightarrow> HttpHeaderField \<Rightarrow> HpackCompressState \<Rightarrow> (unit, bytes \<times> HpackCompressState) res" where
  "encode_single_header_field_literal_incremental_indexing_variant1_no_huffman env field_key_table_idx field state =
     (let max_size =
        1 + MAX_HPACK_VARIABLE_INTEGER_SIZE + MAX_HPACK_VARIABLE_INTEGER_SIZE + length (hf_value field) in
      rbind (allocate_sized_buffer env max_size) (\<lambda>buf0.
      rbind (write_cell buf0 0 0x40) (\<lambda>buf1.
      rbind (put_integer True buf1 0 field_key_table_idx 6) (\<lambda>(i, buf2).
      rbind (put_plain_string buf2 i (hf_value field)) (\<lambda>(i', buf3).
      rbind (finish_buffer env buf3 i') (insert_encoded_field env field state))))))"

definition encode_single_header_field_literal_incremental_indexing_variant1_huffman ::
  "hpack_env \<Rightarrow> nat \<Rightarrow> HttpHeaderField \<Rightarrow> nat \<Rightarrow> HpackCompressState
     \<Rightarrow> (unit, bytes \<times> HpackCompressState) res" where
  "encode_single_header_field_literal_incremental_indexing_variant1_huffman env field_key_table_idx field size_value state =
     (let max_size =
        1 + MAX_HPACK_VARIABLE_INTEGER_SIZE + MAX_HPACK_VARIABLE_INTEGER_SIZE + size_value in
      rbind (allocate_sized_buffer env max_size) (\<lambda>buf0.
      rbind (write_cell buf0 0 0x40) (\<lambda>buf1.
      rbind (put_integer True buf1 0 field_key_table_idx 6) (\<lambda>(i, buf2).
      rbind (put_huffman_string env buf2 i (hf_value field) size_value) (\<lambda>(i', buf3).
      rbind (finish_buffer env buf3 i') (insert_encoded_field env field state))))))"

definition encode_single_header_field_literal_incremental_indexing_variant1 ::
  "hpack_env \<Rightarrow> nat \<Rightarrow> HttpHeaderField \<Rightarrow> Http2HpackHuffmanUsage \<Rightarrow> HpackCompressState
     \<Rightarrow> (unit, bytes \<times> HpackCompressState) res" where
  "encode_single_header_field_literal_incremental_indexing_variant1 env field_key_table_idx field usage state =
     (case usage of
        Http2HpackHuffmanUsageNever \<Rightarrow>
          encode_single_header_field_literal_incremental_indexing_variant1_no_huffman env field_key_table_idx
            field state
      | Http2HpackHuffmanUsageAlways \<Rightarrow>
          rbind (encoded_size env (hf_value field)) (\<lambda>size_value.
          encode_single_header_field_literal_incremental_indexing_variant1_huffman env field_key_table_idx
            field size_value state)
      | Http2HpackHuffmanUsageAuto \<Rightarrow>
          rbind (encoded_size env (hf_value field)) (\<lambda>size_value.
          if size_value < length (hf_value field) then
            encode_single_header_field_literal_incremental_indexing_variant1_huffman env field_key_table_idx
              field size_value state
          else
            encode_single_header_field_literal_incremental_indexing_variant1_no_huffman env
              field_key_table_idx field state))"

definition encode_single_header_field_literal_incremental_indexing_variant2_no_huffman ::
  "hpack_env \<Rightarrow> HttpHeaderField \<Rightarrow> HpackCompressState \<Rightarrow> (unit, bytes \<times> HpackCompressState) res" where
  "encode_single_header_field_literal_incremental_indexing_variant2_no_huffman env field state =
     (let max_size = MAX_HPACK_VARIABLE_INTEGER_SIZE + MAX_HPACK_VARIABLE_INTEGER_SIZE
          + length (hf_key field) + length (hf_value field) + 1 in
      rbind (allocate_sized_buffer env max_size) (\<lambda>buf0.
      rbind (write_cell buf0 0 0x40) (\<lambda>buf1.
      rbind (put_plain_string buf1 1 (hf_key field)) (\<lambda>(i, buf2).
      rbind (put_plain_string buf2 i (hf_value field)) (\<lambda>(i', buf3).
      rbind (finish_buffer env buf3 i') (insert_encoded_field env field state))))))"

definition encode_single_header_field_literal_incremental_indexing_variant2_huffman ::
  "hpack_env \<Rightarrow> HttpHeaderField \<Rightarrow> nat \<Rightarrow> nat \<Rightarrow> HpackCompressState
     \<Rightarrow> (unit, bytes \<times> HpackCompressState) res" where
  "encode_single_header_field_literal_incremental_indexing_variant2_huffman env field size_key size_value state =
     (let max_size = MAX_HPACK_VARIABLE_INTEGER_SIZE + MAX_HPACK_VARIABLE_INTEGER_SIZE
          + size_key + size_value + 1 in
      rbind (allocate_sized_buffer env max_size) (\<lambda>buf0.
      rbind (write_cell buf0 0 0x40) (\<lambda>buf1.
      rbind (put_huffman_string env buf1 1 (hf_key field) size_key) (\<lambda>(i, buf2).
      rbind (put_huffman_string env buf2 i (hf_value field) size_value) (\<lambda>(i', buf3).
      rbind (finish_buffer env buf3 i') (insert_encoded_field env field state))))))"

definition encode_single_header_field_literal_incremental_indexing_variant2 ::
  "hpack_env \<Rightarrow> HttpHeaderField \<Rightarrow> Http2HpackHuffmanUsage \<Rightarrow> HpackCompressState
     \<Rightarrow> (unit, bytes \<times> HpackCompressState) res" where
  "encode_single_header_field_literal_incremental_indexing_variant2 env field usage state =
     (case usage of
        Http2HpackHuffmanUsageNever \<Rightarrow>
          encode_single_header_field_literal_incremental_indexing_variant2_no_huffman env field state
      | Http2HpackHuffmanUsageAlways \<Rightarrow>
          rbind (encoded_size env (hf_key field)) (\<lambda>size_key.
          rbind (encoded_size env (hf_value field)) (\<lambda>size_value.
          encode_single_header_field_literal_incremental_indexing_variant2_huffman env field size_key
            size_value state))
      | Http2HpackHuffmanUsageAuto \<Rightarrow>
          rbind (encoded_size env (hf_key field)) (\<lambda>size_key.
          rbind (encoded_size env (hf_value field)) (\<lambda>size_value.
          if size_key + size_value < length (hf_key field) + length (hf_value field) then
            encode_single_header_field_literal_incremental_indexing_variant2_huffman env field size_key
              size_value state
          else
            encode_single_header_field_literal_incremental_indexing_variant2_no_huffman env field state)))"

section \<open>Search in the tables\<close>

datatype TableFindResultType =
  TableFindResultTypeNotFound | TableFindResultTypeKeyFound | TableFindResultTypeAllFound

text \<open>\<open>TableFindResult\<close>: the tag together with the index of the two hits.\<close>

datatype TableFindResult = FindNotFound | FindKeyFound nat | FindAllFound nat

definition table_entry_matches :: "HttpHeaderField \<Rightarrow> bytes \<Rightarrow> tstr \<Rightarrow> TableFindResultType" where
  "table_entry_matches field key_of_entry value_of_entry =
     (if hf_key field \<noteq> key_of_entry then TableFindResultTypeNotFound
      else if value_of_entry = None then TableFindResultTypeKeyFound
      else if Some (hf_value field) \<noteq> value_of_entry then TableFindResultTypeKeyFound
      else TableFindResultTypeAllFound)"

definition table_entry_matches_dynamic ::
  "HttpHeaderField \<Rightarrow> HpackHeaderDynamicEntry \<Rightarrow> TableFindResultType" where
  "table_entry_matches_dynamic field e = table_entry_matches field (entry_key e) (entry_value e)"

text \<open>The loop over the dynamic table, from entry \<open>i\<close> on with \<open>todo\<close> entries left.\<close>

fun find_dynamic_loop ::
  "HttpHeaderField \<Rightarrow> HpackCompressState \<Rightarrow> nat \<Rightarrow> nat \<Rightarrow> TableFindResult \<Rightarrow> (unit, TableFindResult) res" where
  "find_dynamic_loop field state i 0 result = Ok result"
| "find_dynamic_loop field state i (Suc todo) result =
     rbind (hpack_dynamic_table_at (dynamic_table state) i) (\<lambda>dynamic_entry_res.
     case dynamic_entry_res of
       None \<Rightarrow> Undef AssertFailed
     | Some e \<Rightarrow>
         (case table_entry_matches_dynamic field e of
            TableFindResultTypeAllFound \<Rightarrow> Ok (FindAllFound (i + 1 + HPACK_STATIC_HEADER_TABLE_SIZE))
          | TableFindResultTypeKeyFound \<Rightarrow>
              find_dynamic_loop field state (i + 1) todo
                (if result = FindNotFound then FindKeyFound (i + 1 + HPACK_STATIC_HEADER_TABLE_SIZE)
                 else result)
          | TableFindResultTypeNotFound \<Rightarrow> find_dynamic_loop field state (i + 1) todo result))"

definition find_in_tables ::
  "hpack_env \<Rightarrow> HttpHeaderField \<Rightarrow> HpackCompressState \<Rightarrow> bool \<Rightarrow> (unit, TableFindResult) res" where
  "find_in_tables env field state use_all_tables =
     (case env_find env field of
        StaticAllFound i \<Rightarrow> Ok (FindAllFound i)
      | static_result \<Rightarrow>
          (let result = (case static_result of StaticKeyFound i \<Rightarrow> FindKeyFound i | _ \<Rightarrow> FindNotFound) in
           if \<not> use_all_tables then Ok result
           else find_dynamic_loop field state 0 (hpack_dynamic_table_size (dynamic_table state)) result))"

definition should_add_header_to_table ::
  "hpack_env \<Rightarrow> HttpHeaderField \<Rightarrow> Http2HpackTableAddType \<Rightarrow> bool" where
  "should_add_header_to_table env field add_type =
     (case add_type of
        Http2HpackTableAddTypeNone \<Rightarrow> False
      | Http2HpackTableAddTypeCommon \<Rightarrow> env_common env (hf_key field)
      | Http2HpackTableAddTypeAll \<Rightarrow> True)"

section \<open>One field with table usage\<close>

text \<open>A never-indexed encoder leaves the state as it is.\<close>

definition keep_state ::
  "HpackCompressState \<Rightarrow> (unit, bytes) res \<Rightarrow> (unit, bytes \<times> HpackCompressState) res" where
  "keep_state state m = rbind m (\<lambda>buffer. Ok (buffer, state))"

definition encode_single_header_field_extended_as_whole ::
  "hpack_env \<Rightarrow> HttpHeaderField \<Rightarrow> HpackCompressState \<Rightarrow> Http2HpackHuffmanUsage \<Rightarrow> Http2HpackTableAddType
     \<Rightarrow> (unit, bytes \<times> HpackCompressState) res" where
  "encode_single_header_field_extended_as_whole env field state usage add_type =
     (if should_add_header_to_table env field add_type
      then encode_single_header_field_literal_incremental_indexing_variant2 env field usage state
      else keep_state state (encode_single_header_field_literal_never_indexed_variant2 env field usage))"

definition encode_single_header_field_extended_with_key_from_table ::
  "hpack_env \<Rightarrow> HttpHeaderField \<Rightarrow> HpackCompressState \<Rightarrow> Http2HpackHuffmanUsage \<Rightarrow> Http2HpackTableAddType
     \<Rightarrow> nat \<Rightarrow> (unit, bytes \<times> HpackCompressState) res" where
  "encode_single_header_field_extended_with_key_from_table env field state usage add_type key_table_idx =
     (if should_add_header_to_table env field add_type
      then encode_single_header_field_literal_incremental_indexing_variant1 env key_table_idx field usage state
      else keep_state state
        (encode_single_header_field_literal_never_indexed_variant1 env key_table_idx (hf_value field) usage))"

definition encode_single_header_field_indexed_header_field ::
  "hpack_env \<Rightarrow> nat \<Rightarrow> (unit, bytes) res" where
  "encode_single_header_field_indexed_header_field env entry_table_idx =
     rbind (allocate_sized_buffer env MAX_HPACK_VARIABLE_INTEGER_SIZE) (\<lambda>buf0.
     rbind (write_cell buf0 0 0x80) (\<lambda>buf1.
     rbind (check_assert (entry_table_idx \<noteq> 0)) (\<lambda>_.
     rbind (put_integer True buf1 0 entry_table_idx 7) (\<lambda>(i, buf2).
     finish_buffer env buf2 i))))"

definition encode_single_header_field_extended_with_entry_from_table ::
  "hpack_env \<Rightarrow> nat \<Rightarrow> (unit, bytes) res" where
  "encode_single_header_field_extended_with_entry_from_table env entry_table_idx =
     encode_single_header_field_indexed_header_field env entry_table_idx"

definition encode_single_header_field_extended ::
  "hpack_env \<Rightarrow> HttpHeaderField \<Rightarrow> HpackCompressState \<Rightarrow> Http2HpackHuffmanUsage \<Rightarrow> Http2HpackTableAddType
     \<Rightarrow> bool \<Rightarrow> (unit, bytes \<times> HpackCompressState) res" where
  "encode_single_header_field_extended env field state usage add_type use_all_tables =
     rbind (find_in_tables env field state use_all_tables) (\<lambda>table_find_result.
     case table_find_result of
       FindNotFound \<Rightarrow> encode_single_header_field_extended_as_whole env field state usage add_type
     | FindKeyFound i \<Rightarrow>
         encode_single_header_field_extended_with_key_from_table env field state usage add_type i
     | FindAllFound i \<Rightarrow>
         keep_state state (encode_single_header_field_extended_with_entry_from_table env i))"

section \<open>Header lists\<close>

text \<open>
  Appending one encoded field to the result: \<open>realloc\<close> to the new size and \<open>memcpy\<close>. The result is
  \<open>NULL\<close> before the first field.
\<close>

definition append_result :: "hpack_env \<Rightarrow> SizedBuffer \<Rightarrow> bytes \<Rightarrow> (unit, SizedBuffer) res" where
  "append_result env result single =
     (let old = (case result of None \<Rightarrow> [] | Some bs \<Rightarrow> bs) in
      if \<not> env_alloc env (length old + length single) then Err () else Ok (Some (old @ single)))"

fun compress_simple_loop ::
  "hpack_env \<Rightarrow> Http2HpackHuffmanUsage \<Rightarrow> HttpHeaderField list \<Rightarrow> SizedBuffer \<Rightarrow> (unit, SizedBuffer) res" where
  "compress_simple_loop env usage [] result = Ok result"
| "compress_simple_loop env usage (field # rest) result =
     rbind (encode_single_header_field_literal_never_indexed_variant2 env field usage) (\<lambda>single.
     rbind (append_result env result single) (\<lambda>result'.
     compress_simple_loop env usage rest result'))"

text \<open>An abandoned loop returns the \<open>NULL\<close> buffer.\<close>

definition null_on_error :: "(unit, SizedBuffer) res \<Rightarrow> (unit, SizedBuffer) res" where
  "null_on_error m = (case m of Err _ \<Rightarrow> Ok None | r \<Rightarrow> r)"

definition http2_hpack_compress_data_simple ::
  "hpack_env \<Rightarrow> HttpHeaderField list \<Rightarrow> Http2HpackHuffmanUsage \<Rightarrow> (unit, SizedBuffer) res" where
  "http2_hpack_compress_data_simple env header_fields usage =
     null_on_error (compress_simple_loop env usage header_fields None)"

text \<open>The loop with table usage keeps the state also when it gives up.\<close>

fun http2_hpack_compress_data_extended_loop ::
  "hpack_env \<Rightarrow> Http2HpackHuffmanUsage \<Rightarrow> Http2HpackTableAddType \<Rightarrow> bool \<Rightarrow> HttpHeaderField list
     \<Rightarrow> HpackCompressState \<Rightarrow> SizedBuffer \<Rightarrow> (unit, SizedBuffer \<times> HpackCompressState) res" where
  "http2_hpack_compress_data_extended_loop env usage add_type use_all [] state result = Ok (result, state)"
| "http2_hpack_compress_data_extended_loop env usage add_type use_all (field # rest) state result =
     (case encode_single_header_field_extended env field state usage add_type use_all of
        Undef u \<Rightarrow> Undef u
      | Err _ \<Rightarrow> Ok (None, state)
      | Ok (single, state') \<Rightarrow>
          (case append_result env result single of
             Undef u \<Rightarrow> Undef u
           | Err _ \<Rightarrow> Ok (None, state')
           | Ok result' \<Rightarrow>
               http2_hpack_compress_data_extended_loop env usage add_type use_all rest state' result'))"

definition http2_hpack_compress_data_extended ::
  "hpack_env \<Rightarrow> HttpHeaderField list \<Rightarrow> HpackCompressState \<Rightarrow> Http2HpackHuffmanUsage
     \<Rightarrow> Http2HpackTableAddType \<Rightarrow> bool \<Rightarrow> (unit, SizedBuffer \<times> HpackCompressState) res" where
  "http2_hpack_compress_data_extended env header_fields state usage add_type use_all_tables =
     http2_hpack_compress_data_extended_loop env usage add_type use_all_tables header_fields state None"

definition http2_hpack_compress_data ::
  "hpack_env \<Rightarrow> HpackCompressState \<Rightarrow> HttpHeaderField list \<Rightarrow> Http2HpackCompressOptions
     \<Rightarrow> (unit, SizedBuffer \<times> HpackCompressState) res" where
  "http2_hpack_compress_data env compress_state header_fields options =
     (case compress_type options of
        Http2HpackCompressTypeNoTableUsage \<Rightarrow>
          rbind (http2_hpack_compress_data_simple env header_fields (huffman_usage options)) (\<lambda>result.
          Ok (result, compress_state))
      | t \<Rightarrow>
          http2_hpack_compress_data_extended env header_fields compress_state (huffman_usage options)
            (table_add_type options) (t = Http2HpackCompressTypeAllTablesUsage))"

section \<open>What the encoders write\<close>

abbreviation encode_map :: "u8 \<Rightarrow> HuffmanEncodeEntry" where
  "encode_map \<equiv> get_hpack_huffman_encode_map"

text \<open>The reference forms of a string literal; the flag selects Huffman coding.\<close>

definition string_bytes :: "bool \<Rightarrow> bytes \<Rightarrow> bytes" where
  "string_bytes huffman str =
     (if huffman then int_bytes 0x80 7 (length (huffman_encoded encode_map str)) @ huffman_encoded encode_map str
      else int_bytes 0 7 (length str) @ str)"

definition string_small :: "bytes \<Rightarrow> bool" where
  "string_small str \<longleftrightarrow> length str < 2 ^ 31 \<and> length (huffman_encoded encode_map str) < 2 ^ 31"

text \<open>The size a string takes in the block, without its length prefix.\<close>

definition octets :: "bool \<Rightarrow> bytes \<Rightarrow> nat" where
  "octets huffman str = (if huffman then length (huffman_encoded encode_map str) else length str)"

lemma octets_small: "string_small str \<Longrightarrow> octets h str < 2 ^ 31"
  by (simp add: octets_def string_small_def)

lemma length_string_bytes:
  assumes "string_small str"
  shows "length (string_bytes h str) \<le> 6 + octets h str"
  using assms length_int_bytes [of "length str" 0 7]
    length_int_bytes [of "length (huffman_encoded encode_map str)" "0x80" 7]
  by (simp add: string_bytes_def octets_def string_small_def)

lemma put_integer_correct:
  assumes "filled buf (bs @ [hi])" "p \<le> 8" "v < 2 ^ 31" "length bs + 6 \<le> length buf"
  shows "\<exists>buf'. put_integer strict buf (length bs) v p = Ok (length bs + length (int_bytes hi p v), buf') \<and>
    length buf' = length buf \<and> filled buf' (bs @ int_bytes hi p v)"
proof -
  have len: "length (int_bytes hi p v) \<le> 6" using assms(3) by (rule length_int_bytes)
  have ne: "\<not> int (length (int_bytes hi p v)) < 1"
    using int_bytes_not_Nil [of hi p v] by (cases "int_bytes hi p v") auto
  have "unat (word_of_nat v :: u64) = v" using assms(3) by simp
  from encode_int_bytes [OF assms(1,2) this, where ?'e = unit] len assms(4) obtain buf' where
    "encode_hpack_variable_integer buf (length bs) (word_of_nat v) p =
      (Ok (int (length (int_bytes hi p v)), buf') :: (unit, _) res)"
    "length buf' = length buf" "filled buf' (bs @ int_bytes hi p v)"
    by (auto simp: MAX_HPACK_VARIABLE_INTEGER_SIZE_def)
  then show ?thesis
    using len ne by (simp add: put_integer_def MAX_HPACK_VARIABLE_INTEGER_SIZE_def)
qed

lemma put_plain_correct:
  assumes "filled buf bs" "string_small str" "length bs + 6 + length str \<le> length buf"
  shows "\<exists>buf'. put_plain_string buf (length bs) str = Ok (length bs + length (string_bytes False str), buf') \<and>
    length buf' = length buf \<and> filled buf' (bs @ string_bytes False str)"
proof -
  have room: "length bs < length buf" using assms(3) by simp
  let ?b1 = "buf[length bs := Some 0]"
  have f1: "filled ?b1 (bs @ [0])" using filled_write(2) [OF assms(1) room] .
  obtain b2 where b2: "put_integer True ?b1 (length bs) (length str) 7 =
      Ok (length bs + length (int_bytes 0 7 (length str)), b2)"
    "length b2 = length buf" "filled b2 (bs @ int_bytes 0 7 (length str))"
    using put_integer_correct [OF f1, of 7 "length str" True] assms(2,3) by (auto simp: string_small_def)
  have "length (bs @ int_bytes 0 7 (length str)) + length str \<le> length b2"
    using assms(2,3) b2(2) length_int_bytes [of "length str" 0 7] by (simp add: string_small_def)
  from filled_memcpy [OF b2(3) this, where ?'b = unit] obtain b3 where
    "memcpy_cells b2 (length (bs @ int_bytes 0 7 (length str))) str = (Ok b3 :: (unit, _) res)"
    "length b3 = length b2" "filled b3 ((bs @ int_bytes 0 7 (length str)) @ str)" by blast
  then show ?thesis
    using b2 room by (simp add: put_plain_string_def string_bytes_def write_cell_Ok)
qed

lemma filled_huffman:
  assumes "filled buf bs" "bits_written buf (length bs) (pad8 (code_string encode_map str)) buf'"
    "length bs + length (huffman_encoded encode_map str) \<le> length buf"
  shows "length buf' = length buf" "filled buf' (bs @ huffman_encoded encode_map str)"
proof -
  let ?P = "pad8 (code_string encode_map str)"
  have n: "length (huffman_encoded encode_map str) = (length ?P + 7) div 8" by (simp add: huffman_encoded_def)
  show l: "length buf' = length buf" using assms(2) by (simp add: bits_written_def)
  have "buf' ! i = Some ((bs @ huffman_encoded encode_map str) ! i)"
    if "i < length bs + length (huffman_encoded encode_map str)" for i
  proof (cases "i < length bs")
    case True
    then show ?thesis using assms(1,2) by (simp add: bits_written_def filled_iff_nth nth_append)
  next
    case False
    define k where "k = i - length bs"
    have k: "i = length bs + k" "k < (length ?P + 7) div 8" using that n False by (simp_all add: k_def)
    then have "buf' ! i = Some (byte_at ?P k)" using assms(2) by (simp add: bits_written_def)
    moreover have "huffman_encoded encode_map str ! k = byte_at ?P k"
      using k(2) by (simp add: huffman_encoded_def pack_bits_def)
    ultimately show ?thesis using k(1) by (simp add: nth_append)
  qed
  then show "filled buf' (bs @ huffman_encoded encode_map str)"
    using assms(3) l by (simp add: filled_iff_nth)
qed

lemma put_huffman_correct:
  assumes "filled buf bs" "string_small str"
    "length bs + 6 + length (huffman_encoded encode_map str) \<le> length buf"
    "env_huffman env = g_huffman_data"
  shows "\<exists>buf'. put_huffman_string env buf (length bs) str (length (huffman_encoded encode_map str)) =
      Ok (length bs + length (string_bytes True str), buf') \<and>
    length buf' = length buf \<and> filled buf' (bs @ string_bytes True str)"
proof -
  let ?h = "huffman_encoded encode_map str"
  let ?n = "length ?h"
  have room: "length bs < length buf" using assms(3) by simp
  let ?b1 = "buf[length bs := Some 0x80]"
  have f1: "filled ?b1 (bs @ [0x80])" using filled_write(2) [OF assms(1) room] .
  obtain b2 where b2: "put_integer False ?b1 (length bs) ?n 7 =
      Ok (length bs + length (int_bytes 0x80 7 ?n), b2)"
    "length b2 = length buf" "filled b2 (bs @ int_bytes 0x80 7 ?n)"
    using put_integer_correct [OF f1, of 7 ?n False] assms(2,3) by (auto simp: string_small_def)
  have fit: "length (bs @ int_bytes 0x80 7 ?n) + ?n \<le> length b2"
    using assms(2,3) b2(2) length_int_bytes [of ?n "0x80" 7] by (simp add: string_small_def)
  have sz: "hpack_huffman_get_encoded_size_impl encode_map str = ?n" by (simp add: length_huffman_encoded)
  obtain b3 where b3: "hpack_huffman_encode_value_fixed_size_impl encode_map b2
      (length (bs @ int_bytes 0x80 7 ?n)) ?n str = Ok (?n, b3)"
    "bits_written b2 (length (bs @ int_bytes 0x80 7 ?n)) (pad8 (code_string encode_map str)) b3"
    using hpack_code.encode_fixed_correct [of "length (bs @ int_bytes 0x80 7 ?n)" str b2 ?n] fit
    unfolding sz by auto
  note f3 = filled_huffman [OF b2(3) b3(2) fit]
  show ?thesis
    using b2(1,2) b3(1) f3 room assms(4)
    by (simp add: put_huffman_string_def string_bytes_def write_cell_Ok
        hpack_huffman_encode_value_fixed_size_def)
qed

lemma finish_buffer_correct:
  assumes "filled buf bs" "\<And>n. env_alloc env n"
  shows "finish_buffer env buf (length bs) = Ok bs"
  using assms read_block_filled [OF assms(1)] by (simp add: finish_buffer_def filled_def)

lemma filled_first: "0 < n \<Longrightarrow> filled ((replicate n None)[0 := Some b]) [b]"
  by (cases n) (auto simp: filled_def)

section \<open>The encoders of one field\<close>

text \<open>The two shapes the literal encoders share, for the proofs.\<close>

definition put_string :: "hpack_env \<Rightarrow> bool \<Rightarrow> bytes \<Rightarrow> membuf \<Rightarrow> nat \<Rightarrow> (unit, nat \<times> membuf) res" where
  "put_string env h str buf i =
     (if h then put_huffman_string env buf i str (octets True str) else put_plain_string buf i str)"

definition indexed_key_block ::
  "hpack_env \<Rightarrow> u8 \<Rightarrow> nat \<Rightarrow> bool \<Rightarrow> nat \<Rightarrow> bool \<Rightarrow> bytes \<Rightarrow> (unit, bytes) res" where
  "indexed_key_block env hi p strict idx h v =
     rbind (allocate_sized_buffer env
         (1 + MAX_HPACK_VARIABLE_INTEGER_SIZE + MAX_HPACK_VARIABLE_INTEGER_SIZE + octets h v)) (\<lambda>buf0.
     rbind (write_cell buf0 0 hi) (\<lambda>buf1.
     rbind (put_integer strict buf1 0 idx p) (\<lambda>(i, buf2).
     rbind (put_string env h v buf2 i) (\<lambda>(i', buf3). finish_buffer env buf3 i'))))"

definition literal_key_block :: "hpack_env \<Rightarrow> u8 \<Rightarrow> bool \<Rightarrow> HttpHeaderField \<Rightarrow> (unit, bytes) res" where
  "literal_key_block env hi h f =
     rbind (allocate_sized_buffer env (MAX_HPACK_VARIABLE_INTEGER_SIZE + MAX_HPACK_VARIABLE_INTEGER_SIZE
         + octets h (hf_key f) + octets h (hf_value f) + 1)) (\<lambda>buf0.
     rbind (write_cell buf0 0 hi) (\<lambda>buf1.
     rbind (put_string env h (hf_key f) buf1 1) (\<lambda>(i, buf2).
     rbind (put_string env h (hf_value f) buf2 i) (\<lambda>(i', buf3). finish_buffer env buf3 i'))))"

lemma put_string_correct:
  assumes "filled buf bs" "string_small str" "length bs + 6 + octets h str \<le> length buf"
    "env_huffman env = g_huffman_data"
  shows "\<exists>buf'. put_string env h str buf (length bs) = Ok (length bs + length (string_bytes h str), buf') \<and>
    length buf' = length buf \<and> filled buf' (bs @ string_bytes h str)"
  using put_plain_correct [OF assms(1,2)] put_huffman_correct [OF assms(1,2) _ assms(4)] assms(3)
  by (simp add: put_string_def octets_def split: if_splits)

locale working_env =
  fixes env :: hpack_env
  assumes alloc_ok: "env_alloc env n"
    and huffman_ok: "env_huffman env = g_huffman_data"
begin

lemma indexed_key_block_correct:
  assumes "idx < 2 ^ 31" "string_small v" "p \<le> 8"
  shows "indexed_key_block env hi p strict idx h v = Ok (int_bytes hi p idx @ string_bytes h v)"
proof -
  let ?n = "1 + MAX_HPACK_VARIABLE_INTEGER_SIZE + MAX_HPACK_VARIABLE_INTEGER_SIZE + octets h v"
  have M: "MAX_HPACK_VARIABLE_INTEGER_SIZE = 10" by (simp add: MAX_HPACK_VARIABLE_INTEGER_SIZE_def)
  let ?b1 = "(replicate ?n None)[0 := Some hi]"
  have "filled ?b1 ([] @ [hi])" using filled_first [of ?n hi] by simp
  from put_integer_correct [OF this assms(3,1), of strict] obtain b2 where b2:
    "put_integer strict ?b1 0 idx p = Ok (length (int_bytes hi p idx), b2)"
    "length b2 = ?n" "filled b2 (int_bytes hi p idx)" by (auto simp: M)
  from put_string_correct [OF b2(3) assms(2) _ huffman_ok, of h] b2(2) length_int_bytes [OF assms(1), of hi p]
  obtain b3 where b3: "put_string env h v b2 (length (int_bytes hi p idx)) =
      Ok (length (int_bytes hi p idx @ string_bytes h v), b3)" "filled b3 (int_bytes hi p idx @ string_bytes h v)"
    by (auto simp: M)
  show ?thesis
    using b2(1) b3 finish_buffer_correct [OF b3(2) alloc_ok]
    by (simp add: indexed_key_block_def allocate_sized_buffer_def alloc_ok write_cell_Ok)
qed

lemma literal_key_block_correct:
  assumes "string_small (hf_key f)" "string_small (hf_value f)"
  shows "literal_key_block env hi h f = Ok ([hi] @ string_bytes h (hf_key f) @ string_bytes h (hf_value f))"
proof -
  let ?k = "hf_key f" and ?v = "hf_value f"
  let ?n = "MAX_HPACK_VARIABLE_INTEGER_SIZE + MAX_HPACK_VARIABLE_INTEGER_SIZE + octets h ?k + octets h ?v + 1"
  have M: "MAX_HPACK_VARIABLE_INTEGER_SIZE = 10" by (simp add: MAX_HPACK_VARIABLE_INTEGER_SIZE_def)
  let ?b1 = "(replicate ?n None)[0 := Some hi]"
  have f1: "filled ?b1 [hi]" using filled_first [of ?n hi] by simp
  from put_string_correct [OF f1 assms(1) _ huffman_ok, of h] obtain b2 where b2:
    "put_string env h ?k ?b1 1 = Ok (length ([hi] @ string_bytes h ?k), b2)"
    "length b2 = ?n" "filled b2 ([hi] @ string_bytes h ?k)" by (auto simp: M)
  from put_string_correct [OF b2(3) assms(2) _ huffman_ok, of h] b2(2) length_string_bytes [OF assms(1), of h]
  obtain b3 where b3: "put_string env h ?v b2 (length ([hi] @ string_bytes h ?k)) =
      Ok (length ([hi] @ string_bytes h ?k @ string_bytes h ?v), b3)"
    "filled b3 ([hi] @ string_bytes h ?k @ string_bytes h ?v)"
    by (auto simp: M)
  show ?thesis
    using b2(1) b3 finish_buffer_correct [OF b3(2) alloc_ok]
    by (simp add: literal_key_block_def allocate_sized_buffer_def alloc_ok write_cell_Ok)
qed

lemma encoded_size_correct: "encoded_size env str = Ok (octets True str)"
  by (simp add: encoded_size_def hpack_huffman_get_encoded_size_def huffman_ok octets_def length_huffman_encoded)

end

text \<open>Which of the two forms an encoder takes.\<close>

definition use_huffman :: "Http2HpackHuffmanUsage \<Rightarrow> bytes list \<Rightarrow> bool" where
  "use_huffman usage strs =
     (case usage of
        Http2HpackHuffmanUsageNever \<Rightarrow> False
      | Http2HpackHuffmanUsageAlways \<Rightarrow> True
      | Http2HpackHuffmanUsageAuto \<Rightarrow> (\<Sum>s \<leftarrow> strs. octets True s) < (\<Sum>s \<leftarrow> strs. length s))"

text \<open>The eight encoders are instances of the two shapes.\<close>

lemma literal_variants:
  "encode_single_header_field_literal_never_indexed_variant1_no_huffman env idx v =
     indexed_key_block env 0x10 4 True idx False v"
  "encode_single_header_field_literal_never_indexed_variant1_huffman env idx v (octets True v) =
     indexed_key_block env 0x10 4 False idx True v"
  "encode_single_header_field_literal_never_indexed_variant2_no_huffman env f =
     literal_key_block env 0x10 False f"
  "encode_single_header_field_literal_never_indexed_variant2_huffman env f
     (octets True (hf_key f)) (octets True (hf_value f)) = literal_key_block env 0x10 True f"
  "encode_single_header_field_literal_incremental_indexing_variant1_no_huffman env idx f s =
     rbind (indexed_key_block env 0x40 6 True idx False (hf_value f)) (insert_encoded_field env f s)"
  "encode_single_header_field_literal_incremental_indexing_variant1_huffman env idx f (octets True (hf_value f)) s =
     rbind (indexed_key_block env 0x40 6 True idx True (hf_value f)) (insert_encoded_field env f s)"
  "encode_single_header_field_literal_incremental_indexing_variant2_no_huffman env f s =
     rbind (literal_key_block env 0x40 False f) (insert_encoded_field env f s)"
  "encode_single_header_field_literal_incremental_indexing_variant2_huffman env f
     (octets True (hf_key f)) (octets True (hf_value f)) s =
     rbind (literal_key_block env 0x40 True f) (insert_encoded_field env f s)"
  by (simp_all add: indexed_key_block_def literal_key_block_def put_string_def octets_def rbind_assoc
      split_def Let_def
      encode_single_header_field_literal_never_indexed_variant1_no_huffman_def
      encode_single_header_field_literal_never_indexed_variant1_huffman_def
      encode_single_header_field_literal_never_indexed_variant2_no_huffman_def
      encode_single_header_field_literal_never_indexed_variant2_huffman_def
      encode_single_header_field_literal_incremental_indexing_variant1_no_huffman_def
      encode_single_header_field_literal_incremental_indexing_variant1_huffman_def
      encode_single_header_field_literal_incremental_indexing_variant2_no_huffman_def
      encode_single_header_field_literal_incremental_indexing_variant2_huffman_def)

context working_env
begin

lemma never_indexed_correct:
  assumes "string_small v"
  shows "idx < 2 ^ 31 \<Longrightarrow> encode_single_header_field_literal_never_indexed_variant1 env idx v usage =
      Ok (int_bytes 0x10 4 idx @ string_bytes (use_huffman usage [v]) v)"
    and "string_small k \<Longrightarrow>
      encode_single_header_field_literal_never_indexed_variant2 env \<lparr>hf_key = k, hf_value = v\<rparr> usage =
      Ok (0x10 # string_bytes (use_huffman usage [k, v]) k @ string_bytes (use_huffman usage [k, v]) v)"
  using indexed_key_block_correct [OF _ assms, of idx 4 "0x10"]
    literal_key_block_correct [of "\<lparr>hf_key = k, hf_value = v\<rparr>" "0x10"] assms
    literal_variants(3,4) [of env "\<lparr>hf_key = k, hf_value = v\<rparr>"]
  by (auto simp: encode_single_header_field_literal_never_indexed_variant1_def
      encode_single_header_field_literal_never_indexed_variant2_def
      encoded_size_correct use_huffman_def literal_variants(1,2)
      split: Http2HpackHuffmanUsage.split)

lemma incremental_correct:
  assumes "string_small v"
  shows "idx < 2 ^ 31 \<Longrightarrow>
      encode_single_header_field_literal_incremental_indexing_variant1 env idx \<lparr>hf_key = k, hf_value = v\<rparr> usage state =
      insert_encoded_field env \<lparr>hf_key = k, hf_value = v\<rparr> state
        (int_bytes 0x40 6 idx @ string_bytes (use_huffman usage [v]) v)"
    and "string_small k \<Longrightarrow>
      encode_single_header_field_literal_incremental_indexing_variant2 env \<lparr>hf_key = k, hf_value = v\<rparr> usage state =
      insert_encoded_field env \<lparr>hf_key = k, hf_value = v\<rparr> state
        (0x40 # string_bytes (use_huffman usage [k, v]) k @ string_bytes (use_huffman usage [k, v]) v)"
  using indexed_key_block_correct [OF _ assms, of idx 6 "0x40"]
    literal_key_block_correct [of "\<lparr>hf_key = k, hf_value = v\<rparr>" "0x40"] assms
    literal_variants(5,6) [of env _ "\<lparr>hf_key = k, hf_value = v\<rparr>"]
    literal_variants(7,8) [of env "\<lparr>hf_key = k, hf_value = v\<rparr>"]
  by (auto simp: encode_single_header_field_literal_incremental_indexing_variant1_def
      encode_single_header_field_literal_incremental_indexing_variant2_def
      encoded_size_correct use_huffman_def
      split: Http2HpackHuffmanUsage.split)

lemma indexed_correct:
  assumes "idx \<noteq> 0" "idx < 2 ^ 31"
  shows "encode_single_header_field_extended_with_entry_from_table env idx = Ok (int_bytes 0x80 7 idx)"
proof -
  let ?n = MAX_HPACK_VARIABLE_INTEGER_SIZE
  have M: "?n = 10" by (simp add: MAX_HPACK_VARIABLE_INTEGER_SIZE_def)
  let ?b1 = "(replicate ?n None)[0 := Some 0x80]"
  have "filled ?b1 ([] @ [0x80])" using filled_first [of ?n "0x80"] by (simp add: M)
  from put_integer_correct [OF this _ assms(2), of 7 True] obtain b2 where b2:
    "put_integer True ?b1 0 idx 7 = Ok (length (int_bytes 0x80 7 idx), b2)"
    "filled b2 (int_bytes 0x80 7 idx)" by (auto simp: M)
  show ?thesis
    using b2(1) finish_buffer_correct [OF b2(2) alloc_ok] assms(1)
    by (simp add: encode_single_header_field_extended_with_entry_from_table_def
        encode_single_header_field_indexed_header_field_def allocate_sized_buffer_def alloc_ok
        write_cell_Ok check_assert_def M)
qed

end

interpretation server: working_env "server_env (\<lambda>_. True) push ndebug" for push ndebug
  by unfold_locales simp_all

section \<open>The search finds matching entries\<close>

definition field_entry :: "HttpHeaderField \<Rightarrow> HpackHeaderDynamicEntry" where
  "field_entry f = \<lparr>entry_key = hf_key f, entry_value = Some (hf_value f)\<rparr>"

definition search_hit :: "HpackHeaderDynamicEntry list \<Rightarrow> HttpHeaderField \<Rightarrow> TableFindResult \<Rightarrow> bool" where
  "search_hit es f r \<longleftrightarrow>
     (case r of
        FindNotFound \<Rightarrow> True
      | FindKeyFound i \<Rightarrow> (\<exists>e. table_entry es i = Some e \<and> entry_key e = hf_key f)
      | FindAllFound i \<Rightarrow> table_entry es i = Some (field_entry f))"

lemma table_entry_matches_iff:
  "table_entry_matches_dynamic f e = TableFindResultTypeAllFound \<longleftrightarrow> e = field_entry f"
  "table_entry_matches_dynamic f e = TableFindResultTypeNotFound \<longleftrightarrow> entry_key e \<noteq> hf_key f"
  by (cases e; auto simp: table_entry_matches_dynamic_def table_entry_matches_def field_entry_def)+

lemma find_dynamic_loop_correct:
  assumes "table_inv (dynamic_table state)" "i + todo = count (dynamic_table state)"
    "search_hit (abs_table (dynamic_table state)) f result"
  shows "\<exists>r. find_dynamic_loop f state i todo result = Ok r \<and>
    search_hit (abs_table (dynamic_table state)) f r \<and>
    (field_entry f \<in> set (drop i (abs_table (dynamic_table state))) \<longrightarrow> (\<exists>j. r = FindAllFound j))"
  using assms(2,3)
proof (induction todo arbitrary: i result)
  case 0
  then show ?case by simp
next
  case (Suc todo)
  let ?es = "abs_table (dynamic_table state)"
  let ?e = "?es ! i"
  have i: "i < length ?es" using Suc.prems(1) by simp
  have at: "hpack_dynamic_table_at (dynamic_table state) i = Ok (Some ?e)"
    using dyn.at_law [OF assms(1), of i] i by simp
  have ent: "table_entry ?es (i + 1 + HPACK_STATIC_HEADER_TABLE_SIZE) = Some ?e"
    using i by (rule table_entry_dynamic)
  have dr: "set (drop i ?es) = insert ?e (set (drop (i + 1) ?es))"
    using Cons_nth_drop_Suc [OF i, symmetric] by simp
  show ?case
  proof (cases "table_entry_matches_dynamic f ?e")
    case TableFindResultTypeAllFound
    then have "?e = field_entry f" by (simp add: table_entry_matches_iff)
    then show ?thesis using TableFindResultTypeAllFound ent by (simp add: at search_hit_def)
  next
    case TableFindResultTypeKeyFound
    then have e: "entry_key ?e = hf_key f" "?e \<noteq> field_entry f"
      using table_entry_matches_iff [of f ?e] by auto
    let ?r = "if result = FindNotFound then FindKeyFound (i + 1 + HPACK_STATIC_HEADER_TABLE_SIZE) else result"
    have "search_hit ?es f ?r" using Suc.prems(2) e(1) ent by (simp add: search_hit_def)
    then show ?thesis
      using Suc.IH [of "i + 1" ?r] Suc.prems(1) e(2) TableFindResultTypeKeyFound
      unfolding dr by (simp add: at)
  next
    case TableFindResultTypeNotFound
    then have e: "?e \<noteq> field_entry f" using table_entry_matches_iff(2) [of f ?e] by (auto simp: field_entry_def)
    then show ?thesis
      using Suc.IH [of "i + 1" result] Suc.prems TableFindResultTypeNotFound
      unfolding dr by (simp add: at)
  qed
qed

lemma find_in_tables_correct:
  assumes "table_inv (dynamic_table state)" "\<not> static_prefix_clash f"
  shows "\<exists>r. find_in_tables (server_env alloc push ndebug) f state use_all = Ok r \<and>
    search_hit (abs_table (dynamic_table state)) f r \<and>
    (use_all \<and> field_entry f \<in> set (abs_table (dynamic_table state)) \<longrightarrow> (\<exists>j. r = FindAllFound j))"
proof -
  let ?es = "abs_table (dynamic_table state)" and ?find = hpack_generated_find_in_static_table_fast
  have all: "search_hit ?es f (FindAllFound i)" if "?find f = StaticAllFound i" for i
    using generated_static.all_found [OF that] generated_static.all_found_entry [OF that assms(2)]
    by (simp add: search_hit_def table_entry_static field_entry_def)
  have key: "search_hit ?es f (FindKeyFound i)" if "?find f = StaticKeyFound i" for i
    using generated_static.key_found [OF that] by (simp add: search_hit_def table_entry_static)
  have none: "search_hit ?es f FindNotFound" by (simp add: search_hit_def)
  note loop = find_dynamic_loop_correct [OF assms(1), of 0 "count (dynamic_table state)" f, simplified]
  show ?thesis
  proof (cases "?find f")
    case StaticNotFound
    then show ?thesis using loop [OF none] none
      by (cases use_all) (auto simp: find_in_tables_def hpack_dynamic_table_size_def Let_def)
  next
    case (StaticKeyFound i)
    then show ?thesis using loop [OF key [OF StaticKeyFound]] key
      by (cases use_all) (auto simp: find_in_tables_def hpack_dynamic_table_size_def Let_def)
  next
    case (StaticAllFound i)
    then show ?thesis using all by (auto simp: find_in_tables_def)
  qed
qed

lemma table_entry_bounds:
  assumes "table_entry es i = Some e"
  shows "0 < i" "i \<le> HPACK_STATIC_HEADER_TABLE_SIZE + length es"
  using assms length_static_table by (auto simp: table_entry_def Let_def split: if_splits)

lemma table_bytes_length: "32 * length es \<le> table_bytes es"
  by (induction es) (auto simp: entry_bytes_def)

lemma table_index_small:
  assumes "state_inv state" "max_dynamic_table_byte_size state < 2 ^ 31"
    "table_entry (abs_table (dynamic_table state)) i = Some e"
  shows "i < 2 ^ 31"
proof -
  let ?es = "abs_table (dynamic_table state)"
  have "32 * length ?es < 2 ^ 31"
    using table_bytes_length [of ?es] state_inv_facts(4) [OF assms(1)] assms(2) by linarith
  then show ?thesis
    using table_entry_bounds(2) [OF assms(3)] by (simp add: HPACK_STATIC_HEADER_TABLE_SIZE_def)
qed

section \<open>The bytes of a field\<close>

text \<open>
  \<open>field_repr es f bs ins\<close>: \<open>bs\<close> is a representation of \<open>f\<close> against the dynamic entries \<open>es\<close>, and
  \<open>ins\<close> says whether it asks the receiver to insert the field.
\<close>

definition literal_hi :: "bool \<Rightarrow> u8" where
  "literal_hi ins = (if ins then 0x40 else 0x10)"

definition literal_prefix :: "bool \<Rightarrow> nat" where
  "literal_prefix ins = (if ins then 6 else 4)"

inductive field_repr ::
  "HpackHeaderDynamicEntry list \<Rightarrow> HttpHeaderField \<Rightarrow> bytes \<Rightarrow> bool \<Rightarrow> bool" for es f where
  indexed: "table_entry es i = Some (field_entry f) \<Longrightarrow> i < 2 ^ 31 \<Longrightarrow>
    field_repr es f (int_bytes 0x80 7 i) False"
| key_index: "table_entry es i = Some e \<Longrightarrow> entry_key e = hf_key f \<Longrightarrow> i < 2 ^ 31 \<Longrightarrow>
    field_repr es f (int_bytes (literal_hi ins) (literal_prefix ins) i @ string_bytes h (hf_value f)) ins"
| key_string:
    "field_repr es f (literal_hi ins # string_bytes h (hf_key f) @ string_bytes h (hf_value f)) ins"

definition field_small :: "HttpHeaderField \<Rightarrow> bool" where
  "field_small f \<longleftrightarrow> string_small (hf_key f) \<and> string_small (hf_value f)"

text \<open>One field: the block is a representation, and the state changes as it says.\<close>

definition apply_insertion ::
  "(nat \<Rightarrow> bool) \<Rightarrow> HttpHeaderField \<Rightarrow> bool \<Rightarrow> HpackDynamicTableState \<Rightarrow> (unit, HpackDynamicTableState) res" where
  "apply_insertion alloc f ins state =
     (if ins then insert_entry_into_dynamic_table alloc state (field_entry f) else Ok state)"

lemma encode_extended_correct:
  assumes "state_inv state" "max_dynamic_table_byte_size state < 2 ^ 31"
    "field_small f" "\<not> static_prefix_clash f"
  shows "\<exists>bs ins. field_repr (abs_table (dynamic_table state)) f bs ins \<and>
    encode_single_header_field_extended (server_env (\<lambda>_. True) push ndebug) f state usage add_type use_all =
      rbind (apply_insertion (\<lambda>_. True) f ins state) (\<lambda>state'. Ok (bs, state'))"
proof -
  let ?env = "server_env (\<lambda>_. True) push ndebug" and ?es = "abs_table (dynamic_table state)"
  obtain k v where f: "f = \<lparr>hf_key = k, hf_value = v\<rparr>" by (cases f)
  have small: "string_small k" "string_small v" using assms(3) by (simp_all add: field_small_def f)
  from find_in_tables_correct [OF state_inv_facts(1) [OF assms(1)] assms(4)]
  obtain r where r: "find_in_tables ?env f state use_all = Ok r" "search_hit ?es f r" by blast
  have idx: "0 < i \<and> i < 2 ^ 31" if "table_entry ?es i = Some e" for i e
    using table_entry_bounds(1) [OF that] table_index_small [OF assms(1,2) that] by simp
  let ?ins = "should_add_header_to_table ?env f add_type"
  show ?thesis
  proof (cases r)
    case FindNotFound
    let ?h = "use_huffman usage [k, v]"
    let ?bs = "literal_hi ?ins # string_bytes ?h k @ string_bytes ?h v"
    have "field_repr ?es f ?bs ?ins"
      using field_repr.key_string [of ?es f ?ins ?h] by (simp add: f)
    moreover have "encode_single_header_field_extended ?env f state usage add_type use_all =
        rbind (apply_insertion (\<lambda>_. True) f ?ins state) (\<lambda>state'. Ok (?bs, state'))"
      using r(1) FindNotFound server.never_indexed_correct(2) [OF small(2,1)]
        server.incremental_correct(2) [OF small(2,1)]
      by (simp add: encode_single_header_field_extended_def encode_single_header_field_extended_as_whole_def
          apply_insertion_def f keep_state_def insert_encoded_field_def field_entry_def literal_hi_def)
    ultimately show ?thesis by blast
  next
    case (FindKeyFound i)
    then obtain e where e: "table_entry ?es i = Some e" "entry_key e = hf_key f"
      using r(2) by (auto simp: search_hit_def)
    let ?h = "use_huffman usage [v]"
    let ?bs = "int_bytes (literal_hi ?ins) (literal_prefix ?ins) i @ string_bytes ?h v"
    have "field_repr ?es f ?bs ?ins"
      using field_repr.key_index [OF e, of ?ins ?h] idx [OF e(1)] by (simp add: f)
    moreover have "encode_single_header_field_extended ?env f state usage add_type use_all =
        rbind (apply_insertion (\<lambda>_. True) f ?ins state) (\<lambda>state'. Ok (?bs, state'))"
      using r(1) FindKeyFound idx [OF e(1)] server.never_indexed_correct(1) [OF small(2), of i]
        server.incremental_correct(1) [OF small(2), of i]
      by (simp add: encode_single_header_field_extended_def
          encode_single_header_field_extended_with_key_from_table_def
          apply_insertion_def f keep_state_def insert_encoded_field_def field_entry_def literal_hi_def
          literal_prefix_def)
    ultimately show ?thesis by blast
  next
    case (FindAllFound i)
    then have e: "table_entry ?es i = Some (field_entry f)" using r(2) by (simp add: search_hit_def)
    then have "field_repr ?es f (int_bytes 0x80 7 i) False" using idx by (intro field_repr.indexed) auto
    moreover have "encode_single_header_field_extended ?env f state usage add_type use_all =
        rbind (apply_insertion (\<lambda>_. True) f False state) (\<lambda>state'. Ok (int_bytes 0x80 7 i, state'))"
      using r(1) FindAllFound idx [OF e] server.indexed_correct [of i]
      by (simp add: encode_single_header_field_extended_def apply_insertion_def keep_state_def)
    ultimately show ?thesis by blast
  qed
qed

end
