(* ===== verification/Hpack_Roundtrip.thy ===== *)
theory Hpack_Roundtrip
  imports Hpack_Decode Hpack_Encode
begin

text \<open>
  The two ends of an HPACK connection together: what the compressor of \<open>Hpack_Encode\<close> writes, the
  decompressor of \<open>Hpack_Decode\<close> reads back, and the dynamic tables of the two ends stay equal.
  The argument over a header list is made once, in the locale \<open>field_stream\<close>, and used for the
  compressor without and with tables.
\<close>

section \<open>String literals\<close>

text \<open>
  The strings the decoder accepts in Huffman form: not those that fill its output block exactly
  (see \<open>huffman_roundtrip\<close>), and in a debug build no NUL bytes.
\<close>

definition string_decodable :: "bool \<Rightarrow> bytes \<Rightarrow> bool" where
  "string_decodable ndebug s \<longleftrightarrow>
     \<not> (s \<noteq> [] \<and> (\<forall>c \<in> set s. five_bit c) \<and> 8 dvd length s) \<and> (ndebug \<or> 0 \<notin> set s)"

lemma int_bytes_first:
  obtains x where "x < 2 ^ p" "int_bytes hi p v ! 0 = hi OR word_of_nat x"
proof (cases "v < 2 ^ p - 1")
  case True
  then show ?thesis using that [of v] by (simp add: int_bytes_def)
next
  case False
  then show ?thesis using that [of "2 ^ p - 1"] by (simp add: int_bytes_def mask_u8 del: of_nat_diff)
qed

lemma prefix_bytes_check:
  "list_all (\<lambda>n. (0 OR word_of_nat n :: u8) AND 0x80 = 0 \<and> (0x80 OR word_of_nat n :: u8) AND 0x80 \<noteq> 0) [0..<128]"
  "list_all (\<lambda>n. (0x40 OR word_of_nat n :: u8) AND 0x80 = 0 \<and> (0x40 OR word_of_nat n :: u8) AND 0xC0 = 0x40) [0..<64]"
  "list_all (\<lambda>n. (0x10 OR word_of_nat n :: u8) AND 0x80 = 0 \<and> (0x10 OR word_of_nat n :: u8) AND 0xC0 \<noteq> 0x40 \<and>
      (0x10 OR word_of_nat n :: u8) AND 0xE0 \<noteq> 0x20 \<and> (0x10 OR word_of_nat n :: u8) AND 0xF0 = 0x10) [0..<16]"
  by code_simp+

lemma int_bytes_dispatch:
  "int_bytes 0 7 v ! 0 AND 0x80 = 0" "int_bytes 0x80 7 v ! 0 AND 0x80 \<noteq> 0"
  "int_bytes 0x40 6 v ! 0 AND 0x80 = 0" "int_bytes 0x40 6 v ! 0 AND 0xC0 = 0x40"
  "int_bytes 0x10 4 v ! 0 AND 0x80 = 0" "int_bytes 0x10 4 v ! 0 AND 0xC0 \<noteq> 0x40"
  "int_bytes 0x10 4 v ! 0 AND 0xE0 \<noteq> 0x20" "int_bytes 0x10 4 v ! 0 AND 0xF0 = 0x10"
proof -
  obtain w where w: "w < 128" "int_bytes 0 7 v ! 0 = 0 OR word_of_nat w"
    using int_bytes_first [of 7 0 v] by auto
  obtain x where x: "x < 128" "int_bytes 0x80 7 v ! 0 = 0x80 OR word_of_nat x"
    using int_bytes_first [of 7 "0x80" v] by auto
  obtain y where y: "y < 64" "int_bytes 0x40 6 v ! 0 = 0x40 OR word_of_nat y"
    using int_bytes_first [of 6 "0x40" v] by auto
  obtain z where z: "z < 16" "int_bytes 0x10 4 v ! 0 = 0x10 OR word_of_nat z"
    using int_bytes_first [of 4 "0x10" v] by auto
  note all = prefix_bytes_check [unfolded list_all_iff set_upt atLeastLessThan_iff, rule_format]
  show "int_bytes 0 7 v ! 0 AND 0x80 = 0" unfolding w(2) using all(1) [of w] w(1) by simp
  show "int_bytes 0x80 7 v ! 0 AND 0x80 \<noteq> 0" unfolding x(2) using all(1) [of x] x(1) by simp
  show "int_bytes 0x40 6 v ! 0 AND 0x80 = 0" "int_bytes 0x40 6 v ! 0 AND 0xC0 = 0x40"
    unfolding y(2) using all(2) [of y] y(1) by simp_all
  show "int_bytes 0x10 4 v ! 0 AND 0x80 = 0" "int_bytes 0x10 4 v ! 0 AND 0xC0 \<noteq> 0x40"
    "int_bytes 0x10 4 v ! 0 AND 0xE0 \<noteq> 0x20" "int_bytes 0x10 4 v ! 0 AND 0xF0 = 0x10"
    unfolding z(2) using all(3) [of z] z(1) by simp_all
qed

lemma prefix_masks:
  "(0 :: u8) AND mask 7 = 0" "(0x80 :: u8) AND mask 7 = 0" "(0x40 :: u8) AND mask 6 = 0"
  "(0x10 :: u8) AND mask 4 = 0" "(0x20 :: u8) AND mask 5 = 0"
  by (simp_all add: mask_eq_exp_minus_1)

lemma huffman_decode_encoded:
  assumes "s \<noteq> []" "string_decodable ndebug s"
  shows "hpack_huffman_decode_bytes (\<lambda>_. True) g_huffman_data (huffman_encoded encode_map s) = Ok s"
  using hpack_code.decode_encoded [OF assms(1), of "\<lambda>_. True"] assms(2,1)
  by (auto simp: hpack_huffman_decode_bytes_def string_decodable_def five_bit_def)

lemma huffman_encoded_Nil_iff: "huffman_encoded encode_map s = [] \<longleftrightarrow> s = []"
proof -
  have "huffman_encoded encode_map s = [] \<longleftrightarrow> hpack_huffman_get_encoded_size_impl encode_map s = 0"
    using length_huffman_encoded [of encode_map s] by (metis length_0_conv)
  also have "\<dots> \<longleftrightarrow> s = []"
    using hpack_code.encoded_size_pos [of s]
    by (cases s) (simp_all add: hpack_huffman_get_encoded_size_impl_def)
  finally show ?thesis .
qed

text \<open>The two forms of a literal are self-delimiting codes, in the sense of \<open>prefix_codec\<close>.\<close>

definition string_ok :: "bool \<Rightarrow> bytes \<Rightarrow> bytes \<Rightarrow> bool" where
  "string_ok ndebug s suf \<longleftrightarrow> string_small s \<and> string_decodable ndebug s \<and> (s \<noteq> [] \<or> suf \<noteq> [])"

lemma read_octets_Ok:
  assumes "0 < n" "q + n \<le> length data"
    and "if h then hpack_huffman_decode_bytes (\<lambda>_. True) g_huffman_data (take n (drop q data)) = Ok s \<and>
        (ndebug \<or> 0 \<notin> set s) else take n (drop q data) = s"
  shows "read_string_octets (server_env (\<lambda>_. True) push ndebug) data h n q = Ok (s, q + n)"
proof -
  have "size_add q n \<le> length data" using assms(2) by (simp add: size_add_def mod_less_eq_dividend le_trans)
  then show ?thesis using assms by (auto simp: read_string_octets_def Let_def split: if_splits)
qed

lemma parse_string_bytes:
  assumes "string_ok ndebug s suf"
  shows "parse_literal_string_value (server_env (\<lambda>_. True) push ndebug) (pre @ string_bytes h s @ suf) (length pre) =
    Ok (s, length pre + length (string_bytes h s))"
proof -
  let ?hi = "if h then 0x80 else 0 :: u8" and ?o = "if h then huffman_encoded encode_map s else s"
  let ?i = "int_bytes ?hi 7 (length ?o)"
  let ?data = "pre @ string_bytes h s @ suf"
  have bytes: "string_bytes h s = ?i @ ?o" by (simp add: string_bytes_def)
  have small: "length ?o < 2 ^ 31" using assms by (simp add: string_ok_def string_small_def)
  have data: "?data = pre @ ?i @ (?o @ suf)" by (simp add: bytes)
  have "?hi AND mask 7 = 0" using prefix_masks(1,2) by simp
  then have int: "decode_hpack_variable_integer ?data (length pre) 7 =
      Ok (word_of_nat (length ?o), length pre + length ?i)"
    unfolding data using decode_int_bytes [OF _ _ small] by simp
  have first: "?data ! length pre AND 0x80 \<noteq> 0 \<longleftrightarrow> h"
    using int_bytes_dispatch(1,2) unfolding data by (simp add: nth_append)
  have empty: "?o = [] \<longleftrightarrow> s = []" using huffman_encoded_Nil_iff by simp
  have len: "length pre < length ?data" unfolding data by simp
  have oct: "read_string_octets (server_env (\<lambda>_. True) push ndebug) ?data h (length ?o) (length pre + length ?i) =
      Ok (s, length pre + length ?i + length ?o)"
  proof (cases "s = []")
    case True
    then have o: "?o = []" and suf: "suf \<noteq> []" using empty assms by (auto simp: string_ok_def)
    have "length pre + length ?i < length ?data" unfolding data o using suf by simp
    then show ?thesis using True unfolding o by (simp add: read_string_octets_def)
  next
    case False
    then have o: "0 < length ?o" using empty by simp
    have raw: "take (length ?o) (drop (length pre + length ?i) ?data) = ?o" unfolding data by simp
    have fit: "length pre + length ?i + length ?o \<le> length ?data" unfolding data by simp
    have "if h then hpack_huffman_decode_bytes (\<lambda>_. True) g_huffman_data ?o = Ok s \<and> (ndebug \<or> 0 \<notin> set s)
        else ?o = s"
      using huffman_decode_encoded [OF False] assms by (auto simp: string_ok_def string_decodable_def)
    then show ?thesis using read_octets_Ok [OF o fit] unfolding raw by blast
  qed
  show ?thesis
    using len small oct int first
    by (simp add: parse_literal_string_value_def bytes Let_def add.assoc)
qed

interpretation literal_codec: prefix_codec
  "string_bytes h" "parse_literal_string_value (server_env (\<lambda>_. True) push ndebug)" "string_ok ndebug"
  for h push ndebug
  by unfold_locales (rule parse_string_bytes)

section \<open>One field\<close>

definition field_decodable :: "bool \<Rightarrow> HttpHeaderField \<Rightarrow> bool" where
  "field_decodable ndebug f \<longleftrightarrow>
     field_small f \<and> string_decodable ndebug (hf_key f) \<and> string_decodable ndebug (hf_value f)"

lemma string_bytes_not_Nil [simp]: "string_bytes h s \<noteq> []"
  by (simp add: string_bytes_def)

lemma field_repr_not_Nil: "field_repr es f bs ins \<Longrightarrow> bs \<noteq> []"
  by (induction rule: field_repr.induct) auto

lemma literal_masks: "literal_hi ins AND mask (literal_prefix ins) = 0" "literal_prefix ins \<le> 8"
  using prefix_masks by (simp_all add: literal_hi_def literal_prefix_def)

lemma int_bytes_zero: "int_bytes (literal_hi ins) (literal_prefix ins) 0 = [literal_hi ins]"
  by (simp add: int_bytes_def literal_prefix_def)

lemma decode_prefix:
  assumes "data = pre @ int_bytes hi p v @ suf" "hi AND mask p = 0" "p \<le> 8" "v < 2 ^ 31"
  shows "decode_hpack_variable_integer data (length pre) p =
    Ok (word_of_nat v, length pre + length (int_bytes hi p v))"
    "length pre < length data" "data ! length pre = int_bytes hi p v ! 0"
  using decode_int_bytes [OF assms(2-4)] assms(1) by (simp_all add: nth_append)

lemma word_index:
  assumes "i < 2 ^ 31"
  shows "unat (word_of_nat i :: u64) = i" "(word_of_nat i :: u64) = 0 \<longleftrightarrow> i = 0"
proof -
  show u: "unat (word_of_nat i :: u64) = i" using assms by simp
  show "(word_of_nat i :: u64) = 0 \<longleftrightarrow> i = 0" by (simp only: word_unat_eq_iff u unsigned_0)
qed

lemma parse_literal_field_Ok:
  assumes "parse_literal_key (server_env (\<lambda>_. True) (\<lambda>_. True) ndebug) data position state p = Ok (hf_key f, q)"
    "q < length data"
    "parse_literal_string_value (server_env (\<lambda>_. True) (\<lambda>_. True) ndebug) data q = Ok (hf_value f, q')"
  shows "parse_literal_field (server_env (\<lambda>_. True) (\<lambda>_. True) ndebug) data position headers state p =
    Ok (f, q', headers @ [f])"
  using assms by (simp add: parse_literal_field_def push_header_def Let_def)

lemma parse_literal_field_repr:
  assumes inv: "table_inv (dynamic_table state)"
    and repr: "field_repr (abs_table (dynamic_table state)) f bs ins"
    and lit: "\<not> (\<exists>i. bs = int_bytes 0x80 7 i)"
    and ok: "field_decodable ndebug f" and last: "hf_value f \<noteq> [] \<or> suf \<noteq> []"
  shows "parse_literal_field (server_env (\<lambda>_. True) (\<lambda>_. True) ndebug) (pre @ bs @ suf) (length pre) headers state
      (literal_prefix ins) = Ok (f, length pre + length bs, headers @ [f])
    \<and> (\<exists>v. (pre @ bs @ suf) ! length pre = int_bytes (literal_hi ins) (literal_prefix ins) v ! 0)"
  using repr
proof cases
  case (indexed i)
  then show ?thesis using lit by blast
next
  case (key_index i e h)
  let ?env = "server_env (\<lambda>_. True) (\<lambda>_. True) ndebug"
  let ?data = "pre @ bs @ suf" and ?i = "int_bytes (literal_hi ins) (literal_prefix ins) i"
  have d: "?data = pre @ ?i @ (string_bytes h (hf_value f) @ suf)"
    "?data = (pre @ ?i) @ string_bytes h (hf_value f) @ suf"
    using key_index(1) by simp_all
  have i: "i \<noteq> 0" using table_entry_bounds(1) [OF key_index(2)] by simp
  note int = decode_prefix [OF d(1) literal_masks key_index(4)]
  have key: "parse_literal_key ?env ?data (length pre) state (literal_prefix ins) =
      Ok (hf_key f, length (pre @ ?i))"
    using int(1) i word_index [OF key_index(4)] key_index(2,3)
    by (simp add: parse_literal_key_def hpack_get_table_entry_at_correct [OF inv])
  have "string_ok ndebug (hf_value f) suf" using ok last by (simp add: string_ok_def field_decodable_def field_small_def)
  from literal_codec.dec_enc [OF this, of "\<lambda>_. True" "pre @ ?i" h]
  have val: "parse_literal_string_value ?env ?data (length (pre @ ?i)) =
      Ok (hf_value f, length (pre @ ?i) + length (string_bytes h (hf_value f)))" unfolding d(2) .
  have pos: "length (pre @ ?i) < length ?data" unfolding d(2) by simp
  have "length (pre @ ?i) + length (string_bytes h (hf_value f)) = length pre + length bs"
    using key_index(1) by simp
  then show ?thesis using parse_literal_field_Ok [OF key pos val] int(3) by metis
next
  case (key_string h)
  let ?env = "server_env (\<lambda>_. True) (\<lambda>_. True) ndebug"
  let ?data = "pre @ bs @ suf" and ?k = "string_bytes h (hf_key f)" and ?v = "string_bytes h (hf_value f)"
  let ?hi = "literal_hi ins"
  have d: "?data = pre @ int_bytes ?hi (literal_prefix ins) 0 @ (?k @ ?v @ suf)"
    "?data = (pre @ [?hi]) @ ?k @ (?v @ suf)" "?data = (pre @ [?hi] @ ?k) @ ?v @ suf"
    using key_string by (simp_all add: int_bytes_zero)
  note int = decode_prefix [OF d(1) literal_masks]
  have "string_ok ndebug (hf_key f) (?v @ suf)" using ok by (simp add: string_ok_def field_decodable_def field_small_def)
  from literal_codec.dec_enc [OF this, of "\<lambda>_. True" "pre @ [?hi]" h]
  have "parse_literal_string_value ?env ?data (length (pre @ [?hi])) =
      Ok (hf_key f, length (pre @ [?hi]) + length ?k)" unfolding d(2) .
  then have key: "parse_literal_key ?env ?data (length pre) state (literal_prefix ins) =
      Ok (hf_key f, length (pre @ [?hi] @ ?k))"
    using int(1) by (simp add: parse_literal_key_def int_bytes_zero)
  have "string_ok ndebug (hf_value f) suf" using ok last by (simp add: string_ok_def field_decodable_def field_small_def)
  from literal_codec.dec_enc [OF this, of "\<lambda>_. True" "pre @ [?hi] @ ?k" h]
  have val: "parse_literal_string_value ?env ?data (length (pre @ [?hi] @ ?k)) =
      Ok (hf_value f, length (pre @ [?hi] @ ?k) + length ?v)" unfolding d(3) .
  have pos: "length (pre @ [?hi] @ ?k) < length ?data" unfolding d(3) by simp
  have "length (pre @ [?hi] @ ?k) + length ?v = length pre + length bs" using key_string by simp
  then show ?thesis using parse_literal_field_Ok [OF key pos val] int(3) by (metis zero_less_numeral zero_less_power)
qed

lemma literal_dispatch:
  "int_bytes (literal_hi ins) (literal_prefix ins) v ! 0 AND 0x80 = 0"
  using int_bytes_dispatch by (simp add: literal_hi_def literal_prefix_def)

lemma literal_not_indexed:
  assumes "field_repr es f bs ins" "bs ! 0 AND 0x80 = 0"
  shows "\<not> (\<exists>i. bs = int_bytes 0x80 7 i)"
  using assms(2) int_bytes_dispatch(2) by blast

lemma decompress_step_literal:
  assumes inv: "table_inv (dynamic_table state)"
    and repr: "field_repr (abs_table (dynamic_table state)) f bs ins"
    and first: "bs ! 0 AND 0x80 = 0"
    and ok: "field_decodable ndebug f" "hf_value f \<noteq> [] \<or> suf \<noteq> []"
    and ins: "apply_insertion (\<lambda>_. True) f ins state = Ok state'"
  shows "decompress_step (server_env (\<lambda>_. True) (\<lambda>_. True) ndebug) (pre @ bs @ suf) (length pre) headers state =
    Ok (length pre + length bs, headers @ [f], state')"
proof -
  let ?env = "server_env (\<lambda>_. True) (\<lambda>_. True) ndebug" and ?data = "pre @ bs @ suf"
  obtain v where p: "parse_literal_field ?env ?data (length pre) headers state (literal_prefix ins) =
      Ok (f, length pre + length bs, headers @ [f])"
    and v: "?data ! length pre = int_bytes (literal_hi ins) (literal_prefix ins) v ! 0"
    using parse_literal_field_repr [OF inv repr literal_not_indexed [OF repr first] ok, of pre headers] by blast
  show ?thesis
  proof (cases ins)
    case True
    then have ins': "insert_entry_into_dynamic_table (\<lambda>_. True) state
        \<lparr>entry_key = hf_key f, entry_value = Some (hf_value f)\<rparr> = Ok state'"
      using ins by (simp add: apply_insertion_def field_entry_def)
    show ?thesis
      using True p v int_bytes_dispatch(3,4) [of v] ins'
      by (simp add: decompress_step_def Let_def literal_hi_def literal_prefix_def
          parse_hpack_literal_header_field_with_incremental_indexing_def)
  next
    case False
    then show ?thesis
      using p v int_bytes_dispatch(5-8) [of v] ins
      by (simp add: decompress_step_def Let_def literal_hi_def literal_prefix_def apply_insertion_def
          parse_hpack_literal_header_field_never_indexed_def)
  qed
qed

lemma decompress_step_indexed:
  assumes inv: "table_inv (dynamic_table state)"
    and entry: "table_entry (abs_table (dynamic_table state)) i = Some (field_entry f)" "i < 2 ^ 31"
  shows "decompress_step (server_env (\<lambda>_. True) (\<lambda>_. True) ndebug) (pre @ int_bytes 0x80 7 i @ suf)
      (length pre) headers state =
    Ok (length pre + length (int_bytes 0x80 7 i), headers @ [f], state)"
proof -
  let ?data = "pre @ int_bytes 0x80 7 i @ suf"
  note int = decode_prefix [OF refl prefix_masks(2) _ entry(2), of pre suf]
  have "i \<noteq> 0" using table_entry_bounds(1) [OF entry(1)] by simp
  then show ?thesis
    using int int_bytes_dispatch(2) [of i] word_index [OF entry(2)] entry(1)
    by (simp add: decompress_step_def Let_def parse_hpack_indexed_header_field_def push_header_def
        hpack_get_table_entry_at_correct [OF inv] field_entry_def)
qed

lemma decompress_step_repr:
  assumes inv: "table_inv (dynamic_table state)"
    and repr: "field_repr (abs_table (dynamic_table state)) f bs ins"
    and ok: "field_decodable ndebug f" "hf_value f \<noteq> [] \<or> suf \<noteq> []"
    and ins: "apply_insertion (\<lambda>_. True) f ins state = Ok state'"
  shows "decompress_step (server_env (\<lambda>_. True) (\<lambda>_. True) ndebug) (pre @ bs @ suf) (length pre) headers state =
    Ok (length pre + length bs, headers @ [f], state')"
  using repr
proof cases
  case (indexed i)
  then show ?thesis
    using decompress_step_indexed [OF inv] ins by (simp add: apply_insertion_def)
next
  case (key_index i e h)
  then have "bs ! 0 AND 0x80 = 0" using literal_dispatch [of ins i] by (simp add: nth_append)
  then show ?thesis by (rule decompress_step_literal [OF inv repr _ ok ins])
next
  case (key_string h)
  then have "bs ! 0 AND 0x80 = 0" using literal_dispatch [of ins 0] by (simp add: int_bytes_zero)
  then show ?thesis by (rule decompress_step_literal [OF inv repr _ ok ins])
qed

section \<open>Header lists\<close>

text \<open>
  A sender that encodes one item at a time and a receiver that decodes one item at a time. \<open>rel\<close>
  relates their states; \<open>final f\<close> allows an item at the very end of a block.
\<close>

locale field_stream =
  fixes enc :: "'s \<Rightarrow> 'f \<Rightarrow> (unit, bytes \<times> 's) res"
    and dec :: "bytes \<Rightarrow> nat \<Rightarrow> 'f list \<Rightarrow> 't \<Rightarrow> ('e, nat \<times> 'f list \<times> 't) res"
    and loop :: "bytes \<Rightarrow> nat \<Rightarrow> 'f list \<Rightarrow> 't \<Rightarrow> ('d, 'f list \<times> 't) res"
    and rel :: "'s \<Rightarrow> 't \<Rightarrow> bool"
    and good :: "'f \<Rightarrow> bool"
    and final :: "'f \<Rightarrow> bool"
  assumes enc_dec: "rel s t \<Longrightarrow> good f \<Longrightarrow> \<exists>bs s' t'. enc s f = Ok (bs, s') \<and> bs \<noteq> [] \<and> rel s' t' \<and>
      (\<forall>pre suf hs. final f \<or> suf \<noteq> [] \<longrightarrow>
         dec (pre @ bs @ suf) (length pre) hs t = Ok (length pre + length bs, hs @ [f], t'))"
    and loop_step: "p < length data \<Longrightarrow> dec data p hs t = Ok (p', hs', t') \<Longrightarrow>
      loop data p hs t = loop data p' hs' t'"
    and loop_end: "\<not> p < length data \<Longrightarrow> loop data p hs t = Ok (hs, t)"
begin

primrec enc_all :: "'f list \<Rightarrow> 's \<Rightarrow> (unit, bytes \<times> 's) res" where
  "enc_all [] s = Ok ([], s)"
| "enc_all (f # fs) s =
     rbind (enc s f) (\<lambda>(b, s'). rbind (enc_all fs s') (\<lambda>(bs, s''). Ok (b @ bs, s'')))"

lemma stream_roundtrip:
  assumes "rel s t" "\<forall>f \<in> set fs. good f" "fs = [] \<or> final (last fs)"
  shows "\<exists>bs s' t'. enc_all fs s = Ok (bs, s') \<and> (bs = [] \<longleftrightarrow> fs = []) \<and> rel s' t' \<and>
    (\<forall>pre hs. loop (pre @ bs) (length pre) hs t = Ok (hs @ fs, t'))"
  using assms
proof (induction fs arbitrary: s t)
  case Nil
  then show ?case by (auto simp: loop_end)
next
  case (Cons f fs)
  obtain b s1 t1 where b: "enc s f = Ok (b, s1)" "b \<noteq> []" "rel s1 t1"
    "\<And>pre suf hs. final f \<or> suf \<noteq> [] \<Longrightarrow>
       dec (pre @ b @ suf) (length pre) hs t = Ok (length pre + length b, hs @ [f], t1)"
  proof -
    have "good f" using Cons.prems(2) by simp
    from enc_dec [OF Cons.prems(1) this] show ?thesis using that by blast
  qed
  have "fs = [] \<or> final (last fs)" using Cons.prems(3) by (cases fs) auto
  from Cons.IH [OF b(3) _ this] Cons.prems(2) obtain bs s2 t2 where
    bs: "enc_all fs s1 = Ok (bs, s2)" "bs = [] \<longleftrightarrow> fs = []" "rel s2 t2"
      "\<And>pre hs. loop (pre @ bs) (length pre) hs t1 = Ok (hs @ fs, t2)" by auto
  have fin: "final f \<or> bs \<noteq> []" using Cons.prems(3) bs(2) by auto
  have "loop (pre @ b @ bs) (length pre) hs t = Ok (hs @ f # fs, t2)" for pre hs
  proof -
    have "loop (pre @ b @ bs) (length pre) hs t = loop (pre @ b @ bs) (length pre + length b) (hs @ [f]) t1"
      using b(2) by (intro loop_step b(4) [OF fin]) simp
    then show ?thesis using bs(4) [of "pre @ b" "hs @ [f]"] by simp
  qed
  then show ?case using b(1,2) bs(1,3) by (intro exI [of _ "b @ bs"]) auto
qed

end

text \<open>The two ends agree on the entries and on the limit.\<close>

definition ends_agree :: "HpackCompressState \<Rightarrow> HpackDecompressState \<Rightarrow> bool" where
  "ends_agree s d \<longleftrightarrow>
     state_inv s \<and> state_inv d \<and> state_view s = state_view d \<and> max_dynamic_table_byte_size s < 2 ^ 31"

definition field_good :: "bool \<Rightarrow> HttpHeaderField \<Rightarrow> bool" where
  "field_good ndebug f \<longleftrightarrow> field_decodable ndebug f \<and> \<not> static_prefix_clash f"

lemma ends_agree_abs: "ends_agree s d \<Longrightarrow> abs_table (dynamic_table s) = abs_table (dynamic_table d)"
  by (simp add: ends_agree_def state_view_def)

lemma apply_insertion_sync:
  assumes "ends_agree s d" "field_small f"
  shows "\<exists>s' d'. apply_insertion (\<lambda>_. True) f ins s = Ok s' \<and> apply_insertion (\<lambda>_. True) f ins d = Ok d' \<and>
    ends_agree s' d'"
proof (cases ins)
  case True
  have e: "entry_bytes (field_entry f) < 2 ^ 64"
    using assms(2) by (simp add: field_small_def string_small_def entry_bytes_def field_entry_def tstr_len_def)
  have sd: "state_inv s" "state_inv d" "state_view s = state_view d" using assms(1) by (simp_all add: ends_agree_def)
  obtain s' d' where r: "insert_entry_into_dynamic_table (\<lambda>_. True) s (field_entry f) = Ok s'"
      "insert_entry_into_dynamic_table (\<lambda>_. True) d (field_entry f) = Ok d'"
      "state_inv s'" "state_inv d'" "state_view s' = state_view d'"
    using store.ins_sync [OF sd e, of "\<lambda>_. True"] by auto
  have "state_view s' = (case state_view s of (es, limit) \<Rightarrow> (spec_insert limit (field_entry f) es, limit))"
    using store.ins_law [OF sd(1) e, of "\<lambda>_. True"] r(1) by simp
  then have "max_dynamic_table_byte_size s' = max_dynamic_table_byte_size s" by (simp add: state_view_def)
  then show ?thesis using r True assms(1) by (simp add: apply_insertion_def ends_agree_def)
next
  case False
  then show ?thesis using assms(1) by (simp add: apply_insertion_def)
qed

lemma repr_transfer:
  assumes "ends_agree s d" "field_decodable ndebug f" "field_repr (abs_table (dynamic_table s)) f bs ins"
  shows "\<exists>s' d'. apply_insertion (\<lambda>_. True) f ins s = Ok s' \<and> bs \<noteq> [] \<and> ends_agree s' d' \<and>
    (\<forall>pre suf hs. hf_value f \<noteq> [] \<or> suf \<noteq> [] \<longrightarrow>
       decompress_step (server_env (\<lambda>_. True) (\<lambda>_. True) ndebug) (pre @ bs @ suf) (length pre) hs d =
         Ok (length pre + length bs, hs @ [f], d'))"
proof -
  have small: "field_small f" using assms(2) by (simp add: field_decodable_def)
  obtain s' d' where i: "apply_insertion (\<lambda>_. True) f ins s = Ok s'"
      "apply_insertion (\<lambda>_. True) f ins d = Ok d'" "ends_agree s' d'"
    using apply_insertion_sync [OF assms(1) small] by blast
  have inv: "table_inv (dynamic_table d)" using assms(1) state_inv_facts(1) by (simp add: ends_agree_def)
  have repr: "field_repr (abs_table (dynamic_table d)) f bs ins"
    using assms(3) ends_agree_abs [OF assms(1)] by simp
  show ?thesis
    using i(1,3) field_repr_not_Nil [OF assms(3)] decompress_step_repr [OF inv repr assms(2) _ i(2)] by blast
qed

interpretation extended: field_stream
  "\<lambda>s f. encode_single_header_field_extended (server_env (\<lambda>_. True) push nd) f s usage add_type use_all"
  "decompress_step (server_env (\<lambda>_. True) (\<lambda>_. True) ndebug)"
  "decompress_loop (server_env (\<lambda>_. True) (\<lambda>_. True) ndebug)"
  ends_agree "field_good ndebug" "\<lambda>f. hf_value f \<noteq> []"
  for push nd usage add_type use_all ndebug
proof
  fix s d f
  assume h: "ends_agree s d" "field_good ndebug f"
  have f: "field_decodable ndebug f" "field_small f" "\<not> static_prefix_clash f"
    using h(2) by (simp_all add: field_good_def field_decodable_def)
  have s: "state_inv s" "max_dynamic_table_byte_size s < 2 ^ 31" using h(1) by (simp_all add: ends_agree_def)
  obtain bs ins where e: "field_repr (abs_table (dynamic_table s)) f bs ins"
    "encode_single_header_field_extended (server_env (\<lambda>_. True) push nd) f s usage add_type use_all =
      rbind (apply_insertion (\<lambda>_. True) f ins s) (\<lambda>state'. Ok (bs, state'))"
    using encode_extended_correct [OF s f(2,3)] by blast
  from repr_transfer [OF h(1) f(1) e(1)] show "\<exists>bs s' t'.
      encode_single_header_field_extended (server_env (\<lambda>_. True) push nd) f s usage add_type use_all = Ok (bs, s') \<and>
      bs \<noteq> [] \<and> ends_agree s' t' \<and>
      (\<forall>pre suf hs. hf_value f \<noteq> [] \<or> suf \<noteq> [] \<longrightarrow>
        decompress_step (server_env (\<lambda>_. True) (\<lambda>_. True) ndebug) (pre @ bs @ suf) (length pre) hs d =
        Ok (length pre + length bs, hs @ [f], t'))"
    unfolding e(2) by (elim exE conjE) (intro exI conjI; simp)
qed (simp_all add: decompress_loop_unfold)

interpretation plain: field_stream
  "\<lambda>s f. keep_state s (encode_single_header_field_literal_never_indexed_variant2 (server_env (\<lambda>_. True) push nd) f usage)"
  "decompress_step (server_env (\<lambda>_. True) (\<lambda>_. True) ndebug)"
  "decompress_loop (server_env (\<lambda>_. True) (\<lambda>_. True) ndebug)"
  ends_agree "field_decodable ndebug" "\<lambda>f. hf_value f \<noteq> []"
  for push nd usage ndebug
proof
  fix s d f
  assume h: "ends_agree s d" "field_decodable ndebug f"
  let ?h = "use_huffman usage [hf_key f, hf_value f]"
  let ?bs = "literal_hi False # string_bytes ?h (hf_key f) @ string_bytes ?h (hf_value f)"
  have small: "string_small (hf_key f)" "string_small (hf_value f)"
    using h(2) by (simp_all add: field_decodable_def field_small_def)
  have e: "keep_state s (encode_single_header_field_literal_never_indexed_variant2
      (server_env (\<lambda>_. True) push nd) f usage) = Ok (?bs, s)"
    using server.never_indexed_correct(2) [OF small(2,1), of push nd usage]
    by (cases f) (simp add: keep_state_def literal_hi_def)
  from repr_transfer [OF h field_repr.key_string [of _ f False ?h]] show "\<exists>bs s' t'.
      keep_state s (encode_single_header_field_literal_never_indexed_variant2
        (server_env (\<lambda>_. True) push nd) f usage) = Ok (bs, s') \<and> bs \<noteq> [] \<and> ends_agree s' t' \<and>
      (\<forall>pre suf hs. hf_value f \<noteq> [] \<or> suf \<noteq> [] \<longrightarrow>
        decompress_step (server_env (\<lambda>_. True) (\<lambda>_. True) ndebug) (pre @ bs @ suf) (length pre) hs d =
        Ok (length pre + length bs, hs @ [f], t'))"
    unfolding e by (auto simp: apply_insertion_def)
qed (simp_all add: decompress_loop_unfold)

text \<open>The compression loops append what the stream writes.\<close>

definition buffer_bytes :: "SizedBuffer \<Rightarrow> bytes" where
  "buffer_bytes r = (case r of None \<Rightarrow> [] | Some bs \<Rightarrow> bs)"

lemma buffer_bytes_simps [simp]: "buffer_bytes None = []" "buffer_bytes (Some bs) = bs"
  by (simp_all add: buffer_bytes_def)

lemma append_result_Ok:
  "append_result (server_env (\<lambda>_. True) push nd) r b = Ok (Some (buffer_bytes r @ b))"
  by (simp add: append_result_def buffer_bytes_def)

lemma extended_loop_run:
  "extended.enc_all push nd usage add_type use_all fs s = Ok (bs, s') \<Longrightarrow>
   http2_hpack_compress_data_extended_loop (server_env (\<lambda>_. True) push nd) usage add_type use_all fs s r =
     Ok (if fs = [] then r else Some (buffer_bytes r @ bs), s')"
proof (induction fs arbitrary: s r bs)
  case (Cons f fs)
  then obtain b s1 bs1 where
    b: "encode_single_header_field_extended (server_env (\<lambda>_. True) push nd) f s usage add_type use_all = Ok (b, s1)"
      "extended.enc_all push nd usage add_type use_all fs s1 = Ok (bs1, s')" "bs = b @ bs1"
    by (auto simp: rbind_Ok_iff)
  show ?case
    using b Cons.IH [OF b(2), of "Some (buffer_bytes r @ b)"]
    by (cases "fs = []") (auto simp: append_result_Ok)
qed simp

lemma keep_state_Ok_iff: "keep_state s m = Ok (b, s') \<longleftrightarrow> m = Ok b \<and> s' = s"
  by (auto simp: keep_state_def rbind_Ok_iff)

lemma simple_loop_run:
  "plain.enc_all push nd usage fs s = Ok (bs, s') \<Longrightarrow>
   s' = s \<and> compress_simple_loop (server_env (\<lambda>_. True) push nd) usage fs r =
     Ok (if fs = [] then r else Some (buffer_bytes r @ bs))"
proof (induction fs arbitrary: s r bs)
  case (Cons f fs)
  then obtain b bs1 where
    b: "encode_single_header_field_literal_never_indexed_variant2 (server_env (\<lambda>_. True) push nd) f usage = Ok b"
      "plain.enc_all push nd usage fs s = Ok (bs1, s')" "bs = b @ bs1"
    by (auto simp: rbind_Ok_iff keep_state_Ok_iff)
  show ?case
    using b Cons.IH [OF b(2), of "Some (buffer_bytes r @ b)"]
    by (cases "fs = []") (auto simp: append_result_Ok)
qed simp

lemma compress_decompress:
  assumes agree: "ends_agree s d" and good: "\<forall>f \<in> set fs. field_good ndebug f"
    and fs: "fs \<noteq> []" "hf_value (last fs) \<noteq> []"
  shows "\<exists>bs s' d'.
    http2_hpack_compress_data (server_env (\<lambda>_. True) push nd) s fs options = Ok (Some bs, s') \<and>
    http2_hpack_decompress_data (server_env (\<lambda>_. True) (\<lambda>_. True) ndebug) (Some d) bs = Ok (fs, d') \<and>
    ends_agree s' d'"
proof -
  let ?t = "compress_type options"
  have dec: "http2_hpack_decompress_data (server_env (\<lambda>_. True) (\<lambda>_. True) ndebug) (Some d) bs = Ok (fs, d')"
    if "\<forall>pre hs. decompress_loop (server_env (\<lambda>_. True) (\<lambda>_. True) ndebug) (pre @ bs) (length pre) hs d =
      Ok (hs @ fs, d')" for bs d'
    using that [rule_format, of "[]" "[]"]
    by (simp add: http2_hpack_decompress_data_def http2_hpack_decompress_data_impl_def)
  show ?thesis
  proof (cases "?t = Http2HpackCompressTypeNoTableUsage")
    case True
    have good': "\<forall>f \<in> set fs. field_decodable ndebug f" using good by (simp add: field_good_def)
    obtain bs s' d' where r: "plain.enc_all push nd (huffman_usage options) fs s = Ok (bs, s')"
        "ends_agree s' d'" "\<forall>pre hs. decompress_loop (server_env (\<lambda>_. True) (\<lambda>_. True) ndebug)
          (pre @ bs) (length pre) hs d = Ok (hs @ fs, d')"
      using plain.stream_roundtrip [OF agree good'] fs(2) by blast
    show ?thesis
      using simple_loop_run [OF r(1), of None] True fs(1) dec [OF r(3)] r(2)
      by (auto simp: http2_hpack_compress_data_def http2_hpack_compress_data_simple_def null_on_error_def
          buffer_bytes_def)
  next
    case False
    let ?all = "?t = Http2HpackCompressTypeAllTablesUsage"
    obtain bs s' d' where r: "extended.enc_all push nd (huffman_usage options) (table_add_type options) ?all fs s
          = Ok (bs, s')"
        "ends_agree s' d'" "\<forall>pre hs. decompress_loop (server_env (\<lambda>_. True) (\<lambda>_. True) ndebug)
          (pre @ bs) (length pre) hs d = Ok (hs @ fs, d')"
      using extended.stream_roundtrip [OF agree good] fs(2) by blast
    have "http2_hpack_compress_data (server_env (\<lambda>_. True) push nd) s fs options = Ok (Some bs, s')"
      using extended_loop_run [OF r(1), of None] False fs(1)
      by (cases ?t) (simp_all add: http2_hpack_compress_data_def http2_hpack_compress_data_extended_def
          buffer_bytes_def)
    then show ?thesis using dec [OF r(3)] r(2) by blast
  qed
qed

section \<open>Properties\<close>


text \<open>A concrete run: a fresh connection and a two-field list.\<close>

definition sample_fields :: "HttpHeaderField list" where
  "sample_fields =
     [\<lparr>hf_key = str_bytes '':method'', hf_value = str_bytes ''GET''\<rparr>,
      \<lparr>hf_key = str_bytes ''x-id'', hf_value = str_bytes ''42''\<rparr>]"

lemma ends_agree_fresh:
  "n < 2 ^ 31 \<Longrightarrow>
   ends_agree (get_default_hpack_dynamic_table_state n) (get_default_hpack_dynamic_table_state n)"
  using state_inv_fresh [of n] by (simp add: ends_agree_def get_default_hpack_dynamic_table_state_def)

lemma encoded_length_le: "hpack_huffman_get_encoded_size_impl encode_map s \<le> 4 * length s"
proof -
  have b: "bit_size (encode_map c) \<le> 32" for c
    using rawCodes_nth(4) [of "unat c"] unat_u8_less [of c]
    by (simp add: get_hpack_huffman_encode_map_def encodeNodeToC_def)
  have "fold (\<lambda>c n. n + bit_size (encode_map c)) s k \<le> k + 32 * length s" for k
  proof (induction s arbitrary: k)
    case (Cons c s)
    then show ?case using b [of c] by (simp add: order_trans [OF Cons.IH])
  qed simp
  from this [of 0] show ?thesis by (simp add: hpack_huffman_get_encoded_size_impl_def)
qed

lemma string_small_short: "length s < 2 ^ 28 \<Longrightarrow> string_small s"
  using encoded_length_le [of s] by (simp add: string_small_def length_huffman_encoded)

lemma field_good_short:
  assumes "length (hf_key f) < 8" "length (hf_value f) < 8" "hf_key f \<noteq> str_bytes ''accept-encoding''" "ndebug"
  shows "field_good ndebug f"
proof -
  have "string_decodable ndebug t" if "length t < 8" for t
    using that assms(4) by (auto simp: string_decodable_def dest: dvd_imp_le)
  then show ?thesis
    using assms string_small_short [of "hf_key f"] string_small_short [of "hf_value f"]
    by (simp add: field_good_def field_decodable_def field_small_def static_prefix_clash_def)
qed


end
