(* ===== verification/Hpack_Connection.thy ===== *)
theory Hpack_Connection
  imports Hpack_Roundtrip
begin

text \<open>
  A whole HPACK connection: blocks and table-size changes in any order keep the two ends equal.
  Then the inputs on which the code departs from RFC 7541: a block cut short by an undefined shift, the empty value
  at the end of a block, and the header value that the static lookup replaces.
\<close>

section \<open>Connections\<close>

datatype link_event =
    Block "HttpHeaderField list" Http2HpackCompressOptions
  | TableSize nat

text \<open>Both ends process one event; the received lists are collected.\<close>

fun run_link ::
  "hpack_env \<Rightarrow> link_event list \<Rightarrow> HpackCompressState \<Rightarrow> HpackDecompressState
     \<Rightarrow> (unit, HttpHeaderField list list \<times> HpackCompressState \<times> HpackDecompressState) res" where
  "run_link env [] s d = Ok ([], s, d)"
| "run_link env (Block fs options # rest) s d =
     rbind (http2_hpack_compress_data env s fs options) (\<lambda>(result, s1).
     case result of
       None \<Rightarrow> Err ()
     | Some bs \<Rightarrow>
         rbind (map_err (\<lambda>_. ()) (http2_hpack_decompress_data env (Some d) bs)) (\<lambda>(received, d1).
         rbind (run_link env rest s1 d1) (\<lambda>(lists, s2, d2). Ok (received # lists, s2, d2))))"
| "run_link env (TableSize n # rest) s d =
     rbind (set_hpack_compress_state_setting (env_alloc env) s n) (\<lambda>s1.
     rbind (set_hpack_decompress_state_setting (env_alloc env) d n) (\<lambda>d1. run_link env rest s1 d1))"

fun event_good :: "bool \<Rightarrow> link_event \<Rightarrow> bool" where
  "event_good ndebug (Block fs options) \<longleftrightarrow>
     fs \<noteq> [] \<and> hf_value (last fs) \<noteq> [] \<and> list_all (field_good ndebug) fs"
| "event_good ndebug (TableSize n) \<longleftrightarrow> n < 2 ^ 31"

fun sent_lists :: "link_event list \<Rightarrow> HttpHeaderField list list" where
  "sent_lists [] = []"
| "sent_lists (Block fs options # rest) = fs # sent_lists rest"
| "sent_lists (TableSize n # rest) = sent_lists rest"

lemma resize_agree:
  assumes "ends_agree s d" "n < 2 ^ 31"
  shows "\<exists>s' d'. set_hpack_compress_state_setting (\<lambda>_. True) s n = Ok s' \<and>
    set_hpack_decompress_state_setting (\<lambda>_. True) d n = Ok d' \<and> ends_agree s' d'"
proof -
  have eq: "set_hpack_compress_state_setting alloc s n = set_hpack_decompress_state_setting alloc s n" for alloc
    by (simp add: set_hpack_compress_state_setting_def set_hpack_decompress_state_setting_def)
  have n: "n < 2 ^ 63" using assms(2) by simp
  have sd: "state_inv s" "state_inv d" "state_view s = state_view d" using assms(1) by (simp_all add: ends_agree_def)
  obtain s' d' where r: "set_hpack_decompress_state_setting (\<lambda>_. True) s n = Ok s'"
      "set_hpack_decompress_state_setting (\<lambda>_. True) d n = Ok d'"
      "state_inv s'" "state_inv d'" "state_view s' = state_view d'"
    using store.resize_sync [OF sd n, of "\<lambda>_. True"] by auto
  have "state_view s' = (case state_view s of (es, limit) \<Rightarrow> (evict_list n es, n))"
    using store.resize_law [OF sd(1) n, of "\<lambda>_. True"] r(1) by simp
  then have "max_dynamic_table_byte_size s' = n" by (simp add: state_view_def)
  then show ?thesis using r assms(2) by (simp add: ends_agree_def eq)
qed



section \<open>Where the code departs from RFC 7541\<close>

lemma decompress_first:
  assumes "data \<noteq> []"
  shows "http2_hpack_decompress_data env (Some d) data =
    map_err (\<lambda>(e, s). (e, Some s))
      (rbind (map_err (\<lambda>e. (e, d)) (decompress_step env data 0 [] d))
        (\<lambda>(pos', headers', state'). decompress_loop env data pos' headers' state'))"
  using assms
  by (simp add: http2_hpack_decompress_data_def http2_hpack_decompress_data_impl_def decompress_loop_unfold)

text \<open>
  A block a peer can send in six bytes makes the decoder execute an undefined shift: an indexed field with any
  index whose representation has \<open>2 ^ 31\<close> or more outside the prefix, whatever the state.
\<close>

theorem decompress_long_index_undefined:
  assumes "2 ^ 31 + 127 \<le> v"
  shows "http2_hpack_decompress_data (server_env alloc push ndebug) (Some d) (int_bytes 0x80 7 v) = Undef ShiftRange"
proof -
  have "decode_hpack_variable_integer (int_bytes 0x80 7 v) 0 7 = Undef ShiftRange"
    using decode_int_bytes_too_big [OF prefix_masks(2), of v "[]" "[]"] assms by simp
  then have "parse_hpack_indexed_header_field (server_env alloc push ndebug) (int_bytes 0x80 7 v) 0 [] d =
      Undef ShiftRange"
    by (simp add: parse_hpack_indexed_header_field_def)
  then show ?thesis
    using int_bytes_dispatch(2) [of v] by (simp add: decompress_first decompress_step_def Let_def)
qed

theorem decompress_long_index_undefined_witness:
  "http2_hpack_decompress_data (server_env (\<lambda>_. True) (\<lambda>_. True) True)
     (Some (get_default_hpack_dynamic_table_state 4096)) (int_bytes 0x80 7 2147483775) = Undef ShiftRange"
  by (rule decompress_long_index_undefined) simp

text \<open>
  A header list that ends with an empty value is compressed, but the decoder rejects the
  block: it asks for a byte behind the length before it looks whether the length is zero.
\<close>

theorem empty_last_value_rejected:
  assumes "field_good ndebug \<lparr>hf_key = k, hf_value = []\<rparr>"
  shows "\<exists>bs. http2_hpack_compress_data (server_env (\<lambda>_. True) push nd) s [\<lparr>hf_key = k, hf_value = []\<rparr>]
        \<lparr>huffman_usage = usage, compress_type = Http2HpackCompressTypeNoTableUsage, table_add_type = add_type\<rparr>
        = Ok (Some bs, s) \<and>
      http2_hpack_decompress_data (server_env (\<lambda>_. True) (\<lambda>_. True) ndebug) (Some d) bs =
        Err (ErrorInNeverIndexed, Some d)"
proof -
  let ?env = "server_env (\<lambda>_. True) (\<lambda>_. True) ndebug"
  let ?h = "use_huffman usage [k, []]"
  let ?k = "string_bytes ?h k" and ?hi = "if ?h then 0x80 else 0 :: u8"
  have small: "string_small k" "string_small []" "string_decodable ndebug k"
    using assms by (simp_all add: field_good_def field_decodable_def field_small_def)
  have empty: "string_bytes h [] = [if h then 0x80 else 0]" for h
    using huffman_encoded_Nil_iff [of "[]"] by (simp add: string_bytes_def int_bytes_def)
  let ?bs = "[0x10] @ ?k @ [?hi]"
  have c: "http2_hpack_compress_data (server_env (\<lambda>_. True) push nd) s [\<lparr>hf_key = k, hf_value = []\<rparr>]
      \<lparr>huffman_usage = usage, compress_type = Http2HpackCompressTypeNoTableUsage, table_add_type = add_type\<rparr>
      = Ok (Some ?bs, s)"
    using server.never_indexed_correct(2) [OF small(2,1), of push nd usage]
    by (simp add: http2_hpack_compress_data_def http2_hpack_compress_data_simple_def null_on_error_def
        append_result_Ok empty)
  have int0: "decode_hpack_variable_integer ?bs 0 4 = Ok (0, 1)"
    using decode_prefix(1) [of ?bs "[]" "0x10" 4 0 "?k @ [?hi]"] prefix_masks(4) by (simp add: int_bytes_def)
  have "string_ok ndebug k [?hi]" using small by (simp add: string_ok_def)
  from literal_codec.dec_enc [OF this, of "\<lambda>_. True" "[0x10]" ?h]
  have key: "parse_literal_key ?env ?bs 0 d 4 = Ok (k, length ([0x10] @ ?k))"
    using int0 by (simp add: parse_literal_key_def)
  have "decode_hpack_variable_integer ?bs (length ([0x10] @ ?k)) 7 = Ok (0, length ?bs)"
    using decode_prefix(1) [of ?bs "[0x10] @ ?k" ?hi 7 0 "[]"] prefix_masks(1,2)
    by (simp add: int_bytes_def split: if_splits)
  then have "parse_literal_string_value ?env ?bs (length ([0x10] @ ?k)) = Err NotEnoughAfterLength"
    by (simp add: parse_literal_string_value_def read_string_octets_def)
  then have "decompress_step ?env ?bs 0 [] d = Err ErrorInNeverIndexed"
    using key by (simp add: decompress_step_def Let_def parse_hpack_literal_header_field_never_indexed_def
        parse_literal_field_def)
  then show ?thesis using c by (intro exI [of _ ?bs]) (simp add: decompress_first)
qed

theorem empty_last_value_rejected_witness:
  "\<exists>bs. http2_hpack_compress_data (server_env (\<lambda>_. True) (\<lambda>_. True) True)
      (get_default_hpack_dynamic_table_state 4096) [\<lparr>hf_key = str_bytes ''x-id'', hf_value = []\<rparr>]
        \<lparr>huffman_usage = Http2HpackHuffmanUsageNever, compress_type = Http2HpackCompressTypeNoTableUsage,
         table_add_type = Http2HpackTableAddTypeNone\<rparr>
        = Ok (Some bs, get_default_hpack_dynamic_table_state 4096) \<and>
      http2_hpack_decompress_data (server_env (\<lambda>_. True) (\<lambda>_. True) True)
        (Some (get_default_hpack_dynamic_table_state 4096)) bs =
        Err (ErrorInNeverIndexed, Some (get_default_hpack_dynamic_table_state 4096))"
  by (rule empty_last_value_rejected) (simp add: field_good_short str_bytes_def)

lemma accept_encoding_rows:
  "static_rows (str_bytes ''accept-encoding'') = [(16, Some (str_bytes ''gzip, deflate''))]"
  by code_simp

text \<open>
  A header value the compressor changes: with table usage, an \<open>accept-encoding\<close> field whose
  value only begins with \<open>gzip, deflate\<close> is sent as entry 16 of the static table, and the receiver gets
  \<open>gzip, deflate\<close>. The generated lookup compares with \<open>strncmp\<close> up to the length of the table's value.
\<close>

theorem static_prefix_value_replaced:
  assumes "static_prefix_clash f" and "compress_type options \<noteq> Http2HpackCompressTypeNoTableUsage"
    and "ends_agree s d"
  shows "\<exists>bs g. http2_hpack_compress_data (server_env (\<lambda>_. True) push nd) s [f] options = Ok (Some bs, s) \<and>
    http2_hpack_decompress_data (server_env (\<lambda>_. True) (\<lambda>_. True) ndebug) (Some d) bs = Ok ([g], d) \<and>
    hf_key g = hf_key f \<and> hf_value g = str_bytes ''gzip, deflate'' \<and> g \<noteq> f"
proof -
  let ?g = "\<lparr>hf_key = hf_key f, hf_value = str_bytes ''gzip, deflate''\<rparr>"
  let ?bs = "int_bytes 0x80 7 16"
  have find: "hpack_generated_find_in_static_table_fast f = StaticAllFound 16"
    using assms(1) accept_encoding_rows
    by (simp add: hpack_generated_find_in_static_table_fast_def static_prefix_clash_def)
  have row: "(16, Some (str_bytes ''gzip, deflate'')) \<in> set (static_rows (hf_key f))"
    using assms(1) accept_encoding_rows by (simp add: static_prefix_clash_def)
  have entry: "table_entry es 16 = Some (field_entry ?g)" for es
    using static_rows_sound [OF row] by (simp add: table_entry_static field_entry_def)
  have "encode_single_header_field_extended (server_env (\<lambda>_. True) push nd) f s usage add_type use_all = Ok (?bs, s)"
    for usage add_type use_all
    using server.indexed_correct [of 16 push nd]
    by (simp add: encode_single_header_field_extended_def find_in_tables_def find keep_state_def)
  then have c: "http2_hpack_compress_data (server_env (\<lambda>_. True) push nd) s [f] options = Ok (Some ?bs, s)"
    using assms(2) by (cases "compress_type options")
      (simp_all add: http2_hpack_compress_data_def http2_hpack_compress_data_extended_def append_result_Ok)
  have "table_inv (dynamic_table d)" using assms(3) state_inv_facts(1) by (simp add: ends_agree_def)
  from decompress_step_indexed [OF this entry, of ndebug "[]" "[]" "[]"]
  have "http2_hpack_decompress_data (server_env (\<lambda>_. True) (\<lambda>_. True) ndebug) (Some d) ?bs = Ok ([?g], d)"
    by (simp add: decompress_first decompress_loop_unfold)
  moreover have "?g \<noteq> f" using assms(1) by (auto simp: static_prefix_clash_def)
  ultimately show ?thesis using c by (intro exI [of _ ?bs] exI [of _ ?g]) simp
qed

theorem static_prefix_value_replaced_witness:
  "\<exists>bs g. http2_hpack_compress_data (server_env (\<lambda>_. True) (\<lambda>_. True) True)
      (get_default_hpack_dynamic_table_state 4096)
      [\<lparr>hf_key = str_bytes ''accept-encoding'', hf_value = str_bytes ''gzip, deflate, br''\<rparr>]
      \<lparr>huffman_usage = Http2HpackHuffmanUsageAuto, compress_type = Http2HpackCompressTypeStaticTableUsage,
       table_add_type = Http2HpackTableAddTypeNone\<rparr>
      = Ok (Some bs, get_default_hpack_dynamic_table_state 4096) \<and>
    http2_hpack_decompress_data (server_env (\<lambda>_. True) (\<lambda>_. True) True)
      (Some (get_default_hpack_dynamic_table_state 4096)) bs
      = Ok ([g], get_default_hpack_dynamic_table_state 4096) \<and> hf_value g = str_bytes ''gzip, deflate''"
proof -
  have "static_prefix_clash \<lparr>hf_key = str_bytes ''accept-encoding'', hf_value = str_bytes ''gzip, deflate, br''\<rparr>"
    by (simp add: static_prefix_clash_def strncmp_eq_def) (simp add: str_bytes_def)
  from static_prefix_value_replaced [OF this _ ends_agree_fresh [of 4096], of
      "\<lparr>huffman_usage = Http2HpackHuffmanUsageAuto, compress_type = Http2HpackCompressTypeStaticTableUsage,
       table_add_type = Http2HpackTableAddTypeNone\<rparr>" "\<lambda>_. True" True True]
  obtain bs g where r: "http2_hpack_compress_data (server_env (\<lambda>_. True) (\<lambda>_. True) True)
      (get_default_hpack_dynamic_table_state 4096)
      [\<lparr>hf_key = str_bytes ''accept-encoding'', hf_value = str_bytes ''gzip, deflate, br''\<rparr>]
      \<lparr>huffman_usage = Http2HpackHuffmanUsageAuto, compress_type = Http2HpackCompressTypeStaticTableUsage,
       table_add_type = Http2HpackTableAddTypeNone\<rparr>
      = Ok (Some bs, get_default_hpack_dynamic_table_state 4096)"
    "http2_hpack_decompress_data (server_env (\<lambda>_. True) (\<lambda>_. True) True)
      (Some (get_default_hpack_dynamic_table_state 4096)) bs
      = Ok ([g], get_default_hpack_dynamic_table_state 4096)" "hf_value g = str_bytes ''gzip, deflate''"
    by auto
  then show ?thesis by blast
qed

end
