(* ===== verification/String_Builder.thy ===== *)
theory String_Builder
  imports Prelude
begin

text \<open>
  The string builder (\<open>src/src/utils/string_builder.c\<close>): a growing array of characters that keeps a
  terminating NUL behind the text. The builder is shown to be a text that grows at its end; printers
  rest on that contract, the locale \<open>text_sink\<close>, alone.

  A builder is a nullable pointer: \<open>None\<close> after a failed allocation. \<open>alloc n\<close> tells whether the vector
  library gets room for \<open>n\<close> characters; the code ends the process when it does not.
\<close>

section \<open>Operations\<close>

record StringBuilder =
  sb_value :: membuf

definition string_builder_init :: "(nat \<Rightarrow> bool) \<Rightarrow> StringBuilder option" where
  "string_builder_init alloc = (if alloc 0 then Some \<lparr>sb_value = []\<rparr> else None)"

definition string_builder_append_string_impl ::
  "(nat \<Rightarrow> bool) \<Rightarrow> StringBuilder option \<Rightarrow> bytes \<Rightarrow> (unit, StringBuilder option) res" where
  "string_builder_append_string_impl alloc string_builder string =
     (if length string = 0 then Ok string_builder
      else
        (case string_builder of
           None \<Rightarrow> Err ()
         | Some builder \<Rightarrow>
             (let current_size = length (sb_value builder);
                  new_size = size_add (size_add current_size (length string)) (if current_size = 0 then 1 else 0) in
              if \<not> alloc new_size then Undef ProcessExit
              else
                rbind (write_cell (take new_size (sb_value builder) @ replicate (new_size - current_size) None)
                         (size_sub new_size 1) 0) (\<lambda>cells.
                rbind (memcpy_cells cells (current_size - (if current_size = 0 then 0 else 1)) string) (\<lambda>cells'.
                Ok (Some \<lparr>sb_value = cells'\<rparr>))))))"

text \<open>The characters in front of the first NUL, which is what \<open>strlen\<close> counts.\<close>

definition c_string :: "bytes \<Rightarrow> bytes" where
  "c_string bs = takeWhile (\<lambda>b. b \<noteq> 0) bs"

definition string_builder_append_string ::
  "(nat \<Rightarrow> bool) \<Rightarrow> StringBuilder option \<Rightarrow> bytes \<Rightarrow> (unit, StringBuilder option) res" where
  "string_builder_append_string alloc string_builder string =
     string_builder_append_string_impl alloc string_builder (c_string string)"

definition string_builder_append_single ::
  "(nat \<Rightarrow> bool) \<Rightarrow> StringBuilder option \<Rightarrow> bytes \<Rightarrow> (unit, StringBuilder option) res" where
  "string_builder_append_single alloc string_builder static_string =
     string_builder_append_string_impl alloc string_builder (c_string static_string)"

definition string_builder_append_tstr_static ::
  "(nat \<Rightarrow> bool) \<Rightarrow> StringBuilder option \<Rightarrow> bytes \<Rightarrow> (unit, StringBuilder option) res" where
  "string_builder_append_tstr_static alloc string_builder static_string =
     string_builder_append_string_impl alloc string_builder static_string"

definition string_builder_append_tstr ::
  "(nat \<Rightarrow> bool) \<Rightarrow> StringBuilder option \<Rightarrow> bytes \<Rightarrow> (unit, StringBuilder option) res" where
  "string_builder_append_tstr alloc string_builder str =
     string_builder_append_string_impl alloc string_builder str"

definition string_builder_get_string_size :: "StringBuilder option \<Rightarrow> nat" where
  "string_builder_get_string_size string_builder =
     (case string_builder of
        None \<Rightarrow> 0
      | Some builder \<Rightarrow> (if length (sb_value builder) = 0 then 0 else length (sb_value builder) - 1))"

definition string_builder_release_into_sized_buffer :: "StringBuilder option \<Rightarrow> (unit, bytes) res" where
  "string_builder_release_into_sized_buffer string_builder =
     (case string_builder of
        None \<Rightarrow> Ok []
      | Some builder \<Rightarrow>
          (if sb_value builder = [] then Ok []
           else read_block (take (length (sb_value builder) - 1) (sb_value builder))))"

text \<open>The whole array with its terminator; \<open>None\<close> is the NULL pointer of an empty builder.\<close>

definition string_builder_release_into_string :: "StringBuilder option \<Rightarrow> (unit, bytes option) res" where
  "string_builder_release_into_string string_builder =
     (case string_builder of
        None \<Rightarrow> Ok None
      | Some builder \<Rightarrow>
          (if sb_value builder = [] then Ok None else rbind (read_block (sb_value builder)) (\<lambda>bs. Ok (Some bs))))"

definition string_builder_append_string_builder ::
  "(nat \<Rightarrow> bool) \<Rightarrow> StringBuilder option \<Rightarrow> StringBuilder option \<Rightarrow> (unit, StringBuilder option) res" where
  "string_builder_append_string_builder alloc string_builder string_builder2 =
     (case string_builder2 of
        None \<Rightarrow> Err ()
      | Some _ \<Rightarrow>
          rbind (string_builder_release_into_sized_buffer string_builder2)
            (string_builder_append_string_impl alloc string_builder))"

section \<open>The contract\<close>

text \<open>
  A sink holds a text that \<open>put\<close> extends and \<open>release\<close> hands out. \<open>limit\<close> bounds the texts for which
  the law is promised.
\<close>

fun put_all :: "('s \<Rightarrow> bytes \<Rightarrow> (unit, 's) res) \<Rightarrow> 's \<Rightarrow> bytes list \<Rightarrow> (unit, 's) res" where
  "put_all put s [] = Ok s"
| "put_all put s (x # xs) = rbind (put s x) (\<lambda>s'. put_all put s' xs)"

locale text_sink =
  fixes put :: "'s \<Rightarrow> bytes \<Rightarrow> (unit, 's) res"
    and release :: "'s \<Rightarrow> (unit, bytes) res"
    and holds :: "'s \<Rightarrow> bytes \<Rightarrow> bool"
    and limit :: nat
  assumes put_law: "holds s t \<Longrightarrow> length t + length x < limit \<Longrightarrow> \<exists>s'. put s x = Ok s' \<and> holds s' (t @ x)"
    and release_law: "holds s t \<Longrightarrow> release s = Ok t"
begin

lemma put_all_holds:
  "holds s t \<Longrightarrow> length (t @ concat xs) < limit \<Longrightarrow> \<exists>s'. put_all put s xs = Ok s' \<and> holds s' (t @ concat xs)"
proof (induction xs arbitrary: s t)
  case (Cons x xs)
  then obtain s1 where "put s x = Ok s1" "holds s1 (t @ x)" using put_law [of s t x] by auto
  with Cons show ?case by (metis put_all.simps(2) append_assoc concat.simps(2) rbind.simps(1))
qed simp

lemma put_all_release:
  "holds s [] \<Longrightarrow> length (concat xs) < limit \<Longrightarrow> rbind (put_all put s xs) release = Ok (concat xs)"
  using put_all_holds [of s "[]" xs] release_law by fastforce

end

section \<open>The builder keeps the contract\<close>

definition builder_holds :: "StringBuilder option \<Rightarrow> bytes \<Rightarrow> bool" where
  "builder_holds sb str \<longleftrightarrow>
     (\<exists>b. sb = Some b \<and> sb_value b = (if str = [] then [] else map Some str @ [Some 0]))"

lemma append_impl_holds:
  assumes "builder_holds sb str" "length str + length string < 2 ^ 64 - 1" "\<forall>n. alloc n"
  shows "\<exists>sb'. string_builder_append_string_impl alloc sb string = Ok sb' \<and> builder_holds sb' (str @ string)"
proof (cases "string = []")
  case True
  with assms show ?thesis by (simp add: string_builder_append_string_impl_def)
next
  case False
  obtain b where b: "sb = Some b" "sb_value b = (if str = [] then [] else map Some str @ [Some 0])"
    using assms(1) by (auto simp: builder_holds_def)
  let ?n = "length str + length string + 1"
  have n: "size_add (size_add (length (sb_value b)) (length string)) (if length (sb_value b) = 0 then 1 else 0) = ?n"
    using assms(2) b(2) by (simp add: size_simps)
  have last: "size_sub ?n 1 = length str + length string"
    using assms(2) by (subst size_sub_exact) simp_all
  let ?cells = "take ?n (sb_value b) @ replicate (?n - length (sb_value b)) None"
  have len: "length ?cells = Suc (length str + length string)" using b(2) False by simp
  have front: "take (length str) ?cells = map Some str" using b(2) by simp
  have "write_cell ?cells (length str + length string) 0 =
      (Ok (?cells [length str + length string := Some 0]) :: (unit, _) res)"
    using len by (simp add: write_cell_def)
  moreover have "memcpy_cells (?cells [length str + length string := Some 0]) (length str) string =
      (Ok (map Some (str @ string) @ [Some 0]) :: (unit, _) res)"
  proof -
    have "drop (length str + length string) (?cells [length str + length string := Some 0]) = [Some 0]"
      using len by (intro nth_equalityI) auto
    moreover have "take (length str) (?cells [length str + length string := Some 0]) = map Some str"
      using front False by (subst take_update_cancel) simp_all
    ultimately show ?thesis using len by (simp add: memcpy_cells_def)
  qed
  moreover have "length (sb_value b) - (if length (sb_value b) = 0 then 0 else 1) = length str"
    using b(2) by simp
  ultimately have "string_builder_append_string_impl alloc sb string =
      Ok (Some \<lparr>sb_value = map Some (str @ string) @ [Some 0]\<rparr>)"
    using False assms(3) unfolding string_builder_append_string_impl_def Let_def b(1) option.case n last
    by (simp only: rbind.simps length_0_conv simp_thms if_False if_True)
  with False show ?thesis by (simp add: builder_holds_def)
qed

interpretation builder: text_sink
  "string_builder_append_string_impl alloc" string_builder_release_into_sized_buffer builder_holds
  "if \<forall>n. alloc n then 2 ^ 64 - 1 else 0" for alloc
proof
  fix sb str
  assume holds: "builder_holds sb str"
  show "\<exists>sb'. string_builder_append_string_impl alloc sb x = Ok sb' \<and> builder_holds sb' (str @ x)"
    if "length str + length x < (if \<forall>n. alloc n then 2 ^ 64 - 1 else 0)" for x
    using append_impl_holds [OF holds] that by (auto split: if_splits)
  show "string_builder_release_into_sized_buffer sb = Ok str"
    using holds by (auto simp: builder_holds_def string_builder_release_into_sized_buffer_def read_block_map_Some)
qed

lemma builder_init_holds: "alloc 0 \<Longrightarrow> builder_holds (string_builder_init alloc) []"
  by (simp add: builder_holds_def string_builder_init_def)

lemma builder_size: "builder_holds sb str \<Longrightarrow> string_builder_get_string_size sb = length str"
  by (auto simp: builder_holds_def string_builder_get_string_size_def)

lemma c_string_id [simp]: "0 \<notin> set bs \<Longrightarrow> c_string bs = bs"
  by (auto simp: c_string_def takeWhile_eq_all_conv)

end
