(* ===== verification/Uri.thy ===== *)
theory Uri
  imports String_Builder Number_Parsing "HOL-Library.List_Lexorder"
begin

text \<open>
  The URI parser and printer (\<open>src/src/http/uri.c\<close>). The string functions \<open>tstr_split\<close> and
  \<open>tstr_view_to_int\<close>, the hash map behind the query arguments and the text of a null string belong to
  external libraries and are fields of \<open>uri_env\<close>. Query arguments are a finite map; printing depends
  on the order in which the library lists it.

  The theorems give the parser of paths as a reference definition on lists, which also names the
  inputs that end the process, the round trip of the URIs the printer can express, and the URIs it
  cannot.
\<close>

section \<open>Data\<close>

record uri_env =
  lib_split :: "bytes \<Rightarrow> bytes \<Rightarrow> (bytes \<times> bytes) option"
  lib_to_int :: "bytes \<Rightarrow> int option"
  lib_insert :: "bytes \<Rightarrow> bool"
  lib_entries :: "(bytes \<rightharpoonup> bytes) \<Rightarrow> (bytes \<times> bytes) list"
  lib_null_cstr :: "bytes option"
  lib_alloc :: "nat \<Rightarrow> bool"

record URIUserInfo =
  ui_username :: tstr
  ui_password :: tstr

record ParsedAuthority =
  pa_user_info :: URIUserInfo
  pa_host :: tstr
  pa_port :: u16

type_synonym ParsedSearchPath = "bytes \<rightharpoonup> bytes"

record ParsedURLPath =
  up_path :: tstr
  up_search_path :: ParsedSearchPath
  up_fragment :: tstr

record ParsedURI =
  pu_scheme :: tstr
  pu_authority :: ParsedAuthority
  pu_path :: ParsedURLPath

datatype ParsedRequestURI =
    ParsedURITypeAsterisk
  | ParsedURITypeAbsoluteURI ParsedURI
  | ParsedURITypeAbsPath ParsedURLPath
  | ParsedURITypeAuthority ParsedAuthority

text \<open>Text literals of the source as bytes.\<close>

definition lit :: "string \<Rightarrow> bytes" where
  "lit s = map of_char s"

section \<open>Parsing\<close>

text \<open>
  The loop over the query arguments. \<open>None\<close> is a loop that does not end; \<open>UNREACHABLE ()\<close> ends the
  process for a key that is present and when the map cannot grow.
\<close>

partial_function (option) search_params_loop ::
  "uri_env \<Rightarrow> bytes \<Rightarrow> ParsedSearchPath \<Rightarrow> (unit, ParsedSearchPath) res option" where
  "search_params_loop env search_params hash_map =
     (if search_params = [] then Some (Ok hash_map)
      else
        (case (case lib_split env search_params (lit ''&'') of
                 None \<Rightarrow> (search_params, []) | Some next_arg \<Rightarrow> next_arg) of
           (current_value, search_params') \<Rightarrow>
             (case (case lib_split env current_value (lit ''='') of
                      None \<Rightarrow> (current_value, []) | Some key_value \<Rightarrow> key_value) of
                (key, value) \<Rightarrow>
                  if hash_map key \<noteq> None \<or> \<not> lib_insert env key then Some (Undef ProcessExit)
                  else search_params_loop env search_params' (hash_map(key \<mapsto> value)))))"

text \<open>The three parts of a path: the path, the query, the fragment.\<close>

definition split_url :: "uri_env \<Rightarrow> bytes \<Rightarrow> bytes \<times> bytes \<times> bytes" where
  "split_url env path =
     (case lib_split env path (lit ''?'') of
        None \<Rightarrow>
          (case lib_split env path (lit ''#'') of
             None \<Rightarrow> (path, [], []) | Some (path_view, fragment_view) \<Rightarrow> (path_view, [], fragment_view))
      | Some (path_view, search_path) \<Rightarrow>
          (case lib_split env search_path (lit ''#'') of
             None \<Rightarrow> (path_view, search_path, [])
           | Some (search_path', fragment_view) \<Rightarrow> (path_view, search_path', fragment_view)))"

definition parse_url_path :: "uri_env \<Rightarrow> bytes \<Rightarrow> (unit, ParsedURLPath) res option" where
  "parse_url_path env path =
     (case split_url env path of
        (path_view, search_path, fragment_view) \<Rightarrow>
          map_option (\<lambda>r. rbind r (\<lambda>hash_map.
              Ok \<lparr>up_path = Some path_view, up_search_path = hash_map, up_fragment = Some fragment_view\<rparr>))
            (search_params_loop env search_path Map.empty))"

definition parse_user_info :: "uri_env \<Rightarrow> bytes \<Rightarrow> URIUserInfo" where
  "parse_user_info env userinfo =
     (case lib_split env userinfo (lit '':'') of
        None \<Rightarrow> \<lparr>ui_username = Some userinfo, ui_password = None\<rparr>
      | Some (username, password) \<Rightarrow> \<lparr>ui_username = Some username, ui_password = Some password\<rparr>)"

fun find_authority_split :: "bytes \<Rightarrow> bytes \<times> bytes" where
  "find_authority_split [] = ([], [])"
| "find_authority_split (val # vals) =
     (if val = of_char (CHR ''/'') \<or> val = of_char (CHR ''?'') \<or> val = of_char (CHR ''#'') then ([], val # vals)
      else (case find_authority_split vals of (authority, after) \<Rightarrow> (val # authority, after)))"

definition parse_u16 :: "uri_env \<Rightarrow> bytes \<Rightarrow> u16 option" where
  "parse_u16 env to_parse =
     (case lib_to_int env to_parse of
        None \<Rightarrow> None
      | Some result \<Rightarrow> (if result < 0 then None else if result > 65535 then None else Some (of_int result)))"

definition parse_authority :: "uri_env \<Rightarrow> bytes \<Rightarrow> (ParsedAuthority \<times> bytes) option" where
  "parse_authority env str =
     (case (case lib_split env str (lit ''@'') of
              None \<Rightarrow> (\<lparr>ui_username = None, ui_password = None\<rparr>, str)
            | Some (userinfo, rest) \<Rightarrow> (parse_user_info env userinfo, rest)) of
        (user_info, current_view) \<Rightarrow>
          (case lib_split env current_view (lit '':'') of
             Some (host, rest) \<Rightarrow>
               (case find_authority_split rest of
                  (authority, after) \<Rightarrow>
                    (case parse_u16 env authority of
                       None \<Rightarrow> None
                     | Some port \<Rightarrow>
                         Some (\<lparr>pa_user_info = user_info, pa_host = Some host, pa_port = port\<rparr>, after)))
           | None \<Rightarrow>
               (case find_authority_split current_view of
                  (authority, after) \<Rightarrow>
                    Some (\<lparr>pa_user_info = user_info, pa_host = Some authority, pa_port = 0\<rparr>, after))))"

definition root_path :: ParsedURLPath where
  "root_path = \<lparr>up_path = Some (lit ''/''), up_search_path = Map.empty, up_fragment = None\<rparr>"

definition parse_uri_or_authority :: "uri_env \<Rightarrow> bytes \<Rightarrow> (string, ParsedRequestURI) res option" where
  "parse_uri_or_authority env path =
     (case lib_split env path (lit ''://'') of
        None \<Rightarrow>
          (case parse_authority env path of
             None \<Rightarrow> Some (Err ''Authority parse error: not a valid authority'')
           | Some (authority, after) \<Rightarrow>
               (if after \<noteq> []
                then Some (Err ''Authority parse error: we got more data after the authority, but no scheme (<scheme>://), so this is a URI missing that scheme or an invalid authority'')
                else Some (Ok (ParsedURITypeAuthority authority))))
      | Some (scheme, current_view) \<Rightarrow>
          (case parse_authority env current_view of
             None \<Rightarrow> Some (Err ''Authority parse error: not a valid authority'')
           | Some (authority, after_authority) \<Rightarrow>
               (if after_authority = []
                then Some (Ok (ParsedURITypeAbsoluteURI
                       \<lparr>pu_scheme = Some scheme, pu_authority = authority, pu_path = root_path\<rparr>))
                else
                  map_option (\<lambda>r. rbind (map_err (\<lambda>_. []) r) (\<lambda>parsed_path.
                      Ok (ParsedURITypeAbsoluteURI
                        \<lparr>pu_scheme = Some scheme, pu_authority = authority, pu_path = parsed_path\<rparr>)))
                    (parse_url_path env after_authority))))"

definition parse_request_uri :: "uri_env \<Rightarrow> bytes \<Rightarrow> (string, ParsedRequestURI) res option" where
  "parse_request_uri env path =
     (if path = [] then Some (Ok (ParsedURITypeAbsPath root_path))
      else if path = lit ''*'' then Some (Ok ParsedURITypeAsterisk)
      else if path ! 0 = of_char (CHR ''/'')
      then map_option (\<lambda>r. rbind (map_err (\<lambda>_. []) r) (\<lambda>parsed_path. Ok (ParsedURITypeAbsPath parsed_path)))
             (parse_url_path env path)
      else parse_uri_or_authority env path)"

section \<open>Printing\<close>

text \<open>The result of appending is ignored: an error leaves the builder as it is.\<close>

definition append_ignored ::
  "uri_env \<Rightarrow> StringBuilder option \<Rightarrow> bytes \<Rightarrow> (unit, StringBuilder option) res" where
  "append_ignored env string_builder s =
     (case string_builder_append_single (lib_alloc env) string_builder s of
        Err _ \<Rightarrow> Ok string_builder | r \<Rightarrow> r)"

text \<open>\<open>tstr_cstr\<close>: for a null string what the library returns, where \<open>None\<close> is the NULL pointer.\<close>

definition tstr_cstr :: "uri_env \<Rightarrow> tstr \<Rightarrow> (unit, bytes) res" where
  "tstr_cstr env s =
     (case s of Some bs \<Rightarrow> Ok bs | None \<Rightarrow> (case lib_null_cstr env of None \<Rightarrow> Undef OutOfBounds | Some bs \<Rightarrow> Ok bs))"

fun print_search_loop ::
  "uri_env \<Rightarrow> bool \<Rightarrow> StringBuilder option \<Rightarrow> (bytes \<times> bytes) list \<Rightarrow> (unit, StringBuilder option) res" where
  "print_search_loop env start sb [] = Ok sb"
| "print_search_loop env start sb ((key, value) # es) =
     rbind (if \<not> start then append_ignored env sb (lit ''&'') else Ok sb) (\<lambda>sb1.
     rbind (append_ignored env sb1 key) (\<lambda>sb2.
     rbind (if length value \<noteq> 0
            then rbind (append_ignored env sb2 (lit ''='')) (\<lambda>sb3. append_ignored env sb3 value)
            else Ok sb2) (\<lambda>sb4.
     print_search_loop env True sb4 es)))"

definition get_parsed_url_as_string :: "uri_env \<Rightarrow> ParsedURLPath \<Rightarrow> (unit, bytes) res" where
  "get_parsed_url_as_string env path =
     rbind (tstr_cstr env (up_path path)) (\<lambda>path_str.
     rbind (append_ignored env (string_builder_init (lib_alloc env)) path_str) (\<lambda>sb.
     rbind (if lib_entries env (up_search_path path) \<noteq> []
            then rbind (append_ignored env sb (lit ''?'')) (\<lambda>sb'.
                 print_search_loop env True sb' (lib_entries env (up_search_path path)))
            else Ok sb) (\<lambda>sb'.
     string_builder_release_into_sized_buffer sb')))"

definition get_parsed_authority_as_string :: "uri_env \<Rightarrow> ParsedAuthority \<Rightarrow> (unit, bytes) res" where
  "get_parsed_authority_as_string env authority =
     (let user_info = pa_user_info authority in
      rbind (case ui_username user_info of
               None \<Rightarrow> Ok (string_builder_init (lib_alloc env))
             | Some username \<Rightarrow>
                 rbind (append_ignored env (string_builder_init (lib_alloc env)) username) (\<lambda>sb.
                 rbind (if ui_password user_info = None
                        then rbind (append_ignored env sb (lit '':'')) (\<lambda>sb'.
                             rbind (tstr_cstr env (ui_password user_info)) (append_ignored env sb'))
                        else Ok sb) (\<lambda>sb'.
                 append_ignored env sb' (lit ''@'')))) (\<lambda>sb.
      rbind (tstr_cstr env (pa_host authority)) (\<lambda>host.
      rbind (append_ignored env sb host) (\<lambda>sb'.
      rbind (if pa_port authority \<noteq> 0
             then append_ignored env sb' (lit '':'' @ print_nat (unat (pa_port authority)))
             else Ok sb') (\<lambda>sb''.
      string_builder_release_into_sized_buffer sb'')))))"

definition get_uri_as_string :: "uri_env \<Rightarrow> ParsedURI \<Rightarrow> (unit, bytes) res" where
  "get_uri_as_string env uri =
     rbind (tstr_cstr env (pu_scheme uri)) (\<lambda>scheme.
     rbind (append_ignored env (string_builder_init (lib_alloc env)) scheme) (\<lambda>sb.
     rbind (append_ignored env sb (lit ''://'')) (\<lambda>sb.
     rbind (if pa_host (pu_authority uri) \<noteq> None
            then rbind (get_parsed_authority_as_string env (pu_authority uri)) (append_ignored env sb)
            else Ok sb) (\<lambda>sb.
     rbind (get_parsed_url_as_string env (pu_path uri)) (\<lambda>path_str.
     rbind (append_ignored env sb path_str) (\<lambda>sb.
     string_builder_release_into_sized_buffer sb))))))"

fun get_request_uri_as_string :: "uri_env \<Rightarrow> ParsedRequestURI \<Rightarrow> (unit, bytes) res" where
  "get_request_uri_as_string env ParsedURITypeAsterisk = Ok (lit ''*'')"
| "get_request_uri_as_string env (ParsedURITypeAbsoluteURI uri) = get_uri_as_string env uri"
| "get_request_uri_as_string env (ParsedURITypeAbsPath path) = get_parsed_url_as_string env path"
| "get_request_uri_as_string env (ParsedURITypeAuthority authority) = get_parsed_authority_as_string env authority"

section \<open>Copies\<close>

definition duplicate_authority :: "ParsedAuthority \<Rightarrow> ParsedAuthority" where
  "duplicate_authority authority =
     \<lparr>pa_user_info = \<lparr>ui_username = ui_username (pa_user_info authority),
                       ui_password = ui_password (pa_user_info authority)\<rparr>,
      pa_host = pa_host authority, pa_port = pa_port authority\<rparr>"

fun duplicate_search_loop ::
  "uri_env \<Rightarrow> (bytes \<times> bytes) list \<Rightarrow> ParsedSearchPath \<Rightarrow> (unit, ParsedSearchPath) res" where
  "duplicate_search_loop env [] hash_map = Ok hash_map"
| "duplicate_search_loop env ((key, value) # es) hash_map =
     rbind (check_assert (hash_map key = None \<and> lib_insert env key)) (\<lambda>_.
     duplicate_search_loop env es (hash_map(key \<mapsto> value)))"

definition duplicate_path :: "uri_env \<Rightarrow> ParsedURLPath \<Rightarrow> (unit, ParsedURLPath) res" where
  "duplicate_path env path =
     rbind (duplicate_search_loop env (lib_entries env (up_search_path path)) Map.empty) (\<lambda>hash_map.
     Ok \<lparr>up_path = up_path path, up_search_path = hash_map, up_fragment = up_fragment path\<rparr>)"

definition duplicate_uri :: "uri_env \<Rightarrow> ParsedURI \<Rightarrow> (unit, ParsedURI) res" where
  "duplicate_uri env uri =
     rbind (duplicate_path env (pu_path uri)) (\<lambda>path.
     Ok \<lparr>pu_scheme = pu_scheme uri, pu_authority = duplicate_authority (pu_authority uri), pu_path = path\<rparr>)"

fun duplicate_request_uri :: "uri_env \<Rightarrow> ParsedRequestURI \<Rightarrow> (unit, ParsedRequestURI) res" where
  "duplicate_request_uri env ParsedURITypeAsterisk = Ok ParsedURITypeAsterisk"
| "duplicate_request_uri env (ParsedURITypeAbsoluteURI uri) =
     rbind (duplicate_uri env uri) (\<lambda>uri'. Ok (ParsedURITypeAbsoluteURI uri'))"
| "duplicate_request_uri env (ParsedURITypeAbsPath path) =
     rbind (duplicate_path env path) (\<lambda>path'. Ok (ParsedURITypeAbsPath path'))"
| "duplicate_request_uri env (ParsedURITypeAuthority authority) =
     Ok (ParsedURITypeAuthority (duplicate_authority authority))"

section \<open>What the libraries do\<close>

text \<open>\<open>tstr_split\<close> cuts at the first occurrence of the delimiter.\<close>

definition split_law :: "(bytes \<Rightarrow> bytes \<Rightarrow> (bytes \<times> bytes) option) \<Rightarrow> bool" where
  "split_law split \<longleftrightarrow>
     (\<forall>s d. d \<noteq> [] \<longrightarrow>
        (case split s d of
           None \<Rightarrow> (\<nexists>a b. s = a @ d @ b)
         | Some (a, b) \<Rightarrow> s = a @ d @ b \<and> (\<forall>a' b'. s = a' @ d @ b' \<longrightarrow> length a \<le> length a')))"

definition to_int_law :: "(bytes \<Rightarrow> int option) \<Rightarrow> bool" where
  "to_int_law to_int \<longleftrightarrow> (\<forall>n < 2 ^ 31. to_int (print_nat n) = Some (int n))"

definition entries_law :: "((bytes \<rightharpoonup> bytes) \<Rightarrow> (bytes \<times> bytes) list) \<Rightarrow> bool" where
  "entries_law list_entries \<longleftrightarrow>
     (\<forall>m. finite (dom m) \<longrightarrow> map_of (list_entries m) = m \<and> distinct (map fst (list_entries m)))"

lemma split_unique:
  assumes "split_law split" "d \<noteq> []" "s = a @ d @ b" "\<And>a' b'. s = a' @ d @ b' \<Longrightarrow> length a \<le> length a'"
  shows "split s d = Some (a, b)"
proof -
  have law: "case split s d of None \<Rightarrow> (\<nexists>a b. s = a @ d @ b)
      | Some (a, b) \<Rightarrow> s = a @ d @ b \<and> (\<forall>a' b'. s = a' @ d @ b' \<longrightarrow> length a \<le> length a')"
    using assms(1,2) by (simp add: split_law_def)
  then obtain a1 b1 where s: "split s d = Some (a1, b1)" "s = a1 @ d @ b1"
    "\<And>a' b'. s = a' @ d @ b' \<Longrightarrow> length a1 \<le> length a'"
    using assms(3) by (cases "split s d") auto
  have "length a1 = length a" using s(3) [OF assms(3)] assms(4) [OF s(2)] by simp
  with s(1,2) assms(3) show ?thesis by simp
qed

text \<open>The text in front of the first \<open>c\<close> and the text behind it.\<close>

definition before :: "u8 \<Rightarrow> bytes \<Rightarrow> bytes" where
  "before c s = takeWhile (\<lambda>x. x \<noteq> c) s"

definition behind :: "u8 \<Rightarrow> bytes \<Rightarrow> bytes" where
  "behind c s = tl (dropWhile (\<lambda>x. x \<noteq> c) s)"

lemma before_behind_cut [simp]: "c \<notin> set a \<Longrightarrow> before c (a @ c # b) = a" "c \<notin> set a \<Longrightarrow> behind c (a @ c # b) = b"
  unfolding before_def behind_def by (induction a) auto

lemma before_behind_none: "c \<notin> set s \<Longrightarrow> before c s = s \<and> behind c s = []"
  unfolding before_def behind_def by (induction s) auto

lemma first_occurrence:
  assumes "a @ c # b = a' @ c # b'" "c \<notin> set a"
  shows "length a \<le> length a'"
proof (rule ccontr)
  assume "\<not> length a \<le> length a'"
  then have less: "length a' < length a" by simp
  from arg_cong [OF assms(1), of "\<lambda>xs. xs ! length a'"] less have "a ! length a' = c" by (simp add: nth_append)
  with nth_mem [OF less] assms(2) show False by simp
qed

lemma split_char:
  assumes "split_law split"
  shows "split s [c] = (if c \<in> set s then Some (before c s, behind c s) else None)"
proof (cases "c \<in> set s")
  case True
  then obtain a b where s: "s = a @ c # b" "c \<notin> set a" by (meson split_list_first)
  have "split (a @ c # b) [c] = Some (a, b)"
    by (rule split_unique [OF assms]) (simp_all add: first_occurrence [OF _ s(2)])
  then show ?thesis using s by simp
next
  case False
  have "case split s [c] of None \<Rightarrow> True | Some (a, b) \<Rightarrow> s = a @ [c] @ b"
  proof (cases "split s [c]")
    case (Some r)
    have "case split s [c] of None \<Rightarrow> (\<nexists>a b. s = a @ [c] @ b)
        | Some (a, b) \<Rightarrow> s = a @ [c] @ b \<and> (\<forall>a' b'. s = a' @ [c] @ b' \<longrightarrow> length a \<le> length a')"
      using assms unfolding split_law_def by blast
    with Some show ?thesis by (cases r) simp
  qed simp
  with False show ?thesis by (auto split: option.splits)
qed

section \<open>The reference parser of paths\<close>

lemma behind_shorter: "s \<noteq> [] \<Longrightarrow> length (behind c s) < length s"
  unfolding behind_def by (cases s) (auto simp: le_imp_less_Suc diff_le_mono length_dropWhile_le le_diff_conv le_SucI)

function query_args :: "bytes \<Rightarrow> bytes list" where
  "query_args s = (if s = [] then [] else before (of_char (CHR ''&'')) s # query_args (behind (of_char (CHR ''&'')) s))"
  by pat_completeness auto
termination
  by (relation "measure length") (simp_all add: behind_shorter)

declare query_args.simps [simp del]

definition query_pairs :: "bytes \<Rightarrow> (bytes \<times> bytes) list" where
  "query_pairs s = map (\<lambda>arg. (before (of_char (CHR ''='')) arg, behind (of_char (CHR ''='')) arg)) (query_args s)"

definition url_parts :: "bytes \<Rightarrow> bytes \<times> bytes \<times> bytes" where
  "url_parts s =
     (if of_char (CHR ''?'') \<in> set s
      then (before (of_char (CHR ''?'')) s,
            before (of_char (CHR ''#'')) (behind (of_char (CHR ''?'')) s),
            behind (of_char (CHR ''#'')) (behind (of_char (CHR ''?'')) s))
      else (before (of_char (CHR ''#'')) s, [], behind (of_char (CHR ''#'')) s))"

lemma split_or_all:
  assumes "split_law split"
  shows "(case split s [c] of None \<Rightarrow> (s, []) | Some r \<Rightarrow> r) = (before c s, behind c s)"
  using before_behind_none [of c s] by (simp add: split_char [OF assms])

lemma lit_single: "lit [c] = [of_char c]"
  by (simp add: lit_def)

lemma split_url_eq:
  assumes "split_law (lib_split env)"
  shows "split_url env s = url_parts s"
proof -
  have "split_url env s = (if of_char (CHR ''?'') \<in> set s then
      (case (case lib_split env (behind (of_char (CHR ''?'')) s) [of_char (CHR ''#'')] of
               None \<Rightarrow> (behind (of_char (CHR ''?'')) s, []) | Some r \<Rightarrow> r) of
         (q, f) \<Rightarrow> (before (of_char (CHR ''?'')) s, q, f))
    else (case (case lib_split env s [of_char (CHR ''#'')] of None \<Rightarrow> (s, []) | Some r \<Rightarrow> r) of
         (p, f) \<Rightarrow> (p, [], f)))"
    unfolding split_url_def lit_single split_char [OF assms, of s "of_char (CHR ''?'')"]
    by (auto split: option.splits)
  then show ?thesis unfolding split_or_all [OF assms] url_parts_def by simp
qed

lemma search_params_loop_eq:
  assumes "split_law (lib_split env)" "\<forall>k. lib_insert env k"
  shows "search_params_loop env s m =
    Some (if distinct (map fst (query_pairs s)) \<and> fst ` set (query_pairs s) \<inter> dom m = {}
          then Ok (m ++ map_of (query_pairs s)) else Undef ProcessExit)"
proof (induction s arbitrary: m rule: query_args.induct)
  case (1 s)
  show ?case
  proof (cases "s = []")
    case True
    then show ?thesis by (simp add: search_params_loop.simps query_pairs_def query_args.simps)
  next
    case False
    define k v rest where kv: "k = before (of_char (CHR ''='')) (before (of_char (CHR ''&'')) s)"
      "v = behind (of_char (CHR ''='')) (before (of_char (CHR ''&'')) s)" "rest = behind (of_char (CHR ''&'')) s"
    have "query_pairs s = (k, v) # query_pairs rest"
      unfolding query_pairs_def query_args.simps [of s] kv using False by simp
    moreover have "search_params_loop env s m =
        (if m k \<noteq> None then Some (Undef ProcessExit) else search_params_loop env rest (m(k \<mapsto> v)))"
      unfolding kv using False assms(2)
      by (subst search_params_loop.simps) (simp add: lit_single split_or_all [OF assms(1)])
    moreover have "fst ` A \<inter> dom (m(k \<mapsto> v)) = {} \<longleftrightarrow> k \<notin> fst ` A \<and> fst ` A \<inter> dom m = {}" for A :: "(bytes \<times> bytes) set"
      by auto
    moreover note 1 [OF False, folded kv(3), of "m(k \<mapsto> v)", unfolded calculation(3)]
    moreover have "m(k \<mapsto> v) ++ map_of (query_pairs rest) = m ++ map_of ((k, v) # query_pairs rest)"
      if "k \<notin> fst ` set (query_pairs rest)"
      using that by (simp add: map_add_upd_left dom_map_of_conv_image_fst)
    ultimately show ?thesis by (cases "m k") (simp_all add: domIff)
  qed
qed

lemma parse_url_path_spec_lib:
  assumes "split_law (lib_split env)" "\<forall>k. lib_insert env k"
  shows "parse_url_path env url =
    Some (case url_parts url of (path, query, fragment) \<Rightarrow>
      (if distinct (map fst (query_pairs query))
       then Ok \<lparr>up_path = Some path, up_search_path = map_of (query_pairs query), up_fragment = Some fragment\<rparr>
       else Undef ProcessExit))"
  by (auto simp: parse_url_path_def split_url_eq [OF assms(1)] search_params_loop_eq [OF assms] split: prod.splits)

text \<open>
  C25. The parser of paths is the reference parser: it ends on every input, cuts at the first question
  mark and then at the first number sign, and maps the keys of the query arguments to their values. It
  ends the process exactly when two arguments have the same key.
\<close>

theorem parse_url_path_spec:
  assumes "split_law (lib_split env)" "\<forall>k. lib_insert env k"
  shows "parse_url_path env url =
    Some (case url_parts url of (path, query, fragment) \<Rightarrow>
      (if distinct (map fst (query_pairs query))
       then Ok \<lparr>up_path = Some path, up_search_path = map_of (query_pairs query), up_fragment = Some fragment\<rparr>
       else Undef ProcessExit))"
  by (rule parse_url_path_spec_lib [OF assms])

text \<open>Libraries for the examples.\<close>

fun cut_first :: "bytes \<Rightarrow> bytes \<Rightarrow> (bytes \<times> bytes) option" where
  "cut_first [] d = (if d = [] then Some ([], []) else None)"
| "cut_first (x # s) d =
     (if take (length d) (x # s) = d then Some ([], drop (length d) (x # s))
      else map_option (\<lambda>(a, b). (x # a, b)) (cut_first s d))"

lemma cut_first_Some: "cut_first s d = Some (a, b) \<Longrightarrow> s = a @ d @ b"
proof (induction s arbitrary: a)
  case (Cons x s)
  show ?case
  proof (cases "take (length d) (x # s) = d")
    case True
    with Cons.prems show ?thesis by (metis append_Nil append_take_drop_id cut_first.simps(2) option.inject prod.inject)
  next
    case False
    with Cons.prems obtain a' where "a = x # a'" "cut_first s d = Some (a', b)" by (auto simp del: take.simps)
    with Cons.IH show ?thesis by simp
  qed
qed (simp split: if_splits)

lemma cut_first_least:
  "d \<noteq> [] \<Longrightarrow> s = a' @ d @ b' \<Longrightarrow> \<exists>a b. cut_first s d = Some (a, b) \<and> length a \<le> length a'"
proof (induction s arbitrary: a')
  case (Cons x s)
  show ?case
  proof (cases a')
    case Nil
    with Cons.prems(2) have "take (length d) (x # s) = d" by simp
    then show ?thesis by (simp del: take.simps)
  next
    case (Cons y a'')
    with Cons.prems have "s = a'' @ d @ b'" by simp
    with Cons.IH [OF Cons.prems(1) this] show ?thesis using Cons by (auto simp del: take.simps)
  qed
qed simp

lemma cut_first_law: "split_law cut_first"
  unfolding split_law_def
proof (intro allI impI)
  fix s d :: bytes
  assume d: "d \<noteq> []"
  show "case cut_first s d of
      None \<Rightarrow> (\<nexists>a b. s = a @ d @ b)
    | Some (a, b) \<Rightarrow> s = a @ d @ b \<and> (\<forall>a' b'. s = a' @ d @ b' \<longrightarrow> length a \<le> length a')"
  proof (cases "cut_first s d")
    case None
    then show ?thesis using cut_first_least [OF d, of s] by fastforce
  next
    case (Some r)
    then show ?thesis using cut_first_least [OF d, of s] cut_first_Some [of s d] by (cases r) fastforce
  qed
qed

text \<open>A listing of finite maps for the examples: in the order of the keys.\<close>

definition sorted_listing :: "(bytes \<rightharpoonup> bytes) \<Rightarrow> (bytes \<times> bytes) list" where
  "sorted_listing m = map (\<lambda>k. (k, the (m k))) (sorted_list_of_set (dom m))"

definition sample_env :: uri_env where
  "sample_env =
     \<lparr>lib_split = cut_first, lib_to_int = (\<lambda>s. if digit_string s \<and> s \<noteq> [] then Some (int (dec_value s)) else None),
      lib_insert = (\<lambda>_. True), lib_entries = sorted_listing, lib_null_cstr = None, lib_alloc = (\<lambda>_. True)\<rparr>"

theorem parse_url_path_spec_witness:
  "parse_url_path sample_env (lit ''/f?a=1&b#x'') =
     Some (Ok \<lparr>up_path = Some (lit ''/f''), up_search_path = [lit ''b'' \<mapsto> [], lit ''a'' \<mapsto> lit ''1''],
               up_fragment = Some (lit ''x'')\<rparr>) \<and>
   parse_url_path sample_env (lit ''/f?a=1&a=2'') = Some (Undef ProcessExit)"
proof -
  have env: "split_law (lib_split sample_env)" "\<forall>k. lib_insert sample_env k"
    by (simp_all add: sample_env_def cut_first_law)
  have "url_parts (lit ''/f?a=1&b#x'') = (lit ''/f'', lit ''a=1&b'', lit ''x'')"
    "query_pairs (lit ''a=1&b'') = [(lit ''a'', lit ''1''), (lit ''b'', [])]"
    "url_parts (lit ''/f?a=1&a=2'') = (lit ''/f'', lit ''a=1&a=2'', [])"
    "query_pairs (lit ''a=1&a=2'') = [(lit ''a'', lit ''1''), (lit ''a'', lit ''2'')]"
    "lit ''a'' \<noteq> lit ''b''"
    by code_simp+
  then show ?thesis
    using parse_url_path_spec [OF env, of "lit ''/f?a=1&b#x''"] parse_url_path_spec [OF env, of "lit ''/f?a=1&a=2''"]
    by simp
qed

section \<open>What the printer writes\<close>

lemma append_ignored_holds:
  assumes "builder_holds sb t" "length (t @ x) < 2 ^ 64 - 1" "0 \<notin> set x" "\<forall>n. lib_alloc env n"
  shows "\<exists>sb'. append_ignored env sb x = Ok sb' \<and> builder_holds sb' (t @ x)"
  using append_impl_holds [OF assms(1) _ assms(4), of x] assms(2,3)
  by (auto simp: append_ignored_def string_builder_append_single_def)

definition arg_text :: "bytes \<times> bytes \<Rightarrow> bytes" where
  "arg_text kv = fst kv @ (if snd kv = [] then [] else lit ''='' @ snd kv)"

definition url_text :: "bytes \<Rightarrow> (bytes \<times> bytes) list \<Rightarrow> bytes" where
  "url_text path kvs = path @ (if kvs = [] then [] else lit ''?'' @ concat (map arg_text kvs))"

definition authority_text :: "bytes \<Rightarrow> u16 \<Rightarrow> bytes" where
  "authority_text host port = host @ (if port = 0 then [] else lit '':'' @ print_nat (unat port))"

definition nul_free :: "bytes \<Rightarrow> bool" where
  "nul_free s \<longleftrightarrow> 0 \<notin> set s"

lemma nul_free_simps [simp]:
  "nul_free []" "nul_free (x @ y) \<longleftrightarrow> nul_free x \<and> nul_free y" "nul_free (c # s) \<longleftrightarrow> c \<noteq> 0 \<and> nul_free s"
  "nul_free (concat xs) \<longleftrightarrow> (\<forall>x \<in> set xs. nul_free x)"
  by (auto simp: nul_free_def)

lemma nul_free_lit [simp]:
  "nul_free (lit ''?'')" "nul_free (lit ''='')" "nul_free (lit '':'')" "nul_free (lit ''://'')" "nul_free (lit ''/'')"
  by code_simp+

lemma put_step:
  assumes "builder_holds sb t" "nul_free x" "length (t @ x @ y) < 2 ^ 64 - 1" "\<forall>n. lib_alloc env n"
    and "\<And>sb'. builder_holds sb' (t @ x) \<Longrightarrow> \<exists>sb''. f sb' = Ok sb'' \<and> builder_holds sb'' ((t @ x) @ y)"
  shows "\<exists>sb''. rbind (append_ignored env sb x) f = Ok sb'' \<and> builder_holds sb'' (t @ x @ y)"
  using append_ignored_holds [OF assms(1) _ _ assms(4), of x] assms(2,3,5) by (fastforce simp: nul_free_def)

lemma print_search_loop_holds:
  assumes "\<forall>n. lib_alloc env n"
  shows "builder_holds sb t \<Longrightarrow> \<forall>kv \<in> set kvs. nul_free (arg_text kv) \<Longrightarrow>
    length (t @ concat (map arg_text kvs)) < 2 ^ 64 - 1 \<Longrightarrow>
    \<exists>sb'. print_search_loop env True sb kvs = Ok sb' \<and> builder_holds sb' (t @ concat (map arg_text kvs))"
proof (induction kvs arbitrary: sb t)
  case (Cons kv kvs)
  obtain k v where kv: "kv = (k, v)" by (cases kv)
  let ?rest = "concat (map arg_text kvs)"
  have key: "\<exists>sb1. append_ignored env sb k = Ok sb1 \<and> builder_holds sb1 (t @ k)"
    using append_ignored_holds [OF Cons.prems(1) _ _ assms, of k] Cons.prems(2,3)
    by (auto simp: kv arg_text_def nul_free_def)
  then obtain sb1 where sb1: "append_ignored env sb k = Ok sb1" "builder_holds sb1 (t @ k)" by blast
  have "\<exists>sb2. (if length v \<noteq> 0 then rbind (append_ignored env sb1 (lit ''='')) (\<lambda>sb3. append_ignored env sb3 v)
      else Ok sb1) = Ok sb2 \<and> builder_holds sb2 (t @ arg_text kv)"
  proof (cases "v = []")
    case False
    then have len: "length ((t @ k) @ lit ''='' @ v) < 2 ^ 64 - 1" and nul: "nul_free v"
      using Cons.prems(2,3) by (auto simp: kv arg_text_def)
    have "\<exists>sb3. append_ignored env sb' v = Ok sb3 \<and> builder_holds sb3 (((t @ k) @ lit ''='') @ v)"
      if "builder_holds sb' ((t @ k) @ lit ''='')" for sb'
      using append_ignored_holds [OF that _ _ assms, of v] len nul by (simp add: nul_free_def)
    from put_step [OF sb1(2) _ len assms this] False show ?thesis by (simp add: kv arg_text_def)
  qed (use sb1 in \<open>simp add: kv arg_text_def\<close>)
  then obtain sb2 where sb2: "(if length v \<noteq> 0 then rbind (append_ignored env sb1 (lit ''='')) (\<lambda>sb3. append_ignored env sb3 v)
      else Ok sb1) = Ok sb2" "builder_holds sb2 (t @ arg_text kv)" by blast
  have "print_search_loop env True sb (kv # kvs) = print_search_loop env True sb2 kvs"
    using sb1(1) sb2(1) by (simp add: kv del: length_0_conv length_greater_0_conv)
  with Cons.IH [OF sb2(2)] Cons.prems(2,3) show ?case by simp
qed simp

lemma init_holds: "\<forall>n. lib_alloc env n \<Longrightarrow> builder_holds (string_builder_init (lib_alloc env)) []"
  by (simp add: builder_init_holds)

lemma print_url:
  assumes "\<forall>n. lib_alloc env n" "lib_entries env (up_search_path p) = kvs" "up_path p = Some path"
    and "nul_free (url_text path kvs)" "length (url_text path kvs) < 2 ^ 64 - 1"
  shows "get_parsed_url_as_string env p = Ok (url_text path kvs)"
proof -
  let ?init = "string_builder_init (lib_alloc env)"
  obtain sb where sb: "append_ignored env ?init path = Ok sb" "builder_holds sb path"
    using append_ignored_holds [OF init_holds [OF assms(1)] _ _ assms(1), of path] assms(4,5)
    by (auto simp: url_text_def nul_free_def)
  have "\<exists>sb'. (if kvs \<noteq> [] then rbind (append_ignored env sb (lit ''?'')) (\<lambda>sb'. print_search_loop env True sb' kvs)
      else Ok sb) = Ok sb' \<and> builder_holds sb' (url_text path kvs)"
  proof (cases "kvs = []")
    case False
    then have len: "length (path @ lit ''?'' @ concat (map arg_text kvs)) < 2 ^ 64 - 1"
      and nul: "\<forall>kv \<in> set kvs. nul_free (arg_text kv)"
      using assms(4,5) by (auto simp: url_text_def)
    have "\<exists>sb''. print_search_loop env True sb' kvs = Ok sb'' \<and>
        builder_holds sb'' ((path @ lit ''?'') @ concat (map arg_text kvs))"
      if "builder_holds sb' (path @ lit ''?'')" for sb'
      using print_search_loop_holds [OF assms(1) that nul] len by simp
    from put_step [OF sb(2) _ len assms(1) this] False show ?thesis by (simp add: url_text_def)
  qed (use sb in \<open>simp add: url_text_def\<close>)
  with sb(1) show ?thesis
    using builder.release_law by (auto simp: get_parsed_url_as_string_def assms(2,3) tstr_cstr_def)
qed

lemma print_authority:
  assumes "\<forall>n. lib_alloc env n" "pa_user_info a = \<lparr>ui_username = None, ui_password = None\<rparr>" "pa_host a = Some host"
    and "nul_free (authority_text host (pa_port a))" "length (authority_text host (pa_port a)) < 2 ^ 64 - 1"
  shows "get_parsed_authority_as_string env a = Ok (authority_text host (pa_port a))"
proof -
  let ?init = "string_builder_init (lib_alloc env)"
  obtain sb where sb: "append_ignored env ?init host = Ok sb" "builder_holds sb host"
    using append_ignored_holds [OF init_holds [OF assms(1)] _ _ assms(1), of host] assms(4,5)
    by (auto simp: authority_text_def nul_free_def)
  have "\<exists>sb'. (if pa_port a \<noteq> 0 then append_ignored env sb (lit '':'' @ print_nat (unat (pa_port a))) else Ok sb) = Ok sb' \<and>
      builder_holds sb' (authority_text host (pa_port a))"
    using append_ignored_holds [OF sb(2) _ _ assms(1), of "lit '':'' @ print_nat (unat (pa_port a))"] assms(4,5) sb(2)
    by (auto simp: authority_text_def nul_free_def)
  with sb(1) show ?thesis
    using builder.release_law by (auto simp: get_parsed_authority_as_string_def assms(2,3) tstr_cstr_def Let_def)
qed

lemma print_uri:
  assumes "\<forall>n. lib_alloc env n" "pu_scheme u = Some scheme" "pa_host (pu_authority u) = Some host"
    and "get_parsed_authority_as_string env (pu_authority u) = Ok auth" "get_parsed_url_as_string env (pu_path u) = Ok url"
    and "nul_free (scheme @ auth @ url)" "length (scheme @ lit ''://'' @ auth @ url) < 2 ^ 64 - 1"
  shows "get_uri_as_string env u = Ok (scheme @ lit ''://'' @ auth @ url)"
proof -
  note put = append_ignored_holds [OF _ _ _ assms(1), unfolded nul_free_def [symmetric]]
  obtain sb1 where sb1: "append_ignored env (string_builder_init (lib_alloc env)) scheme = Ok sb1" "builder_holds sb1 scheme"
    using put [OF init_holds [OF assms(1)], of scheme] assms(6,7) by auto
  obtain sb2 where sb2: "append_ignored env sb1 (lit ''://'') = Ok sb2" "builder_holds sb2 (scheme @ lit ''://'')"
    using put [OF sb1(2), of "lit ''://''"] assms(6,7) by auto
  obtain sb3 where sb3: "append_ignored env sb2 auth = Ok sb3" "builder_holds sb3 ((scheme @ lit ''://'') @ auth)"
    using put [OF sb2(2), of auth] assms(6,7) by auto
  obtain sb4 where sb4: "append_ignored env sb3 url = Ok sb4" "builder_holds sb4 (((scheme @ lit ''://'') @ auth) @ url)"
    using put [OF sb3(2), of url] assms(6,7) by auto
  show ?thesis
    using sb1 sb2 sb3 sb4 assms(2-5) builder.release_law [OF sb4(2)] by (simp add: get_uri_as_string_def tstr_cstr_def)
qed

section \<open>Reading back what was printed\<close>

abbreviation (input) char_in :: "char \<Rightarrow> bytes \<Rightarrow> bool" where
  "char_in c s \<equiv> of_char c \<in> set s"

definition arg_ok :: "bytes \<times> bytes \<Rightarrow> bool" where
  "arg_ok kv \<longleftrightarrow>
     kv \<noteq> ([], []) \<and> \<not> char_in (CHR ''&'') (fst kv) \<and> \<not> char_in (CHR ''='') (fst kv) \<and> \<not> char_in (CHR ''#'') (fst kv) \<and>
     \<not> char_in (CHR ''&'') (snd kv) \<and> \<not> char_in (CHR ''#'') (snd kv)"

definition path_ok :: "bytes \<Rightarrow> bool" where
  "path_ok path \<longleftrightarrow>
     path \<noteq> [] \<and> hd path = of_char (CHR ''/'') \<and> \<not> char_in (CHR ''?'') path \<and> \<not> char_in (CHR ''#'') path"

definition host_ok :: "bytes \<Rightarrow> bool" where
  "host_ok host \<longleftrightarrow>
     \<not> char_in (CHR ''@'') host \<and> \<not> char_in (CHR '':'') host \<and> \<not> char_in (CHR ''/'') host \<and>
     \<not> char_in (CHR ''?'') host \<and> \<not> char_in (CHR ''#'') host"

lemma arg_text_chars:
  assumes "arg_ok kv"
  shows "arg_text kv \<noteq> []" "\<not> char_in (CHR ''&'') (arg_text kv)" "\<not> char_in (CHR ''#'') (arg_text kv)"
  using assms by (cases kv; auto simp: arg_ok_def arg_text_def lit_def)+

lemma query_pairs_one:
  assumes "arg_ok (k, v)"
  shows "query_pairs (arg_text (k, v)) = [(k, v)]"
proof -
  let ?t = "arg_text (k, v)"
  have "query_args ?t = [?t]"
    using arg_text_chars [OF assms] before_behind_none [of "of_char (CHR ''&'')" ?t]
    by (subst query_args.simps) (simp add: query_args.simps [of "[]"])
  moreover have "before (of_char (CHR ''='')) ?t = k \<and> behind (of_char (CHR ''='')) ?t = v"
    using assms before_behind_none [of "of_char (CHR ''='')" k] before_behind_cut [of "of_char (CHR ''='')" k v]
    by (auto simp: arg_text_def arg_ok_def lit_def)
  ultimately show ?thesis unfolding query_pairs_def by simp
qed

lemma parse_url_text:
  assumes "split_law (lib_split env)" "\<forall>k. lib_insert env k" "path_ok path" "list_all arg_ok kvs" "length kvs \<le> 1"
  shows "parse_url_path env (url_text path kvs) =
    Some (Ok \<lparr>up_path = Some path, up_search_path = map_of kvs, up_fragment = Some []\<rparr>)"
proof (cases kvs)
  case Nil
  have "url_parts path = (path, [], [])"
    using assms(3) before_behind_none [of "of_char (CHR ''#'')" path] unfolding url_parts_def path_ok_def by simp
  then show ?thesis
    using parse_url_path_spec_lib [OF assms(1,2), of path]
    by (simp add: Nil url_text_def query_pairs_def query_args.simps [of "[]"])
next
  case (Cons kv rest)
  with assms(4,5) obtain k v where kv: "kvs = [(k, v)]" "arg_ok (k, v)" by (cases kv) auto
  let ?q = "arg_text (k, v)"
  have q: "\<not> char_in (CHR ''#'') ?q" using arg_text_chars [OF kv(2)] by simp
  have "url_text path kvs = path @ of_char (CHR ''?'') # ?q"
    unfolding kv url_text_def lit_single by simp
  moreover have "url_parts (path @ of_char (CHR ''?'') # ?q) = (path, ?q, [])"
    using assms(3) q before_behind_none [OF q] before_behind_cut [of "of_char (CHR ''?'')" path ?q]
    unfolding url_parts_def path_ok_def by simp
  ultimately show ?thesis
    using parse_url_path_spec_lib [OF assms(1,2), of "path @ of_char (CHR ''?'') # ?q"] query_pairs_one [OF kv(2)]
    by (simp add: kv)
qed

lemma find_authority_host:
  assumes "host_ok host" "rest \<noteq> [] \<Longrightarrow> hd rest = of_char (CHR ''/'')"
  shows "find_authority_split (host @ rest) = (host, rest)"
  using assms(1)
proof (induction host)
  case Nil
  show ?case using assms(2) by (cases rest) simp_all
qed (simp add: host_ok_def)

lemma digits_host_ok: "host_ok (print_nat n)"
proof -
  have "c \<notin> set (print_nat n)" if "\<not> (48 \<le> c \<and> c \<le> 57)" for c
    using print_nat_digits [of n] that by (auto simp: digit_string_def)
  then show ?thesis by (simp add: host_ok_def)
qed

lemma parse_authority_text:
  assumes "split_law (lib_split env)" "to_int_law (lib_to_int env)" "host_ok host"
    and "url \<noteq> []" "hd url = of_char (CHR ''/'')" "\<not> char_in (CHR ''@'') url" "port = 0 \<Longrightarrow> \<not> char_in (CHR '':'') url"
  shows "parse_authority env (authority_text host port @ url) =
    Some (\<lparr>pa_user_info = \<lparr>ui_username = None, ui_password = None\<rparr>, pa_host = Some host, pa_port = port\<rparr>, url)"
proof -
  let ?s = "authority_text host port @ url"
  note split = split_char [OF assms(1)]
  have at: "lib_split env ?s (lit ''@'') = None"
    using assms(3,6) digits_host_ok [of "unat port"] unfolding lit_single split
    by (auto simp: authority_text_def host_ok_def lit_def)
  show ?thesis
  proof (cases "port = 0")
    case True
    have "lib_split env ?s (lit '':'') = None"
      using assms(3,7) True unfolding lit_single split by (auto simp: authority_text_def host_ok_def)
    moreover have "find_authority_split ?s = (host, url)"
      using find_authority_host [OF assms(3), of url] assms(5) True by (simp add: authority_text_def)
    ultimately show ?thesis using at True by (simp add: parse_authority_def)
  next
    case False
    let ?n = "unat port"
    have s: "?s = host @ of_char (CHR '':'') # (print_nat ?n @ url)"
      using False by (simp add: authority_text_def lit_def)
    have colon: "lib_split env ?s (lit '':'') = Some (host, print_nat ?n @ url)"
      using assms(3) unfolding lit_single split s by (simp add: host_ok_def)
    have "?n < 2 ^ 16" "uint port < 2 ^ 16" by (rule order.strict_trans2 [OF unsigned_less], simp)+
    then have "parse_u16 env (print_nat ?n) = Some port"
      using assms(2) by (simp add: parse_u16_def to_int_law_def)
    moreover have "find_authority_split (print_nat ?n @ url) = (print_nat ?n, url)"
      using find_authority_host [OF digits_host_ok] assms(5) by simp
    ultimately show ?thesis using at colon by (simp add: parse_authority_def)
  qed
qed

lemma split_scheme:
  assumes "split_law split" "\<not> char_in (CHR '':'') scheme"
  shows "split (scheme @ lit ''://'' @ rest) (lit ''://'') = Some (scheme, rest)"
proof (rule split_unique [OF assms(1)])
  fix a' b'
  assume eq: "scheme @ lit ''://'' @ rest = a' @ lit ''://'' @ b'"
  then have "scheme @ of_char (CHR '':'') # (lit ''//'' @ rest) = a' @ of_char (CHR '':'') # (lit ''//'' @ b')"
    by (simp add: lit_def)
  then show "length scheme \<le> length a'" by (rule first_occurrence [OF _ assms(2)])
qed (simp_all add: lit_def)

text \<open>
  The URIs the printer can express: no user information, at most one query argument, and no \<open>@\<close> behind
  the host; without a port also no colon, as the parser looks for both in the whole rest of the text.
\<close>

definition printable_uri :: "bytes \<Rightarrow> bytes \<Rightarrow> u16 \<Rightarrow> bytes \<Rightarrow> (bytes \<times> bytes) list \<Rightarrow> bool" where
  "printable_uri scheme host port path kvs \<longleftrightarrow>
     scheme \<noteq> [] \<and> hd scheme \<noteq> of_char (CHR ''/'') \<and> \<not> char_in (CHR '':'') scheme \<and>
     host_ok host \<and> path_ok path \<and> list_all arg_ok kvs \<and> length kvs \<le> 1 \<and>
     \<not> char_in (CHR ''@'') (url_text path kvs) \<and> (port = 0 \<longrightarrow> \<not> char_in (CHR '':'') (url_text path kvs)) \<and>
     nul_free (scheme @ authority_text host port @ url_text path kvs) \<and>
     length (scheme @ lit ''://'' @ authority_text host port @ url_text path kvs) < 2 ^ 64 - 1"

lemma parse_uri_text:
  assumes "split_law (lib_split env)" "to_int_law (lib_to_int env)" "\<forall>k. lib_insert env k"
    and "printable_uri scheme host port path kvs"
  shows "parse_request_uri env (scheme @ lit ''://'' @ authority_text host port @ url_text path kvs) =
    Some (Ok (ParsedURITypeAbsoluteURI
      \<lparr>pu_scheme = Some scheme,
       pu_authority = \<lparr>pa_user_info = \<lparr>ui_username = None, ui_password = None\<rparr>, pa_host = Some host, pa_port = port\<rparr>,
       pu_path = \<lparr>up_path = Some path, up_search_path = map_of kvs, up_fragment = Some []\<rparr>\<rparr>))"
proof -
  let ?rest = "authority_text host port @ url_text path kvs"
  have ok: "\<not> char_in (CHR '':'') scheme" "host_ok host" "path_ok path" "list_all arg_ok kvs" "length kvs \<le> 1"
    "\<not> char_in (CHR ''@'') (url_text path kvs)" "port = 0 \<Longrightarrow> \<not> char_in (CHR '':'') (url_text path kvs)"
    "scheme \<noteq> []" "hd scheme \<noteq> of_char (CHR ''/'')"
    using assms(4) unfolding printable_uri_def by blast+
  have url: "url_text path kvs \<noteq> []" "hd (url_text path kvs) = of_char (CHR ''/'')"
    using ok(3) by (auto simp: path_ok_def url_text_def)
  have "(scheme @ lit ''://'' @ ?rest) ! 0 \<noteq> of_char (CHR ''/'')" "scheme @ lit ''://'' @ ?rest \<noteq> lit ''*''"
    "scheme @ lit ''://'' @ ?rest \<noteq> []"
    using ok(8,9) by (cases scheme; simp add: lit_def)+
  then have "parse_request_uri env (scheme @ lit ''://'' @ ?rest) = parse_uri_or_authority env (scheme @ lit ''://'' @ ?rest)"
    unfolding parse_request_uri_def by (simp only: if_False)
  also have "\<dots> = Some (Ok (ParsedURITypeAbsoluteURI
      \<lparr>pu_scheme = Some scheme,
       pu_authority = \<lparr>pa_user_info = \<lparr>ui_username = None, ui_password = None\<rparr>, pa_host = Some host, pa_port = port\<rparr>,
       pu_path = \<lparr>up_path = Some path, up_search_path = map_of kvs, up_fragment = Some []\<rparr>\<rparr>))"
    using split_scheme [OF assms(1) ok(1), of ?rest] parse_authority_text [OF assms(1,2) ok(2) url ok(6,7)]
      parse_url_text [OF assms(1,3) ok(3,4,5)] url(1)
    by (simp add: parse_uri_or_authority_def)
  finally show ?thesis .
qed


lemma sorted_listing_law: "entries_law sorted_listing"
  unfolding entries_law_def
proof (intro allI impI)
  fix m :: "bytes \<rightharpoonup> bytes"
  assume fin: "finite (dom m)"
  have "map_of (sorted_listing m) = m"
    using fin by (auto simp: sorted_listing_def map_of_map_restrict restrict_map_def fun_eq_iff domIff)
  then show "map_of (sorted_listing m) = m \<and> distinct (map fst (sorted_listing m))"
    by (simp add: sorted_listing_def comp_def)
qed

lemma sample_env_laws:
  "split_law (lib_split sample_env)" "to_int_law (lib_to_int sample_env)" "entries_law (lib_entries sample_env)"
  "\<forall>k. lib_insert sample_env k" "\<forall>n. lib_alloc sample_env n"
  by (simp_all add: sample_env_def cut_first_law sorted_listing_law to_int_law_def print_nat_digits print_nat_value)


section \<open>Where parser and printer disagree\<close>

text \<open>
  Printing a path with two query arguments leaves out the separator: read back, the second argument
  is part of the first one's value, so the server never sees the same path again.
\<close>

theorem url_arguments_run_together:
  assumes "split_law (lib_split env)" "\<forall>k. lib_insert env k" "\<forall>n. lib_alloc env n"
    and "lib_entries env query = [(k1, v1), (k2, v2)]" "v1 \<noteq> []"
    and "path_ok path" "arg_ok (k1, v1)" "arg_ok (k2, v2)"
    and "nul_free (url_text path [(k1, v1), (k2, v2)])" "length (url_text path [(k1, v1), (k2, v2)]) < 2 ^ 64 - 1"
  shows "\<exists>str. get_parsed_url_as_string env \<lparr>up_path = Some path, up_search_path = query, up_fragment = fragment\<rparr> = Ok str \<and>
    parse_url_path env str =
      Some (Ok \<lparr>up_path = Some path, up_search_path = [k1 \<mapsto> v1 @ arg_text (k2, v2)], up_fragment = Some []\<rparr>)"
proof -
  let ?v = "v1 @ arg_text (k2, v2)"
  have "arg_ok (k1, ?v)"
    using assms(7,8) arg_text_chars [OF assms(8)] by (auto simp: arg_ok_def)
  then have "parse_url_path env (url_text path [(k1, ?v)]) =
      Some (Ok \<lparr>up_path = Some path, up_search_path = map_of [(k1, ?v)], up_fragment = Some []\<rparr>)"
    using parse_url_text [OF assms(1,2,6), of "[(k1, ?v)]"] by simp
  moreover have "url_text path [(k1, v1), (k2, v2)] = url_text path [(k1, ?v)]"
    using assms(5) by (simp add: url_text_def arg_text_def)
  ultimately show ?thesis
    using print_url [OF assms(3) _ _ assms(9,10),
        of "\<lparr>up_path = Some path, up_search_path = query, up_fragment = fragment\<rparr>"] assms(4)
    by simp
qed

theorem url_arguments_run_together_witness:
  "\<exists>str. get_parsed_url_as_string sample_env
      \<lparr>up_path = Some (lit ''/f''), up_search_path = [lit ''a'' \<mapsto> lit ''1'', lit ''b'' \<mapsto> lit ''2''], up_fragment = None\<rparr> = Ok str \<and>
    parse_url_path sample_env str =
      Some (Ok \<lparr>up_path = Some (lit ''/f''), up_search_path = [lit ''a'' \<mapsto> lit ''1b=2''], up_fragment = Some []\<rparr>)"
proof -
  have ab: "lit ''a'' < lit ''b''" "lit ''a'' \<noteq> lit ''b''" by code_simp+
  have entries: "lib_entries sample_env [lit ''a'' \<mapsto> lit ''1'', lit ''b'' \<mapsto> lit ''2''] =
      [(lit ''a'', lit ''1''), (lit ''b'', lit ''2'')]"
    using ab by (simp add: sample_env_def sorted_listing_def)
  have join: "lit ''1'' @ arg_text (lit ''b'', lit ''2'') = lit ''1b=2''" by code_simp
  have "lit ''1'' \<noteq> []" "path_ok (lit ''/f'')" "arg_ok (lit ''a'', lit ''1'')" "arg_ok (lit ''b'', lit ''2'')"
    "nul_free (url_text (lit ''/f'') [(lit ''a'', lit ''1''), (lit ''b'', lit ''2'')])"
    "length (url_text (lit ''/f'') [(lit ''a'', lit ''1''), (lit ''b'', lit ''2'')]) < 2 ^ 64 - 1"
    by (simp_all add: path_ok_def arg_ok_def url_text_def arg_text_def lit_def)
  from url_arguments_run_together [OF sample_env_laws(1,4,5) entries this, of None] show ?thesis unfolding join .
qed

text \<open>
  An \<open>@\<close> in the path moves the authority: for \<open>http://host/path@rest\<close> the parser takes \<open>host/path\<close>
  as the user name and \<open>rest\<close> as the host, against the rule quoted in the source that a slash ends the
  authority.
\<close>

theorem authority_reaches_into_path:
  assumes "split_law (lib_split env)" "\<not> char_in (CHR '':'') scheme" "scheme \<noteq> []" "hd scheme \<noteq> of_char (CHR ''/'')"
    and "host_ok host" "\<not> char_in (CHR '':'') path" "\<not> char_in (CHR ''@'') path" "host_ok rest"
  shows "parse_request_uri env (scheme @ lit ''://'' @ host @ lit ''/'' @ path @ lit ''@'' @ rest) =
    Some (Ok (ParsedURITypeAbsoluteURI
      \<lparr>pu_scheme = Some scheme,
       pu_authority = \<lparr>pa_user_info = \<lparr>ui_username = Some (host @ lit ''/'' @ path), ui_password = None\<rparr>,
                       pa_host = Some rest, pa_port = 0\<rparr>,
       pu_path = root_path\<rparr>))"
proof -
  let ?user = "host @ lit ''/'' @ path" and ?s = "host @ lit ''/'' @ path @ lit ''@'' @ rest"
  note split = split_char [OF assms(1)]
  have s: "?s = ?user @ of_char (CHR ''@'') # rest" by (simp add: lit_def)
  have "lib_split env ?s (lit ''@'') = Some (?user, rest)"
    using assms(5,7) before_behind_cut [of "of_char (CHR ''@'')" ?user rest]
    unfolding lit_single split s by (simp add: host_ok_def)
  moreover have "lib_split env ?user (lit '':'') = None" "lib_split env rest (lit '':'') = None"
    using assms(5,6,8) unfolding lit_single split by (simp_all add: host_ok_def)
  moreover have "find_authority_split rest = (rest, [])"
    using find_authority_host [OF assms(8), of "[]"] by simp
  ultimately have "parse_authority env ?s = Some (\<lparr>pa_user_info = \<lparr>ui_username = Some ?user, ui_password = None\<rparr>,
      pa_host = Some rest, pa_port = 0\<rparr>, [])"
    by (simp add: parse_authority_def parse_user_info_def)
  then have "parse_uri_or_authority env (scheme @ lit ''://'' @ ?s) = Some (Ok (ParsedURITypeAbsoluteURI
      \<lparr>pu_scheme = Some scheme, pu_authority = \<lparr>pa_user_info = \<lparr>ui_username = Some ?user, ui_password = None\<rparr>,
       pa_host = Some rest, pa_port = 0\<rparr>, pu_path = root_path\<rparr>))"
    using split_scheme [OF assms(1,2), of ?s] by (simp add: parse_uri_or_authority_def)
  moreover have "(scheme @ lit ''://'' @ ?s) ! 0 \<noteq> of_char (CHR ''/'')" "scheme @ lit ''://'' @ ?s \<noteq> lit ''*''"
    "scheme @ lit ''://'' @ ?s \<noteq> []"
    using assms(3,4) by (cases scheme; simp add: lit_def)+
  ultimately show ?thesis unfolding parse_request_uri_def by (simp only: if_False)
qed

theorem authority_reaches_into_path_witness:
  "\<exists>uri. parse_request_uri sample_env (lit ''http://good.org/a@evil.org'') = Some (Ok (ParsedURITypeAbsoluteURI uri)) \<and>
     pa_host (pu_authority uri) = Some (lit ''evil.org'')"
proof -
  have "\<not> char_in (CHR '':'') (lit ''http'')" "lit ''http'' \<noteq> []" "hd (lit ''http'') \<noteq> of_char (CHR ''/'')"
    "host_ok (lit ''good.org'')" "\<not> char_in (CHR '':'') (lit ''a'')" "\<not> char_in (CHR ''@'') (lit ''a'')"
    "host_ok (lit ''evil.org'')"
    by code_simp+
  from authority_reaches_into_path [OF sample_env_laws(1) this] show ?thesis by (simp add: lit_def)
qed

end
