(* ===== verification/Authentication.thy ===== *)
theory Authentication
  imports Uri
begin

text \<open>
  Users and passwords (\<open>src/src/generic/authentication.c\<close>, the password part of \<open>src/src/generic/hash.c\<close>), in the build
  with bcrypt and PAM on Linux.

  The bcrypt library, PAM and the user database of the system are fields of the parameter \<open>auth_env\<close>. \<open>bcrypt_law\<close> and
  \<open>grouplist_law\<close> state their documented behaviour.

  The theorems: the choice among the answers of several providers, the login of a user that was added, and the role
  that the number of groups gives to a user of the system.
\<close>

section \<open>Data\<close>

datatype UserRole = UserRoleNone | UserRoleAdmin | UserRoleUser

datatype AuthenticationProviderType = AuthenticationProviderTypeSimple | AuthenticationProviderTypeSystem

record AuthUser =
  au_username :: bytes
  au_role :: UserRole

record AuthUserWithContext =
  ac_user :: AuthUser
  ac_provider_type :: AuthenticationProviderType

record HashSaltSettings =
  hs_work_factor :: nat
  hs_use_sha512 :: bool

text \<open>A hash that could not be computed is stored as NULL.\<close>

record SimpleAccountEntry =
  sa_hash_salted_password :: "bytes option"
  sa_role :: UserRole

record SimpleAuthenticationProviderData =
  sp_entries :: "bytes \<rightharpoonup> SimpleAccountEntry"
  sp_settings :: HashSaltSettings

datatype AuthenticationProvider =
    AuthenticationProviderSimple SimpleAuthenticationProviderData | AuthenticationProviderSystem

datatype AuthenticationFindResult =
    AuthenticationFindResultNoSuchUser | AuthenticationFindResultWrongPassword
  | AuthenticationFindResultOk AuthUserWithContext | AuthenticationFindResultError string

datatype 'a sys_lookup = SysFound 'a | SysNone | SysRange | SysFailed

datatype pam_result = PAM_SUCCESS | PAM_USER_UNKNOWN | PAM_OTHER

text \<open>
  \<open>sys_getpwnam name size\<close> is the group of a user, \<open>sys_getgrgid gid size\<close> the name of a group, both through a buffer of
  \<open>size\<close> bytes; \<open>sys_getgrouplist name gid n\<close> is the result, the groups and the new count of a call with room for \<open>n\<close> groups.
\<close>

record auth_env =
  bcrypt_gensalt :: "nat \<Rightarrow> bytes option"
  bcrypt_hashpw :: "bytes \<Rightarrow> bytes \<Rightarrow> bytes option"
  bcrypt_checkpw :: "bytes \<Rightarrow> bytes \<Rightarrow> int"
  bcrypt_sha512 :: "bytes \<Rightarrow> bytes option"
  bcrypt_512bits_base64_size :: nat
  bcrypt_default_work_factor :: nat
  sys_getpwnam :: "bytes \<Rightarrow> nat \<Rightarrow> nat sys_lookup"
  sys_getgrgid :: "nat \<Rightarrow> nat \<Rightarrow> bytes sys_lookup"
  sys_getgrouplist :: "bytes \<Rightarrow> nat \<Rightarrow> nat \<Rightarrow> int \<times> nat list \<times> int"
  sys_pw_size :: int
  sys_gr_size :: int
  pam_start :: "bytes \<Rightarrow> bool"
  pam_authenticate :: "bytes \<Rightarrow> bytes \<Rightarrow> pam_result"
  pam_end :: bool
  au_alloc :: "nat \<Rightarrow> bool"
  au_push :: "nat \<Rightarrow> bool"
  au_insert :: "bytes \<Rightarrow> bool"
  au_ndebug :: bool

fun get_name_for_auth_provider_type :: "AuthenticationProviderType \<Rightarrow> string" where
  "get_name_for_auth_provider_type AuthenticationProviderTypeSimple = ''simple authentication provider''"
| "get_name_for_auth_provider_type AuthenticationProviderTypeSystem = ''system authentication provider''"

fun get_name_for_user_role :: "UserRole \<Rightarrow> string" where
  "get_name_for_user_role UserRoleNone = ''None''"
| "get_name_for_user_role UserRoleAdmin = ''Admin''"
| "get_name_for_user_role UserRoleUser = ''User''"

section \<open>Password hashes\<close>

text \<open>The digest is copied with a NUL behind it, so it is a C string of at most its size.\<close>

definition digest_string :: "auth_env \<Rightarrow> bytes \<Rightarrow> bytes option" where
  "digest_string env s =
     map_option (\<lambda>digest. c_string (take (bcrypt_512bits_base64_size env) digest)) (bcrypt_sha512 env s)"

definition hash_salt_string_impl :: "auth_env \<Rightarrow> HashSaltSettings \<Rightarrow> bytes \<Rightarrow> bytes option" where
  "hash_salt_string_impl env settings s =
     (case bcrypt_gensalt env (hs_work_factor settings) of
        None \<Rightarrow> None
      | Some salt \<Rightarrow>
          (case bcrypt_hashpw env s salt of
             None \<Rightarrow> None
           | Some hash \<Rightarrow> (if au_alloc env 1 then Some hash else None)))"

definition hash_salt_string_sha512_impl :: "auth_env \<Rightarrow> HashSaltSettings \<Rightarrow> bytes \<Rightarrow> bytes option" where
  "hash_salt_string_sha512_impl env settings s =
     (case digest_string env s of None \<Rightarrow> None | Some new_string \<Rightarrow> hash_salt_string_impl env settings new_string)"

definition hash_salt_string :: "auth_env \<Rightarrow> HashSaltSettings \<Rightarrow> bytes \<Rightarrow> bytes option" where
  "hash_salt_string env settings s =
     (if hs_use_sha512 settings then hash_salt_string_sha512_impl env settings s else hash_salt_string_impl env settings s)"

definition is_string_equal_to_hash_salted_string_impl :: "auth_env \<Rightarrow> bytes \<Rightarrow> bytes option \<Rightarrow> (unit, bool) res" where
  "is_string_equal_to_hash_salted_string_impl env s hash =
     (case hash of None \<Rightarrow> Undef OutOfBounds | Some h \<Rightarrow> Ok (bcrypt_checkpw env s h = 0))"

definition is_string_equal_to_hash_salted_string_sha512_impl :: "auth_env \<Rightarrow> bytes \<Rightarrow> bytes option \<Rightarrow> (unit, bool) res" where
  "is_string_equal_to_hash_salted_string_sha512_impl env s hash =
     (case digest_string env s of
        None \<Rightarrow> Ok False
      | Some new_string \<Rightarrow> is_string_equal_to_hash_salted_string_impl env new_string hash)"

definition is_string_equal_to_hash_salted_string ::
  "auth_env \<Rightarrow> HashSaltSettings \<Rightarrow> bytes \<Rightarrow> bytes option \<Rightarrow> (unit, bool) res" where
  "is_string_equal_to_hash_salted_string env settings s hash =
     (if hs_use_sha512 settings then is_string_equal_to_hash_salted_string_sha512_impl env s hash
      else is_string_equal_to_hash_salted_string_impl env s hash)"

section \<open>The simple provider\<close>

definition initialize_authentication_providers :: "auth_env \<Rightarrow> AuthenticationProvider list option" where
  "initialize_authentication_providers env = (if au_alloc env 1 then Some [] else None)"

definition initialize_simple_authentication_provider :: "auth_env \<Rightarrow> AuthenticationProvider option" where
  "initialize_simple_authentication_provider env =
     (if au_alloc env 1 then
        Some (AuthenticationProviderSimple
          \<lparr>sp_entries = Map.empty, sp_settings = \<lparr>hs_work_factor = bcrypt_default_work_factor env, hs_use_sha512 = True\<rparr>\<rparr>)
      else None)"

definition initialize_system_authentication_provider :: "auth_env \<Rightarrow> AuthenticationProvider option" where
  "initialize_system_authentication_provider env = (if au_alloc env 1 then Some AuthenticationProviderSystem else None)"

definition add_authentication_provider ::
  "auth_env \<Rightarrow> AuthenticationProvider list \<Rightarrow> AuthenticationProvider option \<Rightarrow> bool \<times> AuthenticationProvider list" where
  "add_authentication_provider env auth_providers provider =
     (case provider of
        None \<Rightarrow> (False, auth_providers)
      | Some p \<Rightarrow> (if au_push env (length auth_providers) then (True, auth_providers @ [p]) else (False, auth_providers)))"

text \<open>\<open>TMAP_INSERT\<close> with \<open>false\<close> does not replace an entry.\<close>

definition add_user_to_simple_authentication_provider_data_password_hash_salted ::
  "auth_env \<Rightarrow> AuthenticationProvider \<Rightarrow> bytes \<Rightarrow> bytes option \<Rightarrow> UserRole \<Rightarrow> bool \<times> AuthenticationProvider" where
  "add_user_to_simple_authentication_provider_data_password_hash_salted env provider username hash role =
     (case provider of
        AuthenticationProviderSystem \<Rightarrow> (False, provider)
      | AuthenticationProviderSimple data \<Rightarrow>
          (if username \<in> dom (sp_entries data) \<or> \<not> au_insert env username then (False, provider)
           else (True, AuthenticationProviderSimple
                   (data\<lparr>sp_entries := (sp_entries data)(username \<mapsto>
                      \<lparr>sa_hash_salted_password = hash, sa_role = role\<rparr>)\<rparr>))))"

definition add_user_to_simple_authentication_provider_data_password_raw ::
  "auth_env \<Rightarrow> AuthenticationProvider \<Rightarrow> bytes \<Rightarrow> bytes \<Rightarrow> UserRole \<Rightarrow> bool \<times> AuthenticationProvider" where
  "add_user_to_simple_authentication_provider_data_password_raw env provider username password role =
     (case provider of
        AuthenticationProviderSystem \<Rightarrow> (False, provider)
      | AuthenticationProviderSimple data \<Rightarrow>
          add_user_to_simple_authentication_provider_data_password_hash_salted env provider username
            (hash_salt_string env (sp_settings data) (c_string password)) role)"

definition find_user_by_name_simple :: "SimpleAuthenticationProviderData \<Rightarrow> bytes \<Rightarrow> (bytes \<times> SimpleAccountEntry) option" where
  "find_user_by_name_simple data username = map_option (Pair username) (sp_entries data username)"

definition authentication_provider_simple_find_user_with_password ::
  "auth_env \<Rightarrow> AuthenticationProvider \<Rightarrow> bytes \<Rightarrow> bytes \<Rightarrow> (unit, AuthenticationFindResult) res" where
  "authentication_provider_simple_find_user_with_password env provider username password =
     (case provider of
        AuthenticationProviderSystem \<Rightarrow> Ok (AuthenticationFindResultError ''Implementation error'')
      | AuthenticationProviderSimple data \<Rightarrow>
          (case find_user_by_name_simple data username of
             None \<Rightarrow> Ok AuthenticationFindResultNoSuchUser
           | Some (key, entry) \<Rightarrow>
               rbind (is_string_equal_to_hash_salted_string env (sp_settings data) (c_string password)
                        (sa_hash_salted_password entry)) (\<lambda>is_valid_pw.
               if \<not> is_valid_pw then Ok AuthenticationFindResultWrongPassword
               else Ok (AuthenticationFindResultOk
                      \<lparr>ac_user = \<lparr>au_username = key, au_role = sa_role entry\<rparr>,
                       ac_provider_type = AuthenticationProviderTypeSimple\<rparr>))))"

section \<open>Users of the system\<close>

datatype LinuxUserResponse = LinuxUserResponseError | LinuxUserResponseOk nat | LinuxUserResponseNoSuchUser

text \<open>Both lookups double their buffer until it is large enough, which need not end.\<close>

partial_function (option) lookup_loop :: "(nat \<Rightarrow> bool) \<Rightarrow> (nat \<Rightarrow> 'a sys_lookup) \<Rightarrow> nat \<Rightarrow> 'a sys_lookup option" where
  "lookup_loop alloc lookup n =
     (case lookup n of
        SysRange \<Rightarrow> (if \<not> alloc (n * 2 mod 2 ^ 64) then Some SysFailed else lookup_loop alloc lookup (n * 2 mod 2 ^ 64))
      | r \<Rightarrow> Some r)"

definition initial_size :: "int \<Rightarrow> nat" where
  "initial_size n = (if n < 0 then 0xFF else nat n)"

definition check_for_user_linux :: "auth_env \<Rightarrow> bytes \<Rightarrow> LinuxUserResponse option" where
  "check_for_user_linux env username =
     (if \<not> au_alloc env (initial_size (sys_pw_size env)) then Some LinuxUserResponseError
      else
        map_option (\<lambda>r. case r of
            SysFound group_id \<Rightarrow> LinuxUserResponseOk group_id
          | SysNone \<Rightarrow> LinuxUserResponseNoSuchUser
          | _ \<Rightarrow> LinuxUserResponseError)
          (lookup_loop (au_alloc env) (sys_getpwnam env username) (initial_size (sys_pw_size env))))"

definition get_group_name :: "auth_env \<Rightarrow> nat \<Rightarrow> bytes option option" where
  "get_group_name env group_id =
     (if \<not> au_alloc env (initial_size (sys_gr_size env)) then Some None
      else
        map_option (\<lambda>r. case r of
            SysFound name \<Rightarrow> if au_alloc env (length name + 1) then Some name else None
          | _ \<Rightarrow> None)
          (lookup_loop (au_alloc env) (sys_getgrgid env group_id) (initial_size (sys_gr_size env))))"

fun role_loop :: "auth_env \<Rightarrow> bytes \<Rightarrow> nat list \<Rightarrow> UserRole \<Rightarrow> UserRole option" where
  "role_loop env username [] role = Some role"
| "role_loop env username (g # gs) role =
     (case get_group_name env g of
        None \<Rightarrow> None
      | Some None \<Rightarrow> role_loop env username gs role
      | Some (Some name) \<Rightarrow>
          (if name = lit ''root'' \<or> name = lit ''sudo'' \<or> name = lit ''wheel'' then Some UserRoleAdmin
           else role_loop env username gs (if name = username then UserRoleUser else role)))"

text \<open>
  The second call of \<open>getgrouplist\<close> is given the number of groups where the group of the user belongs. Memory for the
  groups is not checked: without it the call writes to the null pointer.
\<close>

definition get_role_for_linux_user :: "auth_env \<Rightarrow> bytes \<Rightarrow> nat \<Rightarrow> (unit, UserRole) res option" where
  "get_role_for_linux_user env username group_id =
     (case sys_getgrouplist env username group_id 0 of (res, _, ngroups) \<Rightarrow>
      if res \<noteq> -1 then Some (Ok UserRoleNone)
      else if \<not> au_alloc env (4 * nat ngroups) then Some (Undef OutOfBounds)
      else
        (case sys_getgrouplist env username (nat ngroups) (nat ngroups) of (res2, group_ids, ngroups2) \<Rightarrow>
         if res2 < 0 \<or> ngroups2 < 0 then Some (Ok UserRoleNone)
         else map_option Ok (role_loop env username (take (nat ngroups2) group_ids) UserRoleNone)))"

datatype PamUserResponse = PamUserResponseError | PamUserResponseOk | PamUserResponseNoSuchUser

definition pam_is_user_password_combo_ok :: "auth_env \<Rightarrow> bytes \<Rightarrow> bytes \<Rightarrow> PamUserResponse" where
  "pam_is_user_password_combo_ok env username password =
     (if \<not> pam_start env username then PamUserResponseError
      else
        (let response =
           (case pam_authenticate env username password of
              PAM_SUCCESS \<Rightarrow> PamUserResponseOk | PAM_USER_UNKNOWN \<Rightarrow> PamUserResponseNoSuchUser
            | PAM_OTHER \<Rightarrow> PamUserResponseError) in
         if \<not> pam_end env then PamUserResponseError else response))"

definition authentication_provider_system_find_user_with_password_linux ::
  "auth_env \<Rightarrow> bytes \<Rightarrow> bytes \<Rightarrow> (unit, AuthenticationFindResult) res option" where
  "authentication_provider_system_find_user_with_password_linux env username password =
     (case check_for_user_linux env (c_string username) of
        None \<Rightarrow> None
      | Some LinuxUserResponseNoSuchUser \<Rightarrow> Some (Ok AuthenticationFindResultNoSuchUser)
      | Some LinuxUserResponseError \<Rightarrow> Some (Ok (AuthenticationFindResultError ''couldn't fetch user information''))
      | Some (LinuxUserResponseOk group_id) \<Rightarrow>
          (case pam_is_user_password_combo_ok env (c_string username) (c_string password) of
             PamUserResponseNoSuchUser \<Rightarrow> Some (Ok AuthenticationFindResultNoSuchUser)
           | PamUserResponseError \<Rightarrow> Some (Ok AuthenticationFindResultWrongPassword)
           | PamUserResponseOk \<Rightarrow>
               map_option (\<lambda>r. rbind r (\<lambda>role.
                   Ok (AuthenticationFindResultOk
                     \<lparr>ac_user = \<lparr>au_username = username, au_role = role\<rparr>,
                      ac_provider_type = AuthenticationProviderTypeSystem\<rparr>)))
                 (get_role_for_linux_user env (c_string username) group_id)))"

definition authentication_provider_system_find_user_with_password ::
  "auth_env \<Rightarrow> AuthenticationProvider \<Rightarrow> bytes \<Rightarrow> bytes \<Rightarrow> (unit, AuthenticationFindResult) res option" where
  "authentication_provider_system_find_user_with_password env provider username password =
     (case provider of
        AuthenticationProviderSimple _ \<Rightarrow> Some (Ok (AuthenticationFindResultError ''Implementation error''))
      | AuthenticationProviderSystem \<Rightarrow> authentication_provider_system_find_user_with_password_linux env username password)"

section \<open>All providers\<close>

fun get_result_value_for_auth_result :: "AuthenticationFindResult \<Rightarrow> int" where
  "get_result_value_for_auth_result AuthenticationFindResultNoSuchUser = 1"
| "get_result_value_for_auth_result AuthenticationFindResultWrongPassword = 2"
| "get_result_value_for_auth_result (AuthenticationFindResultOk _) = 3"
| "get_result_value_for_auth_result (AuthenticationFindResultError _) = 0"

definition compare_auth_results :: "AuthenticationFindResult \<Rightarrow> AuthenticationFindResult \<Rightarrow> int" where
  "compare_auth_results auth1 auth2 = get_result_value_for_auth_result auth1 - get_result_value_for_auth_result auth2"

definition provider_result ::
  "auth_env \<Rightarrow> AuthenticationProvider \<Rightarrow> bytes \<Rightarrow> bytes \<Rightarrow> (unit, AuthenticationFindResult) res option" where
  "provider_result env provider username password =
     (case provider of
        AuthenticationProviderSimple _ \<Rightarrow>
          Some (authentication_provider_simple_find_user_with_password env provider username password)
      | AuthenticationProviderSystem \<Rightarrow>
          authentication_provider_system_find_user_with_password env provider username password)"

text \<open>The loop over the providers ends with the first user that is found.\<close>

fun providers_loop ::
  "auth_env \<Rightarrow> bytes \<Rightarrow> bytes \<Rightarrow> AuthenticationProvider list \<Rightarrow> AuthenticationFindResult list
     \<Rightarrow> (unit, AuthUserWithContext + AuthenticationFindResult list) res option" where
  "providers_loop env username password [] results = Some (Ok (Inr results))"
| "providers_loop env username password (p # ps) results =
     (case provider_result env p username password of
        None \<Rightarrow> None
      | Some (Undef u) \<Rightarrow> Some (Undef u)
      | Some (Err e) \<Rightarrow> Some (Err e)
      | Some (Ok result) \<Rightarrow>
          (case result of
             AuthenticationFindResultOk user \<Rightarrow> Some (Ok (Inl user))
           | _ \<Rightarrow>
               (if au_push env (length results) then providers_loop env username password ps (results @ [result])
                else Some (Undef (if au_ndebug env then ProcessExit else AssertFailed)))))"

definition best_result :: "AuthenticationFindResult list \<Rightarrow> AuthenticationFindResult" where
  "best_result results =
     fold (\<lambda>current best. if compare_auth_results best current \<le> 0 then current else best) results
       (AuthenticationFindResultError ''no single provider registered'')"

definition authentication_providers_find_user_with_password ::
  "auth_env \<Rightarrow> AuthenticationProvider list \<Rightarrow> bytes \<Rightarrow> bytes \<Rightarrow> (unit, AuthenticationFindResult) res option" where
  "authentication_providers_find_user_with_password env providers username password =
     map_option (\<lambda>r. rbind r (\<lambda>x. case x of
         Inl user \<Rightarrow> Ok (AuthenticationFindResultOk user) | Inr results \<Rightarrow> Ok (best_result results)))
       (providers_loop env username password providers [])"

section \<open>The choice among the answers\<close>

definition is_ok :: "AuthenticationFindResult \<Rightarrow> bool" where
  "is_ok r \<longleftrightarrow> (\<exists>user. r = AuthenticationFindResultOk user)"

abbreviation rank :: "AuthenticationFindResult \<Rightarrow> int" where
  "rank \<equiv> get_result_value_for_auth_result"

lemma rank_bounds: "0 \<le> rank r" "\<not> is_ok r \<Longrightarrow> rank r < 3" "is_ok r \<Longrightarrow> rank r = 3"
  by (cases r; simp add: is_ok_def)+

text \<open>The last of the answers with the greatest rank.\<close>

definition last_best :: "AuthenticationFindResult \<Rightarrow> AuthenticationFindResult list \<Rightarrow> bool" where
  "last_best b rs \<longleftrightarrow>
     (\<exists>pre post. rs = pre @ b # post \<and> (\<forall>x \<in> set pre. rank x \<le> rank b) \<and> (\<forall>x \<in> set post. rank x < rank b))"

lemma last_best_rank: "last_best b rs \<Longrightarrow> x \<in> set rs \<Longrightarrow> rank x \<le> rank b"
  by (force simp: last_best_def)

lemma last_best_snoc:
  "last_best b rs \<Longrightarrow> rank b \<le> rank r \<Longrightarrow> last_best r (rs @ [r])"
  "last_best b rs \<Longrightarrow> rank r < rank b \<Longrightarrow> last_best b (rs @ [r])"
proof -
  assume *: "last_best b rs"
  show "last_best r (rs @ [r])" if "rank b \<le> rank r"
    unfolding last_best_def using last_best_rank [OF *] that by (intro exI [of _ rs] exI [of _ "[]"]) force
  show "last_best b (rs @ [r])" if "rank r < rank b"
  proof -
    from * obtain pre post where "rs = pre @ b # post" "\<forall>x \<in> set pre. rank x \<le> rank b" "\<forall>x \<in> set post. rank x < rank b"
      by (auto simp: last_best_def)
    with that show ?thesis unfolding last_best_def by (intro exI [of _ pre] exI [of _ "post @ [r]"]) auto
  qed
qed

lemma best_result_last: "rs \<noteq> [] \<Longrightarrow> last_best (best_result rs) rs"
proof (induction rs rule: rev_induct)
  case (snoc r rs)
  have step: "best_result (rs @ [r]) = (if rank (best_result rs) \<le> rank r then r else best_result rs)"
    by (simp add: best_result_def compare_auth_results_def)
  show ?case
  proof (cases "rs = []")
    case True
    then have "best_result (rs @ [r]) = r" using rank_bounds(1) [of r] step by (simp add: best_result_def)
    with True show ?thesis unfolding last_best_def by (intro exI [of _ "[]"]) simp
  next
    case False
    with snoc.IH last_best_snoc [of "best_result rs" rs r] step show ?thesis by auto
  qed
qed simp

lemma providers_loop_answers:
  assumes "\<forall>n. au_push env n" "\<forall>p \<in> set ps. provider_result env p username password = Some (Ok (answer p))"
  shows "providers_loop env username password ps results =
    Some (Ok (case find is_ok (map answer ps) of
                Some r \<Rightarrow> Inl (THE user. r = AuthenticationFindResultOk user)
              | None \<Rightarrow> Inr (results @ map answer ps)))"
  using assms
  by (induction ps arbitrary: results) (auto simp: is_ok_def split: AuthenticationFindResult.splits option.split)

text \<open>
  C35. Who is let in: when every provider gives an answer, the answer of all of them is the first one that found the
  user with this password, and without such a provider the most telling refusal, the last one of the highest rank.
  So a user is let in exactly when some provider lets it in, and an answer is always one that a provider gave.
\<close>

theorem find_user_answer:
  assumes push: "\<forall>n. au_push env n"
    and answers: "\<forall>p \<in> set providers. provider_result env p username password = Some (Ok (answer p))"
  shows "\<exists>result. authentication_providers_find_user_with_password env providers username password = Some (Ok result) \<and>
    (if providers = [] then result = AuthenticationFindResultError ''no single provider registered''
     else \<exists>pre p post. providers = pre @ p # post \<and> result = answer p \<and>
       (if is_ok (answer p) then \<forall>q \<in> set pre. \<not> is_ok (answer q)
        else (\<forall>q \<in> set pre. get_result_value_for_auth_result (answer q) \<le> get_result_value_for_auth_result result) \<and>
             (\<forall>q \<in> set post. get_result_value_for_auth_result (answer q) < get_result_value_for_auth_result result)))"
proof (cases "find is_ok (map answer providers)")
  case None
  then have found: "authentication_providers_find_user_with_password env providers username password =
      Some (Ok (best_result (map answer providers)))"
    using providers_loop_answers [OF push answers] by (simp add: authentication_providers_find_user_with_password_def)
  show ?thesis
  proof (cases "providers = []")
    case True
    with found show ?thesis by (simp add: best_result_def)
  next
    case False
    then obtain pre post where
      rs: "map answer providers = pre @ best_result (map answer providers) # post"
        "\<forall>x \<in> set pre. rank x \<le> rank (best_result (map answer providers))"
        "\<forall>x \<in> set post. rank x < rank (best_result (map answer providers))"
      using best_result_last [of "map answer providers"] by (auto simp: last_best_def)
    then obtain ps p qs where "providers = ps @ p # qs" "pre = map answer ps"
        "best_result (map answer providers) = answer p" "post = map answer qs"
      by (auto simp: map_eq_append_conv map_eq_Cons_conv)
    moreover from this None have "\<not> is_ok (answer p)" by (auto simp: find_None_iff)
    ultimately show ?thesis using False found rs(2,3) by auto
  qed
next
  case (Some r)
  then obtain i where i: "i < length providers" "is_ok (answer (providers ! i))" "r = answer (providers ! i)"
      "\<forall>j < i. \<not> is_ok (answer (providers ! j))"
    by (auto simp: find_Some_iff)
  then obtain user where "r = AuthenticationFindResultOk user" by (auto simp: is_ok_def)
  then have found: "authentication_providers_find_user_with_password env providers username password = Some (Ok r)"
    using providers_loop_answers [OF push answers] Some by (simp add: authentication_providers_find_user_with_password_def)
  have "\<forall>q \<in> set (take i providers). \<not> is_ok (answer q)" using i(1,4) by (auto simp: in_set_conv_nth)
  with i found id_take_nth_drop [OF i(1)] have "providers = take i providers @ providers ! i # drop (Suc i) providers \<and>
      r = answer (providers ! i) \<and> (if is_ok (answer (providers ! i)) then \<forall>q \<in> set (take i providers). \<not> is_ok (answer q) else False)"
    by simp
  with found i(1,2) show ?thesis
    by (intro exI [of _ r] conjI, simp) (subst if_not_P, force, intro exI, force)
qed

text \<open>A sample environment: the hash of a password is the password behind a mark, the user database has one user.\<close>

definition sample_groups :: "nat list" where
  "sample_groups = [1000..<1026]"

definition sample_auth :: auth_env where
  "sample_auth =
     \<lparr>bcrypt_gensalt = (\<lambda>_. Some [36]), bcrypt_hashpw = (\<lambda>s salt. Some (salt @ s)),
      bcrypt_checkpw = (\<lambda>s h. if h = 36 # s then 0 else 1), bcrypt_sha512 = (\<lambda>s. Some s), bcrypt_512bits_base64_size = 88,
      bcrypt_default_work_factor = 12,
      sys_getpwnam = (\<lambda>name n. if name \<noteq> lit ''eve'' then SysNone else if n < 300 then SysRange else SysFound 1000),
      sys_getgrgid = (\<lambda>g n. if g = 27 then SysFound (lit ''sudo'') else SysFound (lit ''staff'')),
      sys_getgrouplist = (\<lambda>name g n.
        let all = g # sample_groups in
        if n < length all then (-1, take n all, int (length all)) else (int (length all), all, int (length all))),
      sys_pw_size = -1, sys_gr_size = 1024, pam_start = (\<lambda>_. True),
      pam_authenticate = (\<lambda>name pw. if pw = lit ''secret'' then PAM_SUCCESS else PAM_OTHER), pam_end = True,
      au_alloc = (\<lambda>_. True), au_push = (\<lambda>_. True), au_insert = (\<lambda>_. True), au_ndebug = True\<rparr>"

definition one_user :: AuthenticationProvider where
  "one_user = AuthenticationProviderSimple
     \<lparr>sp_entries = [lit ''bob'' \<mapsto> \<lparr>sa_hash_salted_password = Some (36 # lit ''pw''), sa_role = UserRoleUser\<rparr>],
      sp_settings = \<lparr>hs_work_factor = 12, hs_use_sha512 = True\<rparr>\<rparr>"

lemma one_user_answer:
  "provider_result sample_auth one_user (lit ''bob'') (lit ''px'') = Some (Ok AuthenticationFindResultWrongPassword)"
  "provider_result sample_auth AuthenticationProviderSystem (lit ''bob'') (lit ''px'') = Some (Ok AuthenticationFindResultNoSuchUser)"
proof -
  have range: "lookup_loop (\<lambda>_. True) (\<lambda>n :: nat. SysNone :: nat sys_lookup) n = Some SysNone" for n
    by (subst lookup_loop.simps) simp
  show "provider_result sample_auth one_user (lit ''bob'') (lit ''px'') = Some (Ok AuthenticationFindResultWrongPassword)"
    by (simp add: provider_result_def one_user_def authentication_provider_simple_find_user_with_password_def
        find_user_by_name_simple_def is_string_equal_to_hash_salted_string_def
        is_string_equal_to_hash_salted_string_sha512_impl_def is_string_equal_to_hash_salted_string_impl_def
        digest_string_def sample_auth_def lit_def c_string_def)
  have "sys_getpwnam sample_auth (lit ''bob'') = (\<lambda>n. SysNone)" by (simp add: sample_auth_def lit_def)
  moreover have "au_alloc sample_auth = (\<lambda>_. True)" "c_string (lit ''bob'') = lit ''bob''"
    by (simp_all add: sample_auth_def lit_def c_string_def)
  ultimately show "provider_result sample_auth AuthenticationProviderSystem (lit ''bob'') (lit ''px'') =
      Some (Ok AuthenticationFindResultNoSuchUser)"
    using range
    by (simp add: provider_result_def authentication_provider_system_find_user_with_password_def
        authentication_provider_system_find_user_with_password_linux_def check_for_user_linux_def)
qed

theorem find_user_answer_witness:
  "authentication_providers_find_user_with_password sample_auth [one_user, AuthenticationProviderSystem] (lit ''bob'') (lit ''px'') =
     Some (Ok AuthenticationFindResultWrongPassword)"
proof -
  let ?answer = "\<lambda>p. if p = one_user then AuthenticationFindResultWrongPassword else AuthenticationFindResultNoSuchUser"
  have "\<forall>n. au_push sample_auth n" by (simp add: sample_auth_def)
  moreover have system: "AuthenticationProviderSystem \<noteq> one_user" by (simp add: one_user_def)
  then have "\<forall>p \<in> set [one_user, AuthenticationProviderSystem].
      provider_result sample_auth p (lit ''bob'') (lit ''px'') = Some (Ok (?answer p))"
    using one_user_answer by simp
  ultimately obtain result where r: "authentication_providers_find_user_with_password sample_auth
      [one_user, AuthenticationProviderSystem] (lit ''bob'') (lit ''px'') = Some (Ok result)"
    "\<exists>pre p post. [one_user, AuthenticationProviderSystem] = pre @ p # post \<and> result = ?answer p \<and>
       (if is_ok (?answer p) then \<forall>q \<in> set pre. \<not> is_ok (?answer q)
        else (\<forall>q \<in> set pre. get_result_value_for_auth_result (?answer q) \<le> get_result_value_for_auth_result result) \<and>
             (\<forall>q \<in> set post. get_result_value_for_auth_result (?answer q) < get_result_value_for_auth_result result))"
    using find_user_answer [of sample_auth "[one_user, AuthenticationProviderSystem]" "lit ''bob''" "lit ''px''" ?answer]
    by auto
  from r(2) system have "result = AuthenticationFindResultWrongPassword"
    by (auto simp: Cons_eq_append_conv is_ok_def split: if_splits)
  with r(1) show ?thesis by simp
qed

section \<open>Adding a user and logging in\<close>

text \<open>bcrypt accepts the password that it hashed.\<close>

definition bcrypt_law :: "auth_env \<Rightarrow> bool" where
  "bcrypt_law env \<longleftrightarrow>
     (\<forall>w s salt h. bcrypt_gensalt env w = Some salt \<longrightarrow> bcrypt_hashpw env s salt = Some h \<longrightarrow> bcrypt_checkpw env s h = 0)"

lemmas hash_defs = hash_salt_string_def hash_salt_string_sha512_impl_def hash_salt_string_impl_def
  is_string_equal_to_hash_salted_string_def is_string_equal_to_hash_salted_string_sha512_impl_def
  is_string_equal_to_hash_salted_string_impl_def

lemma hashed_password_accepted:
  assumes "bcrypt_law env" "hash_salt_string env settings s = Some hash"
  shows "is_string_equal_to_hash_salted_string env settings s (Some hash) = Ok True"
  using assms by (auto simp: hash_defs bcrypt_law_def split: if_splits option.splits)

lemma add_user_entry:
  assumes "add_user_to_simple_authentication_provider_data_password_raw env (AuthenticationProviderSimple data)
      username password role = (True, provider')"
  shows "provider' = AuthenticationProviderSimple (data\<lparr>sp_entries := (sp_entries data)(username \<mapsto>
      \<lparr>sa_hash_salted_password = hash_salt_string env (sp_settings data) (c_string password), sa_role = role\<rparr>)\<rparr>)"
  using assms
  by (auto simp: add_user_to_simple_authentication_provider_data_password_raw_def
      add_user_to_simple_authentication_provider_data_password_hash_salted_def split: if_splits)

text \<open>
  A user that was added can log in: after \<open>add_user_to_simple_authentication_provider_data_password_raw\<close> with a hash,
  the name with this password (up to a NUL) is found with its role, and nothing changes for other names.
\<close>

theorem added_user_logs_in:
  assumes "bcrypt_law env"
    and "add_user_to_simple_authentication_provider_data_password_raw env (AuthenticationProviderSimple data)
      username password role = (True, provider')"
    and "hash_salt_string env (sp_settings data) (c_string password) = Some hash" "c_string password' = c_string password"
  shows "authentication_provider_simple_find_user_with_password env provider' username password' =
      Ok (AuthenticationFindResultOk
        \<lparr>ac_user = \<lparr>au_username = username, au_role = role\<rparr>, ac_provider_type = AuthenticationProviderTypeSimple\<rparr>) \<and>
    (\<forall>other pw. other \<noteq> username \<longrightarrow>
      authentication_provider_simple_find_user_with_password env provider' other pw =
      authentication_provider_simple_find_user_with_password env (AuthenticationProviderSimple data) other pw)"
  using add_user_entry [OF assms(2)] hashed_password_accepted [OF assms(1,3)] assms(3,4)
  by (simp add: authentication_provider_simple_find_user_with_password_def find_user_by_name_simple_def split: option.split)

theorem added_user_logs_in_witness:
  "\<exists>provider'. add_user_to_simple_authentication_provider_data_password_raw sample_auth one_user (lit ''eve'') (lit ''x'') UserRoleAdmin =
      (True, provider') \<and>
    authentication_provider_simple_find_user_with_password sample_auth provider' (lit ''eve'') (lit ''x'') =
      Ok (AuthenticationFindResultOk
        \<lparr>ac_user = \<lparr>au_username = lit ''eve'', au_role = UserRoleAdmin\<rparr>, ac_provider_type = AuthenticationProviderTypeSimple\<rparr>)"
proof -
  obtain data where data: "one_user = AuthenticationProviderSimple data" "sp_settings data = \<lparr>hs_work_factor = 12, hs_use_sha512 = True\<rparr>"
      "dom (sp_entries data) = {lit ''bob''}"
    by (simp add: one_user_def)
  have law: "bcrypt_law sample_auth" by (simp add: bcrypt_law_def sample_auth_def)
  have hash: "hash_salt_string sample_auth (sp_settings data) (c_string (lit ''x'')) = Some (36 # lit ''x'')"
    unfolding data(2) by (simp add: hash_defs digest_string_def sample_auth_def lit_def c_string_def)
  have "\<exists>provider'. add_user_to_simple_authentication_provider_data_password_raw sample_auth one_user (lit ''eve'') (lit ''x'')
      UserRoleAdmin = (True, provider')"
    using data(3) unfolding data(1)
    by (simp add: add_user_to_simple_authentication_provider_data_password_raw_def
        add_user_to_simple_authentication_provider_data_password_hash_salted_def) (simp add: sample_auth_def lit_def)
  with added_user_logs_in [OF law _ hash refl, of "lit ''eve''" UserRoleAdmin] show ?thesis unfolding data(1) by blast
qed

text \<open>When the hash could not be computed the user is added all the same, and the next login reads the null pointer.\<close>

lemma failed_hash_undefined:
  assumes "add_user_to_simple_authentication_provider_data_password_raw env (AuthenticationProviderSimple data)
      username password role = (True, provider')"
    and "hash_salt_string env (sp_settings data) (c_string password) = None"
    and "digest_string env (c_string password') \<noteq> None"
  shows "authentication_provider_simple_find_user_with_password env provider' username password' = Undef OutOfBounds"
  using add_user_entry [OF assms(1)] assms(2,3)
  by (auto simp: authentication_provider_simple_find_user_with_password_def find_user_by_name_simple_def
      is_string_equal_to_hash_salted_string_def is_string_equal_to_hash_salted_string_sha512_impl_def
      is_string_equal_to_hash_salted_string_impl_def)

section \<open>The role of a user of the system\<close>

text \<open>\<open>getgrouplist\<close> includes the group it is given among the groups it returns.\<close>

definition grouplist_law :: "auth_env \<Rightarrow> bool" where
  "grouplist_law env \<longleftrightarrow>
     (\<forall>name g n res gs m. sys_getgrouplist env name g n = (res, gs, m) \<longrightarrow> 0 \<le> res \<longrightarrow> g \<in> set (take (nat m) gs))"

lemma role_loop_admin:
  assumes "\<forall>g \<in> set gs. get_group_name env g \<noteq> None" "g \<in> set gs"
    and "get_group_name env g = Some (Some name)" "name \<in> {lit ''root'', lit ''sudo'', lit ''wheel''}"
  shows "role_loop env username gs role = Some UserRoleAdmin"
  using assms(1,2)
proof (induction gs arbitrary: role)
  case (Cons h hs)
  then obtain r where "get_group_name env h = Some r" by auto
  with Cons assms(3,4) show ?case by (cases "h = g") (auto split: option.split)
qed simp

text \<open>
  C36. The number of groups makes an administrator: \<open>get_role_for_linux_user\<close> passes the number of groups of the user to
  \<open>getgrouplist\<close> where the group of the user belongs, so the user counts as a member of the group with that number. When
  this group is \<open>sudo\<close>, \<open>root\<close> or \<open>wheel\<close>, the user is an administrator whatever its groups are.
\<close>

theorem group_count_makes_admin:
  assumes "grouplist_law env" "\<forall>n. au_alloc env n" "\<forall>g. get_group_name env g \<noteq> None"
    and "sys_getgrouplist env username group_id 0 = (-1, gs, int count)"
    and "sys_getgrouplist env username count count = (res, group_ids, n)" "0 \<le> res" "0 \<le> n"
    and "get_group_name env count = Some (Some name)" "name \<in> {lit ''root'', lit ''sudo'', lit ''wheel''}"
  shows "get_role_for_linux_user env username group_id = Some (Ok UserRoleAdmin)"
proof -
  have "count \<in> set (take (nat n) group_ids)" using assms(1,5,6) unfolding grouplist_law_def by blast
  then have "role_loop env username (take (nat n) group_ids) UserRoleNone = Some UserRoleAdmin"
    using role_loop_admin [OF _ _ assms(8,9)] assms(3) by blast
  with assms(2,4-7) show ?thesis by (simp add: get_role_for_linux_user_def)
qed

theorem group_count_makes_admin_witness:
  "get_role_for_linux_user sample_auth (lit ''eve'') 1000 = Some (Ok UserRoleAdmin) \<and> 27 \<notin> set (1000 # sample_groups)"
proof -
  have name: "get_group_name sample_auth g = Some (Some (if g = 27 then lit ''sudo'' else lit ''staff''))" for g
    by (subst get_group_name_def, subst lookup_loop.simps) (simp add: sample_auth_def)
  have len: "length (g # sample_groups) = 27" for g by (simp add: sample_groups_def)
  have law: "grouplist_law sample_auth"
    by (auto simp: grouplist_law_def sample_auth_def Let_def split: if_splits)
  have "sys_getgrouplist sample_auth (lit ''eve'') 1000 0 = (-1, [], int 27)"
    "sys_getgrouplist sample_auth (lit ''eve'') 27 27 = (27, 27 # sample_groups, 27)"
    by (simp_all add: sample_auth_def Let_def sample_groups_def)
  moreover have "\<forall>n. au_alloc sample_auth n" by (simp add: sample_auth_def)
  ultimately have "get_role_for_linux_user sample_auth (lit ''eve'') 1000 = Some (Ok UserRoleAdmin)"
    using group_count_makes_admin [OF law, of "lit ''eve''" 1000 "[]" 27 27 "27 # sample_groups" 27 "lit ''sudo''"] name by simp
  then show ?thesis by (simp add: sample_groups_def)
qed

end
