(* ===== verification/Http_Protocol.thy ===== *)
theory Http_Protocol
  imports Uri Hpack_Static "HOL-Library.Multiset"
begin

text \<open>
  The data of HTTP requests and what is derived from them (\<open>src/src/http/protocol.h\<close>,
  \<open>src/src/http/protocol.c\<close>, the first part of \<open>src/src/http/parser.c\<close>): methods, versions, status
  texts, the negotiation of the content encoding, the request settings.

  String functions of the external library \<open>tstr\<close> are fields of \<open>http_env\<close>. The weights of encodings are C
  floats; their operations are fields too, so that the definitions hold for any rounding.
\<close>

section \<open>Data\<close>

datatype HTTPRequestMethod =
    HTTPRequestMethodGet | HTTPRequestMethodPost | HTTPRequestMethodHead | HTTPRequestMethodOptions
  | HTTPRequestMethodConnect | HTTPRequestMethodPRI

datatype HTTPProtocolVersion = HTTPProtocolVersion1Dot0 | HTTPProtocolVersion1Dot1 | HTTPProtocolVersion2

text \<open>The stream of the request, zero unless the version is HTTP/2.\<close>

record HttpProtocolData =
  pd_version :: HTTPProtocolVersion
  pd_stream_identifier :: "31 word"

record HttpRequestLine =
  rl_method :: HTTPRequestMethod
  rl_uri :: ParsedRequestURI
  rl_protocol_data :: HttpProtocolData

record HttpRequestHead =
  rh_request_line :: HttpRequestLine
  rh_header_fields :: "HttpHeaderField list"

record HttpRequest =
  rq_head :: HttpRequestHead
  rq_body :: bytes

datatype HttpRequestErrorType =
    HttpRequestErrorTypeInvalidHttpVersion | HttpRequestErrorTypeMethodNotSupported
  | HttpRequestErrorTypeInvalidNonEmptyBody | HttpRequestErrorTypeInvalidHttp2Preface
  | HttpRequestErrorTypeLengthRequired | HttpRequestErrorTypeProtocolError | HttpRequestErrorTypeNotSupported

datatype HttpRequestError = HttpRequestErrorEnum HttpRequestErrorType | HttpRequestErrorAdvanced string

datatype HttpRequestProperties =
    HTTPPropertyTypeInvalid | HTTPPropertyTypeNormal ParsedURLPath | HTTPPropertyTypeOptions | HTTPPropertyTypeConnect

datatype CompressionType =
    CompressionTypeNone | CompressionTypeGzip | CompressionTypeDeflate | CompressionTypeBr
  | CompressionTypeZstd | CompressionTypeCompress

datatype CompressionValue =
    CompressionValueTypeNoEncoding | CompressionValueTypeAllEncodings
  | CompressionValueTypeNormalEncoding CompressionType

record 'f CompressionEntry =
  ce_value :: CompressionValue
  ce_weight :: 'f

record 'f RequestSettings =
  rs_compression_settings :: "'f CompressionEntry list"
  rs_protocol_data :: HttpProtocolData
  rs_http_properties :: HttpRequestProperties

datatype 'f HttpRequestResult =
    HttpRequestResultTypeOk HttpRequest "'f RequestSettings"
  | HttpRequestResultTypeError HttpRequestError
  | HttpRequestResultTypeCloseConnection

record SendSettings =
  ss_compression_to_use :: CompressionType
  ss_protocol_data :: HttpProtocolData

text \<open>
  \<open>lib_parts s d\<close> are the pieces that the iterator of \<open>tstr_split_init s d\<close> yields; \<open>lib_push n\<close> tells
  whether \<open>TVEC_PUSH\<close> onto a vector of length \<open>n\<close> succeeds; \<open>lib_base64\<close> decodes, \<open>None\<close> is a NULL buffer.
\<close>

record 'f http_env =
  env_uri :: uri_env
  lib_parts :: "bytes \<Rightarrow> bytes \<Rightarrow> bytes list"
  lib_lstrip :: "bytes \<Rightarrow> bytes"
  lib_eq_ignore_case :: "bytes \<Rightarrow> bytes \<Rightarrow> bool"
  lib_base64 :: "bytes \<Rightarrow> bytes option"
  lib_push :: "nat \<Rightarrow> bool"
  lib_sort :: "('f CompressionEntry \<Rightarrow> 'f CompressionEntry \<Rightarrow> int) \<Rightarrow> 'f CompressionEntry list \<Rightarrow> 'f CompressionEntry list"
  lib_compression_supported :: "CompressionType \<Rightarrow> bool"
  f_of_nat :: "nat \<Rightarrow> 'f"
  f_add :: "'f \<Rightarrow> 'f \<Rightarrow> 'f"
  f_sub :: "'f \<Rightarrow> 'f \<Rightarrow> 'f"
  f_mul :: "'f \<Rightarrow> 'f \<Rightarrow> 'f"
  f_div :: "'f \<Rightarrow> 'f \<Rightarrow> 'f"
  f_to_int :: "'f \<Rightarrow> int"

section \<open>Names\<close>

fun get_http_method_string :: "HTTPRequestMethod \<Rightarrow> bytes" where
  "get_http_method_string HTTPRequestMethodGet = lit ''GET''"
| "get_http_method_string HTTPRequestMethodPost = lit ''POST''"
| "get_http_method_string HTTPRequestMethodHead = lit ''HEAD''"
| "get_http_method_string HTTPRequestMethodOptions = lit ''OPTIONS''"
| "get_http_method_string HTTPRequestMethodConnect = lit ''CONNECT''"
| "get_http_method_string HTTPRequestMethodPRI = lit ''PRI''"

definition get_http_method_from_string :: "bytes \<Rightarrow> HTTPRequestMethod option" where
  "get_http_method_from_string m =
     (if m = lit ''GET'' then Some HTTPRequestMethodGet
      else if m = lit ''POST'' then Some HTTPRequestMethodPost
      else if m = lit ''HEAD'' then Some HTTPRequestMethodHead
      else if m = lit ''OPTIONS'' then Some HTTPRequestMethodOptions
      else if m = lit ''CONNECT'' then Some HTTPRequestMethodConnect
      else if m = lit ''PRI'' then Some HTTPRequestMethodPRI
      else None)"

fun get_http_protocol_version_string :: "HTTPProtocolVersion \<Rightarrow> bytes" where
  "get_http_protocol_version_string HTTPProtocolVersion1Dot0 = lit ''HTTP/1.0''"
| "get_http_protocol_version_string HTTPProtocolVersion1Dot1 = lit ''HTTP/1.1''"
| "get_http_protocol_version_string HTTPProtocolVersion2 = lit ''HTTP/2.0''"

definition get_protocol_version_from_string :: "bytes \<Rightarrow> HTTPProtocolVersion option" where
  "get_protocol_version_from_string v =
     (if v = lit ''HTTP/1.0'' then Some HTTPProtocolVersion1Dot0
      else if v = lit ''HTTP/1.1'' then Some HTTPProtocolVersion1Dot1
      else if v = lit ''HTTP/2.0'' then Some HTTPProtocolVersion2
      else None)"

fun get_error_string_for_http_request_error_type :: "HttpRequestErrorType \<Rightarrow> string" where
  "get_error_string_for_http_request_error_type HttpRequestErrorTypeInvalidHttpVersion = ''InvalidHttpVersion''"
| "get_error_string_for_http_request_error_type HttpRequestErrorTypeMethodNotSupported = ''MethodNotSupported''"
| "get_error_string_for_http_request_error_type HttpRequestErrorTypeInvalidNonEmptyBody = ''InvalidNonEmptyBody''"
| "get_error_string_for_http_request_error_type HttpRequestErrorTypeInvalidHttp2Preface = ''InvalidHttp2Preface''"
| "get_error_string_for_http_request_error_type HttpRequestErrorTypeLengthRequired = ''LengthRequired''"
| "get_error_string_for_http_request_error_type HttpRequestErrorTypeProtocolError = ''ProtocolError''"
| "get_error_string_for_http_request_error_type HttpRequestErrorTypeNotSupported = ''NotSupported''"

text \<open>Status texts by the numeric code.\<close>

definition status_messages :: "(nat \<times> string) list" where
  "status_messages =
     [(100, ''Continue''), (101, ''Switching Protocols''), (200, ''OK''), (201, ''Created''), (202, ''Accepted''),
      (203, ''Non-Authoritative Information''), (204, ''No Content''), (205, ''Reset Content''),
      (206, ''Partial Content''), (300, ''Multiple Choices''), (301, ''Moved Permanently''), (302, ''Found''),
      (303, ''See Other''), (304, ''Not Modified''), (305, ''Use Proxy''), (307, ''Temporary Redirect''),
      (400, ''Bad Request''), (401, ''Unauthorized''), (402, ''Payment Required''), (403, ''Forbidden''),
      (404, ''Not Found''), (405, ''Method Not Allowed''), (406, ''Not Acceptable''),
      (407, ''Proxy Authentication Required''), (408, ''Request Timeout''), (409, ''Conflict''), (410, ''Gone''),
      (411, ''Length Required''), (412, ''Precondition Failed''), (413, ''Payload Too Large''),
      (414, ''URI Too Long''), (415, ''Unsupported Media Type''), (416, ''Range Not Satisfiable''),
      (417, ''Expectation Failed''), (426, ''Upgrade Required''), (500, ''Internal Server Error''),
      (501, ''Not Implemented''), (502, ''Bad Gateway''), (503, ''Service Unavailable''), (504, ''Gateway Timeout''),
      (505, ''HTTP Version Not Supported'')]"

definition get_status_message :: "nat \<Rightarrow> string" where
  "get_status_message status_code =
     (case map_of status_messages status_code of
        None \<Rightarrow> ''NOT SUPPORTED STATUS CODE'' | Some message \<Rightarrow> message)"

section \<open>Headers\<close>

definition find_header_by_key :: "'f http_env \<Rightarrow> HttpHeaderField list \<Rightarrow> bytes \<Rightarrow> HttpHeaderField option" where
  "find_header_by_key env fs key = find (\<lambda>f. lib_eq_ignore_case env (hf_key f) key) fs"

definition find_search_key :: "ParsedSearchPath \<Rightarrow> bytes \<Rightarrow> (bytes \<times> bytes) option" where
  "find_search_key search_path key = map_option (Pair key) (search_path key)"

definition process_delimitered_header_value ::
  "'f http_env \<Rightarrow> bytes \<Rightarrow> bytes \<Rightarrow> (bytes \<Rightarrow> 'a \<Rightarrow> 'a) \<Rightarrow> 'a \<Rightarrow> 'a" where
  "process_delimitered_header_value env value delimiter callback_function argument =
     fold (\<lambda>part. callback_function (lib_lstrip env part)) (lib_parts env value delimiter) argument"

section \<open>The content encoding\<close>

definition parse_compression_type :: "bytes \<Rightarrow> CompressionType option" where
  "parse_compression_type n =
     (if n = lit ''gzip'' \<or> n = lit ''x-gzip'' then Some CompressionTypeGzip
      else if n = lit ''deflate'' then Some CompressionTypeDeflate
      else if n = lit ''br'' then Some CompressionTypeBr
      else if n = lit ''zstd'' then Some CompressionTypeZstd
      else if n = lit ''compress'' \<or> n = lit ''x-compress'' then Some CompressionTypeCompress
      else None)"

definition parse_compression_value :: "bytes \<Rightarrow> CompressionValue option" where
  "parse_compression_value n =
     (if n = lit ''*'' then Some CompressionValueTypeAllEncodings
      else if n = lit ''identity'' then Some CompressionValueTypeNoEncoding
      else map_option CompressionValueTypeNormalEncoding (parse_compression_type n))"

fun quality_loop :: "'f http_env \<Rightarrow> bytes \<Rightarrow> 'f \<Rightarrow> bool \<Rightarrow> 'f \<Rightarrow> 'f option" where
  "quality_loop env [] result had_dot frac = Some result"
| "quality_loop env (val # view) result had_dot frac =
     (if val = of_char (CHR ''.'') then
        (if had_dot then None else quality_loop env view result True frac)
      else if val < 48 \<or> val > 57 then None
      else
        (let valf = f_of_nat env (unat (val - 48)) in
         if had_dot
         then quality_loop env view (f_add env result (f_div env valf frac)) had_dot (f_mul env frac (f_of_nat env 10))
         else quality_loop env view (f_add env (f_mul env result (f_of_nat env 10)) valf) had_dot frac))"

definition parse_compression_quality_float_tstr :: "'f http_env \<Rightarrow> bytes \<Rightarrow> 'f option" where
  "parse_compression_quality_float_tstr env view =
     (if view = [] then None else quality_loop env view (f_of_nat env 0) False (f_of_nat env 10))"

definition parse_compression_quality :: "'f http_env \<Rightarrow> bytes \<Rightarrow> 'f option" where
  "parse_compression_quality env compression_weight_input =
     (let compression_weight = lib_lstrip env compression_weight_input in
      if length compression_weight < 2 then None
      else if compression_weight ! 0 \<noteq> of_char (CHR ''q'') \<and> compression_weight ! 0 \<noteq> of_char (CHR ''Q'') then None
      else if compression_weight ! 1 \<noteq> of_char (CHR ''='') then None
      else parse_compression_quality_float_tstr env (drop 2 compression_weight))"

definition parse_compression_entry :: "'f http_env \<Rightarrow> bytes \<Rightarrow> 'f CompressionEntry option" where
  "parse_compression_entry env raw_part =
     (let part = lib_lstrip env raw_part in
      case (case lib_split (env_uri env) part (lit '';'') of None \<Rightarrow> (part, []) | Some r \<Rightarrow> r) of
        (compression_name, compression_weight) \<Rightarrow>
          (let weight = (if compression_weight = [] then f_of_nat env 1
                         else (case parse_compression_quality env compression_weight of
                                 None \<Rightarrow> f_of_nat env 1 | Some weight_value \<Rightarrow> weight_value)) in
           map_option (\<lambda>value. \<lparr>ce_value = value, ce_weight = weight\<rparr>)
             (parse_compression_value (lib_lstrip env compression_name))))"

text \<open>An entry that does not fit into the vector is dropped.\<close>

fun compression_entries_loop ::
  "'f http_env \<Rightarrow> bytes list \<Rightarrow> 'f CompressionEntry list \<Rightarrow> 'f CompressionEntry list" where
  "compression_entries_loop env [] es = es"
| "compression_entries_loop env (part # parts) es =
     compression_entries_loop env parts
       (case parse_compression_entry env part of
          None \<Rightarrow> es | Some entry \<Rightarrow> (if lib_push env (length es) then es @ [entry] else es))"

definition get_compression_settings :: "'f http_env \<Rightarrow> HttpHeaderField list \<Rightarrow> 'f CompressionEntry list" where
  "get_compression_settings env header_fields =
     (case find_header_by_key env header_fields (lit ''accept-encoding'') of
        None \<Rightarrow> []
      | Some field \<Rightarrow>
          (if hf_value field = [] then []
           else compression_entries_loop env (lib_parts env (hf_value field) (lit '','')) []))"

definition get_http_properties :: "HttpRequest \<Rightarrow> HttpRequestProperties" where
  "get_http_properties http_request =
     (case (case rl_uri (rh_request_line (rq_head http_request)) of
              ParsedURITypeAbsoluteURI uri \<Rightarrow> Some (pu_path uri)
            | ParsedURITypeAbsPath path \<Rightarrow> Some path
            | _ \<Rightarrow> None) of
        None \<Rightarrow> HTTPPropertyTypeInvalid
      | Some path \<Rightarrow>
          (case rl_method (rh_request_line (rq_head http_request)) of
             HTTPRequestMethodGet \<Rightarrow> HTTPPropertyTypeNormal path
           | HTTPRequestMethodPost \<Rightarrow> HTTPPropertyTypeNormal path
           | HTTPRequestMethodHead \<Rightarrow> HTTPPropertyTypeNormal path
           | HTTPRequestMethodOptions \<Rightarrow> HTTPPropertyTypeOptions
           | HTTPRequestMethodConnect \<Rightarrow> HTTPPropertyTypeConnect
           | HTTPRequestMethodPRI \<Rightarrow> HTTPPropertyTypeInvalid))"

definition get_request_settings :: "'f http_env \<Rightarrow> HttpRequest \<Rightarrow> 'f RequestSettings" where
  "get_request_settings env http_request =
     \<lparr>rs_compression_settings = get_compression_settings env (rh_header_fields (rq_head http_request)),
      rs_protocol_data = rl_protocol_data (rh_request_line (rq_head http_request)),
      rs_http_properties = get_http_properties http_request\<rparr>"

definition get_best_compression_that_is_supported :: "'f http_env \<Rightarrow> CompressionType" where
  "get_best_compression_that_is_supported env =
     (case find (lib_compression_supported env)
             [CompressionTypeBr, CompressionTypeZstd, CompressionTypeGzip, CompressionTypeDeflate,
              CompressionTypeCompress] of
        None \<Rightarrow> CompressionTypeNone | Some compression \<Rightarrow> compression)"

definition compare_function_entries :: "'f http_env \<Rightarrow> 'f CompressionEntry \<Rightarrow> 'f CompressionEntry \<Rightarrow> int" where
  "compare_function_entries env entry1 entry2 =
     (if ce_weight entry1 \<noteq> ce_weight entry2
      then f_to_int env (f_mul env (f_sub env (ce_weight entry1) (ce_weight entry2)) (f_of_nat env 10000))
      else 0)"

fun choose_encoding :: "'f http_env \<Rightarrow> 'f CompressionEntry list \<Rightarrow> CompressionType" where
  "choose_encoding env [] = CompressionTypeNone"
| "choose_encoding env (entry # es) =
     (case ce_value entry of
        CompressionValueTypeNoEncoding \<Rightarrow> CompressionTypeNone
      | CompressionValueTypeAllEncodings \<Rightarrow> get_best_compression_that_is_supported env
      | CompressionValueTypeNormalEncoding compression \<Rightarrow>
          (if lib_compression_supported env compression then compression else choose_encoding env es))"

definition get_send_settings :: "'f http_env \<Rightarrow> 'f RequestSettings \<Rightarrow> SendSettings" where
  "get_send_settings env request_settings =
     \<lparr>ss_compression_to_use =
        (if rs_compression_settings request_settings = [] then CompressionTypeNone
         else choose_encoding env
                (lib_sort env (compare_function_entries env) (rs_compression_settings request_settings))),
      ss_protocol_data = rs_protocol_data request_settings\<rparr>"

text \<open>Running out of memory for a header ends the process.\<close>

definition add_http_header_field ::
  "'f http_env \<Rightarrow> HttpHeaderField list \<Rightarrow> bytes \<Rightarrow> bytes \<Rightarrow> (unit, HttpHeaderField list) res" where
  "add_http_header_field env header_fields key value =
     (if lib_push env (length header_fields) then Ok (header_fields @ [\<lparr>hf_key = key, hf_value = value\<rparr>])
      else Undef ProcessExit)"

section \<open>Properties\<close>

lemma method_roundtrip: "get_http_method_from_string (get_http_method_string m) = Some m"
  by (cases m) (simp_all add: get_http_method_from_string_def lit_def)

lemma version_roundtrip: "get_protocol_version_from_string (get_http_protocol_version_string v) = Some v"
  by (cases v) (simp_all add: get_protocol_version_from_string_def lit_def)

text \<open>What \<open>TVEC_SORT\<close> promises: a permutation that is ordered by the comparison.\<close>

definition sort_law :: "(('a \<Rightarrow> 'a \<Rightarrow> int) \<Rightarrow> 'a list \<Rightarrow> 'a list) \<Rightarrow> ('a \<Rightarrow> 'a \<Rightarrow> int) \<Rightarrow> 'a list \<Rightarrow> bool" where
  "sort_law srt cmp xs \<longleftrightarrow> mset (srt cmp xs) = mset xs \<and> sorted_wrt (\<lambda>a b. cmp a b \<le> 0) (srt cmp xs)"

definition acceptable :: "'f http_env \<Rightarrow> 'f CompressionEntry \<Rightarrow> bool" where
  "acceptable env entry \<longleftrightarrow>
     (\<exists>c. ce_value entry = CompressionValueTypeNormalEncoding c \<and> lib_compression_supported env c)"

lemma choose_encoding_first:
  assumes "sorted_wrt (\<lambda>a b. r a b \<le> (0 :: int)) es" "\<forall>e \<in> set es. \<exists>c. ce_value e = CompressionValueTypeNormalEncoding c"
    and "e' \<in> set es" "acceptable env e'" "r e' e' \<le> 0"
  shows "\<exists>e c. e \<in> set es \<and> ce_value e = CompressionValueTypeNormalEncoding c \<and> choose_encoding env es = c \<and> r e e' \<le> 0"
  using assms(1-3)
proof (induction es)
  case (Cons e es)
  obtain c where c: "ce_value e = CompressionValueTypeNormalEncoding c" using Cons.prems(2) by auto
  show ?case
  proof (cases "lib_compression_supported env c")
    case True
    have "r e e' \<le> 0" using Cons.prems(1,3) assms(5) by auto
    with True c show ?thesis by auto
  next
    case False
    then have "e' \<in> set es" using Cons.prems(3) assms(4) c by (auto simp: acceptable_def)
    with Cons False c show ?thesis by fastforce
  qed
qed simp

text \<open>
  The content encoding is chosen against the client's weights: among the encodings of the
  \<open>accept-encoding\<close> header that the server supports, \<open>get_send_settings\<close> takes one whose weight compares
  as the least, so an encoding that the client excludes with \<open>q=0\<close> wins over the preferred ones.
\<close>

theorem least_weight_chosen:
  assumes "sort_law (lib_sort env) (compare_function_entries env) (rs_compression_settings s)"
    and "\<forall>e \<in> set (rs_compression_settings s). \<exists>c. ce_value e = CompressionValueTypeNormalEncoding c"
    and "e' \<in> set (rs_compression_settings s)" "acceptable env e'"
  shows "\<exists>e \<in> set (rs_compression_settings s).
    ce_value e = CompressionValueTypeNormalEncoding (ss_compression_to_use (get_send_settings env s)) \<and>
    compare_function_entries env e e' \<le> 0"
proof -
  let ?es = "lib_sort env (compare_function_entries env) (rs_compression_settings s)"
  have es: "mset ?es = mset (rs_compression_settings s)"
    "sorted_wrt (\<lambda>a b. compare_function_entries env a b \<le> 0) ?es"
    using assms(1) by (simp_all add: sort_law_def)
  then have set: "set ?es = set (rs_compression_settings s)" using mset_eq_setD by blast
  have "compare_function_entries env e' e' \<le> 0" by (simp add: compare_function_entries_def)
  from choose_encoding_first [OF es(2) _ _ assms(4) this] assms(2,3) set
  obtain e c where "e \<in> set ?es" "ce_value e = CompressionValueTypeNormalEncoding c"
    "choose_encoding env ?es = c" "compare_function_entries env e e' \<le> 0" by auto
  moreover have "rs_compression_settings s \<noteq> []" using assms(3) by auto
  ultimately show ?thesis using set by (auto simp: get_send_settings_def)
qed

text \<open>An environment for the examples: weights are integers in thousandths.\<close>

fun insort_cmp :: "('a \<Rightarrow> 'a \<Rightarrow> int) \<Rightarrow> 'a \<Rightarrow> 'a list \<Rightarrow> 'a list" where
  "insort_cmp cmp x [] = [x]"
| "insort_cmp cmp x (y # ys) = (if cmp x y \<le> 0 then x # y # ys else y # insort_cmp cmp x ys)"

definition isort_cmp :: "('a \<Rightarrow> 'a \<Rightarrow> int) \<Rightarrow> 'a list \<Rightarrow> 'a list" where
  "isort_cmp cmp xs = foldr (insort_cmp cmp) xs []"

function char_parts :: "u8 \<Rightarrow> bytes \<Rightarrow> bytes list" where
  "char_parts c s = (if c \<in> set s then before c s # char_parts c (behind c s) else [s])"
  by pat_completeness auto
termination
  by (relation "measure (length \<circ> snd)") (auto intro!: behind_shorter)

declare char_parts.simps [simp del]

definition thousandths_env :: "int http_env" where
  "thousandths_env =
     \<lparr>env_uri = sample_env, lib_parts = (\<lambda>s d. char_parts (hd d) s), lib_lstrip = dropWhile (\<lambda>c. c = 32),
      lib_eq_ignore_case = (=), lib_base64 = (\<lambda>_. None), lib_push = (\<lambda>_. True), lib_sort = isort_cmp,
      lib_compression_supported = (\<lambda>_. True), f_of_nat = (\<lambda>n. 1000 * int n), f_add = (+), f_sub = (-),
      f_mul = (\<lambda>a b. a * b div 1000), f_div = (\<lambda>a b. a * 1000 div b), f_to_int = (\<lambda>a. a)\<rparr>"

definition two_encodings :: "int RequestSettings" where
  "two_encodings =
     \<lparr>rs_compression_settings =
        [\<lparr>ce_value = CompressionValueTypeNormalEncoding CompressionTypeBr, ce_weight = 1000\<rparr>,
         \<lparr>ce_value = CompressionValueTypeNormalEncoding CompressionTypeGzip, ce_weight = 0\<rparr>],
      rs_protocol_data = \<lparr>pd_version = HTTPProtocolVersion1Dot1, pd_stream_identifier = 0\<rparr>,
      rs_http_properties = HTTPPropertyTypeInvalid\<rparr>"

theorem least_weight_chosen_witness:
  "\<exists>e \<in> set (rs_compression_settings two_encodings).
     ce_value e = CompressionValueTypeNormalEncoding (ss_compression_to_use (get_send_settings thousandths_env two_encodings)) \<and>
     ce_weight e = 0"
proof -
  let ?gzip = "\<lparr>ce_value = CompressionValueTypeNormalEncoding CompressionTypeGzip, ce_weight = 0 :: int\<rparr>"
  have "sort_law (lib_sort thousandths_env) (compare_function_entries thousandths_env) (rs_compression_settings two_encodings)"
    by (simp add: sort_law_def thousandths_env_def two_encodings_def isort_cmp_def compare_function_entries_def)
  moreover have "\<forall>e \<in> set (rs_compression_settings two_encodings). \<exists>c. ce_value e = CompressionValueTypeNormalEncoding c"
    "?gzip \<in> set (rs_compression_settings two_encodings)" "acceptable thousandths_env ?gzip"
    by (simp_all add: two_encodings_def acceptable_def thousandths_env_def)
  ultimately have "\<exists>e \<in> set (rs_compression_settings two_encodings).
      ce_value e = CompressionValueTypeNormalEncoding (ss_compression_to_use (get_send_settings thousandths_env two_encodings)) \<and>
      compare_function_entries thousandths_env e ?gzip \<le> 0"
    by (rule least_weight_chosen)
  then show ?thesis by (auto simp: two_encodings_def compare_function_entries_def thousandths_env_def)
qed

end
