(* ===== verification/Buffered_Reader.thy ===== *)
theory Buffered_Reader
  imports Prelude
begin

text \<open>
  The buffered reader of \<open>src/src/utils/buffered_reader.c\<close> and the byte transport below it:
  \<open>read_from_descriptor\<close>, \<open>write_to_descriptor\<close> (\<open>src/src/generic/secure.c\<close>) and
  \<open>send_data_to_connection\<close> (\<open>src/src/generic/send.c\<close>). The system calls \<open>read\<close>, \<open>write\<close>,
  \<open>SSL_read_ex\<close> and \<open>SSL_write\<close> are a parameter of type \<open>io\<close>; \<open>reliable_io\<close> states what
  their manuals promise on a connection that neither fails nor loses bytes. The theorems show that
  the reader hides how the bytes were cut into packets, where its size arithmetic wraps around and
  which delimiters its line scanner misses.
\<close>

section \<open>Descriptors\<close>

datatype sys_read = SysRead bytes | SysReadFailed

text \<open>\<open>SSL_read_ex\<close> succeeds only when it read at least one byte: the first one and the others.\<close>

datatype ssl_read = SslRead u8 bytes | SslZeroReturn | SslOtherError

text \<open>The write calls give the number of bytes they took, or \<open>None\<close> for the result -1.\<close>

record 'd io =
  io_read :: "'d \<Rightarrow> nat \<Rightarrow> sys_read \<times> 'd"
  io_ssl_read :: "'d \<Rightarrow> nat \<Rightarrow> ssl_read \<times> 'd"
  io_write :: "'d \<Rightarrow> bytes \<Rightarrow> nat option \<times> 'd"
  io_ssl_write :: "'d \<Rightarrow> bytes \<Rightarrow> nat option \<times> 'd"

datatype 'd ConnectionDescriptor = NormalDescriptor 'd | SecureDescriptor 'd

fun channel :: "'d ConnectionDescriptor \<Rightarrow> 'd" where
  "channel (NormalDescriptor d) = d"
| "channel (SecureDescriptor d) = d"

datatype ReadResult = ReadResultTypeEOF | ReadResultTypeSuccess bytes | ReadResultTypeError

text \<open>The length goes through \<open>int\<close> before it becomes the \<open>size_t\<close> of \<open>SSL_read_ex\<close>.\<close>

definition through_int :: "nat \<Rightarrow> nat" where
  "through_int n = unat (scast (word_of_nat n :: u32) :: u64)"

definition read_from_descriptor ::
  "'d io \<Rightarrow> 'd ConnectionDescriptor \<Rightarrow> nat \<Rightarrow> ReadResult \<times> 'd ConnectionDescriptor" where
  "read_from_descriptor io descriptor n_bytes =
     (case descriptor of
        NormalDescriptor d \<Rightarrow>
          (case io_read io d n_bytes of (result, d') \<Rightarrow>
             (case result of
                SysRead bs \<Rightarrow> if bs = [] then ReadResultTypeEOF else ReadResultTypeSuccess bs
              | SysReadFailed \<Rightarrow> ReadResultTypeError,
              NormalDescriptor d'))
      | SecureDescriptor d \<Rightarrow>
          (case io_ssl_read io d (through_int n_bytes) of (result, d') \<Rightarrow>
             (case result of
                SslRead b bs \<Rightarrow> ReadResultTypeSuccess (b # bs)
              | SslZeroReturn \<Rightarrow> ReadResultTypeEOF
              | SslOtherError \<Rightarrow> ReadResultTypeError,
              SecureDescriptor d')))"

definition write_to_descriptor ::
  "'d io \<Rightarrow> 'd ConnectionDescriptor \<Rightarrow> bytes \<Rightarrow> nat option \<times> 'd ConnectionDescriptor" where
  "write_to_descriptor io descriptor buffer =
     (case descriptor of
        NormalDescriptor d \<Rightarrow> (case io_write io d buffer of (r, d') \<Rightarrow> (r, NormalDescriptor d'))
      | SecureDescriptor d \<Rightarrow> (case io_ssl_write io d buffer of (r, d') \<Rightarrow> (r, SecureDescriptor d')))"

text \<open>
  \<open>send_data_to_connection\<close> repeats the write until everything went out. A count above the
  remaining length, which no write call returns, would move the pointer behind the data.
\<close>

function send_data_to_connection ::
  "'d io \<Rightarrow> 'd ConnectionDescriptor \<Rightarrow> bytes \<Rightarrow> (unit, unit) res \<times> 'd ConnectionDescriptor" where
  "send_data_to_connection io descriptor to_send =
     (case write_to_descriptor io descriptor to_send of
        (None, d') \<Rightarrow> (Err (), d')
      | (Some wrote_bytes, d') \<Rightarrow>
          if wrote_bytes = length to_send then (Ok (), d')
          else if wrote_bytes = 0 then (Err (), d')
          else if wrote_bytes > length to_send then (Undef OutOfBounds, d')
          else send_data_to_connection io d' (drop wrote_bytes to_send))"
  by pat_completeness auto
termination
  by (relation "measure (\<lambda>(io, d, bs). length bs)") auto

declare send_data_to_connection.simps [simp del]

section \<open>The reader\<close>

datatype StreamState = StreamStateOpen | StreamStateClosed | StreamStateError

record 'd BufferedReader =
  br_descriptor :: "'d ConnectionDescriptor"
  br_state :: StreamState
  br_cursor :: nat
  br_buffer :: bytes

datatype BufferedReadResult =
    BufferedReadResultTypeOk bytes | BufferedReadResultTypeErr | BufferedReadResultTypeEOF

definition get_buffered_reader ::
  "(nat \<Rightarrow> bool) \<Rightarrow> 'd ConnectionDescriptor \<Rightarrow> 'd BufferedReader option" where
  "get_buffered_reader alloc descriptor =
     (if alloc 1 then
        Some \<lparr>br_descriptor = descriptor, br_state = StreamStateOpen, br_cursor = 0, br_buffer = []\<rparr>
      else None)"

definition buffered_reader_is_safe_to_read :: "'d BufferedReader \<Rightarrow> bool \<times> 'd BufferedReader" where
  "buffered_reader_is_safe_to_read reader =
     (if br_state reader \<noteq> StreamStateOpen then (False, reader)
      else if br_cursor reader > length (br_buffer reader)
      then (False, reader\<lparr>br_state := StreamStateError\<rparr>)
      else (True, reader))"

text \<open>
  The new block has \<open>size + amount\<close> bytes in \<open>size_t\<close> arithmetic. When that wraps around, the block
  is smaller than the data it holds and the address \<open>new_buffer + size\<close> lies outside of it.
\<close>

definition buffered_reader_get_more_data_partially ::
  "(nat \<Rightarrow> bool) \<Rightarrow> 'd io \<Rightarrow> 'd BufferedReader \<Rightarrow> nat \<Rightarrow> (unit, nat \<times> 'd BufferedReader) res" where
  "buffered_reader_get_more_data_partially alloc io reader amount =
     (case buffered_reader_is_safe_to_read reader of (safe, reader1) \<Rightarrow>
      if \<not> safe then Ok (0, reader1)
      else
        (let size = length (br_buffer reader1); new_size = size_add size amount in
         if \<not> alloc new_size then Ok (0, reader1\<lparr>br_state := StreamStateError\<rparr>)
         else if new_size < size + amount then Undef OutOfBounds
         else
           (case read_from_descriptor io (br_descriptor reader1) amount of (r, d') \<Rightarrow>
              (case r of
                 ReadResultTypeEOF \<Rightarrow>
                   Ok (0, reader1\<lparr>br_descriptor := d', br_state := StreamStateClosed\<rparr>)
               | ReadResultTypeError \<Rightarrow>
                   Ok (0, reader1\<lparr>br_descriptor := d', br_state := StreamStateError\<rparr>)
               | ReadResultTypeSuccess bs \<Rightarrow>
                   Ok (length bs, reader1\<lparr>br_descriptor := d', br_state := StreamStateOpen,
                                     br_buffer := br_buffer reader1 @ bs\<rparr>)))))"

lemma partially_progress:
  "buffered_reader_get_more_data_partially alloc io reader amount = Ok (data_read, reader') \<Longrightarrow>
   br_state reader' = StreamStateOpen \<Longrightarrow> 0 < data_read"
  by (auto simp: buffered_reader_get_more_data_partially_def Let_def read_from_descriptor_def
        buffered_reader_is_safe_to_read_def
      split: if_splits ReadResult.splits prod.splits ConnectionDescriptor.splits sys_read.splits ssl_read.splits)

function buffered_reader_get_more_data_exact ::
  "(nat \<Rightarrow> bool) \<Rightarrow> 'd io \<Rightarrow> 'd BufferedReader \<Rightarrow> nat \<Rightarrow> (unit, 'd BufferedReader) res" where
  "buffered_reader_get_more_data_exact alloc io reader amount_left =
     (if br_state reader = StreamStateOpen then
        rbind (buffered_reader_get_more_data_partially alloc io reader amount_left)
          (\<lambda>(data_read, reader').
        if data_read > amount_left then Ok (reader'\<lparr>br_state := StreamStateError\<rparr>)
        else if data_read = amount_left then Ok reader'
        else buffered_reader_get_more_data_exact alloc io reader' (amount_left - data_read))
      else Ok reader)"
  by pat_completeness auto
termination
  by (relation "measure (\<lambda>(alloc, io, reader, n). if br_state reader = StreamStateOpen then Suc n else 0)")
    (auto dest: partially_progress)

declare buffered_reader_get_more_data_exact.simps [simp del]

definition buffered_reader_get_more_data_at_least_some ::
  "(nat \<Rightarrow> bool) \<Rightarrow> 'd io \<Rightarrow> 'd BufferedReader \<Rightarrow> nat \<Rightarrow> (unit, 'd BufferedReader) res" where
  "buffered_reader_get_more_data_at_least_some alloc io reader amount =
     rbind (buffered_reader_get_more_data_partially alloc io reader amount) (\<lambda>(data_read, reader').
     if br_state reader' = StreamStateOpen \<and> data_read < 1
     then Ok (reader'\<lparr>br_state := StreamStateError\<rparr>) else Ok reader')"

definition get_available_data_length :: "'d BufferedReader \<Rightarrow> nat \<times> 'd BufferedReader" where
  "get_available_data_length reader =
     (case buffered_reader_is_safe_to_read reader of (safe, reader1) \<Rightarrow>
      if \<not> safe then (0, reader1) else (length (br_buffer reader1) - br_cursor reader1, reader1))"

definition buffered_reader_get_data_until ::
  "(nat \<Rightarrow> bool) \<Rightarrow> 'd io \<Rightarrow> 'd BufferedReader \<Rightarrow> nat \<Rightarrow> (unit, 'd BufferedReader) res" where
  "buffered_reader_get_data_until alloc io reader amount =
     (case get_available_data_length reader of (current_amount, reader1) \<Rightarrow>
      if current_amount \<ge> amount then Ok reader1
      else buffered_reader_get_more_data_exact alloc io reader1 (amount - current_amount))"

text \<open>The result of a reader that is not open any more.\<close>

definition not_open_result :: "'d BufferedReader \<Rightarrow> BufferedReadResult" where
  "not_open_result reader =
     (if br_state reader = StreamStateClosed then BufferedReadResultTypeEOF else BufferedReadResultTypeErr)"

definition buffered_reader_get_amount ::
  "(nat \<Rightarrow> bool) \<Rightarrow> 'd io \<Rightarrow> 'd BufferedReader \<Rightarrow> nat \<Rightarrow> (unit, BufferedReadResult \<times> 'd BufferedReader) res"
where
  "buffered_reader_get_amount alloc io reader amount =
     (case buffered_reader_is_safe_to_read reader of (safe, reader1) \<Rightarrow>
      if \<not> safe then Ok (not_open_result reader1, reader1)
      else
        rbind (buffered_reader_get_data_until alloc io reader1 amount) (\<lambda>reader2.
        if br_state reader2 \<noteq> StreamStateOpen then Ok (not_open_result reader2, reader2)
        else
          rbind (check_assert (br_cursor reader2 = br_cursor reader1)) (\<lambda>_.
          case get_available_data_length reader2 of (available, reader3) \<Rightarrow>
          if available < amount then Ok (BufferedReadResultTypeErr, reader3)
          else Ok (BufferedReadResultTypeOk (take amount (drop (br_cursor reader3) (br_buffer reader3))),
                   reader3\<lparr>br_cursor := br_cursor reader3 + amount\<rparr>))))"

text \<open>
  The scan for a delimiter. \<open>delimiter_bytes\<close> is the memory behind the delimiter pointer, which for a
  C string includes the terminator, \<open>delimiter_len\<close> the length. The peer may send for ever without the
  delimiter: \<open>None\<close> is the scan that does not end.
\<close>

partial_function (option) delimiter_loop ::
  "(nat \<Rightarrow> bool) \<Rightarrow> 'd io \<Rightarrow> bytes \<Rightarrow> nat \<Rightarrow> nat \<Rightarrow> nat \<Rightarrow> 'd BufferedReader
     \<Rightarrow> (unit, BufferedReadResult \<times> 'd BufferedReader) res option" where
  "delimiter_loop alloc io delimiter_bytes delimiter_len start_cursor delimiter_index reader =
     (case (if br_cursor reader \<ge> length (br_buffer reader)
            then buffered_reader_get_more_data_at_least_some alloc io reader 512
            else Ok reader) of
        Undef u \<Rightarrow> Some (Undef u)
      | Err e \<Rightarrow> Some (Err e)
      | Ok reader1 \<Rightarrow>
          if br_cursor reader \<ge> length (br_buffer reader) \<and> br_state reader1 \<noteq> StreamStateOpen
          then Some (Ok (not_open_result reader1, reader1))
          else if br_cursor reader1 \<ge> length (br_buffer reader1) \<or> delimiter_index \<ge> length delimiter_bytes
          then Some (Undef OutOfBounds)
          else
            (let reader2 = reader1\<lparr>br_cursor := br_cursor reader1 + 1\<rparr> in
             if br_buffer reader1 ! br_cursor reader1 = delimiter_bytes ! delimiter_index then
               if delimiter_index + 1 \<ge> delimiter_len then
                 Some (Ok (BufferedReadResultTypeOk
                        (take (size_sub (br_cursor reader2 - start_cursor) delimiter_len)
                           (drop start_cursor (br_buffer reader2))), reader2))
               else delimiter_loop alloc io delimiter_bytes delimiter_len start_cursor
                      (delimiter_index + 1) reader2
             else delimiter_loop alloc io delimiter_bytes delimiter_len start_cursor 0 reader2))"

definition buffered_reader_get_until_delimiter_impl ::
  "(nat \<Rightarrow> bool) \<Rightarrow> 'd io \<Rightarrow> bytes \<Rightarrow> nat \<Rightarrow> 'd BufferedReader
     \<Rightarrow> (unit, BufferedReadResult \<times> 'd BufferedReader) res option" where
  "buffered_reader_get_until_delimiter_impl alloc io delimiter_bytes delimiter_len reader =
     (case buffered_reader_is_safe_to_read reader of (safe, reader1) \<Rightarrow>
      if \<not> safe then Some (Ok (not_open_result reader1, reader1))
      else delimiter_loop alloc io delimiter_bytes delimiter_len (br_cursor reader1) 0 reader1)"

definition buffered_reader_get_until_delimiter ::
  "(nat \<Rightarrow> bool) \<Rightarrow> 'd io \<Rightarrow> bytes \<Rightarrow> 'd BufferedReader
     \<Rightarrow> (unit, BufferedReadResult \<times> 'd BufferedReader) res option" where
  "buffered_reader_get_until_delimiter alloc io delimiter reader =
     buffered_reader_get_until_delimiter_impl alloc io (delimiter @ [0]) (length delimiter) reader"

definition buffered_reader_get_until_delimiter_fixed ::
  "(nat \<Rightarrow> bool) \<Rightarrow> 'd io \<Rightarrow> bytes \<Rightarrow> 'd BufferedReader
     \<Rightarrow> (unit, BufferedReadResult \<times> 'd BufferedReader) res option" where
  "buffered_reader_get_until_delimiter_fixed alloc io delimiter reader =
     buffered_reader_get_until_delimiter_impl alloc io delimiter (length delimiter) reader"

partial_function (option) until_end_loop ::
  "(nat \<Rightarrow> bool) \<Rightarrow> 'd io \<Rightarrow> 'd BufferedReader \<Rightarrow> (unit, 'd BufferedReader) res option" where
  "until_end_loop alloc io reader =
     (case buffered_reader_get_more_data_exact alloc io reader 512 of
        Undef u \<Rightarrow> Some (Undef u)
      | Err e \<Rightarrow> Some (Err e)
      | Ok reader1 \<Rightarrow>
          if br_state reader1 = StreamStateOpen then until_end_loop alloc io reader1 else Some (Ok reader1))"

definition buffered_reader_get_until_end ::
  "(nat \<Rightarrow> bool) \<Rightarrow> 'd io \<Rightarrow> 'd BufferedReader
     \<Rightarrow> (unit, BufferedReadResult \<times> 'd BufferedReader) res option" where
  "buffered_reader_get_until_end alloc io reader =
     (case buffered_reader_is_safe_to_read reader of (safe, reader1) \<Rightarrow>
      if \<not> safe then
        Some (Ok (if br_state reader1 = StreamStateClosed then BufferedReadResultTypeOk []
                  else BufferedReadResultTypeErr, reader1))
      else
        (case until_end_loop alloc io reader1 of
           None \<Rightarrow> None
         | Some r \<Rightarrow>
             Some (rbind r (\<lambda>reader2.
               if br_state reader2 \<noteq> StreamStateClosed then Ok (BufferedReadResultTypeErr, reader2)
               else
                 rbind (check_assert (br_cursor reader2 = br_cursor reader1)) (\<lambda>_.
                 Ok (BufferedReadResultTypeOk (drop (br_cursor reader2) (br_buffer reader2)),
                     reader2\<lparr>br_cursor := length (br_buffer reader2), br_state := StreamStateClosed\<rparr>))))))"

definition buffered_reader_invalidate_old_data ::
  "(nat \<Rightarrow> bool) \<Rightarrow> 'd BufferedReader \<Rightarrow> 'd BufferedReader" where
  "buffered_reader_invalidate_old_data alloc reader =
     (case buffered_reader_is_safe_to_read reader of (safe, reader1) \<Rightarrow>
      if \<not> safe then reader1
      else
        (case get_available_data_length reader1 of (available_length, reader2) \<Rightarrow>
         if available_length = 0 then reader2\<lparr>br_buffer := [], br_cursor := 0\<rparr>
         else if \<not> alloc available_length then reader2
         else reader2\<lparr>br_buffer := take available_length (drop (br_cursor reader1) (br_buffer reader2)),
                      br_cursor := 0\<rparr>))"

definition buffered_reader_has_more_data :: "'d BufferedReader \<Rightarrow> bool" where
  "buffered_reader_has_more_data reader =
     (if br_state reader = StreamStateClosed then True
      else if br_cursor reader < length (br_buffer reader) then False
      else True)"

section \<open>Connections that keep their bytes\<close>

text \<open>
  \<open>incoming d\<close> are the bytes the peer has sent or will send before it closes, \<open>outgoing d\<close> the bytes
  written so far. \<open>reliable_io\<close> states the documented behaviour of the calls on such a connection:
  a read of \<open>n\<close> bytes takes a non-empty piece of at most \<open>n\<close> bytes, and nothing only at the end; a
  write takes a non-empty prefix of what it is offered.
\<close>

definition reliable_read :: "('d \<Rightarrow> bytes) \<Rightarrow> ('d \<Rightarrow> bytes) \<Rightarrow> ('d \<Rightarrow> nat \<Rightarrow> bytes option \<times> 'd) \<Rightarrow> bool" where
  "reliable_read incoming outgoing rd \<longleftrightarrow>
     (\<forall>d n. n > 0 \<longrightarrow>
        (\<exists>bs d'. rd d n = (Some bs, d') \<and> length bs \<le> n \<and> incoming d = bs @ incoming d' \<and>
                 (bs = [] \<longrightarrow> incoming d = []) \<and> outgoing d' = outgoing d))"

definition reliable_write :: "('d \<Rightarrow> bytes) \<Rightarrow> ('d \<Rightarrow> bytes) \<Rightarrow> ('d \<Rightarrow> bytes \<Rightarrow> nat option \<times> 'd) \<Rightarrow> bool" where
  "reliable_write incoming outgoing wr \<longleftrightarrow>
     (\<forall>d bs. \<exists>k d'. wr d bs = (Some k, d') \<and> k \<le> length bs \<and> (bs \<noteq> [] \<longrightarrow> 0 < k) \<and>
                 outgoing d' = outgoing d @ take k bs \<and> incoming d' = incoming d)"

text \<open>The bytes a read call delivered; no bytes stand for the end of the stream.\<close>

fun sys_bytes :: "sys_read \<Rightarrow> bytes option" where
  "sys_bytes (SysRead bs) = Some bs"
| "sys_bytes SysReadFailed = None"

fun ssl_bytes :: "ssl_read \<Rightarrow> bytes option" where
  "ssl_bytes (SslRead b bs) = Some (b # bs)"
| "ssl_bytes SslZeroReturn = Some []"
| "ssl_bytes SslOtherError = None"

definition reliable_io :: "'d io \<Rightarrow> ('d \<Rightarrow> bytes) \<Rightarrow> ('d \<Rightarrow> bytes) \<Rightarrow> bool" where
  "reliable_io io incoming outgoing \<longleftrightarrow>
     reliable_read incoming outgoing (\<lambda>d n. map_prod sys_bytes id (io_read io d n)) \<and>
     reliable_read incoming outgoing (\<lambda>d n. map_prod ssl_bytes id (io_ssl_read io d n)) \<and>
     reliable_write incoming outgoing (io_write io) \<and>
     reliable_write incoming outgoing (io_ssl_write io)"

text \<open>A connection in memory whose reads and writes move at most \<open>k + 1\<close> bytes at a time.\<close>

record pipe =
  pipe_in :: bytes
  pipe_out :: bytes

definition pipe_io :: "nat \<Rightarrow> pipe io" where
  "pipe_io k =
     \<lparr>io_read = (\<lambda>d n. (SysRead (take (min (Suc k) n) (pipe_in d)),
                        d\<lparr>pipe_in := drop (min (Suc k) n) (pipe_in d)\<rparr>)),
      io_ssl_read = (\<lambda>d n. case take (min (Suc k) n) (pipe_in d) of
                             [] \<Rightarrow> (SslZeroReturn, d)
                           | b # bs \<Rightarrow> (SslRead b bs, d\<lparr>pipe_in := drop (min (Suc k) n) (pipe_in d)\<rparr>)),
      io_write = (\<lambda>d bs. (Some (min (Suc k) (length bs)), d\<lparr>pipe_out := pipe_out d @ take (Suc k) bs\<rparr>)),
      io_ssl_write = (\<lambda>d bs. (Some (min (Suc k) (length bs)), d\<lparr>pipe_out := pipe_out d @ take (Suc k) bs\<rparr>))\<rparr>"

lemma pipe_reliable: "reliable_io (pipe_io k) pipe_in pipe_out"
proof -
  have "reliable_read pipe_in pipe_out (\<lambda>d n. map_prod sys_bytes id (io_read (pipe_io k) d n))"
    by (auto simp: reliable_read_def pipe_io_def)
  moreover have "reliable_read pipe_in pipe_out (\<lambda>d n. map_prod ssl_bytes id (io_ssl_read (pipe_io k) d n))"
    unfolding reliable_read_def
  proof (intro allI impI)
    fix d :: pipe and n :: nat assume n: "0 < n"
    show "\<exists>bs d'. map_prod ssl_bytes id (io_ssl_read (pipe_io k) d n) = (Some bs, d') \<and> length bs \<le> n \<and>
        pipe_in d = bs @ pipe_in d' \<and> (bs = [] \<longrightarrow> pipe_in d = []) \<and> pipe_out d' = pipe_out d"
    proof (cases "take (min (Suc k) n) (pipe_in d)")
      case Nil
      then show ?thesis using n by (auto simp: pipe_io_def)
    next
      case (Cons b bs)
      then have "length (b # bs) \<le> n" "pipe_in d = (b # bs) @ drop (min (Suc k) n) (pipe_in d)"
        by (metis length_take min.bounded_iff min.cobounded2 min.commute, metis append_take_drop_id Cons)
      with Cons show ?thesis by (simp add: pipe_io_def)
    qed
  qed
  moreover have "reliable_write pipe_in pipe_out (io_write (pipe_io k))"
    and "reliable_write pipe_in pipe_out (io_ssl_write (pipe_io k))"
    by (auto simp: reliable_write_def pipe_io_def min_def)
  ultimately show ?thesis by (simp add: reliable_io_def)
qed

section \<open>Reading\<close>

text \<open>The bytes a reader still has to hand out, and the readers the theorems start from.\<close>

abbreviation incoming_of :: "('d \<Rightarrow> bytes) \<Rightarrow> 'd BufferedReader \<Rightarrow> bytes" where
  "incoming_of incoming reader \<equiv> incoming (channel (br_descriptor reader))"

definition pending :: "('d \<Rightarrow> bytes) \<Rightarrow> 'd BufferedReader \<Rightarrow> bytes" where
  "pending incoming reader = drop (br_cursor reader) (br_buffer reader) @ incoming_of incoming reader"

definition reader_ready ::
  "(nat \<Rightarrow> bool) \<Rightarrow> 'd io \<Rightarrow> ('d \<Rightarrow> bytes) \<Rightarrow> ('d \<Rightarrow> bytes) \<Rightarrow> 'd BufferedReader \<Rightarrow> bool" where
  "reader_ready alloc io incoming outgoing reader \<longleftrightarrow>
     reliable_io io incoming outgoing \<and> (\<forall>n. alloc n) \<and> br_state reader = StreamStateOpen \<and>
     br_cursor reader \<le> length (br_buffer reader) \<and>
     length (br_buffer reader) + length (incoming_of incoming reader) < 2 ^ 63"

lemma through_int_small [simp]:
  assumes "n < 2 ^ 31"
  shows "through_int n = n"
proof -
  have "sint (word_of_nat n :: u32) = int n"
    using assms by (simp add: signed_of_nat signed_take_bit_int_eq_self)
  then have "(scast (word_of_nat n :: u32) :: u64) = word_of_nat n" by (simp add: scast_eq)
  with assms show ?thesis by (simp add: through_int_def)
qed

lemma reliable_readD:
  "reliable_read incoming outgoing rd \<Longrightarrow> 0 < n \<Longrightarrow>
   \<exists>bs d'. rd d n = (Some bs, d') \<and> length bs \<le> n \<and> incoming d = bs @ incoming d' \<and>
     (bs = [] \<longrightarrow> incoming d = []) \<and> outgoing d' = outgoing d"
  by (simp add: reliable_read_def)

lemma read_from_reliable:
  assumes rel: "reliable_io io incoming outgoing" and n: "0 < n" "n < 2 ^ 31"
  shows "\<exists>bs d'. read_from_descriptor io d n =
      (if bs = [] then ReadResultTypeEOF else ReadResultTypeSuccess bs, d') \<and>
    length bs \<le> n \<and> incoming (channel d) = bs @ incoming (channel d') \<and>
    (bs = [] \<longrightarrow> incoming (channel d) = []) \<and> outgoing (channel d') = outgoing (channel d)"
proof (cases d)
  case (NormalDescriptor c)
  have "reliable_read incoming outgoing (\<lambda>d n. map_prod sys_bytes id (io_read io d n))"
    using rel by (simp add: reliable_io_def)
  from reliable_readD [OF this n(1), of c] obtain r c' bs where rd: "io_read io c n = (r, c')"
    and bs: "sys_bytes r = Some bs" "length bs \<le> n" "incoming c = bs @ incoming c'"
      "bs = [] \<longrightarrow> incoming c = []" "outgoing c' = outgoing c"
    by (cases "io_read io c n") auto
  from bs(1) have "r = SysRead bs" by (cases r) simp_all
  with bs rd NormalDescriptor show ?thesis
    by (intro exI [of _ bs] exI [of _ "NormalDescriptor c'"]) (simp add: read_from_descriptor_def)
next
  case (SecureDescriptor c)
  have "reliable_read incoming outgoing (\<lambda>d n. map_prod ssl_bytes id (io_ssl_read io d n))"
    using rel by (simp add: reliable_io_def)
  from reliable_readD [OF this n(1), of c] obtain r c' bs where rd: "io_ssl_read io c n = (r, c')"
    and bs: "ssl_bytes r = Some bs" "length bs \<le> n" "incoming c = bs @ incoming c'"
      "bs = [] \<longrightarrow> incoming c = []" "outgoing c' = outgoing c"
    by (cases "io_ssl_read io c n") auto
  from bs(1) have "r = (case bs of [] \<Rightarrow> SslZeroReturn | b # bs' \<Rightarrow> SslRead b bs')"
    by (cases r) auto
  with bs rd n SecureDescriptor show ?thesis
    by (intro exI [of _ bs] exI [of _ "SecureDescriptor c'"])
      (auto simp: read_from_descriptor_def split: list.splits)
qed

lemma partially_ready:
  assumes ready: "reader_ready alloc io incoming outgoing reader" and n: "0 < n" "n < 2 ^ 31"
  shows "\<exists>bs d'. buffered_reader_get_more_data_partially alloc io reader n =
       Ok (length bs, reader\<lparr>br_descriptor := d', br_buffer := br_buffer reader @ bs,
             br_state := (if bs = [] then StreamStateClosed else StreamStateOpen)\<rparr>) \<and>
    length bs \<le> n \<and> incoming_of incoming reader = bs @ incoming (channel d') \<and>
    (bs = [] \<longrightarrow> incoming_of incoming reader = []) \<and>
    outgoing (channel d') = outgoing (channel (br_descriptor reader))"
proof -
  from ready have "reliable_io io incoming outgoing" by (simp add: reader_ready_def)
  from read_from_reliable [OF this n, of "br_descriptor reader"] obtain bs d' where
    bs: "read_from_descriptor io (br_descriptor reader) n =
        (if bs = [] then ReadResultTypeEOF else ReadResultTypeSuccess bs, d')"
      "length bs \<le> n" "incoming_of incoming reader = bs @ incoming (channel d')"
      "bs = [] \<longrightarrow> incoming_of incoming reader = []"
      "outgoing (channel d') = outgoing (channel (br_descriptor reader))" by blast
  have "size_add (length (br_buffer reader)) n = length (br_buffer reader) + n"
    using ready n by (simp add: reader_ready_def size_simps)
  with bs ready have "buffered_reader_get_more_data_partially alloc io reader n =
       Ok (length bs, reader\<lparr>br_descriptor := d', br_buffer := br_buffer reader @ bs,
             br_state := (if bs = [] then StreamStateClosed else StreamStateOpen)\<rparr>)"
    by (simp add: buffered_reader_get_more_data_partially_def buffered_reader_is_safe_to_read_def
        reader_ready_def)
  with bs show ?thesis by blast
qed

lemma exact_ready:
  assumes "reader_ready alloc io incoming outgoing reader" "0 < n" "n < 2 ^ 31"
  shows "\<exists>d'. buffered_reader_get_more_data_exact alloc io reader n =
       Ok (reader\<lparr>br_descriptor := d', br_buffer := br_buffer reader @ take n (incoming_of incoming reader),
             br_state := (if n \<le> length (incoming_of incoming reader) then StreamStateOpen
                          else StreamStateClosed)\<rparr>) \<and>
    incoming (channel d') = drop n (incoming_of incoming reader) \<and>
    outgoing (channel d') = outgoing (channel (br_descriptor reader))"
  using assms
proof (induction n arbitrary: reader rule: less_induct)
  case (less n)
  obtain bs d' where step:
    "buffered_reader_get_more_data_partially alloc io reader n =
       Ok (length bs, reader\<lparr>br_descriptor := d', br_buffer := br_buffer reader @ bs,
             br_state := (if bs = [] then StreamStateClosed else StreamStateOpen)\<rparr>)"
    and bs: "length bs \<le> n" "incoming_of incoming reader = bs @ incoming (channel d')"
      "bs = [] \<longrightarrow> incoming_of incoming reader = []"
      "outgoing (channel d') = outgoing (channel (br_descriptor reader))"
    using partially_ready [OF less.prems] by blast
  have opn: "br_state reader = StreamStateOpen" using less.prems by (simp add: reader_ready_def)
  note unf = buffered_reader_get_more_data_exact.simps
  consider "bs = []" | "bs \<noteq> []" "length bs = n" | "bs \<noteq> []" "length bs < n" using bs(1) by linarith
  then show ?case
  proof cases
    case 1
    with step bs opn less.prems(2) show ?thesis
      by (intro exI [of _ d']) (simp add: unf [of _ _ reader n], subst unf, simp)
  next
    case 2
    with step bs opn show ?thesis by (intro exI [of _ d']) (simp add: unf [of _ _ reader n])
  next
    case 3
    let ?r = "reader\<lparr>br_descriptor := d', br_buffer := br_buffer reader @ bs, br_state := StreamStateOpen\<rparr>"
    have "reader_ready alloc io incoming outgoing ?r"
      using less.prems(1) bs by (simp add: reader_ready_def)
    moreover have "n - length bs < 2 ^ 31" using less.prems(3) by linarith
    ultimately obtain d'' where
      "buffered_reader_get_more_data_exact alloc io ?r (n - length bs) =
       Ok (?r\<lparr>br_descriptor := d'', br_buffer := br_buffer ?r @ take (n - length bs) (incoming_of incoming ?r),
             br_state := (if n - length bs \<le> length (incoming_of incoming ?r) then StreamStateOpen
                          else StreamStateClosed)\<rparr>)"
      "incoming (channel d'') = drop (n - length bs) (incoming_of incoming ?r)"
      "outgoing (channel d'') = outgoing (channel (br_descriptor ?r))"
      using less.IH [of "n - length bs" ?r] 3 by auto
    with step bs opn 3 show ?thesis
      by (intro exI [of _ d'']) (auto simp: unf [of _ _ reader n])
  qed
qed

lemmas reader_defs = buffered_reader_get_amount_def buffered_reader_get_data_until_def
  get_available_data_length_def buffered_reader_is_safe_to_read_def not_open_result_def check_assert_def

lemma get_amount_ready:
  assumes ready: "reader_ready alloc io incoming outgoing reader" and "amount < 2 ^ 31"
  shows "\<exists>reader'. buffered_reader_get_amount alloc io reader amount =
      Ok (if amount \<le> length (pending incoming reader)
          then BufferedReadResultTypeOk (take amount (pending incoming reader))
          else BufferedReadResultTypeEOF, reader') \<and>
    (if amount \<le> length (pending incoming reader)
     then reader_ready alloc io incoming outgoing reader' \<and>
          pending incoming reader' = drop amount (pending incoming reader)
     else br_state reader' = StreamStateClosed) \<and>
    outgoing (channel (br_descriptor reader')) = outgoing (channel (br_descriptor reader))"
proof (cases "amount \<le> length (br_buffer reader) - br_cursor reader")
  case True
  then show ?thesis using ready
    by (auto simp: reader_defs reader_ready_def pending_def add.commute)
next
  case False
  let ?n = "amount - (length (br_buffer reader) - br_cursor reader)"
  have n: "0 < ?n" "?n < 2 ^ 31" using False assms(2) by linarith+
  obtain d' where ex: "buffered_reader_get_more_data_exact alloc io reader ?n =
       Ok (reader\<lparr>br_descriptor := d', br_buffer := br_buffer reader @ take ?n (incoming_of incoming reader),
             br_state := (if ?n \<le> length (incoming_of incoming reader) then StreamStateOpen
                          else StreamStateClosed)\<rparr>)"
    "incoming (channel d') = drop ?n (incoming_of incoming reader)"
    "outgoing (channel d') = outgoing (channel (br_descriptor reader))"
    using exact_ready [OF ready n] by blast
  have cur: "br_cursor reader \<le> length (br_buffer reader)" "br_state reader = StreamStateOpen"
    using ready by (simp_all add: reader_ready_def)
  show ?thesis
  proof (cases "?n \<le> length (incoming_of incoming reader)")
    case True
    with False cur have "amount \<le> length (pending incoming reader)" by (simp add: pending_def)
    with True False cur ex ready show ?thesis
      by (simp add: reader_defs reader_ready_def pending_def)
  next
    case short: False
    with False cur have "\<not> amount \<le> length (pending incoming reader)" by (simp add: pending_def)
    with short False cur ex show ?thesis
      by (simp add: reader_defs)
  qed
qed

section \<open>The interface to the parsers\<close>

text \<open>
  What the protocol parsers rely on: a request for \<open>n\<close> bytes hands out the next \<open>n\<close> bytes of the
  stream, or reports its end. Every sequence of requests is then a function of the stream alone.
\<close>

fun read_pieces ::
  "('r \<Rightarrow> nat \<Rightarrow> (unit, BufferedReadResult \<times> 'r) res) \<Rightarrow> 'r \<Rightarrow> nat list \<Rightarrow> BufferedReadResult list" where
  "read_pieces get r [] = []"
| "read_pieces get r (n # ns) =
     (case get r n of
        Ok (BufferedReadResultTypeOk bs, r') \<Rightarrow> BufferedReadResultTypeOk bs # read_pieces get r' ns
      | Ok (e, r') \<Rightarrow> [e]
      | _ \<Rightarrow> [])"

fun cut_pieces :: "bytes \<Rightarrow> nat list \<Rightarrow> BufferedReadResult list" where
  "cut_pieces stream [] = []"
| "cut_pieces stream (n # ns) =
     (if n \<le> length stream then BufferedReadResultTypeOk (take n stream) # cut_pieces (drop n stream) ns
      else [BufferedReadResultTypeEOF])"

locale byte_reader =
  fixes get :: "'r \<Rightarrow> nat \<Rightarrow> (unit, BufferedReadResult \<times> 'r) res"
    and ready :: "'r \<Rightarrow> bool"
    and left :: "'r \<Rightarrow> bytes"
    and limit :: nat
  assumes get_ok: "ready r \<Longrightarrow> n < limit \<Longrightarrow> n \<le> length (left r) \<Longrightarrow>
      \<exists>r'. get r n = Ok (BufferedReadResultTypeOk (take n (left r)), r') \<and> ready r' \<and> left r' = drop n (left r)"
    and get_eof: "ready r \<Longrightarrow> n < limit \<Longrightarrow> length (left r) < n \<Longrightarrow>
      \<exists>r'. get r n = Ok (BufferedReadResultTypeEOF, r')"
begin

lemma pieces:
  "ready r \<Longrightarrow> \<forall>n \<in> set ns. n < limit \<Longrightarrow> read_pieces get r ns = cut_pieces (left r) ns"
proof (induction ns arbitrary: r)
  case (Cons n ns)
  then show ?case using get_ok [of r n] get_eof [of r n]
    by (cases "n \<le> length (left r)") auto
qed simp

lemma get_twice:
  assumes "ready r" "m < limit" "n < limit" "m + n \<le> length (left r)"
  shows "read_pieces get r [m, n] =
      [BufferedReadResultTypeOk (take m (left r)), BufferedReadResultTypeOk (take n (drop m (left r)))]"
  using pieces [of r "[m, n]"] assms by simp

end

interpretation buffered: byte_reader "buffered_reader_get_amount alloc io"
  "reader_ready alloc io incoming outgoing" "pending incoming" "2 ^ 31"
  for alloc io incoming outgoing
proof
  fix r :: "'a BufferedReader" and n :: nat
  assume *: "reader_ready alloc io incoming outgoing r" "n < 2 ^ 31"
  show "\<exists>r'. buffered_reader_get_amount alloc io r n =
      Ok (BufferedReadResultTypeOk (take n (pending incoming r)), r') \<and>
      reader_ready alloc io incoming outgoing r' \<and> pending incoming r' = drop n (pending incoming r)"
    if "n \<le> length (pending incoming r)"
    using get_amount_ready [OF *] that by auto
  show "\<exists>r'. buffered_reader_get_amount alloc io r n = Ok (BufferedReadResultTypeEOF, r')"
    if "length (pending incoming r) < n"
    using get_amount_ready [OF *] that by auto
qed



section \<open>Where the size arithmetic wraps around\<close>

lemma exact_safe:
  "length (br_buffer reader) + n < 2 ^ 64 \<Longrightarrow>
   outcome (\<lambda>reader'. br_cursor reader' = br_cursor reader \<and>
       (br_state reader' = StreamStateOpen \<longrightarrow> length (br_buffer reader') \<le> length (br_buffer reader) + n))
     (\<lambda>_. False) (buffered_reader_get_more_data_exact alloc io reader n)"
proof (induction alloc io reader n rule: buffered_reader_get_more_data_exact.induct)
  case (1 alloc io reader n)
  have part: "outcome (\<lambda>(k, reader'). br_cursor reader' = br_cursor reader \<and>
      length (br_buffer reader') = length (br_buffer reader) + k) (\<lambda>_. False)
      (buffered_reader_get_more_data_partially alloc io reader n :: (unit, _) res)"
    using 1(2) by (auto simp: buffered_reader_get_more_data_partially_def Let_def size_simps
        buffered_reader_is_safe_to_read_def split: prod.splits ReadResult.splits)
  have step: "outcome (\<lambda>r. br_cursor r = br_cursor reader \<and>
       (br_state r = StreamStateOpen \<longrightarrow> length (br_buffer r) \<le> length (br_buffer reader) + n)) (\<lambda>_. False)
      (if k > n then Ok (reader'\<lparr>br_state := StreamStateError\<rparr>)
       else if k = n then Ok reader' else buffered_reader_get_more_data_exact alloc io reader' (n - k))"
    if "br_state reader = StreamStateOpen"
      "buffered_reader_get_more_data_partially alloc io reader n = (Ok (k, reader') :: (unit, _) res)" for k reader'
  proof -
    have k: "br_cursor reader' = br_cursor reader" "length (br_buffer reader') = length (br_buffer reader) + k"
      using outcome_OkD [OF part that(2)] by auto
    show ?thesis
    proof (cases "k < n")
      case True
      with 1(2) k have "length (br_buffer reader') + (n - k) < 2 ^ 64" by simp
      with True 1(1) [OF that refl] k show ?thesis by auto
    next
      case False
      with k show ?thesis by auto
    qed
  qed
  show ?case
    by (subst buffered_reader_get_more_data_exact.simps) (auto intro!: outcome_rbind [OF part] step)
qed

lemma get_amount_safe:
  assumes "br_state reader = StreamStateOpen \<longrightarrow> length (br_buffer reader) + amount < 2 ^ 64"
  shows "outcome (\<lambda>(r, reader'). (\<forall>bs. r = BufferedReadResultTypeOk bs \<longrightarrow> length bs = amount) \<and>
      (br_state reader' = StreamStateOpen \<longrightarrow>
        br_state reader = StreamStateOpen \<and> length (br_buffer reader') \<le> length (br_buffer reader) + amount))
    (\<lambda>_. False) (buffered_reader_get_amount alloc io reader amount)"
proof -
  let ?post = "\<lambda>r. br_cursor r = br_cursor reader \<and>
      (br_state r = StreamStateOpen \<longrightarrow> length (br_buffer r) \<le> length (br_buffer reader) + amount)"
  have "outcome ?post (\<lambda>_. False) (buffered_reader_get_data_until alloc io reader amount)"
    if "br_state reader = StreamStateOpen" "br_cursor reader \<le> length (br_buffer reader)"
    using exact_safe [of reader "amount - (length (br_buffer reader) - br_cursor reader)" alloc io] that assms
    by (auto simp: buffered_reader_get_data_until_def get_available_data_length_def
        buffered_reader_is_safe_to_read_def intro: outcome_weaken)
  then show ?thesis
    by (auto simp: buffered_reader_get_amount_def buffered_reader_is_safe_to_read_def check_assert_def
        not_open_result_def get_available_data_length_def intro!: outcome_rbind [where P = ?post])
qed

lemma exact_wraps:
  assumes "br_state reader = StreamStateOpen" "br_cursor reader \<le> length (br_buffer reader)"
    "length (br_buffer reader) < 2 ^ 64" "n < 2 ^ 64" "2 ^ 64 \<le> length (br_buffer reader) + n" "\<forall>m. alloc m"
  shows "buffered_reader_get_more_data_exact alloc io reader n = Undef OutOfBounds"
proof -
  have "size_add (length (br_buffer reader)) n < length (br_buffer reader) + n"
    using assms(5) by (simp add: size_add_def)
  with assms show ?thesis
    by (subst buffered_reader_get_more_data_exact.simps)
      (simp add: buffered_reader_get_more_data_partially_def buffered_reader_is_safe_to_read_def)
qed

text \<open>
  C38. The exact condition under which \<open>buffered_reader_get_amount\<close> corrupts memory: the request
  needs more than what is buffered and \<open>cursor + amount\<close> reaches \<open>2 ^ 64\<close>. The new buffer size wraps
  around then, \<open>realloc\<close> shrinks the block and the read goes behind its end. The amount is the
  \<open>Content-Length\<close> of a request, which no caller bounds, and the cursor stands behind the header by
  then: the largest lengths a client can announce get there.
\<close>

theorem get_amount_undefined_iff:
  assumes "br_state reader = StreamStateOpen" "br_cursor reader \<le> length (br_buffer reader)"
    and "length (br_buffer reader) < 2 ^ 64" "amount < 2 ^ 64"
    and "length (br_buffer reader) - br_cursor reader < amount" "\<forall>n. alloc n"
  shows "(\<exists>u. buffered_reader_get_amount alloc io reader amount = Undef u) \<longleftrightarrow>
         2 ^ 64 \<le> br_cursor reader + amount"
proof -
  let ?n = "amount - (length (br_buffer reader) - br_cursor reader)"
  have sum: "length (br_buffer reader) + ?n = br_cursor reader + amount" using assms by linarith
  have get: "buffered_reader_get_amount alloc io reader amount =
      rbind (buffered_reader_get_more_data_exact alloc io reader ?n) (\<lambda>reader2.
        if br_state reader2 \<noteq> StreamStateOpen then Ok (not_open_result reader2, reader2)
        else
          rbind (check_assert (br_cursor reader2 = br_cursor reader)) (\<lambda>_.
          case get_available_data_length reader2 of (available, reader3) \<Rightarrow>
          if available < amount then Ok (BufferedReadResultTypeErr, reader3)
          else Ok (BufferedReadResultTypeOk (take amount (drop (br_cursor reader3) (br_buffer reader3))),
                   reader3\<lparr>br_cursor := br_cursor reader3 + amount\<rparr>)))"
    using assms by (simp add: buffered_reader_get_amount_def buffered_reader_is_safe_to_read_def
        buffered_reader_get_data_until_def get_available_data_length_def not_le)
  show ?thesis
  proof (cases "2 ^ 64 \<le> br_cursor reader + amount")
    case True
    then show ?thesis using assms sum by (simp add: get exact_wraps)
  next
    case False
    then have safe: "length (br_buffer reader) + ?n < 2 ^ 64" using sum by simp
    have "outcome (\<lambda>_. True) (\<lambda>_. False) (buffered_reader_get_amount alloc io reader amount)"
      unfolding get by (rule outcome_rbind [OF exact_safe [OF safe]]) (auto simp: check_assert_def split: prod.splits)
    with False show ?thesis by auto
  qed
qed

theorem get_amount_undefined_iff_witness:
  "\<exists>u. buffered_reader_get_amount (\<lambda>_. True) (pipe_io 0)
     \<lparr>br_descriptor = NormalDescriptor \<lparr>pipe_in = [], pipe_out = []\<rparr>, br_state = StreamStateOpen,
      br_cursor = 1, br_buffer = [13]\<rparr> 18446744073709551615 = Undef u"
  using get_amount_undefined_iff [of "\<lparr>br_descriptor = NormalDescriptor \<lparr>pipe_in = [], pipe_out = []\<rparr>,
      br_state = StreamStateOpen, br_cursor = 1, br_buffer = [13]\<rparr>" 18446744073709551615 "\<lambda>_. True" "pipe_io 0"]
  by simp

section \<open>Scanning for a delimiter\<close>

lemma delimiter_step:
  assumes ready: "reader_ready alloc io incoming outgoing reader"
    and pend: "pending incoming reader = b # rest" and idx: "idx < length dm"
  shows "\<exists>reader1. reader_ready alloc io incoming outgoing reader1 \<and> pending incoming reader1 = rest \<and>
    br_cursor reader1 = br_cursor reader + 1 \<and>
    take (br_cursor reader1) (br_buffer reader1) = take (br_cursor reader) (br_buffer reader) @ [b] \<and>
    delimiter_loop alloc io dm len start idx reader =
      (if b = dm ! idx then
         if idx + 1 \<ge> len then
           Some (Ok (BufferedReadResultTypeOk
             (take (size_sub (br_cursor reader1 - start) len) (drop start (br_buffer reader1))), reader1))
         else delimiter_loop alloc io dm len start (idx + 1) reader1
       else delimiter_loop alloc io dm len start 0 reader1)"
proof -
  have cur: "br_cursor reader \<le> length (br_buffer reader)" "br_state reader = StreamStateOpen"
    using ready by (simp_all add: reader_ready_def)
  obtain r where r: "(if br_cursor reader \<ge> length (br_buffer reader)
        then buffered_reader_get_more_data_at_least_some alloc io reader 512 else Ok reader) = Ok r"
    "reader_ready alloc io incoming outgoing r" "pending incoming r = b # rest" "br_cursor r = br_cursor reader"
    "take (br_cursor r) (br_buffer r) = take (br_cursor reader) (br_buffer reader)"
    "br_cursor r < length (br_buffer r)"
  proof (cases "br_cursor reader \<ge> length (br_buffer reader)")
    case True
    obtain bs d' where *: "buffered_reader_get_more_data_partially alloc io reader 512 =
       Ok (length bs, reader\<lparr>br_descriptor := d', br_buffer := br_buffer reader @ bs,
             br_state := (if bs = [] then StreamStateClosed else StreamStateOpen)\<rparr>)"
      "incoming_of incoming reader = bs @ incoming (channel d')" "bs = [] \<longrightarrow> incoming_of incoming reader = []"
      using partially_ready [OF ready, of 512] by auto
    from True pend have "incoming_of incoming reader = b # rest" by (simp add: pending_def)
    with * have "bs \<noteq> []" by auto
    then have "buffered_reader_get_more_data_at_least_some alloc io reader 512 =
        Ok (reader\<lparr>br_descriptor := d', br_buffer := br_buffer reader @ bs, br_state := StreamStateOpen\<rparr>)"
      using * by (cases bs) (simp_all add: buffered_reader_get_more_data_at_least_some_def)
    with \<open>bs \<noteq> []\<close> * True cur ready pend show thesis
      by (intro that [of "reader\<lparr>br_descriptor := d', br_buffer := br_buffer reader @ bs, br_state := StreamStateOpen\<rparr>"])
        (auto simp: reader_ready_def pending_def)
  next
    case False
    then show thesis using ready pend by (intro that [of reader]) auto
  qed
  have opn: "br_state r = StreamStateOpen" using r(2) by (simp add: reader_ready_def)
  have dr: "drop (br_cursor r) (br_buffer r) = br_buffer r ! br_cursor r # drop (Suc (br_cursor r)) (br_buffer r)"
    using r(6) by (rule Cons_nth_drop_Suc [symmetric])
  with r(3) have b: "br_buffer r ! br_cursor r = b" by (simp add: pending_def)
  let ?r1 = "r\<lparr>br_cursor := br_cursor r + 1\<rparr>"
  have "pending incoming ?r1 = rest"
    using r(3) dr by (simp add: pending_def)
  moreover have "take (br_cursor ?r1) (br_buffer ?r1) = take (br_cursor reader) (br_buffer reader) @ [b]"
    using r(5,6) b by (simp add: take_Suc_conv_app_nth)
  moreover have "delimiter_loop alloc io dm len start idx reader =
      (if b = dm ! idx then
         if idx + 1 \<ge> len then
           Some (Ok (BufferedReadResultTypeOk
             (take (size_sub (br_cursor ?r1 - start) len) (drop start (br_buffer ?r1))), ?r1))
         else delimiter_loop alloc io dm len start (idx + 1) ?r1
       else delimiter_loop alloc io dm len start 0 ?r1)"
    using r(1,6) b opn idx by (subst delimiter_loop.simps) (simp add: not_le)
  ultimately show ?thesis using r(2,4,6) by (intro exI [of _ ?r1]) (simp add: reader_ready_def)
qed

lemma delimiter_skip:
  assumes "reader_ready alloc io incoming outgoing reader" "pending incoming reader = xs @ rest"
    and "dm \<noteq> []" "dm ! 0 \<notin> set xs"
  shows "\<exists>reader1. reader_ready alloc io incoming outgoing reader1 \<and> pending incoming reader1 = rest \<and>
    br_cursor reader1 = br_cursor reader + length xs \<and>
    take (br_cursor reader1) (br_buffer reader1) = take (br_cursor reader) (br_buffer reader) @ xs \<and>
    delimiter_loop alloc io dm len start 0 reader = delimiter_loop alloc io dm len start 0 reader1"
  using assms
proof (induction xs arbitrary: reader)
  case Nil
  then show ?case by auto
next
  case (Cons x xs)
  from delimiter_step [OF Cons.prems(1), of x "xs @ rest" 0 dm len start] Cons.prems
  obtain r1 where r1: "reader_ready alloc io incoming outgoing r1" "pending incoming r1 = xs @ rest"
    "br_cursor r1 = br_cursor reader + 1"
    "take (br_cursor r1) (br_buffer r1) = take (br_cursor reader) (br_buffer reader) @ [x]"
    "delimiter_loop alloc io dm len start 0 reader = delimiter_loop alloc io dm len start 0 r1"
    by (auto split: if_splits)
  with Cons.IH [OF r1(1,2)] Cons.prems(3,4) show ?case by auto
qed

lemma delimiter_match:
  assumes "reader_ready alloc io incoming outgoing reader" "pending incoming reader = ds @ rest"
    and "dm = pre @ ds @ trail" "len = length pre + length ds" "ds \<noteq> []"
  shows "\<exists>reader1. reader_ready alloc io incoming outgoing reader1 \<and> pending incoming reader1 = rest \<and>
    br_cursor reader1 = br_cursor reader + length ds \<and>
    take (br_cursor reader1) (br_buffer reader1) = take (br_cursor reader) (br_buffer reader) @ ds \<and>
    delimiter_loop alloc io dm len start (length pre) reader =
      Some (Ok (BufferedReadResultTypeOk
        (take (size_sub (br_cursor reader1 - start) len) (drop start (br_buffer reader1))), reader1))"
  using assms
proof (induction ds arbitrary: reader pre)
  case (Cons d ds)
  from delimiter_step [OF Cons.prems(1), of d "ds @ rest" "length pre" dm len start] Cons.prems
  obtain r1 where r1: "reader_ready alloc io incoming outgoing r1" "pending incoming r1 = ds @ rest"
    "br_cursor r1 = br_cursor reader + 1"
    "take (br_cursor r1) (br_buffer r1) = take (br_cursor reader) (br_buffer reader) @ [d]"
    "delimiter_loop alloc io dm len start (length pre) reader =
      (if ds = [] then
           Some (Ok (BufferedReadResultTypeOk
             (take (size_sub (br_cursor r1 - start) len) (drop start (br_buffer r1))), r1))
         else delimiter_loop alloc io dm len start (length (pre @ [d])) r1)"
    by (auto simp: nth_append)
  show ?case
  proof (cases "ds = []")
    case True
    with r1 show ?thesis by (intro exI [of _ r1]) auto
  next
    case False
    with Cons.IH [OF r1(1,2), of "pre @ [d]"] Cons.prems r1 show ?thesis by auto
  qed
qed simp

lemma delimiter_end:
  assumes ready: "reader_ready alloc io incoming outgoing reader" and "pending incoming reader = []"
  shows "\<exists>reader'. delimiter_loop alloc io dm len start idx reader = Some (Ok (BufferedReadResultTypeEOF, reader'))"
proof -
  obtain bs d' where "buffered_reader_get_more_data_partially alloc io reader 512 =
       Ok (length bs, reader\<lparr>br_descriptor := d', br_buffer := br_buffer reader @ bs,
             br_state := (if bs = [] then StreamStateClosed else StreamStateOpen)\<rparr>)"
    "incoming_of incoming reader = bs @ incoming (channel d')"
    using partially_ready [OF ready, of 512] by auto
  with assms(2) show ?thesis
    by (subst delimiter_loop.simps)
      (simp add: pending_def buffered_reader_get_more_data_at_least_some_def not_open_result_def)
qed

lemma until_delimiter_loop:
  "reader_ready alloc io incoming outgoing reader \<Longrightarrow>
   buffered_reader_get_until_delimiter alloc io delimiter reader =
     delimiter_loop alloc io (delimiter @ [0]) (length delimiter) (br_cursor reader) 0 reader"
  by (simp add: buffered_reader_get_until_delimiter_def buffered_reader_get_until_delimiter_impl_def
      buffered_reader_is_safe_to_read_def reader_ready_def)

text \<open>
  The scan ends and finds its delimiter: when the stream is some text without the delimiter's
  first byte, then the delimiter, then a rest, \<open>buffered_reader_get_until_delimiter\<close> hands out exactly
  the text and leaves exactly the rest, however the transport cuts the stream.
\<close>

theorem until_delimiter_finds:
  assumes ready: "reader_ready alloc io incoming outgoing reader"
    and pend: "pending incoming reader = text @ delimiter @ rest"
    and del: "delimiter \<noteq> []" "hd delimiter \<notin> set text"
  shows "\<exists>reader'. buffered_reader_get_until_delimiter alloc io delimiter reader =
           Some (Ok (BufferedReadResultTypeOk text, reader')) \<and>
         reader_ready alloc io incoming outgoing reader' \<and> pending incoming reader' = rest"
proof -
  let ?dm = "delimiter @ [0]" and ?len = "length delimiter" and ?s = "br_cursor reader"
  have dm: "?dm ! 0 \<notin> set text" using del by (simp add: hd_conv_nth nth_append)
  obtain r1 where r1: "reader_ready alloc io incoming outgoing r1" "pending incoming r1 = delimiter @ rest"
    "br_cursor r1 = ?s + length text" "take (br_cursor r1) (br_buffer r1) = take ?s (br_buffer reader) @ text"
    "delimiter_loop alloc io ?dm ?len ?s 0 reader = delimiter_loop alloc io ?dm ?len ?s 0 r1"
    using delimiter_skip [OF ready pend _ dm] by blast
  obtain r2 where r2: "reader_ready alloc io incoming outgoing r2" "pending incoming r2 = rest"
    "br_cursor r2 = br_cursor r1 + length delimiter"
    "take (br_cursor r2) (br_buffer r2) = take (br_cursor r1) (br_buffer r1) @ delimiter"
    "delimiter_loop alloc io ?dm ?len ?s 0 r1 =
      Some (Ok (BufferedReadResultTypeOk (take (size_sub (br_cursor r2 - ?s) ?len) (drop ?s (br_buffer r2))), r2))"
    using delimiter_match [OF r1(1,2), of ?dm "[]" "[0]" ?len ?s] del by auto
  have s: "?s \<le> length (br_buffer reader)" and c2: "br_cursor r2 < 2 ^ 63"
    using ready r2(1) by (auto simp: reader_ready_def)
  have "take (length text) (drop ?s (br_buffer r2)) =
      drop ?s (take (?s + length text) (take (br_cursor r2) (br_buffer r2)))"
    using r1(3) r2(3) by (simp add: drop_take min_def)
  also have "\<dots> = text" using r1(4) r2(4) s by simp
  finally have "take (size_sub (br_cursor r2 - ?s) ?len) (drop ?s (br_buffer r2)) = text"
    using r1(3) r2(3) c2 by (simp add: size_sub_exact)
  with r1 r2 ready show ?thesis by (simp add: until_delimiter_loop)
qed

theorem until_delimiter_finds_witness:
  "\<exists>reader'. buffered_reader_get_until_delimiter (\<lambda>_. True) (pipe_io 1) [13, 10]
     \<lparr>br_descriptor = NormalDescriptor \<lparr>pipe_in = [65, 66, 13, 10, 67], pipe_out = []\<rparr>,
      br_state = StreamStateOpen, br_cursor = 0, br_buffer = []\<rparr> =
     Some (Ok (BufferedReadResultTypeOk [65, 66], reader')) \<and> pending pipe_in reader' = [67]"
  using until_delimiter_finds [of "\<lambda>_. True" "pipe_io 1" pipe_in pipe_out
      "\<lparr>br_descriptor = NormalDescriptor \<lparr>pipe_in = [65, 66, 13, 10, 67], pipe_out = []\<rparr>,
        br_state = StreamStateOpen, br_cursor = 0, br_buffer = []\<rparr>" "[65, 66]" "[13, 10]" "[67]"]
  by (auto simp: reader_ready_def pipe_reliable pending_def)

text \<open>
  The scan does not go back after a partial match: when a carriage return stands directly
  before the line end \<open>\r\n\<close>, the scanner is inside a match when it meets the second \<open>\r\<close>, starts again
  behind it and misses the delimiter. The line is read on to the end of the stream and lost.
\<close>

theorem until_delimiter_misses:
  assumes ready: "reader_ready alloc io incoming outgoing reader"
    and pend: "pending incoming reader = text @ [13, 13, 10]" and "13 \<notin> set text"
  shows "\<exists>reader'. buffered_reader_get_until_delimiter alloc io [13, 10] reader =
           Some (Ok (BufferedReadResultTypeEOF, reader'))"
proof -
  let ?dm = "[13, 10, 0] :: bytes" and ?s = "br_cursor reader"
  obtain r1 where r1: "reader_ready alloc io incoming outgoing r1" "pending incoming r1 = [13, 13, 10]"
    "delimiter_loop alloc io ?dm 2 ?s 0 reader = delimiter_loop alloc io ?dm 2 ?s 0 r1"
    using delimiter_skip [OF ready pend, of ?dm 2 ?s] assms(3) by auto
  obtain r2 where r2: "reader_ready alloc io incoming outgoing r2" "pending incoming r2 = [13, 10]"
    "delimiter_loop alloc io ?dm 2 ?s 0 r1 = delimiter_loop alloc io ?dm 2 ?s 1 r2"
    using delimiter_step [OF r1(1,2), of 0 ?dm 2 ?s] by auto
  obtain r3 where r3: "reader_ready alloc io incoming outgoing r3" "pending incoming r3 = [10]"
    "delimiter_loop alloc io ?dm 2 ?s 1 r2 = delimiter_loop alloc io ?dm 2 ?s 0 r3"
    using delimiter_step [OF r2(1,2), of 1 ?dm 2 ?s] by auto
  obtain r4 where r4: "reader_ready alloc io incoming outgoing r4" "pending incoming r4 = []"
    "delimiter_loop alloc io ?dm 2 ?s 0 r3 = delimiter_loop alloc io ?dm 2 ?s 0 r4"
    using delimiter_step [OF r3(1,2), of 0 ?dm 2 ?s] by auto
  have "buffered_reader_get_until_delimiter alloc io [13, 10] reader = delimiter_loop alloc io ?dm 2 ?s 0 reader"
    using until_delimiter_loop [OF ready, of "[13, 10]"] by (simp add: numeral_2_eq_2)
  with r1(3) r2(3) r3(3) r4(3) delimiter_end [OF r4(1,2)] show ?thesis by simp
qed

theorem until_delimiter_misses_witness:
  "\<exists>reader'. buffered_reader_get_until_delimiter (\<lambda>_. True) (pipe_io 9) [13, 10]
     \<lparr>br_descriptor = NormalDescriptor \<lparr>pipe_in = [65, 13, 13, 10], pipe_out = []\<rparr>,
      br_state = StreamStateOpen, br_cursor = 0, br_buffer = []\<rparr> =
     Some (Ok (BufferedReadResultTypeEOF, reader'))"
  using until_delimiter_misses [of "\<lambda>_. True" "pipe_io 9" pipe_in pipe_out
      "\<lparr>br_descriptor = NormalDescriptor \<lparr>pipe_in = [65, 13, 13, 10], pipe_out = []\<rparr>,
        br_state = StreamStateOpen, br_cursor = 0, br_buffer = []\<rparr>" "[65]"]
  by (auto simp: reader_ready_def pipe_reliable pending_def)

section \<open>Reading to the end, dropping old data, sending\<close>

lemma until_end_loop_ready:
  assumes "reader_ready alloc io incoming outgoing reader"
  shows "\<exists>d'. until_end_loop alloc io reader =
      Some (Ok (reader\<lparr>br_descriptor := d', br_buffer := br_buffer reader @ incoming_of incoming reader,
                   br_state := StreamStateClosed\<rparr>)) \<and> incoming (channel d') = []"
  using assms
proof (induction "length (incoming_of incoming reader)" arbitrary: reader rule: less_induct)
  case less
  let ?inc = "incoming_of incoming reader"
  obtain d' where d': "buffered_reader_get_more_data_exact alloc io reader 512 =
       Ok (reader\<lparr>br_descriptor := d', br_buffer := br_buffer reader @ take 512 ?inc,
             br_state := (if 512 \<le> length ?inc then StreamStateOpen else StreamStateClosed)\<rparr>)"
    "incoming (channel d') = drop 512 ?inc"
    using exact_ready [OF less.prems, of 512] by auto
  show ?case
  proof (cases "512 \<le> length ?inc")
    case False
    with d' show ?thesis by (subst until_end_loop.simps) auto
  next
    case True
    let ?r = "reader\<lparr>br_descriptor := d', br_buffer := br_buffer reader @ take 512 ?inc, br_state := StreamStateOpen\<rparr>"
    have "reader_ready alloc io incoming outgoing ?r" using less.prems d'(2) True by (simp add: reader_ready_def)
    moreover have "length (incoming_of incoming ?r) < length ?inc" using True d'(2) by simp
    ultimately obtain d'' where
      "until_end_loop alloc io ?r = Some (Ok (?r\<lparr>br_descriptor := d'', br_buffer := br_buffer ?r @ drop 512 ?inc,
         br_state := StreamStateClosed\<rparr>))" "incoming (channel d'') = []"
      using less.hyps [of ?r] d'(2) by auto
    with d' True show ?thesis by (subst until_end_loop.simps) auto
  qed
qed

text \<open>
  C39. \<open>buffered_reader_get_until_end\<close> ends on every connection the peer closes, hands out everything
  that was pending and leaves a closed reader with nothing pending.
\<close>

theorem until_end_drains:
  assumes "reader_ready alloc io incoming outgoing reader"
  shows "\<exists>reader'. buffered_reader_get_until_end alloc io reader =
           Some (Ok (BufferedReadResultTypeOk (pending incoming reader), reader')) \<and>
         pending incoming reader' = [] \<and> br_state reader' = StreamStateClosed"
proof -
  obtain d' where "until_end_loop alloc io reader =
      Some (Ok (reader\<lparr>br_descriptor := d', br_buffer := br_buffer reader @ incoming_of incoming reader,
                   br_state := StreamStateClosed\<rparr>))" "incoming (channel d') = []"
    using until_end_loop_ready [OF assms] by blast
  with assms show ?thesis
    by (simp add: buffered_reader_get_until_end_def buffered_reader_is_safe_to_read_def reader_ready_def
        check_assert_def pending_def)
qed

theorem until_end_drains_witness:
  "\<exists>reader'. buffered_reader_get_until_end (\<lambda>_. True) (pipe_io 0)
     \<lparr>br_descriptor = NormalDescriptor \<lparr>pipe_in = [2, 3], pipe_out = []\<rparr>,
      br_state = StreamStateOpen, br_cursor = 1, br_buffer = [0, 1]\<rparr> =
     Some (Ok (BufferedReadResultTypeOk [1, 2, 3], reader'))"
  using until_end_drains [of "\<lambda>_. True" "pipe_io 0" pipe_in pipe_out
      "\<lparr>br_descriptor = NormalDescriptor \<lparr>pipe_in = [2, 3], pipe_out = []\<rparr>,
        br_state = StreamStateOpen, br_cursor = 1, br_buffer = [0, 1]\<rparr>"]
  by (auto simp: reader_ready_def pipe_reliable pending_def)

lemma invalidate_ready:
  assumes "reader_ready alloc io incoming outgoing reader"
  shows "reader_ready alloc io incoming outgoing (buffered_reader_invalidate_old_data alloc reader)"
    and "pending incoming (buffered_reader_invalidate_old_data alloc reader) = pending incoming reader"
    and "br_descriptor (buffered_reader_invalidate_old_data alloc reader) = br_descriptor reader"
  using assms
  by (auto simp: buffered_reader_invalidate_old_data_def get_available_data_length_def
      buffered_reader_is_safe_to_read_def reader_ready_def pending_def)

lemma write_reliable:
  assumes "reliable_io io incoming outgoing"
  shows "\<exists>k d'. write_to_descriptor io d bs = (Some k, d') \<and> k \<le> length bs \<and> (bs \<noteq> [] \<longrightarrow> 0 < k) \<and>
    outgoing (channel d') = outgoing (channel d) @ take k bs \<and> incoming (channel d') = incoming (channel d)"
proof (cases d)
  case (NormalDescriptor c)
  obtain k c' where "io_write io c bs = (Some k, c')" "k \<le> length bs" "bs \<noteq> [] \<longrightarrow> 0 < k"
    "outgoing c' = outgoing c @ take k bs" "incoming c' = incoming c"
    using assms unfolding reliable_io_def reliable_write_def by blast
  with NormalDescriptor show ?thesis
    by (intro exI [of _ k] exI [of _ "NormalDescriptor c'"]) (simp add: write_to_descriptor_def)
next
  case (SecureDescriptor c)
  obtain k c' where "io_ssl_write io c bs = (Some k, c')" "k \<le> length bs" "bs \<noteq> [] \<longrightarrow> 0 < k"
    "outgoing c' = outgoing c @ take k bs" "incoming c' = incoming c"
    using assms unfolding reliable_io_def reliable_write_def by blast
  with SecureDescriptor show ?thesis
    by (intro exI [of _ k] exI [of _ "SecureDescriptor c'"]) (simp add: write_to_descriptor_def)
qed

lemma send_reliable:
  assumes rel: "reliable_io io incoming outgoing"
  shows "\<exists>d'. send_data_to_connection io d bs = (Ok (), d') \<and>
    outgoing (channel d') = outgoing (channel d) @ bs \<and> incoming (channel d') = incoming (channel d)"
proof (induction "length bs" arbitrary: d bs rule: less_induct)
  case less
  obtain k d' where wr: "write_to_descriptor io d bs = (Some k, d')" "k \<le> length bs" "bs \<noteq> [] \<longrightarrow> 0 < k"
    "outgoing (channel d') = outgoing (channel d) @ take k bs" "incoming (channel d') = incoming (channel d)"
    using write_reliable [OF rel] by blast
  show ?case
  proof (cases "k = length bs")
    case True
    with wr show ?thesis by (subst send_data_to_connection.simps) auto
  next
    case False
    with wr(2,3) have k: "0 < k" "k < length bs" by auto
    then have "length (drop k bs) < length bs" by simp
    with less.hyps [OF this, of d'] obtain d'' where
      "send_data_to_connection io d' (drop k bs) = (Ok (), d'')"
      "outgoing (channel d'') = outgoing (channel d') @ drop k bs" "incoming (channel d'') = incoming (channel d')"
      by auto
    with wr k show ?thesis by (subst send_data_to_connection.simps) auto
  qed
qed



end
