(* ===== verification/Http2_Frame.thy ===== *)
theory Http2_Frame
  imports Serialize Buffered_Reader Hpack_State
begin

text \<open>
  HTTP/2 frames (\<open>src/src/http/v2.c\<close>, \<open>src/src/http/v2.h\<close>): the nine-byte frame header, the writers
  \<open>http2_send_*_frame\<close>, the readers \<open>parse_http2_*_frame\<close> and their dispatcher \<open>parse_http2_frame\<close>.
  Readers act on a \<open>BufferedReader\<close>; a protocol violation is answered with a GOAWAY frame on the same
  connection and reported as an error text. The theorems show that frames arrive as they were sent,
  that a successful parse consumes exactly the frame, and which inputs lead to undefined behaviour.
\<close>

section \<open>Actions on a connection\<close>

text \<open>A C function that works on an object and may fail: the outcome and the object afterwards.\<close>

type_synonym ('e, 's, 'a) act = "'s \<Rightarrow> ('e, 'a) res \<times> 's"

definition aret :: "'a \<Rightarrow> ('e, 's, 'a) act" where
  "aret x = (\<lambda>s. (Ok x, s))"

definition alift :: "('e, 'a) res \<Rightarrow> ('e, 's, 'a) act" where
  "alift r = (\<lambda>s. (r, s))"

definition abind :: "('e, 's, 'a) act \<Rightarrow> ('a \<Rightarrow> ('e, 's, 'b) act) \<Rightarrow> ('e, 's, 'b) act" where
  "abind m f = (\<lambda>s. case m s of (Ok x, s') \<Rightarrow> f x s' | (Err e, s') \<Rightarrow> (Err e, s') | (Undef u, s') \<Rightarrow> (Undef u, s'))"

text \<open>
  \<open>h2_alloc n\<close> tells whether an allocation of \<open>n\<close> bytes succeeds, \<open>h2_push n\<close> whether \<open>TVEC_PUSH\<close> onto a
  vector of length \<open>n\<close> does, \<open>h2_insert i\<close> whether the stream map finds room for a new stream \<open>i\<close>; \<open>h2_io\<close> are the system calls, \<open>h2_order\<close> the byte order of the host.
\<close>

record 'd h2_env =
  h2_alloc :: "nat \<Rightarrow> bool"
  h2_push :: "nat \<Rightarrow> bool"
  h2_insert :: "31 word \<Rightarrow> bool"
  h2_io :: "'d io"
  h2_order :: byte_order

section \<open>Data\<close>

text \<open>The bit fields of width 31 and 24 are words of that width.\<close>

type_synonym Http2Identifier = "31 word"
type_synonym tstr_static = string

record Http2RawHeader =
  rh_length :: "24 word"
  rh_type :: u8
  rh_flags :: u8
  rh_stream_identifier :: Http2Identifier

record Http2DataFrame =
  df_content :: bytes
  df_is_end :: bool
  df_identifier :: Http2Identifier

record Http2FramePriority =
  fp_exclusive :: bool
  fp_dependency_identifier :: "31 word"
  fp_weight :: u8

record Http2HeadersFrame =
  hfr_has_priority :: bool
  hfr_priority :: Http2FramePriority
  hfr_block_fragment :: bytes
  hfr_identifier :: Http2Identifier
  hfr_end_stream :: bool
  hfr_end_headers :: bool

record Http2PriorityFrame =
  pf_priority :: Http2FramePriority
  pf_identifier :: Http2Identifier

record Http2RstStreamFrame =
  rf_error_code :: u32
  rf_identifier :: Http2Identifier

record Http2SettingSingleValue =
  sv_identifier :: u16
  sv_value :: u32

record Http2SettingsFrame =
  sf_ack :: bool
  sf_entries :: "Http2SettingSingleValue list"

record Http2PushPromiseFrame =
  ppf_promised_stream_identifier :: Http2Identifier
  ppf_block_fragment :: bytes
  ppf_identifier :: Http2Identifier
  ppf_end_headers :: bool

record Http2PingFrame =
  pgf_ack :: bool
  pgf_opaque_data :: bytes

record Http2GoawayFrame =
  gf_last_stream_id :: Http2Identifier
  gf_error_code :: u32
  gf_additional_debug_data :: bytes

record Http2WindowUpdateFrame =
  wf_window_size_increment :: "31 word"
  wf_identifier :: Http2Identifier

record Http2ContinuationFrame =
  cf_block_fragment :: bytes
  cf_identifier :: Http2Identifier
  cf_end_headers :: bool

datatype Http2Frame =
    Http2FrameTypeData Http2DataFrame
  | Http2FrameTypeHeaders Http2HeadersFrame
  | Http2FrameTypePriority Http2PriorityFrame
  | Http2FrameTypeRstStream Http2RstStreamFrame
  | Http2FrameTypeSettings Http2SettingsFrame
  | Http2FrameTypePushPromise Http2PushPromiseFrame
  | Http2FrameTypePing Http2PingFrame
  | Http2FrameTypeGoaway Http2GoawayFrame
  | Http2FrameTypeWindowUpdate Http2WindowUpdateFrame
  | Http2FrameTypeContinuation Http2ContinuationFrame

text \<open>Frames carry error codes as raw 32-bit values; these are the ones the server sends itself.\<close>

abbreviation (input) Http2ErrorCodeNoError :: u32 where "Http2ErrorCodeNoError \<equiv> 0x0"
abbreviation (input) Http2ErrorCodeProtocolError :: u32 where "Http2ErrorCodeProtocolError \<equiv> 0x1"
abbreviation (input) Http2ErrorCodeInternalError :: u32 where "Http2ErrorCodeInternalError \<equiv> 0x2"
abbreviation (input) Http2ErrorCodeFlowControlError :: u32 where "Http2ErrorCodeFlowControlError \<equiv> 0x3"
abbreviation (input) Http2ErrorCodeStreamClosed :: u32 where "Http2ErrorCodeStreamClosed \<equiv> 0x5"
abbreviation (input) Http2ErrorCodeFrameSizeError :: u32 where "Http2ErrorCodeFrameSizeError \<equiv> 0x6"

record Http2Settings =
  set_header_table_size :: u32
  set_enable_push :: bool
  set_max_concurrent_streams :: u32
  set_initial_window_size :: u32
  set_max_frame_size :: u32
  set_max_header_list_size :: u32

datatype Http2StreamState =
    Http2StreamStateIdle | Http2StreamStateReserved | Http2StreamStateOpen
  | Http2StreamStateHalfClosed | Http2StreamStateClosed

record Http2StreamHeaders =
  sh_finished :: bool
  sh_header_blocks :: "bytes list"

record Http2StreamContent =
  sc_finished :: bool
  sc_data_blocks :: "bytes list"

record Http2Stream =
  st_state :: Http2StreamState
  st_headers :: Http2StreamHeaders
  st_content :: Http2StreamContent
  st_end_stream :: bool
  st_priority :: Http2FramePriority

datatype Http2State = Http2StateTypeOpen | Http2StateTypeClosed u32

text \<open>The states of the header compression are pointers: \<open>None\<close> after a failed allocation.\<close>

record Http2HpackState =
  hs_compress_state :: "HpackCompressState option"
  hs_decompress_state :: "HpackDecompressState option"

record Http2ContextState =
  cs_last_stream_id :: Http2Identifier
  cs_state :: Http2State
  cs_hpack_state :: Http2HpackState

record HTTP2Context =
  ctx_settings :: Http2Settings
  ctx_streams :: "Http2Identifier \<rightharpoonup> Http2Stream"
  ctx_state :: Http2ContextState

definition http2_default_settings :: Http2Settings where
  "http2_default_settings =
     \<lparr>set_header_table_size = 4096, set_enable_push = True, set_max_concurrent_streams = 0xFFFFFFFF,
      set_initial_window_size = 65535, set_max_frame_size = 16384, set_max_header_list_size = 0xFFFFFFFF\<rparr>"

definition get_default_hpack_state :: "(nat \<Rightarrow> bool) \<Rightarrow> nat \<Rightarrow> Http2HpackState" where
  "get_default_hpack_state alloc max_size =
     \<lparr>hs_compress_state = get_default_hpack_compress_state alloc max_size,
      hs_decompress_state = get_default_hpack_decompress_state alloc max_size\<rparr>"

definition http2_default_context_state :: "(nat \<Rightarrow> bool) \<Rightarrow> Http2ContextState" where
  "http2_default_context_state alloc =
     \<lparr>cs_last_stream_id = 0, cs_state = Http2StateTypeOpen, cs_hpack_state = get_default_hpack_state alloc 4096\<rparr>"

definition http2_default_context :: "(nat \<Rightarrow> bool) \<Rightarrow> HTTP2Context" where
  "http2_default_context alloc =
     \<lparr>ctx_settings = http2_default_settings, ctx_streams = Map.empty,
      ctx_state = http2_default_context_state alloc\<rparr>"

section \<open>The frame header\<close>

definition deserialize_identifier :: "byte_order \<Rightarrow> bytes \<Rightarrow> Http2Identifier" where
  "deserialize_identifier ord bs = ucast (deserialize_u32_be_to_host ord bs AND 0x7fffffff)"

definition serialize_identifier :: "byte_order \<Rightarrow> Http2Identifier \<Rightarrow> bytes" where
  "serialize_identifier ord identifier = serialize_u32_host_to_be ord (ucast identifier AND 0x7fffffff)"

definition special_impl_deserialize_u24_be_to_host :: "byte_order \<Rightarrow> bytes \<Rightarrow> u32" where
  "special_impl_deserialize_u24_be_to_host ord bs =
     deserialize_u32_be_to_host ord [0, bs ! 0, bs ! 1, bs ! 2]"

text \<open>The argument is the nine bytes that the caller read.\<close>

definition parse_http2_raw_header :: "byte_order \<Rightarrow> bytes \<Rightarrow> Http2RawHeader" where
  "parse_http2_raw_header ord header_data =
     \<lparr>rh_length = ucast (special_impl_deserialize_u24_be_to_host ord header_data),
      rh_type = header_data ! 3, rh_flags = header_data ! 4,
      rh_stream_identifier = deserialize_identifier ord (drop 5 header_data)\<rparr>"

definition serialize_raw_header :: "byte_order \<Rightarrow> Http2RawHeader \<Rightarrow> bytes" where
  "serialize_raw_header ord header =
     (let length_res = serialize_u32_host_to_be ord (ucast (rh_length header));
          stream_id_res = serialize_identifier ord (rh_stream_identifier header) in
      [length_res ! 1, length_res ! 2, length_res ! 3, rh_type header, rh_flags header,
       stream_id_res ! 0, stream_id_res ! 1, stream_id_res ! 2, stream_id_res ! 3])"

section \<open>Writing frames\<close>

definition http2_send_raw_frame ::
  "'d h2_env \<Rightarrow> Http2RawHeader \<Rightarrow> bytes \<Rightarrow> (unit, 'd ConnectionDescriptor, unit) act" where
  "http2_send_raw_frame env header data =
     (if length data \<noteq> unat (rh_length header) then alift (Err ())
      else
        abind (\<lambda>d. send_data_to_connection (h2_io env) d (serialize_raw_header (h2_order env) header)) (\<lambda>_.
        (\<lambda>d. send_data_to_connection (h2_io env) d data)))"

text \<open>
  The GOAWAY payload is built in an allocated block; its size is computed in 32 bits, the debug data is
  copied with its full size.
\<close>

definition goaway_payload ::
  "'d h2_env \<Rightarrow> u32 \<Rightarrow> Http2Identifier \<Rightarrow> u32 \<Rightarrow> bytes \<Rightarrow> (unit, bytes) res" where
  "goaway_payload env len last_stream_id error_code debug_data =
     (if \<not> h2_alloc env (unat len) then Err ()
      else
        rbind (memcpy_cells (replicate (unat len) None) 0
                 (serialize_identifier (h2_order env) last_stream_id
                    @ serialize_u32_host_to_be (h2_order env) error_code)) (\<lambda>buf.
        rbind (if debug_data = [] then Ok buf else memcpy_cells buf 8 debug_data) read_block))"

definition http2_send_goaway_frame ::
  "'d h2_env \<Rightarrow> Http2Identifier \<Rightarrow> u32 \<Rightarrow> bytes \<Rightarrow> (unit, 'd ConnectionDescriptor, unit) act" where
  "http2_send_goaway_frame env last_stream_id error_code debug_data =
     (let len = (of_nat (length debug_data + 8) :: u32);
          header = \<lparr>rh_length = ucast len, rh_type = 0x07, rh_flags = 0, rh_stream_identifier = 0\<rparr> in
      abind (alift (goaway_payload env len last_stream_id error_code debug_data)) (\<lambda>frame_as_data.
      http2_send_raw_frame env header frame_as_data))"

definition http2_send_rst_stream_frame ::
  "'d h2_env \<Rightarrow> Http2RstStreamFrame \<Rightarrow> (unit, 'd ConnectionDescriptor, unit) act" where
  "http2_send_rst_stream_frame env frame =
     http2_send_raw_frame env
       \<lparr>rh_length = 4, rh_type = 0x03, rh_flags = 0, rh_stream_identifier = rf_identifier frame\<rparr>
       (serialize_u32_host_to_be (h2_order env) (rf_error_code frame))"

text \<open>
  The SETTINGS writer gives the block one byte per entry and writes six bytes for entry \<open>i\<close> at offset
  \<open>i\<close>.
\<close>

fun settings_write_loop ::
  "byte_order \<Rightarrow> membuf \<Rightarrow> nat \<Rightarrow> Http2SettingSingleValue list \<Rightarrow> (unit, membuf) res" where
  "settings_write_loop ord buf i [] = Ok buf"
| "settings_write_loop ord buf i (entry # kept) =
     rbind (memcpy_cells buf i
              (serialize_u16_host_to_be ord (sv_identifier entry) @ serialize_u32_host_to_be ord (sv_value entry)))
       (\<lambda>buf'. settings_write_loop ord buf' (i + 1) kept)"

definition http2_send_settings_frame ::
  "'d h2_env \<Rightarrow> Http2SettingsFrame \<Rightarrow> (unit, 'd ConnectionDescriptor, unit) act" where
  "http2_send_settings_frame env frame =
     (let len = (of_nat (length (sf_entries frame)) :: u32);
          header = \<lparr>rh_length = ucast len, rh_type = 0x04, rh_flags = (if sf_ack frame then 0x1 else 0),
                    rh_stream_identifier = 0\<rparr> in
      if sf_ack frame \<and> len \<noteq> 0 then alift (Err ())
      else if \<not> h2_alloc env (unat len) then alift (Err ())
      else
        abind (alift (rbind (settings_write_loop (h2_order env) (replicate (unat len) None) 0 (sf_entries frame))
                 read_block)) (\<lambda>frame_as_data.
        http2_send_raw_frame env header frame_as_data))"

definition http2_send_ping_frame ::
  "'d h2_env \<Rightarrow> Http2PingFrame \<Rightarrow> (unit, 'd ConnectionDescriptor, unit) act" where
  "http2_send_ping_frame env frame =
     (if length (pgf_opaque_data frame) \<noteq> 8 then alift (Err ())
      else http2_send_raw_frame env
        \<lparr>rh_length = 8, rh_type = 0x06, rh_flags = (if pgf_ack frame then 0x1 else 0), rh_stream_identifier = 0\<rparr>
        (pgf_opaque_data frame))"

definition http2_send_data_frame ::
  "'d h2_env \<Rightarrow> Http2DataFrame \<Rightarrow> (unit, 'd ConnectionDescriptor, unit) act" where
  "http2_send_data_frame env frame =
     http2_send_raw_frame env
       \<lparr>rh_length = of_nat (length (df_content frame)), rh_type = 0x00,
        rh_flags = (if df_is_end frame then 0x01 else 0), rh_stream_identifier = df_identifier frame\<rparr>
       (df_content frame)"

definition http2_send_headers_frame ::
  "'d h2_env \<Rightarrow> Http2HeadersFrame \<Rightarrow> (unit, 'd ConnectionDescriptor, unit) act" where
  "http2_send_headers_frame env frame =
     abind (alift (check_assert (\<not> hfr_has_priority frame))) (\<lambda>_.
     let flags = (if hfr_end_stream frame then 0x01 else 0) OR (if hfr_end_headers frame then 0x04 else 0) in
     http2_send_raw_frame env
       \<lparr>rh_length = of_nat (length (hfr_block_fragment frame)), rh_type = 0x01, rh_flags = flags,
        rh_stream_identifier = hfr_identifier frame\<rparr>
       (hfr_block_fragment frame))"

definition http2_send_continuation_frame ::
  "'d h2_env \<Rightarrow> Http2ContinuationFrame \<Rightarrow> (unit, 'd ConnectionDescriptor, unit) act" where
  "http2_send_continuation_frame env frame =
     http2_send_raw_frame env
       \<lparr>rh_length = of_nat (length (cf_block_fragment frame)), rh_type = 0x09,
        rh_flags = (if cf_end_headers frame then 0x04 else 0), rh_stream_identifier = cf_identifier frame\<rparr>
       (cf_block_fragment frame)"

definition http2_send_connection_error_with_data ::
  "'d h2_env \<Rightarrow> HTTP2Context \<Rightarrow> u32 \<Rightarrow> bytes \<Rightarrow> (unit, 'd ConnectionDescriptor, unit) act" where
  "http2_send_connection_error_with_data env context error_code debug_data =
     http2_send_goaway_frame env (cs_last_stream_id (ctx_state context)) error_code debug_data"

definition http2_send_connection_error ::
  "'d h2_env \<Rightarrow> HTTP2Context \<Rightarrow> u32 \<Rightarrow> tstr_static \<Rightarrow> (unit, 'd ConnectionDescriptor, unit) act" where
  "http2_send_connection_error env context error_code error =
     http2_send_connection_error_with_data env context error_code (map of_char error)"

definition http2_send_stream_error ::
  "'d h2_env \<Rightarrow> u32 \<Rightarrow> Http2Identifier \<Rightarrow> (unit, 'd ConnectionDescriptor, unit) act" where
  "http2_send_stream_error env error_code stream_identifier =
     http2_send_rst_stream_frame env \<lparr>rf_error_code = error_code, rf_identifier = stream_identifier\<rparr>"

section \<open>Reading frames\<close>

text \<open>
  The pieces all readers share: answering with a GOAWAY frame whose outcome is ignored, reading a piece
  of the payload, copying it into a block of its own.
\<close>

definition on_descriptor ::
  "('e, 'd ConnectionDescriptor, 'a) act \<Rightarrow> ('e, 'd BufferedReader, 'a) act" where
  "on_descriptor m = (\<lambda>reader. case m (br_descriptor reader) of (r, d') \<Rightarrow> (r, reader\<lparr>br_descriptor := d'\<rparr>))"

definition connection_error ::
  "'d h2_env \<Rightarrow> HTTP2Context \<Rightarrow> u32 \<Rightarrow> tstr_static \<Rightarrow> (tstr_static, 'd BufferedReader, 'a) act" where
  "connection_error env context error_code error =
     (\<lambda>reader. case on_descriptor (http2_send_connection_error env context error_code error) reader of
        (Undef u, reader') \<Rightarrow> (Undef u, reader')
      | (_, reader') \<Rightarrow> (Err error, reader'))"

definition refuse_if ::
  "bool \<Rightarrow> 'd h2_env \<Rightarrow> HTTP2Context \<Rightarrow> u32 \<Rightarrow> tstr_static \<Rightarrow> (tstr_static, 'd BufferedReader, unit) act" where
  "refuse_if b env context error_code error =
     (if b then connection_error env context error_code error else aret ())"

definition read_or_refuse ::
  "'d h2_env \<Rightarrow> HTTP2Context \<Rightarrow> nat \<Rightarrow> tstr_static \<Rightarrow> (tstr_static, 'd BufferedReader, bytes) act" where
  "read_or_refuse env context amount error =
     (\<lambda>reader. case buffered_reader_get_amount (h2_alloc env) (h2_io env) reader amount of
        Ok (BufferedReadResultTypeOk bs, reader') \<Rightarrow> (Ok bs, reader')
      | Ok (_, reader') \<Rightarrow> connection_error env context Http2ErrorCodeInternalError error reader'
      | Err _ \<Rightarrow> connection_error env context Http2ErrorCodeInternalError error reader
      | Undef u \<Rightarrow> (Undef u, reader))"

definition copy_or_refuse ::
  "'d h2_env \<Rightarrow> HTTP2Context \<Rightarrow> bytes \<Rightarrow> tstr_static \<Rightarrow> (tstr_static, 'd BufferedReader, bytes) act" where
  "copy_or_refuse env context raw error =
     (if raw = [] then aret []
      else if h2_alloc env (length raw) then aret raw
      else connection_error env context Http2ErrorCodeInternalError error)"

text \<open>Padding: the length byte in front of the payload and the zero bytes behind it.\<close>

definition parse_padding_length ::
  "'d h2_env \<Rightarrow> HTTP2Context \<Rightarrow> Http2RawHeader \<Rightarrow> (tstr_static, 'd BufferedReader, nat \<times> nat) act" where
  "parse_padding_length env context header =
     (let payload_length = unat (rh_length header) in
      if rh_flags header AND 0x08 \<noteq> 0 then
        abind (refuse_if (payload_length < 1) env context Http2ErrorCodeProtocolError
                 ''not enough frame data for padding length field(1 byte)'') (\<lambda>_.
        abind (read_or_refuse env context 1 ''Failed to read enough data for the frame header'') (\<lambda>padding_data.
        let padding_length = unat (padding_data ! 0) in
        abind (refuse_if (padding_length \<ge> payload_length - 1) env context Http2ErrorCodeProtocolError
                 ''padding length is greater than remaining length in frame'') (\<lambda>_.
        aret (padding_length, payload_length - 1 - padding_length))))
      else aret (0, payload_length))"

definition check_padding ::
  "'d h2_env \<Rightarrow> HTTP2Context \<Rightarrow> nat \<Rightarrow> (tstr_static, 'd BufferedReader, unit) act" where
  "check_padding env context padding_length =
     (if padding_length \<noteq> 0 then
        abind (read_or_refuse env context padding_length ''Failed to read enough data for the padding data'')
          (\<lambda>padding_data.
        refuse_if (\<exists>b \<in> set padding_data. b \<noteq> 0) env context Http2ErrorCodeProtocolError
          ''padding bytes are not 0'')
      else aret ())"

definition parse_http2_data_frame ::
  "'d h2_env \<Rightarrow> HTTP2Context \<Rightarrow> Http2RawHeader \<Rightarrow> (tstr_static, 'd BufferedReader, Http2Frame) act" where
  "parse_http2_data_frame env context header =
     abind (refuse_if (rh_stream_identifier header = 0) env context Http2ErrorCodeProtocolError
              ''Data Frame doesn't allow stream id 0'') (\<lambda>_.
     abind (refuse_if (rh_flags header AND 0x09 \<noteq> rh_flags header) env context Http2ErrorCodeProtocolError
              ''invalid data frame flags'') (\<lambda>_.
     abind (parse_padding_length env context header) (\<lambda>(padding_length, payload_length).
     abind (read_or_refuse env context payload_length ''Failed to read enough data for the frame data'') (\<lambda>raw.
     abind (copy_or_refuse env context raw ''Failed allocate frame data content buffer'') (\<lambda>content.
     abind (check_padding env context padding_length) (\<lambda>_.
     aret (Http2FrameTypeData
       \<lparr>df_content = content, df_is_end = rh_flags header AND 0x01 \<noteq> 0,
        df_identifier = rh_stream_identifier header\<rparr>)))))))"

definition get_http2_priority_info_from_raw_data :: "byte_order \<Rightarrow> bytes \<Rightarrow> Http2FramePriority" where
  "get_http2_priority_info_from_raw_data ord raw_data =
     (let raw = deserialize_u32_be_to_host ord raw_data in
      \<lparr>fp_exclusive = drop_bit 31 raw \<noteq> 0, fp_dependency_identifier = ucast (raw AND 0x7FFFFFFF),
       fp_weight = raw_data ! 4\<rparr>)"

definition DEFAULT_STREAM_PRIORITY_EXT :: "31 word \<Rightarrow> Http2FramePriority" where
  "DEFAULT_STREAM_PRIORITY_EXT identifier =
     \<lparr>fp_exclusive = False, fp_dependency_identifier = identifier, fp_weight = 16\<rparr>"

definition DEFAULT_STREAM_PRIORITY :: Http2FramePriority where
  "DEFAULT_STREAM_PRIORITY = DEFAULT_STREAM_PRIORITY_EXT 0"

definition parse_headers_priority ::
  "'d h2_env \<Rightarrow> HTTP2Context \<Rightarrow> Http2RawHeader \<Rightarrow> nat
     \<Rightarrow> (tstr_static, 'd BufferedReader, bool \<times> Http2FramePriority \<times> nat) act" where
  "parse_headers_priority env context header payload_length =
     (if rh_flags header AND 0x20 \<noteq> 0 then
        abind (refuse_if (payload_length < 5) env context Http2ErrorCodeProtocolError
                 ''not enough frame data for priority info'') (\<lambda>_.
        abind (read_or_refuse env context 5 ''Failed to read enough data for the frame header'') (\<lambda>priority_data.
        aret (True, get_http2_priority_info_from_raw_data (h2_order env) priority_data, payload_length - 5)))
      else aret (False, DEFAULT_STREAM_PRIORITY, payload_length))"

definition parse_http2_headers_frame ::
  "'d h2_env \<Rightarrow> HTTP2Context \<Rightarrow> Http2RawHeader \<Rightarrow> (tstr_static, 'd BufferedReader, Http2Frame) act" where
  "parse_http2_headers_frame env context header =
     abind (refuse_if (rh_stream_identifier header = 0) env context Http2ErrorCodeProtocolError
              ''Headers Frame doesn't allow stream id 0'') (\<lambda>_.
     abind (refuse_if (rh_flags header AND 0x2D \<noteq> rh_flags header) env context Http2ErrorCodeProtocolError
              ''invalid headers frame flags'') (\<lambda>_.
     abind (parse_padding_length env context header) (\<lambda>(padding_length, payload_length).
     abind (parse_headers_priority env context header payload_length) (\<lambda>(has_priority, priority, payload_length).
     abind (read_or_refuse env context payload_length ''Failed to read enough data for the frame data'') (\<lambda>raw.
     abind (copy_or_refuse env context raw ''Failed allocate headers block fragment buffer'') (\<lambda>block_fragment.
     abind (check_padding env context padding_length) (\<lambda>_.
     aret (Http2FrameTypeHeaders
       \<lparr>hfr_has_priority = has_priority, hfr_priority = priority, hfr_block_fragment = block_fragment,
        hfr_identifier = rh_stream_identifier header, hfr_end_stream = rh_flags header AND 0x01 \<noteq> 0,
        hfr_end_headers = rh_flags header AND 0x04 \<noteq> 0\<rparr>))))))))"

definition parse_http2_priority_frame ::
  "'d h2_env \<Rightarrow> HTTP2Context \<Rightarrow> Http2RawHeader \<Rightarrow> (tstr_static, 'd BufferedReader, Http2Frame) act" where
  "parse_http2_priority_frame env context header =
     abind (refuse_if (rh_stream_identifier header = 0) env context Http2ErrorCodeProtocolError
              ''Priority Frame doesn't allow stream id 0'') (\<lambda>_.
     abind (refuse_if (rh_flags header AND 0 \<noteq> rh_flags header) env context Http2ErrorCodeProtocolError
              ''invalid priority frame flags'') (\<lambda>_.
     abind (refuse_if (unat (rh_length header) \<noteq> 5) env context Http2ErrorCodeFrameSizeError
              ''not enough frame data for priority info'') (\<lambda>_.
     abind (read_or_refuse env context 5 ''Failed to read enough data for the frame header'') (\<lambda>priority_data.
     aret (Http2FrameTypePriority
       \<lparr>pf_priority = get_http2_priority_info_from_raw_data (h2_order env) priority_data,
        pf_identifier = rh_stream_identifier header\<rparr>)))))"

definition parse_http2_rst_stream_frame ::
  "'d h2_env \<Rightarrow> HTTP2Context \<Rightarrow> Http2RawHeader \<Rightarrow> (tstr_static, 'd BufferedReader, Http2Frame) act" where
  "parse_http2_rst_stream_frame env context header =
     abind (refuse_if (rh_stream_identifier header = 0) env context Http2ErrorCodeProtocolError
              ''Rst stream Frame doesn't allow stream id 0'') (\<lambda>_.
     abind (refuse_if (rh_flags header AND 0 \<noteq> rh_flags header) env context Http2ErrorCodeProtocolError
              ''invalid rst stream frame flags'') (\<lambda>_.
     abind (refuse_if (unat (rh_length header) \<noteq> 4) env context Http2ErrorCodeFrameSizeError
              ''not enough frame data for rst stream data'') (\<lambda>_.
     abind (read_or_refuse env context 4 ''Failed to read enough data for the frame header'') (\<lambda>error_code_data.
     aret (Http2FrameTypeRstStream
       \<lparr>rf_error_code = deserialize_u32_be_to_host (h2_order env) error_code_data,
        rf_identifier = rh_stream_identifier header\<rparr>)))))"

text \<open>
  One setting of six bytes: an entry to keep, a setting to skip, or the error code and text of a
  forbidden value.
\<close>

datatype setting_check = SettingKeep | SettingSkip | SettingRefuse u32 tstr_static

definition check_setting :: "u16 \<Rightarrow> u32 \<Rightarrow> setting_check" where
  "check_setting identifier value =
     (if identifier = 0x1 then SettingKeep
      else if identifier = 0x2 then
        (if value \<noteq> 0 \<and> value \<noteq> 1
         then SettingRefuse Http2ErrorCodeProtocolError ''Invalid SETTINGS_ENABLE_PUSH settings value''
         else SettingKeep)
      else if identifier = 0x3 then SettingKeep
      else if identifier = 0x4 then
        (if unat value > 2 ^ 31 - 1
         then SettingRefuse Http2ErrorCodeFlowControlError ''Invalid SETTINGS_INITIAL_WINDOW_SIZE settings value''
         else SettingKeep)
      else if identifier = 0x5 then
        (if unat value > 16777215 + 1 \<or> unat value < 2 ^ 14
         then SettingRefuse Http2ErrorCodeProtocolError ''Invalid SETTINGS_MAX_FRAME_SIZE settings value''
         else SettingKeep)
      else if identifier = 0x6 then SettingKeep
      else SettingSkip)"

function parse_settings_loop ::
  "'d h2_env \<Rightarrow> HTTP2Context \<Rightarrow> bytes \<Rightarrow> Http2SettingSingleValue list
     \<Rightarrow> (tstr_static, 'd BufferedReader, Http2SettingSingleValue list) act" where
  "parse_settings_loop env context data kept =
     (if data = [] then aret kept
      else
        (let identifier = deserialize_u16_be_to_host (h2_order env) data;
             value = deserialize_u32_be_to_host (h2_order env) (drop 2 data) in
         case check_setting identifier value of
           SettingRefuse code error \<Rightarrow> connection_error env context code error
         | SettingSkip \<Rightarrow> parse_settings_loop env context (drop 6 data) kept
         | SettingKeep \<Rightarrow>
             if \<not> h2_push env (length kept) then alift (Err ''OOM in settings array push'')
             else parse_settings_loop env context (drop 6 data)
                    (kept @ [\<lparr>sv_identifier = identifier, sv_value = value\<rparr>])))"
  by pat_completeness auto
termination
  by (relation "measure (\<lambda>(env, context, data, kept). length data)") auto

declare parse_settings_loop.simps [simp del]

definition parse_raw_http2_settings_frame ::
  "'d h2_env \<Rightarrow> HTTP2Context \<Rightarrow> bytes \<Rightarrow> bool \<Rightarrow> (tstr_static, 'd BufferedReader, Http2Frame) act" where
  "parse_raw_http2_settings_frame env context input ack =
     abind (refuse_if (length input mod 6 \<noteq> 0) env context Http2ErrorCodeFrameSizeError
              ''invalid settings frame length, not a multiple of 6'') (\<lambda>_.
     abind (parse_settings_loop env context input []) (\<lambda>kept.
     aret (Http2FrameTypeSettings \<lparr>sf_ack = ack, sf_entries = kept\<rparr>)))"

text \<open>
  The copy of the settings is not checked: after a failed allocation an empty payload is parsed.
\<close>

definition parse_http2_settings_frame ::
  "'d h2_env \<Rightarrow> HTTP2Context \<Rightarrow> Http2RawHeader \<Rightarrow> (tstr_static, 'd BufferedReader, Http2Frame) act" where
  "parse_http2_settings_frame env context header =
     abind (refuse_if (rh_stream_identifier header \<noteq> 0) env context Http2ErrorCodeProtocolError
              ''Settings Frame only allows stream id 0'') (\<lambda>_.
     abind (refuse_if (rh_flags header AND 0x1 \<noteq> rh_flags header) env context Http2ErrorCodeProtocolError
              ''invalid settings frame flags'') (\<lambda>_.
     if rh_flags header AND 0x1 \<noteq> 0 then
       abind (refuse_if (unat (rh_length header) \<noteq> 0) env context Http2ErrorCodeFrameSizeError
                ''ack in settings frame with a non zero payload is invalid'') (\<lambda>_.
       aret (Http2FrameTypeSettings \<lparr>sf_ack = True, sf_entries = []\<rparr>))
     else
       abind (refuse_if (unat (rh_length header) mod 6 \<noteq> 0) env context Http2ErrorCodeFrameSizeError
                ''invalid settings frame length, not a multiple of 6'') (\<lambda>_.
       abind (if unat (rh_length header) > 0
              then abind (read_or_refuse env context (unat (rh_length header))
                            ''Failed to read enough data for the frame data'') (\<lambda>raw.
                   aret (if h2_alloc env (length raw) then raw else []))
              else aret []) (\<lambda>frame_data.
       parse_raw_http2_settings_frame env context frame_data False))))"

text \<open>
  The PUSH_PROMISE reader asks for one byte and reads the promised identifier, four bytes, from there.
\<close>

definition parse_http2_push_promise_frame ::
  "'d h2_env \<Rightarrow> HTTP2Context \<Rightarrow> Http2RawHeader \<Rightarrow> (tstr_static, 'd BufferedReader, Http2Frame) act" where
  "parse_http2_push_promise_frame env context header =
     abind (refuse_if (rh_stream_identifier header \<noteq> 0) env context Http2ErrorCodeProtocolError
              ''Push promise Frame only allows stream id 0'') (\<lambda>_.
     abind (refuse_if (rh_flags header AND 0x0C \<noteq> rh_flags header) env context Http2ErrorCodeProtocolError
              ''invalid push promise frame flags'') (\<lambda>_.
     abind (refuse_if (\<not> set_enable_push (ctx_settings context)) env context Http2ErrorCodeProtocolError
              ''push promise frames are disabled per settings'') (\<lambda>_.
     abind (parse_padding_length env context header) (\<lambda>(padding_length, payload_length).
     abind (refuse_if (payload_length < 4) env context Http2ErrorCodeProtocolError
              ''not enough frame data for promised stream identifier field(4 bytes)'') (\<lambda>_.
     abind (read_or_refuse env context 1 ''Failed to read enough data for the frame header'') (\<lambda>identifier_data.
     abind (if length identifier_data < 4 then alift (Undef OutOfBounds)
            else aret (deserialize_identifier (h2_order env) identifier_data)) (\<lambda>promised_stream_identifier.
     abind (read_or_refuse env context (payload_length - 4) ''Failed to read enough data for the frame data'')
       (\<lambda>raw.
     abind (copy_or_refuse env context raw ''Failed allocate headers block fragment buffer'') (\<lambda>block_fragment.
     abind (check_padding env context padding_length) (\<lambda>_.
     aret (Http2FrameTypePushPromise
       \<lparr>ppf_promised_stream_identifier = promised_stream_identifier, ppf_block_fragment = block_fragment,
        ppf_identifier = rh_stream_identifier header, ppf_end_headers = rh_flags header AND 0x04 \<noteq> 0\<rparr>)))))))))))"

definition parse_http2_ping_frame ::
  "'d h2_env \<Rightarrow> HTTP2Context \<Rightarrow> Http2RawHeader \<Rightarrow> (tstr_static, 'd BufferedReader, Http2Frame) act" where
  "parse_http2_ping_frame env context header =
     abind (refuse_if (rh_stream_identifier header \<noteq> 0) env context Http2ErrorCodeProtocolError
              ''The ping Frame only allows stream id 0'') (\<lambda>_.
     abind (refuse_if (rh_flags header AND 0x1 \<noteq> rh_flags header) env context Http2ErrorCodeProtocolError
              ''invalid ping frame flags'') (\<lambda>_.
     abind (refuse_if (unat (rh_length header) \<noteq> 8) env context Http2ErrorCodeFrameSizeError
              ''not enough frame data for ping data'') (\<lambda>_.
     abind (read_or_refuse env context 8 ''Failed to read enough data for the frame header'') (\<lambda>raw.
     abind (copy_or_refuse env context raw ''Failed allocate frame data content buffer'') (\<lambda>opaque_data.
     aret (Http2FrameTypePing
       \<lparr>pgf_ack = rh_flags header AND 0x1 \<noteq> 0, pgf_opaque_data = opaque_data\<rparr>))))))"

definition parse_http2_goaway_frame ::
  "'d h2_env \<Rightarrow> HTTP2Context \<Rightarrow> Http2RawHeader \<Rightarrow> (tstr_static, 'd BufferedReader, Http2Frame) act" where
  "parse_http2_goaway_frame env context header =
     abind (refuse_if (rh_stream_identifier header \<noteq> 0) env context Http2ErrorCodeProtocolError
              ''The goaway Frame only allows stream id 0'') (\<lambda>_.
     abind (refuse_if (rh_flags header AND 0 \<noteq> rh_flags header) env context Http2ErrorCodeProtocolError
              ''invalid goaway frame flags'') (\<lambda>_.
     abind (refuse_if (unat (rh_length header) < 8) env context Http2ErrorCodeFrameSizeError
              ''invalid goaway frame length, not enough data'') (\<lambda>_.
     abind (read_or_refuse env context 8 ''Failed to read enough data for the frame data'') (\<lambda>data.
     abind (if unat (rh_length header) - 8 > 0
            then abind (read_or_refuse env context (unat (rh_length header) - 8)
                          ''Failed to read enough data for the frame data'') (\<lambda>raw.
                 copy_or_refuse env context raw ''Failed allocate frame data content buffer'')
            else aret []) (\<lambda>additional_debug_data.
     aret (Http2FrameTypeGoaway
       \<lparr>gf_last_stream_id = deserialize_identifier (h2_order env) data,
        gf_error_code = deserialize_u32_be_to_host (h2_order env) (drop 4 data),
        gf_additional_debug_data = additional_debug_data\<rparr>))))))"

definition parse_http2_window_update_frame ::
  "'d h2_env \<Rightarrow> HTTP2Context \<Rightarrow> Http2RawHeader \<Rightarrow> (tstr_static, 'd BufferedReader, Http2Frame) act" where
  "parse_http2_window_update_frame env context header =
     abind (refuse_if (rh_flags header AND 0 \<noteq> rh_flags header) env context Http2ErrorCodeProtocolError
              ''invalid windows update frame flags'') (\<lambda>_.
     abind (refuse_if (unat (rh_length header) \<noteq> 4) env context Http2ErrorCodeFrameSizeError
              ''invalid window update frame length, not enough data'') (\<lambda>_.
     abind (read_or_refuse env context 4 ''Failed to read enough data for the frame header'') (\<lambda>data.
     aret (Http2FrameTypeWindowUpdate
       \<lparr>wf_window_size_increment = ucast (deserialize_u32_be_to_host (h2_order env) data AND 0x7fffffff),
        wf_identifier = rh_stream_identifier header\<rparr>))))"

definition parse_http2_continuation_frame ::
  "'d h2_env \<Rightarrow> HTTP2Context \<Rightarrow> Http2RawHeader \<Rightarrow> (tstr_static, 'd BufferedReader, Http2Frame) act" where
  "parse_http2_continuation_frame env context header =
     abind (refuse_if (rh_stream_identifier header = 0) env context Http2ErrorCodeProtocolError
              ''Continuation Frame doesn't allow stream id 0'') (\<lambda>_.
     abind (refuse_if (rh_flags header AND 0x04 \<noteq> rh_flags header) env context Http2ErrorCodeProtocolError
              ''invalid continuation frame flags'') (\<lambda>_.
     abind (read_or_refuse env context (unat (rh_length header)) ''Failed to read enough data for the frame data'')
       (\<lambda>raw.
     abind (copy_or_refuse env context raw ''Failed allocate headers block fragment buffer'') (\<lambda>block_fragment.
     aret (Http2FrameTypeContinuation
       \<lparr>cf_block_fragment = block_fragment, cf_identifier = rh_stream_identifier header,
        cf_end_headers = rh_flags header AND 0x04 \<noteq> 0\<rparr>)))))"

definition parse_http2_payload ::
  "'d h2_env \<Rightarrow> HTTP2Context \<Rightarrow> Http2RawHeader \<Rightarrow> (tstr_static, 'd BufferedReader, Http2Frame) act" where
  "parse_http2_payload env context header =
     (if rh_type header = 0x00 then parse_http2_data_frame env context header
      else if rh_type header = 0x01 then parse_http2_headers_frame env context header
      else if rh_type header = 0x02 then parse_http2_priority_frame env context header
      else if rh_type header = 0x03 then parse_http2_rst_stream_frame env context header
      else if rh_type header = 0x04 then parse_http2_settings_frame env context header
      else if rh_type header = 0x05 then parse_http2_push_promise_frame env context header
      else if rh_type header = 0x06 then parse_http2_ping_frame env context header
      else if rh_type header = 0x07 then parse_http2_goaway_frame env context header
      else if rh_type header = 0x08 then parse_http2_window_update_frame env context header
      else if rh_type header = 0x09 then parse_http2_continuation_frame env context header
      else connection_error env context Http2ErrorCodeInternalError ''Unrecognized frame type'')"

definition parse_http2_frame ::
  "'d h2_env \<Rightarrow> HTTP2Context \<Rightarrow> (tstr_static, 'd BufferedReader, Http2Frame) act" where
  "parse_http2_frame env context =
     abind (read_or_refuse env context 9 ''Failed to read enough data for the frame header'') (\<lambda>header_data.
     let header = parse_http2_raw_header (h2_order env) header_data in
     abind (refuse_if (unat (rh_length header) > unat (set_max_frame_size (ctx_settings context)))
              env context Http2ErrorCodeFrameSizeError ''Header size too big'') (\<lambda>_.
     parse_http2_payload env context header))"
end
