(* ===== verification/Http2_Wire.thy ===== *)
theory Http2_Wire
  imports Http2_Frame
begin

text \<open>
  Properties of the frame layer: a triple logic for actions on a connection; on every input the
  readers stay inside the bytes they asked for, with the PUSH_PROMISE reader as the only exception;
  a frame that is accepted occupies exactly its header and the announced number of bytes; every frame
  the server writes is read back as it was; and the SETTINGS writer, which overruns its block.
\<close>

section \<open>Triples\<close>

text \<open>
  \<open>triple P m Q F\<close>: from an object with \<open>P\<close>, a successful \<open>m\<close> leaves one with \<open>Q\<close>, and a fault of \<open>m\<close> is one
  of \<open>F\<close>.
\<close>

definition triple ::
  "('s \<Rightarrow> bool) \<Rightarrow> ('e, 's, 'a) act \<Rightarrow> ('a \<Rightarrow> 's \<Rightarrow> bool) \<Rightarrow> (fault \<Rightarrow> bool) \<Rightarrow> bool" where
  "triple P m Q F \<longleftrightarrow>
     (\<forall>s. P s \<longrightarrow> (case m s of (Ok x, s') \<Rightarrow> Q x s' | (Err e, s') \<Rightarrow> True | (Undef u, s') \<Rightarrow> F u))"

named_theorems triple_intros \<open>rules for composed actions\<close>
named_theorems safe_intros \<open>where the single actions may fail\<close>

lemma triple_abind [triple_intros]:
  "triple P m R F \<Longrightarrow> (\<And>x. triple (R x) (f x) Q F) \<Longrightarrow> triple P (abind m f) Q F"
  by (fastforce simp: triple_def abind_def split: prod.splits res.splits)

lemma triple_aret: "(\<And>s. P s \<Longrightarrow> Q x s) \<Longrightarrow> triple P (aret x) Q F"
  by (simp add: triple_def aret_def)

lemma triple_alift: "(\<And>s x. P s \<Longrightarrow> r = Ok x \<Longrightarrow> Q x s) \<Longrightarrow> (\<And>u. r = Undef u \<Longrightarrow> F u) \<Longrightarrow> triple P (alift r) Q F"
  by (auto simp: triple_def alift_def split: res.splits)

lemma triple_alift_same: "(\<And>u. r = Undef u \<Longrightarrow> F u) \<Longrightarrow> triple P (alift r) (\<lambda>_. P) F"
  by (auto intro: triple_alift)

lemma triple_if [triple_intros]:
  "(b \<Longrightarrow> triple P m Q F) \<Longrightarrow> (\<not> b \<Longrightarrow> triple P m' Q F) \<Longrightarrow> triple P (if b then m else m') Q F"
  by simp

lemma triple_case_prod [triple_intros]:
  "(\<And>a b. x = (a, b) \<Longrightarrow> triple P (f a b) Q F) \<Longrightarrow> triple P (case x of (a, b) \<Rightarrow> f a b) Q F"
  by (cases x) simp

lemma triple_pure [triple_intros]: "(A \<Longrightarrow> triple P m Q F) \<Longrightarrow> triple (\<lambda>s. A \<and> P s) m Q F"
  by (auto simp: triple_def)

lemma triple_weaken:
  "triple P m Q F \<Longrightarrow> (\<And>s. P' s \<Longrightarrow> P s) \<Longrightarrow> (\<And>x s. Q x s \<Longrightarrow> Q' x s) \<Longrightarrow> (\<And>u. F u \<Longrightarrow> F' u) \<Longrightarrow> triple P' m Q' F'"
  by (fastforce simp: triple_def split: prod.splits res.splits)

lemma triple_ex [triple_intros]: "(\<And>k. triple (P k) m Q F) \<Longrightarrow> triple (\<lambda>s. \<exists>k. P k s) m Q F"
  unfolding triple_def by (intro allI impI, elim exE) simp

section \<open>Safety\<close>

text \<open>A write call never takes more bytes than it was offered.\<close>

definition sane_io :: "'d io \<Rightarrow> bool" where
  "sane_io io \<longleftrightarrow>
     (\<forall>d bs k d'. io_write io d bs = (Some k, d') \<or> io_ssl_write io d bs = (Some k, d') \<longrightarrow> k \<le> length bs)"

lemma send_sane: "sane_io io \<Longrightarrow> fst (send_data_to_connection io d bs) \<noteq> Undef u"
proof (induction io d bs rule: send_data_to_connection.induct)
  case (1 io d bs)
  have "k \<le> length bs" if "write_to_descriptor io d bs = (Some k, d')" for k d'
    using that 1(2) by (auto simp: write_to_descriptor_def sane_io_def split: ConnectionDescriptor.splits prod.splits)
  with 1 show ?case
    by (subst send_data_to_connection.simps) (auto split: prod.splits option.splits)
qed

abbreviation no_fault :: "fault \<Rightarrow> bool" where
  "no_fault \<equiv> \<lambda>_. False"

lemma send_raw_sane: "sane_io (h2_io env) \<Longrightarrow> triple P (http2_send_raw_frame env header data) (\<lambda>_ _. True) no_fault"
  by (auto simp: triple_def http2_send_raw_frame_def alift_def abind_def split: prod.splits res.splits)
    (metis fst_conv send_sane)+

lemma unat_of_nat_u32: "n < 2 ^ 32 \<Longrightarrow> unat (word_of_nat n :: u32) = n"
  by (simp add: unsigned_of_nat take_bit_nat_eq_self)

lemma unat_of_nat_24: "n < 2 ^ 24 \<Longrightarrow> unat (word_of_nat n :: 24 word) = n"
  by (simp add: unsigned_of_nat take_bit_nat_eq_self)

lemma ucast_of_nat_24: "n < 2 ^ 32 \<Longrightarrow> (ucast (word_of_nat n :: u32) :: 24 word) = word_of_nat n"
  by (simp add: unsigned_of_nat take_bit_nat_eq_self)

lemma goaway_payload_eq:
  assumes "length debug_data + 8 < 2 ^ 32" "h2_alloc env (length debug_data + 8)"
  shows "goaway_payload env (of_nat (length debug_data + 8)) last_id code debug_data =
    Ok (serialize_identifier BIG_ENDIAN last_id @ rev (le_bytes 4 code) @ debug_data)"
proof -
  let ?n = "length debug_data + 8"
  let ?head = "serialize_identifier (h2_order env) last_id @ serialize_u32_host_to_be (h2_order env) code"
  have n: "unat (of_nat ?n :: u32) = ?n" using assms(1) by (rule unat_of_nat_u32)
  have head: "length ?head = 8" by (simp add: serialize_identifier_def u32_be.ser_length)
  obtain buf where buf: "memcpy_cells (replicate ?n None) 0 ?head = (Ok buf :: (unit, _) res)" "length buf = ?n"
    "filled buf ?head"
    using filled_memcpy [of "replicate ?n None" "[]" ?head] head by auto
  obtain buf' where buf': "memcpy_cells buf 8 debug_data = (Ok buf' :: (unit, _) res)" "length buf' = ?n"
    "filled buf' (?head @ debug_data)"
    using filled_memcpy [of buf ?head debug_data] buf head by auto
  have "read_block buf' = (Ok (?head @ debug_data) :: (unit, _) res)"
    using read_block_filled [of buf' "?head @ debug_data"] buf' head by (simp add: take_all)
  moreover have "debug_data = [] \<Longrightarrow> read_block buf = (Ok ?head :: (unit, _) res)"
    using read_block_filled [of buf ?head] buf head by (simp add: take_all)
  ultimately show ?thesis using buf buf' n assms(2)
    by (simp add: goaway_payload_def serialize_identifier_def serialize_be_bytes)
qed

lemma goaway_payload_safe:
  assumes "length debug_data + 8 < 2 ^ 32"
  shows "goaway_payload env (of_nat (length debug_data + 8)) last_id code debug_data \<noteq> Undef u"
proof (cases "h2_alloc env (length debug_data + 8)")
  case True
  with goaway_payload_eq [OF assms True] show ?thesis by simp
next
  case False
  with unat_of_nat_u32 [OF assms] show ?thesis by (simp add: goaway_payload_def)
qed

lemma connection_error_safe:
  assumes "sane_io (h2_io env)" "length error < 1000"
  shows "triple P (connection_error env context code error) Q F"
proof -
  have "triple (\<lambda>_. True) (http2_send_connection_error env context code error) (\<lambda>_ _. True) no_fault"
    unfolding http2_send_connection_error_def http2_send_connection_error_with_data_def
      http2_send_goaway_frame_def Let_def
    using goaway_payload_safe [of "map of_char error"] assms
    by (intro triple_abind [where R = "\<lambda>_ _. True"] triple_alift send_raw_sane) auto
  then show ?thesis
    by (fastforce simp: triple_def connection_error_def on_descriptor_def split: prod.splits res.splits)
qed

lemma refuse_if_safe [safe_intros]:
  "sane_io (h2_io env) \<Longrightarrow> length error < 1000 \<Longrightarrow>
   triple P (refuse_if b env context code error) (\<lambda>_ s. P s) F"
  by (auto simp: refuse_if_def intro!: connection_error_safe triple_aret)

text \<open>\<open>room j\<close>: the buffer can still grow by \<open>j\<close> times the largest frame.\<close>

definition room :: "nat \<Rightarrow> 'd BufferedReader \<Rightarrow> bool" where
  "room j reader \<longleftrightarrow> (br_state reader = StreamStateOpen \<longrightarrow> length (br_buffer reader) + j * 2 ^ 24 < 2 ^ 64)"

lemma room_mono: "room j reader \<Longrightarrow> i \<le> j \<Longrightarrow> room i reader"
  by (fastforce simp: room_def)

lemma read_or_refuse_safe [safe_intros]:
  assumes "sane_io (h2_io env)" "length error < 1000" "n \<le> 2 ^ 24" "0 < j"
  shows "triple (room j) (read_or_refuse env context n error) (\<lambda>bs s. room (j - 1) s) F"
  unfolding triple_def
proof (intro allI impI)
  fix s :: "'a BufferedReader" assume room: "room j s"
  have j: "j * 2 ^ 24 = 2 ^ 24 + (j - 1) * 2 ^ 24" using \<open>0 < j\<close> by (cases j) simp_all
  with room assms(3) have "br_state s = StreamStateOpen \<longrightarrow> length (br_buffer s) + n < 2 ^ 64"
    by (auto simp: room_def)
  from get_amount_safe [OF this, of "h2_alloc env" "h2_io env"] room assms(3) j
    connection_error_safe [OF assms(1,2), of "\<lambda>_. True" "context" "0x2" "\<lambda>bs s. room (j - 1) s" F]
  show "case read_or_refuse env context n error s of (Ok x, s') \<Rightarrow> room (j - 1) s'
      | (Err e, s') \<Rightarrow> True | (Undef u, s') \<Rightarrow> F u"
    by (fastforce simp: read_or_refuse_def triple_def outcome_def room_def
        split: res.splits prod.splits BufferedReadResult.splits)
qed

lemma copy_or_refuse_safe [safe_intros]:
  "sane_io (h2_io env) \<Longrightarrow> length error < 1000 \<Longrightarrow>
   triple P (copy_or_refuse env context raw error) (\<lambda>_ s. P s) F"
  by (auto simp: copy_or_refuse_def intro!: connection_error_safe triple_aret)

lemma length24: "unat (w :: 24 word) < 16777216"
  by (rule order.strict_trans2 [OF unsigned_less]) simp

lemma length24_minus [simp]: "unat (w :: 24 word) - k \<le> 16777216" "unat (w :: 24 word) \<le> 16777216"
  using length24 [of w] by linarith+

lemma parse_padding_length_safe [safe_intros]:
  assumes "sane_io (h2_io env)" "0 < j"
  shows "triple (room j) (parse_padding_length env context header)
    (\<lambda>x s. fst x \<le> 2 ^ 24 \<and> snd x \<le> 2 ^ 24 \<and> room (j - 1) s) F"
  unfolding parse_padding_length_def Let_def
  by (rule triple_intros safe_intros | (simp add: assms; fail)
      | (rule triple_aret, force intro: room_mono less_imp_le le_trans [OF less_imp_le [OF unat_u8_less]]))+

lemma refuse_if_last:
  "sane_io (h2_io env) \<Longrightarrow> length error < 1000 \<Longrightarrow>
   triple P (refuse_if b env context code error) (\<lambda>_ _. True) F"
  by (rule triple_weaken [OF refuse_if_safe]) auto

lemma check_padding_safe [safe_intros]:
  assumes "sane_io (h2_io env)" "0 < j" "n \<le> 2 ^ 24"
  shows "triple (room j) (check_padding env context n) (\<lambda>_ s. True) F"
  unfolding check_padding_def
  by (rule triple_intros safe_intros refuse_if_last | (simp add: assms [simplified]; fail) | (rule triple_aret, simp))+

lemma parse_headers_priority_safe [safe_intros]:
  assumes "sane_io (h2_io env)" "0 < j" "n \<le> 2 ^ 24"
  shows "triple (room j) (parse_headers_priority env context header n)
    (\<lambda>x s. snd (snd x) \<le> 2 ^ 24 \<and> room (j - 1) s) F"
  unfolding parse_headers_priority_def
  by (rule triple_intros safe_intros | (simp add: assms [simplified]; fail)
      | (rule triple_aret, use assms in \<open>force intro: room_mono le_trans [OF diff_le_self]\<close>))+

text \<open>The simple readers: a sequence of checks, reads and copies.\<close>

lemmas simple_reader_defs = parse_http2_priority_frame_def parse_http2_rst_stream_frame_def
  parse_http2_ping_frame_def parse_http2_goaway_frame_def parse_http2_window_update_frame_def
  parse_http2_continuation_frame_def

lemma simple_readers_safe:
  assumes "sane_io (h2_io env)"
  shows "triple (room 5) (parse_http2_priority_frame env context header) (\<lambda>_ _. True) F"
    and "triple (room 5) (parse_http2_rst_stream_frame env context header) (\<lambda>_ _. True) F"
    and "triple (room 5) (parse_http2_ping_frame env context header) (\<lambda>_ _. True) F"
    and "triple (room 5) (parse_http2_goaway_frame env context header) (\<lambda>_ _. True) F"
    and "triple (room 5) (parse_http2_window_update_frame env context header) (\<lambda>_ _. True) F"
    and "triple (room 5) (parse_http2_continuation_frame env context header) (\<lambda>_ _. True) F"
  unfolding simple_reader_defs
  by (rule triple_intros safe_intros | (simp add: assms; fail) | (rule triple_aret, auto elim: room_mono))+

lemma padded_readers_safe:
  assumes "sane_io (h2_io env)"
  shows "triple (room 5) (parse_http2_data_frame env context header) (\<lambda>_ _. True) F"
    and "triple (room 5) (parse_http2_headers_frame env context header) (\<lambda>_ _. True) F"
  unfolding parse_http2_data_frame_def parse_http2_headers_frame_def
  by (rule triple_intros safe_intros | (simp add: assms; fail) | (rule triple_aret, auto elim: room_mono))+

lemma parse_settings_loop_safe [safe_intros]:
  "sane_io (h2_io env) \<Longrightarrow> triple P (parse_settings_loop env context data kept) (\<lambda>_ _. True) F"
proof (induction env "context" data kept rule: parse_settings_loop.induct)
  case (1 env "context" data kept)
  have "length error < 1000" if "check_setting i v = SettingRefuse code error" for i v code error
    using that by (auto simp: check_setting_def split: if_splits)
  with 1 show ?case
    by (subst parse_settings_loop.simps)
      (auto simp: Let_def split: setting_check.split intro: triple_aret triple_alift connection_error_safe)
qed

lemma parse_settings_safe:
  assumes "sane_io (h2_io env)"
  shows "triple (room 5) (parse_http2_settings_frame env context header) (\<lambda>_ _. True) F"
proof -
  have raw: "triple P (parse_raw_http2_settings_frame env context data ack) (\<lambda>_ _. True) F" for P data ack
    unfolding parse_raw_http2_settings_frame_def
    by (rule triple_intros safe_intros | (simp add: assms; fail) | (rule triple_aret, simp))+
  show ?thesis
    unfolding parse_http2_settings_frame_def
    by (rule triple_intros safe_intros raw | (simp add: assms; fail) | (rule triple_aret, auto elim: room_mono))+
qed

lemma parse_push_promise_safe:
  assumes "sane_io (h2_io env)"
  shows "triple (room 5) (parse_http2_push_promise_frame env context header) (\<lambda>_ _. True)
    (\<lambda>u. u = OutOfBounds \<and> set_enable_push (ctx_settings context))"
proof (cases "set_enable_push (ctx_settings context)")
  case True
  show ?thesis
    unfolding parse_http2_push_promise_frame_def
    by (rule triple_intros safe_intros | (simp add: assms; fail)
        | (rule triple_alift_same, simp add: True) | (rule triple_aret, auto elim: room_mono))+
next
  case False
  have off: "triple P (abind (refuse_if (\<not> set_enable_push (ctx_settings context)) env context code error) f) Q F"
    if "length error < 1000" for P Q F code error f
  proof (rule triple_abind [where R = "\<lambda>_ _. False"])
    show "triple P (refuse_if (\<not> set_enable_push (ctx_settings context)) env context code error) (\<lambda>_ _. False) F"
      using False that assms by (simp add: refuse_if_def connection_error_safe)
  qed (simp add: triple_def)
  show ?thesis
    unfolding parse_http2_push_promise_frame_def
    by (rule off triple_intros safe_intros | (simp add: assms; fail))+
qed

lemma parse_payload_safe:
  assumes "sane_io (h2_io env)"
  shows "triple (room 5) (parse_http2_payload env context header) (\<lambda>_ _. True)
    (\<lambda>u. u = OutOfBounds \<and> rh_type header = 0x05 \<and> set_enable_push (ctx_settings context))"
  unfolding parse_http2_payload_def
  by (intro triple_if simple_readers_safe [OF assms] padded_readers_safe [OF assms]
      parse_settings_safe [OF assms] connection_error_safe [OF assms]
      triple_weaken [OF parse_push_promise_safe [OF assms]]) simp_all


section \<open>Frame boundaries\<close>

text \<open>
  \<open>at_offset env incoming outgoing xs k\<close>: a working reader that has consumed \<open>k\<close> bytes of the stream \<open>xs\<close>.
  The rules of \<open>sync_intros\<close> follow this offset through an action; an action that refuses its input
  satisfies every triple.
\<close>

definition at_offset ::
  "'d h2_env \<Rightarrow> ('d \<Rightarrow> bytes) \<Rightarrow> ('d \<Rightarrow> bytes) \<Rightarrow> bytes \<Rightarrow> nat \<Rightarrow> 'd BufferedReader \<Rightarrow> bool" where
  "at_offset env incoming outgoing xs k reader \<longleftrightarrow>
     reader_ready (h2_alloc env) (h2_io env) incoming outgoing reader \<and> k \<le> length xs \<and>
     pending incoming reader = drop k xs"

abbreviation any_fault :: "fault \<Rightarrow> bool" where
  "any_fault \<equiv> \<lambda>_. True"

named_theorems sync_intros \<open>how far an action moves in the stream\<close>

lemma connection_error_sync [sync_intros]: "triple P (connection_error env context code error) Q any_fault"
  by (auto simp: triple_def connection_error_def split: prod.splits res.splits)

lemma refuse_if_sync [sync_intros]: "triple P (refuse_if b env context code error) (\<lambda>_ s. \<not> b \<and> P s) any_fault"
  by (auto simp: refuse_if_def intro: connection_error_sync triple_aret)

lemma copy_or_refuse_sync [sync_intros]:
  "triple P (copy_or_refuse env context raw error) (\<lambda>x s. x = raw \<and> P s) any_fault"
  by (auto simp: copy_or_refuse_def intro: connection_error_sync triple_aret)

lemma read_at_offset:
  assumes "at_offset env incoming outgoing xs k reader" "n < 2 ^ 31" "k + n \<le> length xs"
  shows "\<exists>reader'. read_or_refuse env context n error reader = (Ok (take n (drop k xs)), reader') \<and>
    at_offset env incoming outgoing xs (k + n) reader' \<and>
    outgoing (channel (br_descriptor reader')) = outgoing (channel (br_descriptor reader))"
proof -
  from assms have ready: "reader_ready (h2_alloc env) (h2_io env) incoming outgoing reader"
    "pending incoming reader = drop k xs" by (simp_all add: at_offset_def)
  from get_amount_ready [OF ready(1) assms(2)] ready(2) assms(3) show ?thesis
    by (auto simp: read_or_refuse_def at_offset_def add.commute)
qed

lemma read_or_refuse_sync [sync_intros]:
  assumes "n < 2 ^ 31"
  shows "triple (at_offset env incoming outgoing xs k) (read_or_refuse env context n error)
    (\<lambda>bs s. bs = take n (drop k xs) \<and> at_offset env incoming outgoing xs (k + n) s) any_fault"
  unfolding triple_def
proof (intro allI impI)
  fix s assume s: "at_offset env incoming outgoing xs k s"
  show "case read_or_refuse env context n error s of
      (Ok x, s') \<Rightarrow> x = take n (drop k xs) \<and> at_offset env incoming outgoing xs (k + n) s'
    | (Err e, s') \<Rightarrow> True | (Undef u, s') \<Rightarrow> any_fault u"
  proof (cases "k + n \<le> length xs")
    case True
    from read_at_offset [OF s assms True, of "context" error] show ?thesis by auto
  next
    case False
    with s have "reader_ready (h2_alloc env) (h2_io env) incoming outgoing s"
      "\<not> n \<le> length (pending incoming s)" by (auto simp: at_offset_def)
    with get_amount_ready [OF this(1) assms] obtain s' where
      "buffered_reader_get_amount (h2_alloc env) (h2_io env) s n = Ok (BufferedReadResultTypeEOF, s')" by auto
    then show ?thesis
      by (auto simp: read_or_refuse_def connection_error_def split: prod.splits res.splits)
  qed
qed

lemma parse_padding_length_sync [sync_intros]:
  "triple (at_offset env incoming outgoing xs k) (parse_padding_length env context header)
    (\<lambda>x s. \<exists>i. fst x + snd x + i = unat (rh_length header) \<and> at_offset env incoming outgoing xs (k + i) s) any_fault"
  unfolding parse_padding_length_def Let_def
  by (rule triple_intros sync_intros | (simp; fail)
      | (rule triple_aret, rule exI [of _ 1], simp; fail) | (rule triple_aret, rule exI [of _ 0], simp; fail))+

lemma refuse_if_at:
  "triple (at_offset env incoming outgoing xs k) (refuse_if b env' context code error)
    (\<lambda>_ s. at_offset env incoming outgoing xs k s) any_fault"
  by (rule triple_weaken [OF refuse_if_sync [where P = "at_offset env incoming outgoing xs k"]]) auto

lemma check_padding_sync [sync_intros]:
  assumes "n < 2 ^ 31"
  shows "triple (at_offset env incoming outgoing xs k) (check_padding env context n)
    (\<lambda>_ s. at_offset env incoming outgoing xs (k + n) s) any_fault"
  unfolding check_padding_def
  by (rule triple_intros refuse_if_at sync_intros | (simp add: assms [simplified]; fail)
      | (rule triple_aret, simp))+

lemma parse_headers_priority_sync [sync_intros]:
  "triple (at_offset env incoming outgoing xs k) (parse_headers_priority env context header n)
    (\<lambda>x s. \<exists>i. snd (snd x) + i = n \<and> at_offset env incoming outgoing xs (k + i) s) any_fault"
  unfolding parse_headers_priority_def
  by (rule triple_intros sync_intros | (simp; fail)
      | (rule triple_aret, rule exI [of _ 5], simp; fail) | (rule triple_aret, rule exI [of _ 0], simp; fail))+

lemma parse_settings_loop_sync [sync_intros]:
  "triple P (parse_settings_loop env context data kept) (\<lambda>_ s. P s) any_fault"
proof (induction env "context" data kept rule: parse_settings_loop.induct)
  case (1 env "context" data kept)
  then show ?case
    by (subst parse_settings_loop.simps)
      (auto simp: Let_def split: setting_check.split intro: triple_aret triple_alift connection_error_sync)
qed

lemma length24_small [simp]: "unat (w :: 24 word) < 2147483648" "unat (w :: 24 word) - k < 2147483648"
  using length24 [of w] by linarith+

lemma at_offset_eq: "at_offset env incoming outgoing xs k s \<Longrightarrow> k = k' \<Longrightarrow> at_offset env incoming outgoing xs k' s"
  by simp

abbreviation consumes_payload ::
  "'d h2_env \<Rightarrow> ('d \<Rightarrow> bytes) \<Rightarrow> ('d \<Rightarrow> bytes) \<Rightarrow> bytes \<Rightarrow> nat \<Rightarrow> Http2RawHeader
     \<Rightarrow> (tstr_static, 'd BufferedReader, Http2Frame) act \<Rightarrow> bool" where
  "consumes_payload env incoming outgoing xs k header m \<equiv>
     triple (at_offset env incoming outgoing xs k) m
       (\<lambda>_ s. at_offset env incoming outgoing xs (k + unat (rh_length header)) s) any_fault"

lemma optional_copy_sync:
  assumes "n < 2 ^ 31"
  shows "triple (at_offset env incoming outgoing xs k)
    (if 0 < n then abind (read_or_refuse env context n error) (\<lambda>raw. copy_or_refuse env context raw error') else aret [])
    (\<lambda>_ s. at_offset env incoming outgoing xs (k + n) s) any_fault"
proof (cases "0 < n")
  case True
  have "triple (at_offset env incoming outgoing xs k)
      (abind (read_or_refuse env context n error) (\<lambda>raw. copy_or_refuse env context raw error'))
      (\<lambda>_ s. at_offset env incoming outgoing xs (k + n) s) any_fault"
    by (rule triple_abind [OF read_or_refuse_sync [OF assms]], rule triple_pure,
        rule triple_weaken [OF copy_or_refuse_sync [where P = "at_offset env incoming outgoing xs (k + n)"]]) auto
  with True show ?thesis by simp
qed (auto intro: triple_aret)

lemma simple_readers_sync:
  "consumes_payload env incoming outgoing xs k header (parse_http2_priority_frame env context header)"
  "consumes_payload env incoming outgoing xs k header (parse_http2_rst_stream_frame env context header)"
  "consumes_payload env incoming outgoing xs k header (parse_http2_ping_frame env context header)"
  "consumes_payload env incoming outgoing xs k header (parse_http2_window_update_frame env context header)"
  "consumes_payload env incoming outgoing xs k header (parse_http2_continuation_frame env context header)"
  unfolding simple_reader_defs
  by (rule triple_intros sync_intros | (simp; fail) | (rule triple_aret, erule at_offset_eq, simp))+

lemma goaway_sync:
  "consumes_payload env incoming outgoing xs k header (parse_http2_goaway_frame env context header)"
  unfolding parse_http2_goaway_frame_def
  by (rule optional_copy_sync triple_abind triple_pure sync_intros | (simp; fail)
      | (rule triple_aret, erule at_offset_eq, simp))+

lemma padded_readers_sync:
  "consumes_payload env incoming outgoing xs k header (parse_http2_data_frame env context header)"
  "consumes_payload env incoming outgoing xs k header (parse_http2_headers_frame env context header)"
  unfolding parse_http2_data_frame_def parse_http2_headers_frame_def
  by (rule triple_ex triple_pure triple_intros sync_intros
      | (use length24 [of "rh_length header"] in \<open>simp; fail\<close>) | (rule triple_aret, erule at_offset_eq, simp))+

lemma settings_sync:
  "consumes_payload env incoming outgoing xs k header (parse_http2_settings_frame env context header)"
proof -
  have raw: "triple P (parse_raw_http2_settings_frame env context data ack) (\<lambda>_ s. P s) any_fault" for P data ack
    unfolding parse_raw_http2_settings_frame_def
    by (rule triple_ex triple_pure triple_intros sync_intros | (rule triple_aret, simp))+
  have data: "triple (at_offset env incoming outgoing xs k)
      (if n > 0 then abind (read_or_refuse env context n error) (\<lambda>raw. aret (f raw)) else aret [])
      (\<lambda>_ s. at_offset env incoming outgoing xs (k + n) s) any_fault" if "n < 2 ^ 31" for n error and f :: "bytes \<Rightarrow> bytes"
    by (rule triple_ex triple_pure triple_intros sync_intros that | (simp; fail) | (rule triple_aret, simp))+
  show ?thesis
    unfolding parse_http2_settings_frame_def
    by (rule data raw triple_ex triple_pure triple_intros sync_intros | (simp; fail) | (rule triple_aret, simp))+
qed

lemma push_promise_sync:
  "triple (at_offset env incoming outgoing xs k) (parse_http2_push_promise_frame env context header) Q any_fault"
proof -
  have undef: "triple P (abind (if length (take 1 ys) < 4 then alift (Undef OutOfBounds) else m) f) R any_fault"
    for P R m f and ys :: bytes
    by (auto simp: triple_def abind_def alift_def)
  have read: "triple (at_offset env incoming outgoing xs j)
      (abind (read_or_refuse env context 1 error) (\<lambda>bs. abind (if length bs < 4 then alift (Undef OutOfBounds) else m bs) (f bs)))
      R any_fault" for j error m f R
    by (rule triple_abind, rule read_or_refuse_sync, simp, rule triple_pure, hypsubst, rule undef)
  show ?thesis
    unfolding parse_http2_push_promise_frame_def
    by (rule read triple_ex triple_pure triple_intros sync_intros | (simp; fail))+
qed

lemma parse_payload_sync:
  "consumes_payload env incoming outgoing xs k header (parse_http2_payload env context header)"
  unfolding parse_http2_payload_def
  by (intro triple_if simple_readers_sync goaway_sync padded_readers_sync settings_sync push_promise_sync
      connection_error_sync)

text \<open>
  Frame boundaries are kept: when \<open>parse_http2_frame\<close> accepts a frame, it has consumed exactly the
  nine header bytes and the number of bytes they announce, whatever the frame type, padding and
  priority fields, this number is within the size limit of the connection, and the reader goes on
  directly behind the frame.
\<close>

theorem parse_http2_frame_boundaries:
  assumes ready: "reader_ready (h2_alloc env) (h2_io env) incoming outgoing reader"
    and ok: "parse_http2_frame env context reader = (Ok frame, reader')"
  shows "\<exists>header payload. pending incoming reader = header @ payload @ pending incoming reader' \<and>
    length header = 9 \<and> length payload = unat (rh_length (parse_http2_raw_header (h2_order env) header)) \<and>
    length payload \<le> unat (set_max_frame_size (ctx_settings context)) \<and>
    reader_ready (h2_alloc env) (h2_io env) incoming outgoing reader'"
proof -
  let ?xs = "pending incoming reader"
  let ?len = "unat (rh_length (parse_http2_raw_header (h2_order env) (take 9 ?xs)))"
  have "triple (at_offset env incoming outgoing ?xs 0) (parse_http2_frame env context)
      (\<lambda>_ s. ?len \<le> unat (set_max_frame_size (ctx_settings context)) \<and> at_offset env incoming outgoing ?xs (9 + ?len) s)
      any_fault"
    unfolding parse_http2_frame_def Let_def
    by (rule triple_abind, rule read_or_refuse_sync, simp, rule triple_pure, hypsubst, rule triple_abind,
        rule refuse_if_sync, rule triple_pure, rule triple_weaken [OF parse_payload_sync]) auto
  moreover have "at_offset env incoming outgoing ?xs 0 reader" using ready by (simp add: at_offset_def)
  ultimately have len: "?len \<le> unat (set_max_frame_size (ctx_settings context))"
    and at: "at_offset env incoming outgoing ?xs (9 + ?len) reader'"
    using ok by (auto simp: triple_def dest!: spec [of _ reader])
  from at have "9 + ?len \<le> length ?xs" "pending incoming reader' = drop (9 + ?len) ?xs"
    by (simp_all add: at_offset_def)
  moreover have "drop (9 + ?len) ?xs = drop ?len (drop 9 ?xs)" by (simp add: add.commute)
  ultimately have "?xs = take 9 ?xs @ take ?len (drop 9 ?xs) @ pending incoming reader'"
    by (simp del: drop_drop)
  moreover have "length (take 9 ?xs) = 9" "length (take ?len (drop 9 ?xs)) = ?len"
    using at by (auto simp: at_offset_def min_def)
  moreover have "reader_ready (h2_alloc env) (h2_io env) incoming outgoing reader'"
    using at by (simp add: at_offset_def)
  ultimately show ?thesis using len by metis
qed

section \<open>Frames arrive as they were sent\<close>

lemma mask31: "0x7fffffff = (mask 31 :: u32)"
  by (simp add: mask_eq_exp_minus_1)

lemma identifier_roundtrip: "deserialize_identifier ord' (serialize_identifier ord i) = i"
proof -
  have "(ucast (ucast i AND 0x7fffffff AND 0x7fffffff :: u32) :: 31 word) = i"
    unfolding mask31 by (rule bit_word_eqI) (simp add: bit_simps)
  then show ?thesis
    by (simp add: deserialize_identifier_def serialize_identifier_def serialize_be_bytes
        deserialize_be_bytes of_le_bytes_le_bytes and.assoc)
qed

lemma identifier_roundtrip_append: "deserialize_identifier ord' (serialize_identifier ord i @ rest) = i"
proof -
  have "deserialize_identifier ord' (serialize_identifier ord i @ rest) =
      deserialize_identifier ord' (serialize_identifier ord i)"
    by (simp add: deserialize_identifier_def serialize_identifier_def deserialize_be_bytes u32_be.ser_length)
  then show ?thesis by (simp add: identifier_roundtrip)
qed

lemma length_4D: "length xs = 4 \<Longrightarrow> \<exists>a b c d. xs = [a, b, c, d]"
  by (auto simp: length_Suc_conv eval_nat_numeral)

lemma length24_bytes:
  fixes w :: "24 word"
  shows "\<exists>a b c. serialize_u32_host_to_be ord (ucast w) = [0, a, b, c]"
proof -
  let ?bs = "le_bytes 4 (ucast w :: u32)"
  have "?bs ! 3 = 0" by (rule bit_word_eqI) (auto simp: le_bytes_bit bit_simps dest: bit_imp_le_length)
  moreover obtain a b c d where "?bs = [a, b, c, d]"
    using length_4D [of ?bs] by auto
  ultimately show ?thesis by (simp add: serialize_be_bytes)
qed

lemma raw_header_length: "length (serialize_raw_header ord header) = 9"
  by (simp add: serialize_raw_header_def Let_def)

lemma ucast24: "(ucast (ucast (w :: 24 word) :: u32) :: 24 word) = w"
  by (rule bit_word_eqI) (simp add: bit_simps)

lemma raw_header_roundtrip: "parse_http2_raw_header ord' (serialize_raw_header ord header) = header"
proof -
  obtain a b c where len: "serialize_u32_host_to_be ord (ucast (rh_length header)) = [0, a, b, c]"
    using length24_bytes by blast
  obtain p q r s where ident: "serialize_identifier ord (rh_stream_identifier header) = [p, q, r, s]"
    using length_4D u32_be.ser_length by (metis serialize_identifier_def)
  have "deserialize_u32_be_to_host ord' [0, a, b, c] = ucast (rh_length header)"
    using u32_be.des_ser_exact [of ord' "ucast (rh_length header)"] len by (simp add: serialize_be_bytes)
  moreover have "deserialize_identifier ord' [p, q, r, s] = rh_stream_identifier header"
    using identifier_roundtrip [of ord' ord "rh_stream_identifier header"] ident by simp
  ultimately show ?thesis using len ident
    by (simp add: parse_http2_raw_header_def serialize_raw_header_def special_impl_deserialize_u24_be_to_host_def
        Let_def ucast24)
qed

text \<open>The frame header and payload that a writer hands to \<open>http2_send_raw_frame\<close>.\<close>

lemma send_raw_frame_reliable:
  assumes "reliable_io (h2_io env) incoming outgoing" "length data = unat (rh_length header)"
  shows "\<exists>d'. http2_send_raw_frame env header data d = (Ok (), d') \<and>
    outgoing (channel d') = outgoing (channel d) @ serialize_raw_header (h2_order env) header @ data \<and>
    incoming (channel d') = incoming (channel d)"
proof -
  obtain d1 where "send_data_to_connection (h2_io env) d (serialize_raw_header (h2_order env) header) = (Ok (), d1)"
    "outgoing (channel d1) = outgoing (channel d) @ serialize_raw_header (h2_order env) header"
    "incoming (channel d1) = incoming (channel d)"
    using send_reliable [OF assms(1)] by blast
  moreover obtain d2 where "send_data_to_connection (h2_io env) d1 data = (Ok (), d2)"
    "outgoing (channel d2) = outgoing (channel d1) @ data" "incoming (channel d2) = incoming (channel d1)"
    using send_reliable [OF assms(1)] by blast
  ultimately show ?thesis using assms(2) by (simp add: http2_send_raw_frame_def abind_def)
qed

text \<open>
  The frames the server writes: \<open>http2_send_frame\<close> is the writer of a frame, \<open>frame_ok n\<close> states that the
  frame respects the protocol and its payload has at most \<open>n\<close> bytes. SETTINGS frames with entries are not
  among them, see \<open>settings_frame_overruns\<close>.
\<close>

fun http2_send_frame :: "'d h2_env \<Rightarrow> Http2Frame \<Rightarrow> (unit, 'd ConnectionDescriptor, unit) act" where
  "http2_send_frame env (Http2FrameTypeData f) = http2_send_data_frame env f"
| "http2_send_frame env (Http2FrameTypeHeaders f) = http2_send_headers_frame env f"
| "http2_send_frame env (Http2FrameTypeRstStream f) = http2_send_rst_stream_frame env f"
| "http2_send_frame env (Http2FrameTypeSettings f) = http2_send_settings_frame env f"
| "http2_send_frame env (Http2FrameTypePing f) = http2_send_ping_frame env f"
| "http2_send_frame env (Http2FrameTypeGoaway f) =
     http2_send_goaway_frame env (gf_last_stream_id f) (gf_error_code f) (gf_additional_debug_data f)"
| "http2_send_frame env (Http2FrameTypeContinuation f) = http2_send_continuation_frame env f"
| "http2_send_frame env _ = alift (Err ())"

fun frame_ok :: "nat \<Rightarrow> Http2Frame \<Rightarrow> bool" where
  "frame_ok n (Http2FrameTypeData f) \<longleftrightarrow> df_identifier f \<noteq> 0 \<and> length (df_content f) \<le> n"
| "frame_ok n (Http2FrameTypeHeaders f) \<longleftrightarrow>
     hfr_identifier f \<noteq> 0 \<and> length (hfr_block_fragment f) \<le> n \<and> \<not> hfr_has_priority f \<and>
     hfr_priority f = DEFAULT_STREAM_PRIORITY"
| "frame_ok n (Http2FrameTypeRstStream f) \<longleftrightarrow> rf_identifier f \<noteq> 0 \<and> 4 \<le> n"
| "frame_ok n (Http2FrameTypeSettings f) \<longleftrightarrow> sf_entries f = []"
| "frame_ok n (Http2FrameTypePing f) \<longleftrightarrow> length (pgf_opaque_data f) = 8 \<and> 8 \<le> n"
| "frame_ok n (Http2FrameTypeGoaway f) \<longleftrightarrow> length (gf_additional_debug_data f) + 8 \<le> n"
| "frame_ok n (Http2FrameTypeContinuation f) \<longleftrightarrow> cf_identifier f \<noteq> 0 \<and> length (cf_block_fragment f) \<le> n"
| "frame_ok n _ \<longleftrightarrow> False"

text \<open>The header and the payload of such a frame.\<close>

fun frame_header :: "Http2Frame \<Rightarrow> Http2RawHeader" where
  "frame_header (Http2FrameTypeData f) =
     \<lparr>rh_length = of_nat (length (df_content f)), rh_type = 0x00,
      rh_flags = (if df_is_end f then 0x01 else 0), rh_stream_identifier = df_identifier f\<rparr>"
| "frame_header (Http2FrameTypeHeaders f) =
     \<lparr>rh_length = of_nat (length (hfr_block_fragment f)), rh_type = 0x01,
      rh_flags = (if hfr_end_stream f then 0x01 else 0) OR (if hfr_end_headers f then 0x04 else 0),
      rh_stream_identifier = hfr_identifier f\<rparr>"
| "frame_header (Http2FrameTypeRstStream f) =
     \<lparr>rh_length = 4, rh_type = 0x03, rh_flags = 0, rh_stream_identifier = rf_identifier f\<rparr>"
| "frame_header (Http2FrameTypeSettings f) =
     \<lparr>rh_length = 0, rh_type = 0x04, rh_flags = (if sf_ack f then 0x1 else 0), rh_stream_identifier = 0\<rparr>"
| "frame_header (Http2FrameTypePing f) =
     \<lparr>rh_length = 8, rh_type = 0x06, rh_flags = (if pgf_ack f then 0x1 else 0), rh_stream_identifier = 0\<rparr>"
| "frame_header (Http2FrameTypeGoaway f) =
     \<lparr>rh_length = of_nat (length (gf_additional_debug_data f) + 8), rh_type = 0x07, rh_flags = 0,
      rh_stream_identifier = 0\<rparr>"
| "frame_header (Http2FrameTypeContinuation f) =
     \<lparr>rh_length = of_nat (length (cf_block_fragment f)), rh_type = 0x09,
      rh_flags = (if cf_end_headers f then 0x04 else 0), rh_stream_identifier = cf_identifier f\<rparr>"
| "frame_header _ = \<lparr>rh_length = 0, rh_type = 0xFF, rh_flags = 0, rh_stream_identifier = 0\<rparr>"

fun frame_payload :: "Http2Frame \<Rightarrow> bytes" where
  "frame_payload (Http2FrameTypeData f) = df_content f"
| "frame_payload (Http2FrameTypeHeaders f) = hfr_block_fragment f"
| "frame_payload (Http2FrameTypeRstStream f) = rev (le_bytes 4 (rf_error_code f))"
| "frame_payload (Http2FrameTypePing f) = pgf_opaque_data f"
| "frame_payload (Http2FrameTypeGoaway f) =
     serialize_identifier BIG_ENDIAN (gf_last_stream_id f) @ rev (le_bytes 4 (gf_error_code f))
       @ gf_additional_debug_data f"
| "frame_payload (Http2FrameTypeContinuation f) = cf_block_fragment f"
| "frame_payload _ = []"

lemma frame_length:
  "frame_ok n frame \<Longrightarrow> n < 2 ^ 24 \<Longrightarrow> length (frame_payload frame) = unat (rh_length (frame_header frame))"
proof (cases frame)
  case (Http2FrameTypeGoaway f)
  assume ok: "frame_ok n frame" "n < 2 ^ 24"
  with Http2FrameTypeGoaway have "length (gf_additional_debug_data f) + 8 < 2 ^ 24" by simp
  from unat_of_nat_24 [OF this] Http2FrameTypeGoaway show ?thesis
    by (simp add: serialize_identifier_def u32_be.ser_length)
qed (auto simp: unat_of_nat_24)

lemma frame_length_le: "frame_ok n frame \<Longrightarrow> length (frame_payload frame) \<le> n"
  by (cases frame) (auto simp: serialize_identifier_def u32_be.ser_length)

lemma send_frame_wire:
  assumes rel: "reliable_io (h2_io env) incoming outgoing" and alloc: "\<forall>n. h2_alloc env n"
    and ok: "frame_ok n frame" "n < 2 ^ 24"
  shows "\<exists>d'. http2_send_frame env frame d = (Ok (), d') \<and>
    outgoing (channel d') =
      outgoing (channel d) @ serialize_raw_header (h2_order env) (frame_header frame) @ frame_payload frame \<and>
    incoming (channel d') = incoming (channel d)"
proof -
  have "http2_send_frame env frame = http2_send_raw_frame env (frame_header frame) (frame_payload frame)"
  proof (cases frame)
    case (Http2FrameTypeGoaway f)
    let ?k = "length (gf_additional_debug_data f) + 8"
    have k: "?k < 2 ^ 32" using ok Http2FrameTypeGoaway by simp
    have "(ucast (of_nat ?k :: u32) :: 24 word) = of_nat ?k"
      using k by (rule ucast_of_nat_24)
    with goaway_payload_eq [OF k, of env] alloc Http2FrameTypeGoaway show ?thesis
      by (simp add: http2_send_goaway_frame_def abind_def alift_def Let_def fun_eq_iff del: of_nat_add)
  next
    case (Http2FrameTypeSettings f)
    with ok alloc show ?thesis
      by (auto simp: http2_send_settings_frame_def abind_def alift_def Let_def)
  qed (use ok in \<open>auto simp: http2_send_data_frame_def http2_send_headers_frame_def http2_send_rst_stream_frame_def
      http2_send_ping_frame_def http2_send_continuation_frame_def check_assert_def abind_def alift_def
      serialize_be_bytes\<close>)
  with send_raw_frame_reliable [OF rel frame_length [OF ok]] show ?thesis by simp
qed

text \<open>Reading the payload of such a frame from a working reader.\<close>

lemma run_abind:
  "m s = (Ok x, s') \<Longrightarrow> abind m f s = f x s'"
  by (simp add: abind_def)

lemma refuse_if_False [simp]: "refuse_if False env context code error = aret ()"
  by (simp add: refuse_if_def)

lemma abind_aret [simp]: "abind (aret x) f = f x"
  by (simp add: abind_def aret_def)

lemma abind_aret_right [simp]: "abind m aret = m"
  by (rule ext) (auto simp: abind_def aret_def split: prod.splits res.splits)

lemma read_then:
  assumes "at_offset env incoming outgoing xs k reader" "n < 2 ^ 31" "k + n \<le> length xs"
    and "\<And>reader'. at_offset env incoming outgoing xs (k + n) reader' \<Longrightarrow>
      \<exists>reader''. f (take n (drop k xs)) reader' = (Ok y, reader'') \<and> at_offset env incoming outgoing xs j reader''"
  shows "\<exists>reader''. abind (read_or_refuse env context n error) f reader = (Ok y, reader'') \<and>
    at_offset env incoming outgoing xs j reader''"
proof -
  from read_at_offset [OF assms(1-3), of "context" error] obtain reader' where
    "read_or_refuse env context n error reader = (Ok (take n (drop k xs)), reader')"
    "at_offset env incoming outgoing xs (k + n) reader'" by blast
  with assms(4) [of reader'] show ?thesis by (simp add: run_abind)
qed

lemma copy_all [simp]: "\<forall>n. h2_alloc env n \<Longrightarrow> copy_or_refuse env context raw error = aret raw"
  by (simp add: copy_or_refuse_def)

lemma aret_apply: "aret x s = (Ok x, s)"
  by (simp add: aret_def)

lemma parse_payload_frame:
  assumes at: "at_offset env incoming outgoing xs k reader"
    and ok: "frame_ok n frame" "n < 2 ^ 24" and xs: "drop k xs = frame_payload frame @ rest"
  shows "\<exists>reader'. parse_http2_payload env context (frame_header frame) reader = (Ok frame, reader') \<and>
    at_offset env incoming outgoing xs (k + length (frame_payload frame)) reader'"
proof -
  have alloc: "\<forall>n. h2_alloc env n" using at by (simp add: at_offset_def reader_ready_def)
  have len: "k + length (frame_payload frame) \<le> length xs"
    using at arg_cong [OF xs, of length] by (auto simp: at_offset_def)
  have small: "length (frame_payload frame) < 2 ^ 31" using frame_length_le [OF ok(1)] ok(2) by simp
  note unat = frame_length [OF ok]
  have one: ?thesis
    if "parse_http2_payload env context (frame_header frame) =
      abind (read_or_refuse env context (length (frame_payload frame)) error) (\<lambda>raw. aret (mk raw))"
      "mk (frame_payload frame) = frame" for error mk
    unfolding that(1) by (rule read_then [OF at small len]) (simp add: xs that(2) aret_apply)
  note readers = parse_http2_payload_def parse_http2_data_frame_def parse_http2_headers_frame_def
    parse_http2_continuation_frame_def parse_http2_rst_stream_frame_def parse_http2_ping_frame_def
    parse_http2_goaway_frame_def parse_http2_settings_frame_def
    parse_padding_length_def check_padding_def parse_headers_priority_def Let_def
  show ?thesis
  proof (cases frame)
    case (Http2FrameTypeData f)
    with ok unat alloc show ?thesis
      by (intro one [where error = "''Failed to read enough data for the frame data''" and mk = "\<lambda>raw. Http2FrameTypeData \<lparr>df_content = raw, df_is_end = df_is_end f, df_identifier = df_identifier f\<rparr>"]) (auto simp: readers)
  next
    case (Http2FrameTypeHeaders f)
    with ok unat alloc show ?thesis
      by (intro one [where error = "''Failed to read enough data for the frame data''" and mk = "\<lambda>raw. Http2FrameTypeHeaders
        \<lparr>hfr_has_priority = False, hfr_priority = DEFAULT_STREAM_PRIORITY, hfr_block_fragment = raw,
         hfr_identifier = hfr_identifier f, hfr_end_stream = hfr_end_stream f, hfr_end_headers = hfr_end_headers f\<rparr>"]) (auto simp: readers)
  next
    case (Http2FrameTypeContinuation f)
    with ok unat alloc show ?thesis
      by (intro one [where error = "''Failed to read enough data for the frame data''" and mk = "\<lambda>raw. Http2FrameTypeContinuation
        \<lparr>cf_block_fragment = raw, cf_identifier = cf_identifier f, cf_end_headers = cf_end_headers f\<rparr>"]) (auto simp: readers)
  next
    case (Http2FrameTypeRstStream f)
    with ok unat alloc show ?thesis
      by (intro one [where error = "''Failed to read enough data for the frame header''" and mk = "\<lambda>raw. Http2FrameTypeRstStream
        \<lparr>rf_error_code = deserialize_u32_be_to_host (h2_order env) raw, rf_identifier = rf_identifier f\<rparr>"])
        (auto simp: readers deserialize_be_bytes of_le_bytes_le_bytes)
  next
    case (Http2FrameTypePing f)
    with ok unat alloc show ?thesis
      by (intro one [where error = "''Failed to read enough data for the frame header''" and mk = "\<lambda>raw. Http2FrameTypePing \<lparr>pgf_ack = pgf_ack f, pgf_opaque_data = raw\<rparr>"]) (auto simp: readers)
  next
    case (Http2FrameTypeSettings f)
    with ok at show ?thesis
      by (auto simp: readers parse_raw_http2_settings_frame_def parse_settings_loop.simps aret_apply)
  next
    case (Http2FrameTypeGoaway f)
    let ?head = "serialize_identifier BIG_ENDIAN (gf_last_stream_id f) @ rev (le_bytes 4 (gf_error_code f))"
    let ?debug = "gf_additional_debug_data f"
    have head: "length ?head = 8" by (simp add: serialize_identifier_def u32_be.ser_length)
    have step: "drop (k + 8) xs = drop 8 (drop k xs)" by (simp add: add.commute)
    have data: "take 8 (drop k xs) = ?head" "take (length ?debug) (drop (k + 8) xs) = ?debug"
      unfolding step xs using Http2FrameTypeGoaway head by simp_all
    let ?mk = "\<lambda>data debug. Http2FrameTypeGoaway
        \<lparr>gf_last_stream_id = deserialize_identifier (h2_order env) data,
         gf_error_code = deserialize_u32_be_to_host (h2_order env) (drop 4 data),
         gf_additional_debug_data = debug\<rparr>"
    have mk: "?mk ?head ?debug = frame"
      using Http2FrameTypeGoaway head
      by (simp add: identifier_roundtrip_append deserialize_be_bytes of_le_bytes_le_bytes)
    have parse: "parse_http2_payload env context (frame_header frame) =
        abind (read_or_refuse env context 8 ''Failed to read enough data for the frame data'') (\<lambda>data.
        abind (if 0 < length ?debug
               then read_or_refuse env context (length ?debug) ''Failed to read enough data for the frame data''
               else aret []) (\<lambda>debug. aret (?mk data debug)))"
      using alloc Http2FrameTypeGoaway unat_of_nat_24 [of "length ?debug + 8"] ok
      by (simp add: readers del: of_nat_add of_nat_numeral)
    have total: "length (frame_payload frame) = 8 + length ?debug"
      using Http2FrameTypeGoaway head by simp
    have rest: "\<exists>r''. abind (if 0 < length ?debug
               then read_or_refuse env context (length ?debug) ''Failed to read enough data for the frame data''
               else aret []) (\<lambda>debug. aret (?mk (take 8 (drop k xs)) debug)) r' = (Ok frame, r'') \<and>
        at_offset env incoming outgoing xs (k + length (frame_payload frame)) r''"
      if "at_offset env incoming outgoing xs (k + 8) r'" for r'
    proof (cases "?debug = []")
      case True
      with that total mk data show ?thesis by (simp add: aret_apply)
    next
      case False
      then have "0 < length ?debug" by simp
      then show ?thesis
        unfolding if_P [OF \<open>0 < length ?debug\<close>]
        by (intro read_then [OF that]) (use len small total mk data in \<open>auto simp: aret_apply add.assoc\<close>)
    qed
    show ?thesis
      unfolding parse by (rule read_then [OF at], use len total in simp, use len total in simp, rule rest)
  qed (use ok in auto)
qed

lemma parse_frame_payload:
  assumes ready: "reader_ready (h2_alloc env) (h2_io env) incoming outgoing reader"
    and pend: "pending incoming reader = serialize_raw_header ord header @ rest"
    and "unat (rh_length header) \<le> unat (set_max_frame_size (ctx_settings context))"
  obtains r1 where "parse_http2_frame env context reader = parse_http2_payload env context header r1"
    "at_offset env incoming outgoing (pending incoming reader) 9 r1"
proof -
  let ?xs = "pending incoming reader"
  have at: "at_offset env incoming outgoing ?xs 0 reader" using ready by (simp add: at_offset_def)
  have nine: "take 9 ?xs = serialize_raw_header ord header" "9 \<le> length ?xs"
    by (simp_all add: pend raw_header_length)
  obtain r1 where r1: "read_or_refuse env context 9 ''Failed to read enough data for the frame header'' reader =
      (Ok (take 9 ?xs), r1)" "at_offset env incoming outgoing ?xs 9 r1"
    using read_at_offset [OF at, of 9] nine(2) by fastforce
  with nine assms(3) have "parse_http2_frame env context reader = parse_http2_payload env context header r1"
    by (simp add: parse_http2_frame_def run_abind raw_header_roundtrip)
  with r1(2) that show thesis by blast
qed

lemma parse_frame_wire:
  assumes ready: "reader_ready (h2_alloc env) (h2_io env) incoming outgoing reader"
    and ok: "frame_ok n frame" "n < 2 ^ 24" "n \<le> unat (set_max_frame_size (ctx_settings context))"
    and pend: "pending incoming reader = serialize_raw_header ord (frame_header frame) @ frame_payload frame @ rest"
  shows "\<exists>reader'. parse_http2_frame env context reader = (Ok frame, reader') \<and>
    reader_ready (h2_alloc env) (h2_io env) incoming outgoing reader' \<and> pending incoming reader' = rest"
proof -
  let ?xs = "pending incoming reader" and ?h = "frame_header frame"
  have "unat (rh_length ?h) \<le> unat (set_max_frame_size (ctx_settings context))"
    using frame_length [OF ok(1,2)] frame_length_le [OF ok(1)] ok(3) by simp
  from ready pend this obtain r1 where r1: "parse_http2_frame env context reader = parse_http2_payload env context ?h r1"
    "at_offset env incoming outgoing ?xs 9 r1" by (rule parse_frame_payload)
  have "drop 9 ?xs = frame_payload frame @ rest" by (simp add: pend raw_header_length)
  from parse_payload_frame [OF r1(2) ok(1,2) this] obtain r2 where
    "parse_http2_payload env context ?h r1 = (Ok frame, r2)"
    "at_offset env incoming outgoing ?xs (9 + length (frame_payload frame)) r2" by blast
  moreover have "drop (9 + length (frame_payload frame)) ?xs = rest"
    by (simp add: pend raw_header_length)
  ultimately show ?thesis using r1(1) by (auto simp: at_offset_def)
qed


text \<open>An input for the theorems: the default settings and a connection in memory.\<close>

definition pipe_env :: "nat \<Rightarrow> pipe h2_env" where
  "pipe_env k = \<lparr>h2_alloc = (\<lambda>_. True), h2_push = (\<lambda>_. True), h2_insert = (\<lambda>_. True), h2_io = pipe_io k, h2_order = LITTLE_ENDIAN\<rparr>"

definition pipe_reader :: "bytes \<Rightarrow> pipe BufferedReader" where
  "pipe_reader bs =
     \<lparr>br_descriptor = NormalDescriptor \<lparr>pipe_in = bs, pipe_out = []\<rparr>, br_state = StreamStateOpen, br_cursor = 0,
      br_buffer = []\<rparr>"

lemma default_context_simps [simp]:
  "set_max_frame_size (ctx_settings (http2_default_context alloc)) = 16384"
  "set_enable_push (ctx_settings (http2_default_context alloc))"
  by (simp_all add: http2_default_context_def http2_default_settings_def)

lemma pipe_reader_ready:
  assumes "length bs < 2 ^ 63"
  shows "reader_ready (h2_alloc (pipe_env k)) (h2_io (pipe_env k)) pipe_in pipe_out (pipe_reader bs)"
  using assms by (simp add: reader_ready_def pipe_env_def pipe_reader_def pipe_reliable)

lemma pending_pipe_reader [simp]: "pending pipe_in (pipe_reader bs) = bs"
  by (simp add: pending_def pipe_reader_def)


section \<open>Where the writers and readers leave their memory\<close>

lemma settings_write_loop_overruns:
  "length buf = i + length settings \<Longrightarrow> settings \<noteq> [] \<Longrightarrow>
   settings_write_loop ord buf i settings = Undef OutOfBounds"
proof (induction settings arbitrary: buf i)
  case (Cons setting settings)
  let ?bs = "serialize_u16_host_to_be ord (sv_identifier setting) @ serialize_u32_host_to_be ord (sv_value setting)"
  have bs: "length ?bs = 6" by (simp add: u16_be.ser_length u32_be.ser_length)
  show ?case
  proof (cases "i + 6 \<le> length buf")
    case False
    with bs show ?thesis by (simp add: memcpy_cells_def)
  next
    case True
    with Cons.prems have "settings \<noteq> []" by auto
    with True bs Cons show ?thesis by (simp add: memcpy_cells_def)
  qed
qed simp

text \<open>
  The SETTINGS writer overruns its block for every frame that has entries: the block gets one byte
  per entry, each entry takes six. The server sends such a frame, with the header table size, at the
  start of every HTTP/2 connection.
\<close>

theorem settings_frame_overruns:
  assumes "sf_entries frame \<noteq> []" "length (sf_entries frame) < 2 ^ 32" "\<not> sf_ack frame" "\<forall>n. h2_alloc env n"
  shows "http2_send_settings_frame env frame d = (Undef OutOfBounds, d)"
  using assms unat_of_nat_u32 [OF assms(2)]
    settings_write_loop_overruns [of "replicate (length (sf_entries frame)) None" 0 "sf_entries frame" "h2_order env"]
  by (simp add: http2_send_settings_frame_def abind_def alift_def Let_def)

theorem settings_frame_overruns_witness:
  "http2_send_settings_frame (pipe_env 0)
     \<lparr>sf_ack = False, sf_entries = [\<lparr>sv_identifier = 1, sv_value = 4096\<rparr>]\<rparr> (NormalDescriptor \<lparr>pipe_in = [], pipe_out = []\<rparr>) =
   (Undef OutOfBounds, NormalDescriptor \<lparr>pipe_in = [], pipe_out = []\<rparr>)"
  using settings_frame_overruns [of "\<lparr>sf_ack = False, sf_entries = [\<lparr>sv_identifier = 1, sv_value = 4096\<rparr>]\<rparr>" "pipe_env 0"
      "NormalDescriptor \<lparr>pipe_in = [], pipe_out = []\<rparr>"]
  by (simp add: pipe_env_def)

lemma push_promise_undef:
  assumes at: "at_offset env incoming outgoing xs k reader" and "k < length xs"
    and "rh_type header = 0x05" "rh_flags header = 0 \<or> rh_flags header = 0x04" "rh_stream_identifier header = 0"
    and "4 \<le> unat (rh_length header)" "set_enable_push (ctx_settings context)"
  shows "\<exists>reader'. parse_http2_payload env context header reader = (Undef OutOfBounds, reader')"
proof -
  have "parse_http2_payload env context header = parse_http2_push_promise_frame env context header"
    using assms(3) by (simp add: parse_http2_payload_def)
  moreover obtain r where r: "read_or_refuse env context 1 ''Failed to read enough data for the frame header'' reader =
      (Ok (take 1 (drop k xs)), r)"
    using read_at_offset [OF at, of 1] assms(2) by fastforce
  have "rh_flags header AND 0x0C = rh_flags header" "rh_flags header AND 0x08 = 0"
    using assms(4) by auto
  with assms(5-7) have "parse_http2_push_promise_frame env context header reader = (Undef OutOfBounds, r)"
    using r by (simp add: parse_http2_push_promise_frame_def parse_padding_length_def Let_def)
      (simp add: abind_def alift_def min_def)
  ultimately show ?thesis by simp
qed

text \<open>
  A PUSH_PROMISE frame on stream 0 with a payload of at least four bytes, which the default settings
  admit, makes \<open>parse_http2_frame\<close> read three bytes behind the byte it asked for: a client can trigger
  the read at any time.
\<close>

theorem push_promise_undefined:
  assumes "reader_ready (h2_alloc env) (h2_io env) incoming outgoing reader"
    and "pending incoming reader = serialize_raw_header ord header @ rest" "rest \<noteq> []"
    and "rh_type header = 0x05" "rh_flags header = 0 \<or> rh_flags header = 0x04" "rh_stream_identifier header = 0"
    and "4 \<le> unat (rh_length header)" "unat (rh_length header) \<le> unat (set_max_frame_size (ctx_settings context))"
    and "set_enable_push (ctx_settings context)"
  shows "\<exists>reader'. parse_http2_frame env context reader = (Undef OutOfBounds, reader')"
proof (rule parse_frame_payload [OF assms(1,2,8)])
  fix r1 assume r1: "parse_http2_frame env context reader = parse_http2_payload env context header r1"
    "at_offset env incoming outgoing (pending incoming reader) 9 r1"
  have "9 < length (pending incoming reader)" using assms(2,3) by (simp add: raw_header_length)
  from push_promise_undef [OF r1(2) this assms(4-7,9)] r1(1) show ?thesis by simp
qed

theorem push_promise_undefined_witness:
  "\<exists>reader'. parse_http2_frame (pipe_env 3) (http2_default_context (\<lambda>_. True))
      (pipe_reader [0, 0, 4, 5, 0, 0, 0, 0, 0, 0, 0, 0, 2]) = (Undef OutOfBounds, reader')"
proof -
  have bytes: "serialize_raw_header LITTLE_ENDIAN
      \<lparr>rh_length = 4, rh_type = 5, rh_flags = 0, rh_stream_identifier = 0\<rparr> = [0, 0, 4, 5, 0, 0, 0, 0, 0]"
    by code_simp
  show ?thesis
    by (rule push_promise_undefined [OF pipe_reader_ready, where ord = LITTLE_ENDIAN and rest = "[0, 0, 0, 2]"
          and header = "\<lparr>rh_length = 4, rh_type = 5, rh_flags = 0, rh_stream_identifier = 0\<rparr>"])
      (simp_all add: bytes)
qed

text \<open>Inputs that reach the conclusions of the two theorems on arbitrary input.\<close>

lemma push_promise_pipe:
  "\<exists>reader'. parse_http2_frame (pipe_env 3) (http2_default_context (\<lambda>_. True))
      (pipe_reader [0, 0, 4, 5, 0, 0, 0, 0, 0, 0, 0, 0, 2]) = (Undef OutOfBounds, reader')"
proof -
  let ?h = "\<lparr>rh_length = 4, rh_type = 5, rh_flags = 0, rh_stream_identifier = 0\<rparr> :: Http2RawHeader"
  let ?r = "pipe_reader [0, 0, 4, 5, 0, 0, 0, 0, 0, 0, 0, 0, 2]"
  have bytes: "serialize_raw_header LITTLE_ENDIAN ?h = [0, 0, 4, 5, 0, 0, 0, 0, 0]" by code_simp
  have ready: "reader_ready (h2_alloc (pipe_env 3)) (h2_io (pipe_env 3)) pipe_in pipe_out ?r"
    by (rule pipe_reader_ready) simp
  have "pending pipe_in ?r = serialize_raw_header LITTLE_ENDIAN ?h @ [0, 0, 0, 2]"
    "unat (rh_length ?h) \<le> unat (set_max_frame_size (ctx_settings (http2_default_context (\<lambda>_. True))))"
    by (simp_all add: bytes)
  from parse_frame_payload [OF ready this] obtain r1 where
    "parse_http2_frame (pipe_env 3) (http2_default_context (\<lambda>_. True)) ?r =
      parse_http2_payload (pipe_env 3) (http2_default_context (\<lambda>_. True)) ?h r1"
    "at_offset (pipe_env 3) pipe_in pipe_out (pending pipe_in ?r) 9 r1" .
  with push_promise_undef [OF this(2), of ?h "http2_default_context (\<lambda>_. True)"] show ?thesis by simp
qed


theorem parse_http2_frame_boundaries_witness:
  "\<exists>reader'. parse_http2_frame (pipe_env 2) (http2_default_context (\<lambda>_. True))
      (pipe_reader [0, 0, 2, 0, 1, 0, 0, 0, 5, 65, 66, 7]) =
     (Ok (Http2FrameTypeData \<lparr>df_content = [65, 66], df_is_end = True, df_identifier = 5\<rparr>), reader') \<and>
     length (pending pipe_in reader') \<le> 3"
proof -
  let ?f = "Http2FrameTypeData \<lparr>df_content = [65, 66], df_is_end = True, df_identifier = 5\<rparr>"
  let ?r = "pipe_reader [0, 0, 2, 0, 1, 0, 0, 0, 5, 65, 66, 7]"
  have "serialize_raw_header LITTLE_ENDIAN (frame_header ?f) = [0, 0, 2, 0, 1, 0, 0, 0, 5]" by code_simp
  then have pend: "pending pipe_in ?r = serialize_raw_header LITTLE_ENDIAN (frame_header ?f) @ frame_payload ?f @ [7]"
    by simp
  have ready: "reader_ready (h2_alloc (pipe_env 2)) (h2_io (pipe_env 2)) pipe_in pipe_out ?r"
    by (rule pipe_reader_ready) simp
  have "frame_ok 2 ?f" "2 < (2 :: nat) ^ 24" "2 \<le> unat (set_max_frame_size (ctx_settings (http2_default_context (\<lambda>_. True))))"
    by simp_all
  from parse_frame_wire [OF ready this pend] obtain reader' where
    ok: "parse_http2_frame (pipe_env 2) (http2_default_context (\<lambda>_. True)) ?r = (Ok ?f, reader')" by blast
  obtain header payload where "pending pipe_in ?r = header @ payload @ pending pipe_in reader'" "length header = 9"
    using parse_http2_frame_boundaries [OF ready ok] by auto
  then have "length (header @ payload @ pending pipe_in reader') = length (pending pipe_in ?r)" by simp
  with \<open>length header = 9\<close> ok show ?thesis by simp
qed

end
