(* ===== verification/Http2_Stream.thy ===== *)
theory Http2_Stream
  imports Http2_Wire Hpack_Decode
begin

text \<open>
  HTTP/2 streams (\<open>src/src/http/v2.c\<close>): applying settings, the per-stream state machine
  \<open>process_http2_frame_for_stream\<close>, connection frames, the fragmentation of outgoing messages by
  \<open>http2_send_headers\<close> and \<open>http2_send_data\<close>, and the collection of incoming fragments. The theorems give
  the invariant of all reachable connection states and show that a message cut into frames by the
  writer is reassembled by the state machine.
\<close>

section \<open>Settings\<close>

definition apply_setting ::
  "'d h2_env \<Rightarrow> HTTP2Context \<Rightarrow> Http2SettingSingleValue \<Rightarrow> (unit, HTTP2Context) res" where
  "apply_setting env context entry =
     (let settings = ctx_settings context; value = sv_value entry in
      if sv_identifier entry = 0x1 then
        (let context' = context\<lparr>ctx_settings := settings\<lparr>set_header_table_size := value\<rparr>\<rparr>;
             state = ctx_state context'; hpack = cs_hpack_state state in
         case hs_decompress_state hpack of
           None \<Rightarrow> Undef OutOfBounds
         | Some dec \<Rightarrow>
             rbind (set_hpack_decompress_state_setting (h2_alloc env) dec (unat value)) (\<lambda>dec'.
             Ok (context'\<lparr>ctx_state := state\<lparr>cs_hpack_state := hpack\<lparr>hs_decompress_state := Some dec'\<rparr>\<rparr>\<rparr>)))
      else if sv_identifier entry = 0x2 then
        Ok (context\<lparr>ctx_settings := settings\<lparr>set_enable_push := value \<noteq> 0\<rparr>\<rparr>)
      else if sv_identifier entry = 0x3 then
        Ok (context\<lparr>ctx_settings := settings\<lparr>set_max_concurrent_streams := value\<rparr>\<rparr>)
      else if sv_identifier entry = 0x4 then
        Ok (context\<lparr>ctx_settings := settings\<lparr>set_initial_window_size := value\<rparr>\<rparr>)
      else if sv_identifier entry = 0x5 then
        Ok (context\<lparr>ctx_settings := settings\<lparr>set_max_frame_size := value\<rparr>\<rparr>)
      else if sv_identifier entry = 0x6 then
        Ok (context\<lparr>ctx_settings := settings\<lparr>set_max_header_list_size := value\<rparr>\<rparr>)
      else Ok context)"

fun apply_settings ::
  "'d h2_env \<Rightarrow> HTTP2Context \<Rightarrow> Http2SettingSingleValue list \<Rightarrow> (unit, HTTP2Context) res" where
  "apply_settings env context [] = Ok context"
| "apply_settings env context (entry # rest) =
     rbind (apply_setting env context entry) (\<lambda>context'. apply_settings env context' rest)"

definition http2_apply_settings_frame ::
  "'d h2_env \<Rightarrow> HTTP2Context \<Rightarrow> Http2SettingsFrame \<Rightarrow> (unit, HTTP2Context) res" where
  "http2_apply_settings_frame env context frame = apply_settings env context (sf_entries frame)"

section \<open>Stream operations\<close>

text \<open>The stream a frame belongs to; \<open>None\<close> for a frame of the whole connection.\<close>

fun get_http2_frame_category :: "Http2Frame \<Rightarrow> Http2Identifier option" where
  "get_http2_frame_category (Http2FrameTypeData f) = Some (df_identifier f)"
| "get_http2_frame_category (Http2FrameTypeHeaders f) = Some (hfr_identifier f)"
| "get_http2_frame_category (Http2FrameTypePriority f) = Some (pf_identifier f)"
| "get_http2_frame_category (Http2FrameTypeRstStream f) = Some (rf_identifier f)"
| "get_http2_frame_category (Http2FrameTypeSettings f) = None"
| "get_http2_frame_category (Http2FrameTypePushPromise f) = Some (ppf_identifier f)"
| "get_http2_frame_category (Http2FrameTypePing f) = None"
| "get_http2_frame_category (Http2FrameTypeGoaway f) = None"
| "get_http2_frame_category (Http2FrameTypeWindowUpdate f) =
     (if wf_identifier f = 0 then None else Some (wf_identifier f))"
| "get_http2_frame_category (Http2FrameTypeContinuation f) = Some (cf_identifier f)"

definition get_http2_stream :: "HTTP2Context \<Rightarrow> Http2Identifier \<Rightarrow> Http2Stream option" where
  "get_http2_stream context identifier = ctx_streams context identifier"

definition get_http2_stream_state :: "HTTP2Context \<Rightarrow> Http2Identifier \<Rightarrow> Http2StreamState" where
  "get_http2_stream_state context identifier =
     (case ctx_streams context identifier of None \<Rightarrow> Http2StreamStateIdle | Some stream \<Rightarrow> st_state stream)"

text \<open>Writing through the pointer that \<open>get_http2_stream\<close> returned.\<close>

definition put_stream :: "HTTP2Context \<Rightarrow> Http2Identifier \<Rightarrow> Http2Stream \<Rightarrow> HTTP2Context" where
  "put_stream context identifier stream =
     context\<lparr>ctx_streams := (ctx_streams context)(identifier \<mapsto> stream)\<rparr>"

text \<open>\<open>TMAP_INSERT\<close> without overwriting: it fails when the key is present or memory runs out.\<close>

definition add_new_http2_stream ::
  "'d h2_env \<Rightarrow> HTTP2Context \<Rightarrow> Http2Identifier \<Rightarrow> Http2Stream \<Rightarrow> HTTP2Context option" where
  "add_new_http2_stream env context identifier stream =
     (if ctx_streams context identifier \<noteq> None \<or> \<not> h2_insert env identifier then None
      else Some (put_stream context identifier stream))"

definition EMPTY_STREAM_HEADERS :: Http2StreamHeaders where
  "EMPTY_STREAM_HEADERS = \<lparr>sh_finished = False, sh_header_blocks = []\<rparr>"

definition EMPTY_STREAM_CONTENT :: Http2StreamContent where
  "EMPTY_STREAM_CONTENT = \<lparr>sc_finished = False, sc_data_blocks = []\<rparr>"

definition http2_stream_add_header_block ::
  "'d h2_env \<Rightarrow> Http2Stream \<Rightarrow> bytes \<Rightarrow> bool \<Rightarrow> Http2Stream option" where
  "http2_stream_add_header_block env stream header_block finished =
     (let headers = st_headers stream in
      if sh_finished headers then None
      else if \<not> h2_push env (length (sh_header_blocks headers)) then None
      else Some (stream\<lparr>st_headers :=
             \<lparr>sh_finished = finished, sh_header_blocks = sh_header_blocks headers @ [header_block]\<rparr>\<rparr>))"

definition http2_stream_add_content_block ::
  "'d h2_env \<Rightarrow> Http2Stream \<Rightarrow> bytes \<Rightarrow> bool \<Rightarrow> Http2Stream option" where
  "http2_stream_add_content_block env stream content_block end_stream =
     (let content = st_content stream in
      if st_end_stream stream then None
      else if \<not> h2_push env (length (sc_data_blocks content)) then None
      else Some (stream\<lparr>st_content := content\<lparr>sc_data_blocks := sc_data_blocks content @ [content_block]\<rparr>,
                        st_end_stream := end_stream\<rparr>))"

definition free_http2_stream_headers :: "Http2StreamHeaders \<Rightarrow> Http2StreamHeaders" where
  "free_http2_stream_headers headers = headers\<lparr>sh_header_blocks := []\<rparr>"

definition free_http2_stream_content :: "Http2StreamContent \<Rightarrow> Http2StreamContent" where
  "free_http2_stream_content content = content\<lparr>sc_data_blocks := []\<rparr>"

definition free_http2_stream :: "Http2Stream \<Rightarrow> Http2Stream" where
  "free_http2_stream stream =
     stream\<lparr>st_headers := free_http2_stream_headers (st_headers stream),
            st_content := free_http2_stream_content (st_content stream)\<rparr>"

definition http2_close_stream :: "Http2Stream \<Rightarrow> Http2Stream" where
  "http2_close_stream stream = free_http2_stream (stream\<lparr>st_state := Http2StreamStateClosed\<rparr>)"

definition http2_close_stream_by_identifier :: "HTTP2Context \<Rightarrow> Http2Identifier \<Rightarrow> HTTP2Context" where
  "http2_close_stream_by_identifier context identifier =
     (case get_http2_stream context identifier of
        None \<Rightarrow> context
      | Some stream \<Rightarrow> put_stream context identifier (http2_close_stream stream))"

section \<open>Processing a frame\<close>

datatype Http2ProcessFrameResult =
    Http2ProcessFrameResultTypeOk
  | Http2ProcessFrameResultTypeNewFinishedRequest Http2Identifier
  | Http2ProcessFrameResultTypeError bool tstr_static
  | Http2ProcessFrameResultTypeCloseConnection

type_synonym 'd process_act = "(unit, 'd ConnectionDescriptor, Http2ProcessFrameResult \<times> HTTP2Context) act"

text \<open>A frame is sent and the success of sending it ignored.\<close>

definition send_unused :: "(unit, 's, unit) act \<Rightarrow> (unit, 's, unit) act" where
  "send_unused m = (\<lambda>s. case m s of (Undef u, s') \<Rightarrow> (Undef u, s') | (_, s') \<Rightarrow> (Ok (), s'))"

definition stream_error ::
  "'d h2_env \<Rightarrow> HTTP2Context \<Rightarrow> Http2Identifier \<Rightarrow> u32 \<Rightarrow> tstr_static \<Rightarrow> 'd process_act" where
  "stream_error env context identifier code error =
     abind (send_unused (http2_send_stream_error env code identifier)) (\<lambda>_.
     aret (Http2ProcessFrameResultTypeError False error, http2_close_stream_by_identifier context identifier))"

definition stream_not_found :: "'d h2_env \<Rightarrow> HTTP2Context \<Rightarrow> tstr_static \<Rightarrow> 'd process_act" where
  "stream_not_found env context error =
     abind (send_unused (http2_send_connection_error env context Http2ErrorCodeInternalError error)) (\<lambda>_.
     aret (Http2ProcessFrameResultTypeError True error, context))"

definition process_data_frame ::
  "'d h2_env \<Rightarrow> Http2Identifier \<Rightarrow> HTTP2Context \<Rightarrow> Http2DataFrame \<Rightarrow> 'd process_act" where
  "process_data_frame env identifier context frame =
     (let stream_state = get_http2_stream_state context identifier in
      if stream_state \<noteq> Http2StreamStateOpen \<and> stream_state \<noteq> Http2StreamStateHalfClosed then
        stream_error env context identifier Http2ErrorCodeStreamClosed
          ''Data frame send on a stream in an invalid state''
      else
        (case get_http2_stream context identifier of
           None \<Rightarrow> stream_not_found env context ''Implementation error, stream not found''
         | Some stream \<Rightarrow>
             if st_end_stream stream then
               stream_error env context identifier Http2ErrorCodeProtocolError
                 ''Stream already finished but still received a data frame''
             else if \<not> sh_finished (st_headers stream) then
               stream_error env context identifier Http2ErrorCodeProtocolError
                 ''Stream headers not finished, but already received a data frame''
             else
               (case http2_stream_add_content_block env stream (df_content frame) (df_is_end frame) of
                  None \<Rightarrow> aret (Http2ProcessFrameResultTypeError True ''stream content block add error'', context)
                | Some stream' \<Rightarrow>
                    if st_end_stream stream' then
                      aret (Http2ProcessFrameResultTypeNewFinishedRequest identifier,
                            put_stream context identifier (stream'\<lparr>st_state := Http2StreamStateHalfClosed\<rparr>))
                    else aret (Http2ProcessFrameResultTypeOk, put_stream context identifier stream'))))"

text \<open>
  HEADERS and CONTINUATION end alike: the block is added to the stream, which is then finished when the
  stream and its headers are.
\<close>

definition finish_header_block ::
  "'d h2_env \<Rightarrow> Http2Identifier \<Rightarrow> HTTP2Context \<Rightarrow> Http2Stream \<Rightarrow> bytes \<Rightarrow> bool \<Rightarrow> 'd process_act" where
  "finish_header_block env identifier context stream block_fragment end_headers =
     (case http2_stream_add_header_block env stream block_fragment end_headers of
        None \<Rightarrow> aret (Http2ProcessFrameResultTypeError True ''stream header block add error'',
                       put_stream context identifier stream)
      | Some stream' \<Rightarrow>
          if st_end_stream stream' \<and> sh_finished (st_headers stream') then
            aret (Http2ProcessFrameResultTypeNewFinishedRequest identifier,
                  put_stream context identifier (stream'\<lparr>st_state := Http2StreamStateHalfClosed\<rparr>))
          else aret (Http2ProcessFrameResultTypeOk, put_stream context identifier stream'))"

definition process_headers_frame ::
  "'d h2_env \<Rightarrow> Http2Identifier \<Rightarrow> HTTP2Context \<Rightarrow> Http2HeadersFrame \<Rightarrow> 'd process_act" where
  "process_headers_frame env identifier context frame =
     (let stream_state = get_http2_stream_state context identifier in
      if stream_state = Http2StreamStateClosed then
        stream_error env context identifier Http2ErrorCodeProtocolError
          ''Headers frame send on a stream in an invalid state''
      else if stream_state \<noteq> Http2StreamStateIdle then
        stream_error env context identifier Http2ErrorCodeProtocolError
          ''Headers frame send on a stream in an invalid state (trailers not supported yet)''
      else
        (case get_http2_stream context identifier of
           None \<Rightarrow>
             (let new_stream =
                \<lparr>st_state = Http2StreamStateOpen, st_headers = EMPTY_STREAM_HEADERS,
                 st_content = EMPTY_STREAM_CONTENT, st_end_stream = hfr_end_stream frame,
                 st_priority = (if hfr_has_priority frame then hfr_priority frame else DEFAULT_STREAM_PRIORITY)\<rparr> in
              case add_new_http2_stream env context identifier new_stream of
                None \<Rightarrow> aret (Http2ProcessFrameResultTypeError True ''stream insert error'', context)
              | Some context' \<Rightarrow>
                  (case get_http2_stream context' identifier of
                     None \<Rightarrow> stream_not_found env context'
                              ''Implementation error, stream not found (after insert)''
                   | Some stream \<Rightarrow>
                       finish_header_block env identifier context' stream (hfr_block_fragment frame)
                         (hfr_end_headers frame)))
         | Some stream \<Rightarrow>
             (let stream' = stream\<lparr>st_end_stream := st_end_stream stream \<or> hfr_end_stream frame,
                 st_priority := (if hfr_has_priority frame then hfr_priority frame else st_priority stream)\<rparr> in
              if sh_finished (st_headers stream') then
                stream_error env (put_stream context identifier stream') identifier Http2ErrorCodeProtocolError
                  ''Headers already finished but still received a headers frame''
              else finish_header_block env identifier context stream' (hfr_block_fragment frame)
                     (hfr_end_headers frame))))"

definition process_priority_frame ::
  "'d h2_env \<Rightarrow> Http2Identifier \<Rightarrow> HTTP2Context \<Rightarrow> Http2PriorityFrame \<Rightarrow> 'd process_act" where
  "process_priority_frame env identifier context frame =
     (case get_http2_stream context identifier of
        None \<Rightarrow>
          (case add_new_http2_stream env context identifier
                  \<lparr>st_state = Http2StreamStateIdle, st_headers = EMPTY_STREAM_HEADERS,
                   st_content = EMPTY_STREAM_CONTENT, st_end_stream = False, st_priority = pf_priority frame\<rparr> of
             None \<Rightarrow> aret (Http2ProcessFrameResultTypeError True ''stream insert error'', context)
           | Some context' \<Rightarrow> aret (Http2ProcessFrameResultTypeOk, context'))
      | Some stream \<Rightarrow>
          aret (Http2ProcessFrameResultTypeOk,
                put_stream context identifier (stream\<lparr>st_priority := pf_priority frame\<rparr>)))"

definition process_rst_stream_frame ::
  "'d h2_env \<Rightarrow> Http2Identifier \<Rightarrow> HTTP2Context \<Rightarrow> Http2RstStreamFrame \<Rightarrow> 'd process_act" where
  "process_rst_stream_frame env identifier context frame =
     (if get_http2_stream_state context identifier = Http2StreamStateIdle then
        stream_error env context identifier Http2ErrorCodeProtocolError
          ''Rst Stream frame send on a stream in an invalid state''
      else
        (case get_http2_stream context identifier of
           None \<Rightarrow> stream_not_found env context ''Implementation error, stream not found''
         | Some stream \<Rightarrow>
             aret (Http2ProcessFrameResultTypeOk,
               put_stream context identifier
                 (if st_state stream = Http2StreamStateHalfClosed then http2_close_stream stream
                  else stream\<lparr>st_state := Http2StreamStateHalfClosed\<rparr>))))"

definition process_push_promise_frame ::
  "'d h2_env \<Rightarrow> Http2Identifier \<Rightarrow> HTTP2Context \<Rightarrow> Http2PushPromiseFrame \<Rightarrow> 'd process_act" where
  "process_push_promise_frame env identifier context frame =
     (let stream_state = get_http2_stream_state context identifier in
      if stream_state \<noteq> Http2StreamStateOpen \<and> stream_state \<noteq> Http2StreamStateHalfClosed then
        stream_error env context identifier Http2ErrorCodeProtocolError
          ''Push promise frame send on a stream in an invalid state''
      else
        (let new_stream =
           \<lparr>st_state = Http2StreamStateReserved, st_headers = EMPTY_STREAM_HEADERS,
            st_content = EMPTY_STREAM_CONTENT, st_end_stream = False,
            st_priority = DEFAULT_STREAM_PRIORITY_EXT identifier\<rparr> in
         case (if ppf_block_fragment frame = [] then Some new_stream
               else http2_stream_add_header_block env new_stream (ppf_block_fragment frame)
                      (ppf_end_headers frame)) of
           None \<Rightarrow> aret (Http2ProcessFrameResultTypeError True ''stream header block add error'', context)
         | Some stream' \<Rightarrow>
             (case add_new_http2_stream env context (ppf_promised_stream_identifier frame) stream' of
                None \<Rightarrow> aret (Http2ProcessFrameResultTypeError True ''stream insert error'', context)
              | Some context' \<Rightarrow> aret (Http2ProcessFrameResultTypeOk, context'))))"

definition process_continuation_frame ::
  "'d h2_env \<Rightarrow> Http2Identifier \<Rightarrow> HTTP2Context \<Rightarrow> Http2ContinuationFrame \<Rightarrow> 'd process_act" where
  "process_continuation_frame env identifier context frame =
     (let stream_state = get_http2_stream_state context identifier in
      if stream_state \<noteq> Http2StreamStateOpen \<and> stream_state \<noteq> Http2StreamStateReserved then
        stream_error env context identifier Http2ErrorCodeProtocolError
          ''Continuation frame send on a stream in an invalid state''
      else
        (case get_http2_stream context identifier of
           None \<Rightarrow> stream_not_found env context ''Implementation error, stream not found''
         | Some stream \<Rightarrow>
             if sh_finished (st_headers stream) then
               stream_error env context identifier Http2ErrorCodeProtocolError
                 ''Headers already finished but still received a continuation frame''
             else if cf_block_fragment frame = [] then
               stream_error env context identifier Http2ErrorCodeProtocolError
                 ''Continuation frame with empty headers block''
             else finish_header_block env identifier context stream (cf_block_fragment frame)
                    (cf_end_headers frame)))"

fun process_http2_frame_for_stream ::
  "'d h2_env \<Rightarrow> Http2Identifier \<Rightarrow> HTTP2Context \<Rightarrow> Http2Frame \<Rightarrow> 'd process_act" where
  "process_http2_frame_for_stream env identifier context (Http2FrameTypeData f) =
     process_data_frame env identifier context f"
| "process_http2_frame_for_stream env identifier context (Http2FrameTypeHeaders f) =
     process_headers_frame env identifier context f"
| "process_http2_frame_for_stream env identifier context (Http2FrameTypePriority f) =
     process_priority_frame env identifier context f"
| "process_http2_frame_for_stream env identifier context (Http2FrameTypeRstStream f) =
     process_rst_stream_frame env identifier context f"
| "process_http2_frame_for_stream env identifier context (Http2FrameTypePushPromise f) =
     process_push_promise_frame env identifier context f"
| "process_http2_frame_for_stream env identifier context (Http2FrameTypeWindowUpdate f) =
     aret (Http2ProcessFrameResultTypeOk, context)"
| "process_http2_frame_for_stream env identifier context (Http2FrameTypeContinuation f) =
     process_continuation_frame env identifier context f"
| "process_http2_frame_for_stream env identifier context frame =
     aret (Http2ProcessFrameResultTypeError True ''invalid frame type to process for a stream'', context)"

fun process_http2_frame_for_connection ::
  "'d h2_env \<Rightarrow> HTTP2Context \<Rightarrow> Http2Frame \<Rightarrow> 'd process_act" where
  "process_http2_frame_for_connection env context (Http2FrameTypeSettings f) =
     (if \<not> sf_ack f then
        abind (alift (http2_apply_settings_frame env context f)) (\<lambda>context'.
        abind (send_unused (http2_send_settings_frame env \<lparr>sf_ack = True, sf_entries = []\<rparr>)) (\<lambda>_.
        aret (Http2ProcessFrameResultTypeOk, context')))
      else aret (Http2ProcessFrameResultTypeOk, context))"
| "process_http2_frame_for_connection env context (Http2FrameTypePing f) =
     (if \<not> pgf_ack f then
        abind (send_unused (http2_send_ping_frame env \<lparr>pgf_ack = True, pgf_opaque_data = pgf_opaque_data f\<rparr>)) (\<lambda>_.
        aret (Http2ProcessFrameResultTypeOk, context))
      else aret (Http2ProcessFrameResultTypeOk, context))"
| "process_http2_frame_for_connection env context (Http2FrameTypeGoaway f) =
     aret (Http2ProcessFrameResultTypeCloseConnection,
       context\<lparr>ctx_state := (ctx_state context)\<lparr>cs_state := Http2StateTypeClosed (gf_error_code f)\<rparr>\<rparr>)"
| "process_http2_frame_for_connection env context (Http2FrameTypeWindowUpdate f) =
     aret (Http2ProcessFrameResultTypeOk, context)"
| "process_http2_frame_for_connection env context frame =
     aret (Http2ProcessFrameResultTypeError True ''invalid frame type to process for a connection'', context)"

definition update_last_stream_id :: "HTTP2Context \<Rightarrow> Http2Identifier \<Rightarrow> HTTP2Context" where
  "update_last_stream_id context identifier =
     (if cs_last_stream_id (ctx_state context) < identifier
      then context\<lparr>ctx_state := (ctx_state context)\<lparr>cs_last_stream_id := identifier\<rparr>\<rparr> else context)"

text \<open>For a frame of the connection the identifier in the category is zero.\<close>

definition process_http2_frame :: "'d h2_env \<Rightarrow> HTTP2Context \<Rightarrow> Http2Frame \<Rightarrow> 'd process_act" where
  "process_http2_frame env context frame =
     (case get_http2_frame_category frame of
        Some identifier \<Rightarrow>
          process_http2_frame_for_stream env identifier (update_last_stream_id context identifier) frame
      | None \<Rightarrow> process_http2_frame_for_connection env (update_last_stream_id context 0) frame)"

section \<open>Collecting a message\<close>

text \<open>
  \<open>http2_concat_data_blocks\<close>: the sizes are added in \<open>size_t\<close>, then every block is copied behind the
  previous ones.
\<close>

fun copy_blocks :: "membuf \<Rightarrow> nat \<Rightarrow> bytes list \<Rightarrow> (unit, membuf) res" where
  "copy_blocks buf off [] = Ok buf"
| "copy_blocks buf off (b # bs) = rbind (memcpy_cells buf off b) (\<lambda>buf'. copy_blocks buf' (off + length b) bs)"

definition http2_concat_data_blocks :: "'d h2_env \<Rightarrow> bytes list \<Rightarrow> (unit, bytes) res" where
  "http2_concat_data_blocks env data_blocks =
     (let total = foldl (\<lambda>acc b. size_add acc (length b)) 0 data_blocks in
      if total = 0 then Ok []
      else if \<not> h2_alloc env total then Err ()
      else rbind (copy_blocks (replicate total None) 0 data_blocks) read_block)"

section \<open>Fragmenting a message\<close>

definition get_max_headers_or_continuation_contentsize :: "Http2Settings \<Rightarrow> (unit, nat) res" where
  "get_max_headers_or_continuation_contentsize settings =
     rbind (check_assert (unat (set_max_frame_size settings) > 6)) (\<lambda>_.
     Ok (unat (set_max_frame_size settings) - 6))"

definition get_max_data_content_size :: "Http2Settings \<Rightarrow> nat" where
  "get_max_data_content_size settings = unat (set_max_frame_size settings)"

text \<open>The loops end unless the fragment size is zero: \<open>None\<close> is a loop that goes on for ever.\<close>

partial_function (option) send_headers_loop ::
  "'d h2_env \<Rightarrow> Http2Identifier \<Rightarrow> nat \<Rightarrow> bytes \<Rightarrow> bool \<Rightarrow> nat \<Rightarrow> 'd ConnectionDescriptor
     \<Rightarrow> ((unit, unit) res \<times> 'd ConnectionDescriptor) option" where
  "send_headers_loop env identifier max_size buffer headers_are_end_stream offset d =
     (if offset < length buffer then
        (let size = (if offset + max_size \<ge> length buffer then length buffer - offset else max_size);
             block_fragment = take size (drop offset buffer);
             end_headers = (offset + size \<ge> length buffer);
             sent = (if offset = 0 then
                       http2_send_headers_frame env
                         \<lparr>hfr_has_priority = False, hfr_priority = DEFAULT_STREAM_PRIORITY,
                          hfr_block_fragment = block_fragment, hfr_identifier = identifier,
                          hfr_end_stream = headers_are_end_stream, hfr_end_headers = end_headers\<rparr>
                     else
                       http2_send_continuation_frame env
                         \<lparr>cf_block_fragment = block_fragment, cf_identifier = identifier,
                          cf_end_headers = end_headers\<rparr>) d in
         case sent of
           (Ok _, d') \<Rightarrow> send_headers_loop env identifier max_size buffer headers_are_end_stream (offset + size) d'
         | (Err e, d') \<Rightarrow> Some (Err e, d')
         | (Undef u, d') \<Rightarrow> Some (Undef u, d'))
      else Some (Ok (), d))"

definition http2_send_headers ::
  "'d h2_env \<Rightarrow> Http2Identifier \<Rightarrow> Http2Settings \<Rightarrow> bytes \<Rightarrow> bool \<Rightarrow> 'd ConnectionDescriptor
     \<Rightarrow> ((unit, unit) res \<times> 'd ConnectionDescriptor) option" where
  "http2_send_headers env identifier settings buffer headers_are_end_stream d =
     (case get_max_headers_or_continuation_contentsize settings of
        Ok max_size \<Rightarrow> send_headers_loop env identifier max_size buffer headers_are_end_stream 0 d
      | Err e \<Rightarrow> Some (Err e, d)
      | Undef u \<Rightarrow> Some (Undef u, d))"

partial_function (option) send_data_loop ::
  "'d h2_env \<Rightarrow> Http2Identifier \<Rightarrow> nat \<Rightarrow> bytes \<Rightarrow> nat \<Rightarrow> 'd ConnectionDescriptor
     \<Rightarrow> ((unit, unit) res \<times> 'd ConnectionDescriptor) option" where
  "send_data_loop env identifier max_size buffer offset d =
     (if offset < length buffer then
        (let size = (if offset + max_size \<ge> length buffer then length buffer - offset else max_size);
             content = take size (drop offset buffer);
             is_end = (offset + size \<ge> length buffer) in
         case http2_send_data_frame env \<lparr>df_content = content, df_is_end = is_end, df_identifier = identifier\<rparr> d of
           (Ok _, d') \<Rightarrow> send_data_loop env identifier max_size buffer (offset + size) d'
         | (Err e, d') \<Rightarrow> Some (Err e, d')
         | (Undef u, d') \<Rightarrow> Some (Undef u, d'))
      else Some (Ok (), d))"

definition http2_send_data ::
  "'d h2_env \<Rightarrow> Http2Identifier \<Rightarrow> Http2Settings \<Rightarrow> bytes \<Rightarrow> 'd ConnectionDescriptor
     \<Rightarrow> ((unit, unit) res \<times> 'd ConnectionDescriptor) option" where
  "http2_send_data env identifier settings buffer d =
     send_data_loop env identifier (get_max_data_content_size settings) buffer 0 d"

section \<open>The request loop\<close>

text \<open>
  The loop of \<open>parse_http2_request\<close>: frames are read and processed until a request is complete, the peer
  closes the connection or an error concerns the whole connection. A peer may keep it busy for ever,
  which is the result \<open>None\<close>.
\<close>

datatype request_outcome =
    RequestFailed tstr_static | RequestFinished Http2Identifier | RequestCloseConnection

partial_function (option) http2_request_loop ::
  "'d h2_env \<Rightarrow> HTTP2Context \<Rightarrow> 'd BufferedReader
     \<Rightarrow> ((unit, request_outcome \<times> HTTP2Context) res \<times> 'd BufferedReader) option" where
  "http2_request_loop env context reader =
     (case parse_http2_frame env context reader of
        (Undef u, r) \<Rightarrow> Some (Undef u, r)
      | (Err e, r) \<Rightarrow> Some (Ok (RequestFailed e, context), r)
      | (Ok frame, r) \<Rightarrow>
          (case on_descriptor (process_http2_frame env context frame)
                  (buffered_reader_invalidate_old_data (h2_alloc env) r) of
             (Undef u, r') \<Rightarrow> Some (Undef u, r')
           | (Err e, r') \<Rightarrow> Some (Err e, r')
           | (Ok (result, context'), r') \<Rightarrow>
               (case result of
                  Http2ProcessFrameResultTypeError is_connection_error message \<Rightarrow>
                    if is_connection_error then Some (Ok (RequestFailed message, context'), r')
                    else http2_request_loop env context' r'
                | Http2ProcessFrameResultTypeNewFinishedRequest identifier \<Rightarrow>
                    (case get_http2_stream context' identifier of
                       None \<Rightarrow>
                         (case connection_error env context' Http2ErrorCodeInternalError
                                 ''Implementation error, stream not found'' r' of
                            (Undef u, r'') \<Rightarrow> Some (Undef u, r'')
                          | (_ :: (tstr_static, unit) res, r'') \<Rightarrow>
                              Some (Ok (RequestFailed ''Implementation error, stream not found'', context'), r''))
                     | Some stream \<Rightarrow> Some (Ok (RequestFinished identifier, context'), r'))
                | Http2ProcessFrameResultTypeOk \<Rightarrow> http2_request_loop env context' r'
                | Http2ProcessFrameResultTypeCloseConnection \<Rightarrow>
                    Some (Ok (RequestCloseConnection, context'), r'))))"

section \<open>What the parser guarantees\<close>

definition setting_entry_ok :: "Http2SettingSingleValue \<Rightarrow> bool" where
  "setting_entry_ok entry \<longleftrightarrow> check_setting (sv_identifier entry) (sv_value entry) = SettingKeep"

fun parsed_ok :: "Http2Frame \<Rightarrow> bool" where
  "parsed_ok (Http2FrameTypeData f) \<longleftrightarrow> df_identifier f \<noteq> 0"
| "parsed_ok (Http2FrameTypeHeaders f) \<longleftrightarrow> hfr_identifier f \<noteq> 0"
| "parsed_ok (Http2FrameTypePriority f) \<longleftrightarrow> pf_identifier f \<noteq> 0"
| "parsed_ok (Http2FrameTypeRstStream f) \<longleftrightarrow> rf_identifier f \<noteq> 0"
| "parsed_ok (Http2FrameTypeSettings f) \<longleftrightarrow> list_all setting_entry_ok (sf_entries f)"
| "parsed_ok (Http2FrameTypePushPromise f) \<longleftrightarrow> False"
| "parsed_ok (Http2FrameTypeContinuation f) \<longleftrightarrow> cf_identifier f \<noteq> 0"
| "parsed_ok _ \<longleftrightarrow> True"

lemma triple_trivial: "triple P m (\<lambda>_ _. True) any_fault"
  by (auto simp: triple_def split: prod.splits res.splits)

lemma outcome_any: "outcome (\<lambda>_. True) any_fault m"
  by (cases m) simp_all

lemma get_amount_length:
  "outcome (\<lambda>(result, reader'). \<forall>bs. result = BufferedReadResultTypeOk bs \<longrightarrow> length bs = amount) any_fault
     (buffered_reader_get_amount alloc io reader amount)"
  unfolding buffered_reader_get_amount_def
  by (auto simp: not_open_result_def get_available_data_length_def
      split: prod.splits intro!: outcome_rbind [OF outcome_any])

lemma read_or_refuse_length: "triple P (read_or_refuse env context n error) (\<lambda>bs _. length bs = n) any_fault"
  unfolding triple_def
proof (intro allI impI)
  fix s :: "'a BufferedReader"
  show "case read_or_refuse env context n error s of (Ok x, s') \<Rightarrow> length x = n | (Err e, s') \<Rightarrow> True
      | (Undef u, s') \<Rightarrow> any_fault u"
    using get_amount_length [of n "h2_alloc env" "h2_io env" s]
      connection_error_sync [of "\<lambda>_. True" env "context" "0x2" error "\<lambda>_ _. False"]
    by (fastforce simp: read_or_refuse_def triple_def outcome_def
        split: res.splits prod.splits BufferedReadResult.splits)
qed

lemma triple_setting_check:
  "(check = SettingKeep \<Longrightarrow> triple P keep Q F) \<Longrightarrow> (check = SettingSkip \<Longrightarrow> triple P skip Q F) \<Longrightarrow>
   (\<And>code error. check = SettingRefuse code error \<Longrightarrow> triple P (refuse code error) Q F) \<Longrightarrow>
   triple P (case check of SettingKeep \<Rightarrow> keep | SettingSkip \<Rightarrow> skip | SettingRefuse code error \<Rightarrow> refuse code error) Q F"
  by (cases check) simp_all

lemma setting_entry_okI:
  "check_setting i v = SettingKeep \<Longrightarrow> setting_entry_ok \<lparr>sv_identifier = i, sv_value = v\<rparr>"
  by (simp add: setting_entry_ok_def)

lemma settings_loop_entries:
  "list_all setting_entry_ok kept \<Longrightarrow>
   triple P (parse_settings_loop env context data kept) (\<lambda>es _. list_all setting_entry_ok es) any_fault"
proof (induction env "context" data kept rule: parse_settings_loop.induct)
  case (1 env "context" data kept)
  show ?case
    by (subst parse_settings_loop.simps, unfold Let_def, intro triple_if triple_setting_check connection_error_sync)
      (use 1 in \<open>auto intro!: triple_aret triple_alift setting_entry_okI\<close>)
qed

lemma readers_parsed_ok:
  "triple P (parse_http2_data_frame env context header) (\<lambda>f _. parsed_ok f) any_fault"
  "triple P (parse_http2_headers_frame env context header) (\<lambda>f _. parsed_ok f) any_fault"
  "triple P (parse_http2_priority_frame env context header) (\<lambda>f _. parsed_ok f) any_fault"
  "triple P (parse_http2_rst_stream_frame env context header) (\<lambda>f _. parsed_ok f) any_fault"
  "triple P (parse_http2_continuation_frame env context header) (\<lambda>f _. parsed_ok f) any_fault"
  "triple P (parse_http2_ping_frame env context header) (\<lambda>f _. parsed_ok f) any_fault"
  "triple P (parse_http2_goaway_frame env context header) (\<lambda>f _. parsed_ok f) any_fault"
  "triple P (parse_http2_window_update_frame env context header) (\<lambda>f _. parsed_ok f) any_fault"
  unfolding parse_http2_data_frame_def parse_http2_headers_frame_def simple_reader_defs
  by (rule triple_pure triple_case_prod triple_abind refuse_if_sync triple_trivial | (rule triple_aret, simp))+

lemma settings_parsed_ok: "triple P (parse_http2_settings_frame env context header) (\<lambda>f _. parsed_ok f) any_fault"
proof -
  have raw: "triple P (parse_raw_http2_settings_frame env context data ack) (\<lambda>f _. parsed_ok f) any_fault" for P data ack
    unfolding parse_raw_http2_settings_frame_def
    by (rule triple_pure triple_abind refuse_if_sync settings_loop_entries | simp | (rule triple_aret, simp))+
  show ?thesis
    unfolding parse_http2_settings_frame_def
    by (rule raw triple_pure triple_if triple_abind refuse_if_sync triple_trivial | (rule triple_aret, simp))+
qed

lemma push_promise_never: "triple P (parse_http2_push_promise_frame env context header) Q any_fault"
proof -
  have read: "triple P
      (abind (read_or_refuse env context 1 error) (\<lambda>bs. abind (if length bs < 4 then alift (Undef OutOfBounds) else m bs) (f bs)))
      Q any_fault" for P error m f
  proof (rule triple_abind [OF read_or_refuse_length])
    fix bs
    show "triple (\<lambda>_. length bs = 1) (abind (if length bs < 4 then alift (Undef OutOfBounds) else m bs) (f bs)) Q any_fault"
      by (auto simp: triple_def abind_def alift_def)
  qed
  show ?thesis
    unfolding parse_http2_push_promise_frame_def
    by (rule read triple_pure triple_case_prod triple_abind refuse_if_sync triple_trivial)+
qed

lemma parse_frame_parsed_ok:
  assumes "parse_http2_frame env context reader = (Ok frame, reader')"
  shows "parsed_ok frame"
proof -
  have "triple P (parse_http2_payload env context header) (\<lambda>f _. parsed_ok f) any_fault" for P header
    unfolding parse_http2_payload_def
    by (intro triple_if readers_parsed_ok settings_parsed_ok push_promise_never connection_error_sync)
  then have "triple (\<lambda>_. True) (parse_http2_frame env context) (\<lambda>f _. parsed_ok f) any_fault"
    unfolding parse_http2_frame_def Let_def
    by (intro triple_abind [OF triple_trivial] triple_abind [where R = "\<lambda>_ _. True"] triple_trivial)
  with assms show ?thesis by (auto simp: triple_def dest!: spec [of _ reader])
qed

section \<open>The invariant of a connection\<close>

definition settings_ok :: "Http2Settings \<Rightarrow> bool" where
  "settings_ok s \<longleftrightarrow>
     unat (set_initial_window_size s) < 2 ^ 31 \<and> 2 ^ 14 \<le> unat (set_max_frame_size s) \<and>
     unat (set_max_frame_size s) \<le> 2 ^ 24"

text \<open>
  A stream never leaves the states a client can bring it to, a closed stream holds no memory, a body
  only follows finished headers, and a stream that is complete is closed for the client.
\<close>

definition stream_ok :: "Http2Stream \<Rightarrow> bool" where
  "stream_ok s \<longleftrightarrow>
     st_state s \<noteq> Http2StreamStateReserved \<and>
     (st_state s = Http2StreamStateClosed \<longrightarrow>
        sh_header_blocks (st_headers s) = [] \<and> sc_data_blocks (st_content s) = []) \<and>
     (sc_data_blocks (st_content s) \<noteq> [] \<longrightarrow> sh_finished (st_headers s)) \<and>
     (st_state s = Http2StreamStateIdle \<longrightarrow> sc_data_blocks (st_content s) = []) \<and>
     (st_end_stream s \<and> sh_finished (st_headers s) \<longrightarrow>
        st_state s = Http2StreamStateHalfClosed \<or> st_state s = Http2StreamStateClosed)"

definition stream_complete :: "Http2Stream \<Rightarrow> bool" where
  "stream_complete s \<longleftrightarrow>
     st_end_stream s \<and> sh_finished (st_headers s) \<and> st_state s = Http2StreamStateHalfClosed"

definition decompress_state_ok :: "HTTP2Context \<Rightarrow> bool" where
  "decompress_state_ok c \<longleftrightarrow> (\<forall>dec. hs_decompress_state (cs_hpack_state (ctx_state c)) = Some dec \<longrightarrow> state_inv dec)"

definition context_ok :: "HTTP2Context \<Rightarrow> bool" where
  "context_ok c \<longleftrightarrow>
     settings_ok (ctx_settings c) \<and> decompress_state_ok c \<and>
     (\<forall>i s. ctx_streams c i = Some s \<longrightarrow> i \<noteq> 0 \<and> i \<le> cs_last_stream_id (ctx_state c) \<and> stream_ok s)"

text \<open>What processing a frame of stream \<open>i\<close> may change: the entry of that stream, nothing else.\<close>

definition stream_step :: "Http2Identifier \<Rightarrow> HTTP2Context \<Rightarrow> Http2ProcessFrameResult \<times> HTTP2Context \<Rightarrow> bool" where
  "stream_step i c x \<longleftrightarrow>
     (case x of (result, c') \<Rightarrow>
        (\<exists>s. c' = c\<lparr>ctx_streams := (ctx_streams c)(i := s)\<rparr> \<and> (\<forall>s'. s = Some s' \<longrightarrow> stream_ok s') \<and>
             (\<forall>k. result = Http2ProcessFrameResultTypeNewFinishedRequest k \<longrightarrow>
                    k = i \<and> (\<exists>s'. s = Some s' \<and> stream_complete s'))))"

lemma stream_step_same:
  "(\<And>s. ctx_streams c i = Some s \<Longrightarrow> stream_ok s) \<Longrightarrow> (\<And>k. result \<noteq> Http2ProcessFrameResultTypeNewFinishedRequest k) \<Longrightarrow>
   stream_step i c (result, c)"
  unfolding stream_step_def by (auto intro!: exI [of _ "ctx_streams c i"])

lemma stream_step_put:
  "stream_ok s \<Longrightarrow> (\<And>k. result = Http2ProcessFrameResultTypeNewFinishedRequest k \<Longrightarrow> k = i \<and> stream_complete s) \<Longrightarrow>
   stream_step i c (result, put_stream c i s)"
  unfolding stream_step_def put_stream_def by auto

lemma stream_step_put2:
  "stream_step i (put_stream c i s) x \<Longrightarrow> stream_step i c x"
  by (cases x) (auto simp: stream_step_def put_stream_def)

lemma closed_stream_ok [simp]: "stream_ok (http2_close_stream s)"
  by (simp add: stream_ok_def http2_close_stream_def free_http2_stream_def free_http2_stream_headers_def
      free_http2_stream_content_def)

lemma stream_error_step:
  "triple P (stream_error env c i code error) (\<lambda>x _. stream_step i c x) any_fault"
proof -
  have "stream_step i c (Http2ProcessFrameResultTypeError False error, http2_close_stream_by_identifier c i)"
    by (auto simp: http2_close_stream_by_identifier_def get_http2_stream_def split: option.splits
        intro: stream_step_same stream_step_put)
  then show ?thesis
    unfolding stream_error_def by (intro triple_abind [OF triple_trivial] triple_aret)
qed

lemma stream_not_found_step:
  "(\<And>s. ctx_streams c i = Some s \<Longrightarrow> stream_ok s) \<Longrightarrow>
   triple P (stream_not_found env c error) (\<lambda>x _. stream_step i c x) any_fault"
  unfolding stream_not_found_def by (intro triple_abind [OF triple_trivial] triple_aret stream_step_same) auto

lemma triple_option:
  "(x = None \<Longrightarrow> triple P n Q F) \<Longrightarrow> (\<And>y. x = Some y \<Longrightarrow> triple P (s y) Q F) \<Longrightarrow>
   triple P (case x of None \<Rightarrow> n | Some y \<Rightarrow> s y) Q F"
  by (cases x) simp_all

lemma finish_header_block_step:
  assumes "stream_ok s" "st_state s = Http2StreamStateOpen \<or> st_state s = Http2StreamStateIdle"
  shows "triple P (finish_header_block env i c s block end_headers) (\<lambda>x _. stream_step i c x) any_fault"
  unfolding finish_header_block_def
  using assms
  by (intro triple_option triple_if triple_aret stream_step_put)
    (auto simp: stream_ok_def stream_complete_def http2_stream_add_header_block_def Let_def split: if_splits)

lemma new_stream_ok:
  "st \<noteq> Http2StreamStateReserved \<Longrightarrow>
   stream_ok \<lparr>st_state = st, st_headers = EMPTY_STREAM_HEADERS, st_content = EMPTY_STREAM_CONTENT,
     st_end_stream = e, st_priority = p\<rparr>"
  by (simp add: stream_ok_def EMPTY_STREAM_HEADERS_def EMPTY_STREAM_CONTENT_def)

lemma add_new_stream_Some:
  "add_new_http2_stream env c i s = Some c' \<Longrightarrow> c' = put_stream c i s \<and> ctx_streams c i = None"
  by (simp add: add_new_http2_stream_def split: if_splits)

lemma process_data_step:
  assumes "\<And>s. ctx_streams c i = Some s \<Longrightarrow> stream_ok s"
  shows "triple P (process_data_frame env i c f) (\<lambda>x _. stream_step i c x) any_fault"
  unfolding process_data_frame_def Let_def
  by (intro triple_option triple_if triple_aret stream_error_step stream_not_found_step [OF assms]
      stream_step_same [OF assms] stream_step_put)
    (auto simp: get_http2_stream_def get_http2_stream_state_def stream_complete_def
      http2_stream_add_content_block_def Let_def split: if_splits dest!: assms, auto simp: stream_ok_def)

lemma process_headers_step:
  assumes "\<And>s. ctx_streams c i = Some s \<Longrightarrow> stream_ok s"
  shows "triple P (process_headers_frame env i c f) (\<lambda>x _. stream_step i c x) any_fault"
proof -
  let ?new = "\<lambda>p. \<lparr>st_state = Http2StreamStateOpen, st_headers = EMPTY_STREAM_HEADERS,
      st_content = EMPTY_STREAM_CONTENT, st_end_stream = hfr_end_stream f, st_priority = p\<rparr>"
  have put: "triple P m (\<lambda>x _. stream_step i c x) any_fault"
    if "triple P m (\<lambda>x _. stream_step i (put_stream c i s) x) any_fault" for m s
    using that by (rule triple_weaken) (auto intro: stream_step_put2)
  have new: "triple P (finish_header_block env i (put_stream c i (?new p)) (?new p) block e) (\<lambda>x _. stream_step i c x) any_fault"
    for block e p
    by (intro put [of _ "?new p"] finish_header_block_step) (simp_all add: new_stream_ok)
  show ?thesis
    unfolding process_headers_frame_def Let_def
    by (intro triple_option triple_if triple_aret stream_error_step put [OF stream_error_step]
        stream_step_same [OF assms] finish_header_block_step)
      (auto simp: get_http2_stream_def get_http2_stream_state_def put_stream_def dest!: add_new_stream_Some assms
        intro: new [unfolded put_stream_def], auto simp: stream_ok_def)
qed

lemma process_priority_step:
  assumes "\<And>s. ctx_streams c i = Some s \<Longrightarrow> stream_ok s"
  shows "triple P (process_priority_frame env i c f) (\<lambda>x _. stream_step i c x) any_fault"
  unfolding process_priority_frame_def
  by (intro triple_option triple_if triple_aret stream_step_same [OF assms] stream_step_put)
    (auto simp: get_http2_stream_def new_stream_ok dest!: add_new_stream_Some assms intro!: stream_step_put,
     auto simp: stream_ok_def)

lemma half_closed_ok: "stream_ok s \<Longrightarrow> stream_ok (s\<lparr>st_state := Http2StreamStateHalfClosed\<rparr>)"
  by (simp add: stream_ok_def)

lemma process_rst_stream_step:
  assumes "\<And>s. ctx_streams c i = Some s \<Longrightarrow> stream_ok s"
  shows "triple P (process_rst_stream_frame env i c f) (\<lambda>x _. stream_step i c x) any_fault"
  unfolding process_rst_stream_frame_def
  by (intro triple_option triple_if triple_aret stream_error_step stream_not_found_step [OF assms] stream_step_put)
    (simp_all add: get_http2_stream_def half_closed_ok assms)

lemma process_continuation_step:
  assumes "\<And>s. ctx_streams c i = Some s \<Longrightarrow> stream_ok s"
  shows "triple P (process_continuation_frame env i c f) (\<lambda>x _. stream_step i c x) any_fault"
  unfolding process_continuation_frame_def Let_def
  by (intro triple_option triple_if stream_error_step stream_not_found_step [OF assms]
      finish_header_block_step)
    (auto simp: get_http2_stream_def get_http2_stream_state_def dest!: assms, auto simp: stream_ok_def)

lemma process_stream_step:
  assumes "\<And>s. ctx_streams c i = Some s \<Longrightarrow> stream_ok s" "parsed_ok frame"
  shows "triple P (process_http2_frame_for_stream env i c frame) (\<lambda>x _. stream_step i c x) any_fault"
proof (cases frame)
  case (Http2FrameTypeData f)
  then show ?thesis using process_data_step [OF assms(1)] by simp
next
  case (Http2FrameTypeHeaders f)
  then show ?thesis using process_headers_step [OF assms(1)] by simp
next
  case (Http2FrameTypePriority f)
  then show ?thesis using process_priority_step [OF assms(1)] by simp
next
  case (Http2FrameTypeRstStream f)
  then show ?thesis using process_rst_stream_step [OF assms(1)] by simp
next
  case (Http2FrameTypeContinuation f)
  then show ?thesis using process_continuation_step [OF assms(1)] by simp
qed (use assms in \<open>auto intro!: triple_aret stream_step_same\<close>)

text \<open>What a frame of the connection may change: settings, the decompressor and the state, no stream.\<close>

definition connection_step :: "HTTP2Context \<Rightarrow> Http2ProcessFrameResult \<times> HTTP2Context \<Rightarrow> bool" where
  "connection_step c x \<longleftrightarrow>
     (case x of (result, c') \<Rightarrow>
        ctx_streams c' = ctx_streams c \<and> cs_last_stream_id (ctx_state c') = cs_last_stream_id (ctx_state c) \<and>
        (settings_ok (ctx_settings c) \<longrightarrow> settings_ok (ctx_settings c')) \<and>
        (decompress_state_ok c \<longrightarrow> decompress_state_ok c') \<and>
        (\<forall>k. result \<noteq> Http2ProcessFrameResultTypeNewFinishedRequest k))"

lemma u32_less: "unat (v :: u32) < 2 ^ 63"
  by (rule order.strict_trans2 [OF unsigned_less]) simp

lemma apply_setting_step:
  assumes "setting_entry_ok entry" "apply_setting env c entry = Ok c'"
  shows "connection_step c (Http2ProcessFrameResultTypeOk, c')"
proof (cases "sv_identifier entry = 0x1")
  case True
  then show ?thesis
    using assms(2) store.resize_inv [of _ "unat (sv_value entry)" "h2_alloc env"] u32_less [of "sv_value entry"]
    by (auto simp: apply_setting_def Let_def connection_step_def decompress_state_ok_def settings_ok_def rbind_iffs
        split: option.splits)
next
  case False
  with assms show ?thesis
    by (auto simp: apply_setting_def Let_def connection_step_def decompress_state_ok_def settings_ok_def
        setting_entry_ok_def check_setting_def split: if_splits)
qed

lemma connection_step_trans:
  "connection_step c (Http2ProcessFrameResultTypeOk, c') \<Longrightarrow> connection_step c' x \<Longrightarrow> connection_step c x"
  by (auto simp: connection_step_def)

lemma connection_step_refl: "connection_step c (Http2ProcessFrameResultTypeOk, c)"
  by (simp add: connection_step_def)

lemma apply_settings_step:
  "list_all setting_entry_ok es \<Longrightarrow> apply_settings env c es = Ok c' \<Longrightarrow>
   connection_step c (Http2ProcessFrameResultTypeOk, c')"
proof (induction es arbitrary: c)
  case (Cons e es)
  then obtain c1 where "apply_setting env c e = Ok c1" "apply_settings env c1 es = Ok c'"
    by (auto simp: rbind_iffs)
  with Cons show ?case using apply_setting_step connection_step_trans by fastforce
qed (simp add: connection_step_refl)

lemma process_connection_step:
  assumes "parsed_ok frame"
  shows "triple P (process_http2_frame_for_connection env c frame) (\<lambda>x _. connection_step c x) any_fault"
proof (cases frame)
  case (Http2FrameTypeSettings f)
  have settings: "triple P (alift (http2_apply_settings_frame env c f))
      (\<lambda>c' _. connection_step c (Http2ProcessFrameResultTypeOk, c')) any_fault"
    using assms Http2FrameTypeSettings
    by (intro triple_alift) (auto simp: http2_apply_settings_frame_def intro: apply_settings_step)
  have last: "triple (\<lambda>_. connection_step c (Http2ProcessFrameResultTypeOk, c'))
      (abind (send_unused m) (\<lambda>_. aret (Http2ProcessFrameResultTypeOk, c'))) (\<lambda>x _. connection_step c x) any_fault"
    for c' and m :: "(unit, 'a ConnectionDescriptor, unit) act"
    using triple_pure [where P = "\<lambda>_. True"] by (auto simp: triple_def abind_def aret_def split: prod.splits res.splits)
  show ?thesis
    unfolding Http2FrameTypeSettings process_http2_frame_for_connection.simps
    by (intro triple_if triple_abind [OF settings] last triple_aret connection_step_refl)
next
  case (Http2FrameTypePing f)
  show ?thesis
    unfolding Http2FrameTypePing process_http2_frame_for_connection.simps
    by (intro triple_if triple_abind [OF triple_trivial] triple_aret connection_step_refl)
qed (auto intro!: triple_aret simp: connection_step_def settings_ok_def decompress_state_ok_def)

lemma update_last_sel [simp]:
  "ctx_streams (update_last_stream_id c i) = ctx_streams c"
  "ctx_settings (update_last_stream_id c i) = ctx_settings c"
  "cs_hpack_state (ctx_state (update_last_stream_id c i)) = cs_hpack_state (ctx_state c)"
  "cs_last_stream_id (ctx_state (update_last_stream_id c i)) = max (cs_last_stream_id (ctx_state c)) i"
  by (auto simp: update_last_stream_id_def max_def)

lemma stream_step_context:
  assumes "context_ok c" "i \<noteq> 0" "stream_step i (update_last_stream_id c i) (result, c')"
  shows "context_ok c'"
proof -
  obtain s where s: "c' = (update_last_stream_id c i)\<lparr>ctx_streams := (ctx_streams c)(i := s)\<rparr>"
    "\<And>s'. s = Some s' \<Longrightarrow> stream_ok s'"
    using assms(3) by (auto simp: stream_step_def)
  have "j \<noteq> 0 \<and> j \<le> max (cs_last_stream_id (ctx_state c)) i \<and> stream_ok s'"
    if "((ctx_streams c)(i := s)) j = Some s'" for j s'
  proof (cases "j = i")
    case True
    with that s(2) \<open>i \<noteq> 0\<close> show ?thesis by simp
  next
    case False
    with that assms(1) show ?thesis unfolding context_ok_def by (metis fun_upd_other max.coboundedI1)
  qed
  with assms(1) show ?thesis by (simp add: s(1) context_ok_def decompress_state_ok_def)
qed

lemma category_nonzero:
  "parsed_ok frame \<Longrightarrow> get_http2_frame_category frame = Some i \<Longrightarrow> i \<noteq> 0"
  by (cases frame) (auto split: if_splits)

text \<open>
  One frame: the invariant is kept, the largest stream identifier only grows, only the stream of the
  frame changes, and a request is reported only for a complete stream.
\<close>

lemma process_frame_step:
  assumes "context_ok c" "parsed_ok frame" "process_http2_frame env c frame d = (Ok (result, c'), d')"
  shows "context_ok c'" "cs_last_stream_id (ctx_state c) \<le> cs_last_stream_id (ctx_state c')"
    "get_http2_frame_category frame \<noteq> Some j \<Longrightarrow> ctx_streams c' j = ctx_streams c j"
    "result = Http2ProcessFrameResultTypeNewFinishedRequest k \<Longrightarrow>
       get_http2_frame_category frame = Some k \<and> (\<exists>s. ctx_streams c' k = Some s \<and> stream_complete s)"
proof -
  have "context_ok c' \<and> cs_last_stream_id (ctx_state c) \<le> cs_last_stream_id (ctx_state c') \<and>
    (get_http2_frame_category frame \<noteq> Some j \<longrightarrow> ctx_streams c' j = ctx_streams c j) \<and>
    (result = Http2ProcessFrameResultTypeNewFinishedRequest k \<longrightarrow>
       get_http2_frame_category frame = Some k \<and> (\<exists>s. ctx_streams c' k = Some s \<and> stream_complete s))"
  proof (cases "get_http2_frame_category frame")
    case (Some i)
    have "triple (\<lambda>_. True) (process_http2_frame_for_stream env i (update_last_stream_id c i) frame)
        (\<lambda>x _. stream_step i (update_last_stream_id c i) x) any_fault"
      using assms(1,2) by (intro process_stream_step) (auto simp: context_ok_def)
    with assms(3) Some have step: "stream_step i (update_last_stream_id c i) (result, c')"
      by (auto simp: triple_def process_http2_frame_def dest!: spec [of _ d])
    from stream_step_context [OF assms(1) category_nonzero [OF assms(2) Some] step] step Some show ?thesis
      by (auto simp: stream_step_def)
  next
    case None
    have "triple (\<lambda>_. True) (process_http2_frame_for_connection env (update_last_stream_id c 0) frame)
        (\<lambda>x _. connection_step (update_last_stream_id c 0) x) any_fault"
      by (rule process_connection_step [OF assms(2)])
    with assms(3) None have "connection_step (update_last_stream_id c 0) (result, c')"
      by (auto simp: triple_def process_http2_frame_def dest!: spec [of _ d])
    with assms(1) None show ?thesis
      by (auto simp: connection_step_def context_ok_def decompress_state_ok_def)
  qed
  then show "context_ok c'" "cs_last_stream_id (ctx_state c) \<le> cs_last_stream_id (ctx_state c')"
    "get_http2_frame_category frame \<noteq> Some j \<Longrightarrow> ctx_streams c' j = ctx_streams c j"
    "result = Http2ProcessFrameResultTypeNewFinishedRequest k \<Longrightarrow>
       get_http2_frame_category frame = Some k \<and> (\<exists>s. ctx_streams c' k = Some s \<and> stream_complete s)"
    by blast+
qed

lemma default_context_ok: "context_ok (http2_default_context alloc)"
  by (auto simp: context_ok_def http2_default_context_def settings_ok_def http2_default_settings_def
      decompress_state_ok_def http2_default_context_state_def get_default_hpack_state_def
      get_default_hpack_decompress_state_def state_inv_fresh split: if_splits)

text \<open>
  The connections a client can bring about: frames are parsed and processed one after the other, and
  the header blocks of finished requests pass through the decompressor, successfully or not.
\<close>

definition set_decompress_state :: "HTTP2Context \<Rightarrow> HpackDecompressState option \<Rightarrow> HTTP2Context" where
  "set_decompress_state c dec =
     c\<lparr>ctx_state := (ctx_state c)\<lparr>cs_hpack_state :=
         (cs_hpack_state (ctx_state c))\<lparr>hs_decompress_state := dec\<rparr>\<rparr>\<rparr>"

inductive http2_reach :: "'d h2_env \<Rightarrow> HTTP2Context \<Rightarrow> bool" for env where
  start: "http2_reach env (http2_default_context alloc)"
| frame: "http2_reach env c \<Longrightarrow> parse_http2_frame env c reader = (Ok frame, reader') \<Longrightarrow>
    process_http2_frame env c frame d = (Ok (result, c'), d') \<Longrightarrow> http2_reach env c'"
| headers: "http2_reach env c \<Longrightarrow> length block < 2 ^ 60 \<Longrightarrow>
    http2_hpack_decompress_data (server_env alloc push ndebug)
      (hs_decompress_state (cs_hpack_state (ctx_state c))) block = Ok (hs, dec) \<Longrightarrow>
    http2_reach env (set_decompress_state c (Some dec))"
| bad_headers: "http2_reach env c \<Longrightarrow> length block < 2 ^ 60 \<Longrightarrow>
    http2_hpack_decompress_data (server_env alloc push ndebug)
      (hs_decompress_state (cs_hpack_state (ctx_state c))) block = Err (e, dec) \<Longrightarrow>
    http2_reach env (set_decompress_state c dec)"

lemma set_decompress_ok:
  "context_ok c \<Longrightarrow> (\<And>s. dec = Some s \<Longrightarrow> state_inv s) \<Longrightarrow> context_ok (set_decompress_state c dec)"
  by (simp add: context_ok_def set_decompress_state_def decompress_state_ok_def)

lemma decompress_keeps_inv:
  assumes "context_ok c" "length block < 2 ^ 60"
    and "dec = hs_decompress_state (cs_hpack_state (ctx_state c))"
  shows "http2_hpack_decompress_data (server_env alloc push ndebug) dec block = Ok (hs, s) \<Longrightarrow> state_inv s"
    "http2_hpack_decompress_data (server_env alloc push ndebug) dec block = Err (e, Some s) \<Longrightarrow> state_inv s"
proof -
  have "block_outcome ndebug (decompress_loop (server_env alloc push ndebug) block 0 [] s0)" if "dec = Some s0" for s0
    using assms that by (intro decompress_loop_outcome) (auto simp: context_ok_def decompress_state_ok_def)
  then show "http2_hpack_decompress_data (server_env alloc push ndebug) dec block = Ok (hs, s) \<Longrightarrow> state_inv s"
    "http2_hpack_decompress_data (server_env alloc push ndebug) dec block = Err (e, Some s) \<Longrightarrow> state_inv s"
    by (auto simp: http2_hpack_decompress_data_def http2_hpack_decompress_data_impl_def block_outcome_def
        split: option.splits res.splits)
qed

lemma http2_reach_ok: "http2_reach env c \<Longrightarrow> context_ok c"
proof (induction rule: http2_reach.induct)
  case (start alloc)
  show ?case by (rule default_context_ok)
next
  case (frame c reader frame reader' d result c' d')
  then show ?case using process_frame_step(1) parse_frame_parsed_ok by metis
next
  case (headers c block alloc push ndebug hs dec)
  then show ?case using decompress_keeps_inv(1) by (intro set_decompress_ok) auto
next
  case (bad_headers c block alloc push ndebug e dec)
  then show ?case using decompress_keeps_inv(2) by (intro set_decompress_ok) auto
qed


text \<open>A request of one frame for the example: stream 1, one byte of headers, the flags END_STREAM and END_HEADERS.\<close>

definition example_headers :: "bool \<Rightarrow> Http2HeadersFrame" where
  "example_headers end_stream =
     \<lparr>hfr_has_priority = False, hfr_priority = DEFAULT_STREAM_PRIORITY, hfr_block_fragment = [0x82],
      hfr_identifier = 1, hfr_end_stream = end_stream, hfr_end_headers = True\<rparr>"

lemma example_headers_parsed:
  "\<exists>reader'. parse_http2_frame (pipe_env 2) (http2_default_context (\<lambda>_. True))
      (pipe_reader [0, 0, 1, 1, 5, 0, 0, 0, 1, 0x82]) =
     (Ok (Http2FrameTypeHeaders (example_headers True)), reader')"
proof -
  let ?f = "Http2FrameTypeHeaders (example_headers True)"
  let ?r = "pipe_reader [0, 0, 1, 1, 5, 0, 0, 0, 1, 0x82]"
  have "serialize_raw_header LITTLE_ENDIAN (frame_header ?f) = [0, 0, 1, 1, 5, 0, 0, 0, 1]" by code_simp
  then have pend: "pending pipe_in ?r = serialize_raw_header LITTLE_ENDIAN (frame_header ?f) @ frame_payload ?f @ []"
    by (simp add: example_headers_def)
  have ready: "reader_ready (h2_alloc (pipe_env 2)) (h2_io (pipe_env 2)) pipe_in pipe_out ?r"
    by (rule pipe_reader_ready) simp
  have "frame_ok 1 ?f" "1 < (2 :: nat) ^ 24" "1 \<le> unat (set_max_frame_size (ctx_settings (http2_default_context (\<lambda>_. True))))"
    by (simp_all add: example_headers_def)
  from parse_frame_wire [OF ready this pend] show ?thesis by blast
qed

lemma pipe_env_sel [simp]:
  "h2_push (pipe_env k) n" "h2_insert (pipe_env k) i" "h2_alloc (pipe_env k) n"
  by (simp_all add: pipe_env_def)

lemma default_context_streams [simp]: "ctx_streams (http2_default_context alloc) = Map.empty"
  by (simp add: http2_default_context_def)

lemmas process_defs = process_http2_frame_def process_headers_frame_def process_data_frame_def
  process_rst_stream_frame_def process_priority_frame_def finish_header_block_def http2_stream_add_header_block_def
  http2_stream_add_content_block_def add_new_http2_stream_def get_http2_stream_def get_http2_stream_state_def
  put_stream_def EMPTY_STREAM_HEADERS_def EMPTY_STREAM_CONTENT_def aret_def Let_def

lemma example_headers_processed:
  "\<exists>c'. process_http2_frame (pipe_env 2) (http2_default_context (\<lambda>_. True))
      (Http2FrameTypeHeaders (example_headers True)) d =
     (Ok (Http2ProcessFrameResultTypeNewFinishedRequest 1, c'), d)"
  by (simp add: process_defs example_headers_def)


section \<open>Streams that come back and streams that never start\<close>

text \<open>
  A closed stream comes back: RST_STREAM on a stream that is already closed makes it half-closed
  again, and where its headers were complete and its body was not, a DATA frame that ends the stream
  is then reported as a new request. That request has no header block, as closing freed them.
\<close>

theorem rst_stream_revives_closed:
  assumes "ctx_streams c i = Some s" "stream_ok s" "st_state s = Http2StreamStateClosed"
    and "sh_finished (st_headers s)" "\<not> st_end_stream s" "h2_push env 0"
  shows "\<exists>c1 c2 s2.
    process_http2_frame env c (Http2FrameTypeRstStream \<lparr>rf_error_code = code, rf_identifier = i\<rparr>) d =
      (Ok (Http2ProcessFrameResultTypeOk, c1), d) \<and>
    get_http2_stream_state c1 i = Http2StreamStateHalfClosed \<and>
    process_http2_frame env c1
        (Http2FrameTypeData \<lparr>df_content = body, df_is_end = True, df_identifier = i\<rparr>) d =
      (Ok (Http2ProcessFrameResultTypeNewFinishedRequest i, c2), d) \<and>
    ctx_streams c2 i = Some s2 \<and> sh_header_blocks (st_headers s2) = [] \<and> sc_data_blocks (st_content s2) = [body]"
  using assms by (simp add: process_defs stream_ok_def)

text \<open>The state of the theorem arises when a client sends HEADERS twice: the second frame closes the stream.\<close>

lemma sane_pipe: "sane_io (h2_io (pipe_env k))"
  by (auto simp: sane_io_def pipe_env_def pipe_io_def)

lemma stream_error_run:
  assumes "sane_io (h2_io env)"
  shows "\<exists>d'. stream_error env c i code error d =
    (Ok (Http2ProcessFrameResultTypeError False error, http2_close_stream_by_identifier c i), d')"
proof -
  have "\<exists>d'. send_unused (http2_send_stream_error env code i) d = (Ok (), d')"
    using send_raw_sane [OF assms, of "\<lambda>_. True"]
    by (fastforce simp: send_unused_def http2_send_stream_error_def http2_send_rst_stream_frame_def triple_def
        split: prod.splits res.splits)
  then show ?thesis by (auto simp: stream_error_def abind_def aret_def)
qed

lemma second_headers_close:
  assumes "sane_io (h2_io env)" "ctx_streams c 1 = Some s" "st_state s = Http2StreamStateOpen"
  shows "\<exists>c' d' error. process_http2_frame env c (Http2FrameTypeHeaders (example_headers False)) d =
      (Ok (Http2ProcessFrameResultTypeError False error, c'), d') \<and> ctx_streams c' 1 = Some (http2_close_stream s)"
  using stream_error_run [OF assms(1), of "update_last_stream_id c 1" 1 "0x1"
      "''Headers frame send on a stream in an invalid state (trailers not supported yet)''" d] assms(2,3)
  by (auto simp: process_http2_frame_def process_headers_frame_def get_http2_stream_state_def example_headers_def Let_def
      http2_close_stream_by_identifier_def get_http2_stream_def put_stream_def)

theorem rst_stream_revives_closed_witness:
  "\<exists>c0 c c1 d0 d1 d error.
    process_http2_frame (pipe_env 0) (http2_default_context (\<lambda>_. True))
      (Http2FrameTypeHeaders (example_headers False)) d0 = (Ok (Http2ProcessFrameResultTypeOk, c0), d1) \<and>
    process_http2_frame (pipe_env 0) c0 (Http2FrameTypeHeaders (example_headers False)) d1 =
      (Ok (Http2ProcessFrameResultTypeError False error, c), d) \<and>
    get_http2_stream_state c 1 = Http2StreamStateClosed \<and>
    process_http2_frame (pipe_env 0) c (Http2FrameTypeRstStream \<lparr>rf_error_code = 0, rf_identifier = 1\<rparr>) d =
      (Ok (Http2ProcessFrameResultTypeOk, c1), d) \<and>
    get_http2_stream_state c1 1 = Http2StreamStateHalfClosed"
proof -
  let ?d = "NormalDescriptor \<lparr>pipe_in = [], pipe_out = []\<rparr>"
  let ?s = "\<lparr>st_state = Http2StreamStateOpen, st_headers = \<lparr>sh_finished = True, sh_header_blocks = [[0x82]]\<rparr>,
    st_content = EMPTY_STREAM_CONTENT, st_end_stream = False, st_priority = DEFAULT_STREAM_PRIORITY\<rparr>"
  obtain c0 where c0: "process_http2_frame (pipe_env 0) (http2_default_context (\<lambda>_. True))
      (Http2FrameTypeHeaders (example_headers False)) ?d = (Ok (Http2ProcessFrameResultTypeOk, c0), ?d)"
    "ctx_streams c0 1 = Some ?s"
    by (simp add: process_defs example_headers_def)
  obtain c d error where c: "process_http2_frame (pipe_env 0) c0 (Http2FrameTypeHeaders (example_headers False)) ?d =
      (Ok (Http2ProcessFrameResultTypeError False error, c), d)" "ctx_streams c 1 = Some (http2_close_stream ?s)"
    using second_headers_close [OF sane_pipe c0(2), of 0 ?d] by auto
  have closed: "st_state (http2_close_stream ?s) = Http2StreamStateClosed"
    "sh_finished (st_headers (http2_close_stream ?s))" "\<not> st_end_stream (http2_close_stream ?s)"
    by (simp_all add: http2_close_stream_def free_http2_stream_def free_http2_stream_headers_def)
  obtain c1 where "process_http2_frame (pipe_env 0) c
      (Http2FrameTypeRstStream \<lparr>rf_error_code = 0, rf_identifier = 1\<rparr>) d = (Ok (Http2ProcessFrameResultTypeOk, c1), d)"
    "get_http2_stream_state c1 1 = Http2StreamStateHalfClosed"
    using rst_stream_revives_closed [OF c(2) closed_stream_ok closed pipe_env_sel(1), of 0 0] by auto
  moreover have "get_http2_stream_state c 1 = Http2StreamStateClosed"
    using c(2) closed(1) by (simp add: get_http2_stream_state_def)
  ultimately show ?thesis using c0(1) c(1) by blast
qed

text \<open>
  A client that sends a PRIORITY frame for a stream before its headers, as RFC 7540 allows, cannot
  send a body on it: the stream stays idle after its headers, and the first DATA frame closes it.
\<close>

theorem priority_first_blocks_body:
  assumes "ctx_streams c i = None" "h2_insert env i" "h2_push env 0" "sane_io (h2_io env)"
  shows "\<exists>c1 c2 c3 d' error.
    process_http2_frame env c (Http2FrameTypePriority \<lparr>pf_priority = p, pf_identifier = i\<rparr>) d =
      (Ok (Http2ProcessFrameResultTypeOk, c1), d) \<and>
    process_http2_frame env c1 (Http2FrameTypeHeaders
        \<lparr>hfr_has_priority = False, hfr_priority = q, hfr_block_fragment = block, hfr_identifier = i,
         hfr_end_stream = False, hfr_end_headers = True\<rparr>) d = (Ok (Http2ProcessFrameResultTypeOk, c2), d) \<and>
    process_http2_frame env c2
        (Http2FrameTypeData \<lparr>df_content = body, df_is_end = is_end, df_identifier = i\<rparr>) d =
      (Ok (Http2ProcessFrameResultTypeError False error, c3), d') \<and>
    get_http2_stream_state c3 i = Http2StreamStateClosed"
proof -
  let ?idle = "\<lparr>st_state = Http2StreamStateIdle, st_headers = \<lparr>sh_finished = True, sh_header_blocks = [block]\<rparr>,
    st_content = EMPTY_STREAM_CONTENT, st_end_stream = False, st_priority = p\<rparr>"
  obtain c1 c2 where c: "process_http2_frame env c (Http2FrameTypePriority \<lparr>pf_priority = p, pf_identifier = i\<rparr>) d =
      (Ok (Http2ProcessFrameResultTypeOk, c1), d)"
    "process_http2_frame env c1 (Http2FrameTypeHeaders
        \<lparr>hfr_has_priority = False, hfr_priority = q, hfr_block_fragment = block, hfr_identifier = i,
         hfr_end_stream = False, hfr_end_headers = True\<rparr>) d = (Ok (Http2ProcessFrameResultTypeOk, c2), d)"
    "ctx_streams c2 i = Some ?idle"
    using assms by (simp add: process_defs)
  obtain c3 d' error where "process_http2_frame env c2
        (Http2FrameTypeData \<lparr>df_content = body, df_is_end = is_end, df_identifier = i\<rparr>) d =
      (Ok (Http2ProcessFrameResultTypeError False error, c3), d')" "get_http2_stream_state c3 i = Http2StreamStateClosed"
    using stream_error_run [OF assms(4), of "update_last_stream_id c2 i" i "0x5"
        "''Data frame send on a stream in an invalid state''" d] c(3)
    by (auto simp: process_http2_frame_def process_data_frame_def get_http2_stream_state_def Let_def
        http2_close_stream_by_identifier_def get_http2_stream_def put_stream_def http2_close_stream_def free_http2_stream_def)
  with c(1,2) show ?thesis by blast
qed

theorem priority_first_blocks_body_witness:
  "\<exists>c1 c2 d. process_http2_frame (pipe_env 0) (http2_default_context (\<lambda>_. True))
     (Http2FrameTypePriority \<lparr>pf_priority = DEFAULT_STREAM_PRIORITY, pf_identifier = 1\<rparr>) d =
       (Ok (Http2ProcessFrameResultTypeOk, c1), d) \<and>
     process_http2_frame (pipe_env 0) c1 (Http2FrameTypeHeaders (example_headers False)) d =
       (Ok (Http2ProcessFrameResultTypeOk, c2), d)"
  using priority_first_blocks_body [of "http2_default_context (\<lambda>_. True)" 1 "pipe_env 0" DEFAULT_STREAM_PRIORITY
      "NormalDescriptor \<lparr>pipe_in = [], pipe_out = []\<rparr>" DEFAULT_STREAM_PRIORITY "[0x82]" "[]" True] sane_pipe [of 0]
  by (auto simp: example_headers_def)

end
