(* ===== verification/Http2_Request.thy ===== *)
theory Http2_Request
  imports Http_Protocol Http2_Stream
begin

text \<open>
  From finished HTTP/2 streams to requests, and the start of a connection (\<open>src/src/http/v2.c\<close>): the
  pseudo header fields, \<open>parse_http2_request\<close>, the client preface and the upgrade from HTTP/1.

  A result of the URL parser may be missing (\<open>None\<close>, a loop that does not end), so the functions that
  call it return an option.
\<close>

section \<open>Request headers\<close>

text \<open>The request that \<open>parse_http2_headers\<close> builds, and the mask of the pseudo headers it has seen.\<close>

record h2_head =
  hd_finished :: bool
  hd_found :: u8
  hd_method :: HTTPRequestMethod
  hd_uri :: ParsedURI
  hd_fields :: "HttpHeaderField list"

definition empty_head :: h2_head where
  "empty_head =
     \<lparr>hd_finished = False, hd_found = 0, hd_method = HTTPRequestMethodGet,
      hd_uri = \<lparr>pu_scheme = None,
                pu_authority = \<lparr>pa_user_info = \<lparr>ui_username = None, ui_password = None\<rparr>, pa_host = None, pa_port = 0\<rparr>,
                pu_path = \<lparr>up_path = None, up_search_path = Map.empty, up_fragment = None\<rparr>\<rparr>,
      hd_fields = []\<rparr>"

abbreviation (input) PseudoHeadersForHttp2Method :: u8 where "PseudoHeadersForHttp2Method \<equiv> 0x01"
abbreviation (input) PseudoHeadersForHttp2Scheme :: u8 where "PseudoHeadersForHttp2Scheme \<equiv> 0x02"
abbreviation (input) PseudoHeadersForHttp2Authority :: u8 where "PseudoHeadersForHttp2Authority \<equiv> 0x04"
abbreviation (input) PseudoHeadersForHttp2Path :: u8 where "PseudoHeadersForHttp2Path \<equiv> 0x08"
abbreviation (input) PseudoHeadersForHttp2NeededForRequest :: u8 where
  "PseudoHeadersForHttp2NeededForRequest \<equiv> 0x0B"

definition is_pseudo :: "HttpHeaderField \<Rightarrow> bool" where
  "is_pseudo entry \<longleftrightarrow> length (hf_key entry) > 0 \<and> hf_key entry ! 0 = of_char (CHR '':'')"

text \<open>One pseudo header: its bit and the head with its value.\<close>

definition pseudo_header :: "'f http_env \<Rightarrow> HttpHeaderField \<Rightarrow> h2_head \<Rightarrow> (string, u8 \<times> h2_head) res option" where
  "pseudo_header env entry head =
     (if hf_key entry = lit '':method'' then
        (case get_http_method_from_string (hf_value entry) of
           None \<Rightarrow> Some (Err ''invalid http method'')
         | Some m \<Rightarrow> Some (Ok (PseudoHeadersForHttp2Method, head\<lparr>hd_method := m\<rparr>)))
      else if hf_key entry = lit '':scheme'' then
        Some (Ok (PseudoHeadersForHttp2Scheme, head\<lparr>hd_uri := (hd_uri head)\<lparr>pu_scheme := Some (hf_value entry)\<rparr>\<rparr>))
      else if hf_key entry = lit '':authority'' then
        (case parse_authority (env_uri env) (hf_value entry) of
           None \<Rightarrow> Some (Err ''Authority parse error: not a valid authority'')
         | Some (authority, after) \<Rightarrow>
             (if after \<noteq> [] then Some (Err ''Authority parse error: we got more data after the authority'')
              else Some (Ok (PseudoHeadersForHttp2Authority,
                     head\<lparr>hd_uri := (hd_uri head)\<lparr>pu_authority := authority\<rparr>\<rparr>))))
      else if hf_key entry = lit '':path'' then
        map_option (\<lambda>r. rbind (map_err (\<lambda>_. []) r) (\<lambda>path.
            Ok (PseudoHeadersForHttp2Path, head\<lparr>hd_uri := (hd_uri head)\<lparr>pu_path := path\<rparr>\<rparr>)))
          (parse_url_path (env_uri env) (hf_value entry))
      else if hf_key entry = lit '':status'' then Some (Err ''pseudo header status not allowed in request'')
      else Some (Err ''pseudo header field not recognized''))"

definition header_step :: "'f http_env \<Rightarrow> HttpHeaderField \<Rightarrow> h2_head \<Rightarrow> (string, h2_head) res option" where
  "header_step env entry head =
     (if is_pseudo entry then
        (if hd_finished head then Some (Err ''pseudo header field after normal header fields'')
         else
           map_option (\<lambda>r. rbind r (\<lambda>(new_pseudo_header, head').
               if hd_found head AND new_pseudo_header \<noteq> 0 then Err ''duplicate pseudo header field found''
               else Ok (head'\<lparr>hd_found := hd_found head OR new_pseudo_header\<rparr>)))
             (pseudo_header env entry head))
      else
        Some (Ok (head\<lparr>hd_finished := True,
                hd_fields := (if lib_push env (length (hd_fields head)) then hd_fields head @ [entry]
                              else hd_fields head)\<rparr>)))"

fun headers_loop :: "'f http_env \<Rightarrow> HttpHeaderField list \<Rightarrow> h2_head \<Rightarrow> (string, h2_head) res option" where
  "headers_loop env [] head = Some (Ok head)"
| "headers_loop env (entry # rest) head =
     (case header_step env entry head of
        None \<Rightarrow> None
      | Some (Ok head') \<Rightarrow> headers_loop env rest head'
      | Some (Err e) \<Rightarrow> Some (Err e)
      | Some (Undef u) \<Rightarrow> Some (Undef u))"

definition request_head :: "h2_head \<Rightarrow> Http2Identifier \<Rightarrow> HttpRequestHead" where
  "request_head head stream_identifier =
     \<lparr>rh_request_line =
        \<lparr>rl_method = hd_method head, rl_uri = ParsedURITypeAbsoluteURI (hd_uri head),
         rl_protocol_data = \<lparr>pd_version = HTTPProtocolVersion2, pd_stream_identifier = stream_identifier\<rparr>\<rparr>,
      rh_header_fields = hd_fields head\<rparr>"

datatype Http2RequestHeadersError = HeadersError string | HeadersDecompressError decompress_error

text \<open>
  \<open>parse_http2_headers\<close>: the head or the error, and the decompressor afterwards.
\<close>

definition parse_http2_headers ::
  "'d h2_env \<Rightarrow> hpack_env \<Rightarrow> 'f http_env \<Rightarrow> HpackDecompressState option \<Rightarrow> Http2StreamHeaders \<Rightarrow> Http2Identifier
     \<Rightarrow> ((Http2RequestHeadersError, HttpRequestHead) res \<times> HpackDecompressState option) option" where
  "parse_http2_headers env hpack http decompress_state headers stream_identifier =
     (case http2_concat_data_blocks env (sh_header_blocks headers) of
        Undef u \<Rightarrow> Some (Undef u, decompress_state)
      | Err _ \<Rightarrow> Some (Err (HeadersError ''error in constructing the header data''), decompress_state)
      | Ok header_value \<Rightarrow>
          (case http2_hpack_decompress_data hpack decompress_state header_value of
             Undef u \<Rightarrow> Some (Undef u, decompress_state)
           | Err (e, decompress_state') \<Rightarrow> Some (Err (HeadersDecompressError e), decompress_state')
           | Ok (http2_headers, decompress_state') \<Rightarrow>
               map_option (\<lambda>r. (rbind (map_err HeadersError r) (\<lambda>head.
                   if hd_found head AND PseudoHeadersForHttp2NeededForRequest \<noteq> PseudoHeadersForHttp2NeededForRequest
                   then Err (HeadersError ''not all needed pseudo header fields were found'')
                   else Ok (request_head head stream_identifier)), Some decompress_state'))
                 (headers_loop http http2_headers empty_head)))"

definition get_http2_request_from_finished_stream ::
  "'d h2_env \<Rightarrow> hpack_env \<Rightarrow> 'f http_env \<Rightarrow> Http2ContextState \<Rightarrow> Http2Stream \<Rightarrow> Http2Identifier
     \<Rightarrow> ((unit, 'f HttpRequestResult) res \<times> Http2ContextState) option" where
  "get_http2_request_from_finished_stream env hpack http state stream stream_identifier =
     map_option (\<lambda>(headers_result, decompress_state').
         (case headers_result of
            Undef u \<Rightarrow> Undef u
          | Err _ \<Rightarrow> Ok (HttpRequestResultTypeError (HttpRequestErrorAdvanced ''parse error in parsing http2 headers''))
          | Ok head \<Rightarrow>
              (case http2_concat_data_blocks env (sc_data_blocks (st_content stream)) of
                 Undef u \<Rightarrow> Undef u
               | Err _ \<Rightarrow> Ok (HttpRequestResultTypeError (HttpRequestErrorAdvanced ''error in constructing the body data''))
               | Ok body \<Rightarrow>
                   (let request = \<lparr>rq_head = head, rq_body = body\<rparr> in
                    Ok (HttpRequestResultTypeOk request (get_request_settings http request)))),
          state\<lparr>cs_hpack_state := (cs_hpack_state state)\<lparr>hs_decompress_state := decompress_state'\<rparr>\<rparr>))
       (parse_http2_headers env hpack http (hs_decompress_state (cs_hpack_state state)) (st_headers stream)
          stream_identifier)"

definition parse_http2_request ::
  "'d h2_env \<Rightarrow> hpack_env \<Rightarrow> 'f http_env \<Rightarrow> HTTP2Context \<Rightarrow> 'd BufferedReader
     \<Rightarrow> ((unit, 'f HttpRequestResult \<times> HTTP2Context) res \<times> 'd BufferedReader) option" where
  "parse_http2_request env hpack http context reader =
     (case http2_request_loop env context reader of
        None \<Rightarrow> None
      | Some (Undef u, r) \<Rightarrow> Some (Undef u, r)
      | Some (Err e, r) \<Rightarrow> Some (Err e, r)
      | Some (Ok (finish, context'), r) \<Rightarrow>
          (case finish of
             RequestFailed error \<Rightarrow>
               Some (Ok (HttpRequestResultTypeError (HttpRequestErrorAdvanced error), context'), r)
           | RequestCloseConnection \<Rightarrow> Some (Ok (HttpRequestResultTypeCloseConnection, context'), r)
           | RequestFinished identifier \<Rightarrow>
               (case get_http2_stream context' identifier of
                  None \<Rightarrow> Some (Undef OutOfBounds, r)
                | Some stream \<Rightarrow>
                    map_option (\<lambda>(result, state'). (rbind result (\<lambda>x. Ok (x, context'\<lparr>ctx_state := state'\<rparr>)), r))
                      (get_http2_request_from_finished_stream env hpack http (ctx_state context') stream identifier))))"

section \<open>The start of a connection\<close>

datatype Http2PrefaceStatus = Http2PrefaceStatusOk | Http2PrefaceStatusErr | Http2PrefaceStatusNotEnoughData

definition HTTP2_CLIENT_PREFACE_AFTER_HTTP1_STATUS_LINE :: bytes where
  "HTTP2_CLIENT_PREFACE_AFTER_HTTP1_STATUS_LINE = [13, 10] @ lit ''SM'' @ [13, 10, 13, 10]"

definition HTTP2_CLIENT_PREFACE :: bytes where
  "HTTP2_CLIENT_PREFACE = lit ''PRI * HTTP/2.0'' @ [13, 10] @ HTTP2_CLIENT_PREFACE_AFTER_HTTP1_STATUS_LINE"

definition analyze_http2_preface ::
  "'d h2_env \<Rightarrow> HttpRequestLine \<Rightarrow> (unit, 'd BufferedReader, Http2PrefaceStatus) act" where
  "analyze_http2_preface env request_line =
     (if pd_version (rl_protocol_data request_line) \<noteq> HTTPProtocolVersion2 then aret Http2PrefaceStatusErr
      else if rl_method request_line \<noteq> HTTPRequestMethodPRI then aret Http2PrefaceStatusErr
      else if rl_uri request_line \<noteq> ParsedURITypeAsterisk then aret Http2PrefaceStatusErr
      else
        (\<lambda>reader. case buffered_reader_get_amount (h2_alloc env) (h2_io env) reader 8 of
           Ok (BufferedReadResultTypeOk bs, reader') \<Rightarrow>
             (Ok (if bs = HTTP2_CLIENT_PREFACE_AFTER_HTTP1_STATUS_LINE then Http2PrefaceStatusOk
                  else Http2PrefaceStatusErr), reader')
         | Ok (_, reader') \<Rightarrow> (Ok Http2PrefaceStatusNotEnoughData, reader')
         | Err e \<Rightarrow> (Err e, reader)
         | Undef u \<Rightarrow> (Undef u, reader)))"

text \<open>The settings of the server: the header table size, unless there is no memory for it.\<close>

definition get_start_settings_frame ::
  "'d h2_env \<Rightarrow> Http2ContextState \<Rightarrow> (unit, Http2SettingsFrame \<times> Http2ContextState) res" where
  "get_start_settings_frame env state =
     (case hs_compress_state (cs_hpack_state state) of
        None \<Rightarrow> Undef OutOfBounds
      | Some compress \<Rightarrow>
          rbind (set_hpack_compress_state_setting (h2_alloc env) compress 4096) (\<lambda>compress'.
          Ok (\<lparr>sf_ack = False, sf_entries = (if h2_push env 0 then [\<lparr>sv_identifier = 0x1, sv_value = 4096\<rparr>] else [])\<rparr>,
              state\<lparr>cs_hpack_state := (cs_hpack_state state)\<lparr>hs_compress_state := Some compress'\<rparr>\<rparr>)))"

definition start_error :: "string \<Rightarrow> (string, 's, 'a) act" where
  "start_error error = alift (Err error)"

text \<open>An action whose error is replaced; \<open>act_err []\<close> stands in front of actions that report no error.\<close>

definition map_act_err :: "('e \<Rightarrow> 'g) \<Rightarrow> ('e, 's, 'a) act \<Rightarrow> ('g, 's, 'a) act" where
  "map_act_err f m = (\<lambda>s. case m s of (r, s') \<Rightarrow> (map_err f r, s'))"

definition act_err :: "string \<Rightarrow> (unit, 's, 'a) act \<Rightarrow> (string, 's, 'a) act" where
  "act_err error m = map_act_err (\<lambda>_. error) m"

text \<open>Both variants of the start end alike: the first frame has to be a SETTINGS frame.\<close>

definition receive_settings ::
  "'d h2_env \<Rightarrow> HTTP2Context \<Rightarrow> (string, 'd BufferedReader, HTTP2Context) act" where
  "receive_settings env context =
     abind (parse_http2_frame env context) (\<lambda>frame.
     case frame of
       Http2FrameTypeSettings f \<Rightarrow>
         abind (\<lambda>reader. (Ok (), buffered_reader_invalidate_old_data (h2_alloc env) reader)) (\<lambda>_.
         abind (act_err [] (on_descriptor (process_http2_frame env context frame))) (\<lambda>(process_result, context').
         case process_result of
           Http2ProcessFrameResultTypeOk \<Rightarrow> aret context'
         | Http2ProcessFrameResultTypeError is_connection_error message \<Rightarrow> start_error message
         | _ \<Rightarrow> start_error ''error: implementation error (settings frame can't result in a request)''))
     | _ \<Rightarrow> start_error ''first frame has to be a settings frame'')"

text \<open>
  An error carries the context as it is then. A failed \<open>receive_settings\<close> leaves the context it was given: the
  processing of a SETTINGS frame reports no error.
\<close>

definition http2_send_and_receive_preface ::
  "'d h2_env \<Rightarrow> HTTP2Context \<Rightarrow> (string \<times> HTTP2Context, 'd BufferedReader, HTTP2Context) act" where
  "http2_send_and_receive_preface env context =
     abind (map_act_err (\<lambda>_. ([], context)) (alift (get_start_settings_frame env (ctx_state context)))) (\<lambda>(frame_to_send, state').
     let context1 = context\<lparr>ctx_state := state'\<rparr> in
     abind (map_act_err (\<lambda>_. (''error in sending settings frame (server preface)'', context1))
              (on_descriptor (http2_send_settings_frame env frame_to_send))) (\<lambda>_.
     map_act_err (\<lambda>e. (e, context1)) (receive_settings env context1)))"

definition http2_receive_preface_with_magic ::
  "'d h2_env \<Rightarrow> HTTP2Context \<Rightarrow> (string, 'd BufferedReader, HTTP2Context) act" where
  "http2_receive_preface_with_magic env context =
     abind (\<lambda>reader. case buffered_reader_get_amount (h2_alloc env) (h2_io env) reader 24 of
              Ok (BufferedReadResultTypeOk bs, reader') \<Rightarrow> (Ok bs, reader')
            | Ok (_, reader') \<Rightarrow> (Err ''unable to read magic http2 preface'', reader')
            | Err e \<Rightarrow> (Err ''unable to read magic http2 preface'', reader)
            | Undef u \<Rightarrow> (Undef u, reader)) (\<lambda>buffer.
     if buffer \<noteq> HTTP2_CLIENT_PREFACE then start_error ''magic http2 preface not correct''
     else receive_settings env context)"

definition http2_process_h2c_upgrade ::
  "'d h2_env \<Rightarrow> 'f http_env \<Rightarrow> HTTP2Context \<Rightarrow> bytes \<Rightarrow> HttpRequest
     \<Rightarrow> (HttpRequestError \<times> HTTP2Context, 'd BufferedReader, HttpRequest \<times> 'f RequestSettings \<times> HTTP2Context) act" where
  "http2_process_h2c_upgrade env http context settings_data original_request =
     (abind (map_act_err (\<lambda>_. (HttpRequestErrorAdvanced [], context)) (alift (get_start_settings_frame env (ctx_state context)))) (\<lambda>(frame_to_send, state').
      let context0 = context\<lparr>ctx_state := state'\<rparr> in
      abind (map_act_err (\<lambda>_. (HttpRequestErrorAdvanced ''error in sending settings frame (server preface)'', context0))
               (on_descriptor (http2_send_settings_frame env frame_to_send))) (\<lambda>_.
      abind (map_act_err (\<lambda>e. (HttpRequestErrorAdvanced e, context0)) (parse_raw_http2_settings_frame env context0 settings_data False)) (\<lambda>frame.
      case frame of
        Http2FrameTypeSettings f \<Rightarrow>
          abind (map_act_err (\<lambda>_. (HttpRequestErrorAdvanced [], context0)) (alift (http2_apply_settings_frame env context0 f))) (\<lambda>context1.
          abind (map_act_err (\<lambda>_. (HttpRequestErrorEnum HttpRequestErrorTypeInvalidHttp2Preface, context1)) (http2_receive_preface_with_magic env context1)) (\<lambda>context2.
          case add_new_http2_stream env context2 1
                 \<lparr>st_state = Http2StreamStateHalfClosed, st_headers = EMPTY_STREAM_HEADERS,
                  st_content = EMPTY_STREAM_CONTENT, st_end_stream = True, st_priority = DEFAULT_STREAM_PRIORITY\<rparr> of
            None \<Rightarrow> alift (Err (HttpRequestErrorAdvanced ''stream insert error'', context2))
          | Some context3 \<Rightarrow>
              (let head = rq_head original_request;
                   request = original_request\<lparr>rq_head := head\<lparr>rh_request_line := (rh_request_line head)
                     \<lparr>rl_protocol_data := \<lparr>pd_version = HTTPProtocolVersion2, pd_stream_identifier = 1\<rparr>\<rparr>\<rparr>\<rparr> in
               aret (request, get_request_settings http request, context3))))
      | _ \<Rightarrow> alift (Err (HttpRequestErrorAdvanced
          ''error: implementation error parsing settings frame didn't result in one'', context0))))))"

section \<open>The server preface\<close>

lemma compress_setting_eq: "set_hpack_compress_state_setting = set_hpack_decompress_state_setting"
  by (intro ext) (simp add: set_hpack_compress_state_setting_def set_hpack_decompress_state_setting_def)

lemma start_settings_frame:
  assumes "\<forall>n. h2_alloc env n" "h2_push env 0"
    and "hs_compress_state (cs_hpack_state state) = Some compress" "state_inv compress"
  shows "\<exists>state'. get_start_settings_frame env state =
    Ok (\<lparr>sf_ack = False, sf_entries = [\<lparr>sv_identifier = 0x1, sv_value = 4096\<rparr>]\<rparr>, state')"
proof -
  obtain compress' where "set_hpack_decompress_state_setting (h2_alloc env) compress 4096 = Ok compress'"
    using store.resize_law [OF assms(4) _ assms(1), of 4096] by auto
  then show ?thesis using assms by (simp add: get_start_settings_frame_def compress_setting_eq)
qed

text \<open>
  Every HTTP/2 connection starts with a write behind the end of a heap block: on a fresh
  connection, and while memory lasts, \<open>http2_send_and_receive_preface\<close> reaches the overrun of the
  SETTINGS writer before it has read a single frame of the client.
\<close>

theorem server_preface_undefined:
  assumes "\<forall>n. h2_alloc env n" "h2_push env 0" "\<forall>n. alloc n"
  shows "\<exists>reader'. http2_send_and_receive_preface env (http2_default_context alloc) reader = (Undef OutOfBounds, reader')"
proof -
  let ?state = "ctx_state (http2_default_context alloc)"
  have "hs_compress_state (cs_hpack_state ?state) = Some (get_default_hpack_dynamic_table_state 4096)"
    using assms(3) by (simp add: http2_default_context_def http2_default_context_state_def get_default_hpack_state_def
        get_default_hpack_compress_state_def)
  from start_settings_frame [OF assms(1,2) this state_inv_fresh] obtain state' where
    start: "get_start_settings_frame env ?state =
      Ok (\<lparr>sf_ack = False, sf_entries = [\<lparr>sv_identifier = 0x1, sv_value = 4096\<rparr>]\<rparr>, state')" by auto
  have "http2_send_settings_frame env \<lparr>sf_ack = False, sf_entries = [\<lparr>sv_identifier = 0x1, sv_value = 4096\<rparr>]\<rparr> d =
      (Undef OutOfBounds, d)" for d
    using assms(1) settings_write_loop_overruns [of "[None]" 0 "[\<lparr>sv_identifier = 0x1, sv_value = 4096\<rparr>]" "h2_order env"]
    by (simp add: http2_send_settings_frame_def abind_def alift_def Let_def)
  then show ?thesis
    using start by (simp add: http2_send_and_receive_preface_def abind_def act_err_def map_act_err_def alift_def on_descriptor_def)
qed

theorem server_preface_undefined_witness:
  "\<exists>reader'. http2_send_and_receive_preface (pipe_env 0) (http2_default_context (\<lambda>_. True)) (pipe_reader []) =
     (Undef OutOfBounds, reader')"
  using server_preface_undefined [of "pipe_env 0" "\<lambda>_. True" "pipe_reader []"] by simp

section \<open>Which headers make a request\<close>

text \<open>The mask in terms of the four pseudo headers.\<close>

definition pseudo_bit :: "bytes \<Rightarrow> u8 option" where
  "pseudo_bit key =
     map_of [(lit '':method'', 0x01), (lit '':scheme'', 0x02), (lit '':authority'', 0x04), (lit '':path'', 0x08)] key"

definition pseudo_value_ok :: "'f http_env \<Rightarrow> HttpHeaderField \<Rightarrow> bool" where
  "pseudo_value_ok env f \<longleftrightarrow>
     (hf_key f = lit '':method'' \<longrightarrow> get_http_method_from_string (hf_value f) \<noteq> None) \<and>
     (hf_key f = lit '':authority'' \<longrightarrow> (\<exists>a. parse_authority (env_uri env) (hf_value f) = Some (a, []))) \<and>
     (hf_key f = lit '':path'' \<longrightarrow> (\<exists>p. parse_url_path (env_uri env) (hf_value f) = Some (Ok p)))"

text \<open>
  The rule of RFC 7540, section 8.1.2: the pseudo headers come first, each at most once, method, scheme and path
  are there, and nothing else is.
\<close>

definition request_fields :: "'f http_env \<Rightarrow> HttpHeaderField list \<Rightarrow> HttpHeaderField list \<Rightarrow> bool" where
  "request_fields env ps fs \<longleftrightarrow>
     (\<forall>f \<in> set ps. pseudo_bit (hf_key f) \<noteq> None \<and> pseudo_value_ok env f) \<and>
     (\<forall>f \<in> set fs. \<not> is_pseudo f) \<and> distinct (map hf_key ps) \<and>
     {lit '':method'', lit '':scheme'', lit '':path''} \<subseteq> hf_key ` set ps"

lemma pseudo_names: 
  "lit '':method'' \<noteq> lit '':scheme''" "lit '':method'' \<noteq> lit '':authority''" "lit '':method'' \<noteq> lit '':path''"
  "lit '':scheme'' \<noteq> lit '':authority''" "lit '':scheme'' \<noteq> lit '':path''" "lit '':authority'' \<noteq> lit '':path''"
  by (simp_all add: lit_def)

lemma pseudo_bit_simps [simp]:
  "pseudo_bit (lit '':method'') = Some 0x01" "pseudo_bit (lit '':scheme'') = Some 0x02"
  "pseudo_bit (lit '':authority'') = Some 0x04" "pseudo_bit (lit '':path'') = Some 0x08"
  using pseudo_names by (simp_all add: pseudo_bit_def)

lemma pseudo_bit_cases:
  assumes "pseudo_bit k = Some b"
  obtains "k = lit '':method''" "b = 0x01" | "k = lit '':scheme''" "b = 0x02"
    | "k = lit '':authority''" "b = 0x04" | "k = lit '':path''" "b = 0x08"
  using assms by (auto simp: pseudo_bit_def split: if_splits)

lemma pseudo_bit_pseudo: "pseudo_bit (hf_key f) = Some b \<Longrightarrow> is_pseudo f"
  by (auto elim!: pseudo_bit_cases simp: is_pseudo_def lit_def)

lemma pseudo_bits_apart:
  assumes "pseudo_bit j = Some a" "pseudo_bit k = Some b"
  shows "a AND b \<noteq> 0 \<longleftrightarrow> j = k"
  using assms pseudo_names by (elim pseudo_bit_cases) auto

definition mask_of :: "bytes set \<Rightarrow> u8 \<Rightarrow> bool" where
  "mask_of ks bits \<longleftrightarrow> (\<forall>k b. pseudo_bit k = Some b \<longrightarrow> (bits AND b \<noteq> 0 \<longleftrightarrow> k \<in> ks))"

lemma mask_of_empty: "mask_of {} 0"
  by (simp add: mask_of_def)

lemma mask_of_insert:
  assumes "mask_of ks bits" "pseudo_bit k = Some b"
  shows "mask_of (insert k ks) (bits OR b)"
  using assms pseudo_bits_apart [OF assms(2)]
  by (auto simp: mask_of_def bit.conj_disj_distrib2 or_eq_0_iff)

lemma pseudo_header_bit:
  "pseudo_header env f head = Some (Ok (b, head')) \<Longrightarrow>
   pseudo_bit (hf_key f) = Some b \<and> pseudo_value_ok env f \<and> hd_finished head' = hd_finished head \<and>
   hd_fields head' = hd_fields head"
  using pseudo_names
  by (auto simp: pseudo_header_def pseudo_value_ok_def rbind_iffs split: if_splits option.splits prod.splits)

lemma pseudo_header_ok:
  assumes "pseudo_bit (hf_key f) = Some b" "pseudo_value_ok env f"
  shows "\<exists>head'. pseudo_header env f head = Some (Ok (b, head')) \<and> hd_finished head' = hd_finished head \<and>
    hd_fields head' = hd_fields head"
  using assms pseudo_names by (elim pseudo_bit_cases) (auto simp: pseudo_header_def pseudo_value_ok_def)

lemma needed_bits: "(w :: u8) AND 0x0B = 0x0B \<longleftrightarrow> w AND 0x01 \<noteq> 0 \<and> w AND 0x02 \<noteq> 0 \<and> w AND 0x08 \<noteq> 0"
proof -
  have all: "list_all (\<lambda>n. (word_of_nat n :: u8) AND 0x0B = 0x0B \<longleftrightarrow> (word_of_nat n :: u8) AND 0x01 \<noteq> 0 \<and>
      (word_of_nat n :: u8) AND 0x02 \<noteq> 0 \<and> (word_of_nat n :: u8) AND 0x08 \<noteq> 0) [0..<256]"
    by code_simp
  have "unat w \<in> set [0..<256]" by simp
  from bspec [OF all [unfolded list_all_iff] this] show ?thesis by simp
qed

text \<open>What a head holds after the pseudo headers \<open>ps\<close> and the fields \<open>fs\<close>.\<close>

definition head_matches :: "'f http_env \<Rightarrow> HttpHeaderField \<Rightarrow> h2_head \<Rightarrow> bool" where
  "head_matches env f head \<longleftrightarrow>
     (hf_key f = lit '':method'' \<longrightarrow> get_http_method_from_string (hf_value f) = Some (hd_method head)) \<and>
     (hf_key f = lit '':scheme'' \<longrightarrow> pu_scheme (hd_uri head) = Some (hf_value f)) \<and>
     (hf_key f = lit '':authority'' \<longrightarrow> parse_authority (env_uri env) (hf_value f) = Some (pu_authority (hd_uri head), [])) \<and>
     (hf_key f = lit '':path'' \<longrightarrow> parse_url_path (env_uri env) (hf_value f) = Some (Ok (pu_path (hd_uri head))))"

definition head_inv :: "'f http_env \<Rightarrow> HttpHeaderField list \<Rightarrow> HttpHeaderField list \<Rightarrow> h2_head \<Rightarrow> bool" where
  "head_inv env ps fs head \<longleftrightarrow>
     (\<forall>f \<in> set ps. pseudo_bit (hf_key f) \<noteq> None \<and> pseudo_value_ok env f \<and> head_matches env f head) \<and>
     (\<forall>f \<in> set fs. \<not> is_pseudo f) \<and> distinct (map hf_key ps) \<and>
     (hd_finished head \<longleftrightarrow> fs \<noteq> []) \<and> mask_of (hf_key ` set ps) (hd_found head) \<and> hd_fields head = fs"

lemma pseudo_header_matches:
  assumes "pseudo_header env f head = Some (Ok (b, head'))"
  shows "head_matches env f head'" and "hf_key g \<noteq> hf_key f \<Longrightarrow> head_matches env g head \<Longrightarrow> head_matches env g head'"
  using assms pseudo_names
  by (auto simp: pseudo_header_def head_matches_def rbind_iffs split: if_splits option.splits prod.splits)

lemma head_matches_upd [simp]:
  "head_matches env f (head\<lparr>hd_found := x\<rparr>) = head_matches env f head"
  "head_matches env f (head\<lparr>hd_finished := y, hd_fields := z\<rparr>) = head_matches env f head"
  by (simp_all add: head_matches_def)

lemma header_step_pseudo:
  assumes "head_inv env ps fs head" "is_pseudo f" "header_step env f head = Some (Ok head')"
  shows "fs = [] \<and> head_inv env (ps @ [f]) [] head'"
proof -
  have fs: "fs = []" "\<not> hd_finished head"
    using assms by (auto simp: header_step_def head_inv_def split: if_splits)
  obtain b head1 where h1: "pseudo_header env f head = Some (Ok (b, head1))" "hd_found head AND b = 0"
    "head' = head1\<lparr>hd_found := hd_found head OR b\<rparr>"
    using assms(2,3) fs(2) by (auto simp: header_step_def rbind_iffs split: if_splits prod.splits)
  have b: "pseudo_bit (hf_key f) = Some b" "pseudo_value_ok env f" "hd_finished head1 = hd_finished head"
    "hd_fields head1 = hd_fields head"
    using pseudo_header_bit [OF h1(1)] by simp_all
  have mask: "mask_of (hf_key ` set ps) (hd_found head)" and dist: "distinct (map hf_key ps)" and
    ps: "\<And>g. g \<in> set ps \<Longrightarrow> pseudo_bit (hf_key g) \<noteq> None \<and> pseudo_value_ok env g \<and> head_matches env g head"
    and "hd_fields head = []"
    using assms(1) fs(1) by (simp_all add: head_inv_def)
  from mask b(1) h1(2) have new: "hf_key f \<notin> hf_key ` set ps" unfolding mask_of_def by blast
  then have old: "head_matches env g head1" if "g \<in> set ps" for g
    using ps [OF that] pseudo_header_matches(2) [OF h1(1), of g] that by (metis imageI)
  have "mask_of (hf_key ` set (ps @ [f])) (hd_found head OR b)"
    using mask_of_insert [OF mask b(1)] by simp
  then have "head_inv env (ps @ [f]) [] head'"
    unfolding head_inv_def h1(3)
    using fs(2) b new old ps dist pseudo_header_matches(1) [OF h1(1)] \<open>hd_fields head = []\<close> by simp
  with fs(1) show ?thesis by simp
qed

lemma header_step_regular:
  assumes "head_inv env ps fs head" "\<not> is_pseudo f" "\<forall>n. lib_push env n"
  shows "\<exists>head'. header_step env f head = Some (Ok head') \<and> head_inv env ps (fs @ [f]) head'"
  using assms by (auto simp: header_step_def head_inv_def)

lemma header_step_pseudo_ok:
  assumes "head_inv env ps [] head" "pseudo_bit (hf_key f) \<noteq> None" "pseudo_value_ok env f" "hf_key f \<notin> hf_key ` set ps"
  shows "\<exists>head'. header_step env f head = Some (Ok head')"
proof -
  obtain b where b: "pseudo_bit (hf_key f) = Some b" using assms(2) by auto
  from pseudo_header_ok [OF b assms(3)] obtain head1 where "pseudo_header env f head = Some (Ok (b, head1))" by blast
  moreover have "hd_found head AND b = 0" using assms(1,4) b by (auto simp: head_inv_def mask_of_def)
  ultimately show ?thesis
    using assms(1) pseudo_bit_pseudo [OF b] by (simp add: header_step_def head_inv_def)
qed

lemma headers_loop_append:
  "headers_loop env (xs @ ys) head =
     (case headers_loop env xs head of Some (Ok head') \<Rightarrow> headers_loop env ys head' | r \<Rightarrow> r)"
  by (induction xs arbitrary: head) (auto split: option.splits res.splits)

lemma headers_loop_one: "headers_loop env [f] head = header_step env f head"
  by (auto split: option.splits res.splits)

lemma empty_head_inv: "head_inv env [] [] empty_head"
  by (simp add: head_inv_def empty_head_def mask_of_empty)

lemma headers_loop_sound:
  assumes "\<forall>n. lib_push env n"
  shows "headers_loop env hs empty_head = Some (Ok head) \<Longrightarrow> \<exists>ps fs. hs = ps @ fs \<and> head_inv env ps fs head"
proof (induction hs arbitrary: head rule: rev_induct)
  case (snoc f hs)
  then obtain head1 where head1: "headers_loop env hs empty_head = Some (Ok head1)" "header_step env f head1 = Some (Ok head)"
    by (auto simp: headers_loop_append headers_loop_one simp del: headers_loop.simps split: option.splits res.splits)
  from snoc.IH [OF head1(1)] obtain ps fs where ps: "hs = ps @ fs" "head_inv env ps fs head1" by blast
  show ?case
  proof (cases "is_pseudo f")
    case True
    from header_step_pseudo [OF ps(2) True head1(2)] have "hs @ [f] = (ps @ [f]) @ [] \<and> head_inv env (ps @ [f]) [] head"
      by (simp add: ps(1))
    then show ?thesis by blast
  next
    case False
    from header_step_regular [OF ps(2) False assms] head1(2)
    have "hs @ [f] = ps @ (fs @ [f]) \<and> head_inv env ps (fs @ [f]) head" by (simp add: ps(1))
    then show ?thesis by blast
  qed
qed (auto intro: empty_head_inv)

lemma headers_loop_complete:
  assumes "\<forall>n. lib_push env n" "\<forall>f \<in> set ps. pseudo_bit (hf_key f) \<noteq> None \<and> pseudo_value_ok env f"
    "\<forall>f \<in> set fs. \<not> is_pseudo f" "distinct (map hf_key ps)"
  shows "\<exists>head. headers_loop env (ps @ fs) empty_head = Some (Ok head) \<and> head_inv env ps fs head"
proof -
  have "\<exists>head. headers_loop env ps empty_head = Some (Ok head) \<and> head_inv env ps [] head"
    using assms(2,4)
  proof (induction ps rule: rev_induct)
    case (snoc f ps)
    then obtain head where head: "headers_loop env ps empty_head = Some (Ok head)" "head_inv env ps [] head" by auto
    obtain head' where "header_step env f head = Some (Ok head')"
      using header_step_pseudo_ok [OF head(2), of f] snoc.prems by auto
    with header_step_pseudo [OF head(2) _ this] head(1) snoc.prems pseudo_bit_pseudo [of f] show ?case
      by (auto simp: headers_loop_append headers_loop_one simp del: headers_loop.simps)
  qed (auto intro: empty_head_inv)
  then show ?thesis using assms(3)
  proof (induction fs rule: rev_induct)
    case (snoc f fs)
    then obtain head where head: "headers_loop env (ps @ fs) empty_head = Some (Ok head)" "head_inv env ps fs head" by auto
    from header_step_regular [OF head(2) _ assms(1), of f] snoc.prems obtain head' where
      "header_step env f head = Some (Ok head')" "head_inv env ps (fs @ [f]) head'" by auto
    with head(1) show ?case
      using headers_loop_append [of env "ps @ fs" "[f]" empty_head] by (simp add: headers_loop_one del: headers_loop.simps)
  qed simp
qed

lemma needed_keys:
  assumes "mask_of ks bits"
  shows "bits AND 0x0B = 0x0B \<longleftrightarrow> {lit '':method'', lit '':scheme'', lit '':path''} \<subseteq> ks"
  using assms pseudo_bit_simps unfolding needed_bits mask_of_def by (metis (no_types, lifting) empty_subsetI insert_subset)

text \<open>
  C8. Exactly the header lists that RFC 7540 allows become requests: the pseudo headers first, known,
  each at most once and with a valid value, method, scheme and path among them, then the normal fields,
  which are handed on unchanged and in order.
\<close>

theorem http2_request_headers_spec:
  assumes "http2_concat_data_blocks env (sh_header_blocks headers) = Ok block"
    and "http2_hpack_decompress_data hpack dec block = Ok (hs, dec')" "\<forall>n. lib_push http n"
  shows "(\<exists>head. parse_http2_headers env hpack http dec headers i = Some (Ok head, Some dec') \<and> rh_header_fields head = fs) \<longleftrightarrow>
    (\<exists>ps. hs = ps @ fs \<and> request_fields http ps fs)"
proof
  assume "\<exists>head. parse_http2_headers env hpack http dec headers i = Some (Ok head, Some dec') \<and> rh_header_fields head = fs"
  then obtain h where h: "headers_loop http hs empty_head = Some (Ok h)" "hd_found h AND 0x0B = 0x0B" "hd_fields h = fs"
    using assms(1,2) by (auto simp: parse_http2_headers_def rbind_iffs request_head_def split: if_splits)
  from headers_loop_sound [OF assms(3) h(1)] obtain ps fs' where ps: "hs = ps @ fs'" "head_inv http ps fs' h" by blast
  with h(3) have "fs' = fs" by (simp add: head_inv_def)
  with ps h(2) show "\<exists>ps. hs = ps @ fs \<and> request_fields http ps fs"
    using needed_keys by (auto simp: head_inv_def request_fields_def)
next
  assume "\<exists>ps. hs = ps @ fs \<and> request_fields http ps fs"
  then obtain ps where ps: "hs = ps @ fs" "request_fields http ps fs" by blast
  from headers_loop_complete [OF assms(3), of ps fs] ps(2) obtain h where
    h: "headers_loop http hs empty_head = Some (Ok h)" "head_inv http ps fs h" by (auto simp: request_fields_def ps(1))
  then have "hd_found h AND 0x0B = 0x0B" "hd_fields h = fs"
    using needed_keys ps(2) by (auto simp: head_inv_def request_fields_def)
  with h(1) assms(1,2) show "\<exists>head. parse_http2_headers env hpack http dec headers i = Some (Ok head, Some dec') \<and>
      rh_header_fields head = fs"
    by (simp add: parse_http2_headers_def request_head_def)
qed

definition example_fields :: "HttpHeaderField list" where
  "example_fields =
     [\<lparr>hf_key = lit '':method'', hf_value = lit ''GET''\<rparr>, \<lparr>hf_key = lit '':scheme'', hf_value = lit ''http''\<rparr>,
      \<lparr>hf_key = lit '':path'', hf_value = lit ''/''\<rparr>]"

lemma thousandths_env_sel [simp]:
  "env_uri thousandths_env = sample_env" "lib_push thousandths_env n" "lib_base64 thousandths_env x = None"
  by (simp_all add: thousandths_env_def)

lemma parse_root_path:
  "parse_url_path sample_env (lit ''/'') =
     Some (Ok \<lparr>up_path = Some (lit ''/''), up_search_path = Map.empty, up_fragment = Some []\<rparr>)"
  using parse_url_text [OF sample_env_laws(1,4), of "lit ''/''" "[]"] by (simp add: path_ok_def url_text_def lit_def)

lemma example_request_fields: "request_fields thousandths_env example_fields []"
proof -
  have "get_http_method_from_string (lit ''GET'') \<noteq> None"
    using method_roundtrip [of HTTPRequestMethodGet] by simp
  moreover have "distinct (map hf_key example_fields)" by code_simp
  ultimately show ?thesis
    using pseudo_names parse_root_path by (simp add: request_fields_def example_fields_def pseudo_value_ok_def)
qed

text \<open>The indexed fields 2, 6 and 4 of the static table: method, scheme and path.\<close>

lemma example_block:
  "http2_hpack_decompress_data (server_env (\<lambda>_. True) (\<lambda>_. True) True)
     (Some (get_default_hpack_dynamic_table_state 4096)) [0x82, 0x86, 0x84] =
   Ok (example_fields, get_default_hpack_dynamic_table_state 4096)"
  by code_simp

theorem http2_request_headers_spec_witness:
  "\<exists>head. parse_http2_headers (pipe_env 0) (server_env (\<lambda>_. True) (\<lambda>_. True) True) thousandths_env
      (Some (get_default_hpack_dynamic_table_state 4096))
      \<lparr>sh_finished = True, sh_header_blocks = [[0x82, 0x86], [0x84]]\<rparr> 1 =
     Some (Ok head, Some (get_default_hpack_dynamic_table_state 4096)) \<and> rh_header_fields head = []"
proof -
  have blocks: "http2_concat_data_blocks (pipe_env 0)
      (sh_header_blocks \<lparr>sh_finished = True, sh_header_blocks = [[0x82, 0x86], [0x84]]\<rparr>) = Ok [0x82, 0x86, 0x84]"
    by (simp add: http2_concat_data_blocks_def memcpy_cells_def size_add_def)
  have push: "\<forall>n. lib_push thousandths_env n" by simp
  have "\<exists>ps. example_fields = ps @ [] \<and> request_fields thousandths_env ps []"
    using example_request_fields by simp
  then show ?thesis
    using http2_request_headers_spec [OF blocks example_block push, of 1 "[]"] by blast
qed

end
