(* ===== verification/Http2_Message.thy ===== *)
theory Http2_Message
  imports Http2_Request Hpack_Roundtrip
begin

text \<open>
  Whole messages over HTTP/2: what \<open>http2_send_headers\<close> and \<open>http2_send_data\<close> cut into frames is put
  together again by the request loop, and together with the header compression the request arrives as it was
  sent. Last, the order in which header blocks are decompressed, which is not the order of their arrival.
\<close>

section \<open>Fragments\<close>

function fragments :: "nat \<Rightarrow> bytes \<Rightarrow> bytes list" where
  "fragments n xs = (if xs = [] \<or> n = 0 then [] else take n xs # fragments n (drop n xs))"
  by pat_completeness auto
termination
  by (relation "measure (length \<circ> snd)") auto

declare fragments.simps [simp del]

lemma fragments_Nil [simp]: "fragments n [] = []"
  by (subst fragments.simps) simp

lemma fragments_Cons: "xs \<noteq> [] \<Longrightarrow> 0 < n \<Longrightarrow> fragments n xs = take n xs # fragments n (drop n xs)"
  by (subst fragments.simps) simp

lemma fragments_eq_Nil [simp]: "0 < n \<Longrightarrow> fragments n xs = [] \<longleftrightarrow> xs = []"
  by (cases "xs = []") (simp_all add: fragments_Cons)

lemma concat_fragments: "0 < n \<Longrightarrow> concat (fragments n xs) = xs"
proof (induction n xs rule: fragments.induct)
  case (1 n xs)
  then show ?case by (cases "xs = []") (simp_all add: fragments_Cons)
qed

lemma fragments_bounds: "x \<in> set (fragments n xs) \<Longrightarrow> x \<noteq> [] \<and> length x \<le> n"
proof (induction n xs rule: fragments.induct)
  case (1 n xs)
  show ?case
  proof (cases "xs = [] \<or> n = 0")
    case False
    with "1.prems" have "x = take n xs \<or> x \<in> set (fragments n (drop n xs))" by (simp add: fragments_Cons)
    with 1 False show ?thesis by auto
  qed (use "1.prems" in \<open>simp add: fragments.simps\<close>)
qed

text \<open>The frames of a message: the flag of the last one ends the headers or the stream.\<close>

definition headers_frame :: "Http2Identifier \<Rightarrow> bool \<Rightarrow> bytes \<Rightarrow> bool \<Rightarrow> Http2Frame" where
  "headers_frame i end_stream block end_headers =
     Http2FrameTypeHeaders
       \<lparr>hfr_has_priority = False, hfr_priority = DEFAULT_STREAM_PRIORITY, hfr_block_fragment = block,
        hfr_identifier = i, hfr_end_stream = end_stream, hfr_end_headers = end_headers\<rparr>"

definition continuation_frame :: "Http2Identifier \<Rightarrow> bytes \<Rightarrow> bool \<Rightarrow> Http2Frame" where
  "continuation_frame i block end_headers =
     Http2FrameTypeContinuation \<lparr>cf_block_fragment = block, cf_identifier = i, cf_end_headers = end_headers\<rparr>"

definition data_frame :: "Http2Identifier \<Rightarrow> bytes \<Rightarrow> bool \<Rightarrow> Http2Frame" where
  "data_frame i content is_end =
     Http2FrameTypeData \<lparr>df_content = content, df_is_end = is_end, df_identifier = i\<rparr>"

fun last_marked :: "('a \<Rightarrow> bool \<Rightarrow> 'b) \<Rightarrow> 'a list \<Rightarrow> 'b list" where
  "last_marked f [] = []"
| "last_marked f (x # xs) = f x (xs = []) # last_marked f xs"

definition header_frames :: "Http2Identifier \<Rightarrow> bool \<Rightarrow> bytes list \<Rightarrow> Http2Frame list" where
  "header_frames i end_stream blocks =
     (case blocks of
        [] \<Rightarrow> []
      | b # bs \<Rightarrow> headers_frame i end_stream b (bs = []) # last_marked (continuation_frame i) bs)"

definition data_frames :: "Http2Identifier \<Rightarrow> bytes list \<Rightarrow> Http2Frame list" where
  "data_frames i blocks = last_marked (data_frame i) blocks"

definition wire :: "byte_order \<Rightarrow> Http2Frame list \<Rightarrow> bytes" where
  "wire ord frames = concat (map (\<lambda>f. serialize_raw_header ord (frame_header f) @ frame_payload f) frames)"

lemma wire_simps [simp]:
  "wire ord [] = []" "wire ord (f # fs) = serialize_raw_header ord (frame_header f) @ frame_payload f @ wire ord fs"
  "wire ord (fs @ gs) = wire ord fs @ wire ord gs"
  by (simp_all add: wire_def)

section \<open>The writers\<close>

lemma send_data_loop_wire:
  assumes rel: "reliable_io (h2_io env) incoming outgoing" and alloc: "\<forall>n. h2_alloc env n"
    and i: "i \<noteq> 0" and n: "0 < n" "n < 2 ^ 24"
  shows "off \<le> length buffer \<Longrightarrow> \<exists>d'. send_data_loop env i n buffer off d = Some (Ok (), d') \<and>
    outgoing (channel d') = outgoing (channel d) @ wire (h2_order env) (data_frames i (fragments n (drop off buffer))) \<and>
    incoming (channel d') = incoming (channel d)"
proof (induction "length buffer - off" arbitrary: off d rule: less_induct)
  case less
  show ?case
  proof (cases "off < length buffer")
    case False
    with less.prems show ?thesis by (subst send_data_loop.simps) (simp add: data_frames_def)
  next
    case True
    let ?size = "if length buffer \<le> off + n then length buffer - off else n"
    let ?rest = "drop off buffer"
    have rest: "?rest \<noteq> []" "take ?size ?rest = take n ?rest" "drop (off + ?size) buffer = drop n ?rest"
      "drop n ?rest = [] \<longleftrightarrow> length buffer \<le> off + ?size"
      using True by (auto simp: add.commute)
    let ?f = "data_frame i (take n ?rest) (length buffer \<le> off + ?size)"
    have "frame_ok n ?f" using i by (simp add: data_frame_def)
    from send_frame_wire [OF rel alloc this n(2), of d] obtain d1 where
      d1: "http2_send_data_frame env \<lparr>df_content = take n ?rest, df_is_end = (length buffer \<le> off + ?size), df_identifier = i\<rparr> d =
        (Ok (), d1)"
      "outgoing (channel d1) = outgoing (channel d) @ serialize_raw_header (h2_order env) (frame_header ?f) @ frame_payload ?f"
      "incoming (channel d1) = incoming (channel d)"
      by (auto simp: data_frame_def)
    have next_off: "length buffer - (off + ?size) < length buffer - off" "off + ?size \<le> length buffer"
      using True n by auto
    from less.hyps [OF next_off, of d1] obtain d' where
      d': "send_data_loop env i n buffer (off + ?size) d1 = Some (Ok (), d')"
      "outgoing (channel d') = outgoing (channel d1) @ wire (h2_order env) (data_frames i (fragments n (drop n ?rest)))"
      "incoming (channel d') = incoming (channel d1)"
      unfolding rest(3) by blast
    have "send_data_loop env i n buffer off d = Some (Ok (), d')"
      using True d1(1) d'(1) rest(2) by (subst send_data_loop.simps) (simp add: Let_def)
    moreover have "data_frames i (fragments n ?rest) = ?f # data_frames i (fragments n (drop n ?rest))"
      using rest(1,4) n by (simp add: data_frames_def fragments_Cons)
    ultimately show ?thesis using d' d1 by simp
  qed
qed

lemma send_headers_loop_continuation:
  assumes rel: "reliable_io (h2_io env) incoming outgoing" and alloc: "\<forall>n. h2_alloc env n"
    and i: "i \<noteq> 0" and n: "0 < n" "n < 2 ^ 24"
  shows "0 < off \<Longrightarrow> off \<le> length buffer \<Longrightarrow> \<exists>d'. send_headers_loop env i n buffer end_stream off d = Some (Ok (), d') \<and>
    outgoing (channel d') =
      outgoing (channel d) @ wire (h2_order env) (last_marked (continuation_frame i) (fragments n (drop off buffer))) \<and>
    incoming (channel d') = incoming (channel d)"
proof (induction "length buffer - off" arbitrary: off d rule: less_induct)
  case less
  show ?case
  proof (cases "off < length buffer")
    case False
    with less.prems show ?thesis by (subst send_headers_loop.simps) simp
  next
    case True
    let ?size = "if length buffer \<le> off + n then length buffer - off else n"
    let ?rest = "drop off buffer"
    have rest: "?rest \<noteq> []" "take ?size ?rest = take n ?rest" "drop (off + ?size) buffer = drop n ?rest"
      "drop n ?rest = [] \<longleftrightarrow> length buffer \<le> off + ?size"
      using True by (auto simp: add.commute)
    let ?f = "continuation_frame i (take n ?rest) (length buffer \<le> off + ?size)"
    have "frame_ok n ?f" using i by (simp add: continuation_frame_def)
    from send_frame_wire [OF rel alloc this n(2), of d] obtain d1 where
      d1: "http2_send_continuation_frame env
          \<lparr>cf_block_fragment = take n ?rest, cf_identifier = i, cf_end_headers = (length buffer \<le> off + ?size)\<rparr> d = (Ok (), d1)"
      "outgoing (channel d1) = outgoing (channel d) @ serialize_raw_header (h2_order env) (frame_header ?f) @ frame_payload ?f"
      "incoming (channel d1) = incoming (channel d)"
      by (auto simp: continuation_frame_def)
    have next_off: "length buffer - (off + ?size) < length buffer - off" "0 < off + ?size" "off + ?size \<le> length buffer"
      using True n by auto
    from less.hyps [OF next_off, of d1] obtain d' where
      d': "send_headers_loop env i n buffer end_stream (off + ?size) d1 = Some (Ok (), d')"
      "outgoing (channel d') =
        outgoing (channel d1) @ wire (h2_order env) (last_marked (continuation_frame i) (fragments n (drop n ?rest)))"
      "incoming (channel d') = incoming (channel d1)"
      unfolding rest(3) by blast
    have "send_headers_loop env i n buffer end_stream off d = Some (Ok (), d')"
      using True less.prems(1) d1(1) d'(1) rest(2) by (subst send_headers_loop.simps) (simp add: Let_def)
    moreover have "last_marked (continuation_frame i) (fragments n ?rest) =
        ?f # last_marked (continuation_frame i) (fragments n (drop n ?rest))"
      using rest(1,4) n by (simp add: fragments_Cons)
    ultimately show ?thesis using d' d1 by simp
  qed
qed

lemma send_headers_wire:
  assumes rel: "reliable_io (h2_io env) incoming outgoing" and alloc: "\<forall>n. h2_alloc env n"
    and i: "i \<noteq> 0" and n: "0 < n" "n < 2 ^ 24" and "buffer \<noteq> []"
  shows "\<exists>d'. send_headers_loop env i n buffer end_stream 0 d = Some (Ok (), d') \<and>
    outgoing (channel d') = outgoing (channel d) @ wire (h2_order env) (header_frames i end_stream (fragments n buffer)) \<and>
    incoming (channel d') = incoming (channel d)"
proof -
  let ?size = "if length buffer \<le> n then length buffer else n"
  let ?f = "headers_frame i end_stream (take n buffer) (length buffer \<le> ?size)"
  have size: "take ?size buffer = take n buffer" "drop ?size buffer = drop n buffer" "0 < ?size" "?size \<le> length buffer"
    "drop n buffer = [] \<longleftrightarrow> length buffer \<le> ?size"
    using n assms(6) by auto
  have "frame_ok n ?f" using i by (simp add: headers_frame_def)
  from send_frame_wire [OF rel alloc this n(2), of d] obtain d1 where
    d1: "http2_send_headers_frame env
        \<lparr>hfr_has_priority = False, hfr_priority = DEFAULT_STREAM_PRIORITY, hfr_block_fragment = take n buffer,
         hfr_identifier = i, hfr_end_stream = end_stream, hfr_end_headers = (length buffer \<le> ?size)\<rparr> d = (Ok (), d1)"
    "outgoing (channel d1) = outgoing (channel d) @ serialize_raw_header (h2_order env) (frame_header ?f) @ frame_payload ?f"
    "incoming (channel d1) = incoming (channel d)"
    by (auto simp: headers_frame_def)
  from send_headers_loop_continuation [OF rel alloc i n size(3,4), of end_stream d1] obtain d' where
    d': "send_headers_loop env i n buffer end_stream ?size d1 = Some (Ok (), d')"
    "outgoing (channel d') =
      outgoing (channel d1) @ wire (h2_order env) (last_marked (continuation_frame i) (fragments n (drop n buffer)))"
    "incoming (channel d') = incoming (channel d1)"
    unfolding size(2) by blast
  have "send_headers_loop env i n buffer end_stream 0 d = Some (Ok (), d')"
    using assms(6) d1(1) d'(1) size(1)
    by (cases "length buffer \<le> n"; subst send_headers_loop.simps; simp add: Let_def)
  moreover have "header_frames i end_stream (fragments n buffer) =
      ?f # last_marked (continuation_frame i) (fragments n (drop n buffer))"
    using assms(6) n size(5) by (simp add: header_frames_def fragments_Cons)
  ultimately show ?thesis using d' d1 by simp
qed

section \<open>The reader\<close>

text \<open>Frames that the loop takes without answering: it reads them and goes on with the new context.\<close>

definition quiet :: "'d h2_env \<Rightarrow> HTTP2Context \<Rightarrow> Http2Frame \<Rightarrow> Http2ProcessFrameResult \<Rightarrow> HTTP2Context \<Rightarrow> bool" where
  "quiet env c frame result c' \<longleftrightarrow> (\<forall>d. process_http2_frame env c frame d = (Ok (result, c'), d))"

lemma loop_step:
  assumes ready: "reader_ready (h2_alloc env) (h2_io env) incoming outgoing reader"
    and ok: "frame_ok n frame" "n < 2 ^ 24" "n \<le> unat (set_max_frame_size (ctx_settings c))"
    and pend: "pending incoming reader = serialize_raw_header ord (frame_header frame) @ frame_payload frame @ rest"
    and quiet: "quiet env c frame result c'"
  shows "\<exists>reader'. reader_ready (h2_alloc env) (h2_io env) incoming outgoing reader' \<and> pending incoming reader' = rest \<and>
    (result = Http2ProcessFrameResultTypeOk \<longrightarrow> http2_request_loop env c reader = http2_request_loop env c' reader') \<and>
    (\<forall>i. result = Http2ProcessFrameResultTypeNewFinishedRequest i \<longrightarrow> ctx_streams c' i \<noteq> None \<longrightarrow>
       http2_request_loop env c reader = Some (Ok (RequestFinished i, c'), reader'))"
proof -
  obtain r where r: "parse_http2_frame env c reader = (Ok frame, r)"
    "reader_ready (h2_alloc env) (h2_io env) incoming outgoing r" "pending incoming r = rest"
    using parse_frame_wire [OF ready ok pend] by blast
  let ?r = "buffered_reader_invalidate_old_data (h2_alloc env) r"
  have "on_descriptor (process_http2_frame env c frame) ?r = (Ok (result, c'), ?r)"
    using quiet by (simp add: quiet_def on_descriptor_def)
  with r invalidate_ready [OF r(2)] show ?thesis
    by (intro exI [of _ ?r]) (auto simp: http2_request_loop.simps [of env c reader] get_http2_stream_def)
qed

text \<open>A stream while its blocks arrive.\<close>

definition filling :: "HTTP2Context \<Rightarrow> Http2Identifier \<Rightarrow> bool \<Rightarrow> bool \<Rightarrow> bytes list \<Rightarrow> bytes list \<Rightarrow> HTTP2Context" where
  "filling c i end_stream finished blocks datas =
     (update_last_stream_id c i)\<lparr>ctx_streams := (ctx_streams c)(i \<mapsto>
        \<lparr>st_state = (if end_stream \<and> finished then Http2StreamStateHalfClosed else Http2StreamStateOpen),
         st_headers = \<lparr>sh_finished = finished, sh_header_blocks = blocks\<rparr>,
         st_content = \<lparr>sc_finished = False, sc_data_blocks = datas\<rparr>, st_end_stream = end_stream,
         st_priority = DEFAULT_STREAM_PRIORITY\<rparr>)\<rparr>"

lemma filling_sel [simp]:
  "ctx_settings (filling c i e f bs ds) = ctx_settings c"
  "update_last_stream_id (filling c i e f bs ds) i = filling c i e f bs ds"
  by (simp_all add: filling_def update_last_stream_id_def)

lemma filling_put: "put_stream (filling c i e f bs ds) i s = put_stream (update_last_stream_id c i) i s"
  by (simp add: filling_def put_stream_def)

lemma quiet_headers:
  assumes "ctx_streams c i = None" "h2_insert env i" "\<forall>n. h2_push env n"
  shows "quiet env c (headers_frame i end_stream block end_headers)
    (if end_stream \<and> end_headers then Http2ProcessFrameResultTypeNewFinishedRequest i else Http2ProcessFrameResultTypeOk)
    (filling c i end_stream end_headers [block] [])"
  using assms by (auto simp: quiet_def headers_frame_def process_defs filling_def)

lemma quiet_continuation:
  assumes "\<forall>n. h2_push env n" "block \<noteq> []"
  shows "quiet env (filling c i end_stream False blocks []) (continuation_frame i block end_headers)
    (if end_stream \<and> end_headers then Http2ProcessFrameResultTypeNewFinishedRequest i else Http2ProcessFrameResultTypeOk)
    (filling c i end_stream end_headers (blocks @ [block]) [])"
  using assms by (auto simp: quiet_def continuation_frame_def process_defs process_continuation_frame_def filling_def
      update_last_stream_id_def)

lemma quiet_data:
  assumes "\<forall>n. h2_push env n"
  shows "quiet env (filling c i False True blocks datas) (data_frame i content is_end)
    (if is_end then Http2ProcessFrameResultTypeNewFinishedRequest i else Http2ProcessFrameResultTypeOk)
    (filling c i is_end True blocks (datas @ [content]))"
  using assms by (auto simp: quiet_def data_frame_def process_defs filling_def update_last_stream_id_def)

lemma filling_stream [simp]: "ctx_streams (filling c i e f bs ds) i \<noteq> None"
  by (simp add: filling_def)

lemma loop_step_if:
  assumes "reader_ready (h2_alloc env) (h2_io env) incoming outgoing reader"
    and "frame_ok n frame" "n < 2 ^ 24" "n \<le> unat (set_max_frame_size (ctx_settings c))"
    and "pending incoming reader = serialize_raw_header ord (frame_header frame) @ frame_payload frame @ rest"
    and "quiet env c frame (if fin then Http2ProcessFrameResultTypeNewFinishedRequest i else Http2ProcessFrameResultTypeOk)
      (filling c0 i e f bs ds)"
  obtains reader' where "reader_ready (h2_alloc env) (h2_io env) incoming outgoing reader'" "pending incoming reader' = rest"
    "http2_request_loop env c reader =
      (if fin then Some (Ok (RequestFinished i, filling c0 i e f bs ds), reader')
       else http2_request_loop env (filling c0 i e f bs ds) reader')"
  using loop_step [OF assms] that by (cases fin) auto

lemma continuations_arrive:
  assumes push: "\<forall>n. h2_push env n" and i: "i \<noteq> 0"
    and n: "n < 2 ^ 24" "n \<le> unat (set_max_frame_size (ctx_settings c))"
  shows "reader_ready (h2_alloc env) (h2_io env) incoming outgoing reader \<Longrightarrow> blocks' \<noteq> [] \<Longrightarrow>
    \<forall>b \<in> set blocks'. b \<noteq> [] \<and> length b \<le> n \<Longrightarrow>
    pending incoming reader = wire ord (last_marked (continuation_frame i) blocks') @ rest \<Longrightarrow>
    \<exists>reader'. reader_ready (h2_alloc env) (h2_io env) incoming outgoing reader' \<and> pending incoming reader' = rest \<and>
      http2_request_loop env (filling c i end_stream False blocks []) reader =
        (if end_stream then Some (Ok (RequestFinished i, filling c i True True (blocks @ blocks') []), reader')
         else http2_request_loop env (filling c i False True (blocks @ blocks') []) reader')"
proof (induction blocks' arbitrary: blocks reader)
  case (Cons b bs)
  let ?c = "filling c i end_stream False blocks []"
  have ok: "frame_ok n (continuation_frame i b (bs = []))" "n \<le> unat (set_max_frame_size (ctx_settings ?c))"
    using Cons.prems(3) i n(2) by (simp_all add: continuation_frame_def)
  have b: "b \<noteq> []" using Cons.prems(3) by simp
  have pend: "pending incoming reader = serialize_raw_header ord (frame_header (continuation_frame i b (bs = []))) @
      frame_payload (continuation_frame i b (bs = [])) @ (wire ord (last_marked (continuation_frame i) bs) @ rest)"
    using Cons.prems(4) by simp
  from loop_step_if [OF Cons.prems(1) ok(1) n(1) ok(2) pend quiet_continuation [OF push b]]
  obtain r where r: "reader_ready (h2_alloc env) (h2_io env) incoming outgoing r"
    "pending incoming r = wire ord (last_marked (continuation_frame i) bs) @ rest"
    "http2_request_loop env ?c reader =
       (if end_stream \<and> bs = [] then Some (Ok (RequestFinished i, filling c i end_stream (bs = []) (blocks @ [b]) []), r)
        else http2_request_loop env (filling c i end_stream (bs = []) (blocks @ [b]) []) r)"
    by blast
  show ?case
  proof (cases "bs = []")
    case True
    with r show ?thesis by auto
  next
    case False
    with r Cons.IH [OF r(1) False _ r(2), of "blocks @ [b]"] Cons.prems(3) show ?thesis by (cases end_stream) simp_all
  qed
qed simp

lemma headers_arrive:
  assumes fresh: "ctx_streams c i = None" "h2_insert env i" and push: "\<forall>n. h2_push env n" and i: "i \<noteq> 0"
    and n: "n < 2 ^ 24" "n \<le> unat (set_max_frame_size (ctx_settings c))"
    and ready: "reader_ready (h2_alloc env) (h2_io env) incoming outgoing reader"
    and blocks: "blocks \<noteq> []" "\<forall>b \<in> set blocks. b \<noteq> [] \<and> length b \<le> n"
    and pend: "pending incoming reader = wire ord (header_frames i end_stream blocks) @ rest"
  shows "\<exists>reader'. reader_ready (h2_alloc env) (h2_io env) incoming outgoing reader' \<and> pending incoming reader' = rest \<and>
      http2_request_loop env c reader =
        (if end_stream then Some (Ok (RequestFinished i, filling c i True True blocks []), reader')
         else http2_request_loop env (filling c i False True blocks []) reader')"
proof (cases blocks)
  case (Cons b bs)
  let ?f = "headers_frame i end_stream b (bs = [])"
  have ok: "frame_ok n ?f" using blocks(2) i by (simp add: Cons headers_frame_def)
  have "pending incoming reader = serialize_raw_header ord (frame_header ?f) @ frame_payload ?f @
      (wire ord (last_marked (continuation_frame i) bs) @ rest)"
    using pend by (simp add: Cons header_frames_def)
  from loop_step_if [OF ready ok n this quiet_headers [OF fresh push]]
  obtain r where r: "reader_ready (h2_alloc env) (h2_io env) incoming outgoing r"
    "pending incoming r = wire ord (last_marked (continuation_frame i) bs) @ rest"
    "http2_request_loop env c reader =
       (if end_stream \<and> bs = [] then Some (Ok (RequestFinished i, filling c i end_stream (bs = []) [b] []), r)
        else http2_request_loop env (filling c i end_stream (bs = []) [b] []) r)"
    by blast
  show ?thesis
  proof (cases "bs = []")
    case True
    with r show ?thesis by (auto simp: Cons)
  next
    case False
    with r continuations_arrive [OF push i n r(1) False _ r(2), where blocks = "[b]" and end_stream = end_stream] blocks(2)
    show ?thesis by (cases end_stream) (simp_all add: Cons)
  qed
qed (use blocks in simp)

lemma data_arrive:
  assumes push: "\<forall>n. h2_push env n" and i: "i \<noteq> 0"
    and n: "n < 2 ^ 24" "n \<le> unat (set_max_frame_size (ctx_settings c))"
  shows "reader_ready (h2_alloc env) (h2_io env) incoming outgoing reader \<Longrightarrow> datas' \<noteq> [] \<Longrightarrow>
    \<forall>b \<in> set datas'. length b \<le> n \<Longrightarrow>
    pending incoming reader = wire ord (data_frames i datas') @ rest \<Longrightarrow>
    \<exists>reader'. reader_ready (h2_alloc env) (h2_io env) incoming outgoing reader' \<and> pending incoming reader' = rest \<and>
      http2_request_loop env (filling c i False True blocks datas) reader =
        Some (Ok (RequestFinished i, filling c i True True blocks (datas @ datas')), reader')"
proof (induction datas' arbitrary: datas reader)
  case (Cons b bs)
  let ?c = "filling c i False True blocks datas" and ?f = "data_frame i b (bs = [])"
  have ok: "frame_ok n ?f" "n \<le> unat (set_max_frame_size (ctx_settings ?c))"
    using Cons.prems(3) i n(2) by (simp_all add: data_frame_def)
  have pend: "pending incoming reader = serialize_raw_header ord (frame_header ?f) @ frame_payload ?f @
      (wire ord (data_frames i bs) @ rest)"
    using Cons.prems(4) by (simp add: data_frames_def)
  from loop_step_if [OF Cons.prems(1) ok(1) n(1) ok(2) pend quiet_data [OF push]]
  obtain r where r: "reader_ready (h2_alloc env) (h2_io env) incoming outgoing r"
    "pending incoming r = wire ord (data_frames i bs) @ rest"
    "http2_request_loop env ?c reader =
       (if bs = [] then Some (Ok (RequestFinished i, filling c i (bs = []) True blocks (datas @ [b])), r)
        else http2_request_loop env (filling c i (bs = []) True blocks (datas @ [b])) r)"
    by blast
  show ?case
  proof (cases "bs = []")
    case True
    with r show ?thesis by (auto simp: data_frames_def)
  next
    case False
    with r Cons.IH [OF r(1) False _ r(2), of "datas @ [b]"] Cons.prems(3) show ?thesis by simp
  qed
qed simp

section \<open>Collecting the blocks\<close>

lemma copy_blocks_filled:
  "filled buf done \<Longrightarrow> length (done @ concat bs) = length buf \<Longrightarrow>
   \<exists>buf'. copy_blocks buf (length done) bs = (Ok buf' :: (unit, membuf) res) \<and> length buf' = length buf \<and>
     filled buf' (done @ concat bs)"
proof (induction bs arbitrary: buf "done")
  case (Cons b bs)
  obtain buf1 where "memcpy_cells buf (length done) b = (Ok buf1 :: (unit, membuf) res)" "length buf1 = length buf"
    "filled buf1 (done @ b)"
    using filled_memcpy [OF Cons.prems(1), of b] Cons.prems(2) by auto
  with Cons.IH [of buf1 "done @ b"] Cons.prems(2) show ?case by simp
qed simp

lemma sum_sizes: "acc + length (concat bs) < 2 ^ 64 \<Longrightarrow> foldl (\<lambda>acc b. size_add acc (length b)) acc bs = acc + length (concat bs)"
proof (induction bs arbitrary: acc)
  case (Cons b bs)
  then have "size_add acc (length b) = acc + length b" by (intro size_simps) simp
  with Cons show ?case by simp
qed simp

lemma concat_data_blocks:
  assumes "length (concat bs) < 2 ^ 64" "\<forall>n. h2_alloc env n"
  shows "http2_concat_data_blocks env bs = Ok (concat bs)"
proof -
  obtain buf where "copy_blocks (replicate (length (concat bs)) None) 0 bs = (Ok buf :: (unit, membuf) res)"
    "length buf = length (concat bs)" "filled buf (concat bs)"
    using copy_blocks_filled [of "replicate (length (concat bs)) None" "[]" bs] by auto
  moreover from this read_block_filled [of buf "concat bs"] have "read_block buf = (Ok (concat bs) :: (unit, bytes) res)"
    by simp
  moreover have "foldl (\<lambda>acc b. size_add acc (length b)) 0 bs = length (concat bs)"
    using sum_sizes [of 0 bs] assms(1) by simp
  ultimately show ?thesis using assms(2) by (auto simp: http2_concat_data_blocks_def Let_def)
qed

section \<open>Whole messages\<close>

text \<open>
  What \<open>send.c\<close> sends for a response; the body is \<open>None\<close> where its data is the null pointer. The settings are
  those of the context, which the function does not change.
\<close>

record Http2Response =
  r2_hpack_encoded_headers :: bytes
  r2_body :: "bytes option"
  r2_stream_identifier :: Http2Identifier

definition send_http2_response_to_connection ::
  "'d h2_env \<Rightarrow> Http2Response \<Rightarrow> HTTP2Context \<Rightarrow> 'd ConnectionDescriptor
     \<Rightarrow> ((unit, unit) res \<times> 'd ConnectionDescriptor) option" where
  "send_http2_response_to_connection env response context d =
     (let headers_are_end_stream = (r2_body response = None) in
      case http2_send_headers env (r2_stream_identifier response) (ctx_settings context)
             (r2_hpack_encoded_headers response) headers_are_end_stream d of
        None \<Rightarrow> None
      | Some (Ok _, d') \<Rightarrow>
          (case r2_body response of
             None \<Rightarrow> Some (Ok (), d')
           | Some body \<Rightarrow> http2_send_data env (r2_stream_identifier response) (ctx_settings context) body d')
      | Some (Err e, d') \<Rightarrow> Some (Err e, d')
      | Some (Undef u, d') \<Rightarrow> Some (Undef u, d'))"

definition response_frames :: "Http2Settings \<Rightarrow> Http2Response \<Rightarrow> Http2Frame list" where
  "response_frames settings r =
     header_frames (r2_stream_identifier r) (r2_body r = None)
       (fragments (unat (set_max_frame_size settings) - 6) (r2_hpack_encoded_headers r)) @
     data_frames (r2_stream_identifier r)
       (case r2_body r of None \<Rightarrow> [] | Some body \<Rightarrow> fragments (unat (set_max_frame_size settings)) body)"

definition frame_size_ok :: "Http2Settings \<Rightarrow> bool" where
  "frame_size_ok settings \<longleftrightarrow> 6 < unat (set_max_frame_size settings) \<and> unat (set_max_frame_size settings) < 2 ^ 24"

lemma send_response_wire:
  assumes rel: "reliable_io (h2_io env) incoming outgoing" and alloc: "\<forall>n. h2_alloc env n"
    and i: "r2_stream_identifier r \<noteq> 0" and size: "frame_size_ok (ctx_settings c)" and "r2_hpack_encoded_headers r \<noteq> []"
  shows "\<exists>d'. send_http2_response_to_connection env r c d = Some (Ok (), d') \<and>
    outgoing (channel d') = outgoing (channel d) @ wire (h2_order env) (response_frames (ctx_settings c) r)"
proof -
  let ?n = "unat (set_max_frame_size (ctx_settings c))"
  have n: "0 < ?n - 6" "?n - 6 < 2 ^ 24" "0 < ?n" "?n < 2 ^ 24" "6 < ?n" using size by (auto simp: frame_size_ok_def)
  from send_headers_wire [OF rel alloc i n(1,2) assms(5)] obtain d1 where
    d1: "send_headers_loop env (r2_stream_identifier r) (?n - 6) (r2_hpack_encoded_headers r) (r2_body r = None) 0 d = Some (Ok (), d1)"
    "outgoing (channel d1) = outgoing (channel d) @ wire (h2_order env) (header_frames (r2_stream_identifier r)
      (r2_body r = None) (fragments (?n - 6) (r2_hpack_encoded_headers r)))" by blast
  have "http2_send_headers env (r2_stream_identifier r) (ctx_settings c) (r2_hpack_encoded_headers r) (r2_body r = None) d =
      Some (Ok (), d1)"
    using d1(1) n(5) by (simp add: http2_send_headers_def get_max_headers_or_continuation_contentsize_def check_assert_def)
  then have sent: "send_http2_response_to_connection env r c d =
      (case r2_body r of None \<Rightarrow> Some (Ok (), d1)
       | Some body \<Rightarrow> http2_send_data env (r2_stream_identifier r) (ctx_settings c) body d1)"
    by (simp add: send_http2_response_to_connection_def)
  show ?thesis
  proof (cases "r2_body r")
    case None
    with sent d1(2) show ?thesis by (simp add: response_frames_def data_frames_def)
  next
    case (Some body)
    obtain d2 where "send_data_loop env (r2_stream_identifier r) ?n body 0 d1 = Some (Ok (), d2)"
      "outgoing (channel d2) = outgoing (channel d1) @ wire (h2_order env) (data_frames (r2_stream_identifier r) (fragments ?n body))"
      using send_data_loop_wire [OF rel alloc i n(3,4), of 0 body d1] by auto
    with Some sent d1(2) show ?thesis
      by (simp add: response_frames_def http2_send_data_def get_max_data_content_size_def)
  qed
qed

text \<open>The receiver has the whole message: the header block and the body are those that were sent.\<close>

lemma response_arrives:
  assumes "ctx_streams c i = None" "h2_insert env i" and push: "\<forall>n. h2_push env n" and i: "i \<noteq> 0"
    and size: "frame_size_ok settings" "unat (set_max_frame_size settings) \<le> unat (set_max_frame_size (ctx_settings c))"
    and ready: "reader_ready (h2_alloc env) (h2_io env) incoming outgoing reader"
    and r: "r2_hpack_encoded_headers r \<noteq> []" "r2_body r \<noteq> Some []" "r2_stream_identifier r = i"
    and pend: "pending incoming reader = wire ord (response_frames settings r) @ rest"
  shows "\<exists>reader' blocks datas. http2_request_loop env c reader = Some (Ok (RequestFinished i, filling c i True True blocks datas), reader') \<and>
    pending incoming reader' = rest \<and> concat blocks = r2_hpack_encoded_headers r \<and> concat datas = (case r2_body r of None \<Rightarrow> [] | Some b \<Rightarrow> b)"
proof -
  let ?n = "unat (set_max_frame_size settings)"
  let ?blocks = "fragments (?n - 6) (r2_hpack_encoded_headers r)"
  let ?datas = "case r2_body r of None \<Rightarrow> [] | Some body \<Rightarrow> fragments ?n body"
  have n: "0 < ?n - 6" "0 < ?n" "?n < 2 ^ 24" "?n \<le> unat (set_max_frame_size (ctx_settings c))"
    using size by (auto simp: frame_size_ok_def)
  have blocks: "?blocks \<noteq> []" "\<forall>b \<in> set ?blocks. b \<noteq> [] \<and> length b \<le> ?n"
    using r(1) n(1) fragments_bounds [of _ "?n - 6"] by fastforce+
  have pend': "pending incoming reader = wire ord (header_frames i (r2_body r = None) ?blocks) @
      (wire ord (data_frames i ?datas) @ rest)"
    using pend r(3) by (simp add: response_frames_def)
  obtain reader1 where r1: "reader_ready (h2_alloc env) (h2_io env) incoming outgoing reader1"
    "pending incoming reader1 = wire ord (data_frames i ?datas) @ rest"
    "http2_request_loop env c reader =
        (if r2_body r = None then Some (Ok (RequestFinished i, filling c i True True ?blocks []), reader1)
         else http2_request_loop env (filling c i False True ?blocks []) reader1)"
    using headers_arrive [OF assms(1,2) push i n(3,4) ready blocks pend'] by blast
  have cat: "concat ?blocks = r2_hpack_encoded_headers r" using n(1) by (rule concat_fragments)
  show ?thesis
  proof (cases "r2_body r")
    case None
    with r1 cat show ?thesis
      by (intro exI [of _ reader1] exI [of _ ?blocks] exI [of _ "[]"]) (simp add: data_frames_def)
  next
    case (Some body)
    have "?datas \<noteq> []" "\<forall>b \<in> set ?datas. length b \<le> ?n"
      using Some r(2) n(2) by (auto dest: fragments_bounds)
    from data_arrive [OF push i n(3,4) r1(1) this r1(2), of ?blocks "[]"] obtain reader2 where
      "pending incoming reader2 = rest" "http2_request_loop env (filling c i False True ?blocks []) reader1 =
        Some (Ok (RequestFinished i, filling c i True True ?blocks ?datas), reader2)" by auto
    with r1(3) Some cat show ?thesis
      by (intro exI [of _ reader2] exI [of _ ?blocks] exI [of _ ?datas]) (simp add: concat_fragments [OF n(2)])
  qed
qed

lemma filling_hpack [simp]: "cs_hpack_state (ctx_state (filling c i e f bs ds)) = cs_hpack_state (ctx_state c)"
  by (simp add: filling_def update_last_stream_id_def)

lemma filling_get: "get_http2_stream (filling c i e True bs ds) i =
  Some \<lparr>st_state = (if e then Http2StreamStateHalfClosed else Http2StreamStateOpen),
        st_headers = \<lparr>sh_finished = True, sh_header_blocks = bs\<rparr>,
        st_content = \<lparr>sc_finished = False, sc_data_blocks = ds\<rparr>, st_end_stream = e, st_priority = DEFAULT_STREAM_PRIORITY\<rparr>"
  by (simp add: filling_def get_http2_stream_def)

text \<open>What the pseudo headers of a request say is in its request line.\<close>

definition line_carries :: "'f http_env \<Rightarrow> HttpHeaderField list \<Rightarrow> HttpRequestLine \<Rightarrow> bool" where
  "line_carries http ps line \<longleftrightarrow>
     (case rl_uri line of
        ParsedURITypeAbsoluteURI uri \<Rightarrow>
          list_all (\<lambda>f.
            (if hf_key f = lit '':method'' then get_http_method_from_string (hf_value f) = Some (rl_method line)
             else if hf_key f = lit '':scheme'' then pu_scheme uri = Some (hf_value f)
             else if hf_key f = lit '':authority''
               then parse_authority (env_uri http) (hf_value f) = Some (pu_authority uri, [])
             else parse_url_path (env_uri http) (hf_value f) = Some (Ok (pu_path uri)))) ps
      | _ \<Rightarrow> False)"

lemma request_from_headers:
  assumes "http2_concat_data_blocks env (sh_header_blocks headers) = Ok block"
    and "http2_hpack_decompress_data hpack dec block = Ok (ps @ fs, dec')" "\<forall>n. lib_push http n" "request_fields http ps fs"
  shows "\<exists>line. parse_http2_headers env hpack http dec headers i =
      Some (Ok \<lparr>rh_request_line = line, rh_header_fields = fs\<rparr>, Some dec') \<and>
    line_carries http ps line \<and> rl_protocol_data line = \<lparr>pd_version = HTTPProtocolVersion2, pd_stream_identifier = i\<rparr>"
proof -
  from headers_loop_complete [OF assms(3), of ps fs] assms(4) obtain h where
    h: "headers_loop http (ps @ fs) empty_head = Some (Ok h)" "head_inv http ps fs h" by (auto simp: request_fields_def)
  have needed: "hd_found h AND 0x0B = 0x0B" "hd_fields h = fs"
    using needed_keys h(2) assms(4) by (auto simp: head_inv_def request_fields_def)
  have "head_matches http f h" "pseudo_bit (hf_key f) \<noteq> None" if "f \<in> set ps" for f
    using h(2) that by (auto simp: head_inv_def)
  then have "line_carries http ps (rh_request_line (request_head h i))"
    by (auto simp: line_carries_def request_head_def list_all_iff head_matches_def elim: pseudo_bit_cases)
  with h(1) needed assms(1,2) show ?thesis by (simp add: parse_http2_headers_def request_head_def)
qed

lemma length_last_marked:
  "(\<And>b e. length b \<le> length (frame_payload (f b e))) \<Longrightarrow> length (concat bs) \<le> length (wire ord (last_marked f bs))"
proof (induction bs)
  case (Cons b bs)
  then have "length (concat bs) \<le> length (wire ord (last_marked f bs))"
    and "length b \<le> length (frame_payload (f b (bs = [])))" by blast+
  then show ?case by simp
qed simp

lemma length_response:
  "length (concat bs) \<le> length (wire ord (header_frames i e bs))" "length (concat bs) \<le> length (wire ord (data_frames i bs))"
proof -
  have pay: "length b \<le> length (frame_payload (continuation_frame i b e))" "length b \<le> length (frame_payload (data_frame i b e))"
    "length b \<le> length (frame_payload (headers_frame i e' b e))" for b e e'
    by (simp_all add: continuation_frame_def data_frame_def headers_frame_def)
  show "length (concat bs) \<le> length (wire ord (data_frames i bs))"
    unfolding data_frames_def by (rule length_last_marked) (rule pay(2))
  show "length (concat bs) \<le> length (wire ord (header_frames i e bs))"
  proof (cases bs)
    case (Cons b bs')
    have "length (concat bs') \<le> length (wire ord (last_marked (continuation_frame i) bs'))"
      by (rule length_last_marked) (rule pay(1))
    with pay(3) [where b = b and e = "bs' = []" and e' = e] show ?thesis by (simp add: Cons header_frames_def)
  qed (simp add: header_frames_def)
qed

lemma response_small:
  assumes "reader_ready alloc io incoming outgoing reader" "pending incoming reader = wire ord (response_frames settings r) @ rest"
    and "frame_size_ok settings"
  shows "length (r2_hpack_encoded_headers r) < 2 ^ 64" "length (case r2_body r of None \<Rightarrow> [] | Some b \<Rightarrow> b) < 2 ^ 64"
proof -
  let ?n = "unat (set_max_frame_size settings)"
  have n: "0 < ?n - 6" "0 < ?n" using assms(3) by (auto simp: frame_size_ok_def)
  have "length (pending incoming reader) < 2 ^ 63" using assms(1) by (auto simp: reader_ready_def pending_def)
  then have all: "length (wire ord (response_frames settings r)) < 2 ^ 63" using assms(2) by simp
  have "length (concat (fragments (?n - 6) (r2_hpack_encoded_headers r))) < 2 ^ 63"
    using all length_response(1) [of "fragments (?n - 6) (r2_hpack_encoded_headers r)" ord "r2_stream_identifier r"
        "r2_body r = None"] by (simp add: response_frames_def)
  then show "length (r2_hpack_encoded_headers r) < 2 ^ 64" by (simp add: concat_fragments [OF n(1)])
  have "length (concat (case r2_body r of None \<Rightarrow> [] | Some b \<Rightarrow> fragments ?n b)) < 2 ^ 63"
    using all length_response(2) [of "case r2_body r of None \<Rightarrow> [] | Some b \<Rightarrow> fragments ?n b" ord "r2_stream_identifier r"]
    by (simp add: response_frames_def)
  then show "length (case r2_body r of None \<Rightarrow> [] | Some b \<Rightarrow> b) < 2 ^ 64"
    by (cases "r2_body r") (simp_all add: concat_fragments [OF n(2)])
qed


text \<open>A request in memory: two frames, both connections move at most three bytes at a time.\<close>

definition example_options :: Http2HpackCompressOptions where
  "example_options =
     \<lparr>huffman_usage = Http2HpackHuffmanUsageNever, compress_type = Http2HpackCompressTypeAllTablesUsage,
      table_add_type = Http2HpackTableAddTypeAll\<rparr>"

lemma example_found:
  "hpack_generated_find_in_static_table_fast \<lparr>hf_key = lit '':method'', hf_value = lit ''GET''\<rparr> = StaticAllFound 2"
  "hpack_generated_find_in_static_table_fast \<lparr>hf_key = lit '':scheme'', hf_value = lit ''http''\<rparr> = StaticAllFound 6"
  "hpack_generated_find_in_static_table_fast \<lparr>hf_key = lit '':path'', hf_value = lit ''/''\<rparr> = StaticAllFound 4"
proof -
  have lit: "lit '':method'' = str_bytes '':method''" "lit ''GET'' = str_bytes ''GET''" "lit '':scheme'' = str_bytes '':scheme''"
    "lit ''http'' = str_bytes ''http''" "lit '':path'' = str_bytes '':path''" "lit ''/'' = str_bytes ''/''"
    by (simp_all add: lit_def str_bytes_def)
  show "hpack_generated_find_in_static_table_fast \<lparr>hf_key = lit '':method'', hf_value = lit ''GET''\<rparr> = StaticAllFound 2"
    "hpack_generated_find_in_static_table_fast \<lparr>hf_key = lit '':scheme'', hf_value = lit ''http''\<rparr> = StaticAllFound 6"
    "hpack_generated_find_in_static_table_fast \<lparr>hf_key = lit '':path'', hf_value = lit ''/''\<rparr> = StaticAllFound 4"
    by (simp_all add: hpack_generated_find_in_static_table_fast_def static_rows_def get_hpack_static_header_table_entries_def
      rawHeaderTable_def lit)
qed

lemma example_compressed:
  "http2_hpack_compress_data (server_env (\<lambda>_. True) (\<lambda>_. True) True) (get_default_hpack_dynamic_table_state 4096)
     example_fields example_options = Ok (Some [0x82, 0x86, 0x84], get_default_hpack_dynamic_table_state 4096)"
proof -
  let ?env = "server_env (\<lambda>_. True) (\<lambda>_. True) True"
  have coded: "encode_single_header_field_extended_with_entry_from_table ?env i = Ok (int_bytes 0x80 7 i)"
    if "0 < i" "i < 10" for i
    using server.indexed_correct [of i] that by simp
  have ints: "int_bytes 0x80 7 2 = [0x82]" "int_bytes 0x80 7 6 = [0x86]" "int_bytes 0x80 7 4 = [0x84]"
    by code_simp+
  show ?thesis
    by (simp add: http2_hpack_compress_data_def example_options_def example_fields_def http2_hpack_compress_data_extended_def
        encode_single_header_field_extended_def find_in_tables_def example_found keep_state_def
        coded ints append_result_def)
qed

lemma example_headers_wire:
  "serialize_raw_header LITTLE_ENDIAN (frame_header (headers_frame 1 False [0x82, 0x86, 0x84] True)) = [0, 0, 3, 1, 4, 0, 0, 0, 1]"
  "serialize_raw_header LITTLE_ENDIAN (frame_header (data_frame 1 [7] True)) = [0, 0, 1, 0, 1, 0, 0, 0, 1]"
  "serialize_raw_header LITTLE_ENDIAN (frame_header (headers_frame 1 False [0x40, 1, 0x78, 1, 0x79] True)) =
    [0, 0, 5, 1, 4, 0, 0, 0, 1]"
  "serialize_raw_header LITTLE_ENDIAN (frame_header (headers_frame 3 True [0xBE] True)) =
    [0, 0, 1, 1, 5, 0, 0, 0, 3]"
proof -
  have "serialize_raw_header LITTLE_ENDIAN \<lparr>rh_length = 3, rh_type = 1, rh_flags = 4, rh_stream_identifier = 1\<rparr> =
      [0, 0, 3, 1, 4, 0, 0, 0, 1]" by code_simp
  then show "serialize_raw_header LITTLE_ENDIAN (frame_header (headers_frame 1 False [0x82, 0x86, 0x84] True)) =
      [0, 0, 3, 1, 4, 0, 0, 0, 1]" by (simp add: headers_frame_def)
  have "serialize_raw_header LITTLE_ENDIAN \<lparr>rh_length = 1, rh_type = 0, rh_flags = 1, rh_stream_identifier = 1\<rparr> =
      [0, 0, 1, 0, 1, 0, 0, 0, 1]" by code_simp
  then show "serialize_raw_header LITTLE_ENDIAN (frame_header (data_frame 1 [7] True)) = [0, 0, 1, 0, 1, 0, 0, 0, 1]"
    by (simp add: data_frame_def)
  have "serialize_raw_header LITTLE_ENDIAN \<lparr>rh_length = 5, rh_type = 1, rh_flags = 4, rh_stream_identifier = 1\<rparr> =
      [0, 0, 5, 1, 4, 0, 0, 0, 1]" by code_simp
  then show "serialize_raw_header LITTLE_ENDIAN (frame_header (headers_frame 1 False [0x40, 1, 0x78, 1, 0x79] True)) =
      [0, 0, 5, 1, 4, 0, 0, 0, 1]" by (simp add: headers_frame_def)
  have "serialize_raw_header LITTLE_ENDIAN \<lparr>rh_length = 1, rh_type = 1, rh_flags = 5, rh_stream_identifier = 3\<rparr> =
      [0, 0, 1, 1, 5, 0, 0, 0, 3]" by code_simp
  then show "serialize_raw_header LITTLE_ENDIAN (frame_header (headers_frame 3 True [0xBE] True)) =
      [0, 0, 1, 1, 5, 0, 0, 0, 3]" by (simp add: headers_frame_def)
qed

lemma example_frames:
  "wire LITTLE_ENDIAN (response_frames (ctx_settings (http2_default_context (\<lambda>_. True)))
     \<lparr>r2_hpack_encoded_headers = [0x82, 0x86, 0x84], r2_body = Some [7], r2_stream_identifier = 1\<rparr>) =
   [0, 0, 3, 1, 4, 0, 0, 0, 1, 0x82, 0x86, 0x84, 0, 0, 1, 0, 1, 0, 0, 0, 1, 7]"
proof -
  have "frame_payload (headers_frame 1 False [0x82, 0x86, 0x84] True) = [0x82, 0x86, 0x84]" "frame_payload (data_frame 1 [7] True) = [7]"
    by (simp_all add: headers_frame_def data_frame_def)
  then show ?thesis
    using example_headers_wire(1,2) by (simp add: response_frames_def header_frames_def data_frames_def fragments_Cons)
qed

lemma default_context_tables:
  "hs_decompress_state (cs_hpack_state (ctx_state (http2_default_context (\<lambda>_. True)))) =
     Some (get_default_hpack_dynamic_table_state 4096)"
  by (simp add: http2_default_context_def get_default_hpack_state_def get_default_hpack_decompress_state_def
      http2_default_context_state_def)


text \<open>
  Header blocks are decompressed when their stream ends, not when they arrive. Where the block of a
  request that still waits for its body adds an entry that the block of a second, complete request refers to,
  the second request is refused, although the blocks are correct in the order in which they were sent.
\<close>

theorem header_blocks_out_of_order:
  assumes "reader_ready (h2_alloc env) (h2_io env) incoming outgoing reader" "\<forall>n. h2_push env n" "\<forall>k. h2_insert env k"
    and "i \<noteq> 0" "j \<noteq> 0" "i \<noteq> j" "ctx_streams c i = None" "ctx_streams c j = None"
    and "length b1 \<le> n" "length b2 \<le> n" "n < 2 ^ 24" "n \<le> unat (set_max_frame_size (ctx_settings c))"
    and "pending incoming reader = wire ord [headers_frame i False b1 True, headers_frame j True b2 True] @ rest"
    and "hs_decompress_state (cs_hpack_state (ctx_state c)) = Some d"
    and "http2_hpack_decompress_data hpack (Some d) b1 = Ok (hs1, d1)" "http2_hpack_decompress_data hpack (Some d1) b2 = Ok (hs2, d2)"
    and "http2_hpack_decompress_data hpack (Some d) b2 = Err (e, d')"
  shows "\<exists>error c' reader'. parse_http2_request env hpack http c reader =
    Some (Ok (HttpRequestResultTypeError error, c'), reader') \<and> hs_decompress_state (cs_hpack_state (ctx_state c')) = d'"
proof -
  let ?f1 = "headers_frame i False b1 True" and ?f2 = "headers_frame j True b2 True"
  let ?c1 = "filling c i False True [b1] []" and ?c2 = "filling (filling c i False True [b1] []) j True True [b2] []"
  have ok: "frame_ok n ?f1" "frame_ok n ?f2" using assms(4,5,9,10) by (simp_all add: headers_frame_def)
  have p1: "pending incoming reader = serialize_raw_header ord (frame_header ?f1) @ frame_payload ?f1 @ (wire ord [?f2] @ rest)"
    using assms(13) by simp
  have insert: "h2_insert env i" "h2_insert env j" using assms(3) by simp_all
  have fresh: "ctx_streams ?c1 j = None" using assms(6,8) by (simp add: filling_def update_last_stream_id_def)
  obtain r1 where r1: "reader_ready (h2_alloc env) (h2_io env) incoming outgoing r1" "pending incoming r1 = wire ord [?f2] @ rest"
    "http2_request_loop env c reader = http2_request_loop env ?c1 r1"
    using loop_step_if [OF assms(1) ok(1) assms(11,12) p1 quiet_headers [OF assms(7) insert(1) assms(2)]] by auto
  have p2: "pending incoming r1 = serialize_raw_header ord (frame_header ?f2) @ frame_payload ?f2 @ rest" using r1(2) by simp
  have size: "n \<le> unat (set_max_frame_size (ctx_settings ?c1))" using assms(12) by simp
  obtain r2 where r2: "http2_request_loop env ?c1 r1 = Some (Ok (RequestFinished j, ?c2), r2)"
    using loop_step_if [OF r1(1) ok(2) assms(11) size p2 quiet_headers [OF fresh insert(2) assms(2)]] by auto
  have "length b2 < 2 ^ 64" using assms(10,11) by simp
  then have block: "http2_concat_data_blocks env [b2] = Ok b2"
    using concat_data_blocks [of "[b2]" env] assms(1) by (auto simp: reader_ready_def)
  then show ?thesis
    using r1(3) r2 filling_get [of ?c1 j True "[b2]" "[]"] assms(14,17)
    by (simp add: parse_http2_request_def get_http2_request_from_finished_stream_def parse_http2_headers_def)
qed

text \<open>The first block adds the field x: y, the second one refers to it by its index 62.\<close>

lemma added_field_decodes:
  defines "f \<equiv> \<lparr>hf_key = [0x78], hf_value = [0x79]\<rparr>"
  shows "\<exists>d1. http2_hpack_decompress_data (server_env (\<lambda>_. True) (\<lambda>_. True) True)
      (Some (get_default_hpack_dynamic_table_state 4096)) [0x40, 1, 0x78, 1, 0x79] = Ok ([f], d1) \<and>
    http2_hpack_decompress_data (server_env (\<lambda>_. True) (\<lambda>_. True) True) (Some d1) [0xBE] = Ok ([f], d1)"
proof -
  let ?env = "server_env (\<lambda>_. True) (\<lambda>_. True) True" and ?t = "get_default_hpack_dynamic_table_state 4096"
  have inv: "state_inv ?t" "state_view ?t = ([], 4096)"
    using state_inv_fresh [of 4096] by (simp_all add: state_view_def get_default_hpack_dynamic_table_state_def)
  obtain d1 where d1: "insert_entry_into_dynamic_table (\<lambda>_. True) ?t (field_entry f) = Ok d1" "state_inv d1"
    "state_view d1 = (spec_insert 4096 (field_entry f) [], 4096)"
    using store.ins_law [OF inv(1), of "field_entry f" "\<lambda>_. True"] inv(2)
    by (auto simp: f_def field_entry_def entry_bytes_def tstr_len_def)
  have "evict_list n [] = []" for n by (subst evict_list.simps) simp
  with d1 have table: "abs_table (dynamic_table d1) = [field_entry f]" "table_inv (dynamic_table d1)" "table_inv (dynamic_table ?t)"
    using inv(1) by (simp_all add: state_view_def spec_insert_def f_def field_entry_def entry_bytes_def tstr_len_def state_inv_def
        state_counts_def)
  have b1: "literal_hi True # string_bytes False (hf_key f) @ string_bytes False (hf_value f) = [0x40, 1, 0x78, 1, 0x79]"
    by (simp add: f_def string_bytes_def literal_hi_def int_bytes_def)
  have dec: "field_decodable True f" using field_good_short [of f True] by (simp add: f_def field_good_def str_bytes_def)
  have "decompress_step ?env [0x40, 1, 0x78, 1, 0x79] 0 [] ?t = Ok (5, [f], d1)"
    using decompress_step_repr [OF table(3) field_repr.key_string [of _ f True False] dec, of "[]" d1 "[]" "[]"] b1 d1(1)
    by (simp add: apply_insertion_def f_def string_bytes_def int_bytes_def)
  moreover have "int_bytes 0x80 7 62 = [0xBE]" by code_simp
  moreover have "table_entry (abs_table (dynamic_table d1)) 62 = Some (field_entry f)" 
    by (simp add: table_entry_def table(1) length_static_table nth_append HPACK_STATIC_HEADER_TABLE_SIZE_def)
  ultimately show ?thesis
    using decompress_step_indexed [OF table(2), of 62 f True "[]" "[]" "[]"]
    by (simp add: http2_hpack_decompress_data_def http2_hpack_decompress_data_impl_def decompress_loop_unfold)
qed

theorem header_blocks_out_of_order_witness:
  "\<exists>error c' reader'. parse_http2_request (pipe_env 2) (server_env (\<lambda>_. True) (\<lambda>_. True) True) thousandths_env
      (http2_default_context (\<lambda>_. True))
      (pipe_reader ([0, 0, 5, 1, 4, 0, 0, 0, 1, 0x40, 1, 0x78, 1, 0x79] @ [0, 0, 1, 1, 5, 0, 0, 0, 3, 0xBE])) =
    Some (Ok (HttpRequestResultTypeError error, c'), reader')"
proof -
  let ?hpack = "server_env (\<lambda>_. True) (\<lambda>_. True) True" and ?t = "get_default_hpack_dynamic_table_state 4096"
  let ?b1 = "[0x40, 1, 0x78, 1, 0x79] :: bytes" and ?b2 = "[0xBE] :: bytes"
  let ?c = "http2_default_context (\<lambda>_. True)"
  let ?r = "pipe_reader ([0, 0, 5, 1, 4, 0, 0, 0, 1, 0x40, 1, 0x78, 1, 0x79] @ [0, 0, 1, 1, 5, 0, 0, 0, 3, 0xBE])"
  have "frame_payload (headers_frame 1 False ?b1 True) = ?b1" "frame_payload (headers_frame 3 True ?b2 True) = ?b2"
    by (simp_all add: headers_frame_def)
  then have pend: "pending pipe_in ?r = wire LITTLE_ENDIAN [headers_frame 1 False ?b1 True, headers_frame 3 True ?b2 True] @ []"
    using example_headers_wire(3,4) by simp
  have ready: "reader_ready (h2_alloc (pipe_env 2)) (h2_io (pipe_env 2)) pipe_in pipe_out ?r"
    by (rule pipe_reader_ready) simp
  have side: "\<forall>n. h2_push (pipe_env 2) n" "\<forall>k. h2_insert (pipe_env 2) k" "(1 :: Http2Identifier) \<noteq> 0" "(3 :: Http2Identifier) \<noteq> 0"
    "(1 :: Http2Identifier) \<noteq> 3" "ctx_streams ?c 1 = None" "ctx_streams ?c 3 = None" "length ?b1 \<le> 5" "length ?b2 \<le> 5"
    "(5 :: nat) < 2 ^ 24" "5 \<le> unat (set_max_frame_size (ctx_settings ?c))"
    by simp_all
  obtain f d1 where order: "http2_hpack_decompress_data ?hpack (Some ?t) ?b1 = Ok ([f], d1)"
      "http2_hpack_decompress_data ?hpack (Some d1) ?b2 = Ok ([f], d1)"
    using added_field_decodes by blast
  have "(case http2_hpack_decompress_data ?hpack (Some ?t) ?b2 of Err _ \<Rightarrow> True | _ \<Rightarrow> False)" by code_simp
  then obtain e d' where alone: "http2_hpack_decompress_data ?hpack (Some ?t) ?b2 = Err (e, d')" by (auto split: res.splits)
  from header_blocks_out_of_order [OF ready side pend default_context_tables order alone, of thousandths_env] show ?thesis by blast
qed
end
