(* ===== verification/Http_Send.thy ===== *)
theory Http_Send
  imports Http2_Message
begin

text \<open>
  Responses (\<open>src/src/http/send.c\<close>): the header fields of a response, the response of HTTP/1 as text, the one of
  HTTP/2 as compressed header block, and the sending of both.

  The compression libraries are a parameter, \<open>sd_compress\<close>; so are the version of the program and the port that
  \<open>global_setup_port_data\<close> was called with.
\<close>

section \<open>Data\<close>

text \<open>A body may have a size without data, for a HEAD request to a file: \<open>rb_null_size\<close> is the size when there are no data.\<close>

record HTTPResponseBody =
  rb_content :: SizedBuffer
  rb_null_size :: nat
  rb_send_body_data :: bool

record HTTPResponseToSend =
  ts_status :: nat
  ts_body :: HTTPResponseBody
  ts_mime_type :: tstr
  ts_additional_headers :: "HttpHeaderField list"

record Http1Response =
  h1_protocol_version :: bytes
  h1_status_code_str :: bytes
  h1_status_message :: bytes
  h1_header_fields :: "HttpHeaderField list"
  h1_body :: SizedBuffer

datatype HTTPGeneralContext = HTTPContextTypeV1 | HTTPContextTypeV1Keepalive | HTTPContextTypeV2 HTTP2Context

record send_env =
  sd_compress :: "CompressionType \<Rightarrow> bytes \<Rightarrow> bytes option"
  sd_reserve :: "nat \<Rightarrow> bool"
  sd_version :: bytes
  sd_port :: u16

definition http_response_body_from_data :: "SizedBuffer \<Rightarrow> nat \<Rightarrow> bool \<Rightarrow> HTTPResponseBody" where
  "http_response_body_from_data content content_size send_body =
     \<lparr>rb_content = content, rb_null_size = (if content = None then content_size else 0), rb_send_body_data = send_body\<rparr>"

definition http_response_body_from_string :: "bytes \<Rightarrow> bool \<Rightarrow> HTTPResponseBody" where
  "http_response_body_from_string string send_body = http_response_body_from_data (Some (c_string string)) (length (c_string string)) send_body"

definition http_response_body_empty :: HTTPResponseBody where
  "http_response_body_empty = \<lparr>rb_content = None, rb_null_size = 0, rb_send_body_data = False\<rparr>"

section \<open>Header fields\<close>

text \<open>The array that holds the Alt-Svc value: \<open>snprintf\<close> overwrites its beginning.\<close>

definition g_alt_svc_constant_data :: bytes where
  "g_alt_svc_constant_data = lit ''h2='' @ [0x22, 0, 0, 0, 0, 0, 0x22, 0]"

definition global_setup_port_data :: "u16 \<Rightarrow> bytes" where
  "global_setup_port_data port =
     (let written = lit ''h2='' @ [0x22] @ print_nat (unat port) @ [0x22, 0] in
      written @ drop (length written) g_alt_svc_constant_data)"

fun get_string_for_compress_format :: "CompressionType \<Rightarrow> bytes" where
  "get_string_for_compress_format CompressionTypeNone = lit ''none''"
| "get_string_for_compress_format CompressionTypeGzip = lit ''gzip''"
| "get_string_for_compress_format CompressionTypeDeflate = lit ''deflate''"
| "get_string_for_compress_format CompressionTypeBr = lit ''br''"
| "get_string_for_compress_format CompressionTypeZstd = lit ''zstd''"
| "get_string_for_compress_format CompressionTypeCompress = lit ''compress''"

text \<open>\<open>FORMAT_STRING\<close> with a statement that returns; the length is an \<open>int\<close>.\<close>

definition format_text :: "(nat \<Rightarrow> bool) \<Rightarrow> bytes \<Rightarrow> (unit, bytes) res" where
  "format_text alloc s =
     (if length s \<ge> 2 ^ 31 - 1 then Undef OutOfBounds else if \<not> alloc (length s + 1) then Err () else Ok s)"

fun push_fields :: "'f http_env \<Rightarrow> HttpHeaderField list \<Rightarrow> HttpHeaderField list \<Rightarrow> (unit, HttpHeaderField list) res" where
  "push_fields http fs [] = Ok fs"
| "push_fields http fs (g # gs) = (if lib_push http (length fs) then push_fields http (fs @ [g]) gs else Err ())"

definition construct_http1_headers_for_request ::
  "'d h2_env \<Rightarrow> 'f http_env \<Rightarrow> send_env \<Rightarrow> SendSettings \<Rightarrow> HttpHeaderField list \<Rightarrow> tstr \<Rightarrow> HttpHeaderField list
     \<Rightarrow> CompressionType \<Rightarrow> nat \<Rightarrow> nat \<Rightarrow> (unit, HttpHeaderField list) res" where
  "construct_http1_headers_for_request env http send send_settings fs mime_type additional_headers compression_format
     body_length status =
     (let not_v2 = (pd_version (ss_protocol_data send_settings) \<noteq> HTTPProtocolVersion2) in
      rbind (add_http_header_field http fs (lit ''content-type'')
               (case mime_type of None \<Rightarrow> lit ''text/html'' | Some m \<Rightarrow> m)) (\<lambda>fs1.
      rbind (if not_v2 then
               rbind (format_text (h2_alloc env) (print_nat body_length)) (\<lambda>len.
               add_http_header_field http fs1 (lit ''content-length'') len)
             else Ok fs1) (\<lambda>fs2.
      rbind (if not_v2 \<and> status \<noteq> 101 then add_http_header_field http fs2 (lit ''connection'') (lit ''close'') else Ok fs2) (\<lambda>fs3.
      rbind (add_http_header_field http fs3 (lit ''server'') (lit ''Simple C HTTP Server: v'' @ sd_version send)) (\<lambda>fs4.
      rbind (if not_v2 \<and> status \<noteq> 101
             then add_http_header_field http fs4 (lit ''alt-svc'') (take 10 (global_setup_port_data (sd_port send)))
             else Ok fs4) (\<lambda>fs5.
      rbind (if compression_format \<noteq> CompressionTypeNone
             then add_http_header_field http fs5 (lit ''content-encoding'') (get_string_for_compress_format compression_format)
             else Ok fs5) (\<lambda>fs6.
      if \<not> sd_reserve send (length fs6 + length additional_headers) then Err ()
      else push_fields http fs6 additional_headers)))))))"

definition construct_http2_headers_for_request ::
  "'d h2_env \<Rightarrow> 'f http_env \<Rightarrow> send_env \<Rightarrow> SendSettings \<Rightarrow> tstr \<Rightarrow> HttpHeaderField list
     \<Rightarrow> CompressionType \<Rightarrow> nat \<Rightarrow> nat \<Rightarrow> (unit, HttpHeaderField list) res" where
  "construct_http2_headers_for_request env http send send_settings mime_type additional_headers compression_format body_length status =
     rbind (format_text (h2_alloc env) (print_nat status)) (\<lambda>status_code.
     rbind (add_http_header_field http [] (lit '':status'') status_code) (\<lambda>fs.
     construct_http1_headers_for_request env http send send_settings fs mime_type additional_headers compression_format
       body_length status))"

section \<open>Responses\<close>

definition response_length :: "HTTPResponseBody \<Rightarrow> SizedBuffer \<Rightarrow> nat" where
  "response_length response_body body = (case body of None \<Rightarrow> rb_null_size response_body | Some b \<Rightarrow> length b)"

text \<open>The body that is sent and the encoding that was used; a body that cannot be compressed is sent as it is.\<close>

definition compressed_body :: "send_env \<Rightarrow> CompressionType \<Rightarrow> SizedBuffer \<Rightarrow> SizedBuffer \<times> CompressionType" where
  "compressed_body send format content =
     (case content of
        None \<Rightarrow> (None, CompressionTypeNone)
      | Some c \<Rightarrow>
          (if format \<noteq> CompressionTypeNone then
             (case sd_compress send format c of
                None \<Rightarrow> (Some c, CompressionTypeNone)
              | Some new_body \<Rightarrow> (Some new_body, format))
           else (Some c, format)))"

definition construct_http1_response ::
  "'d h2_env \<Rightarrow> 'f http_env \<Rightarrow> send_env \<Rightarrow> HTTPResponseToSend \<Rightarrow> SendSettings \<Rightarrow> (unit, Http1Response) res" where
  "construct_http1_response env http send to_send send_settings =
     (if \<not> h2_alloc env 1 then Err ()
      else
        rbind (format_text (h2_alloc env) (print_nat (ts_status to_send))) (\<lambda>status_code.
        case compressed_body send (ss_compression_to_use send_settings) (rb_content (ts_body to_send)) of
          (body, format_used) \<Rightarrow>
            rbind (construct_http1_headers_for_request env http send send_settings [] (ts_mime_type to_send)
                     (ts_additional_headers to_send) format_used (response_length (ts_body to_send) body) (ts_status to_send)) (\<lambda>fs.
            Ok \<lparr>h1_protocol_version =
                  get_http_protocol_version_string (pd_version (ss_protocol_data send_settings)),
                h1_status_code_str = status_code,
                h1_status_message = lit (get_status_message (ts_status to_send)),
                h1_header_fields = fs,
                h1_body = (if rb_send_body_data (ts_body to_send) then body else None)\<rparr>)))"

definition construct_http2_response ::
  "'d h2_env \<Rightarrow> hpack_env \<Rightarrow> 'f http_env \<Rightarrow> send_env \<Rightarrow> Http2ContextState \<Rightarrow> HTTPResponseToSend \<Rightarrow> SendSettings
     \<Rightarrow> (unit, Http2Response \<times> Http2ContextState) res" where
  "construct_http2_response env hpack http send state to_send send_settings =
     (if \<not> h2_alloc env 1 then Err ()
      else
        (case compressed_body send (ss_compression_to_use send_settings) (rb_content (ts_body to_send)) of
           (body, format_used) \<Rightarrow>
             rbind (construct_http2_headers_for_request env http send send_settings (ts_mime_type to_send)
                      (ts_additional_headers to_send) format_used (response_length (ts_body to_send) body) (ts_status to_send)) (\<lambda>result_headers.
             case hs_compress_state (cs_hpack_state state) of
               None \<Rightarrow> Undef OutOfBounds
             | Some compress_state \<Rightarrow>
                 rbind (http2_hpack_compress_data hpack compress_state result_headers
                          \<lparr>huffman_usage = Http2HpackHuffmanUsageAuto,
                           compress_type = Http2HpackCompressTypeStaticTableUsage,
                           table_add_type = Http2HpackTableAddTypeCommon\<rparr>) (\<lambda>(encoded, compress_state').
                 case encoded of
                   None \<Rightarrow> Err ()
                 | Some hpack_encoded_headers \<Rightarrow>
                     Ok (\<lparr>r2_hpack_encoded_headers = hpack_encoded_headers,
                          r2_body = (if rb_send_body_data (ts_body to_send) then body else None),
                          r2_stream_identifier = pd_stream_identifier (ss_protocol_data send_settings)\<rparr>,
                         state\<lparr>cs_hpack_state := (cs_hpack_state state)\<lparr>hs_compress_state := Some compress_state'\<rparr>\<rparr>)))))"

text \<open>
  The text of an HTTP/1 response. The strings are printed with \<open>%s\<close>, which stops at a NUL; appending nothing to
  the NULL builder that is left after a failed allocation.
\<close>

abbreviation CRLF :: bytes where
  "CRLF \<equiv> [13, 10]"

definition appendf :: "'d h2_env \<Rightarrow> StringBuilder option \<Rightarrow> bytes \<Rightarrow> (unit, StringBuilder option) res" where
  "appendf env sb s =
     (case sb of
        None \<Rightarrow> Ok None
      | Some _ \<Rightarrow>
          rbind (format_text (h2_alloc env) s) (\<lambda>str.
          case string_builder_append_string (h2_alloc env) sb str of Err _ \<Rightarrow> Ok sb | r \<Rightarrow> r))"

text \<open>Appending whose result is not looked at.\<close>

definition put_single :: "'d h2_env \<Rightarrow> StringBuilder option \<Rightarrow> bytes \<Rightarrow> (unit, StringBuilder option) res" where
  "put_single env sb s =
     (case string_builder_append_single (h2_alloc env) sb s of Err _ \<Rightarrow> Ok sb | r \<Rightarrow> r)"

fun concat_fields_loop ::
  "'d h2_env \<Rightarrow> StringBuilder option \<Rightarrow> HttpHeaderField list \<Rightarrow> (unit, StringBuilder option) res" where
  "concat_fields_loop env sb [] = Ok sb"
| "concat_fields_loop env sb (field # fs) =
     rbind (appendf env sb (c_string (hf_key field) @ lit '': '' @ c_string (hf_value field) @ CRLF)) (\<lambda>sb'.
     concat_fields_loop env sb' fs)"

definition http1_response_concat ::
  "'d h2_env \<Rightarrow> Http1Response \<Rightarrow> (unit, StringBuilder option \<times> SizedBuffer) res" where
  "http1_response_concat env response =
     (if \<not> h2_alloc env 1 then Err ()
      else
        rbind (appendf env (string_builder_init (h2_alloc env))
                 (c_string (h1_protocol_version response) @ lit '' '' @ c_string (h1_status_code_str response) @
                  lit '' '' @ c_string (h1_status_message response) @ CRLF)) (\<lambda>sb1.
        rbind (concat_fields_loop env sb1 (h1_header_fields response)) (\<lambda>sb2.
        rbind (put_single env sb2 CRLF) (\<lambda>sb3.
        Ok (sb3, h1_body response)))))"

section \<open>Sending\<close>

definition send_string_builder_to_connection ::
  "'d h2_env \<Rightarrow> StringBuilder option \<Rightarrow> (unit, 'd ConnectionDescriptor, unit) act" where
  "send_string_builder_to_connection env sb =
     abind (alift (string_builder_release_into_sized_buffer sb)) (\<lambda>buffer d. send_data_to_connection (h2_io env) d buffer)"

definition send_concatted_http1_response_to_connection ::
  "'d h2_env \<Rightarrow> StringBuilder option \<times> SizedBuffer \<Rightarrow> (unit, 'd ConnectionDescriptor, unit) act" where
  "send_concatted_http1_response_to_connection env concatted_response =
     abind (send_string_builder_to_connection env (fst concatted_response)) (\<lambda>_.
     case snd concatted_response of
       None \<Rightarrow> aret ()
     | Some body \<Rightarrow> (\<lambda>d. send_data_to_connection (h2_io env) d body))"

definition send_message_to_connection_http1 ::
  "'d h2_env \<Rightarrow> 'f http_env \<Rightarrow> send_env \<Rightarrow> HTTPResponseToSend \<Rightarrow> SendSettings \<Rightarrow> (unit, 'd ConnectionDescriptor, unit) act"
where
  "send_message_to_connection_http1 env http send to_send send_settings =
     abind (alift (construct_http1_response env http send to_send send_settings)) (\<lambda>http_response.
     abind (alift (http1_response_concat env http_response)) (send_concatted_http1_response_to_connection env))"

definition send_message_to_connection_http2 ::
  "'d h2_env \<Rightarrow> hpack_env \<Rightarrow> 'f http_env \<Rightarrow> send_env \<Rightarrow> HTTP2Context \<Rightarrow> HTTPResponseToSend \<Rightarrow> SendSettings
     \<Rightarrow> 'd ConnectionDescriptor \<Rightarrow> ((unit, HTTP2Context) res \<times> 'd ConnectionDescriptor) option" where
  "send_message_to_connection_http2 env hpack http send context to_send send_settings d =
     (case construct_http2_response env hpack http send (ctx_state context) to_send send_settings of
        Err e \<Rightarrow> Some (Err e, d)
      | Undef u \<Rightarrow> Some (Undef u, d)
      | Ok (response, state') \<Rightarrow>
          map_option (\<lambda>(r, d'). (rbind r (\<lambda>_. Ok (context\<lparr>ctx_state := state'\<rparr>)), d'))
            (send_http2_response_to_connection env response (context\<lparr>ctx_state := state'\<rparr>) d))"

definition http_general_context_get_http2_context :: "HTTPGeneralContext \<Rightarrow> HTTP2Context option" where
  "http_general_context_get_http2_context general_context =
     (case general_context of HTTPContextTypeV2 context \<Rightarrow> Some context | _ \<Rightarrow> None)"

definition send_http_message_to_connection ::
  "'d h2_env \<Rightarrow> hpack_env \<Rightarrow> 'f http_env \<Rightarrow> send_env \<Rightarrow> HTTPGeneralContext \<Rightarrow> HTTPResponseToSend \<Rightarrow> SendSettings
     \<Rightarrow> 'd ConnectionDescriptor \<Rightarrow> ((unit, HTTPGeneralContext) res \<times> 'd ConnectionDescriptor) option" where
  "send_http_message_to_connection env hpack http send general_context to_send send_settings d =
     (if pd_version (ss_protocol_data send_settings) = HTTPProtocolVersion2 then
        (case http_general_context_get_http2_context general_context of
           None \<Rightarrow> Some (Err (), d)
         | Some context \<Rightarrow>
             map_option (\<lambda>(r, d'). (rbind r (\<lambda>context'. Ok (HTTPContextTypeV2 context')), d'))
               (send_message_to_connection_http2 env hpack http send context to_send send_settings d))
      else
        Some (case send_message_to_connection_http1 env http send to_send send_settings d of
                (r, d') \<Rightarrow> (rbind r (\<lambda>_. Ok general_context), d')))"

section \<open>What an HTTP/1 client receives\<close>

lemma print_nat_length: "n < 10 ^ k \<Longrightarrow> 0 < k \<Longrightarrow> length (print_nat n) \<le> k"
proof (induction n arbitrary: k rule: print_nat.induct)
  case (1 n)
  show ?case
  proof (cases "n < 10")
    case True
    with "1.prems" show ?thesis by (subst print_nat.simps) simp
  next
    case False
    with "1.prems"(1) have "k \<noteq> 1" by auto
    with "1.prems" obtain j where j: "k = Suc j" "0 < j" by (cases k) auto
    with "1.prems"(1) have "n div 10 < 10 ^ j" by auto
    with 1 False j show ?thesis by (subst print_nat.simps) simp
  qed
qed

lemma digits_no_nul: "0 \<notin> set (print_nat n)"
proof
  assume "0 \<in> set (print_nat n)"
  then have "(48 :: u8) \<le> 0" using print_nat_digits [of n] by (auto simp: digit_string_def)
  then show False by simp
qed

text \<open>Whatever the port, the value that is printed ends at its closing quotation mark.\<close>

lemma alt_svc_value:
  "c_string (take 10 (global_setup_port_data port)) = lit ''h2='' @ [0x22] @ print_nat (unat port) @ [0x22]"
proof -
  let ?v = "lit ''h2='' @ [0x22] @ print_nat (unat port) @ [0x22]"
  have "unat port < 65536" by (rule order.strict_trans2 [OF unsigned_less]) simp
  then have "unat port < 10 ^ 5" by simp
  then have "length (print_nat (unat port)) \<le> 5" by (rule print_nat_length) simp
  then have len: "length ?v \<le> 10" by (simp add: lit_def)
  have nul: "0 \<notin> set ?v" using digits_no_nul by (simp add: lit_def)
  have all: "global_setup_port_data port = ?v @ 0 # drop (Suc (length ?v)) g_alt_svc_constant_data"
    by (simp add: global_setup_port_data_def)
  have "takeWhile (\<lambda>b. b \<noteq> 0) (take 10 (v @ 0 # r)) = v" if "length v \<le> 10" "0 \<notin> set v" for v r :: bytes
    using that by (cases "10 - length v") (auto simp: takeWhile_append takeWhile_eq_all_conv)
  from this [OF len nul] have "takeWhile (\<lambda>b. b \<noteq> 0) (take 10 (?v @ 0 # r)) = ?v" for r .
  then show ?thesis by (simp add: c_string_def all)
qed

definition field_line :: "HttpHeaderField \<Rightarrow> bytes" where
  "field_line f = hf_key f @ lit '': '' @ hf_value f @ CRLF"

abbreviation field :: "string \<Rightarrow> bytes \<Rightarrow> HttpHeaderField" where
  "field k v \<equiv> \<lparr>hf_key = lit k, hf_value = v\<rparr>"

text \<open>The fields of a response to HTTP/1 as the client sees them.\<close>

definition response_fields :: "send_env \<Rightarrow> CompressionType \<Rightarrow> HTTPResponseToSend \<Rightarrow> HttpHeaderField list" where
  "response_fields send format to_send =
     (case compressed_body send format (rb_content (ts_body to_send)) of
        (body, format_used) \<Rightarrow>
          [field ''content-type'' (case ts_mime_type to_send of None \<Rightarrow> lit ''text/html'' | Some m \<Rightarrow> m),
           field ''content-length'' (print_nat (response_length (ts_body to_send) body))] @
          (if ts_status to_send \<noteq> 101 then [field ''connection'' (lit ''close'')] else []) @
          [field ''server'' (lit ''Simple C HTTP Server: v'' @ sd_version send)] @
          (if ts_status to_send \<noteq> 101
           then [field ''alt-svc'' (lit ''h2='' @ [0x22] @ print_nat (unat (sd_port send)) @ [0x22])] else []) @
          (if format_used \<noteq> CompressionTypeNone
           then [field ''content-encoding'' (get_string_for_compress_format format_used)] else []) @
          ts_additional_headers to_send)"

definition response_body :: "send_env \<Rightarrow> CompressionType \<Rightarrow> HTTPResponseToSend \<Rightarrow> bytes" where
  "response_body send format to_send =
     (if rb_send_body_data (ts_body to_send)
      then (case fst (compressed_body send format (rb_content (ts_body to_send))) of None \<Rightarrow> [] | Some b \<Rightarrow> b) else [])"

definition response_head :: "send_env \<Rightarrow> SendSettings \<Rightarrow> HTTPResponseToSend \<Rightarrow> bytes" where
  "response_head send settings to_send =
     get_http_protocol_version_string (pd_version (ss_protocol_data settings)) @ lit '' '' @
     print_nat (ts_status to_send) @ lit '' '' @ lit (get_status_message (ts_status to_send)) @ CRLF @
     concat (map field_line (response_fields send (ss_compression_to_use settings) to_send)) @ CRLF"

text \<open>What is assumed: memory is there, and the texts of the caller contain no NUL.\<close>

definition send_memory :: "'d h2_env \<Rightarrow> 'f http_env \<Rightarrow> send_env \<Rightarrow> bool" where
  "send_memory env http send \<longleftrightarrow> (\<forall>n. h2_alloc env n) \<and> (\<forall>n. lib_push http n) \<and> (\<forall>n. sd_reserve send n)"

definition response_clean :: "send_env \<Rightarrow> HTTPResponseToSend \<Rightarrow> bool" where
  "response_clean send to_send \<longleftrightarrow>
     0 \<notin> set (sd_version send) \<and> (\<forall>m. ts_mime_type to_send = Some m \<longrightarrow> 0 \<notin> set m) \<and>
     (\<forall>f \<in> set (ts_additional_headers to_send). 0 \<notin> set (hf_key f) \<and> 0 \<notin> set (hf_value f))"

lemma appendf_holds:
  assumes "\<forall>n. h2_alloc env n" "builder_holds sb t" "0 \<notin> set s" "length t + length s < 2 ^ 31 - 1"
  shows "\<exists>sb'. appendf env sb s = Ok sb' \<and> builder_holds sb' (t @ s)"
proof -
  obtain sb' where "string_builder_append_string_impl (h2_alloc env) sb s = Ok sb'" "builder_holds sb' (t @ s)"
    using append_impl_holds [OF assms(2) _ assms(1), of s] assms(4) by auto
  moreover obtain b where "sb = Some b" using assms(2) by (auto simp: builder_holds_def)
  ultimately show ?thesis
    using assms(1,3,4) by (simp add: appendf_def format_text_def string_builder_append_string_def)
qed

lemma put_single_holds:
  assumes "\<forall>n. h2_alloc env n" "builder_holds sb t" "0 \<notin> set s" "length t + length s < 2 ^ 64 - 1"
  shows "\<exists>sb'. put_single env sb s = Ok sb' \<and> builder_holds sb' (t @ s)"
proof -
  obtain sb' where "string_builder_append_string_impl (h2_alloc env) sb s = Ok sb'" "builder_holds sb' (t @ s)"
    using append_impl_holds [OF assms(2,4,1)] by blast
  with assms(3) show ?thesis by (auto simp: put_single_def string_builder_append_single_def)
qed

text \<open>The text of a field as \<open>%s\<close> prints it.\<close>

abbreviation printed :: "HttpHeaderField \<Rightarrow> HttpHeaderField" where
  "printed f \<equiv> \<lparr>hf_key = c_string (hf_key f), hf_value = c_string (hf_value f)\<rparr>"

lemma c_string_no_nul: "0 \<notin> set (c_string bs)"
  by (auto simp: c_string_def dest: set_takeWhileD)

lemma concat_fields_holds:
  assumes "\<forall>n. h2_alloc env n"
  shows "builder_holds sb t \<Longrightarrow> length (t @ concat (map (\<lambda>f. field_line (printed f)) fs)) < 2 ^ 31 - 1 \<Longrightarrow>
    \<exists>sb'. concat_fields_loop env sb fs = Ok sb' \<and> builder_holds sb' (t @ concat (map (\<lambda>f. field_line (printed f)) fs))"
proof (induction fs arbitrary: sb t)
  case (Cons f fs)
  have "0 \<notin> set (field_line (printed f))" using c_string_no_nul by (simp add: field_line_def lit_def)
  with Cons.prems obtain sb1 where "appendf env sb (field_line (printed f)) = Ok sb1"
      "builder_holds sb1 (t @ field_line (printed f))"
    using appendf_holds [OF assms Cons.prems(1), of "field_line (printed f)"] by auto
  moreover from this(2) Cons.prems(2) obtain sb2 where "concat_fields_loop env sb1 fs = Ok sb2"
      "builder_holds sb2 ((t @ field_line (printed f)) @ concat (map (\<lambda>f. field_line (printed f)) fs))"
    using Cons.IH [of sb1 "t @ field_line (printed f)"] by auto
  ultimately show ?case by (simp add: field_line_def)
qed simp

lemma response_concat_holds:
  fixes response
  defines "head \<equiv> c_string (h1_protocol_version response) @ lit '' '' @ c_string (h1_status_code_str response) @
      lit '' '' @ c_string (h1_status_message response) @ CRLF @
      concat (map (\<lambda>f. field_line (printed f)) (h1_header_fields response)) @ CRLF"
  assumes "\<forall>n. h2_alloc env n" "length head < 2 ^ 31 - 1"
  shows "\<exists>sb. http1_response_concat env response = Ok (sb, h1_body response) \<and> builder_holds sb head"
proof -
  let ?line = "c_string (h1_protocol_version response) @ lit '' '' @ c_string (h1_status_code_str response) @
      lit '' '' @ c_string (h1_status_message response) @ CRLF"
  let ?fields = "concat (map (\<lambda>f. field_line (printed f)) (h1_header_fields response))"
  have "builder_holds (string_builder_init (h2_alloc env)) []" using assms(2) by (simp add: builder_init_holds)
  moreover have "0 \<notin> set ?line" using c_string_no_nul by (simp add: lit_def)
  moreover have len: "length (?line @ ?fields @ CRLF) < 2 ^ 31 - 1" using assms(3) unfolding head_def by simp
  ultimately obtain sb1 where sb1: "appendf env (string_builder_init (h2_alloc env)) ?line = Ok sb1" "builder_holds sb1 ?line"
    using appendf_holds [OF assms(2), of "string_builder_init (h2_alloc env)" "[]" ?line] by auto
  obtain sb2 where sb2: "concat_fields_loop env sb1 (h1_header_fields response) = Ok sb2" "builder_holds sb2 (?line @ ?fields)"
    using concat_fields_holds [OF assms(2) sb1(2), of "h1_header_fields response"] len by auto
  obtain sb3 where sb3: "put_single env sb2 CRLF = Ok sb3" "builder_holds sb3 ((?line @ ?fields) @ CRLF)"
    using put_single_holds [OF assms(2) sb2(2), of CRLF] len by auto
  with sb1(1) sb2(1) sb3 assms(2) show ?thesis unfolding head_def http1_response_concat_def by simp
qed

lemma push_fields_all: "\<forall>n. lib_push http n \<Longrightarrow> push_fields http fs gs = Ok (fs @ gs)"
  by (induction gs arbitrary: fs) auto

lemma status_message_no_nul: "0 \<notin> set (lit (get_status_message status))"
proof (cases "map_of status_messages status")
  case None
  then show ?thesis by (simp add: get_status_message_def lit_def)
next
  case (Some m)
  then have "m \<in> snd ` set status_messages" by (force dest: map_of_SomeD)
  moreover have "\<forall>m \<in> snd ` set status_messages. 0 \<notin> set (lit m :: bytes)"
    by (simp add: status_messages_def lit_def)
  ultimately have "0 \<notin> set (lit m :: bytes)" by blast
  then show ?thesis using Some by (simp add: get_status_message_def)
qed

lemma compress_format_no_nul: "0 \<notin> set (get_string_for_compress_format c)"
  by (cases c) (simp_all add: lit_def)

lemma version_string_no_nul: "0 \<notin> set (get_http_protocol_version_string v)"
  by (cases v) (simp_all add: lit_def)

text \<open>The fields as they are stored: only the value of Alt-Svc is longer than what is printed of it.\<close>

lemma construct_http1_headers:
  assumes "send_memory env http send" "response_clean send to_send" "pd_version (ss_protocol_data settings) \<noteq> HTTPProtocolVersion2"
    and body: "compressed_body send format (rb_content (ts_body to_send)) = (body, format_used)"
    and len: "length (print_nat (response_length (ts_body to_send) body)) < 2 ^ 31 - 1"
  shows "\<exists>fs. construct_http1_headers_for_request env http send settings [] (ts_mime_type to_send)
      (ts_additional_headers to_send) format_used (response_length (ts_body to_send) body) (ts_status to_send) = Ok fs \<and>
      map printed fs = response_fields send format to_send"
proof -
  note memory = assms(1) [unfolded send_memory_def]
  let ?alt = "if ts_status to_send \<noteq> 101 then [field ''alt-svc'' (take 10 (global_setup_port_data (sd_port send)))] else []"
  let ?mime = "case ts_mime_type to_send of None \<Rightarrow> lit ''text/html'' | Some m \<Rightarrow> m"
  let ?fs = "[field ''content-type'' ?mime,
      field ''content-length'' (print_nat (response_length (ts_body to_send) body))] @
      (if ts_status to_send \<noteq> 101 then [field ''connection'' (lit ''close'')] else []) @
      [field ''server'' (lit ''Simple C HTTP Server: v'' @ sd_version send)] @ ?alt @
      (if format_used \<noteq> CompressionTypeNone
       then [field ''content-encoding'' (get_string_for_compress_format format_used)] else [])"
  have "construct_http1_headers_for_request env http send settings [] (ts_mime_type to_send)
      (ts_additional_headers to_send) format_used (response_length (ts_body to_send) body) (ts_status to_send) = Ok (?fs @ ts_additional_headers to_send)"
    using memory assms(3) len
    by (simp add: construct_http1_headers_for_request_def add_http_header_field_def format_text_def push_fields_all Let_def)
  moreover have "0 \<notin> set ?mime" "0 \<notin> set (lit ''Simple C HTTP Server: v'' @ sd_version send)"
    "map printed (ts_additional_headers to_send) = ts_additional_headers to_send"
    using assms(2) by (auto simp: response_clean_def lit_def map_idI split: option.splits)
  then have "map printed (?fs @ ts_additional_headers to_send) = response_fields send format to_send"
    using compress_format_no_nul digits_no_nul alt_svc_value
    by (simp add: response_fields_def body lit_def)
  ultimately show ?thesis by blast
qed

lemma response_sent:
  assumes "reliable_io (h2_io env) incoming outgoing" "send_memory env http send" "response_clean send to_send"
    and "pd_version (ss_protocol_data settings) \<noteq> HTTPProtocolVersion2" "length (response_head send settings to_send) < 2 ^ 31 - 1"
  shows "\<exists>d'. send_message_to_connection_http1 env http send to_send settings d = (Ok (), d') \<and>
    outgoing (channel d') = outgoing (channel d) @ response_head send settings to_send @
      response_body send (ss_compression_to_use settings) to_send \<and>
    incoming (channel d') = incoming (channel d)"
proof -
  obtain body format_used where body:
      "compressed_body send (ss_compression_to_use settings) (rb_content (ts_body to_send)) = (body, format_used)"
    by fastforce
  note memory = assms(2) [unfolded send_memory_def]
  have small: "length (print_nat (response_length (ts_body to_send) body)) < 2 ^ 31 - 1"
      "length (print_nat (ts_status to_send)) < 2 ^ 31 - 1"
    using assms(5) by (auto simp: response_head_def response_fields_def body field_line_def)
  obtain fs where fs: "construct_http1_headers_for_request env http send settings [] (ts_mime_type to_send)
      (ts_additional_headers to_send) format_used (response_length (ts_body to_send) body) (ts_status to_send) = Ok fs"
      "map printed fs = response_fields send (ss_compression_to_use settings) to_send"
    using construct_http1_headers [OF assms(2-4) body small(1)] by blast
  let ?response = "\<lparr>h1_protocol_version = get_http_protocol_version_string (pd_version (ss_protocol_data settings)),
      h1_status_code_str = print_nat (ts_status to_send), h1_status_message = lit (get_status_message (ts_status to_send)),
      h1_header_fields = fs, h1_body = (if rb_send_body_data (ts_body to_send) then body else None)\<rparr>"
  have construct: "construct_http1_response env http send to_send settings = Ok ?response"
    using memory fs(1) small(2) by (simp add: construct_http1_response_def format_text_def body)
  have "map (\<lambda>f. field_line (printed f)) fs = map field_line (map printed fs)" by simp
  then obtain sb where sb: "http1_response_concat env ?response = Ok (sb, h1_body ?response)"
      "builder_holds sb (response_head send settings to_send)"
    using response_concat_holds [of env ?response] memory assms(5) status_message_no_nul digits_no_nul version_string_no_nul fs(2)
    by (auto simp: response_head_def simp del: map_map)
  then have release: "string_builder_release_into_sized_buffer sb = Ok (response_head send settings to_send)"
    using builder.release_law by blast
  obtain d1 where d1: "send_data_to_connection (h2_io env) d (response_head send settings to_send) = (Ok (), d1)"
      "outgoing (channel d1) = outgoing (channel d) @ response_head send settings to_send"
      "incoming (channel d1) = incoming (channel d)"
    using send_reliable [OF assms(1)] by blast
  obtain d2 where d2: "send_data_to_connection (h2_io env) d1 (response_body send (ss_compression_to_use settings) to_send) = (Ok (), d2)"
      "outgoing (channel d2) = outgoing (channel d1) @ response_body send (ss_compression_to_use settings) to_send"
      "incoming (channel d2) = incoming (channel d1)"
    using send_reliable [OF assms(1)] by blast
  have run: "send_message_to_connection_http1 env http send to_send settings d =
      (case h1_body ?response of None \<Rightarrow> (Ok (), d1) | Some b \<Rightarrow> send_data_to_connection (h2_io env) d1 b)"
    using d1(1) sb(1)
    by (simp add: send_message_to_connection_http1_def send_concatted_http1_response_to_connection_def
        send_string_builder_to_connection_def abind_def alift_def aret_def construct release split: option.splits)
  moreover have "response_body send (ss_compression_to_use settings) to_send =
      (case h1_body ?response of None \<Rightarrow> [] | Some b \<Rightarrow> b)"
    by (simp add: response_body_def body)
  ultimately show ?thesis using d1 d2 by (cases "h1_body ?response") simp_all
qed


definition sample_send :: send_env where
  "sample_send = \<lparr>sd_compress = (\<lambda>_ bs. None), sd_reserve = (\<lambda>_. True), sd_version = lit ''1'', sd_port = 8080\<rparr>"

definition hello_response :: HTTPResponseToSend where
  "hello_response =
     \<lparr>ts_status = 200, ts_body = http_response_body_from_string (lit ''hello'') True, ts_mime_type = None,
      ts_additional_headers = []\<rparr>"

definition plain_settings :: SendSettings where
  "plain_settings =
     \<lparr>ss_compression_to_use = CompressionTypeGzip,
      ss_protocol_data = \<lparr>pd_version = HTTPProtocolVersion1Dot1, pd_stream_identifier = 0\<rparr>\<rparr>"

lemma hello_head:
  "response_head sample_send plain_settings hello_response @ response_body sample_send CompressionTypeGzip hello_response =
   lit ''HTTP/1.1 200 OK'' @ CRLF @ lit ''content-type: text/html'' @ CRLF @ lit ''content-length: 5'' @ CRLF @
   lit ''connection: close'' @ CRLF @ lit ''server: Simple C HTTP Server: v1'' @ CRLF @
   lit ''alt-svc: h2='' @ [0x22] @ lit ''8080'' @ [0x22] @ CRLF @ CRLF @ lit ''hello''"
  by (simp add: response_head_def response_body_def response_fields_def response_length_def compressed_body_def sample_send_def
      plain_settings_def hello_response_def http_response_body_from_string_def http_response_body_from_data_def
      field_line_def print_nat.simps get_status_message_def status_messages_def lit_def c_string_def)


end
