(* ===== verification/Http1_Parser.thy ===== *)
theory Http1_Parser
  imports Http_Send
begin

text \<open>
  The reader of requests (\<open>src/src/http/parser.c\<close>): the request line and the header fields of HTTP/1, what they say
  about the body and about the connection, the change to HTTP/2 and the states of the \<open>HTTPReader\<close>.

  The theorems: a request of HTTP/1 that is complete is read as it was sent however the network cut it; a request whose
  \<open>Connection: close\<close> follows its Content-Length is refused; a connection of HTTP/1 carries one request.
\<close>

section \<open>Actions that may not end\<close>

type_synonym ('e, 's, 'a) loop_act = "'s \<Rightarrow> (('e, 'a) res \<times> 's) option"

definition lact :: "('e, 's, 'a) act \<Rightarrow> ('e, 's, 'a) loop_act" where
  "lact m = (\<lambda>s. Some (m s))"

definition lret :: "'a \<Rightarrow> ('e, 's, 'a) loop_act" where
  "lret x = lact (aret x)"

definition lerr :: "'e \<Rightarrow> ('e, 's, 'a) loop_act" where
  "lerr e = lact (alift (Err e))"

definition lbind :: "('e, 's, 'a) loop_act \<Rightarrow> ('a \<Rightarrow> ('e, 's, 'b) loop_act) \<Rightarrow> ('e, 's, 'b) loop_act" where
  "lbind m f =
     (\<lambda>s. case m s of
        None \<Rightarrow> None
      | Some (r, s') \<Rightarrow> (case r of Ok x \<Rightarrow> f x s' | Err e \<Rightarrow> Some (Err e, s') | Undef u \<Rightarrow> Some (Undef u, s')))"

lemmas loop_acts = lact_def lret_def lerr_def lbind_def aret_def alift_def

section \<open>The request line\<close>

datatype HttpRequestLineResult =
    HttpRequestLineResultTypeOk HttpRequestLine | HttpRequestLineResultTypeError
  | HttpRequestLineResultTypeUnsupportedHttpVersion | HttpRequestLineResultTypeUnsupportedMethod
  | HttpRequestLineResultTypeUriError

text \<open>A line up to CRLF; \<open>None\<close> when the reader has none to give.\<close>

definition read_line :: "'d h2_env \<Rightarrow> ('e, 'd BufferedReader, bytes option) loop_act" where
  "read_line env reader =
     (case buffered_reader_get_until_delimiter (h2_alloc env) (h2_io env) CRLF reader of
        None \<Rightarrow> None
      | Some (Undef u) \<Rightarrow> Some (Undef u, reader)
      | Some (Err _) \<Rightarrow> Some (Ok None, reader)
      | Some (Ok (BufferedReadResultTypeOk line, reader')) \<Rightarrow> Some (Ok (Some line), reader')
      | Some (Ok (_, reader')) \<Rightarrow> Some (Ok None, reader'))"

definition parse_http1_request_line ::
  "'d h2_env \<Rightarrow> 'f http_env \<Rightarrow> (unit, 'd BufferedReader, HttpRequestLineResult) loop_act" where
  "parse_http1_request_line env http =
     lbind (read_line env) (\<lambda>read_result.
     case read_result of
       None \<Rightarrow> lret HttpRequestLineResultTypeError
     | Some request_line \<Rightarrow>
         (case lib_parts http request_line (lit '' '') of
            [method, path, protocol_version] \<Rightarrow>
              (\<lambda>reader.
                 case parse_request_uri (env_uri http) path of
                   None \<Rightarrow> None
                 | Some (Undef u) \<Rightarrow> Some (Undef u, reader)
                 | Some (Err _) \<Rightarrow> Some (Ok HttpRequestLineResultTypeUriError, reader)
                 | Some (Ok uri) \<Rightarrow>
                     Some (Ok (case get_http_method_from_string method of
                                 None \<Rightarrow> HttpRequestLineResultTypeUnsupportedMethod
                               | Some m \<Rightarrow>
                                   (case get_protocol_version_from_string protocol_version of
                                      None \<Rightarrow> HttpRequestLineResultTypeUnsupportedHttpVersion
                                    | Some version \<Rightarrow>
                                        HttpRequestLineResultTypeOk
                                          \<lparr>rl_method = m, rl_uri = uri,
                                           rl_protocol_data = \<lparr>pd_version = version, pd_stream_identifier = 0\<rparr>\<rparr>)),
                           reader))
          | _ \<Rightarrow> lret HttpRequestLineResultTypeError))"

section \<open>What the header fields say\<close>

datatype HTTPEncoding = HTTPEncodingChunked

datatype HTTPRequestLength =
    HTTPRequestLengthTypeNoBody | HTTPRequestLengthTypeClose | HTTPRequestLengthTypeContentLength nat
  | HTTPRequestLengthTypeTransferEncoded HTTPEncoding

datatype HttpAnalyzeConnection =
    HttpAnalyzeConnectionTypeNothingSpecial | HttpAnalyzeConnectionTypeKeepAlive
  | HttpAnalyzeConnectionTypeUpgradeH2C bytes

record 'f HTTPAnalyzeHeaders =
  ah_length :: HTTPRequestLength
  ah_settings :: "'f RequestSettings"
  ah_connection :: HttpAnalyzeConnection

datatype HTTPAnalyzeHeaderError = HTTPAnalyzeHeaderErrorProtocolError | HTTPAnalyzeHeaderErrorNotSupported

record Http2UpgradeState =
  us_upgrade_h2c_present :: bool
  us_connection_has_both_upgrade_and_h2_settings :: bool
  us_settings_buffer :: SizedBuffer

abbreviation (input) ConnectionHeaderTypeNone :: u8 where "ConnectionHeaderTypeNone \<equiv> 0x00"
abbreviation (input) ConnectionHeaderTypeUpgrade :: u8 where "ConnectionHeaderTypeUpgrade \<equiv> 0x01"
abbreviation (input) ConnectionHeaderTypeHTTP2Settings :: u8 where "ConnectionHeaderTypeHTTP2Settings \<equiv> 0x02"
abbreviation (input) ConnectionHeaderTypeOther :: u8 where "ConnectionHeaderTypeOther \<equiv> 0x04"
abbreviation (input) ConnectionHeaderTypeNeededForH2C :: u8 where "ConnectionHeaderTypeNeededForH2C \<equiv> 0x03"

definition process_connection_header :: "'f http_env \<Rightarrow> bytes \<Rightarrow> u8 \<Rightarrow> u8" where
  "process_connection_header http value state =
     (if lib_eq_ignore_case http value (lit ''upgrade'') then state OR ConnectionHeaderTypeUpgrade
      else if lib_eq_ignore_case http value (lit ''http2-settings'') then state OR ConnectionHeaderTypeHTTP2Settings
      else state OR ConnectionHeaderTypeOther)"

text \<open>One turn of the loop over the header fields.\<close>

definition analyze_field ::
  "'f http_env \<Rightarrow> HttpHeaderField \<Rightarrow> HTTPRequestLength \<times> HttpAnalyzeConnection \<times> Http2UpgradeState
     \<Rightarrow> (HTTPAnalyzeHeaderError, HTTPRequestLength \<times> HttpAnalyzeConnection \<times> Http2UpgradeState) res" where
  "analyze_field http header state =
     (case state of (len, connection, h2state) \<Rightarrow>
      let is_key = lib_eq_ignore_case http (hf_key header); is_value = lib_eq_ignore_case http (hf_value header) in
      if is_key (lit ''content-length'') then
        (if len \<noteq> HTTPRequestLengthTypeNoBody then Err HTTPAnalyzeHeaderErrorProtocolError
         else
           (case parse_u64 (hf_value header) of
              None \<Rightarrow> Err HTTPAnalyzeHeaderErrorProtocolError
            | Some content_length \<Rightarrow>
                Ok (HTTPRequestLengthTypeContentLength (unat content_length), connection, h2state)))
      else if is_key (lit ''transfer-encoding'') then
        (if len \<noteq> HTTPRequestLengthTypeNoBody then Err HTTPAnalyzeHeaderErrorProtocolError
         else if \<not> is_value (lit ''chunked'') then Err HTTPAnalyzeHeaderErrorNotSupported
         else Ok (HTTPRequestLengthTypeTransferEncoded HTTPEncodingChunked, connection, h2state))
      else if is_key (lit ''connection'') then
        (if is_value (lit ''close'') then Ok (HTTPRequestLengthTypeClose, connection, h2state)
         else if is_value (lit ''keep-alive'') then
           (if connection \<noteq> HttpAnalyzeConnectionTypeNothingSpecial then Err HTTPAnalyzeHeaderErrorProtocolError
            else Ok (len, HttpAnalyzeConnectionTypeKeepAlive, h2state))
         else
           (let flags = process_delimitered_header_value http (hf_value header) (lit '','') (process_connection_header http)
                          ConnectionHeaderTypeNone in
            Ok (len, connection,
                if flags AND ConnectionHeaderTypeNeededForH2C = ConnectionHeaderTypeNeededForH2C
                then h2state\<lparr>us_connection_has_both_upgrade_and_h2_settings := True\<rparr> else h2state)))
      else if is_key (lit ''upgrade'') then
        Ok (len, connection, if is_value (lit ''h2c'') then h2state\<lparr>us_upgrade_h2c_present := True\<rparr> else h2state)
      else if is_key (lit ''http2-settings'') then
        Ok (len, connection, h2state\<lparr>us_settings_buffer := lib_base64 http (hf_value header)\<rparr>)
      else Ok (len, connection, h2state))"

fun analyze_loop ::
  "'f http_env \<Rightarrow> HttpHeaderField list \<Rightarrow> HTTPRequestLength \<times> HttpAnalyzeConnection \<times> Http2UpgradeState
     \<Rightarrow> (HTTPAnalyzeHeaderError, HTTPRequestLength \<times> HttpAnalyzeConnection \<times> Http2UpgradeState) res" where
  "analyze_loop http [] state = Ok state"
| "analyze_loop http (header # rest) state = rbind (analyze_field http header state) (analyze_loop http rest)"

definition http_analyze_headers :: "'f http_env \<Rightarrow> HttpRequest \<Rightarrow> (HTTPAnalyzeHeaderError, 'f HTTPAnalyzeHeaders) res" where
  "http_analyze_headers http http_request =
     rbind (analyze_loop http (rh_header_fields (rq_head http_request))
              (HTTPRequestLengthTypeNoBody, HttpAnalyzeConnectionTypeNothingSpecial,
               \<lparr>us_upgrade_h2c_present = False, us_connection_has_both_upgrade_and_h2_settings = False,
                us_settings_buffer = None\<rparr>)) (\<lambda>(len, connection, h2state).
     let len' = (if len = HTTPRequestLengthTypeClose \<and>
                    pd_version (rl_protocol_data (rh_request_line (rq_head http_request))) \<noteq> HTTPProtocolVersion1Dot0
                 then HTTPRequestLengthTypeNoBody else len);
         settings = get_request_settings http http_request in
     case us_settings_buffer h2state of
       Some h2c \<Rightarrow>
         (if us_connection_has_both_upgrade_and_h2_settings h2state \<and> us_upgrade_h2c_present h2state then
            (if connection \<noteq> HttpAnalyzeConnectionTypeNothingSpecial then Err HTTPAnalyzeHeaderErrorProtocolError
             else Ok \<lparr>ah_length = len', ah_settings = settings, ah_connection = HttpAnalyzeConnectionTypeUpgradeH2C h2c\<rparr>)
          else Ok \<lparr>ah_length = len', ah_settings = settings, ah_connection = connection\<rparr>)
     | None \<Rightarrow> Ok \<lparr>ah_length = len', ah_settings = settings, ah_connection = connection\<rparr>)"

section \<open>The reader\<close>

datatype ProtocolSelected = ProtocolSelectedNone | ProtocolSelectedHttp1Dot1 | ProtocolSelectedHttp2

datatype HTTPReaderState = HTTPReaderStateEmpty | HTTPReaderStateReading | HTTPReaderStateEnd | HTTPReaderStateError

record 'd HTTPReader =
  hr_protocol :: ProtocolSelected
  hr_buffered_reader :: "'d BufferedReader"
  hr_state :: HTTPReaderState
  hr_general_context :: HTTPGeneralContext

text \<open>The protocol that TLS negotiated is known only for a secure descriptor.\<close>

definition get_selected_protocol :: "('d \<Rightarrow> ProtocolSelected) \<Rightarrow> 'd ConnectionDescriptor \<Rightarrow> ProtocolSelected" where
  "get_selected_protocol negotiated descriptor =
     (case descriptor of NormalDescriptor _ \<Rightarrow> ProtocolSelectedNone | SecureDescriptor d \<Rightarrow> negotiated d)"

definition initialize_http_reader_from_connection ::
  "'d h2_env \<Rightarrow> ('d \<Rightarrow> ProtocolSelected) \<Rightarrow> 'd ConnectionDescriptor \<Rightarrow> 'd HTTPReader option" where
  "initialize_http_reader_from_connection env negotiated descriptor =
     (if \<not> h2_alloc env 1 then None
      else
        (case get_buffered_reader (h2_alloc env) descriptor of
           None \<Rightarrow> None
         | Some buffered_reader \<Rightarrow>
             Some \<lparr>hr_protocol = get_selected_protocol negotiated descriptor, hr_buffered_reader = buffered_reader,
                   hr_state = HTTPReaderStateEmpty, hr_general_context = HTTPContextTypeV1\<rparr>))"

definition on_buffered :: "('e, 'd BufferedReader, 'a) loop_act \<Rightarrow> ('e, 'd HTTPReader, 'a) loop_act" where
  "on_buffered m =
     (\<lambda>reader. map_option (\<lambda>(r, b). (r, reader\<lparr>hr_buffered_reader := b\<rparr>)) (m (hr_buffered_reader reader)))"

text \<open>A copy of the bytes that were read; when there is no memory for it the buffer is empty.\<close>

definition sized_buffer_allocate_from_readonly_buffer :: "(nat \<Rightarrow> bool) \<Rightarrow> bytes \<Rightarrow> bytes" where
  "sized_buffer_allocate_from_readonly_buffer alloc bs = (if bs = [] \<or> \<not> alloc (length bs) then [] else bs)"

definition get_http_body :: "'d h2_env \<Rightarrow> 'f HTTPAnalyzeHeaders \<Rightarrow> (string, 'd HTTPReader, bytes) loop_act" where
  "get_http_body env analyze =
     (case ah_length analyze of
        HTTPRequestLengthTypeClose \<Rightarrow>
          (\<lambda>reader.
             case buffered_reader_get_until_end (h2_alloc env) (h2_io env) (hr_buffered_reader reader) of
               None \<Rightarrow> None
             | Some (Undef u) \<Rightarrow> Some (Undef u, reader)
             | Some (Err _) \<Rightarrow> Some (Err ''read failed'', reader)
             | Some (Ok (BufferedReadResultTypeOk bs, b)) \<Rightarrow>
                 Some (Ok (sized_buffer_allocate_from_readonly_buffer (h2_alloc env) bs),
                       reader\<lparr>hr_buffered_reader := b, hr_state := HTTPReaderStateEnd\<rparr>)
             | Some (Ok (_, b)) \<Rightarrow> Some (Err ''read failed'', reader\<lparr>hr_buffered_reader := b\<rparr>))
      | HTTPRequestLengthTypeContentLength n \<Rightarrow>
          (\<lambda>reader.
             case buffered_reader_get_amount (h2_alloc env) (h2_io env) (hr_buffered_reader reader) n of
               Undef u \<Rightarrow> Some (Undef u, reader)
             | Err _ \<Rightarrow> Some (Err ''read failed'', reader)
             | Ok (BufferedReadResultTypeOk bs, b) \<Rightarrow>
                 Some (Ok (sized_buffer_allocate_from_readonly_buffer (h2_alloc env) bs), reader\<lparr>hr_buffered_reader := b\<rparr>)
             | Ok (_, b) \<Rightarrow> Some (Err ''read failed'', reader\<lparr>hr_buffered_reader := b\<rparr>))
      | HTTPRequestLengthTypeTransferEncoded _ \<Rightarrow> lerr ''transfer encoding not yet implemented''
      | HTTPRequestLengthTypeNoBody \<Rightarrow> lret [])"

section \<open>A request of HTTP/1\<close>

text \<open>The loop over the header lines; a field for which there is no memory is dropped.\<close>

partial_function (option) parse_headers_loop ::
  "'d h2_env \<Rightarrow> 'f http_env \<Rightarrow> HttpHeaderField list \<Rightarrow> 'd BufferedReader
     \<Rightarrow> ((HttpRequestError, HttpHeaderField list) res \<times> 'd BufferedReader) option" where
  "parse_headers_loop env http header_fields reader =
     (case read_line env reader of
        None \<Rightarrow> None
      | Some (read_result, reader') \<Rightarrow>
          (case read_result of
             Undef u \<Rightarrow> Some (Undef u, reader')
           | Err e \<Rightarrow> Some (Err e, reader')
           | Ok None \<Rightarrow> Some (Err (HttpRequestErrorAdvanced ''Failed to parse headers''), reader')
           | Ok (Some header_line) \<Rightarrow>
               if header_line = [] then Some (Ok header_fields, reader')
               else
                 (case lib_split (env_uri http) header_line (lit '':'') of
                    None \<Rightarrow> Some (Err (HttpRequestErrorAdvanced ''Failed to parse header key''), reader')
                  | Some (header_key, header_value) \<Rightarrow>
                      parse_headers_loop env http
                        (if lib_push http (length header_fields)
                         then header_fields @ [\<lparr>hf_key = header_key, hf_value = lib_lstrip http header_value\<rparr>]
                         else header_fields) reader')))"

definition process_http2_upgrade_request ::
  "'d h2_env \<Rightarrow> hpack_env \<Rightarrow> 'f http_env \<Rightarrow> send_env \<Rightarrow> HttpRequest \<Rightarrow> 'f RequestSettings \<Rightarrow> bytes
     \<Rightarrow> (HttpRequestError, 'd HTTPReader, 'f HttpRequestResult) loop_act" where
  "process_http2_upgrade_request env hpack http send request settings h2c_upgrade_settings reader =
     (case rbind (add_http_header_field http [] (lit ''upgrade'') (lit ''h2c'')) (\<lambda>fs.
           add_http_header_field http fs (lit ''connection'') (lit ''upgrade'')) of
        Undef u \<Rightarrow> Some (Undef u, reader)
      | Err _ \<Rightarrow> Some (Err (HttpRequestErrorAdvanced []), reader)
      | Ok additional_headers \<Rightarrow>
          (case send_http_message_to_connection env hpack http send (hr_general_context reader)
                  \<lparr>ts_status = 101, ts_body = http_response_body_empty, ts_mime_type = None,
                   ts_additional_headers = additional_headers\<rparr>
                  (get_send_settings http settings) (br_descriptor (hr_buffered_reader reader)) of
             None \<Rightarrow> None
           | Some (result, d) \<Rightarrow>
               (let reader1 = reader\<lparr>hr_buffered_reader := (hr_buffered_reader reader)\<lparr>br_descriptor := d\<rparr>\<rparr> in
                case result of
                  Undef u \<Rightarrow> Some (Undef u, reader1)
                | Err _ \<Rightarrow> Some (Err (HttpRequestErrorAdvanced ''error in sending switching protocls response''), reader1)
                | Ok _ \<Rightarrow>
                    (case http2_process_h2c_upgrade env http (http2_default_context (h2_alloc env)) h2c_upgrade_settings request
                            (hr_buffered_reader reader1) of
                       (upgrade, b) \<Rightarrow>
                         (case upgrade of
                            Undef u \<Rightarrow> Some (Undef u, reader1\<lparr>hr_buffered_reader := b\<rparr>)
                          | Err (e, context) \<Rightarrow>
                              Some (Err e, reader1\<lparr>hr_buffered_reader := b, hr_general_context := HTTPContextTypeV2 context\<rparr>)
                          | Ok (request', settings', context) \<Rightarrow>
                              Some (Ok (HttpRequestResultTypeOk request' settings'),
                                    reader1\<lparr>hr_buffered_reader := b, hr_general_context := HTTPContextTypeV2 context\<rparr>))))))"

text \<open>An error of a request is a result of its own.\<close>

definition as_result ::
  "(HttpRequestError, 's, 'f HttpRequestResult) loop_act \<Rightarrow> (unit, 's, 'f HttpRequestResult) loop_act" where
  "as_result m =
     (\<lambda>s. map_option (\<lambda>(r, s'). (case r of
         Ok x \<Rightarrow> Ok x | Err e \<Rightarrow> Ok (HttpRequestResultTypeError e) | Undef u \<Rightarrow> Undef u, s')) (m s))"

definition with_error :: "('e \<Rightarrow> 'g) \<Rightarrow> ('e, 's, 'a) loop_act \<Rightarrow> ('g, 's, 'a) loop_act" where
  "with_error f m = (\<lambda>s. map_option (\<lambda>(r, s'). (map_err f r, s')) (m s))"

definition parse_http1_request ::
  "'d h2_env \<Rightarrow> hpack_env \<Rightarrow> 'f http_env \<Rightarrow> send_env \<Rightarrow> HttpRequestLine \<Rightarrow> bool
     \<Rightarrow> (unit, 'd HTTPReader, 'f HttpRequestResult) loop_act" where
  "parse_http1_request env hpack http send request_line first_request =
     as_result (
     lbind (on_buffered (parse_headers_loop env http [])) (\<lambda>fs.
     let request = \<lparr>rq_head = \<lparr>rh_request_line = request_line, rh_header_fields = fs\<rparr>, rq_body = []\<rparr> in
     case http_analyze_headers http request of
       Undef u \<Rightarrow> lact (alift (Undef u))
     | Err HTTPAnalyzeHeaderErrorProtocolError \<Rightarrow> lerr (HttpRequestErrorEnum HttpRequestErrorTypeProtocolError)
     | Err HTTPAnalyzeHeaderErrorNotSupported \<Rightarrow> lerr (HttpRequestErrorEnum HttpRequestErrorTypeNotSupported)
     | Ok analyze \<Rightarrow>
         lbind (with_error HttpRequestErrorAdvanced (get_http_body env analyze)) (\<lambda>body.
         if (rl_method request_line = HTTPRequestMethodGet \<or> rl_method request_line = HTTPRequestMethodHead \<or>
             rl_method request_line = HTTPRequestMethodOptions) \<and> body \<noteq> []
         then lerr (HttpRequestErrorEnum HttpRequestErrorTypeInvalidNonEmptyBody)
         else
           (case ah_connection analyze of
              HttpAnalyzeConnectionTypeUpgradeH2C h2c \<Rightarrow>
                (if \<not> first_request
                 then lerr (HttpRequestErrorAdvanced ''only first http1 request can upgrade to http2'')
                 else process_http2_upgrade_request env hpack http send (request\<lparr>rq_body := body\<rparr>) (ah_settings analyze) h2c)
            | _ \<Rightarrow> lret (HttpRequestResultTypeOk (request\<lparr>rq_body := body\<rparr>) (ah_settings analyze))))))"

section \<open>Requests of a connection\<close>

definition parse_http2_request_of ::
  "'d h2_env \<Rightarrow> hpack_env \<Rightarrow> 'f http_env \<Rightarrow> HTTP2Context \<Rightarrow> (unit, 'd HTTPReader, 'f HttpRequestResult) loop_act" where
  "parse_http2_request_of env hpack http context =
     lbind (on_buffered (parse_http2_request env hpack http context)) (\<lambda>(result, context') reader.
     Some (Ok result, reader\<lparr>hr_general_context := HTTPContextTypeV2 context'\<rparr>))"

text \<open>The start of HTTP/2, which the first request may ask for; \<open>failure\<close> is the error of a failed start.\<close>

definition start_http2 ::
  "'d h2_env \<Rightarrow> hpack_env \<Rightarrow> 'f http_env \<Rightarrow> HttpRequestLine \<Rightarrow> (string \<Rightarrow> HttpRequestError)
     \<Rightarrow> (unit, 'd HTTPReader, 'f HttpRequestResult) loop_act" where
  "start_http2 env hpack http request_line failure =
     lbind (on_buffered (lact (analyze_http2_preface env request_line))) (\<lambda>http2_preface_status.
     if http2_preface_status \<noteq> Http2PrefaceStatusOk
     then lret (HttpRequestResultTypeError (HttpRequestErrorEnum HttpRequestErrorTypeInvalidHttp2Preface))
     else
       (\<lambda>reader.
          case http2_send_and_receive_preface env (http2_default_context (h2_alloc env)) (hr_buffered_reader reader) of
            (start_result, b) \<Rightarrow>
              (case start_result of
                 Undef u \<Rightarrow> Some (Undef u, reader\<lparr>hr_buffered_reader := b\<rparr>)
               | Err (e, context) \<Rightarrow>
                   Some (Ok (HttpRequestResultTypeError (failure e)),
                         reader\<lparr>hr_buffered_reader := b, hr_general_context := HTTPContextTypeV2 context\<rparr>)
               | Ok context \<Rightarrow>
                   parse_http2_request_of env hpack http context
                     (reader\<lparr>hr_buffered_reader := b, hr_general_context := HTTPContextTypeV2 context\<rparr>))))"

text \<open>The refusals of a request line that can be read, \<open>None\<close> when it is served.\<close>

definition refused_line :: "HttpRequestLine \<Rightarrow> HttpRequestError option" where
  "refused_line request_line =
     (if rl_method request_line = HTTPRequestMethodPRI
      then Some (HttpRequestErrorEnum HttpRequestErrorTypeInvalidHttp2Preface)
      else
        (case rl_uri request_line of
           ParsedURITypeAsterisk \<Rightarrow>
             Some (HttpRequestErrorAdvanced (
               if rl_method request_line \<noteq> HTTPRequestMethodOptions
               then ''Invalid path in combination with method: path '*' is only supported with OPTIONS''
               else ''not implemented for method OPTIONS: asterisk or normal request''))
         | ParsedURITypeAuthority _ \<Rightarrow>
             Some (HttpRequestErrorAdvanced (
               if rl_method request_line \<noteq> HTTPRequestMethodConnect
               then ''Invalid path in combination with method: path '*' is only supported with OPTIONS''
               else ''not implemented for method CONNECT: authority or normal request''))
         | _ \<Rightarrow> None))"

text \<open>The end of a first request: what it means for the reader, and the check for bytes behind it.\<close>

definition finish_first_request ::
  "'f HttpRequestResult \<Rightarrow> (unit, 'd HTTPReader, 'f HttpRequestResult) loop_act" where
  "finish_first_request result reader =
     (let reader1 =
        (case result of
           HttpRequestResultTypeOk _ _ \<Rightarrow> reader
         | HttpRequestResultTypeCloseConnection \<Rightarrow> reader\<lparr>hr_state := HTTPReaderStateEnd\<rparr>
         | HttpRequestResultTypeError _ \<Rightarrow> reader\<lparr>hr_state := HTTPReaderStateError\<rparr>) in
      case hr_general_context reader1 of
        HTTPContextTypeV1 \<Rightarrow>
          (if buffered_reader_has_more_data (hr_buffered_reader reader1)
           then Some (Ok result, reader1\<lparr>hr_state := HTTPReaderStateEnd\<rparr>)
           else Some (Ok (HttpRequestResultTypeError (HttpRequestErrorEnum HttpRequestErrorTypeLengthRequired)),
                      reader1\<lparr>hr_state := HTTPReaderStateError\<rparr>))
      | _ \<Rightarrow> Some (Ok result, reader1))"

definition parse_first_http_request ::
  "'d h2_env \<Rightarrow> hpack_env \<Rightarrow> 'f http_env \<Rightarrow> send_env \<Rightarrow> (unit, 'd HTTPReader, 'f HttpRequestResult) loop_act" where
  "parse_first_http_request env hpack http send =
     lbind (on_buffered (parse_http1_request_line env http)) (\<lambda>request_line_result.
     case request_line_result of
       HttpRequestLineResultTypeUnsupportedHttpVersion \<Rightarrow>
         lret (HttpRequestResultTypeError (HttpRequestErrorEnum HttpRequestErrorTypeInvalidHttpVersion))
     | HttpRequestLineResultTypeUnsupportedMethod \<Rightarrow>
         lret (HttpRequestResultTypeError (HttpRequestErrorEnum HttpRequestErrorTypeMethodNotSupported))
     | HttpRequestLineResultTypeUriError \<Rightarrow>
         lret (HttpRequestResultTypeError (HttpRequestErrorAdvanced ''failed to parse URi in request line''))
     | HttpRequestLineResultTypeError \<Rightarrow>
         lret (HttpRequestResultTypeError (HttpRequestErrorAdvanced ''failed to parse request line''))
     | HttpRequestLineResultTypeOk request_line \<Rightarrow>
         (\<lambda>reader.
            let is_v2 = (pd_version (rl_protocol_data request_line) = HTTPProtocolVersion2) in
            if hr_protocol reader = ProtocolSelectedHttp1Dot1 \<and> is_v2
            then lret (HttpRequestResultTypeError (HttpRequestErrorEnum HttpRequestErrorTypeInvalidHttpVersion)) reader
            else if hr_protocol reader = ProtocolSelectedHttp2
            then start_http2 env hpack http request_line (\<lambda>_. HttpRequestErrorEnum HttpRequestErrorTypeInvalidHttp2Preface) reader
            else if is_v2 then start_http2 env hpack http request_line HttpRequestErrorAdvanced reader
            else
              (case refused_line request_line of
                 Some error \<Rightarrow> lret (HttpRequestResultTypeError error) reader
               | None \<Rightarrow> lbind (parse_http1_request env hpack http send request_line True) finish_first_request reader)))"

definition parse_next_http_request ::
  "'d h2_env \<Rightarrow> hpack_env \<Rightarrow> 'f http_env \<Rightarrow> (unit, 'd HTTPReader, 'f HttpRequestResult) loop_act" where
  "parse_next_http_request env hpack http =
     (\<lambda>reader. case hr_general_context reader of
        HTTPContextTypeV2 context \<Rightarrow> parse_http2_request_of env hpack http context reader
      | _ \<Rightarrow> lret (HttpRequestResultTypeError (HttpRequestErrorAdvanced ''Not yet supported'')) reader)"

text \<open>\<open>None\<close> as reader is the NULL pointer.\<close>

definition get_http_request ::
  "'d h2_env \<Rightarrow> hpack_env \<Rightarrow> 'f http_env \<Rightarrow> send_env \<Rightarrow> (unit, 'd HTTPReader option, 'f HttpRequestResult) loop_act" where
  "get_http_request env hpack http send maybe_reader =
     (case maybe_reader of
        None \<Rightarrow> Some (Ok (HttpRequestResultTypeError (HttpRequestErrorAdvanced ''HTTP reader was null'')), None)
      | Some reader \<Rightarrow>
          map_option (\<lambda>(r, reader'). (r, Some reader'))
            (case hr_state reader of
               HTTPReaderStateEmpty \<Rightarrow>
                 parse_first_http_request env hpack http send (reader\<lparr>hr_state := HTTPReaderStateReading\<rparr>)
             | HTTPReaderStateReading \<Rightarrow>
                 (case hr_general_context reader of
                    HTTPContextTypeV1 \<Rightarrow>
                      lret (HttpRequestResultTypeError (HttpRequestErrorAdvanced
                        ''HTTP reader tried to read more than one request on a non compatible connection'')) reader
                  | _ \<Rightarrow>
                      parse_next_http_request env hpack http
                        (reader\<lparr>hr_buffered_reader :=
                           buffered_reader_invalidate_old_data (h2_alloc env) (hr_buffered_reader reader)\<rparr>))
             | _ \<Rightarrow> lret (HttpRequestResultTypeError (HttpRequestErrorAdvanced ''HTTP reader state was invalid'')) reader))"

definition http_reader_more_available :: "'d HTTPReader \<Rightarrow> bool" where
  "http_reader_more_available reader =
     (case hr_state reader of
        HTTPReaderStateEmpty \<Rightarrow> True | HTTPReaderStateReading \<Rightarrow> True
      | HTTPReaderStateEnd \<Rightarrow> False | HTTPReaderStateError \<Rightarrow> False)"

section \<open>Reading a request\<close>

text \<open>What the string library promises, in the cases a request needs.\<close>

definition parts_law :: "(bytes \<Rightarrow> bytes \<Rightarrow> bytes list) \<Rightarrow> bool" where
  "parts_law parts \<longleftrightarrow> (\<forall>s c. parts s [c] = char_parts c s)"

definition starts_visible :: "bytes \<Rightarrow> bool" where
  "starts_visible s \<longleftrightarrow> (\<forall>c cs. s = c # cs \<longrightarrow> 32 < c)"

definition lstrip_law :: "(bytes \<Rightarrow> bytes) \<Rightarrow> bool" where
  "lstrip_law lstrip \<longleftrightarrow> (\<forall>s. starts_visible s \<longrightarrow> lstrip (32 # s) = s)"

definition lower_case :: "u8 \<Rightarrow> u8" where
  "lower_case c = (if 65 \<le> c \<and> c \<le> 90 then c + 32 else c)"

definition ignore_case_law :: "(bytes \<Rightarrow> bytes \<Rightarrow> bool) \<Rightarrow> bool" where
  "ignore_case_law eq \<longleftrightarrow> (\<forall>s t. eq s t \<longleftrightarrow> map lower_case s = map lower_case t)"

definition string_library :: "'f http_env \<Rightarrow> bool" where
  "string_library http \<longleftrightarrow>
     parts_law (lib_parts http) \<and> lstrip_law (lib_lstrip http) \<and> split_law (lib_split (env_uri http)) \<and>
     ignore_case_law (lib_eq_ignore_case http) \<and> (\<forall>n. lib_push http n)"

lemma char_parts_cut [simp]: "c \<notin> set a \<Longrightarrow> char_parts c (a @ c # b) = a # char_parts c b"
  by (subst char_parts.simps) simp

lemma char_parts_single [simp]: "c \<notin> set a \<Longrightarrow> char_parts c a = [a]"
  by (subst char_parts.simps) simp

text \<open>The text of a request.\<close>

definition request_text :: "HTTPRequestMethod \<Rightarrow> bytes \<Rightarrow> HTTPProtocolVersion \<Rightarrow> HttpHeaderField list \<Rightarrow> bytes" where
  "request_text method path version fs =
     (get_http_method_string method @ lit '' '' @ path @ lit '' '' @ get_http_protocol_version_string version) @ CRLF @
     concat (map field_line fs) @ CRLF"

definition field_ok :: "HttpHeaderField \<Rightarrow> bool" where
  "field_ok f \<longleftrightarrow>
     of_char (CHR '':'') \<notin> set (hf_key f) \<and> 13 \<notin> set (hf_key f) \<and> 13 \<notin> set (hf_value f) \<and> starts_visible (hf_value f)"

lemma read_line_ready:
  assumes "reader_ready (h2_alloc env) (h2_io env) incoming outgoing b"
    and "pending incoming b = line @ CRLF @ rest" "13 \<notin> set line"
  shows "\<exists>b'. read_line env b = Some (Ok (Some line), b') \<and>
    reader_ready (h2_alloc env) (h2_io env) incoming outgoing b' \<and> pending incoming b' = rest"
  using until_delimiter_finds [OF assms(1,2)] assms(3) by (auto simp: read_line_def)

lemma parse_headers_ready:
  assumes lib: "string_library http"
  shows "reader_ready (h2_alloc env) (h2_io env) incoming outgoing b \<Longrightarrow> \<forall>f \<in> set fs. field_ok f \<Longrightarrow>
    pending incoming b = concat (map field_line fs) @ CRLF @ rest \<Longrightarrow>
    \<exists>b'. parse_headers_loop env http acc b = Some (Ok (acc @ fs), b') \<and>
      reader_ready (h2_alloc env) (h2_io env) incoming outgoing b' \<and> pending incoming b' = rest"
proof (induction fs arbitrary: b acc)
  case Nil
  then obtain b' where "read_line env b = Some (Ok (Some []) :: (HttpRequestError, _) res, b')"
      "reader_ready (h2_alloc env) (h2_io env) incoming outgoing b'" "pending incoming b' = rest"
    using read_line_ready [of env incoming outgoing b "[]" rest] by auto
  then show ?case by (subst parse_headers_loop.simps) simp
next
  case (Cons f fs)
  let ?line = "hf_key f @ lit '': '' @ hf_value f"
  have f: "field_ok f" using Cons.prems(2) by simp
  have "13 \<notin> set ?line" using f by (simp add: field_ok_def lit_def)
  moreover have "pending incoming b = ?line @ CRLF @ concat (map field_line fs) @ CRLF @ rest"
    using Cons.prems(3) by (simp add: field_line_def [of f])
  ultimately obtain b1 where b1: "read_line env b = Some (Ok (Some ?line) :: (HttpRequestError, _) res, b1)"
      "reader_ready (h2_alloc env) (h2_io env) incoming outgoing b1"
      "pending incoming b1 = concat (map field_line fs) @ CRLF @ rest"
    using read_line_ready [OF Cons.prems(1)] by blast
  have "lib_split (env_uri http) ?line (lit '':'') = Some (hf_key f, 32 # hf_value f)"
    using split_char [of "lib_split (env_uri http)" ?line "of_char (CHR '':'')"] lib f
    by (simp add: string_library_def field_ok_def lit_def)
  moreover have "lib_lstrip http (32 # hf_value f) = hf_value f"
    using lib f by (simp add: string_library_def lstrip_law_def field_ok_def)
  moreover have "lit '': '' \<noteq> []" by (simp add: lit_def)
  moreover have "\<forall>n. lib_push http n" using lib by (simp add: string_library_def)
  ultimately have "parse_headers_loop env http acc b = parse_headers_loop env http (acc @ [f]) b1"
    using b1(1) by (cases f) (subst parse_headers_loop.simps, simp)
  with Cons.IH [OF b1(2) _ b1(3), of "acc @ [f]"] Cons.prems(2) show ?case by simp
qed

lemma method_string_plain: "32 \<notin> set (get_http_method_string m)" "13 \<notin> set (get_http_method_string m)"
  by (cases m; simp add: lit_def)+

lemma version_string_plain: "32 \<notin> set (get_http_protocol_version_string v)" "13 \<notin> set (get_http_protocol_version_string v)"
  by (cases v; simp add: lit_def)+

lemma parse_request_line_ready:
  assumes "string_library http" "reader_ready (h2_alloc env) (h2_io env) incoming outgoing b"
    and "pending incoming b = request_text m path v fs @ rest" "32 \<notin> set path" "13 \<notin> set path"
    and "parse_request_uri (env_uri http) path = Some (Ok uri)"
  shows "\<exists>b'. parse_http1_request_line env http b =
      Some (Ok (HttpRequestLineResultTypeOk \<lparr>rl_method = m, rl_uri = uri,
        rl_protocol_data = \<lparr>pd_version = v, pd_stream_identifier = 0\<rparr>\<rparr>), b') \<and>
    reader_ready (h2_alloc env) (h2_io env) incoming outgoing b' \<and>
    pending incoming b' = concat (map field_line fs) @ CRLF @ rest"
proof -
  let ?line = "get_http_method_string m @ lit '' '' @ path @ lit '' '' @ get_http_protocol_version_string v"
  have "13 \<notin> set ?line" using assms(5) method_string_plain version_string_plain by (simp add: lit_def)
  moreover have "pending incoming b = ?line @ CRLF @ concat (map field_line fs) @ CRLF @ rest"
    using assms(3) by (simp add: request_text_def)
  ultimately obtain b' where b': "read_line env b = Some (Ok (Some ?line) :: (unit, _) res, b')"
      "reader_ready (h2_alloc env) (h2_io env) incoming outgoing b'"
      "pending incoming b' = concat (map field_line fs) @ CRLF @ rest"
    using read_line_ready [OF assms(2)] by blast
  have "lib_parts http ?line (lit '' '') =
      [get_http_method_string m, path, get_http_protocol_version_string v]"
    using assms(1,4) method_string_plain version_string_plain by (simp add: string_library_def parts_law_def lit_def)
  with b' assms(6) show ?thesis
    by (simp add: parse_http1_request_line_def loop_acts method_roundtrip version_roundtrip)
qed

text \<open>Fields that say nothing about the body or the connection, and the field that announces a body.\<close>

definition plain_field :: "'f http_env \<Rightarrow> HttpHeaderField \<Rightarrow> bool" where
  "plain_field http f \<longleftrightarrow>
     (\<forall>key \<in> {''content-length'', ''transfer-encoding'', ''connection'', ''upgrade'', ''http2-settings''}.
        \<not> lib_eq_ignore_case http (hf_key f) (lit key))"

definition length_field :: "bytes \<Rightarrow> HttpHeaderField" where
  "length_field body = field ''content-length'' (print_nat (length body))"

lemma analyze_loop_append: "analyze_loop http (fs @ gs) state = rbind (analyze_loop http fs state) (analyze_loop http gs)"
proof (induction fs arbitrary: state)
  case (Cons f fs)
  then have "analyze_loop http (fs @ gs) = (\<lambda>x. rbind (analyze_loop http fs x) (analyze_loop http gs))" by (intro ext)
  then show ?case by (simp add: rbind_assoc)
qed simp

lemma analyze_plain: "\<forall>f \<in> set fs. plain_field http f \<Longrightarrow> analyze_loop http fs state = Ok state"
  by (induction fs) (auto simp: analyze_field_def plain_field_def split: prod.splits)

lemma analyze_length_field:
  assumes "string_library http" "length body < 2 ^ 64"
  shows "analyze_field http (length_field body) (HTTPRequestLengthTypeNoBody, connection, h2state) =
    Ok (HTTPRequestLengthTypeContentLength (length body), connection, h2state)"
proof -
  have "print_nat (length body) \<noteq> []" by (subst print_nat.simps) simp
  then have "parse_u64 (print_nat (length body)) = Some (word_of_nat (length body))"
    using parse_digits_print_nat [OF assms(2)] by (simp add: parse_u64_def)
  moreover have "unat (word_of_nat (length body) :: u64) = length body" using assms(2) by (simp add: unsigned_of_nat take_bit_nat_eq_self)
  ultimately show ?thesis using assms(1) by (simp add: analyze_field_def length_field_def string_library_def ignore_case_law_def)
qed

lemma analyze_framed:
  fixes request
  assumes "string_library http" "length body < 2 ^ 64" "\<forall>f \<in> set (pre @ post). plain_field http f"
    and "rh_header_fields (rq_head request) = pre @ (if body = [] then [] else [length_field body]) @ post"
  shows "http_analyze_headers http request =
    Ok \<lparr>ah_length = (if body = [] then HTTPRequestLengthTypeNoBody else HTTPRequestLengthTypeContentLength (length body)),
        ah_settings = get_request_settings http request, ah_connection = HttpAnalyzeConnectionTypeNothingSpecial\<rparr>"
proof -
  let ?h2 = "\<lparr>us_upgrade_h2c_present = False, us_connection_has_both_upgrade_and_h2_settings = False, us_settings_buffer = None\<rparr>"
  have "analyze_loop http (pre @ (if body = [] then [] else [length_field body]) @ post)
      (HTTPRequestLengthTypeNoBody, HttpAnalyzeConnectionTypeNothingSpecial, ?h2) =
      Ok (if body = [] then HTTPRequestLengthTypeNoBody else HTTPRequestLengthTypeContentLength (length body),
          HttpAnalyzeConnectionTypeNothingSpecial, ?h2)"
    using assms(3) analyze_length_field [OF assms(1,2)] by (auto simp: analyze_loop_append analyze_plain)
  with assms(4) show ?thesis by (simp add: http_analyze_headers_def Let_def)
qed

lemma get_http_body_ready:
  assumes "reader_ready (h2_alloc env) (h2_io env) incoming outgoing (hr_buffered_reader reader)"
    and "pending incoming (hr_buffered_reader reader) = body @ rest" "length body < 2 ^ 31"
    and "ah_length analyze =
      (if body = [] then HTTPRequestLengthTypeNoBody else HTTPRequestLengthTypeContentLength (length body))"
  shows "\<exists>b. get_http_body env analyze reader = Some (Ok body, reader\<lparr>hr_buffered_reader := b\<rparr>) \<and>
    reader_ready (h2_alloc env) (h2_io env) incoming outgoing b \<and> pending incoming b = rest"
proof (cases "body = []")
  case True
  with assms show ?thesis by (auto simp: get_http_body_def loop_acts intro!: exI [of _ "hr_buffered_reader reader"])
next
  case False
  obtain b where "buffered_reader_get_amount (h2_alloc env) (h2_io env) (hr_buffered_reader reader) (length body) =
        Ok (BufferedReadResultTypeOk body, b)"
      "reader_ready (h2_alloc env) (h2_io env) incoming outgoing b" "pending incoming b = rest"
    using get_amount_ready [OF assms(1,3)] assms(2) by auto
  moreover have "\<forall>n. h2_alloc env n" using assms(1) by (simp add: reader_ready_def)
  ultimately show ?thesis
    using False assms(4) by (intro exI [of _ b]) (simp add: get_http_body_def sized_buffer_allocate_from_readonly_buffer_def)
qed

text \<open>The outcome of \<open>parse_http1_request\<close> once the fields are analysed.\<close>

lemma parse_http1_request_ready:
  assumes lib: "string_library http" and ready: "reader_ready (h2_alloc env) (h2_io env) incoming outgoing (hr_buffered_reader reader)"
    and pend: "pending incoming (hr_buffered_reader reader) = concat (map field_line fs) @ CRLF @ body @ rest"
    and fields: "\<forall>f \<in> set fs. field_ok f" and len: "length body < 2 ^ 31"
    and analysis: "http_analyze_headers http \<lparr>rq_head = \<lparr>rh_request_line = line, rh_header_fields = fs\<rparr>, rq_body = []\<rparr> = Ok analyze"
      "ah_length analyze = (if body = [] then HTTPRequestLengthTypeNoBody else HTTPRequestLengthTypeContentLength (length body))"
      "ah_connection analyze = HttpAnalyzeConnectionTypeNothingSpecial"
    and allowed: "body = [] \<or> rl_method line \<notin> {HTTPRequestMethodGet, HTTPRequestMethodHead, HTTPRequestMethodOptions}"
  shows "\<exists>b. parse_http1_request env hpack http send line first reader =
      Some (Ok (HttpRequestResultTypeOk \<lparr>rq_head = \<lparr>rh_request_line = line, rh_header_fields = fs\<rparr>, rq_body = body\<rparr>
        (ah_settings analyze)), reader\<lparr>hr_buffered_reader := b\<rparr>) \<and>
    reader_ready (h2_alloc env) (h2_io env) incoming outgoing b \<and> pending incoming b = rest"
proof -
  obtain b1 where b1: "parse_headers_loop env http [] (hr_buffered_reader reader) = Some (Ok fs, b1)"
      "reader_ready (h2_alloc env) (h2_io env) incoming outgoing b1" "pending incoming b1 = body @ rest"
    using parse_headers_ready [OF lib ready fields pend, of "[]"] by auto
  then obtain b2 where b2: "get_http_body env analyze (reader\<lparr>hr_buffered_reader := b1\<rparr>) =
        Some (Ok body, reader\<lparr>hr_buffered_reader := b2\<rparr>)"
      "reader_ready (h2_alloc env) (h2_io env) incoming outgoing b2" "pending incoming b2 = rest"
    using get_http_body_ready [of env incoming outgoing "reader\<lparr>hr_buffered_reader := b1\<rparr>" body rest analyze] len analysis(2)
    by auto
  have "parse_http1_request env hpack http send line first reader =
      Some (Ok (HttpRequestResultTypeOk \<lparr>rq_head = \<lparr>rh_request_line = line, rh_header_fields = fs\<rparr>, rq_body = body\<rparr>
        (ah_settings analyze)), reader\<lparr>hr_buffered_reader := b2\<rparr>)"
    using b1(1) b2(1) analysis allowed
    by (auto simp: parse_http1_request_def as_result_def loop_acts on_buffered_def with_error_def Let_def)
  with b2 show ?thesis by blast
qed

lemma has_more_data_ready:
  "reader_ready alloc io incoming outgoing b \<Longrightarrow> pending incoming b = [] \<Longrightarrow> buffered_reader_has_more_data b"
  by (auto simp: buffered_reader_has_more_data_def reader_ready_def pending_def)

text \<open>The first request of a connection, up to its body.\<close>

lemma parse_first_ready:
  assumes lib: "string_library http" and ready: "reader_ready (h2_alloc env) (h2_io env) incoming outgoing (hr_buffered_reader reader)"
    and pend: "pending incoming (hr_buffered_reader reader) = request_text m path v fs @ rest"
    and path: "32 \<notin> set path" "13 \<notin> set path" "parse_request_uri (env_uri http) path = Some (Ok uri)"
    and line: "line = \<lparr>rl_method = m, rl_uri = uri, rl_protocol_data = \<lparr>pd_version = v, pd_stream_identifier = 0\<rparr>\<rparr>"
    and version: "v \<noteq> HTTPProtocolVersion2" "hr_protocol reader \<noteq> ProtocolSelectedHttp2" "refused_line line = None"
  shows "\<exists>b. parse_first_http_request env hpack http send reader =
      lbind (parse_http1_request env hpack http send line True) finish_first_request (reader\<lparr>hr_buffered_reader := b\<rparr>) \<and>
    reader_ready (h2_alloc env) (h2_io env) incoming outgoing b \<and>
    pending incoming b = concat (map field_line fs) @ CRLF @ rest"
proof -
  obtain b where "parse_http1_request_line env http (hr_buffered_reader reader) =
        Some (Ok (HttpRequestLineResultTypeOk line), b)"
      "reader_ready (h2_alloc env) (h2_io env) incoming outgoing b"
      "pending incoming b = concat (map field_line fs) @ CRLF @ rest"
    using parse_request_line_ready [OF lib ready pend path] unfolding line by blast
  moreover have "pd_version (rl_protocol_data line) = v" by (simp add: line)
  ultimately show ?thesis
    using version by (intro exI [of _ b]) (simp add: parse_first_http_request_def on_buffered_def lbind_def Let_def)
qed

text \<open>A request that is served: the line can be read and is not refused, the fields can be cut apart.\<close>

definition servable :: "'f http_env \<Rightarrow> HttpRequestLine \<Rightarrow> bytes \<Rightarrow> HttpHeaderField list \<Rightarrow> bool" where
  "servable http line path fs \<longleftrightarrow>
     32 \<notin> set path \<and> 13 \<notin> set path \<and> parse_request_uri (env_uri http) path = Some (Ok (rl_uri line)) \<and>
     pd_version (rl_protocol_data line) \<noteq> HTTPProtocolVersion2 \<and> pd_stream_identifier (rl_protocol_data line) = 0 \<and>
     refused_line line = None \<and> (\<forall>f \<in> set fs. field_ok f)"

lemma servable_first:
  assumes "string_library http" "reader_ready (h2_alloc env) (h2_io env) incoming outgoing (hr_buffered_reader reader)"
    and "pending incoming (hr_buffered_reader reader) =
      request_text (rl_method line) path (pd_version (rl_protocol_data line)) fs @ rest"
    and "servable http line path fs" "hr_protocol reader \<noteq> ProtocolSelectedHttp2" "hr_state reader = HTTPReaderStateEmpty"
  shows "\<exists>b. get_http_request env hpack http send (Some reader) =
      map_option (\<lambda>(r, reader'). (r, Some reader'))
        (lbind (parse_http1_request env hpack http send line True) finish_first_request
          (reader\<lparr>hr_state := HTTPReaderStateReading, hr_buffered_reader := b\<rparr>)) \<and>
    reader_ready (h2_alloc env) (h2_io env) incoming outgoing b \<and>
    pending incoming b = concat (map field_line fs) @ CRLF @ rest"
proof -
  let ?reader = "reader\<lparr>hr_state := HTTPReaderStateReading\<rparr>"
  have line: "line = \<lparr>rl_method = rl_method line, rl_uri = rl_uri line,
      rl_protocol_data = \<lparr>pd_version = pd_version (rl_protocol_data line), pd_stream_identifier = 0\<rparr>\<rparr>"
    using assms(4) by (simp add: servable_def)
  note s = assms(4) [unfolded servable_def]
  obtain b where "parse_first_http_request env hpack http send ?reader =
        lbind (parse_http1_request env hpack http send line True) finish_first_request (?reader\<lparr>hr_buffered_reader := b\<rparr>)"
      "reader_ready (h2_alloc env) (h2_io env) incoming outgoing b"
      "pending incoming b = concat (map field_line fs) @ CRLF @ rest"
    using parse_first_ready [OF assms(1), of env incoming outgoing ?reader "rl_method line" path
        "pd_version (rl_protocol_data line)" fs rest "rl_uri line" line hpack send] assms(2,3,5) s line by auto
  with assms(6) show ?thesis by (intro exI [of _ b]) (simp add: get_http_request_def)
qed

lemma request_read:
  assumes "string_library http" "reader_ready (h2_alloc env) (h2_io env) incoming outgoing (hr_buffered_reader reader)"
    and "hr_state reader = HTTPReaderStateEmpty" "hr_general_context reader = HTTPContextTypeV1"
    and "hr_protocol reader \<noteq> ProtocolSelectedHttp2"
    and fs: "fs = pre @ (if body = [] then [] else [length_field body]) @ post"
    and "pending incoming (hr_buffered_reader reader) =
      request_text (rl_method line) path (pd_version (rl_protocol_data line)) fs @ body"
    and "servable http line path fs" "\<forall>f \<in> set (pre @ post). plain_field http f" "length body < 2 ^ 31"
    and "body = [] \<or> rl_method line \<notin> {HTTPRequestMethodGet, HTTPRequestMethodHead, HTTPRequestMethodOptions}"
  shows "\<exists>reader'. get_http_request env hpack http send (Some reader) =
      Some (Ok (HttpRequestResultTypeOk
          \<lparr>rq_head = \<lparr>rh_request_line = line, rh_header_fields = fs\<rparr>, rq_body = body\<rparr>
          (get_request_settings http \<lparr>rq_head = \<lparr>rh_request_line = line, rh_header_fields = fs\<rparr>, rq_body = []\<rparr>)),
        Some reader') \<and>
    hr_state reader' = HTTPReaderStateEnd \<and> pending incoming (hr_buffered_reader reader') = []"
proof -
  let ?request = "\<lparr>rq_head = \<lparr>rh_request_line = line, rh_header_fields = fs\<rparr>, rq_body = []\<rparr>"
  let ?reading = "\<lambda>b. reader\<lparr>hr_state := HTTPReaderStateReading, hr_buffered_reader := b\<rparr>"
  obtain b where b: "get_http_request env hpack http send (Some reader) =
      map_option (\<lambda>(r, reader'). (r, Some reader'))
        (lbind (parse_http1_request env hpack http send line True) finish_first_request (?reading b))"
      "reader_ready (h2_alloc env) (h2_io env) incoming outgoing b"
      "pending incoming b = concat (map field_line fs) @ CRLF @ body"
    using servable_first [OF assms(1,2,7,8,5,3)] by blast
  have analysis: "http_analyze_headers http ?request =
      Ok \<lparr>ah_length = (if body = [] then HTTPRequestLengthTypeNoBody else HTTPRequestLengthTypeContentLength (length body)),
        ah_settings = get_request_settings http ?request, ah_connection = HttpAnalyzeConnectionTypeNothingSpecial\<rparr>"
    using analyze_framed [OF assms(1) _ assms(9), of body ?request] assms(10) fs by simp
  obtain b' where b': "parse_http1_request env hpack http send line True (?reading b) =
      Some (Ok (HttpRequestResultTypeOk \<lparr>rq_head = \<lparr>rh_request_line = line, rh_header_fields = fs\<rparr>, rq_body = body\<rparr>
        (get_request_settings http ?request)), ?reading b')"
      "reader_ready (h2_alloc env) (h2_io env) incoming outgoing b'" "pending incoming b' = []"
    using parse_http1_request_ready [OF assms(1), of env incoming outgoing "?reading b" fs body "[]" line _ hpack send True,
        OF _ _ _ assms(10) analysis] b(2,3) assms(8,11) by (auto simp: servable_def)
  from has_more_data_ready [OF b'(2,3)] b(1) b'(1,3) assms(4) show ?thesis
    by (intro exI [of _ "?reading b'\<lparr>hr_state := HTTPReaderStateEnd\<rparr>"])
      (simp add: lbind_def finish_first_request_def)
qed


definition sample_http :: "int http_env" where
  "sample_http = thousandths_env\<lparr>lib_eq_ignore_case := (\<lambda>s t. map lower_case s = map lower_case t)\<rparr>"

lemma sample_library: "string_library sample_http"
proof -
  have "lib_split (env_uri sample_http) = cut_first" by (simp add: sample_http_def sample_env_def)
  moreover have "dropWhile (\<lambda>c. c = 32) s = s" if "starts_visible s" for s :: bytes
    using that by (cases s) (auto simp: starts_visible_def)
  ultimately show ?thesis
    by (simp add: string_library_def parts_law_def lstrip_law_def ignore_case_law_def cut_first_law)
      (simp add: sample_http_def thousandths_env_def)
qed

lemma sample_http_sel [simp]:
  "env_uri sample_http = sample_env" "lib_eq_ignore_case sample_http s t \<longleftrightarrow> map lower_case s = map lower_case t"
  by (simp_all add: sample_http_def)

definition post_line :: HttpRequestLine where
  "post_line =
     \<lparr>rl_method = HTTPRequestMethodPost,
      rl_uri = ParsedURITypeAbsPath \<lparr>up_path = Some (lit ''/''), up_search_path = Map.empty, up_fragment = Some []\<rparr>,
      rl_protocol_data = \<lparr>pd_version = HTTPProtocolVersion1Dot1, pd_stream_identifier = 0\<rparr>\<rparr>"

lemma post_line_sel [simp]:
  "rl_method post_line = HTTPRequestMethodPost" "pd_version (rl_protocol_data post_line) = HTTPProtocolVersion1Dot1"
  by (simp_all add: post_line_def)

definition waiting :: "bytes \<Rightarrow> pipe HTTPReader" where
  "waiting bs =
     \<lparr>hr_protocol = ProtocolSelectedNone, hr_buffered_reader = pipe_reader bs, hr_state = HTTPReaderStateEmpty,
      hr_general_context = HTTPContextTypeV1\<rparr>"

lemma waiting_ready:
  "length bs < 2 ^ 63 \<Longrightarrow> reader_ready (h2_alloc (pipe_env k)) (h2_io (pipe_env k)) pipe_in pipe_out (hr_buffered_reader (waiting bs))"
  "pending pipe_in (hr_buffered_reader (waiting bs)) = bs"
  by (simp_all add: waiting_def pipe_reader_def pipe_env_def reader_ready_def pending_def pipe_reliable)

definition host_field :: HttpHeaderField where
  "host_field = field ''host'' (lit ''x'')"

lemma host_field_plain: "plain_field sample_http host_field"
  by (simp add: plain_field_def host_field_def lit_def lower_case_def)

lemma post_servable:
  assumes "fs \<subseteq> {host_field, length_field (lit ''hello''), field ''connection'' (lit ''close'')}"
  shows "\<forall>f \<in> fs. field_ok f"
  using assms
  by (auto simp: field_ok_def host_field_def length_field_def starts_visible_def lit_def print_nat.simps)

lemma post_line_servable:
  "set fs \<subseteq> {host_field, length_field (lit ''hello''), field ''connection'' (lit ''close'')} \<Longrightarrow>
    servable sample_http post_line (lit ''/'') fs"
  using post_servable parse_root_path
  by (simp add: servable_def post_line_def parse_request_uri_def refused_line_def lit_def)


text \<open>
  C37. A valid request of HTTP/1.1 loses its body when \<open>Connection: close\<close> comes after the Content-Length: the field
  overwrites the length that was found, and the length by closing is taken back for HTTP/1.1, so no body is expected.
  On no transport is the body delivered; the request is either handed on without it or, when the bytes of the body are
  already in the buffer, refused as one that lacks a length.
\<close>

theorem http1_close_drops_body:
  assumes "string_library http" "reader_ready (h2_alloc env) (h2_io env) incoming outgoing (hr_buffered_reader reader)"
    and "hr_state reader = HTTPReaderStateEmpty" "hr_general_context reader = HTTPContextTypeV1"
    and "hr_protocol reader \<noteq> ProtocolSelectedHttp2"
    and fs: "fs = pre @ [length_field body] @ mid @ [field ''connection'' (lit ''close'')] @ post"
    and "pending incoming (hr_buffered_reader reader) =
      request_text (rl_method line) path (pd_version (rl_protocol_data line)) fs @ body"
    and "servable http line path fs" and plain: "\<forall>f \<in> set (pre @ mid @ post). plain_field http f"
    and len: "length body < 2 ^ 31" and version: "pd_version (rl_protocol_data line) = HTTPProtocolVersion1Dot1"
  shows "\<exists>result reader'. get_http_request env hpack http send (Some reader) = Some (Ok result, Some reader') \<and>
    (result = HttpRequestResultTypeError (HttpRequestErrorEnum HttpRequestErrorTypeLengthRequired) \<or>
     (\<exists>settings. result = HttpRequestResultTypeOk
        \<lparr>rq_head = \<lparr>rh_request_line = line, rh_header_fields = fs\<rparr>, rq_body = []\<rparr> settings))"
proof -
  let ?request = "\<lparr>rq_head = \<lparr>rh_request_line = line, rh_header_fields = fs\<rparr>, rq_body = []\<rparr>"
  let ?reading = "\<lambda>b. reader\<lparr>hr_state := HTTPReaderStateReading, hr_buffered_reader := b\<rparr>"
  let ?h2 = "\<lparr>us_upgrade_h2c_present = False, us_connection_has_both_upgrade_and_h2_settings = False, us_settings_buffer = None\<rparr>"
  obtain b where b: "get_http_request env hpack http send (Some reader) =
      map_option (\<lambda>(r, reader'). (r, Some reader'))
        (lbind (parse_http1_request env hpack http send line True) finish_first_request (?reading b))"
      "reader_ready (h2_alloc env) (h2_io env) incoming outgoing b"
      "pending incoming b = concat (map field_line fs) @ CRLF @ body"
    using servable_first [OF assms(1,2,7,8,5,3)] by blast
  have close: "analyze_field http (field ''connection'' (lit ''close'')) (n, c, h2) = Ok (HTTPRequestLengthTypeClose, c, h2)" for n c h2
    using assms(1) by (simp add: analyze_field_def string_library_def ignore_case_law_def lit_def lower_case_def)
  have "analyze_loop http fs (HTTPRequestLengthTypeNoBody, HttpAnalyzeConnectionTypeNothingSpecial, ?h2) =
      Ok (HTTPRequestLengthTypeClose, HttpAnalyzeConnectionTypeNothingSpecial, ?h2)"
    using plain analyze_length_field [OF assms(1), of body] len
    by (simp add: fs analyze_loop_append analyze_plain close)
  then have analysis: "http_analyze_headers http ?request =
      Ok \<lparr>ah_length = HTTPRequestLengthTypeNoBody, ah_settings = get_request_settings http ?request,
          ah_connection = HttpAnalyzeConnectionTypeNothingSpecial\<rparr>"
    using version by (simp add: http_analyze_headers_def Let_def)
  obtain b' where b': "parse_http1_request env hpack http send line True (?reading b) =
      Some (Ok (HttpRequestResultTypeOk ?request (get_request_settings http ?request)), ?reading b')"
    using parse_http1_request_ready [OF assms(1), of env incoming outgoing "?reading b" fs "[]" body line _ hpack send True,
        OF _ _ _ _ analysis] b(2,3) assms(8) by (auto simp: servable_def)
  show ?thesis
    by (cases "buffered_reader_has_more_data b'") (simp_all add: b(1) lbind_def b' finish_first_request_def assms(4))
qed

theorem http1_close_drops_body_witness:
  "\<exists>result reader'.
    get_http_request (pipe_env 600) (server_env (\<lambda>_. True) (\<lambda>_. True) True) sample_http sample_send
      (Some (waiting (request_text HTTPRequestMethodPost (lit ''/'') HTTPProtocolVersion1Dot1
        [length_field (lit ''hello''), field ''connection'' (lit ''close'')] @ lit ''hello''))) = Some (Ok result, Some reader') \<and>
    (\<forall>request settings. result = HttpRequestResultTypeOk request settings \<longrightarrow> rq_body request = [])"
proof -
  let ?fs = "[length_field (lit ''hello''), field ''connection'' (lit ''close'')]"
  let ?text = "request_text HTTPRequestMethodPost (lit ''/'') HTTPProtocolVersion1Dot1 ?fs @ lit ''hello''"
  have fs: "?fs = [] @ [length_field (lit ''hello'')] @ [] @ [field ''connection'' (lit ''close'')] @ []" by simp
  have "length ?text < 1000"
    by (simp add: request_text_def field_line_def host_field_def length_field_def lit_def print_nat.simps)
  then have "length ?text < 2 ^ 63" by simp
  note ready = waiting_ready(1) [OF this, of 600]
  have pend: "pending pipe_in (hr_buffered_reader (waiting ?text)) =
      request_text (rl_method post_line) (lit ''/'') (pd_version (rl_protocol_data post_line)) ?fs @ lit ''hello''"
    by (simp add: waiting_ready)
  have state: "hr_state (waiting ?text) = HTTPReaderStateEmpty" "hr_general_context (waiting ?text) = HTTPContextTypeV1"
      "hr_protocol (waiting ?text) \<noteq> ProtocolSelectedHttp2"
    by (simp_all add: waiting_def)
  have "servable sample_http post_line (lit ''/'') ?fs" by (rule post_line_servable) simp
  moreover have "\<forall>f \<in> set ([] @ [] @ []). plain_field sample_http f" "length (lit ''hello'') < 2 ^ 31"
      "pd_version (rl_protocol_data post_line) = HTTPProtocolVersion1Dot1"
    by (simp_all add: lit_def)
  ultimately obtain result reader' where
    "get_http_request (pipe_env 600) (server_env (\<lambda>_. True) (\<lambda>_. True) True) sample_http sample_send (Some (waiting ?text)) =
      Some (Ok result, Some reader')"
    "result = HttpRequestResultTypeError (HttpRequestErrorEnum HttpRequestErrorTypeLengthRequired) \<or>
     (\<exists>settings. result = HttpRequestResultTypeOk
        \<lparr>rq_head = \<lparr>rh_request_line = post_line, rh_header_fields = ?fs\<rparr>, rq_body = []\<rparr> settings)"
    using http1_close_drops_body [OF sample_library ready state fs pend,
        of "server_env (\<lambda>_. True) (\<lambda>_. True) True" sample_send] by blast
  then show ?thesis by fastforce
qed

section \<open>The states of the reader\<close>

text \<open>Actions after which a property of the reader still holds.\<close>

definition keeps :: "('s \<Rightarrow> bool) \<Rightarrow> ('e, 's, 'a) loop_act \<Rightarrow> bool" where
  "keeps P m \<longleftrightarrow> (\<forall>s r s'. P s \<longrightarrow> m s = Some (r, s') \<longrightarrow> P s')"

named_theorems keeping

lemma keeps_lact [keeping]: "keeps P (lret x)" "keeps P (lerr e)" "keeps P (lact (alift r))"
  by (auto simp: keeps_def loop_acts)

lemma keepsD: "keeps P m \<Longrightarrow> m s = Some (r, s') \<Longrightarrow> P s \<Longrightarrow> P s'"
  unfolding keeps_def by blast

lemma keeps_lbind [keeping]:
  assumes m: "keeps P m" and f: "\<And>x. keeps P (f x)"
  shows "keeps P (lbind m f)"
  unfolding keeps_def
proof (intro allI impI)
  fix s r s'
  assume s: "P s" and run: "lbind m f s = Some (r, s')"
  then obtain r1 s1 where r1: "m s = Some (r1, s1)" by (auto simp: lbind_def split: option.splits)
  from keepsD [OF m r1 s] run r1 keepsD [OF f] show "P s'" by (cases r1) (auto simp: lbind_def)
qed

lemma keeps_mapped [keeping]: "keeps P m \<Longrightarrow> keeps P (as_result m)" "keeps P m' \<Longrightarrow> keeps P (with_error f m')"
  by (auto simp: keeps_def as_result_def with_error_def)

text \<open>The reader has been started.\<close>

definition started :: "'d HTTPReader \<Rightarrow> bool" where
  "started reader \<longleftrightarrow> hr_state reader \<noteq> HTTPReaderStateEmpty"

lemma keeps_on_buffered [keeping]: "keeps started (on_buffered m)"
  by (auto simp: keeps_def started_def on_buffered_def)

lemma keeps_body [keeping]: "keeps started (get_http_body env analyze)"
  by (auto simp: keeps_def started_def get_http_body_def loop_acts
      split: HTTPRequestLength.splits option.splits res.splits prod.splits BufferedReadResult.splits)

lemma keeps_upgrade [keeping]: "keeps started (process_http2_upgrade_request env hpack http send request settings h2c)"
  by (auto simp: keeps_def started_def process_http2_upgrade_request_def Let_def
      split: option.splits res.splits prod.splits)

lemma keeps_http1 [keeping]: "keeps started (parse_http1_request env hpack http send line first)"
  unfolding parse_http1_request_def Let_def
  by (intro keeping) (auto intro!: keeping split: res.splits HTTPAnalyzeHeaderError.splits HttpAnalyzeConnection.splits)

lemma keeps_http2 [keeping]: "keeps started (parse_http2_request_of env hpack http context)"
  unfolding parse_http2_request_of_def
  by (intro keeping) (auto simp: keeps_def started_def)

lemma started_http2:
  "parse_http2_request_of env hpack http c (reader\<lparr>hr_buffered_reader := b, hr_general_context := g\<rparr>) = Some (r, reader') \<Longrightarrow>
    started reader \<Longrightarrow> started reader'"
  by (drule keepsD [OF keeps_http2]) (auto simp: started_def)

lemma keeps_start [keeping]: "keeps started (start_http2 env hpack http line failure)"
  unfolding start_http2_def
  by (intro keeping)
    (auto simp: keeps_def loop_acts dest: started_http2 split: prod.splits res.splits if_splits, auto simp: started_def)

lemma keeps_finish [keeping]: "keeps started (finish_first_request result)"
  by (auto simp: keeps_def started_def finish_first_request_def Let_def
      split: HttpRequestResult.splits HTTPGeneralContext.splits if_splits)

lemmas kept =
  keeps_lact(1) [THEN keepsD] keeps_start [THEN keepsD] keeps_lbind [OF keeps_http1 keeps_finish, THEN keepsD]

lemma keeps_first: "keeps started (parse_first_http_request env hpack http send)"
  unfolding parse_first_http_request_def
  by (intro keeping)
    (auto simp: keeps_def Let_def split: HttpRequestLineResult.splits option.splits if_splits dest: kept)

lemma get_http_request_starts:
  assumes "get_http_request env hpack http send (Some reader) = Some (r, Some reader')"
  shows "started reader'"
proof (cases "hr_state reader")
  case HTTPReaderStateEmpty
  with assms show ?thesis
    by (auto simp: get_http_request_def dest!: keepsD [OF keeps_first]) (auto simp: started_def)
next
  case HTTPReaderStateReading
  with assms show ?thesis
    by (auto simp: get_http_request_def parse_next_http_request_def loop_acts
        split: HTTPGeneralContext.splits dest!: keepsD [OF keeps_http2]) (auto simp: started_def)
qed (use assms in \<open>auto simp: get_http_request_def loop_acts started_def\<close>)

lemma http2_context_stays:
  "parse_http2_request_of env hpack http c reader = Some (Ok result, reader') \<Longrightarrow>
    \<exists>c'. hr_general_context reader' = HTTPContextTypeV2 c'"
  by (auto simp: parse_http2_request_of_def lbind_def split: option.splits prod.splits res.splits)

lemma start_http2_ok:
  "start_http2 env hpack http line failure reader = Some (Ok (HttpRequestResultTypeOk request settings), reader') \<Longrightarrow>
    hr_general_context reader' \<noteq> HTTPContextTypeV1"
  by (auto simp: start_http2_def lbind_def lret_def lact_def aret_def dest!: http2_context_stays
      split: option.splits prod.splits res.splits if_splits)

lemma finish_first_ok:
  "finish_first_request result reader = Some (Ok (HttpRequestResultTypeOk request settings), reader') \<Longrightarrow>
    hr_general_context reader' = HTTPContextTypeV1 \<Longrightarrow> hr_state reader' = HTTPReaderStateEnd"
  by (auto simp: finish_first_request_def Let_def split: HttpRequestResult.splits HTTPGeneralContext.splits if_splits)

lemma first_request_ends:
  assumes "parse_first_http_request env hpack http send reader = Some (Ok (HttpRequestResultTypeOk request settings), reader')"
    and "hr_general_context reader' = HTTPContextTypeV1"
  shows "hr_state reader' = HTTPReaderStateEnd"
proof -
  obtain line reader1 where "(let is_v2 = (pd_version (rl_protocol_data line) = HTTPProtocolVersion2) in
      if hr_protocol reader1 = ProtocolSelectedHttp1Dot1 \<and> is_v2
      then lret (HttpRequestResultTypeError (HttpRequestErrorEnum HttpRequestErrorTypeInvalidHttpVersion)) reader1
      else if hr_protocol reader1 = ProtocolSelectedHttp2
      then start_http2 env hpack http line (\<lambda>_. HttpRequestErrorEnum HttpRequestErrorTypeInvalidHttp2Preface) reader1
      else if is_v2 then start_http2 env hpack http line HttpRequestErrorAdvanced reader1
      else
        (case refused_line line of
           Some error \<Rightarrow> lret (HttpRequestResultTypeError error) reader1
         | None \<Rightarrow> lbind (parse_http1_request env hpack http send line True) finish_first_request reader1)) =
      Some (Ok (HttpRequestResultTypeOk request settings), reader')"
    using assms(1) unfolding parse_first_http_request_def lbind_def [of "on_buffered _"]
    by (auto simp: loop_acts split: option.splits prod.splits res.splits HttpRequestLineResult.splits)
  then have "lbind (parse_http1_request env hpack http send line True) finish_first_request reader1 =
      Some (Ok (HttpRequestResultTypeOk request settings), reader')"
    using assms(2) by (auto simp: Let_def lret_def lact_def aret_def split: if_splits option.splits dest: start_http2_ok)
  then show ?thesis
    using assms(2) by (auto simp: lbind_def dest: finish_first_ok split: option.splits prod.splits res.splits)
qed

text \<open>
  C13. A connection of HTTP/1 carries one request, whatever the client sends and however the transport behaves: when
  \<open>get_http_request\<close> has returned and the connection has not changed to HTTP/2, every further call reports an error and
  leaves the connection alone; after a request the reader says that no more is available, so the server does not call
  again.
\<close>

theorem http1_single_request:
  assumes "get_http_request env hpack http send (Some reader) = Some (Ok result, Some reader')"
    and "hr_general_context reader' = HTTPContextTypeV1"
  shows "(\<exists>error. get_http_request env hpack http send (Some reader') =
           Some (Ok (HttpRequestResultTypeError (HttpRequestErrorAdvanced error)), Some reader')) \<and>
         (\<forall>request settings. result = HttpRequestResultTypeOk request settings \<longrightarrow> \<not> http_reader_more_available reader')"
proof -
  have "started reader'" using get_http_request_starts [OF assms(1)] .
  then have again: "\<exists>error. get_http_request env hpack http send (Some reader') =
      Some (Ok (HttpRequestResultTypeError (HttpRequestErrorAdvanced error)), Some reader')"
    using assms(2) by (cases "hr_state reader'") (auto simp: started_def get_http_request_def loop_acts)
  have "hr_state reader' = HTTPReaderStateEnd" if "result = HttpRequestResultTypeOk request settings" for request settings
    using assms that
    by (cases "hr_state reader")
      (auto simp: get_http_request_def parse_next_http_request_def loop_acts dest: first_request_ends http2_context_stays
        split: HTTPGeneralContext.splits)
  with again show ?thesis by (auto simp: http_reader_more_available_def)
qed

theorem http1_single_request_witness:
  "\<exists>reader' error.
    get_http_request (pipe_env 2) (server_env (\<lambda>_. True) (\<lambda>_. True) True) sample_http sample_send (Some (waiting [])) =
      Some (Ok (HttpRequestResultTypeError (HttpRequestErrorAdvanced ''failed to parse request line'')), Some reader') \<and>
    get_http_request (pipe_env 2) (server_env (\<lambda>_. True) (\<lambda>_. True) True) sample_http sample_send (Some reader') =
      Some (Ok (HttpRequestResultTypeError (HttpRequestErrorAdvanced error)), Some reader')"
proof -
  note ready = waiting_ready(1) [of "[]" 2, simplified]
  obtain b where "buffered_reader_get_until_delimiter (h2_alloc (pipe_env 2)) (h2_io (pipe_env 2)) CRLF
      (hr_buffered_reader (waiting [])) = Some (Ok (BufferedReadResultTypeEOF, b))"
    using delimiter_end [OF ready waiting_ready(2)] unfolding until_delimiter_loop [OF ready] by blast
  then have line: "read_line (pipe_env 2) (hr_buffered_reader (waiting [])) = Some (Ok None :: (unit, _) res, b)"
    by (simp add: read_line_def)
  let ?r = "(waiting [])\<lparr>hr_state := HTTPReaderStateReading, hr_buffered_reader := b\<rparr>"
  have "get_http_request (pipe_env 2) (server_env (\<lambda>_. True) (\<lambda>_. True) True) sample_http sample_send (Some (waiting [])) =
      Some (Ok (HttpRequestResultTypeError (HttpRequestErrorAdvanced ''failed to parse request line'')), Some ?r)"
    using line by (simp add: waiting_def get_http_request_def parse_first_http_request_def parse_http1_request_line_def
        loop_acts on_buffered_def)
  moreover have "hr_general_context ?r = HTTPContextTypeV1" by (simp add: waiting_def)
  ultimately show ?thesis
    using http1_single_request [of "pipe_env 2" "server_env (\<lambda>_. True) (\<lambda>_. True) True" sample_http sample_send "waiting []" _ ?r]
    by blast
qed

end
