(* ===== verification/Routes.thy ===== *)
theory Routes
  imports Authentication Http1_Parser
begin

text \<open>
  Routes (\<open>src/src/http/routes.c\<close>): which route a request takes, the authorization that a route asks for, and the
  execution of a route.

  Routes hold pointers to executors; here they are functions, with the data they were registered with applied. The
  observers of requests and responses (the proxies) are functions on a state \<open>'p\<close> of their own.

  The theorem: the first route that fits is taken, and a route with authorization is never reached without a user.
\<close>

section \<open>Data\<close>

datatype HTTPRouteFn =
    HTTPRouteFnTypeExecutor "ParsedURLPath \<Rightarrow> bool \<Rightarrow> HTTPResponseToSend"
  | HTTPRouteFnTypeExecutorExtended "SendSettings \<Rightarrow> HttpRequest \<Rightarrow> ParsedURLPath \<Rightarrow> HTTPResponseToSend"
  | HTTPRouteFnTypeExecutorAuth "ParsedURLPath \<Rightarrow> AuthUserWithContext \<Rightarrow> bool \<Rightarrow> HTTPResponseToSend"

datatype HTTPRouteSpecialData = HTTPRouteSpecialDataTypeShutdown | HTTPRouteSpecialDataTypeWs

datatype HTTPRouteServeFolderType = HTTPRouteServeFolderTypeRelative | HTTPRouteServeFolderTypeAbsolute

datatype HTTPRouteData =
    HTTPRouteTypeNormal HTTPRouteFn | HTTPRouteTypeSpecial HTTPRouteSpecialData
  | HTTPRouteTypeInternal HTTPResponseToSend | HTTPRouteTypeServeFolder HTTPRouteServeFolderType bytes

datatype HTTPAuthorization =
    HTTPAuthorizationTypeNone | HTTPAuthorizationTypeSimple | HTTPAuthorizationTypeComplicated u64

datatype HTTPRequestRouteMethod = HTTPRequestRouteMethodGet | HTTPRequestRouteMethodPost

datatype HTTPRoutePathType = HTTPRoutePathTypeExact | HTTPRoutePathTypeStartsWith

record HTTPRoutePath =
  rp_type :: HTTPRoutePathType
  rp_data :: "bytes option"

record HTTPRoute =
  ro_method :: HTTPRequestRouteMethod
  ro_path :: HTTPRoutePath
  ro_data :: HTTPRouteData
  ro_auth :: HTTPAuthorization

datatype 'p HTTPRequestProxy =
    HTTPRequestProxyTypePre "HttpRequest \<Rightarrow> u32 \<Rightarrow> 'p \<Rightarrow> 'p"
  | HTTPRequestProxyTypePost "HttpRequest \<Rightarrow> HTTPResponseToSend \<Rightarrow> u32 \<Rightarrow> 'p \<Rightarrow> 'p"

record 'p RouteManager =
  rm_routes :: "HTTPRoute list"
  rm_proxies :: "'p HTTPRequestProxy list"
  rm_auth_providers :: "AuthenticationProvider list"

record SelectedRoute =
  sr_route_data :: HTTPRouteData
  sr_path :: ParsedURLPath
  sr_original_path :: "bytes option"
  sr_auth_user :: "AuthUserWithContext option"

abbreviation MIME_TYPE_TEXT :: bytes where
  "MIME_TYPE_TEXT \<equiv> lit ''text/plain''"

definition http_response_body_from_static_string :: "(nat \<Rightarrow> bool) \<Rightarrow> bytes \<Rightarrow> bool \<Rightarrow> (unit, HTTPResponseBody) res" where
  "http_response_body_from_static_string alloc s send_body =
     (if alloc (length s + 1) then Ok (http_response_body_from_string s send_body) else Undef OutOfBounds)"

text \<open>A response with a fixed text and no further fields.\<close>

definition text_response :: "(nat \<Rightarrow> bool) \<Rightarrow> nat \<Rightarrow> string \<Rightarrow> bool \<Rightarrow> (unit, HTTPResponseToSend) res" where
  "text_response alloc status s send_body =
     rbind (http_response_body_from_static_string alloc (lit s) send_body) (\<lambda>body.
     Ok \<lparr>ts_status = status, ts_body = body, ts_mime_type = Some MIME_TYPE_TEXT, ts_additional_headers = []\<rparr>)"

section \<open>Matching\<close>

fun is_matching :: "HTTPRequestRouteMethod \<Rightarrow> HTTPRequestMethod \<Rightarrow> bool" where
  "is_matching HTTPRequestRouteMethodGet HTTPRequestMethodHead = True"
| "is_matching HTTPRequestRouteMethodGet HTTPRequestMethodGet = True"
| "is_matching HTTPRequestRouteMethodPost HTTPRequestMethodPost = True"
| "is_matching _ _ = False"

abbreviation text_of :: "tstr \<Rightarrow> bytes" where
  "text_of s \<equiv> (case s of None \<Rightarrow> [] | Some t \<Rightarrow> t)"

definition is_route_matching :: "HTTPRoutePath \<Rightarrow> tstr \<Rightarrow> bool" where
  "is_route_matching route_path path =
     (case rp_data route_path of
        None \<Rightarrow> True
      | Some data \<Rightarrow>
          (case rp_type route_path of
             HTTPRoutePathTypeExact \<Rightarrow> text_of path = data
           | HTTPRoutePathTypeStartsWith \<Rightarrow>
               (if length (text_of path) < length data then False else take (length data) (text_of path) = data)))"

definition selected_route_from_data ::
  "(nat \<Rightarrow> bool) \<Rightarrow> HTTPRouteData \<Rightarrow> bytes option \<Rightarrow> ParsedURLPath \<Rightarrow> AuthUserWithContext option \<Rightarrow> SelectedRoute option" where
  "selected_route_from_data alloc route_data original_path path auth_user =
     (if alloc 1 then
        Some \<lparr>sr_route_data = route_data, sr_path = path, sr_original_path = original_path, sr_auth_user = auth_user\<rparr>
      else None)"

section \<open>Authorization\<close>

datatype HttpAuthHeaderValue = HttpAuthHeaderValueTypeBasic bytes bytes | HttpAuthHeaderValueTypeError string

definition parse_authorization_value :: "'f http_env \<Rightarrow> bytes \<Rightarrow> HttpAuthHeaderValue" where
  "parse_authorization_value http value =
     (if value = [] then HttpAuthHeaderValueTypeError ''empty header value''
      else
        (case lib_split (env_uri http) value (lit '' '') of
           None \<Rightarrow> HttpAuthHeaderValueTypeError ''no auth-params specified''
         | Some (auth_scheme, auth_param) \<Rightarrow>
             (if lib_eq_ignore_case http auth_scheme (lit ''Basic'') then
                (if auth_param = [] then HttpAuthHeaderValueTypeError ''data was empty''
                 else
                   (case lib_base64 http auth_param of
                      None \<Rightarrow> HttpAuthHeaderValueTypeError ''base64 decoding failed''
                    | Some decoded \<Rightarrow>
                        (case lib_split (env_uri http) decoded (lit '':'') of
                           Some (username, password) \<Rightarrow> HttpAuthHeaderValueTypeBasic username password
                         | None \<Rightarrow> HttpAuthHeaderValueTypeBasic decoded [])))
              else HttpAuthHeaderValueTypeError ''invalid auth-scheme specified'')))"

datatype HttpAuthStatus =
    HttpAuthStatusTypeUnauthorized string | HttpAuthStatusTypeAuthorized AuthUserWithContext
  | HttpAuthStatusTypeAuthorizationError string | HttpAuthStatusTypeError string

definition handle_http_authorization_impl ::
  "auth_env \<Rightarrow> 'f http_env \<Rightarrow> AuthenticationProvider list \<Rightarrow> HttpRequest \<Rightarrow> (unit, HttpAuthStatus) res option" where
  "handle_http_authorization_impl auth http auth_providers request =
     (case find_header_by_key http (rh_header_fields (rq_head request)) (lit ''authorization'') of
        None \<Rightarrow> Some (Ok (HttpAuthStatusTypeUnauthorized ''Authorization header missing''))
      | Some authorization_field \<Rightarrow>
          (case parse_authorization_value http (hf_value authorization_field) of
             HttpAuthHeaderValueTypeError _ \<Rightarrow> Some (Ok (HttpAuthStatusTypeError ''Header parse error''))
           | HttpAuthHeaderValueTypeBasic username password \<Rightarrow>
               map_option (\<lambda>r. rbind r (\<lambda>find_result.
                   Ok (case find_result of
                         AuthenticationFindResultNoSuchUser \<Rightarrow> HttpAuthStatusTypeUnauthorized ''no such user''
                       | AuthenticationFindResultWrongPassword \<Rightarrow> HttpAuthStatusTypeUnauthorized ''wrong password''
                       | AuthenticationFindResultOk user \<Rightarrow> HttpAuthStatusTypeAuthorized user
                       | AuthenticationFindResultError _ \<Rightarrow>
                           HttpAuthStatusTypeAuthorizationError ''Underlying authentication provider error'')))
                 (authentication_providers_find_user_with_password auth auth_providers username password)))"

text \<open>The data of a complicated authorization is not used.\<close>

definition handle_http_authorization ::
  "auth_env \<Rightarrow> 'f http_env \<Rightarrow> AuthenticationProvider list \<Rightarrow> HttpRequest \<Rightarrow> HTTPAuthorization
     \<Rightarrow> (unit, HttpAuthStatus) res option" where
  "handle_http_authorization auth http auth_providers request authorization =
     (case authorization of
        HTTPAuthorizationTypeNone \<Rightarrow> Some (Ok (HttpAuthStatusTypeError ''Implementation error''))
      | HTTPAuthorizationTypeSimple \<Rightarrow> handle_http_authorization_impl auth http auth_providers request
      | HTTPAuthorizationTypeComplicated _ \<Rightarrow> handle_http_authorization_impl auth http auth_providers request)"

text \<open>The answer to a request without authorization; a debug build adds the reason.\<close>

definition unauthorized_response ::
  "'d h2_env \<Rightarrow> 'f http_env \<Rightarrow> bool \<Rightarrow> string \<Rightarrow> (unit, HTTPResponseToSend) res" where
  "unauthorized_response env http ndebug reason =
     rbind (format_text (h2_alloc env)
              (lit ''Basic realm='' @ [0x22] @ lit ''Authentication'' @ [0x22] @ lit '', charset='' @ [0x22] @ lit ''UTF-8'' @ [0x22]))
       (\<lambda>www_authenticate.
     rbind (add_http_header_field http [] (lit ''www-authenticate'') www_authenticate) (\<lambda>fs1.
     rbind (if ndebug then Ok fs1 else add_http_header_field http fs1 (lit ''x-special-reason'') (lit reason)) (\<lambda>fs2.
     Ok \<lparr>ts_status = 401, ts_body = http_response_body_empty, ts_mime_type = Some MIME_TYPE_TEXT,
         ts_additional_headers = fs2\<rparr>)))"

text \<open>A response of the server itself as route; without memory for the text of the response there is no route.\<close>

definition internal_route ::
  "(nat \<Rightarrow> bool) \<Rightarrow> HTTPRoute \<Rightarrow> ParsedURLPath \<Rightarrow> (unit, HTTPResponseToSend) res \<Rightarrow> (unit, SelectedRoute option) res" where
  "internal_route alloc route path response =
     (case response of
        Ok to_send \<Rightarrow> Ok (selected_route_from_data alloc (HTTPRouteTypeInternal to_send) (rp_data (ro_path route)) path None)
      | Err _ \<Rightarrow> Ok None
      | Undef u \<Rightarrow> Undef u)"

definition process_matched_route ::
  "'d h2_env \<Rightarrow> 'f http_env \<Rightarrow> auth_env \<Rightarrow> AuthenticationProvider list \<Rightarrow> HttpRequestProperties \<Rightarrow> HttpRequest \<Rightarrow> HTTPRoute
     \<Rightarrow> (unit, SelectedRoute option) res option" where
  "process_matched_route env http auth auth_providers http_properties request route =
     (case http_properties of
        HTTPPropertyTypeNormal path \<Rightarrow>
          (let alloc = h2_alloc env; send_body = (rl_method (rh_request_line (rq_head request)) \<noteq> HTTPRequestMethodHead) in
           if ro_auth route = HTTPAuthorizationTypeNone
           then Some (Ok (selected_route_from_data alloc (ro_data route) (rp_data (ro_path route)) path None))
           else
             map_option (\<lambda>r. rbind r (\<lambda>auth_status.
                 case auth_status of
                   HttpAuthStatusTypeUnauthorized reason \<Rightarrow>
                     internal_route alloc route path (unauthorized_response env http (au_ndebug auth) reason)
                 | HttpAuthStatusTypeAuthorized user \<Rightarrow>
                     (if \<not> alloc 1
                      then internal_route alloc route path (text_response alloc 500 ''Internal error: OOM'' send_body)
                      else Ok (selected_route_from_data alloc (ro_data route) (rp_data (ro_path route)) path (Some user)))
                 | HttpAuthStatusTypeAuthorizationError _ \<Rightarrow>
                     internal_route alloc route path
                       (text_response alloc 500 ''Internal implementation error in authorization process, type 0'' send_body)
                 | HttpAuthStatusTypeError _ \<Rightarrow>
                     internal_route alloc route path
                       (text_response alloc 500 ''Internal implementation error in authorization process, type 1'' send_body)))
               (handle_http_authorization auth http auth_providers request (ro_auth route)))
      | _ \<Rightarrow> Some (Ok None))"

section \<open>Selecting and executing a route\<close>

fun run_pre_proxies :: "'p HTTPRequestProxy list \<Rightarrow> HttpRequest \<Rightarrow> u32 \<Rightarrow> 'p \<Rightarrow> 'p" where
  "run_pre_proxies [] request address p = p"
| "run_pre_proxies (proxy # proxies) request address p =
     run_pre_proxies proxies request address
       (case proxy of HTTPRequestProxyTypePre f \<Rightarrow> f request address p | HTTPRequestProxyTypePost _ \<Rightarrow> p)"

fun run_post_proxies :: "'p HTTPRequestProxy list \<Rightarrow> HttpRequest \<Rightarrow> HTTPResponseToSend \<Rightarrow> u32 \<Rightarrow> 'p \<Rightarrow> 'p" where
  "run_post_proxies [] request response address p = p"
| "run_post_proxies (proxy # proxies) request response address p =
     run_post_proxies proxies request response address
       (case proxy of HTTPRequestProxyTypePost f \<Rightarrow> f request response address p | HTTPRequestProxyTypePre _ \<Rightarrow> p)"

fun routes_loop ::
  "'d h2_env \<Rightarrow> 'f http_env \<Rightarrow> auth_env \<Rightarrow> AuthenticationProvider list \<Rightarrow> HttpRequestProperties \<Rightarrow> ParsedURLPath \<Rightarrow> HttpRequest
     \<Rightarrow> HTTPRoute list \<Rightarrow> (unit, SelectedRoute option) res option" where
  "routes_loop env http auth auth_providers http_properties path request [] = Some (Ok None)"
| "routes_loop env http auth auth_providers http_properties path request (route # rest) =
     (if is_matching (ro_method route) (rl_method (rh_request_line (rq_head request)))
      then
        (if is_route_matching (ro_path route) (up_path path)
         then process_matched_route env http auth auth_providers http_properties request route
         else routes_loop env http auth auth_providers http_properties path request rest)
      else routes_loop env http auth auth_providers http_properties path request rest)"

definition route_manager_get_route_for_request ::
  "'d h2_env \<Rightarrow> 'f http_env \<Rightarrow> auth_env \<Rightarrow> 'p RouteManager \<Rightarrow> HttpRequestProperties \<Rightarrow> HttpRequest \<Rightarrow> u32 \<Rightarrow> 'p
     \<Rightarrow> ((unit, SelectedRoute option) res \<times> 'p) option" where
  "route_manager_get_route_for_request env http auth route_manager http_properties request address p =
     (case http_properties of
        HTTPPropertyTypeNormal path \<Rightarrow>
          map_option (\<lambda>r. (r, run_pre_proxies (rm_proxies route_manager) request address p))
            (routes_loop env http auth (rm_auth_providers route_manager) http_properties path request (rm_routes route_manager))
      | _ \<Rightarrow> Some (Ok None, p))"

text \<open>The response of a route; for HEAD the body is not sent whatever the executor says.\<close>

definition route_response ::
  "(nat \<Rightarrow> bool) \<Rightarrow> HTTPRouteFn \<Rightarrow> SendSettings \<Rightarrow> HttpRequest \<Rightarrow> ParsedURLPath \<Rightarrow> AuthUserWithContext option
     \<Rightarrow> (unit, HTTPResponseToSend) res" where
  "route_response alloc route send_settings http_request path auth_user =
     (let is_head = (rl_method (rh_request_line (rq_head http_request)) = HTTPRequestMethodHead); send_body = (\<not> is_head) in
      rbind (case route of
               HTTPRouteFnTypeExecutor fn_executor \<Rightarrow> Ok (fn_executor path send_body)
             | HTTPRouteFnTypeExecutorAuth fn_executor_auth \<Rightarrow>
                 (case auth_user of
                    None \<Rightarrow> text_response alloc 500 ''Internal error: Authentication required by route, but none given'' send_body
                  | Some user \<Rightarrow> Ok (fn_executor_auth path user send_body))
             | HTTPRouteFnTypeExecutorExtended executor_extended \<Rightarrow> Ok (executor_extended send_settings http_request path))
        (\<lambda>response.
      Ok (if is_head then response\<lparr>ts_body := (ts_body response)\<lparr>rb_send_body_data := False\<rparr>\<rparr> else response)))"

definition route_manager_execute_route ::
  "'d h2_env \<Rightarrow> hpack_env \<Rightarrow> 'f http_env \<Rightarrow> send_env \<Rightarrow> 'p RouteManager \<Rightarrow> HTTPRouteFn \<Rightarrow> HTTPGeneralContext \<Rightarrow> SendSettings
     \<Rightarrow> HttpRequest \<Rightarrow> ParsedURLPath \<Rightarrow> AuthUserWithContext option \<Rightarrow> u32 \<Rightarrow> 'p \<Rightarrow> 'd ConnectionDescriptor
     \<Rightarrow> (((unit, HTTPGeneralContext) res \<times> 'd ConnectionDescriptor) \<times> 'p) option" where
  "route_manager_execute_route env hpack http send route_manager route general_context send_settings http_request path auth_user
     address p d =
     (case route_response (h2_alloc env) route send_settings http_request path auth_user of
        Undef u \<Rightarrow> Some ((Undef u, d), p)
      | Err e \<Rightarrow> Some ((Err e, d), p)
      | Ok response \<Rightarrow>
          map_option (\<lambda>r. (r, run_post_proxies (rm_proxies route_manager) http_request response address p))
            (send_http_message_to_connection env hpack http send general_context response send_settings d))"

section \<open>What a route may rely on\<close>

text \<open>A route fits a request; a request carries the name and password of a user that some provider knows.\<close>

definition fits :: "HttpRequest \<Rightarrow> ParsedURLPath \<Rightarrow> HTTPRoute \<Rightarrow> bool" where
  "fits request path route \<longleftrightarrow>
     is_matching (ro_method route) (rl_method (rh_request_line (rq_head request))) \<and> is_route_matching (ro_path route) (up_path path)"

definition authenticated ::
  "auth_env \<Rightarrow> 'f http_env \<Rightarrow> AuthenticationProvider list \<Rightarrow> HttpRequest \<Rightarrow> AuthUserWithContext \<Rightarrow> bool" where
  "authenticated auth http providers request user \<longleftrightarrow>
     (\<exists>f name password. find_header_by_key http (rh_header_fields (rq_head request)) (lit ''authorization'') = Some f \<and>
        parse_authorization_value http (hf_value f) = HttpAuthHeaderValueTypeBasic name password \<and>
        authentication_providers_find_user_with_password auth providers name password =
          Some (Ok (AuthenticationFindResultOk user)))"

lemma routes_loop_first:
  assumes "routes_loop env http auth providers props path request routes = Some (Ok (Some selected))"
  shows "\<exists>pre route post. routes = pre @ route # post \<and> fits request path route \<and> (\<forall>r \<in> set pre. \<not> fits request path r) \<and>
    process_matched_route env http auth providers props request route = Some (Ok (Some selected))"
  using assms
proof (induction routes)
  case (Cons route rest)
  show ?case
  proof (cases "fits request path route")
    case True
    with Cons.prems show ?thesis by (intro exI [of _ "[]"]) (auto simp: fits_def)
  next
    case False
    then have "routes_loop env http auth providers props path request rest = Some (Ok (Some selected))"
      using Cons.prems by (auto simp: fits_def split: if_splits)
    with Cons.IH obtain pre r post where "rest = pre @ r # post" "fits request path r" "\<forall>r \<in> set pre. \<not> fits request path r"
        "process_matched_route env http auth providers props request r = Some (Ok (Some selected))" by auto
    with False show ?thesis by (intro exI [of _ "route # pre"]) auto
  qed
qed simp

lemma authorized_authenticated:
  "handle_http_authorization auth http providers request authorization = Some (Ok (HttpAuthStatusTypeAuthorized user)) \<Longrightarrow>
    authenticated auth http providers request user"
  by (auto simp: handle_http_authorization_def handle_http_authorization_impl_def authenticated_def rbind_Ok_iff
      split: HTTPAuthorization.splits option.splits HttpAuthHeaderValue.splits AuthenticationFindResult.splits)
    (metis AuthenticationFindResult.exhaust)+

lemma internal_route_selected:
  "internal_route alloc route path response = Ok (Some selected) \<Longrightarrow>
    \<exists>to_send. response = Ok to_send \<and> sr_route_data selected = HTTPRouteTypeInternal to_send \<and> sr_auth_user selected = None"
  by (auto simp: internal_route_def selected_route_from_data_def split: res.splits if_splits)

lemma text_response_status: "text_response alloc status s send_body = Ok to_send \<Longrightarrow> ts_status to_send = status"
  by (auto simp: text_response_def rbind_Ok_iff)

lemma unauthorized_status: "unauthorized_response env http ndebug reason = Ok to_send \<Longrightarrow> ts_status to_send = 401"
  by (auto simp: unauthorized_response_def rbind_Ok_iff)

lemma process_matched_cases:
  assumes "process_matched_route env http auth providers (HTTPPropertyTypeNormal path) request route = Some (Ok (Some selected))"
  shows "sr_path selected = path \<and>
    (sr_route_data selected = ro_data route \<and> sr_auth_user selected = None \<and> ro_auth route = HTTPAuthorizationTypeNone \<or>
     (\<exists>user. sr_route_data selected = ro_data route \<and> sr_auth_user selected = Some user \<and> authenticated auth http providers request user) \<or>
     (\<exists>to_send. sr_route_data selected = HTTPRouteTypeInternal to_send \<and> ts_status to_send \<in> {401, 500} \<and> sr_auth_user selected = None))"
proof (cases "ro_auth route = HTTPAuthorizationTypeNone")
  case True
  with assms show ?thesis by (auto simp: process_matched_route_def selected_route_from_data_def split: if_splits)
next
  case False
  let ?alloc = "h2_alloc env" and ?send_body = "rl_method (rh_request_line (rq_head request)) \<noteq> HTTPRequestMethodHead"
  from assms False obtain status where
    status: "handle_http_authorization auth http providers request (ro_auth route) = Some (Ok status)"
    by (auto simp: process_matched_route_def Let_def rbind_Ok_iff)
  have internal: "sr_path selected = path \<and> (\<exists>to_send. response = Ok to_send \<and>
      sr_route_data selected = HTTPRouteTypeInternal to_send \<and> sr_auth_user selected = None)"
    if "internal_route ?alloc route path response = Ok (Some selected)" for response
    using that by (auto simp: internal_route_def selected_route_from_data_def split: res.splits if_splits)
  show ?thesis
  proof (cases status)
    case (HttpAuthStatusTypeAuthorized user)
    with status have "authenticated auth http providers request user" by (auto intro: authorized_authenticated)
    with assms False status HttpAuthStatusTypeAuthorized show ?thesis
      by (auto simp: process_matched_route_def Let_def selected_route_from_data_def
          dest!: internal text_response_status split: if_splits)
  qed (use assms False status in \<open>auto simp: process_matched_route_def Let_def
      dest!: internal text_response_status unauthorized_status\<close>)
qed

text \<open>
  C14. A route with authorization is not reached without a user. The route that \<open>route_manager_get_route_for_request\<close>
  selects comes from the first one of the table that fits the method and the path of the request. When that route asks
  for authorization, either its data are handed out together with a user whose name and password the request carries and
  a provider accepted, or the selection is a refusal with status 401 or 500.
\<close>

theorem protected_route_needs_user:
  assumes "route_manager_get_route_for_request env http auth route_manager http_properties request address p =
    Some (Ok (Some selected), p')"
  shows "\<exists>path pre route post. http_properties = HTTPPropertyTypeNormal path \<and> rm_routes route_manager = pre @ route # post \<and>
    fits request path route \<and> (\<forall>r \<in> set pre. \<not> fits request path r) \<and> sr_path selected = path \<and>
    (sr_route_data selected = ro_data route \<and> sr_auth_user selected = None \<and> ro_auth route = HTTPAuthorizationTypeNone \<or>
     (\<exists>user. sr_route_data selected = ro_data route \<and> sr_auth_user selected = Some user \<and>
        authenticated auth http (rm_auth_providers route_manager) request user) \<or>
     (\<exists>to_send. sr_route_data selected = HTTPRouteTypeInternal to_send \<and> ts_status to_send \<in> {401, 500} \<and>
        sr_auth_user selected = None))"
proof -
  obtain path where path: "http_properties = HTTPPropertyTypeNormal path"
    "routes_loop env http auth (rm_auth_providers route_manager) http_properties path request (rm_routes route_manager) =
      Some (Ok (Some selected))"
    using assms by (auto simp: route_manager_get_route_for_request_def split: HttpRequestProperties.splits)
  from routes_loop_first [OF this(2)] process_matched_cases [of env http auth "rm_auth_providers route_manager" path] path(1)
  show ?thesis by blast
qed

definition sample_routes :: "unit RouteManager" where
  "sample_routes =
     \<lparr>rm_routes =
        [\<lparr>ro_method = HTTPRequestRouteMethodGet, ro_path = \<lparr>rp_type = HTTPRoutePathTypeExact, rp_data = Some (lit ''/auth'')\<rparr>,
          ro_data = HTTPRouteTypeSpecial HTTPRouteSpecialDataTypeShutdown, ro_auth = HTTPAuthorizationTypeSimple\<rparr>,
         \<lparr>ro_method = HTTPRequestRouteMethodGet, ro_path = \<lparr>rp_type = HTTPRoutePathTypeStartsWith, rp_data = Some (lit ''/'')\<rparr>,
          ro_data = HTTPRouteTypeNormal (HTTPRouteFnTypeExecutor (\<lambda>path send_body. hello_response)),
          ro_auth = HTTPAuthorizationTypeNone\<rparr>],
      rm_proxies = [], rm_auth_providers = [one_user]\<rparr>"

definition get_request :: "bytes \<Rightarrow> HttpHeaderField list \<Rightarrow> HttpRequest" where
  "get_request path fs =
     \<lparr>rq_head = \<lparr>rh_request_line = \<lparr>rl_method = HTTPRequestMethodGet,
         rl_uri = ParsedURITypeAbsPath \<lparr>up_path = Some path, up_search_path = Map.empty, up_fragment = Some []\<rparr>,
         rl_protocol_data = \<lparr>pd_version = HTTPProtocolVersion1Dot1, pd_stream_identifier = 0\<rparr>\<rparr>, rh_header_fields = fs\<rparr>,
      rq_body = []\<rparr>"

theorem protected_route_needs_user_witness:
  "\<exists>selected to_send. route_manager_get_route_for_request (pipe_env 0) sample_http sample_auth sample_routes
      (get_http_properties (get_request (lit ''/auth'') [])) (get_request (lit ''/auth'') []) 0 () = Some (Ok (Some selected), ()) \<and>
    sr_route_data selected = HTTPRouteTypeInternal to_send \<and> ts_status to_send \<in> {401, 500}"
proof -
  let ?request = "get_request (lit ''/auth'') []"
  have props: "get_http_properties ?request =
      HTTPPropertyTypeNormal \<lparr>up_path = Some (lit ''/auth''), up_search_path = Map.empty, up_fragment = Some []\<rparr>"
    by (simp add: get_http_properties_def get_request_def)
  have "\<exists>selected. route_manager_get_route_for_request (pipe_env 0) sample_http sample_auth sample_routes
      (get_http_properties ?request) ?request 0 () = Some (Ok (Some selected), ())"
    unfolding props
    by (simp add: route_manager_get_route_for_request_def sample_routes_def get_request_def is_route_matching_def
        process_matched_route_def handle_http_authorization_def handle_http_authorization_impl_def find_header_by_key_def
        internal_route_def unauthorized_response_def format_text_def pipe_env_def lit_def add_http_header_field_def
        sample_http_def sample_auth_def thousandths_env_def selected_route_from_data_def)
  then obtain selected where s: "route_manager_get_route_for_request (pipe_env 0) sample_http sample_auth sample_routes
      (get_http_properties ?request) ?request 0 () = Some (Ok (Some selected), ())" ..
  have none: "\<not> authenticated sample_auth sample_http ps ?request user" for ps user
    by (simp add: authenticated_def find_header_by_key_def get_request_def)
  have first: "rm_routes sample_routes = pre @ route # post \<Longrightarrow> \<forall>r \<in> set pre. \<not> fits ?request path r \<Longrightarrow>
      up_path path = Some (lit ''/auth'') \<Longrightarrow> ro_auth route \<noteq> HTTPAuthorizationTypeNone" for pre route post path
    by (auto simp: sample_routes_def Cons_eq_append_conv fits_def get_request_def is_route_matching_def)
  from protected_route_needs_user [OF s] props first none have "\<exists>to_send. sr_route_data selected = HTTPRouteTypeInternal to_send \<and>
      ts_status to_send \<in> {401, 500}" by fastforce
  with s show ?thesis by blast
qed

end
