(* ===== verification/Clock.thy ===== *)
theory Clock
  imports Uri "HOL-Library.Signed_Division"
begin

text \<open>
  Times (\<open>src/src/utils/clock.c\<close>): conversion to seconds, milliseconds and nanoseconds, the difference of two times,
  and the text of a date.

  The clock, the calendar and \<open>strftime\<close> of the C library are fields of \<open>clock_env\<close>; \<open>cl_ndebug\<close> is the build mode. The conversions to
  \<open>double\<close> are left out.
\<close>

section \<open>Times\<close>

record Time =
  tv_sec :: int
  tv_nsec :: int

abbreviation S_TO_MS_RATE :: int where
  "S_TO_MS_RATE \<equiv> 1000"

abbreviation S_TO_US_RATE :: int where
  "S_TO_US_RATE \<equiv> 1000000"

abbreviation S_TO_NS_RATE :: int where
  "S_TO_NS_RATE \<equiv> 1000000000"

definition time_from_details :: "int \<Rightarrow> int \<Rightarrow> Time" where
  "time_from_details seconds nanocseconds = \<lparr>tv_sec = seconds, tv_nsec = nanocseconds\<rparr>"

definition empty_time :: Time where
  "empty_time = time_from_details 0 0"

definition time_from_seconds :: "int \<Rightarrow> Time" where
  "time_from_seconds seconds = time_from_details seconds 0"

definition valid_time :: "Time \<Rightarrow> bool" where
  "valid_time time = (if tv_nsec time \<ge> S_TO_NS_RATE then False else if tv_nsec time < 0 then False else True)"

text \<open>An operation of \<open>time_t\<close>, a signed integer of 64 bits.\<close>

definition signed64 :: "int \<Rightarrow> (unit, int) res" where
  "signed64 n = (if - (2 ^ 63) \<le> n \<and> n < 2 ^ 63 then Ok n else Undef SignedOverflow)"

definition assert_valid :: "bool \<Rightarrow> Time \<Rightarrow> (unit, unit) res" where
  "assert_valid ndebug time = (if ndebug then Ok () else check_assert (valid_time time))"

definition get_time_in_seconds :: "bool \<Rightarrow> Time \<Rightarrow> (unit, u64) res" where
  "get_time_in_seconds ndebug time = rbind (assert_valid ndebug time) (\<lambda>_. Ok (word_of_int (tv_sec time)))"

definition get_time_in_milli_seconds :: "bool \<Rightarrow> Time \<Rightarrow> (unit, u64) res" where
  "get_time_in_milli_seconds ndebug time =
     rbind (assert_valid ndebug time) (\<lambda>_.
     rbind (signed64 (tv_sec time * S_TO_MS_RATE)) (\<lambda>ms.
     Ok (word_of_int ms + word_of_int (tv_nsec time sdiv S_TO_US_RATE))))"

definition get_time_in_nano_seconds :: "bool \<Rightarrow> Time \<Rightarrow> (unit, u64) res" where
  "get_time_in_nano_seconds ndebug time =
     rbind (assert_valid ndebug time) (\<lambda>_.
     rbind (signed64 (tv_sec time * S_TO_NS_RATE)) (\<lambda>ns.
     Ok (word_of_int ns + word_of_int (tv_nsec time))))"

record TimeDiff =
  td_diff :: Time
  td_neg :: bool

definition impl_time_diff :: "bool \<Rightarrow> Time \<Rightarrow> Time \<Rightarrow> (unit, TimeDiff) res" where
  "impl_time_diff ndebug time1 time2 =
     rbind (assert_valid ndebug time1) (\<lambda>_.
     rbind (assert_valid ndebug time2) (\<lambda>_.
     rbind (get_time_in_nano_seconds ndebug time1) (\<lambda>time1_ns.
     rbind (get_time_in_nano_seconds ndebug time2) (\<lambda>time2_ns.
     let neg = (time2_ns > time1_ns);
         diff_ns = (if neg then time2_ns - time1_ns else time1_ns - time2_ns);
         diff_s_part = uint diff_ns div S_TO_NS_RATE in
     Ok \<lparr>td_diff = \<lparr>tv_sec = diff_s_part, tv_nsec = uint diff_ns - diff_s_part * S_TO_NS_RATE\<rparr>, td_neg = neg\<rparr>))))"

section \<open>Dates\<close>

datatype TimeFormat = TimeFormatFTP | TimeFormatHTTP1Dot1 | TimeFormatCommonLog

text \<open>A broken-down time is a list of numbers; \<open>sys_strftime c_locale room fmt tm\<close> is what is written, nothing on failure.\<close>

type_synonym tm = "int list"

record clock_env =
  sys_gettime :: "Time option"
  sys_gmtime :: "int \<Rightarrow> tm option"
  sys_localtime :: "int \<Rightarrow> tm option"
  sys_strftime :: "bool \<Rightarrow> nat \<Rightarrow> string \<Rightarrow> tm \<Rightarrow> bytes"
  sys_newlocale :: bool
  cl_alloc :: "nat \<Rightarrow> bool"
  cl_ndebug :: bool

definition get_current_time :: "clock_env \<Rightarrow> Time option" where
  "get_current_time env = sys_gettime env"

text \<open>The C locale of HTTP dates is created when it is first used; without it the process exits.\<close>

definition get_http_locale :: "clock_env \<Rightarrow> (unit, bool) res" where
  "get_http_locale env = (if sys_newlocale env then Ok True else Undef ProcessExit)"

definition get_date_string :: "clock_env \<Rightarrow> Time \<Rightarrow> TimeFormat \<Rightarrow> (unit, bytes option) res" where
  "get_date_string env time format =
     rbind (case format of
              TimeFormatFTP \<Rightarrow> Ok (''%Y-%m-%d %H:%M'', False, False, 0xFF)
            | TimeFormatHTTP1Dot1 \<Rightarrow>
                rbind (get_http_locale env) (\<lambda>c_locale. Ok (''%a, %d %b %Y %H:%M:%S GMT'', c_locale, True, 64))
            | TimeFormatCommonLog \<Rightarrow> Ok (''%d/%b/%Y:%H:%M:%S %z'', False, False, 64))
       (\<lambda>(format_str, c_locale, use_utc, max_bytes).
     if \<not> cl_alloc env max_bytes then Ok None
     else
       (case (if use_utc then sys_gmtime env (tv_sec time) else sys_localtime env (tv_sec time)) of
          None \<Rightarrow> Ok None
        | Some converted_time \<Rightarrow>
            (let result = sys_strftime env c_locale max_bytes format_str converted_time in
             if result = [] then Ok None
             else if length result < max_bytes then Ok (Some (c_string result)) else Undef OutOfBounds)))"

section \<open>Differences\<close>

definition total_ns :: "Time \<Rightarrow> int" where
  "total_ns time = tv_sec time * S_TO_NS_RATE + tv_nsec time"

lemma valid_time_iff: "valid_time time \<longleftrightarrow> 0 \<le> tv_nsec time \<and> tv_nsec time < S_TO_NS_RATE"
  by (auto simp: valid_time_def)

lemma nano_seconds_exact:
  assumes "valid_time time" "0 \<le> tv_sec time" "tv_sec time * S_TO_NS_RATE < 2 ^ 63"
  shows "\<exists>w. get_time_in_nano_seconds ndebug time = Ok w \<and> uint w = total_ns time"
proof -
  have "0 \<le> total_ns time" "total_ns time < 2 ^ 64" using assms by (auto simp: total_ns_def valid_time_iff)
  then have "uint (word_of_int (total_ns time) :: u64) = total_ns time"
    by (simp add: unsigned_of_int take_bit_int_eq_self)
  with assms show ?thesis
    by (simp add: get_time_in_nano_seconds_def assert_valid_def check_assert_def signed64_def total_ns_def)
qed

text \<open>
  For valid times after 1970 that fit the clock, \<open>impl_time_diff\<close> is a valid time again: the distance of the two,
  with the sign telling which one is later.
\<close>

theorem time_diff_exact:
  assumes "valid_time time1" "0 \<le> tv_sec time1" "tv_sec time1 * S_TO_NS_RATE < 2 ^ 63"
    and "valid_time time2" "0 \<le> tv_sec time2" "tv_sec time2 * S_TO_NS_RATE < 2 ^ 63"
  shows "\<exists>d. impl_time_diff ndebug time1 time2 = Ok d \<and> valid_time (td_diff d) \<and>
    (if td_neg d then - 1 else 1) * total_ns (td_diff d) = total_ns time1 - total_ns time2"
proof -
  obtain w1 where w1: "get_time_in_nano_seconds ndebug time1 = Ok w1" "uint w1 = total_ns time1"
    using nano_seconds_exact [OF assms(1-3)] by blast
  obtain w2 where w2: "get_time_in_nano_seconds ndebug time2 = Ok w2" "uint w2 = total_ns time2"
    using nano_seconds_exact [OF assms(4-6)] by blast
  have sub: "a \<le> b \<Longrightarrow> uint (b - a) = uint b - uint a" for a b :: u64
    by (simp add: uint_minus_simple_alt)
  have split: "a - a div S_TO_NS_RATE * S_TO_NS_RATE = a mod S_TO_NS_RATE" for a :: int
    by (simp add: minus_div_mult_eq_mod)
  show ?thesis
    using assms(1,4) w1 w2 sub [of w1 w2] sub [of w2 w1]
    by (auto simp: impl_time_diff_def assert_valid_def check_assert_def Let_def valid_time_iff total_ns_def split
        word_less_def word_le_def)
qed

theorem time_diff_exact_witness:
  "\<exists>d. impl_time_diff False (time_from_details 5 200) (time_from_details 7 100) = Ok d \<and> valid_time (td_diff d) \<and>
    (if td_neg d then - 1 else 1) * total_ns (td_diff d) = - 1999999900"
  using time_diff_exact [of "time_from_details 5 200" "time_from_details 7 100" False]
  by (simp add: time_from_details_def valid_time_def total_ns_def)

end
