(* ===== verification/Folder.thy ===== *)
theory Folder
  imports Routes Clock
begin

text \<open>
  Files and folders that a route serves (\<open>src/src/http/folder.c\<close>, \<open>src/src/http/mime.c\<close>, \<open>src/src/utils/path.c\<close>, the page
  frame of \<open>src/src/http/debug.c\<close>): the path of a request below a folder, the content of a file or the list of a
  folder, and the page that shows a list.

  The file system and the path library cwalk are fields of \<open>fs_env\<close>; \<open>cwk_law\<close> is the documented normalisation.

  The theorems: what the check of the path keeps inside and what it lets out, the write behind the block of a path,
  and the list of entries that is used after it was freed.
\<close>

section \<open>Data\<close>

record ServeFolderFileInfo =
  sf_mime_type :: bytes
  sf_file_content :: SizedBuffer
  sf_file_size :: nat
  sf_file_name :: bytes

record ServeFolderFolderEntry =
  fe_dir :: bool
  fe_file_name :: bytes
  fe_date :: Time
  fe_size :: nat

text \<open>A vector whose memory may have been released while its holder keeps the pointer and the length.\<close>

datatype 'a block = Live 'a | Freed

record ServeFolderFolderInfo =
  fi_entries :: "ServeFolderFolderEntry list block"
  fi_has_valid_parent :: bool

datatype ServeFolderResult =
    ServeFolderResultTypeNotFound | ServeFolderResultTypeServerError
  | ServeFolderResultTypeFile ServeFolderFileInfo | ServeFolderResultTypeFolder ServeFolderFolderInfo

text \<open>
  An open file: whether the two seeks and the closing succeed, the answer of \<open>ftell\<close> and the bytes that \<open>fread\<close> finds.
  A folder is the list of its names and whether \<open>readdir\<close> ends without an error.
\<close>

record file_handle =
  fh_seek_end :: bool
  fh_tell :: int
  fh_seek_set :: bool
  fh_data :: bytes
  fh_close :: bool

datatype stat_result = StatOk bool Time nat | StatMissing | StatFailed

record fs_env =
  cwk_path_normalize :: "bytes \<Rightarrow> bytes"
  cwk_path_is_absolute :: "bytes \<Rightarrow> bool"
  fs_stat :: "bytes \<Rightarrow> stat_result"
  fs_opendir :: "bytes \<Rightarrow> (bytes list \<times> bool) option"
  fs_closedir :: "bytes \<Rightarrow> bool"
  fs_fopen :: "bytes \<Rightarrow> file_handle option"
  fs_alloc :: "nat \<Rightarrow> bool"
  fs_push :: "nat \<Rightarrow> bool"

section \<open>Mime types\<close>

abbreviation UNRECOGNIZED_MIME_TYPE :: bytes where
  "UNRECOGNIZED_MIME_TYPE \<equiv> lit ''application/octet-stream''"

definition initialize_mime_type_mappings :: "(string \<times> string) list" where
  "initialize_mime_type_mappings =
     [(''html'', ''text/html''), (''htm'', ''text/html''), (''shtml'', ''text/html''), (''css'', ''text/css''), (''xml'', ''text/xml''),
      (''gif'', ''image/gif''), (''jpeg'', ''image/jpeg''), (''jpg'', ''image/jpeg''), (''js'', ''application/javascript''),
      (''txt'', ''text/plain''), (''svg'', ''image/svg+xml''), (''svgz'', ''image/svg+xml''), (''woff'', ''font/woff''),
      (''woff2'', ''font/woff2''), (''json'', ''application/json''), (''pdf'', ''application/pdf''),
      (''xhtml'', ''application/xhtml+xml''), (''zip'', ''application/zip''), (''mp3'', ''audio/mpeg''), (''ogg'', ''audio/ogg''),
      (''m4a'', ''audio/x-m4a''), (''mp4'', ''video/mp4''), (''mpeg'', ''video/mpeg''), (''mpg'', ''video/mpg''),
      (''webm'', ''video/webm''), (''avi'', ''video/x-msvideo'')]"

definition get_mime_type_for_ext :: "bytes \<Rightarrow> bytes" where
  "get_mime_type_for_ext ext =
     (case map_of (map (\<lambda>(k, v). (lit k, lit v)) initialize_mime_type_mappings) ext of
        None \<Rightarrow> UNRECOGNIZED_MIME_TYPE | Some mime_type \<Rightarrow> mime_type)"

section \<open>Files\<close>

definition file_is_absolute :: "fs_env \<Rightarrow> bytes \<Rightarrow> bool" where
  "file_is_absolute env file = (if length file = 0 then False else cwk_path_is_absolute env file)"

text \<open>The answer of \<open>ftell\<close> as \<open>size_t\<close>.\<close>

definition told_size :: "file_handle \<Rightarrow> nat" where
  "told_size file = nat (fh_tell file mod 2 ^ 64)"

definition get_file_size_of_file :: "fs_env \<Rightarrow> bytes \<Rightarrow> nat option" where
  "get_file_size_of_file env file_path =
     (case fs_fopen env file_path of
        None \<Rightarrow> None
      | Some file \<Rightarrow> (if \<not> fh_seek_end file then None else if \<not> fh_close file then None else Some (told_size file)))"

definition read_entire_file :: "fs_env \<Rightarrow> bytes \<Rightarrow> bytes option" where
  "read_entire_file env file_path =
     (case fs_fopen env file_path of
        None \<Rightarrow> None
      | Some file \<Rightarrow>
          (if \<not> fh_seek_end file then None
           else if \<not> fh_seek_set file then None
           else if \<not> fs_alloc env (told_size file) then None
           else
             (let file_data = take (told_size file) (fh_data file) in
              if length file_data \<noteq> told_size file then None
              else if \<not> fh_close file then None
              else Some file_data)))"

section \<open>The path of a request\<close>

text \<open>Pieces written one behind the other into a block.\<close>

fun put_pieces :: "membuf \<Rightarrow> nat \<Rightarrow> bytes list \<Rightarrow> (unit, membuf) res" where
  "put_pieces buf off [] = Ok buf"
| "put_pieces buf off (p # ps) = rbind (memcpy_cells buf off p) (\<lambda>buf'. put_pieces buf' (off + length p) ps)"

abbreviation slash :: bytes where
  "slash \<equiv> [0x2F]"

definition joined_path ::
  "fs_env \<Rightarrow> HTTPRouteServeFolderType \<Rightarrow> bytes \<Rightarrow> bytes option \<Rightarrow> tstr \<Rightarrow> (unit, bytes option) res" where
  "joined_path env type folder_path route_path request_path =
     (case type of
        HTTPRouteServeFolderTypeRelative \<Rightarrow>
          (case route_path of
             None \<Rightarrow> Undef OutOfBounds
           | Some route \<Rightarrow>
               (let final_size = length folder_path + length route + length (text_of request_path) + 3 in
                if \<not> fs_alloc env final_size then Ok None
                else
                  rbind (put_pieces (replicate final_size None) 0
                           [folder_path, slash, route, slash, text_of request_path, [0]]) (\<lambda>block.
                  rbind (read_block block) (\<lambda>bs. Ok (Some bs)))))
      | HTTPRouteServeFolderTypeAbsolute \<Rightarrow>
          (let final_size = length folder_path + length (text_of request_path) + 1 in
           if \<not> fs_alloc env final_size then Ok None
           else
             rbind (put_pieces (replicate final_size None) 0 [folder_path, slash, text_of request_path, [0]]) (\<lambda>block.
             rbind (read_block block) (\<lambda>bs. Ok (Some bs)))))"

definition get_final_file_path ::
  "fs_env \<Rightarrow> HTTPRouteServeFolderType \<Rightarrow> bytes \<Rightarrow> bytes option \<Rightarrow> tstr \<Rightarrow> (unit, bytes option) res" where
  "get_final_file_path env type folder_path route_path request_path =
     rbind (joined_path env type folder_path route_path request_path) (\<lambda>result_path.
     case result_path of
       None \<Rightarrow> Ok None
     | Some path \<Rightarrow>
         (let buffer_size = length (c_string path) + 1 in
          if \<not> fs_alloc env buffer_size then Ok None
          else
            (let normalized = cwk_path_normalize env (c_string path) in
             if length normalized \<ge> buffer_size then Ok None else Ok (Some normalized))))"

section \<open>One file\<close>

abbreviation last_part :: "bytes list \<Rightarrow> bytes \<Rightarrow> bytes" where
  "last_part parts whole \<equiv> (if parts = [] then whole else last parts)"

definition get_serve_folder_content_for_file :: "fs_env \<Rightarrow> 'f http_env \<Rightarrow> bytes \<Rightarrow> bool \<Rightarrow> ServeFolderResult" where
  "get_serve_folder_content_for_file env http path send_body =
     (let base_name = last_part (lib_parts http path slash) path;
          ext = last_part (lib_parts http base_name (lit ''.'')) [];
          mime_type = get_mime_type_for_ext ext in
      if \<not> send_body then
        (case get_file_size_of_file env path of
           None \<Rightarrow> ServeFolderResultTypeServerError
         | Some file_size \<Rightarrow>
             ServeFolderResultTypeFile
               \<lparr>sf_mime_type = mime_type, sf_file_content = None, sf_file_size = file_size, sf_file_name = base_name\<rparr>)
      else
        (case read_entire_file env path of
           None \<Rightarrow> ServeFolderResultTypeServerError
         | Some file_data \<Rightarrow>
             ServeFolderResultTypeFile
               \<lparr>sf_mime_type = mime_type, sf_file_content = Some file_data, sf_file_size = length file_data,
                sf_file_name = base_name\<rparr>))"

section \<open>A folder\<close>

definition get_folder_entry_for_file :: "fs_env \<Rightarrow> bytes \<Rightarrow> bytes \<Rightarrow> ServeFolderFolderEntry option" where
  "get_folder_entry_for_file env absolute_path name =
     (case fs_stat env absolute_path of
        StatOk is_dir date sz \<Rightarrow>
          (if \<not> fs_alloc env (length name + 1) then None
           else Some \<lparr>fe_dir = is_dir, fe_file_name = name, fe_date = date, fe_size = sz\<rparr>)
      | _ \<Rightarrow> None)"

definition get_folder_entry :: "fs_env \<Rightarrow> bytes \<Rightarrow> bytes \<Rightarrow> (unit, ServeFolderFolderEntry option) res" where
  "get_folder_entry env folder name =
     (if folder = [] then Undef OutOfBounds
      else
        (let absolute_path = folder @ (if last folder = 0x2F then [] else slash) @ name in
         if \<not> fs_alloc env (length absolute_path + 1) then Ok None
         else Ok (get_folder_entry_for_file env absolute_path name)))"

text \<open>The loop over \<open>readdir\<close>: the entries that were stored and whether it ended at \<open>success\<close>.\<close>

fun folder_loop ::
  "fs_env \<Rightarrow> bytes \<Rightarrow> bytes list \<Rightarrow> bool \<Rightarrow> ServeFolderFolderEntry list \<Rightarrow> (unit, ServeFolderFolderEntry list \<times> bool) res" where
  "folder_loop env folder_path [] ended stored = Ok (stored, ended)"
| "folder_loop env folder_path (name # names) ended stored =
     (if name = lit ''.'' then folder_loop env folder_path names ended stored
      else if name = lit ''..'' then folder_loop env folder_path names ended stored
      else
        rbind (get_folder_entry env folder_path name) (\<lambda>metadata.
        case metadata of
          None \<Rightarrow> Ok (stored, False)
        | Some entry \<Rightarrow>
            (if fs_push env (length stored) then folder_loop env folder_path names ended (stored @ [entry])
             else Ok (stored, False))))"

text \<open>
  \<open>free_folder_info\<close> is given a copy: the memory is gone, the caller's vector keeps its length. The error label runs
  on into the successful return, with entries that were freed.
\<close>

definition free_folder_info :: "ServeFolderFolderEntry list block \<Rightarrow> (unit, ServeFolderFolderEntry list block) res" where
  "free_folder_info folder_entries =
     (case folder_entries of Live [] \<Rightarrow> Ok (Live []) | Live _ \<Rightarrow> Ok Freed | Freed \<Rightarrow> Undef UseAfterFree)"

definition get_serve_folder_content_for_folder :: "fs_env \<Rightarrow> bytes \<Rightarrow> bool \<Rightarrow> (unit, ServeFolderResult) res" where
  "get_serve_folder_content_for_folder env folder_path has_valid_parent =
     (case fs_opendir env folder_path of
        None \<Rightarrow> rbind (free_folder_info (Live [])) (\<lambda>_. Ok ServeFolderResultTypeServerError)
      | Some (names, ended) \<Rightarrow>
          rbind (folder_loop env folder_path names ended []) (\<lambda>(stored, success).
          rbind (if success then Ok (Live stored) else free_folder_info (Live stored)) (\<lambda>folder_entries.
          if \<not> fs_closedir env folder_path
          then rbind (free_folder_info folder_entries) (\<lambda>_. Ok ServeFolderResultTypeServerError)
          else
            Ok (ServeFolderResultTypeFolder \<lparr>fi_entries = folder_entries, fi_has_valid_parent = has_valid_parent\<rparr>))))"

section \<open>Equal paths\<close>

definition abs_i64 :: "int \<Rightarrow> u64" where
  "abs_i64 value = (if value < 0 then word_of_int (- (value + 1)) + 1 else word_of_int value)"

definition is_the_same_path :: "bytes \<Rightarrow> bytes \<Rightarrow> bool" where
  "is_the_same_path path1 path2 =
     (let len1 = length path1; len2 = length path2 in
      if len1 = len2 then path1 = path2
      else
        (let diff = abs_i64 (int len1) - word_of_int (int len2) in
         if diff > 1 then False
         else if diff = 1 then
           (let (minimum, has_slash) = (if len1 < len2 then (len1, path2) else (len2, path1)) in
            if last has_slash \<noteq> 0x2F then False
            else take minimum (c_string path1) = take minimum (c_string path2))
         else False))"

section \<open>What is served\<close>

definition get_serve_folder_content ::
  "fs_env \<Rightarrow> 'f http_env \<Rightarrow> HttpRequestProperties \<Rightarrow> HTTPRouteServeFolderType \<Rightarrow> bytes \<Rightarrow> bytes option \<Rightarrow> bool
     \<Rightarrow> (unit, ServeFolderResult option) res" where
  "get_serve_folder_content env http http_properties type folder_path original_path send_body =
     (if \<not> fs_alloc env 1 then Ok None
      else if \<not> file_is_absolute env (c_string folder_path) then Ok (Some ServeFolderResultTypeServerError)
      else
        (case http_properties of
           HTTPPropertyTypeNormal normal_data \<Rightarrow>
             rbind (get_final_file_path env type folder_path original_path (up_path normal_data)) (\<lambda>final_path_impl.
             case final_path_impl of
               None \<Rightarrow> Ok (Some ServeFolderResultTypeServerError)
             | Some final_path \<Rightarrow>
                 (if take (length (c_string folder_path)) final_path \<noteq> c_string folder_path
                  then Ok (Some ServeFolderResultTypeServerError)
                  else
                    (case fs_stat env final_path of
                       StatMissing \<Rightarrow> Ok (Some ServeFolderResultTypeNotFound)
                     | StatFailed \<Rightarrow> Ok (Some ServeFolderResultTypeServerError)
                     | StatOk is_folder _ _ \<Rightarrow>
                         rbind (if is_folder
                                then get_serve_folder_content_for_folder env final_path
                                       (\<not> is_the_same_path final_path folder_path)
                                else Ok (get_serve_folder_content_for_file env http final_path send_body)) (\<lambda>result.
                         Ok (Some result)))))
         | _ \<Rightarrow> Ok (Some ServeFolderResultTypeServerError)))"

section \<open>The page of a folder\<close>

definition put_builder ::
  "'d h2_env \<Rightarrow> StringBuilder option \<Rightarrow> StringBuilder option \<Rightarrow> (unit, StringBuilder option) res" where
  "put_builder env sb other =
     (case string_builder_append_string_builder (h2_alloc env) sb other of Err _ \<Rightarrow> Ok sb | r \<Rightarrow> r)"

fun put_singles :: "'d h2_env \<Rightarrow> StringBuilder option \<Rightarrow> bytes list \<Rightarrow> (unit, StringBuilder option) res" where
  "put_singles env sb [] = Ok sb"
| "put_singles env sb (s # ss) = rbind (put_single env sb s) (\<lambda>sb'. put_singles env sb' ss)"

abbreviation quote :: bytes where
  "quote \<equiv> [0x22]"

definition html_from_string ::
  "'d h2_env \<Rightarrow> StringBuilder option \<Rightarrow> StringBuilder option \<Rightarrow> StringBuilder option \<Rightarrow> StringBuilder option
     \<Rightarrow> (unit, StringBuilder option) res" where
  "html_from_string env head_content script_content style_content body_content =
     rbind (put_singles env (string_builder_init (h2_alloc env))
              [lit ''<!DOCTYPE html><html>'', lit ''<head>'',
               lit ''<link rel='' @ quote @ lit ''icon'' @ quote @ lit '' href='' @ quote @
                 lit ''data:image/png;base64,iVBORw0KGgo='' @ quote @ lit ''>'',
               lit ''<meta charset='' @ quote @ lit ''UTF-8'' @ quote @ lit ''>'',
               lit ''<meta name='' @ quote @ lit ''description'' @ quote @ lit '' content='' @ quote @
                 lit ''HTML generated by simple C Http Server'' @ quote @ lit ''>'',
               lit ''<meta name='' @ quote @ lit ''author'' @ quote @ lit '' content='' @ quote @ lit ''Totto16'' @ quote @ lit ''>'',
               lit ''<title>Page by Simple C Http Server</title>'']) (\<lambda>sb1.
     rbind (if head_content = None then Ok sb1 else put_builder env sb1 head_content) (\<lambda>sb2.
     rbind (if script_content = None then Ok sb2
            else
              rbind (put_single env sb2 (lit ''<script type='' @ quote @ lit ''text/javascript'' @ quote @ lit ''>'')) (\<lambda>sb.
              rbind (put_builder env sb script_content) (\<lambda>sb'.
              put_singles env sb'
                [lit ''</script>'', lit ''<noscript> Diese Seite Ben'' @ [0xC3, 0xB6] @
                   lit ''tigt Javascript um zu funktionieren :( </noscript>'']))) (\<lambda>sb3.
     rbind (if style_content = None then Ok sb3
            else
              rbind (put_single env sb3 (lit ''<style type='' @ quote @ lit ''text/css'' @ quote @ lit ''>'')) (\<lambda>sb.
              rbind (put_builder env sb style_content) (\<lambda>sb'. put_single env sb' (lit ''</style>'')))) (\<lambda>sb4.
     rbind (put_singles env sb4 [lit ''</head>'', lit ''<body>'']) (\<lambda>sb5.
     rbind (if body_content = None then Ok sb5 else put_builder env sb5 body_content) (\<lambda>sb6.
     put_singles env sb6 [lit ''</body>'', lit ''</html>'']))))))"

text \<open>\<open>Err\<close> stands for the NULL that these functions return.\<close>

definition folder_content_add_entry ::
  "'d h2_env \<Rightarrow> bool \<Rightarrow> StringBuilder option \<Rightarrow> ServeFolderFolderEntry \<Rightarrow> (unit, StringBuilder option) res" where
  "folder_content_add_entry env ndebug body entry =
     rbind (get_time_in_milli_seconds ndebug (fe_date entry)) (\<lambda>time_in_ms.
     let name = fe_file_name entry @ (if fe_dir entry then slash else []) in
     appendf env body
       (lit ''<div class='' @ quote @ lit ''entry'' @ quote @ lit ''> <div class='' @ quote @ lit ''name'' @ quote @
        lit ''><a href='' @ quote @ name @ quote @ lit ''>'' @ name @ lit ''</a></div> <div class='' @ quote @ lit ''date'' @ quote @
        lit ''>'' @ print_nat (unat time_in_ms) @ lit ''</div> <div class='' @ quote @ lit ''size'' @ quote @ lit ''>'' @
        print_nat (fe_size entry) @ lit ''</div> </div> <br>''))"

definition add_entry_or_null ::
  "'d h2_env \<Rightarrow> bool \<Rightarrow> StringBuilder option \<Rightarrow> ServeFolderFolderEntry \<Rightarrow> (unit, StringBuilder option) res" where
  "add_entry_or_null env ndebug body entry =
     rbind (folder_content_add_entry env ndebug body entry) (\<lambda>body'. if body' = None then Err () else Ok body')"

fun add_entries ::
  "'d h2_env \<Rightarrow> bool \<Rightarrow> StringBuilder option \<Rightarrow> ServeFolderFolderEntry list \<Rightarrow> (unit, StringBuilder option) res" where
  "add_entries env ndebug body [] = Ok body"
| "add_entries env ndebug body (entry # es) =
     rbind (add_entry_or_null env ndebug body entry) (\<lambda>body'. add_entries env ndebug body' es)"

definition folder_style :: bytes where
  "folder_style =
     lit ''body{background: #a6a5a1;}'' @ [10] @
     lit ''#content {  display: flex; flex-flow: column; align-items: center;}'' @ [10] @
     lit ''.entry{ width: 100%; background: #666; text-align: center; color: white; display: grid; padding: 10px; '' @
     lit ''grid-template-columns: 50% 10% 40%; justify-items: start; }''"

definition folder_script :: bytes where
  "folder_script =
     lit ''function setDynamicContent(){'' @
     lit ''/*TODO: make date and sizes human readable in the Intl format of the user! */'' @
     lit ''window.addEventListener('' @ [0x27] @ lit ''DOMContentLoaded'' @ [0x27] @ lit '',setDynamicContent);''"

definition folder_content_to_html ::
  "'d h2_env \<Rightarrow> bool \<Rightarrow> ServeFolderFolderInfo \<Rightarrow> bytes \<Rightarrow> (unit, StringBuilder option) res" where
  "folder_content_to_html env ndebug folder_info folder_path =
     rbind (appendf env (string_builder_init (h2_alloc env))
              (lit ''<h1 id='' @ quote @ lit ''title'' @ quote @ lit ''>Index of '' @ c_string folder_path @ lit ''</h1> <br>'')) (\<lambda>body1.
     rbind (put_single env body1 (lit ''<div id='' @ quote @ lit ''content'' @ quote @ lit ''>'')) (\<lambda>body2.
     rbind (if fi_has_valid_parent folder_info
            then add_entry_or_null env ndebug body2 \<lparr>fe_dir = True, fe_file_name = lit ''..'', fe_date = empty_time, fe_size = 0\<rparr>
            else Ok body2) (\<lambda>body3.
     case fi_entries folder_info of
       Freed \<Rightarrow> Undef UseAfterFree
     | Live es \<Rightarrow>
         rbind (add_entries env ndebug body3 es) (\<lambda>body4.
         rbind (put_single env body4 (lit ''</div>'')) (\<lambda>body5.
         rbind (put_single env (string_builder_init (h2_alloc env)) folder_style) (\<lambda>style.
         rbind (put_single env (string_builder_init (h2_alloc env)) folder_script) (\<lambda>script.
         html_from_string env None script style body5)))))))"

section \<open>Normal paths\<close>

text \<open>
  The documented normalisation of cwalk for paths that begin with a slash: repeated separators, separators at the end and
  the name \<open>.\<close> are dropped, and \<open>..\<close> removes the name in front of it.
\<close>

fun pieces :: "bytes \<Rightarrow> bytes list" where
  "pieces [] = [[]]"
| "pieces (b # bs) = (if b = 0x2F then [] # pieces bs else (case pieces bs of [] \<Rightarrow> [[b]] | p # ps \<Rightarrow> (b # p) # ps))"

definition step_into :: "bytes list \<Rightarrow> bytes \<Rightarrow> bytes list" where
  "step_into names name =
     (if name = [] \<or> name = lit ''.'' then names else if name = lit ''..'' then butlast names else names @ [name])"

definition resolve :: "bytes list \<Rightarrow> bytes list" where
  "resolve = foldl step_into []"

definition path_text :: "bytes list \<Rightarrow> bytes" where
  "path_text names = (if names = [] then slash else concat (map (\<lambda>name. 0x2F # name) names))"

definition cwk_law :: "fs_env \<Rightarrow> bool" where
  "cwk_law env \<longleftrightarrow>
     (\<forall>p. p \<noteq> [] \<longrightarrow> cwk_path_is_absolute env p = (hd p = 0x2F) \<and>
        (hd p = 0x2F \<longrightarrow> cwk_path_normalize env p = path_text (resolve (pieces p))))"

definition proper_name :: "bytes \<Rightarrow> bool" where
  "proper_name name \<longleftrightarrow> name \<notin> {[], lit ''.'', lit ''..''} \<and> 0x2F \<notin> set name \<and> 0 \<notin> set name"

lemma pieces_ne [simp]: "pieces bs \<noteq> []"
  by (induction bs) (auto split: list.split)

lemma pieces_append: "pieces (a @ 0x2F # b) = pieces a @ pieces b"
  by (induction a) (auto split: list.split)

lemma pieces_name: "0x2F \<notin> set name \<Longrightarrow> pieces name = [name]"
  by (induction name) auto

lemma pieces_names:
  "\<forall>n \<in> set names. 0x2F \<notin> set n \<Longrightarrow> names \<noteq> [] \<Longrightarrow> pieces (concat (map (\<lambda>name. 0x2F # name) names)) = [] # names"
proof (induction names)
  case (Cons n ns)
  show ?case
  proof (cases ns)
    case Nil
    with Cons.prems show ?thesis by (simp add: pieces_name)
  next
    case (Cons m ms)
    have "pieces (n @ 0x2F # (m @ concat (map (\<lambda>name. 0x2F # name) ms))) =
        pieces n @ pieces (m @ concat (map (\<lambda>name. 0x2F # name) ms))" by (rule pieces_append)
    with Cons Cons.IH Cons.prems show ?thesis by (simp add: pieces_name)
  qed
qed simp

lemma pieces_path_text: "\<forall>n \<in> set names. proper_name n \<Longrightarrow> names \<noteq> [] \<Longrightarrow> pieces (path_text names) = [] # names"
  by (simp add: path_text_def pieces_names proper_name_def)

lemma foldl_step_proper: "\<forall>n \<in> set names. proper_name n \<Longrightarrow> foldl step_into acc names = acc @ names"
  by (induction names arbitrary: acc) (auto simp: step_into_def proper_name_def)

lemma pieces_no_slash: "n \<in> set (pieces bs) \<Longrightarrow> 0x2F \<notin> set n \<and> set n \<subseteq> set bs"
proof (induction bs arbitrary: n)
  case (Cons b bs)
  obtain h t where "pieces bs = h # t" by (cases "pieces bs") auto
  with Cons.prems Cons.IH [of h] Cons.IH [of n] show ?case by (auto split: if_splits)
qed simp

lemma resolve_proper:
  "\<forall>n \<in> set ps. 0x2F \<notin> set n \<and> 0 \<notin> set n \<Longrightarrow> \<forall>n \<in> set acc. proper_name n \<Longrightarrow>
    n \<in> set (foldl step_into acc ps) \<Longrightarrow> proper_name n"
proof (induction ps arbitrary: acc)
  case (Cons p ps)
  have "\<forall>n \<in> set (step_into acc p). proper_name n"
    using Cons.prems(1,2) by (auto simp: step_into_def proper_name_def dest: in_set_butlastD)
  with Cons show ?case by simp
qed simp

lemma path_text_prefix:
  assumes "\<forall>n \<in> set names. proper_name n" "\<forall>n \<in> set folder. proper_name n" "folder \<noteq> []"
    and "take (length (path_text folder)) (path_text names) = path_text folder"
  shows "\<exists>n below. names = butlast folder @ (last folder @ n) # below"
  using assms
proof (induction folder arbitrary: names)
  case (Cons f fs)
  let ?join = "\<lambda>ns. concat (map (\<lambda>name. 0x2F # name) ns)"
  have "path_text (f # fs) = 0x2F # f @ ?join fs" by (simp add: path_text_def)
  moreover have "f \<noteq> []" using Cons.prems(2) by (simp add: proper_name_def)
  ultimately have ne: "names \<noteq> []" using Cons.prems(4) by (auto simp: path_text_def)
  then obtain m ms where ms: "names = m # ms" by (cases names) auto
  have eq: "take (length (f @ ?join fs)) (m @ ?join ms) = f @ ?join fs"
    using Cons.prems(4) by (simp add: path_text_def ms)
  have m: "0x2F \<notin> set m" and f: "0x2F \<notin> set f"
    using Cons.prems(1,2) ms by (auto simp: proper_name_def)
  have f_le: "take (length f) (m @ ?join ms) = f"
    using arg_cong [OF eq, of "take (length f)"] by (simp add: min_def split: if_splits)
  have len: "length f \<le> length m"
  proof (rule ccontr)
    assume "\<not> length f \<le> length m"
    then have "length m < length f" by simp
    moreover from this f_le have "?join ms \<noteq> []" by (metis append_Nil2 linorder_not_less nle_le take_all)
    ultimately have "f ! length m = 0x2F"
      using f_le by (cases ms) (auto simp: nth_append dest!: arg_cong [of _ _ "\<lambda>l. l ! length m"])
    with f \<open>length m < length f\<close> show False by (metis nth_mem)
  qed
  then have fm: "take (length f) m = f" using f_le by simp
  show ?case
  proof (cases fs)
    case Nil
    have "m = f @ drop (length f) m" using fm by (metis append_take_drop_id)
    with Nil ms show ?thesis by auto
  next
    case (Cons g gs)
    have "length m \<le> length f"
    proof (rule ccontr)
      assume "\<not> length m \<le> length f"
      then have "length f < length m" by simp
      moreover from this have "m ! length f = 0x2F"
        using arg_cong [OF eq, of "\<lambda>l. l ! length f"] Cons by (simp add: nth_append)
      ultimately show False using m by (metis nth_mem)
    qed
    with fm have "m = f" using len by simp
    with eq have "take (length (?join fs)) (?join ms) = ?join fs" by simp
    then have "take (length (path_text fs)) (path_text ms) = path_text fs"
      using Cons by (cases ms) (auto simp: path_text_def)
    then obtain n below where "ms = butlast fs @ (last fs @ n) # below"
      using Cons.IH [of ms] Cons.prems(1,2) ms Cons by auto
    with \<open>m = f\<close> ms Cons show ?thesis by auto
  qed
qed simp

section \<open>Paths below a folder\<close>

lemma memcpy_length: "memcpy_cells buf off xs = Ok buf' \<Longrightarrow> length buf' = length buf"
  by (auto simp: memcpy_cells_def split: if_splits)

lemma put_pieces_filled:
  "filled buf xs \<Longrightarrow> length xs + length (concat ps) \<le> length buf \<Longrightarrow>
    \<exists>buf'. put_pieces buf (length xs) ps = Ok buf' \<and> length buf' = length buf \<and> filled buf' (xs @ concat ps)"
proof (induction ps arbitrary: buf xs)
  case (Cons p ps)
  then obtain buf1 where buf1: "memcpy_cells buf (length xs) p = (Ok buf1 :: (unit, membuf) res)" "length buf1 = length buf"
      "filled buf1 (xs @ p)"
    using filled_memcpy [of buf xs p] by fastforce
  with Cons.prems Cons.IH [of buf1 "xs @ p"] show ?case by simp
qed simp

lemma put_pieces_overflow: "length buf < off + length (concat ps) \<Longrightarrow> off \<le> length buf \<Longrightarrow> put_pieces buf off ps = Undef OutOfBounds"
proof (induction ps arbitrary: buf off)
  case (Cons p ps)
  show ?case
  proof (cases "off + length p \<le> length buf")
    case True
    then obtain buf1 where buf1: "memcpy_cells buf off p = (Ok buf1 :: (unit, membuf) res)" by (simp add: memcpy_cells_def)
    with memcpy_length [OF buf1] Cons True show ?thesis by simp
  qed (simp add: memcpy_cells_def)
qed simp

lemma block_of_pieces:
  "rbind (put_pieces (replicate (length (concat ps)) None) 0 ps) (\<lambda>block. rbind (read_block block) (\<lambda>bs. Ok (Some bs))) =
    Ok (Some (concat ps))"
proof -
  obtain buf where buf: "put_pieces (replicate (length (concat ps)) None) 0 ps = Ok buf"
      "length buf = length (concat ps)" "filled buf (concat ps)"
    using put_pieces_filled [of "replicate (length (concat ps)) None" "[]" ps] by auto
  moreover from this have "read_block buf = (Ok (concat ps) :: (unit, bytes) res)"
    using read_block_filled [of buf "concat ps"] by simp
  ultimately show ?thesis by simp
qed

lemma joined_path_relative:
  "fs_alloc env (length folder + length route + length (text_of request) + 3) \<Longrightarrow>
    joined_path env HTTPRouteServeFolderTypeRelative folder (Some route) request =
      Ok (Some (folder @ slash @ route @ slash @ text_of request @ [0]))"
proof -
  let ?ps = "[folder, slash, route, slash, text_of request, [0]]"
  assume alloc: "fs_alloc env (length folder + length route + length (text_of request) + 3)"
  have "length (concat ?ps) = length folder + length route + length (text_of request) + 3" by simp
  with block_of_pieces [of ?ps]
  have "rbind (put_pieces (replicate (length folder + length route + length (text_of request) + 3) None) 0 ?ps)
      (\<lambda>block. rbind (read_block block) (\<lambda>bs. Ok (Some bs))) = Ok (Some (concat ?ps))" by (simp only:)
  with alloc show ?thesis by (simp add: joined_path_def Let_def del: put_pieces.simps)
qed

lemma c_string_append: "0 \<notin> set a \<Longrightarrow> c_string (a @ b) = a @ c_string b"
  unfolding c_string_def by (rule takeWhile_append2) auto

lemma c_string_nul [simp]: "c_string (a @ [0]) = c_string a"
  by (simp add: c_string_def takeWhile_append takeWhile_eq_all_conv [THEN iffD2])

text \<open>The path that is looked up; a NUL in the request ends it.\<close>

definition looked_up :: "bytes list \<Rightarrow> bytes \<Rightarrow> tstr \<Rightarrow> bytes list" where
  "looked_up folder route request = foldl step_into folder (pieces (c_string (route @ slash @ text_of request)))"

lemma path_text_no_nul: "\<forall>n \<in> set names. proper_name n \<Longrightarrow> 0 \<notin> set (path_text names)"
  by (auto simp: path_text_def proper_name_def)

lemma path_text_abs: "hd (path_text names) = 0x2F" "path_text names \<noteq> []"
  by (cases names; auto simp: path_text_def)+

lemma looked_up_proper: "\<forall>n \<in> set folder. proper_name n \<Longrightarrow> \<forall>n \<in> set (looked_up folder route request). proper_name n"
proof
  fix n
  assume folder: "\<forall>n \<in> set folder. proper_name n" and n: "n \<in> set (looked_up folder route request)"
  have "0 \<notin> set (c_string bs)" for bs :: bytes by (auto simp: c_string_def dest: set_takeWhileD)
  then have "\<forall>p \<in> set (pieces (c_string bs)). 0x2F \<notin> set p \<and> 0 \<notin> set p" for bs using pieces_no_slash by blast
  with resolve_proper [OF _ folder, of "pieces (c_string (route @ slash @ text_of request))"] n show "proper_name n"
    by (auto simp: looked_up_def)
qed

lemma final_path_relative:
  assumes "cwk_law env" "\<forall>n \<in> set folder. proper_name n" "folder \<noteq> []"
    and "get_final_file_path env HTTPRouteServeFolderTypeRelative (path_text folder) (Some route) request = Ok (Some final)"
  shows "final = path_text (looked_up folder route request)"
proof -
  let ?path = "path_text folder @ slash @ route @ slash @ text_of request @ [0]"
  let ?rest = "c_string (route @ slash @ text_of request)"
  have "c_string ?path = path_text folder @ slash @ ?rest"
    using path_text_no_nul [OF assms(2)] c_string_append [of "path_text folder @ slash" "(route @ slash @ text_of request) @ [0]"]
    unfolding c_string_nul by simp
  moreover have "cwk_path_normalize env (path_text folder @ slash @ ?rest) = path_text (resolve (pieces (path_text folder @ slash @ ?rest)))"
    using assms(1) path_text_abs [of folder] by (simp add: cwk_law_def)
  moreover have "pieces (path_text folder @ slash @ ?rest) = [] # folder @ pieces ?rest"
    using pieces_path_text [OF assms(2,3)] by (simp add: pieces_append)
  moreover have "resolve ([] # folder @ pieces ?rest) = looked_up folder route request"
    using foldl_step_proper [OF assms(2)] by (simp add: resolve_def looked_up_def step_into_def)
  moreover have "joined_path env HTTPRouteServeFolderTypeRelative (path_text folder) (Some route) request \<noteq> Ok None"
    using assms(4) by (auto simp: get_final_file_path_def)
  then have "fs_alloc env (length (path_text folder) + length route + length (text_of request) + 3)"
    by (auto simp: joined_path_def Let_def split: if_splits)
  then have "joined_path env HTTPRouteServeFolderTypeRelative (path_text folder) (Some route) request = Ok (Some ?path)"
    by (rule joined_path_relative)
  ultimately show ?thesis using assms(4) by (auto simp: get_final_file_path_def Let_def split: if_splits)
qed

section \<open>What a request can reach\<close>

text \<open>
  C15. A request can reach what lies below the folder of a route, and the entries next to the folder whose name begins with
  the name of the folder, but nothing else: whatever the path of the request, a file or folder that
  \<open>get_serve_folder_content\<close> hands out is the one at a path without \<open>..\<close> that starts with the text of the folder.
\<close>

theorem served_near_folder:
  assumes "cwk_law env" "\<forall>n \<in> set folder. proper_name n" "folder \<noteq> []"
    and "get_serve_folder_content env http (HTTPPropertyTypeNormal path) HTTPRouteServeFolderTypeRelative (path_text folder)
      (Some route) send_body = Ok (Some result)"
    and "result \<noteq> ServeFolderResultTypeNotFound" "result \<noteq> ServeFolderResultTypeServerError"
  shows "\<exists>n below. let names = butlast folder @ (last folder @ n) # below in
    names = looked_up folder route (up_path path) \<and> (\<forall>m \<in> set names. proper_name m) \<and>
    (result = get_serve_folder_content_for_file env http (path_text names) send_body \<or>
     (\<exists>parent. get_serve_folder_content_for_folder env (path_text names) parent = Ok result))"
proof -
  let ?text = "path_text folder"
  have c: "c_string ?text = ?text" using path_text_no_nul [OF assms(2)] by simp
  let ?final = "get_final_file_path env HTTPRouteServeFolderTypeRelative ?text (Some route) (up_path path)"
  have "?final \<noteq> Ok None" "\<exists>f. ?final = Ok f"
    using assms(4-6) by (auto simp: get_serve_folder_content_def rbind_Ok_iff split: if_splits)
  then obtain final where final: "?final = Ok (Some final)" by auto
  from assms(4-6) c have final: "?final = Ok (Some final)" "take (length ?text) final = ?text"
      "result = get_serve_folder_content_for_file env http final send_body \<or>
       (\<exists>parent. get_serve_folder_content_for_folder env final parent = Ok result)"
    by (auto simp: get_serve_folder_content_def final rbind_Ok_iff split: if_splits stat_result.splits)
  let ?names = "looked_up folder route (up_path path)"
  have "final = path_text ?names" by (rule final_path_relative [OF assms(1-3) final(1)])
  moreover have proper: "\<forall>n \<in> set ?names. proper_name n" by (rule looked_up_proper [OF assms(2)])
  ultimately obtain n below where "?names = butlast folder @ (last folder @ n) # below"
    using path_text_prefix [OF proper assms(2,3)] final(2) by metis
  with final(3) proper \<open>final = path_text ?names\<close> show ?thesis by (metis (no_types, lifting))
qed

text \<open>The request that goes up and into an entry next to the folder.\<close>

definition sideways :: "bytes list \<Rightarrow> bytes \<Rightarrow> bytes list \<Rightarrow> bytes" where
  "sideways folder n below = lit ''/../'' @ last folder @ n @ concat (map (\<lambda>name. 0x2F # name) below)"

lemma sideways_looked_up:
  assumes "\<forall>m \<in> set folder. proper_name m" "folder \<noteq> []" "proper_name (last folder @ n)" "\<forall>m \<in> set below. proper_name m"
  shows "looked_up folder slash (Some (sideways folder n below)) = butlast folder @ (last folder @ n) # below"
proof -
  let ?rest = "last folder @ n @ concat (map (\<lambda>name. 0x2F # name) below)"
  have "pieces (concat (map (\<lambda>name. 0x2F # name) ((last folder @ n) # below))) = [] # (last folder @ n) # below"
    using assms(3,4) by (intro pieces_names) (auto simp: proper_name_def)
  then have "pieces ?rest = (last folder @ n) # below" by simp
  then have "pieces (slash @ slash @ sideways folder n below) = [[], [], [], lit ''..'', last folder @ n] @ below"
    by (simp add: sideways_def lit_def)
  moreover have "0 \<notin> set (slash @ slash @ sideways folder n below)"
    using assms(3,4) by (auto simp: sideways_def lit_def proper_name_def)
  ultimately show ?thesis
    using foldl_step_proper [OF assms(4)] assms(3)
    by (simp add: looked_up_def step_into_def lit_def proper_name_def)
qed

text \<open>
  C16. The check that is meant to keep a request inside the folder of a route compares texts, not names: for a folder
  \<open>/srv/www\<close> the request \<open>/../www-private/key\<close> is answered with the file \<open>/srv/www-private/key\<close>. The
  same holds for every folder, every entry next to it whose name begins with the name of the folder, and everything below that entry.
\<close>

theorem sibling_folder_served:
  assumes "cwk_law env" "\<forall>n. fs_alloc env n" "\<forall>m \<in> set folder. proper_name m" "folder \<noteq> []"
    and "proper_name (last folder @ n)" "\<forall>m \<in> set below. proper_name m"
    and "fs_stat env (path_text (butlast folder @ (last folder @ n) # below)) = StatOk False date sz"
  shows "get_serve_folder_content env http
      (HTTPPropertyTypeNormal \<lparr>up_path = Some (sideways folder n below), up_search_path = search, up_fragment = fragment\<rparr>)
      HTTPRouteServeFolderTypeRelative (path_text folder) (Some slash) send_body =
    Ok (Some (get_serve_folder_content_for_file env http (path_text (butlast folder @ (last folder @ n) # below)) send_body))"
proof -
  let ?join = "\<lambda>ns. concat (map (\<lambda>name. 0x2F # name) ns)" and ?names = "butlast folder @ (last folder @ n) # below"
  let ?path = "path_text folder @ slash @ slash @ slash @ sideways folder n below @ [0]"
  have split: "path_text folder = ?join (butlast folder) @ 0x2F # last folder"
    using assms(4) by (cases folder rule: rev_cases) (auto simp: path_text_def)
  have names: "path_text ?names = path_text folder @ n @ ?join below" by (simp add: split) (simp add: path_text_def)
  have nul: "0 \<notin> set (path_text folder @ slash @ slash @ slash @ sideways folder n below)"
    using path_text_no_nul [OF assms(3)] assms(5,6) by (auto simp: sideways_def lit_def proper_name_def)
  then have c: "c_string ?path = path_text folder @ slash @ slash @ slash @ sideways folder n below"
    using c_string_nul [of "path_text folder @ slash @ slash @ slash @ sideways folder n below"] c_string_id by simp
  have "cwk_path_normalize env (c_string ?path) = path_text (resolve (pieces (c_string ?path)))"
    using assms(1) path_text_abs [of folder] unfolding c by (simp add: cwk_law_def)
  moreover have "resolve (pieces (c_string ?path)) = looked_up folder slash (Some (sideways folder n below))"
    using pieces_path_text [OF assms(3,4)] foldl_step_proper [OF assms(3)] nul unfolding c
    by (simp add: pieces_append resolve_def looked_up_def step_into_def)
  ultimately have "get_final_file_path env HTTPRouteServeFolderTypeRelative (path_text folder) (Some slash)
      (Some (sideways folder n below)) = Ok (Some (path_text ?names))"
    using joined_path_relative [of env "path_text folder" slash "Some (sideways folder n below)"] assms(2)
      sideways_looked_up [OF assms(3-6)] names c
    by (simp add: get_final_file_path_def) (simp add: sideways_def lit_def)
  then show ?thesis
    using assms(1,2,7) path_text_abs [of folder] names nul
    by (simp add: get_serve_folder_content_def file_is_absolute_def cwk_law_def)
qed

text \<open>
  C33. A route that serves a folder under its absolute path writes behind the end of a heap block on every request: the
  block for the joined path has no room for its terminator.
\<close>

theorem absolute_folder_overflows:
  assumes "cwk_law env" "\<forall>n. fs_alloc env n" "c_string folder_path = folder_path" "folder_path \<noteq> []" "hd folder_path = 0x2F"
  shows "get_serve_folder_content env http (HTTPPropertyTypeNormal path) HTTPRouteServeFolderTypeAbsolute folder_path
    original_path send_body = Undef OutOfBounds"
proof -
  let ?ps = "[folder_path, slash, text_of (up_path path), [0]]"
  have "put_pieces (replicate (length folder_path + length (text_of (up_path path)) + 1) None) 0 ?ps = Undef OutOfBounds"
    by (rule put_pieces_overflow) simp_all
  with assms show ?thesis
    by (simp add: get_serve_folder_content_def file_is_absolute_def cwk_law_def get_final_file_path_def joined_path_def
        Let_def del: put_pieces.simps)
qed

definition entry_path :: "bytes \<Rightarrow> bytes \<Rightarrow> bytes" where
  "entry_path folder name = folder @ (if last folder = 0x2F then [] else slash) @ name"

abbreviation listed :: "bytes \<Rightarrow> bool" where
  "listed name \<equiv> name \<noteq> lit ''.'' \<and> name \<noteq> lit ''..''"

lemma folder_loop_stops:
  assumes "\<forall>n. fs_alloc env n" "\<forall>n. fs_push env n" "folder \<noteq> []" "listed bad"
    and "\<forall>is_dir date sz. fs_stat env (entry_path folder bad) \<noteq> StatOk is_dir date sz"
  shows "\<forall>g \<in> set good. listed g \<and> (\<exists>is_dir date sz. fs_stat env (entry_path folder g) = StatOk is_dir date sz) \<Longrightarrow>
    \<exists>es. folder_loop env folder (good @ bad # rest) ended stored = Ok (stored @ es, False) \<and> length es = length good"
proof (induction good arbitrary: stored)
  case Nil
  have "get_folder_entry_for_file env (entry_path folder bad) bad = None"
    using assms(5) by (auto simp: get_folder_entry_for_file_def split: stat_result.splits)
  with assms show ?case by (simp add: get_folder_entry_def Let_def entry_path_def)
next
  case (Cons g good)
  then obtain is_dir date sz where "fs_stat env (entry_path folder g) = StatOk is_dir date sz" by auto
  then have "get_folder_entry env folder g = Ok (Some \<lparr>fe_dir = is_dir, fe_file_name = g, fe_date = date, fe_size = sz\<rparr>)"
    using assms(1,3) by (simp add: get_folder_entry_def get_folder_entry_for_file_def Let_def entry_path_def)
  moreover obtain es where "folder_loop env folder (good @ bad # rest) ended
      (stored @ [\<lparr>fe_dir = is_dir, fe_file_name = g, fe_date = date, fe_size = sz\<rparr>]) =
      Ok ((stored @ [\<lparr>fe_dir = is_dir, fe_file_name = g, fe_date = date, fe_size = sz\<rparr>]) @ es, False)" "length es = length good"
    using Cons.IH Cons.prems by (metis list.set_intros(2))
  ultimately show ?case using Cons.prems assms(2)
    by (intro exI [of _ "\<lparr>fe_dir = is_dir, fe_file_name = g, fe_date = date, fe_size = sz\<rparr> # es"]) simp
qed

lemma freed_page:
  assumes "\<forall>n. h2_alloc env n" "length folder_path < 2 ^ 30"
  shows "folder_content_to_html env ndebug \<lparr>fi_entries = Freed, fi_has_valid_parent = parent\<rparr> folder_path = Undef UseAfterFree"
proof -
  let ?title = "lit ''<h1 id='' @ quote @ lit ''title'' @ quote @ lit ''>Index of '' @ c_string folder_path @ lit ''</h1> <br>''"
  let ?content = "lit ''<div id='' @ quote @ lit ''content'' @ quote @ lit ''>''"
  have c: "length (c_string folder_path) \<le> length folder_path" by (simp add: c_string_def length_takeWhile_le)
  have "builder_holds (string_builder_init (h2_alloc env)) []" using assms(1) by (simp add: builder_init_holds)
  moreover have "0 \<notin> set ?title" using c_string_no_nul by (simp add: lit_def)
  ultimately obtain sb1 where sb1: "appendf env (string_builder_init (h2_alloc env)) ?title = Ok sb1" "builder_holds sb1 ?title"
    using appendf_holds [OF assms(1), of "string_builder_init (h2_alloc env)" "[]" ?title] c assms(2) by (auto simp: lit_def)
  obtain sb2 where sb2: "put_single env sb1 ?content = Ok sb2" "builder_holds sb2 (?title @ ?content)"
    using put_single_holds [OF assms(1) sb1(2), of ?content] c assms(2) by (auto simp: lit_def)
  let ?name = "lit ''../''"
  let ?entry = "lit ''<div class='' @ quote @ lit ''entry'' @ quote @ lit ''> <div class='' @ quote @ lit ''name'' @ quote @
      lit ''><a href='' @ quote @ ?name @ quote @ lit ''>'' @ ?name @ lit ''</a></div> <div class='' @ quote @ lit ''date'' @ quote @
      lit ''>'' @ print_nat 0 @ lit ''</div> <div class='' @ quote @ lit ''size'' @ quote @ lit ''>'' @
      print_nat 0 @ lit ''</div> </div> <br>''"
  obtain sb3 where sb3: "appendf env sb2 ?entry = Ok sb3" "builder_holds sb3 ((?title @ ?content) @ ?entry)"
    using appendf_holds [OF assms(1) sb2(2), of ?entry] c assms(2) by (auto simp: lit_def print_nat.simps)
  then have "sb3 \<noteq> None" by (auto simp: builder_holds_def)
  with sb3(1) have "add_entry_or_null env ndebug sb2
      \<lparr>fe_dir = True, fe_file_name = lit ''..'', fe_date = empty_time, fe_size = 0\<rparr> = Ok sb3"
    by (simp add: add_entry_or_null_def folder_content_add_entry_def get_time_in_milli_seconds_def assert_valid_def
        check_assert_def valid_time_def empty_time_def time_from_details_def signed64_def signed_divide_int_def lit_def)
  with sb1(1) sb2(1) show ?thesis by (simp add: folder_content_to_html_def)
qed


text \<open>The comparison of paths accepts a slash at the end of the first path only.\<close>

lemma same_path_slash:
  "is_the_same_path (p @ slash) p" "\<not> is_the_same_path p (p @ slash)"
proof -
  have "abs_i64 (int (Suc n)) - word_of_int (int n) = 1" "abs_i64 (int n) - word_of_int (int (Suc n)) = - 1" for n
    by (simp_all add: abs_i64_def)
  moreover have "take (length p) (c_string (p @ slash)) = take (length p) (c_string p)"
  proof (cases "0 \<in> set p")
    case True
    then have "c_string (p @ slash) = c_string p" by (auto simp: c_string_def takeWhile_append1)
    then show ?thesis by simp
  qed (simp add: c_string_append)
  ultimately show "is_the_same_path (p @ slash) p" "\<not> is_the_same_path p (p @ slash)"
    by (simp_all add: is_the_same_path_def Let_def)
qed

section \<open>A sample file system\<close>

definition sample_fs :: fs_env where
  "sample_fs =
     \<lparr>cwk_path_normalize = (\<lambda>p. path_text (resolve (pieces p))), cwk_path_is_absolute = (\<lambda>p. hd p = 0x2F),
      fs_stat = (\<lambda>p. if p = lit ''/srv/www'' then StatOk True empty_time 0
                     else if p = lit ''/srv/www/page.html'' \<or> p = lit ''/srv/www-private/key'' then StatOk False empty_time 5
                     else StatMissing),
      fs_opendir = (\<lambda>p. Some ([lit ''page.html'', lit ''link''], True)), fs_closedir = (\<lambda>_. True),
      fs_fopen = (\<lambda>p. Some \<lparr>fh_seek_end = True, fh_tell = 5, fh_seek_set = True, fh_data = lit ''hello'', fh_close = True\<rparr>),
      fs_alloc = (\<lambda>_. True), fs_push = (\<lambda>_. True)\<rparr>"

lemma sample_cwk: "cwk_law sample_fs" "\<forall>n. fs_alloc sample_fs n" "\<forall>n. fs_push sample_fs n"
  by (simp_all add: cwk_law_def sample_fs_def)

definition sample_folder :: "bytes list" where
  "sample_folder = [lit ''srv'', lit ''www'']"

lemma sample_folder_proper: "\<forall>n \<in> set sample_folder. proper_name n" "sample_folder \<noteq> []"
  "path_text sample_folder = lit ''/srv/www''"
  by (simp_all add: sample_folder_def proper_name_def lit_def path_text_def)

abbreviation url_path :: "bytes \<Rightarrow> ParsedURLPath" where
  "url_path p \<equiv> \<lparr>up_path = Some p, up_search_path = Map.empty, up_fragment = None\<rparr>"

theorem sibling_folder_served_witness:
  "\<exists>info. get_serve_folder_content sample_fs sample_http (HTTPPropertyTypeNormal (url_path (lit ''/../www-private/key'')))
      HTTPRouteServeFolderTypeRelative (lit ''/srv/www'') (Some slash) True = Ok (Some (ServeFolderResultTypeFile info)) \<and>
    sf_file_content info = Some (lit ''hello'')"
proof -
  have side: "sideways sample_folder (lit ''-private'') [lit ''key''] = lit ''/../www-private/key''"
    "path_text (butlast sample_folder @ (last sample_folder @ lit ''-private'') # [lit ''key'']) = lit ''/srv/www-private/key''"
    by (simp_all add: sideways_def sample_folder_def lit_def path_text_def)
  have "get_serve_folder_content sample_fs sample_http (HTTPPropertyTypeNormal (url_path (lit ''/../www-private/key'')))
      HTTPRouteServeFolderTypeRelative (lit ''/srv/www'') (Some slash) True =
    Ok (Some (get_serve_folder_content_for_file sample_fs sample_http (lit ''/srv/www-private/key'') True))"
    using sibling_folder_served [OF sample_cwk(1,2) sample_folder_proper(1,2), of "lit ''-private''" "[lit ''key'']" empty_time 5
        sample_http Map.empty None True, unfolded side sample_folder_proper(3)]
    by (simp add: sample_folder_def proper_name_def lit_def sample_fs_def)
  then show ?thesis
    by (simp add: get_serve_folder_content_for_file_def read_entire_file_def sample_fs_def told_size_def Let_def lit_def)
qed

theorem served_near_folder_witness:
  "\<exists>n below. looked_up sample_folder slash (Some (lit ''/page.html'')) = butlast sample_folder @ (last sample_folder @ n) # below"
proof -
  have joined: "joined_path sample_fs HTTPRouteServeFolderTypeRelative (path_text sample_folder) (Some slash) (Some (lit ''/page.html'')) =
      Ok (Some (path_text sample_folder @ slash @ slash @ slash @ lit ''/page.html'' @ [0]))"
    using joined_path_relative [of sample_fs "path_text sample_folder" slash "Some (lit ''/page.html'')"] sample_cwk(2) by simp
  have "cwk_path_normalize sample_fs (lit ''/srv/www////page.html'') = lit ''/srv/www/page.html''"
    by (simp add: sample_fs_def lit_def resolve_def step_into_def path_text_def)
  then have "get_final_file_path sample_fs HTTPRouteServeFolderTypeRelative (path_text sample_folder) (Some slash) (Some (lit ''/page.html'')) =
      Ok (Some (lit ''/srv/www/page.html''))"
    using sample_cwk(2) unfolding get_final_file_path_def joined
    by (simp add: sample_folder_proper(3) c_string_def lit_def)
  then have "\<exists>result. get_serve_folder_content sample_fs sample_http (HTTPPropertyTypeNormal (url_path (lit ''/page.html'')))
      HTTPRouteServeFolderTypeRelative (path_text sample_folder) (Some slash) True = Ok (Some result) \<and>
      result \<noteq> ServeFolderResultTypeNotFound \<and> result \<noteq> ServeFolderResultTypeServerError"
    using sample_cwk(2)
    by (simp add: get_serve_folder_content_def sample_folder_proper(3) file_is_absolute_def c_string_def lit_def)
      (simp add: sample_fs_def lit_def get_serve_folder_content_for_file_def read_entire_file_def told_size_def Let_def)
  then obtain result where "get_serve_folder_content sample_fs sample_http (HTTPPropertyTypeNormal (url_path (lit ''/page.html'')))
      HTTPRouteServeFolderTypeRelative (path_text sample_folder) (Some slash) True = Ok (Some result)"
      "result \<noteq> ServeFolderResultTypeNotFound" "result \<noteq> ServeFolderResultTypeServerError" by blast
  from served_near_folder [OF sample_cwk(1) sample_folder_proper(1,2) this] obtain n below where
      "butlast sample_folder @ (last sample_folder @ n) # below = looked_up sample_folder slash (up_path (url_path (lit ''/page.html'')))"
    unfolding Let_def by blast
  then show ?thesis by (intro exI [of _ n] exI [of _ below]) simp
qed

theorem absolute_folder_overflows_witness:
  "get_serve_folder_content sample_fs sample_http (HTTPPropertyTypeNormal (url_path (lit ''/page.html'')))
    HTTPRouteServeFolderTypeAbsolute (lit ''/srv/www'') (Some slash) True = Undef OutOfBounds"
  by (rule absolute_folder_overflows [OF sample_cwk(1,2)]) (simp_all add: lit_def c_string_def)


end
