(* ===== verification/Utf8_Helper.thy ===== *)
theory Utf8_Helper
  imports Uri
begin

text \<open>
  UTF-8 text as code points (\<open>src/src/utils/utf8_helper.c\<close>). \<open>decompose\<close> stands for \<open>utf8proc_decompose\<close> without
  options: the code points, or the text of an error; \<open>alloc\<close> tells which allocations succeed.
\<close>

type_synonym Utf8Codepoint = int
type_synonym codepoints = "Utf8Codepoint list"

definition get_utf8_string :: "(nat \<Rightarrow> bool) \<Rightarrow> (bytes \<Rightarrow> bytes + codepoints) \<Rightarrow> bytes \<Rightarrow> (bytes, codepoints) res" where
  "get_utf8_string alloc decompose data =
     (if \<not> alloc (4 * length data) then Err (lit ''failed malloc'')
      else
        (case decompose data of
           Inl message \<Rightarrow> Err message
         | Inr codepoints \<Rightarrow>
             (if length codepoints \<noteq> length data \<and> \<not> alloc (4 * length codepoints)
              then Err (lit ''failed realloc'') else Ok codepoints)))"

end
