(* ===== verification/Json_Parse.thy ===== *)
theory Json_Parse
  imports Utf8_Helper
begin

text \<open>
  The JSON parser (\<open>src/src/json/json.c\<close>). It is a recursive descent over the text: the functions below
  take the parse state and return the new one with their value, an error with its place, or a fault.

  Floating point numbers and the libraries are a parameter: the arithmetic of \<open>double\<close> and \<open>pow\<close>, the UTF-8
  decoder of \<open>utf8proc\<close>, the vectors and maps. The recursion ends because every value takes at least one
  character; this is shown together with the termination of the parser, there is no fuel. Error messages
  are the ones of the code without the quotation marks inside them.
\<close>

section \<open>Values, places, errors\<close>


text \<open>
  Values. An object lists its entries in the order of their insertion; its keys are distinct. The order in
  which the map library iterates is a parameter of the printer.
\<close>

datatype 'f JsonValue =
    JsonObject "(codepoints \<times> 'f JsonValue) list" | JsonArray "'f JsonValue list" | JsonNumber 'f
  | JsonString codepoints | JsonBoolean bool | JsonNull

datatype JsonSource = JsonSourceFile tstr | JsonSourceString tstr

record SourcePosition =
  sp_line :: nat
  sp_col :: nat

record SourceLocation =
  sl_source :: JsonSource
  sl_pos :: SourcePosition

record JsonError =
  je_message :: bytes
  je_loc :: SourceLocation

record JsonParseState =
  ps_view :: bytes
  ps_loc :: SourceLocation

text \<open>
  The parameters. \<open>utf8proc_iterate\<close> returns its error message, or the number of bytes it took and the code
  point; \<open>utf8proc_encode_char\<close> the bytes it wrote, or none. \<open>js_order\<close> is the order in which the map library
  iterates over keys that were inserted in the given order; \<open>js_decimal\<close> the sign, integer part and six decimals
  of a finite number as \<open>printf\<close> rounds it, \<open>js_nonfinite\<close> the text of another one; \<open>js_empty_null\<close> tells whether
  the array of an empty vector is the NULL pointer.
\<close>

record 'f json_env =
  js_alloc :: "nat \<Rightarrow> bool"
  js_push :: "nat \<Rightarrow> bool"
  js_insert :: "nat \<Rightarrow> bool"
  js_order :: "codepoints list \<Rightarrow> codepoints list"
  js_read_file :: "bytes \<Rightarrow> bytes option"
  utf8proc_iterate :: "bytes \<Rightarrow> bytes + nat \<times> Utf8Codepoint"
  utf8proc_encode_char :: "Utf8Codepoint \<Rightarrow> bytes option"
  utf8proc_is_control :: "Utf8Codepoint \<Rightarrow> bool"
  js_of_int :: "int \<Rightarrow> 'f"
  js_add :: "'f \<Rightarrow> 'f \<Rightarrow> 'f"
  js_sub :: "'f \<Rightarrow> 'f \<Rightarrow> 'f"
  js_mul :: "'f \<Rightarrow> 'f \<Rightarrow> 'f"
  js_div :: "'f \<Rightarrow> 'f \<Rightarrow> 'f"
  js_neg :: "'f \<Rightarrow> 'f"
  js_pow :: "'f \<Rightarrow> 'f \<Rightarrow> 'f"
  js_decimal :: "'f \<Rightarrow> (bool \<times> nat \<times> nat) option"
  js_nonfinite :: "'f \<Rightarrow> bytes"
  js_empty_null :: bool
  js_ndebug :: bool

section \<open>The parse state\<close>

definition json_parse_impl_is_ws :: "u8 \<Rightarrow> bool" where
  "json_parse_impl_is_ws v \<longleftrightarrow> v = 0x20 \<or> v = 0x09 \<or> v = 0x0A \<or> v = 0x0D"

definition source_position_location_process_new_line :: "SourceLocation \<Rightarrow> SourceLocation" where
  "source_position_location_process_new_line loc =
     loc\<lparr>sl_pos := \<lparr>sp_line = size_add (sp_line (sl_pos loc)) 1, sp_col = 0\<rparr>\<rparr>"

definition source_position_location_advance_col_by :: "SourceLocation \<Rightarrow> nat \<Rightarrow> SourceLocation" where
  "source_position_location_advance_col_by loc amount =
     loc\<lparr>sl_pos := (sl_pos loc)\<lparr>sp_col := size_add (sp_col (sl_pos loc)) amount\<rparr>\<rparr>"

definition json_parse_state_is_eof :: "JsonParseState \<Rightarrow> bool" where
  "json_parse_state_is_eof state \<longleftrightarrow> length (ps_view state) = 0"

definition tstr_view_advance_by :: "bytes \<Rightarrow> nat \<Rightarrow> (JsonError, bytes) res" where
  "tstr_view_advance_by str amount = rbind (check_assert (length str \<ge> amount)) (\<lambda>_. Ok (drop amount str))"

definition json_parse_state_skip_by :: "JsonParseState \<Rightarrow> nat \<Rightarrow> bool \<Rightarrow> (JsonError, JsonParseState) res" where
  "json_parse_state_skip_by state amount advance_loc =
     rbind (check_assert (length (ps_view state) \<ge> amount)) (\<lambda>_.
     rbind (tstr_view_advance_by (ps_view state) amount) (\<lambda>view.
     Ok (if advance_loc
         then state\<lparr>ps_view := view, ps_loc := source_position_location_advance_col_by (ps_loc state) amount\<rparr>
         else state\<lparr>ps_view := view\<rparr>)))"

definition json_parse_state_peek_char_at :: "JsonParseState \<Rightarrow> nat \<Rightarrow> (JsonError, u8) res" where
  "json_parse_state_peek_char_at state index =
     rbind (check_assert (length (ps_view state) > index)) (\<lambda>_. Ok (ps_view state ! index))"

definition json_parse_state_peek_next_char :: "JsonParseState \<Rightarrow> (JsonError, u8) res" where
  "json_parse_state_peek_next_char state = json_parse_state_peek_char_at state 0"

definition json_parse_state_get_next_char :: "JsonParseState \<Rightarrow> (JsonError, u8 \<times> JsonParseState) res" where
  "json_parse_state_get_next_char state =
     rbind (check_assert (length (ps_view state) > 0)) (\<lambda>_.
     rbind (json_parse_state_skip_by state 1 True) (\<lambda>state'. Ok (ps_view state ! 0, state')))"

text \<open>The loop of \<open>json_parse_impl_skip_ws\<close> runs over the view with an offset and moves the place along.\<close>

function skip_ws_loop :: "bytes \<Rightarrow> SourceLocation \<Rightarrow> nat \<Rightarrow> nat \<times> SourceLocation" where
  "skip_ws_loop view loc offset =
     (if length view > offset then
        (let v = view ! offset in
         if json_parse_impl_is_ws v then
           skip_ws_loop view
             (if v = 0x0A then source_position_location_process_new_line loc
              else source_position_location_advance_col_by loc 1) (offset + 1)
         else (offset, loc))
      else (offset, loc))"
  by pat_completeness auto
termination
  by (relation "measure (\<lambda>(view, loc, offset). length view - offset)") auto

declare skip_ws_loop.simps [simp del]

definition json_parse_impl_skip_ws :: "JsonParseState \<Rightarrow> (JsonError, JsonParseState) res" where
  "json_parse_impl_skip_ws state =
     (let (offset, loc) = skip_ws_loop (ps_view state) (ps_loc state) 0 in
      if offset = 0 then Ok (state\<lparr>ps_loc := loc\<rparr>)
      else json_parse_state_skip_by (state\<lparr>ps_loc := loc\<rparr>) offset False)"

definition make_json_error_at :: "SourceLocation \<Rightarrow> string \<Rightarrow> JsonError" where
  "make_json_error_at loc message = \<lparr>je_message = lit message, je_loc = loc\<rparr>"

abbreviation json_fail :: "JsonParseState \<Rightarrow> string \<Rightarrow> (JsonError, 'a) res" where
  "json_fail state message \<equiv> Err (make_json_error_at (ps_loc state) message)"

definition starts_with :: "bytes \<Rightarrow> bytes \<Rightarrow> bool" where
  "starts_with view prefix \<longleftrightarrow> take (length prefix) view = prefix"

section \<open>Literals\<close>

definition json_parse_impl_parse_boolean :: "JsonParseState \<Rightarrow> (JsonError, 'f JsonValue \<times> JsonParseState) res" where
  "json_parse_impl_parse_boolean state =
     (if starts_with (ps_view state) (lit ''false'') then
        rbind (json_parse_state_skip_by state 5 True) (\<lambda>state'. Ok (JsonBoolean False, state'))
      else if starts_with (ps_view state) (lit ''true'') then
        rbind (json_parse_state_skip_by state 4 True) (\<lambda>state'. Ok (JsonBoolean True, state'))
      else json_fail state ''not a boolean'')"

definition json_parse_impl_parse_null :: "JsonParseState \<Rightarrow> (JsonError, 'f JsonValue \<times> JsonParseState) res" where
  "json_parse_impl_parse_null state =
     (if starts_with (ps_view state) (lit ''null'') then
        rbind (json_parse_state_skip_by state 4 True) (\<lambda>state'. Ok (JsonNull, state'))
      else json_fail state ''not null'')"

section \<open>What the parse state does\<close>

text \<open>The rest of the text after a step; places are carried along but decide nothing.\<close>

abbreviation left :: "JsonParseState \<Rightarrow> nat" where
  "left state \<equiv> length (ps_view state)"

lemma eof_iff [simp]: "json_parse_state_is_eof state \<longleftrightarrow> ps_view state = []"
  by (simp add: json_parse_state_is_eof_def)

lemma peek_next [simp]: "ps_view state = c # cs \<Longrightarrow> json_parse_state_peek_next_char state = Ok c"
  by (simp add: json_parse_state_peek_next_char_def json_parse_state_peek_char_at_def check_assert_def)

lemma skip_by_Ok:
  "n \<le> left state \<Longrightarrow> \<exists>loc. json_parse_state_skip_by state n adv = Ok \<lparr>ps_view = drop n (ps_view state), ps_loc = loc\<rparr>"
  by (cases state) (simp add: json_parse_state_skip_by_def tstr_view_advance_by_def check_assert_def)

lemma skip_by_left:
  "json_parse_state_skip_by state n adv = Ok state' \<Longrightarrow> n \<le> left state \<and> ps_view state' = drop n (ps_view state)"
  by (auto simp: json_parse_state_skip_by_def tstr_view_advance_by_def check_assert_def rbind_iffs split: if_splits)

lemma skip_by_Err [simp]: "json_parse_state_skip_by state n adv \<noteq> Err e"
  by (auto simp: json_parse_state_skip_by_def tstr_view_advance_by_def check_assert_def rbind_iffs split: if_splits)

lemma skip_by_Undef: "json_parse_state_skip_by state n adv = Undef u \<longleftrightarrow> left state < n \<and> u = AssertFailed"
  by (auto simp: json_parse_state_skip_by_def tstr_view_advance_by_def check_assert_def rbind_iffs split: if_splits)

lemma skip_ws_loop_view:
  "offset \<le> length view \<Longrightarrow> fst (skip_ws_loop view loc offset) =
    offset + length (takeWhile json_parse_impl_is_ws (drop offset view))"
proof (induction view loc offset rule: skip_ws_loop.induct)
  case (1 view loc offset)
  show ?case
  proof (cases "offset < length view")
    case True
    then have "drop offset view = view ! offset # drop (Suc offset) view" by (simp add: Cons_nth_drop_Suc)
    with 1 True show ?thesis by (simp add: skip_ws_loop.simps [of view loc offset] Let_def)
  next
    case False
    with "1.prems" have "offset = length view" by simp
    then show ?thesis by (subst skip_ws_loop.simps) simp
  qed
qed

lemma skip_ws_Ok:
  "\<exists>loc. json_parse_impl_skip_ws state = Ok \<lparr>ps_view = dropWhile json_parse_impl_is_ws (ps_view state), ps_loc = loc\<rparr>"
proof -
  obtain offset loc where ws: "skip_ws_loop (ps_view state) (ps_loc state) 0 = (offset, loc)" by fastforce
  have off: "offset = length (takeWhile json_parse_impl_is_ws (ps_view state))"
    using skip_ws_loop_view [of 0 "ps_view state" "ps_loc state"] ws by simp
  then have le: "offset \<le> left state" by (simp add: length_takeWhile_le)
  have drop: "drop offset (ps_view state) = dropWhile json_parse_impl_is_ws (ps_view state)"
    unfolding off by (simp add: dropWhile_eq_drop)
  show ?thesis
  proof (cases "offset = 0")
    case True
    with ws drop show ?thesis by (cases state) (auto simp: json_parse_impl_skip_ws_def)
  next
    case False
    with ws drop skip_by_Ok [of offset "state\<lparr>ps_loc := loc\<rparr>" False] le show ?thesis
      by (simp add: json_parse_impl_skip_ws_def)
  qed
qed

lemma skip_ws_left: "json_parse_impl_skip_ws state = Ok state' \<Longrightarrow> ps_view state' = dropWhile json_parse_impl_is_ws (ps_view state)"
  using skip_ws_Ok [of state] by auto

lemma skip_ws_total [simp]: "json_parse_impl_skip_ws state \<noteq> Err e" "json_parse_impl_skip_ws state \<noteq> Undef u"
  using skip_ws_Ok [of state] by auto

section \<open>Numbers\<close>

definition is_digit :: "u8 \<Rightarrow> bool" where
  "is_digit c \<longleftrightarrow> \<not> (c > 0x39 \<or> c < 0x30)"

function int_digits_loop :: "JsonParseState \<Rightarrow> u64 \<Rightarrow> (JsonError, u64 \<times> JsonParseState) res" where
  "int_digits_loop state v =
     (if json_parse_state_is_eof state then Ok (v, state)
      else
        rbind (json_parse_state_peek_next_char state) (\<lambda>next_value.
        if \<not> is_digit next_value then Ok (v, state)
        else
          rbind (json_parse_state_skip_by state 1 True) (\<lambda>state'.
          let v' = v * 10 + ucast (next_value - 0x30) in
          if v > v' then json_fail state' ''invalid number int part: value overflowed a 64 bit number!''
          else int_digits_loop state' v')))"
  by pat_completeness auto
termination
  by (relation "measure (\<lambda>(state, v). left state)") (auto dest: skip_by_left)

declare int_digits_loop.simps [simp del]

definition json_parse_impl_parse_number_int_part ::
  "'f json_env \<Rightarrow> JsonParseState \<Rightarrow> (JsonError, 'f \<times> JsonParseState) res" where
  "json_parse_impl_parse_number_int_part env state =
     (if json_parse_state_is_eof state then json_fail state ''empty number int part''
      else
        rbind (json_parse_state_peek_next_char state) (\<lambda>first_value.
        if first_value = 0x30 then
          rbind (json_parse_state_skip_by state 1 True) (\<lambda>state'. Ok (js_of_int env 0, state'))
        else if first_value > 0x39 \<or> first_value < 0x31 then
          json_fail state ''invalid number int part: incorrect start''
        else
          rbind (json_parse_state_skip_by state 1 True) (\<lambda>state'.
          rbind (int_digits_loop state' (ucast (first_value - 0x30))) (\<lambda>(v, state'').
          Ok (js_of_int env (uint v), state'')))))"

function frac_digits_loop ::
  "'f json_env \<Rightarrow> JsonParseState \<Rightarrow> 'f \<Rightarrow> 'f \<Rightarrow> (JsonError, 'f \<times> JsonParseState) res" where
  "frac_digits_loop env state divider v =
     (if json_parse_state_is_eof state then Ok (v, state)
      else
        rbind (json_parse_state_peek_next_char state) (\<lambda>next_value.
        if \<not> is_digit next_value then Ok (v, state)
        else
          (let divider' = js_mul env divider (js_of_int env 10);
               v' = js_add env v (js_div env (js_sub env (js_of_int env (uint next_value)) (js_of_int env 48)) divider') in
           rbind (json_parse_state_skip_by state 1 True) (\<lambda>state'.
           frac_digits_loop env state' divider' v'))))"
  by pat_completeness auto
termination
  by (relation "measure (\<lambda>(env, state, d, v). left state)") (auto dest: skip_by_left)

declare frac_digits_loop.simps [simp del]

definition json_parse_impl_parse_number_frac_part ::
  "'f json_env \<Rightarrow> JsonParseState \<Rightarrow> (JsonError, 'f \<times> JsonParseState) res" where
  "json_parse_impl_parse_number_frac_part env state =
     (if json_parse_state_is_eof state then json_fail state ''empty number frac part: expected . but got eof''
      else
        rbind (json_parse_state_peek_next_char state) (\<lambda>next_char.
        if next_char \<noteq> 0x2E then json_fail state ''wrong number frac part: missing starting .''
        else
          rbind (json_parse_state_skip_by state 1 True) (\<lambda>state1.
          if json_parse_state_is_eof state1 then json_fail state1 ''empty number frac part: <EOF> after .''
          else
            rbind (json_parse_state_peek_next_char state1) (\<lambda>first_value.
            if \<not> is_digit first_value then json_fail state1 ''invalid number frac part: incorrect start''
            else
              (let divider = js_of_int env 10;
                   v = js_div env (js_of_int env (uint (first_value - 0x30))) divider in
               rbind (json_parse_state_skip_by state1 1 True) (\<lambda>state2.
               frac_digits_loop env state2 divider v))))))"

text \<open>The exponent is a signed 64-bit integer: where it overflows, the behaviour is undefined.\<close>

function exp_digits_loop :: "JsonParseState \<Rightarrow> int \<Rightarrow> (JsonError, int \<times> JsonParseState) res" where
  "exp_digits_loop state v =
     (if json_parse_state_is_eof state then Ok (v, state)
      else
        rbind (json_parse_state_peek_next_char state) (\<lambda>next_value.
        if \<not> is_digit next_value then Ok (v, state)
        else
          (let v' = v * 10 + uint (next_value - 0x30) in
           if v' \<ge> 2 ^ 63 then Undef SignedOverflow
           else
             rbind (json_parse_state_skip_by state 1 True) (\<lambda>state'.
             if v > v' then json_fail state' ''invalid number exp part: value overflowed a 64 bit number!''
             else exp_digits_loop state' v'))))"
  by pat_completeness auto
termination
  by (relation "measure (\<lambda>(state, v). left state)") (auto dest: skip_by_left)

declare exp_digits_loop.simps [simp del]

definition exp_sign :: "JsonParseState \<Rightarrow> (JsonError, bool \<times> JsonParseState) res" where
  "exp_sign state =
     rbind (json_parse_state_peek_next_char state) (\<lambda>first_value.
     if first_value = 0x2B then rbind (json_parse_state_skip_by state 1 True) (\<lambda>state'. Ok (False, state'))
     else if first_value = 0x2D then rbind (json_parse_state_skip_by state 1 True) (\<lambda>state'. Ok (True, state'))
     else Ok (False, state))"

definition json_parse_impl_parse_number_exp_part :: "JsonParseState \<Rightarrow> (JsonError, int \<times> JsonParseState) res" where
  "json_parse_impl_parse_number_exp_part state =
     (if json_parse_state_is_eof state then
        json_fail state ''empty number exp part: expected e or E but got eof''
      else
        rbind (json_parse_state_peek_next_char state) (\<lambda>next_char.
        if next_char \<noteq> 0x65 \<and> next_char \<noteq> 0x45 then
          json_fail state ''wrong number exp part: missing starting e / E''
        else
          rbind (json_parse_state_skip_by state 1 True) (\<lambda>state1.
          if json_parse_state_is_eof state1 then json_fail state1 ''empty number exp part: <EOF> after e''
          else
            rbind (exp_sign state1) (\<lambda>(negative, state2).
            if json_parse_state_is_eof state2 then
              json_fail state2 ''empty number exp part: no values after e and optional sign''
            else
              rbind (json_parse_state_peek_next_char state2) (\<lambda>first_value.
              if \<not> is_digit first_value then json_fail state2 ''invalid number exp part: incorrect start''
              else
                rbind (json_parse_state_skip_by state2 1 True) (\<lambda>state3.
                rbind (exp_digits_loop state3 (uint (first_value - 0x30))) (\<lambda>(v, state4).
                Ok (if negative then - v else v, state4))))))))"

definition get_power_of_10 :: "'f json_env \<Rightarrow> nat \<Rightarrow> 'f" where
  "get_power_of_10 env v = js_pow env (js_of_int env 10) (js_of_int env (int v))"

definition json_number_make_value_int_exp :: "'f json_env \<Rightarrow> 'f \<Rightarrow> int \<Rightarrow> 'f" where
  "json_number_make_value_int_exp env int_value exp =
     (if exp = 0 then int_value
      else if exp < 0 then js_div env int_value (get_power_of_10 env (nat (- exp)))
      else js_mul env int_value (get_power_of_10 env (nat exp)))"

definition signed_number :: "'f json_env \<Rightarrow> bool \<Rightarrow> 'f \<Rightarrow> 'f JsonValue" where
  "signed_number env negative v = JsonNumber (if negative then js_neg env v else v)"

text \<open>
  After the integer part. A debug build fails an assertion when anything follows an exponent that
  directly follows the integer part.
\<close>

definition number_after_frac ::
  "'f json_env \<Rightarrow> bool \<Rightarrow> 'f \<Rightarrow> JsonParseState \<Rightarrow> (JsonError, 'f JsonValue \<times> JsonParseState) res" where
  "number_after_frac env negative int_value state =
     rbind (json_parse_impl_parse_number_frac_part env state) (\<lambda>(frac, state1).
     if json_parse_state_is_eof state1 then Ok (signed_number env negative (js_add env int_value frac), state1)
     else
       rbind (json_parse_state_peek_next_char state1) (\<lambda>next_value2.
       if next_value2 = 0x65 \<or> next_value2 = 0x45 then
         rbind (json_parse_impl_parse_number_exp_part state1) (\<lambda>(exp, state2).
         Ok (signed_number env negative (json_number_make_value_int_exp env (js_add env int_value frac) exp), state2))
       else Ok (signed_number env negative (js_add env int_value frac), state1)))"

definition number_after_exp ::
  "'f json_env \<Rightarrow> bool \<Rightarrow> 'f \<Rightarrow> JsonParseState \<Rightarrow> (JsonError, 'f JsonValue \<times> JsonParseState) res" where
  "number_after_exp env negative int_value state =
     rbind (json_parse_impl_parse_number_exp_part state) (\<lambda>(exp, state1).
     if \<not> json_parse_state_is_eof state1 \<and> \<not> js_ndebug env then Undef AssertFailed
     else Ok (signed_number env negative (json_number_make_value_int_exp env int_value exp), state1))"

definition json_parse_impl_parse_number ::
  "'f json_env \<Rightarrow> JsonParseState \<Rightarrow> (JsonError, 'f JsonValue \<times> JsonParseState) res" where
  "json_parse_impl_parse_number env state =
     (if json_parse_state_is_eof state then json_fail state ''empty number: expected number-start but got eof''
      else
        rbind (json_parse_state_peek_next_char state) (\<lambda>minus_char.
        rbind (if minus_char = 0x2D then json_parse_state_skip_by state 1 True else Ok state) (\<lambda>state1.
        if json_parse_state_is_eof state1 then json_fail state1 ''empty number: <EOF> after -''
        else
          rbind (json_parse_impl_parse_number_int_part env state1) (\<lambda>(int_value, state2).
          let negative = (minus_char = 0x2D) in
          if json_parse_state_is_eof state2 then Ok (signed_number env negative int_value, state2)
          else
            rbind (json_parse_state_peek_next_char state2) (\<lambda>next_value.
            if next_value = 0x2E then number_after_frac env negative int_value state2
            else if next_value = 0x65 \<or> next_value = 0x45 then number_after_exp env negative int_value state2
            else Ok (signed_number env negative int_value, state2))))))"

section \<open>Strings\<close>

definition json_string_add_char_impl ::
  "'f json_env \<Rightarrow> codepoints \<Rightarrow> Utf8Codepoint \<Rightarrow> (string, codepoints) res" where
  "json_string_add_char_impl env json_string codepoint =
     (if \<not> js_push env (length json_string) then Err ''json string add error'' else Ok (json_string @ [codepoint]))"

definition utf8_get_next_char_and_consume ::
  "'f json_env \<Rightarrow> JsonParseState \<Rightarrow> (JsonError, Utf8Codepoint \<times> JsonParseState) res" where
  "utf8_get_next_char_and_consume env state =
     (if json_parse_state_is_eof state then json_fail state ''empty string: <EOF> when getting next char''
      else
        (case utf8proc_iterate env (ps_view state) of
           Inl message \<Rightarrow> Err \<lparr>je_message = message, je_loc = ps_loc state\<rparr>
         | Inr (taken, codepoint) \<Rightarrow>
             (if taken = 0 then json_fail state ''invalid codepoint length''
              else rbind (json_parse_state_skip_by state taken True) (\<lambda>state'. Ok (codepoint, state')))))"

definition hex_digit :: "u8 \<Rightarrow> int option" where
  "hex_digit v =
     (if v \<ge> 0x30 \<and> v \<le> 0x39 then Some (uint (v - 0x30))
      else if v \<ge> 0x41 \<and> v \<le> 0x46 then Some (uint (v - 0x41) + 10)
      else if v \<ge> 0x61 \<and> v \<le> 0x66 then Some (uint (v - 0x61) + 10)
      else None)"

fun unicode_escape_loop :: "JsonParseState \<Rightarrow> nat \<Rightarrow> nat \<Rightarrow> Utf8Codepoint \<Rightarrow> (JsonError, Utf8Codepoint) res" where
  "unicode_escape_loop state i 0 composed = Ok composed"
| "unicode_escape_loop state i (Suc todo) composed =
     rbind (json_parse_state_peek_char_at state i) (\<lambda>v.
     case hex_digit v of
       None \<Rightarrow> json_fail state ''invalid string escape sequence: unicode escape has invalid digits''
     | Some num \<Rightarrow> unicode_escape_loop state (i + 1) todo (composed * 0x10 + num))"

definition escape_logic :: "JsonParseState \<Rightarrow> (JsonError, Utf8Codepoint \<times> JsonParseState) res" where
  "escape_logic state =
     (if json_parse_state_is_eof state then json_fail state ''empty string escape sequence''
      else
        rbind (json_parse_state_get_next_char state) (\<lambda>(escape_char, state1).
        if escape_char = 0x22 then Ok (0x22, state1)
        else if escape_char = 0x5C then Ok (0x5C, state1)
        else if escape_char = 0x2F then Ok (0x2F, state1)
        else if escape_char = 0x62 then Ok (0x08, state1)
        else if escape_char = 0x66 then Ok (0x0C, state1)
        else if escape_char = 0x6E then Ok (0x0A, state1)
        else if escape_char = 0x72 then Ok (0x0D, state1)
        else if escape_char = 0x74 then Ok (0x09, state1)
        else if escape_char = 0x75 then
          (if left state1 < 4 then
             json_fail state1 (''invalid string escape sequence: unicode escape is missing values, it '' @
               ''requires at least 4 chars after it'')
           else
             rbind (unicode_escape_loop state1 0 4 0) (\<lambda>composed.
             rbind (json_parse_state_skip_by state1 4 True) (\<lambda>state2. Ok (composed, state2))))
        else json_fail state1 ''invalid string escape sequence: not a recognized escape char''))"

text \<open>One round of the loop: the character to add, or \<open>None\<close> at the closing quotation mark.\<close>

definition string_char ::
  "'f json_env \<Rightarrow> JsonParseState \<Rightarrow> (JsonError, Utf8Codepoint option \<times> JsonParseState) res" where
  "string_char env state =
     (if json_parse_state_is_eof state then json_fail state ''empty string: expected quotation mark or string-char but got eof''
      else
        rbind (utf8_get_next_char_and_consume env state) (\<lambda>(codepoint, state1).
        if codepoint < 0 then json_fail state1 ''invalid string char: range (-inf, 0)''
        else if codepoint \<ge> 0 \<and> codepoint < 0x20 then json_fail state1 ''invalid string char: range [0, 0x20)''
        else if codepoint \<ge> 0x20 \<and> codepoint \<le> 0x21 then Ok (Some codepoint, state1)
        else if codepoint = 0x22 then Ok (None, state1)
        else if codepoint \<ge> 0x23 \<and> codepoint \<le> 0x5B then Ok (Some codepoint, state1)
        else if codepoint = 0x5C then rbind (escape_logic state1) (\<lambda>(c, state2). Ok (Some c, state2))
        else if codepoint \<ge> 0x5D \<and> codepoint \<le> 0x10FFFF then Ok (Some codepoint, state1)
        else json_fail state1 ''invalid string char: range (0x10FFFF, +inf)''))"

lemma utf8_consume_left: "utf8_get_next_char_and_consume env state = Ok (c, state') \<Longrightarrow> left state' < left state"
  by (auto simp: utf8_get_next_char_and_consume_def rbind_iffs dest!: skip_by_left split: if_splits sum.splits prod.splits)

lemma get_next_char_left: "json_parse_state_get_next_char state = Ok (c, state') \<Longrightarrow> left state' < left state"
  by (auto simp: json_parse_state_get_next_char_def check_assert_def rbind_iffs dest!: skip_by_left split: if_splits)

lemma escape_left: "escape_logic state = Ok (c, state') \<Longrightarrow> left state' < left state"
  by (auto simp: escape_logic_def rbind_iffs dest!: skip_by_left get_next_char_left split: if_splits prod.splits)

lemma string_char_left: "string_char env state = Ok (c, state') \<Longrightarrow> left state' < left state"
  by (fastforce simp: string_char_def rbind_iffs dest!: utf8_consume_left escape_left split: if_splits prod.splits)

function string_loop ::
  "'f json_env \<Rightarrow> JsonParseState \<Rightarrow> codepoints \<Rightarrow> (JsonError, 'f JsonValue \<times> JsonParseState) res" where
  "string_loop env state string =
     rbind (string_char env state) (\<lambda>(c, state1).
     case c of
       None \<Rightarrow> Ok (JsonString string, state1)
     | Some codepoint \<Rightarrow>
         (case json_string_add_char_impl env string codepoint of
            Err message \<Rightarrow> json_fail state1 message
          | Undef u \<Rightarrow> Undef u
          | Ok string' \<Rightarrow> string_loop env state1 string'))"
  by pat_completeness auto
termination
  by (relation "measure (\<lambda>(env, state, string). left state)") (auto dest: string_char_left)

declare string_loop.simps [simp del]

text \<open>
  The result of \<open>get_empty_json_string_impl\<close> is not checked: without memory every path through the
  loop uses the NULL pointer, or hands it out as the value, where its first use is as bad.
\<close>

definition json_parse_impl_parse_string ::
  "'f json_env \<Rightarrow> JsonParseState \<Rightarrow> (JsonError, 'f JsonValue \<times> JsonParseState) res" where
  "json_parse_impl_parse_string env state =
     (if json_parse_state_is_eof state then json_fail state ''empty string: expected quotation mark but got eof''
      else
        rbind (json_parse_state_peek_next_char state) (\<lambda>next_char.
        if next_char \<noteq> 0x22 then json_fail state ''wrong quotation-mark''
        else
          rbind (json_parse_state_skip_by state 1 True) (\<lambda>state1.
          if json_parse_state_is_eof state1 then json_fail state1 ''empty string: <EOF> after quotation mark''
          else if \<not> js_alloc env 1 then Undef OutOfBounds
          else string_loop env state1 [])))"

section \<open>Objects, arrays, values\<close>

definition get_empty_json_object :: "'f json_env \<Rightarrow> (codepoints \<times> 'f JsonValue) list option" where
  "get_empty_json_object env = (if js_alloc env 1 then Some [] else None)"

definition get_empty_json_array :: "'f json_env \<Rightarrow> 'f JsonValue list option" where
  "get_empty_json_array env = (if js_alloc env 1 then Some [] else None)"

text \<open>Adding to an object or an array: the message of an error, or the new contents.\<close>

definition json_object_add_entry_impl ::
  "'f json_env \<Rightarrow> (codepoints \<times> 'f JsonValue) list \<Rightarrow> codepoints \<Rightarrow> 'f JsonValue
     \<Rightarrow> (string, (codepoints \<times> 'f JsonValue) list) res" where
  "json_object_add_entry_impl env json_object key v =
     (if \<not> js_insert env (length json_object) then Err ''json object add error''
      else if key \<in> set (map fst json_object) then Err ''json object has duplicate key''
      else Ok (json_object @ [(key, v)]))"

definition json_array_add_entry ::
  "'f json_env \<Rightarrow> 'f JsonValue list \<Rightarrow> 'f JsonValue \<Rightarrow> (string, 'f JsonValue list) res" where
  "json_array_add_entry env json_array entry =
     (if \<not> js_push env (length json_array) then Err ''json array add error'' else Ok (json_array @ [entry]))"

definition add_or_fail :: "JsonParseState \<Rightarrow> (string, 'a) res \<Rightarrow> (JsonError, 'a \<times> JsonParseState) res" where
  "add_or_fail state r = rbind (map_err (make_json_error_at (ps_loc state)) r) (\<lambda>x. Ok (x, state))"

text \<open>The member name and the separator behind it.\<close>

definition member_name :: "'f json_env \<Rightarrow> JsonParseState \<Rightarrow> (JsonError, codepoints \<times> JsonParseState) res" where
  "member_name env state =
     (if json_parse_state_is_eof state then
        json_fail state ''empty object member: missing member after value-separator''
      else
        rbind (json_parse_impl_parse_string env state) (\<lambda>(key_raw, state1).
        case key_raw of
          JsonString key \<Rightarrow>
            rbind (json_parse_impl_skip_ws state1) (\<lambda>state2.
            if json_parse_state_is_eof state2 then
              json_fail state2 ''empty object member: missing name-separator after member name''
            else
              rbind (json_parse_state_peek_next_char state2) (\<lambda>next_value.
              if next_value \<noteq> 0x3A then json_fail state2 ''wrong name-separator''
              else
                rbind (json_parse_state_skip_by state2 1 True) (\<lambda>state3.
                if json_parse_state_is_eof state3 then
                  json_fail state3 ''empty object member: mssing value after name-separator''
                else rbind (json_parse_impl_skip_ws state3) (\<lambda>state4. Ok (key, state4)))))
        | _ \<Rightarrow> json_fail state1 ''implementation error: string parser didnt return a string''))"

text \<open>The opening bracket of an object or array and the white space behind it.\<close>

definition begin_structure :: "u8 \<Rightarrow> string \<Rightarrow> string \<Rightarrow> JsonParseState \<Rightarrow> (JsonError, JsonParseState) res" where
  "begin_structure bracket name content state =
     (if json_parse_state_is_eof state then json_fail state (''empty '' @ name @ '': missing begin-'' @ name)
      else
        rbind (json_parse_impl_skip_ws state) (\<lambda>state1.
        if json_parse_state_is_eof state1 then json_fail state1 (''empty '' @ name @ '': missing '' @ [char_of (unat bracket)])
        else
          rbind (json_parse_state_peek_next_char state1) (\<lambda>next_value.
          if next_value \<noteq> bracket then json_fail state1 (''wrong begin-'' @ name)
          else
            rbind (json_parse_state_skip_by state1 1 True) (\<lambda>state2.
            rbind (json_parse_impl_skip_ws state2) (\<lambda>state3.
            if json_parse_state_is_eof state3 then json_fail state3 (''empty '' @ name @ '': <EOF> after '' @ [char_of (unat bracket)])
            else
              rbind (json_parse_impl_skip_ws state3) (\<lambda>state4.
              if json_parse_state_is_eof state4 then
                json_fail state4 (''empty '' @ name @ '': missing '' @ content @ '' or end-'' @ name @
                  '' after begin-'' @ name)
              else Ok state4))))))"

text \<open>The closing bracket and the white space behind it.\<close>

definition end_structure :: "JsonParseState \<Rightarrow> (JsonError, JsonParseState) res" where
  "end_structure state = rbind (json_parse_state_skip_by state 1 True) json_parse_impl_skip_ws"

text \<open>The place behind an element: its end, a separator (and the white space behind it), or an error.\<close>

datatype after_element = AfterEnd JsonParseState | AfterSeparator JsonParseState

definition element_end :: "u8 \<Rightarrow> string \<Rightarrow> string \<Rightarrow> JsonParseState \<Rightarrow> (JsonError, after_element) res" where
  "element_end bracket missing invalid state =
     rbind (json_parse_impl_skip_ws state) (\<lambda>state1.
     if json_parse_state_is_eof state1 then json_fail state1 missing
     else
       rbind (json_parse_state_peek_next_char state1) (\<lambda>end_char.
       if end_char = bracket then rbind (end_structure state1) (\<lambda>state2. Ok (AfterEnd state2))
       else if end_char \<noteq> 0x2C then json_fail state1 invalid
       else
         rbind (json_parse_state_skip_by state1 1 True) (\<lambda>state2.
         rbind (json_parse_impl_skip_ws state2) (\<lambda>state3. Ok (AfterSeparator state3)))))"

lemma skip_ws_le: "json_parse_impl_skip_ws state = Ok state' \<Longrightarrow> left state' \<le> left state"
  by (simp add: skip_ws_left length_dropWhile_le)

lemma skip_by_less: "json_parse_state_skip_by state n adv = Ok state' \<Longrightarrow> 0 < n \<Longrightarrow> left state' < left state"
  by (auto dest: skip_by_left)

lemma string_loop_left: "string_loop env state string = Ok (v, state') \<Longrightarrow> left state' < left state"
proof (induction env state string rule: string_loop.induct)
  case (1 env state string)
  obtain c state1 where c: "string_char env state = Ok (c, state1)" "left state1 < left state"
    using "1.prems" by (subst (asm) string_loop.simps) (auto simp: rbind_iffs dest: string_char_left)
  show ?case
  proof (cases c)
    case None
    with "1.prems" c show ?thesis by (subst (asm) string_loop.simps) simp
  next
    case (Some codepoint)
    with "1.prems" c(1) obtain string' where add: "json_string_add_char_impl env string codepoint = Ok string'"
      "string_loop env state1 string' = Ok (v, state')"
      by (subst (asm) string_loop.simps) (auto split: res.splits)
    from "1.IH" [OF c(1) refl Some add(1) add(2)] c(2) show ?thesis by simp
  qed
qed

lemma parse_string_left: "json_parse_impl_parse_string env state = Ok (v, state') \<Longrightarrow> left state' < left state"
  by (fastforce simp: json_parse_impl_parse_string_def rbind_iffs dest: skip_by_less string_loop_left split: if_splits)

lemma int_digits_left: "int_digits_loop state v = Ok (w, state') \<Longrightarrow> left state' \<le> left state"
proof (induction "left state" arbitrary: state v rule: less_induct)
  case less
  from less.prems have "state' = state \<or> (\<exists>s1 v1. left s1 < left state \<and> int_digits_loop s1 v1 = Ok (w, state'))"
    by (subst (asm) int_digits_loop.simps) (auto simp: rbind_iffs Let_def dest: skip_by_less split: if_splits)
  with less.hyps show ?case by fastforce
qed

lemma frac_digits_left: "frac_digits_loop env state d v = Ok (w, state') \<Longrightarrow> left state' \<le> left state"
proof (induction "left state" arbitrary: state d v rule: less_induct)
  case less
  from less.prems have "state' = state \<or> (\<exists>s1 d1 v1. left s1 < left state \<and> frac_digits_loop env s1 d1 v1 = Ok (w, state'))"
    by (subst (asm) frac_digits_loop.simps) (auto simp: rbind_iffs Let_def dest: skip_by_less split: if_splits)
  with less.hyps show ?case by fastforce
qed

lemma exp_digits_left: "exp_digits_loop state v = Ok (w, state') \<Longrightarrow> left state' \<le> left state"
proof (induction "left state" arbitrary: state v rule: less_induct)
  case less
  from less.prems have "state' = state \<or> (\<exists>s1 v1. left s1 < left state \<and> exp_digits_loop s1 v1 = Ok (w, state'))"
    by (subst (asm) exp_digits_loop.simps) (auto simp: rbind_iffs Let_def dest: skip_by_less split: if_splits)
  with less.hyps show ?case by fastforce
qed

lemma int_part_left: "json_parse_impl_parse_number_int_part env state = Ok (v, state') \<Longrightarrow> left state' < left state"
  by (auto simp: json_parse_impl_parse_number_int_part_def rbind_iffs dest!: skip_by_less int_digits_left split: if_splits)

lemma frac_part_left: "json_parse_impl_parse_number_frac_part env state = Ok (v, state') \<Longrightarrow> left state' < left state"
  by (auto simp: json_parse_impl_parse_number_frac_part_def rbind_iffs Let_def dest!: skip_by_less frac_digits_left
      split: if_splits)

lemma exp_sign_left: "exp_sign state = Ok (v, state') \<Longrightarrow> left state' \<le> left state"
  by (auto simp: exp_sign_def rbind_iffs dest!: skip_by_less split: if_splits)

lemma exp_part_left: "json_parse_impl_parse_number_exp_part state = Ok (v, state') \<Longrightarrow> left state' < left state"
  by (auto simp: json_parse_impl_parse_number_exp_part_def rbind_iffs dest!: skip_by_less exp_digits_left exp_sign_left
      split: if_splits)

lemma number_after_left:
  "number_after_frac env neg i state = Ok (v, state') \<Longrightarrow> left state' < left state"
  "number_after_exp env neg i state = Ok (v, state') \<Longrightarrow> left state' < left state"
  by (auto simp: number_after_frac_def number_after_exp_def rbind_iffs dest!: frac_part_left exp_part_left split: if_splits)

lemma parse_number_left: "json_parse_impl_parse_number env state = Ok (v, state') \<Longrightarrow> left state' < left state"
  by (auto simp: json_parse_impl_parse_number_def rbind_iffs Let_def
      dest!: skip_by_less int_part_left number_after_left split: if_splits)

lemma parse_boolean_left: "json_parse_impl_parse_boolean state = Ok (v, state') \<Longrightarrow> left state' < left state"
  by (auto simp: json_parse_impl_parse_boolean_def rbind_iffs dest!: skip_by_less split: if_splits)

lemma parse_null_left: "json_parse_impl_parse_null state = Ok (v, state') \<Longrightarrow> left state' < left state"
  by (auto simp: json_parse_impl_parse_null_def rbind_iffs dest!: skip_by_less split: if_splits)

lemma member_name_left:
  assumes "member_name env state = Ok (k, state')"
  shows "left state' < left state"
proof -
  obtain key_raw state1 where "json_parse_impl_parse_string env state = Ok (key_raw, state1)"
    using assms by (auto simp: member_name_def rbind_iffs split: if_splits)
  with assms parse_string_left [OF this] show ?thesis
    by (cases key_raw) (auto simp: member_name_def rbind_iffs dest!: skip_by_less skip_ws_le split: if_splits)
qed

lemma begin_structure_left: "begin_structure b n m state = Ok state' \<Longrightarrow> left state' < left state"
  by (auto simp: begin_structure_def rbind_iffs dest!: skip_by_less skip_ws_le split: if_splits)

lemma end_structure_left: "end_structure state = Ok state' \<Longrightarrow> left state' < left state"
  by (auto simp: end_structure_def rbind_iffs dest!: skip_by_less skip_ws_le)

lemma element_end_left:
  "element_end b m i state = Ok (AfterEnd state') \<Longrightarrow> left state' < left state"
  "element_end b m i state = Ok (AfterSeparator state') \<Longrightarrow> left state' < left state"
  by (auto simp: element_end_def rbind_iffs dest!: skip_by_less skip_ws_le end_structure_left split: if_splits)

lemma add_or_fail_state: "add_or_fail state r = Ok (x, state') \<Longrightarrow> state' = state"
  by (auto simp: add_or_fail_def rbind_iffs)

text \<open>A loop over elements, and a whole object or array, take at least one character if their parts do.\<close>

lemma loop_consumes:
  assumes "loop state acc = rbind (element_end bracket m i state) (\<lambda>after.
      case after of
        AfterEnd s \<Rightarrow> Ok (mk acc, s)
      | AfterSeparator s \<Rightarrow> rbind (item s acc) (\<lambda>(acc', s'). loop s' acc'))"
    and "\<And>s acc' s'. element_end bracket m i state = Ok (AfterSeparator s) \<Longrightarrow> item s acc = Ok (acc', s') \<Longrightarrow> left s' < left s"
    and "\<And>s acc' s' v state'. element_end bracket m i state = Ok (AfterSeparator s) \<Longrightarrow> item s acc = Ok (acc', s') \<Longrightarrow>
      loop s' acc' = Ok (v, state') \<Longrightarrow> left state' < left s'"
    and "loop state acc = Ok (v, state')"
  shows "left state' < left state"
proof -
  obtain after where after: "element_end bracket m i state = Ok after"
      "(case after of AfterEnd s \<Rightarrow> state' = s
        | AfterSeparator s \<Rightarrow> (\<exists>acc' s'. item s acc = Ok (acc', s') \<and> loop s' acc' = Ok (v, state')))"
    using assms(4) [unfolded assms(1)] by (fastforce simp: rbind_iffs split: after_element.splits)
  then show ?thesis
    using assms(2,3) by (fastforce split: after_element.splits dest: element_end_left)
qed

lemma structure_consumes:
  assumes "whole state = rbind (begin_structure bracket name content state) (\<lambda>state1.
      rbind (json_parse_state_peek_next_char state1) (\<lambda>next_char.
      if next_char = bracket' then
        rbind (end_structure state1) (\<lambda>state2.
        case none of None \<Rightarrow> json_fail state2 ''OOM'' | Some acc \<Rightarrow> Ok (mk acc, state2))
      else
        (case none of
           None \<Rightarrow> json_fail state1 ''OOM''
         | Some acc \<Rightarrow> rbind (item state1 acc) (\<lambda>(acc', state2). loop state2 acc'))))"
    and "\<And>s c acc acc' s'. begin_structure bracket name content state = Ok s \<Longrightarrow>
      json_parse_state_peek_next_char s = Ok c \<Longrightarrow> c \<noteq> bracket' \<Longrightarrow> none = Some acc \<Longrightarrow>
      item s acc = Ok (acc', s') \<Longrightarrow> left s' < left s"
    and "\<And>s c acc acc' s' v state'. begin_structure bracket name content state = Ok s \<Longrightarrow>
      json_parse_state_peek_next_char s = Ok c \<Longrightarrow> c \<noteq> bracket' \<Longrightarrow> none = Some acc \<Longrightarrow>
      item s acc = Ok (acc', s') \<Longrightarrow> loop s' acc' = Ok (v, state') \<Longrightarrow> left state' < left s'"
    and "whole state = Ok (v, state')"
  shows "left state' < left state"
proof -
  obtain s1 c where s1: "begin_structure bracket name content state = Ok s1" "json_parse_state_peek_next_char s1 = Ok c"
      "end_structure s1 = Ok state' \<or> (\<exists>acc0 acc s2. c \<noteq> bracket' \<and> none = Some acc0 \<and>
         item s1 acc0 = Ok (acc, s2) \<and> loop s2 acc = Ok (v, state'))"
    using assms(4) [unfolded assms(1)] by (fastforce simp: rbind_iffs split: if_splits option.splits)
  from s1(3) show ?thesis
  proof
    assume "end_structure s1 = Ok state'"
    then show ?thesis using begin_structure_left [OF s1(1)] end_structure_left by fastforce
  next
    assume "\<exists>acc0 acc s2. c \<noteq> bracket' \<and> none = Some acc0 \<and> item s1 acc0 = Ok (acc, s2) \<and> loop s2 acc = Ok (v, state')"
    then show ?thesis using begin_structure_left [OF s1(1)] assms(2) [OF s1(1,2)] assms(3) [OF s1(1,2)] by fastforce
  qed
qed

lemma member_consumes:
  assumes "member_state = rbind (member_name env state) (\<lambda>(key, state1).
      rbind (parse env state1) (\<lambda>(v, state2). add_or_fail state2 (add key v)))"
    and "\<And>key s1 v s2. member_name env state = Ok (key, s1) \<Longrightarrow> parse env s1 = Ok (v, s2) \<Longrightarrow> left s2 < left s1"
    and "member_state = Ok (w, state')"
  shows "left state' < left state"
proof -
  obtain key s1 v s2 where "member_name env state = Ok (key, s1)" "parse env s1 = Ok (v, s2)" "state' = s2"
    using assms(3) [unfolded assms(1)] by (auto simp: rbind_iffs dest!: add_or_fail_state)
  then show ?thesis using assms(2) member_name_left by fastforce
qed

text \<open>The recursive descent, with the functions and loops of the code.\<close>

function json_parse_impl_parse_value :: "'f json_env \<Rightarrow> JsonParseState \<Rightarrow> (JsonError, 'f JsonValue \<times> JsonParseState) res" and
  json_parse_impl_parse_object_member ::
    "'f json_env \<Rightarrow> JsonParseState \<Rightarrow> (codepoints \<times> 'f JsonValue) list
       \<Rightarrow> (JsonError, (codepoints \<times> 'f JsonValue) list \<times> JsonParseState) res" and
  object_loop ::
    "'f json_env \<Rightarrow> JsonParseState \<Rightarrow> (codepoints \<times> 'f JsonValue) list
       \<Rightarrow> (JsonError, 'f JsonValue \<times> JsonParseState) res" and
  json_parse_impl_parse_object :: "'f json_env \<Rightarrow> JsonParseState \<Rightarrow> (JsonError, 'f JsonValue \<times> JsonParseState) res" and
  json_parse_impl_parse_array_value ::
    "'f json_env \<Rightarrow> JsonParseState \<Rightarrow> 'f JsonValue list \<Rightarrow> (JsonError, 'f JsonValue list \<times> JsonParseState) res" and
  array_loop ::
    "'f json_env \<Rightarrow> JsonParseState \<Rightarrow> 'f JsonValue list \<Rightarrow> (JsonError, 'f JsonValue \<times> JsonParseState) res" and
  json_parse_impl_parse_array :: "'f json_env \<Rightarrow> JsonParseState \<Rightarrow> (JsonError, 'f JsonValue \<times> JsonParseState) res"
where
  "json_parse_impl_parse_value env state =
     (if json_parse_state_is_eof state then json_fail state ''empty value: expected value but got eof''
      else
        rbind (json_parse_state_peek_next_char state) (\<lambda>first_char.
        if first_char = 0x66 then json_parse_impl_parse_boolean state
        else if first_char = 0x6E then json_parse_impl_parse_null state
        else if first_char = 0x74 then json_parse_impl_parse_boolean state
        else if first_char = 0x7B then json_parse_impl_parse_object env state
        else if first_char = 0x5B then json_parse_impl_parse_array env state
        else if first_char = 0x2D then json_parse_impl_parse_number env state
        else if first_char = 0x22 then json_parse_impl_parse_string env state
        else if first_char \<ge> 0x30 \<and> first_char \<le> 0x39 then json_parse_impl_parse_number env state
        else if json_parse_impl_is_ws first_char then
          json_fail state ''implementation error, skip whitespace, before parsing value''
        else json_fail state ''invalid value: no value type was detected based on the start-char''))"
| "json_parse_impl_parse_object_member env state json_object =
     rbind (member_name env state) (\<lambda>(key, state1).
     rbind (json_parse_impl_parse_value env state1) (\<lambda>(v, state2).
     add_or_fail state2 (json_object_add_entry_impl env json_object key v)))"
| "object_loop env state json_object =
     rbind (element_end 0x7D ''empty object: missing member or end-object''
              ''invalid continuation of member in object'' state) (\<lambda>after.
     case after of
       AfterEnd state1 \<Rightarrow> Ok (JsonObject json_object, state1)
     | AfterSeparator state1 \<Rightarrow>
         rbind (json_parse_impl_parse_object_member env state1 json_object) (\<lambda>(json_object', state2).
         object_loop env state2 json_object'))"
| "json_parse_impl_parse_object env state =
     rbind (begin_structure 0x7B ''object'' ''member'' state) (\<lambda>state1.
     rbind (json_parse_state_peek_next_char state1) (\<lambda>next_char.
     if next_char = 0x7D then
       rbind (end_structure state1) (\<lambda>state2.
       case get_empty_json_object env of
         None \<Rightarrow> json_fail state2 ''OOM''
       | Some json_object \<Rightarrow> Ok (JsonObject json_object, state2))
     else
       (case get_empty_json_object env of
          None \<Rightarrow> json_fail state1 ''OOM''
        | Some json_object \<Rightarrow>
            rbind (json_parse_impl_parse_object_member env state1 json_object) (\<lambda>(json_object', state2).
            object_loop env state2 json_object'))))"
| "json_parse_impl_parse_array_value env state json_array =
     (if json_parse_state_is_eof state then json_fail state ''empty array value''
      else
        rbind (json_parse_impl_parse_value env state) (\<lambda>(v, state1).
        add_or_fail state1 (json_array_add_entry env json_array v)))"
| "array_loop env state json_array =
     rbind (element_end 0x5D ''empty array: missing value or end-array''
              ''invalid continuation of values in array'' state) (\<lambda>after.
     case after of
       AfterEnd state1 \<Rightarrow> Ok (JsonArray json_array, state1)
     | AfterSeparator state1 \<Rightarrow>
         rbind (json_parse_impl_parse_array_value env state1 json_array) (\<lambda>(json_array', state2).
         array_loop env state2 json_array'))"
| "json_parse_impl_parse_array env state =
     rbind (begin_structure 0x5B ''array'' ''value'' state) (\<lambda>state1.
     rbind (json_parse_state_peek_next_char state1) (\<lambda>next_char.
     if next_char = 0x5D then
       rbind (end_structure state1) (\<lambda>state2.
       case get_empty_json_array env of
         None \<Rightarrow> json_fail state2 ''OOM''
       | Some json_array \<Rightarrow> Ok (JsonArray json_array, state2))
     else
       (case get_empty_json_array env of
          None \<Rightarrow> json_fail state1 ''OOM''
        | Some json_array \<Rightarrow>
            rbind (json_parse_impl_parse_array_value env state1 json_array) (\<lambda>(json_array', state2).
            array_loop env state2 json_array'))))"
  by pat_completeness auto

termination
proof -
  let ?dom = "json_parse_impl_parse_value_json_parse_impl_parse_object_member_object_loop_json_parse_impl_parse_object_json_parse_impl_parse_array_value_array_loop_json_parse_impl_parse_array_dom"
  {
    fix env :: "'f json_env" and state state1 state2 state3 state4 state5 state6 ob1 ob2 ar4 ar5
    have "?dom (Inl (Inl (env, state))) \<Longrightarrow>
        \<forall>v state'. json_parse_impl_parse_value env state = Ok (v, state') \<longrightarrow> left state' < left state"
      "?dom (Inl (Inr (Inl (env, state1, ob1)))) \<Longrightarrow>
        \<forall>v state'. json_parse_impl_parse_object_member env state1 ob1 = Ok (v, state') \<longrightarrow> left state' < left state1"
      "?dom (Inl (Inr (Inr (env, state2, ob2)))) \<Longrightarrow>
        \<forall>v state'. object_loop env state2 ob2 = Ok (v, state') \<longrightarrow> left state' < left state2"
      "?dom (Inr (Inl (Inl (env, state3)))) \<Longrightarrow>
        \<forall>v state'. json_parse_impl_parse_object env state3 = Ok (v, state') \<longrightarrow> left state' < left state3"
      "?dom (Inr (Inl (Inr (env, state4, ar4)))) \<Longrightarrow>
        \<forall>v state'. json_parse_impl_parse_array_value env state4 ar4 = Ok (v, state') \<longrightarrow> left state' < left state4"
      "?dom (Inr (Inr (Inl (env, state5, ar5)))) \<Longrightarrow>
        \<forall>v state'. array_loop env state5 ar5 = Ok (v, state') \<longrightarrow> left state' < left state5"
      "?dom (Inr (Inr (Inr (env, state6)))) \<Longrightarrow>
        \<forall>v state'. json_parse_impl_parse_array env state6 = Ok (v, state') \<longrightarrow> left state' < left state6"
    proof (induction env state and env state1 ob1 and env state2 ob2 and env state3 and env state4 ar4 and env state5 ar5
        and env state6 rule: json_parse_impl_parse_value_json_parse_impl_parse_object_member_object_loop_json_parse_impl_parse_object_json_parse_impl_parse_array_value_array_loop_json_parse_impl_parse_array.pinduct)
      case (1 env state)
      then show ?case
        by (auto simp: json_parse_impl_parse_value.psimps rbind_iffs split: if_splits
            dest!: parse_boolean_left parse_null_left parse_number_left parse_string_left)
    next
      case (2 env state json_object)
      show ?case
      proof (intro allI impI)
        fix v state' assume run: "json_parse_impl_parse_object_member env state json_object = Ok (v, state')"
        show "left state' < left state"
          by (rule member_consumes [where parse = json_parse_impl_parse_value and add = "json_object_add_entry_impl env json_object",
                OF json_parse_impl_parse_object_member.psimps [OF "2.hyps"] _ run])
            (auto dest: "2.IH" [OF _ refl, rule_format])
      qed
    next
      case (3 env state json_object)
      show ?case
      proof (intro allI impI)
        fix v state' assume run: "object_loop env state json_object = Ok (v, state')"
        show "left state' < left state"
          by (rule loop_consumes [where loop = "object_loop env" and item = "json_parse_impl_parse_object_member env" and mk = JsonObject, OF object_loop.psimps [OF "3.hyps"] _ _ run])
            (auto dest: "3.IH"(1) [OF _ refl, rule_format] "3.IH"(2) [OF _ refl _ refl, rule_format])
      qed
    next
      case (4 env state)
      show ?case
      proof (intro allI impI)
        fix v state' assume run: "json_parse_impl_parse_object env state = Ok (v, state')"
        show "left state' < left state"
          by (rule structure_consumes [where whole = "json_parse_impl_parse_object env" and loop = "object_loop env" and
              item = "json_parse_impl_parse_object_member env" and mk = JsonObject, OF json_parse_impl_parse_object.psimps [OF "4.hyps"] _ _ run])
            (auto dest: "4.IH"(1) [rule_format] "4.IH"(2) [OF _ _ _ _ _ refl, rule_format])
      qed
    next
      case (5 env state json_array)
      then show ?case
        by (fastforce simp: json_parse_impl_parse_array_value.psimps rbind_iffs dest!: add_or_fail_state split: if_splits)
    next
      case (6 env state json_array)
      show ?case
      proof (intro allI impI)
        fix v state' assume run: "array_loop env state json_array = Ok (v, state')"
        show "left state' < left state"
          by (rule loop_consumes [where loop = "array_loop env" and item = "json_parse_impl_parse_array_value env" and mk = JsonArray, OF array_loop.psimps [OF "6.hyps"] _ _ run])
            (auto dest: "6.IH"(1) [OF _ refl, rule_format] "6.IH"(2) [OF _ refl _ refl, rule_format])
      qed
    next
      case (7 env state)
      show ?case
      proof (intro allI impI)
        fix v state' assume run: "json_parse_impl_parse_array env state = Ok (v, state')"
        show "left state' < left state"
          by (rule structure_consumes [where whole = "json_parse_impl_parse_array env" and loop = "array_loop env" and
              item = "json_parse_impl_parse_array_value env" and mk = JsonArray, OF json_parse_impl_parse_array.psimps [OF "7.hyps"] _ _ run])
            (auto dest: "7.IH"(1) [rule_format] "7.IH"(2) [OF _ _ _ _ _ refl, rule_format])
      qed
    qed
  }
  note consumes = this
  show ?thesis
    by (relation "measure (\<lambda>x. case x of
        Inl (Inl (env, state)) \<Rightarrow> 8 * left state + 3
      | Inl (Inr (Inl (env, state, ob))) \<Rightarrow> 8 * left state + 4
      | Inl (Inr (Inr (env, state, ob))) \<Rightarrow> 8 * left state + 4
      | Inr (Inl (Inl (env, state))) \<Rightarrow> 8 * left state
      | Inr (Inl (Inr (env, state, ar))) \<Rightarrow> 8 * left state + 4
      | Inr (Inr (Inl (env, state, ar))) \<Rightarrow> 8 * left state + 4
      | Inr (Inr (Inr (env, state))) \<Rightarrow> 8 * left state)")
      (auto dest!: member_name_left element_end_left begin_structure_left consumes)
qed

declare json_parse_impl_parse_value.simps [simp del] json_parse_impl_parse_object_member.simps [simp del]
  object_loop.simps [simp del] json_parse_impl_parse_object.simps [simp del]
  json_parse_impl_parse_array_value.simps [simp del] array_loop.simps [simp del]
  json_parse_impl_parse_array.simps [simp del]

section \<open>Whole texts\<close>

definition json_value_parse_from_str_impl :: "'f json_env \<Rightarrow> JsonParseState \<Rightarrow> (JsonError, 'f JsonValue) res" where
  "json_value_parse_from_str_impl env state_const =
     rbind (json_parse_impl_skip_ws state_const) (\<lambda>state1.
     rbind (json_parse_impl_parse_value env state1) (\<lambda>(result, state2).
     rbind (json_parse_impl_skip_ws state2) (\<lambda>state3.
     if \<not> json_parse_state_is_eof state3 then json_fail state3 ''Didnt reach the end, invalid data at the end''
     else Ok result)))"

definition json_value_parse_from_str :: "'f json_env \<Rightarrow> bytes \<Rightarrow> (JsonError, 'f JsonValue) res" where
  "json_value_parse_from_str env data =
     json_value_parse_from_str_impl env
       \<lparr>ps_view = data, ps_loc = \<lparr>sl_source = JsonSourceString (Some data), sl_pos = \<lparr>sp_line = 0, sp_col = 0\<rparr>\<rparr>\<rparr>"

definition make_null_source_location :: SourceLocation where
  "make_null_source_location = \<lparr>sl_source = JsonSourceFile None, sl_pos = \<lparr>sp_line = 0, sp_col = 0\<rparr>\<rparr>"

definition is_null_source_location :: "SourceLocation \<Rightarrow> bool" where
  "is_null_source_location location \<longleftrightarrow>
     (case sl_source location of
        JsonSourceFile file_path \<Rightarrow> file_path = None
      | JsonSourceString data \<Rightarrow> data = None)"

definition json_value_parse_from_file :: "'f json_env \<Rightarrow> bytes \<Rightarrow> (JsonError, 'f JsonValue) res" where
  "json_value_parse_from_file env file_path =
     (case js_read_file env file_path of
        None \<Rightarrow> Err (make_json_error_at make_null_source_location ''Error in reading file'')
      | Some file_data \<Rightarrow>
          json_value_parse_from_str_impl env
            \<lparr>ps_view = file_data,
             ps_loc = \<lparr>sl_source = JsonSourceFile (Some file_path), sl_pos = \<lparr>sp_line = 0, sp_col = 0\<rparr>\<rparr>\<rparr>)"

section \<open>Safety\<close>

text \<open>The decoder of the library takes no more bytes than it is given.\<close>

definition iterate_law :: "'f json_env \<Rightarrow> bool" where
  "iterate_law env \<longleftrightarrow> (\<forall>bs n c. utf8proc_iterate env bs = Inr (n, c) \<longrightarrow> n \<le> length bs)"

text \<open>
  The faults of the parser: a failing assertion in a debug build, a signed overflow in an exponent, and the
  NULL pointer of a string without memory.
\<close>

definition parse_fault :: "'f json_env \<Rightarrow> fault \<Rightarrow> bool" where
  "parse_fault env u \<longleftrightarrow>
     u = SignedOverflow \<or> (u = AssertFailed \<and> \<not> js_ndebug env) \<or> (u = OutOfBounds \<and> \<not> js_alloc env 1)"

abbreviation parse_ok :: "'f json_env \<Rightarrow> (JsonError, 'a) res \<Rightarrow> bool" where
  "parse_ok env \<equiv> outcome (\<lambda>_. True) (parse_fault env)"

lemma peek_ok [simp]: "ps_view state \<noteq> [] \<Longrightarrow> json_parse_state_peek_next_char state = Ok (hd (ps_view state))"
  by (cases "ps_view state") simp_all


lemma ok_bind: "parse_ok env m \<Longrightarrow> (\<And>x. m = Ok x \<Longrightarrow> parse_ok env (f x)) \<Longrightarrow> parse_ok env (rbind m f)"
  by (cases m) simp_all

lemma ok_if: "(b \<Longrightarrow> parse_ok env x) \<Longrightarrow> (\<not> b \<Longrightarrow> parse_ok env y) \<Longrightarrow> parse_ok env (if b then x else y)"
  by simp

lemma ok_prod: "(\<And>a b. x = (a, b) \<Longrightarrow> parse_ok env (f a b)) \<Longrightarrow> parse_ok env (case x of (a, b) \<Rightarrow> f a b)"
  by (cases x) simp

lemma ok_skip_by: "n \<le> left state \<Longrightarrow> parse_ok env (json_parse_state_skip_by state n adv)"
  using skip_by_Ok [of n state adv] by auto

lemma ok_skip_1: "ps_view state \<noteq> [] \<Longrightarrow> parse_ok env (json_parse_state_skip_by state (Suc 0) adv)"
  by (rule ok_skip_by) (simp add: Suc_le_eq)

lemma ok_skip_ws: "parse_ok env (json_parse_impl_skip_ws state)"
  using skip_ws_Ok [of state] by auto

lemma ok_peek: "ps_view state \<noteq> [] \<Longrightarrow> parse_ok env (json_parse_state_peek_next_char state)"
  by simp

lemma ok_simple: "parse_ok env (Ok x)" "parse_ok env (Err e)"
  by simp_all

lemmas ok_intros = ok_bind ok_if ok_prod ok_skip_1 [unfolded One_nat_def [symmetric]] ok_skip_1 ok_skip_ws ok_peek ok_simple

lemma fault_simps [simp]:
  "parse_fault env SignedOverflow"
  "parse_fault env AssertFailed \<longleftrightarrow> \<not> js_ndebug env"
  "parse_fault env OutOfBounds \<longleftrightarrow> \<not> js_alloc env 1"
  by (auto simp: parse_fault_def)

lemma int_digits_ok: "parse_ok env (int_digits_loop state v)"
proof (induction state v rule: int_digits_loop.induct)
  case (1 state v)
  then show ?case by (subst int_digits_loop.simps) (auto intro!: ok_intros simp: Let_def)
qed

lemma frac_digits_ok: "parse_ok env (frac_digits_loop env' state d v)"
proof (induction env' state d v rule: frac_digits_loop.induct)
  case (1 env' state d v)
  then show ?case by (subst frac_digits_loop.simps) (auto intro!: ok_intros simp: Let_def)
qed

lemma exp_digits_ok: "parse_ok env (exp_digits_loop state v)"
proof (induction state v rule: exp_digits_loop.induct)
  case (1 state v)
  then show ?case
    by (subst exp_digits_loop.simps) (auto intro!: ok_intros simp: Let_def)
qed

lemma number_parts_ok:
  "parse_ok env (json_parse_impl_parse_number_int_part env' state)"
  "parse_ok env (json_parse_impl_parse_number_frac_part env' state)"
  "parse_ok env (json_parse_impl_parse_number_exp_part state)"
  unfolding json_parse_impl_parse_number_int_part_def json_parse_impl_parse_number_frac_part_def
    json_parse_impl_parse_number_exp_part_def exp_sign_def
  by (auto intro!: ok_intros int_digits_ok frac_digits_ok exp_digits_ok simp: Let_def)

lemma parse_number_ok: "parse_ok env (json_parse_impl_parse_number env state)"
  unfolding json_parse_impl_parse_number_def number_after_frac_def number_after_exp_def
  by (auto intro!: ok_intros number_parts_ok simp: Let_def)

lemma unicode_escape_ok: "i + n \<le> left state \<Longrightarrow> parse_ok env (unicode_escape_loop state i n c)"
proof (induction n arbitrary: i c)
  case (Suc n)
  then show ?case
    by (auto simp: json_parse_state_peek_char_at_def check_assert_def split: option.splits)
qed simp

lemma escape_ok: "parse_ok env (escape_logic state)"
  unfolding escape_logic_def json_parse_state_get_next_char_def
  by (auto intro!: ok_intros ok_skip_by unicode_escape_ok simp: check_assert_def Suc_le_eq)

lemma string_char_ok: "iterate_law env \<Longrightarrow> parse_ok env (string_char env state)"
  unfolding string_char_def utf8_get_next_char_and_consume_def
  by (auto intro!: ok_intros ok_skip_by escape_ok simp: iterate_law_def split: sum.splits)

lemma string_loop_ok: "iterate_law env \<Longrightarrow> parse_ok env (string_loop env state string)"
proof (induction env state string rule: string_loop.induct)
  case (1 env state string)
  then show ?case
    by (subst string_loop.simps)
      (auto intro!: ok_bind ok_prod string_char_ok simp: json_string_add_char_impl_def split: option.splits)
qed

lemma parse_string_ok: "iterate_law env \<Longrightarrow> parse_ok env (json_parse_impl_parse_string env state)"
  unfolding json_parse_impl_parse_string_def
  by (auto intro!: ok_intros string_loop_ok)

lemma member_name_ok: "iterate_law env \<Longrightarrow> parse_ok env (member_name env state)"
  unfolding member_name_def by (auto intro!: ok_intros parse_string_ok split: JsonValue.splits)

lemma structure_ok:
  "parse_ok env (begin_structure b n m state)" "ps_view state \<noteq> [] \<Longrightarrow> parse_ok env (end_structure state)"
  "parse_ok env (element_end b n m state)"
  unfolding begin_structure_def end_structure_def element_end_def by (auto intro!: ok_intros)

lemma begin_structure_view: "begin_structure b n m state = Ok state' \<Longrightarrow> ps_view state' \<noteq> []"
  by (auto simp: begin_structure_def rbind_iffs split: if_splits)

lemma literals_ok: "parse_ok env (json_parse_impl_parse_boolean state)" "parse_ok env (json_parse_impl_parse_null state)"
proof -
  have len: "length p \<le> left state" if "starts_with (ps_view state) p" for p
    using that unfolding starts_with_def by (metis length_take min.cobounded1)
  show "parse_ok env (json_parse_impl_parse_boolean state)" "parse_ok env (json_parse_impl_parse_null state)"
    unfolding json_parse_impl_parse_boolean_def json_parse_impl_parse_null_def
    using len [of "lit ''false''"] len [of "lit ''true''"] len [of "lit ''null''"]
    by (auto intro!: ok_intros ok_skip_by simp: lit_def)
qed

lemma add_or_fail_ok: "\<forall>u. r \<noteq> Undef u \<Longrightarrow> parse_ok env (add_or_fail state r)"
  by (cases r) (simp_all add: add_or_fail_def)

lemma add_entry_ok: "json_object_add_entry_impl env ob k v \<noteq> Undef u" "json_array_add_entry env ar v \<noteq> Undef u"
  by (simp_all add: json_object_add_entry_impl_def json_array_add_entry_def)

lemma parse_value_ok:
  "iterate_law env \<Longrightarrow> parse_ok env (json_parse_impl_parse_value env state)"
  "iterate_law env \<Longrightarrow> parse_ok env (json_parse_impl_parse_object_member env state1 ob1)"
  "iterate_law env \<Longrightarrow> parse_ok env (object_loop env state2 ob2)"
  "iterate_law env \<Longrightarrow> parse_ok env (json_parse_impl_parse_object env state3)"
  "iterate_law env \<Longrightarrow> parse_ok env (json_parse_impl_parse_array_value env state4 ar4)"
  "iterate_law env \<Longrightarrow> parse_ok env (array_loop env state5 ar5)"
  "iterate_law env \<Longrightarrow> parse_ok env (json_parse_impl_parse_array env state6)"
proof (induction env state and env state1 ob1 and env state2 ob2 and env state3 and env state4 ar4 and env state5 ar5
    and env state6 rule: json_parse_impl_parse_value_json_parse_impl_parse_object_member_object_loop_json_parse_impl_parse_object_json_parse_impl_parse_array_value_array_loop_json_parse_impl_parse_array.induct)
  case (1 env state)
  then show ?case
    by (subst json_parse_impl_parse_value.simps)
      (auto intro!: ok_bind ok_if ok_peek literals_ok parse_number_ok parse_string_ok)
next
  case (2 env state json_object)
  then show ?case
    by (subst json_parse_impl_parse_object_member.simps)
      (auto intro!: ok_bind ok_prod member_name_ok add_or_fail_ok simp: add_entry_ok)
next
  case (3 env state json_object)
  then show ?case
    by (subst object_loop.simps) (auto intro!: ok_bind ok_prod structure_ok split: after_element.splits)
next
  case (4 env state)
  then show ?case
    by (subst json_parse_impl_parse_object.simps)
      (auto intro!: ok_bind ok_if ok_prod ok_peek structure_ok dest: begin_structure_view split: option.splits)
next
  case (5 env state json_array)
  then show ?case
    by (subst json_parse_impl_parse_array_value.simps)
      (auto intro!: ok_bind ok_prod ok_if add_or_fail_ok simp: add_entry_ok)
next
  case (6 env state json_array)
  then show ?case
    by (subst array_loop.simps) (auto intro!: ok_bind ok_prod structure_ok split: after_element.splits)
next
  case (7 env state)
  then show ?case
    by (subst json_parse_impl_parse_array.simps)
      (auto intro!: ok_bind ok_if ok_prod ok_peek structure_ok dest: begin_structure_view split: option.splits)
qed
end
