(* ===== verification/Json_Print.thy ===== *)
theory Json_Print
  imports Json_Parse
begin

text \<open>
  The JSON printer and the operations on values (\<open>src/src/json/json.c\<close>). Texts are collected in a string builder;
  the results of appending are ignored. Where memory runs out the code calls \<open>OOM_ASSERT\<close>, which ends the process
  in a release build and fails an assertion in a debug build.

  The round trip at the end says what reading back a printed value gives: the value itself, up to the order in which
  the map library iterates and the six decimals that numbers are printed with.
\<close>

section \<open>Texts of values\<close>

definition oom_fault :: "'f json_env \<Rightarrow> fault" where
  "oom_fault env = (if js_ndebug env then ProcessExit else AssertFailed)"

text \<open>\<open>FORMAT_STRING\<close>: the length of the result is an \<open>int\<close>.\<close>

definition format_string :: "'f json_env \<Rightarrow> bytes \<Rightarrow> (unit, bytes) res" where
  "format_string env s =
     (if length s \<ge> 2 ^ 31 - 1 then Undef OutOfBounds
      else if \<not> js_alloc env (length s + 1) then Undef (oom_fault env) else Ok s)"

definition ignored :: "'s \<Rightarrow> (unit, 's) res \<Rightarrow> (unit, 's) res" where
  "ignored sb r = (case r of Err _ \<Rightarrow> Ok sb | r' \<Rightarrow> r')"

abbreviation put_static :: "'f json_env \<Rightarrow> StringBuilder option \<Rightarrow> bytes \<Rightarrow> (unit, StringBuilder option) res" where
  "put_static env sb s \<equiv> ignored sb (string_builder_append_tstr_static (js_alloc env) sb s)"

abbreviation put_tstr :: "'f json_env \<Rightarrow> StringBuilder option \<Rightarrow> bytes \<Rightarrow> (unit, StringBuilder option) res" where
  "put_tstr env sb s \<equiv> ignored sb (string_builder_append_tstr (js_alloc env) sb s)"

definition string_builder_appendf ::
  "'f json_env \<Rightarrow> StringBuilder option \<Rightarrow> bytes \<Rightarrow> (unit, StringBuilder option) res" where
  "string_builder_appendf env sb s =
     (if sb = None then Ok sb
      else rbind (format_string env s) (\<lambda>str. ignored sb (string_builder_append_string (js_alloc env) sb str)))"

definition json_to_string_null_impl :: "'f json_env \<Rightarrow> StringBuilder option \<Rightarrow> (unit, StringBuilder option) res" where
  "json_to_string_null_impl env sb = put_static env sb (lit ''null'')"

definition json_to_string_boolean_impl ::
  "'f json_env \<Rightarrow> StringBuilder option \<Rightarrow> bool \<Rightarrow> (unit, StringBuilder option) res" where
  "json_to_string_boolean_impl env sb b = put_static env sb (if b then lit ''true'' else lit ''false'')"

text \<open>\<open>printf (''%f'')\<close>.\<close>

definition six_digits :: "nat \<Rightarrow> bytes" where
  "six_digits n = map (\<lambda>k. 0x30 + word_of_nat (n div 10 ^ k mod 10)) [5, 4, 3, 2, 1, 0]"

definition printf_f :: "'f json_env \<Rightarrow> 'f \<Rightarrow> bytes" where
  "printf_f env x =
     (case js_decimal env x of
        None \<Rightarrow> js_nonfinite env x
      | Some (negative, whole, decimals) \<Rightarrow>
          (if negative then [0x2D] else []) @ print_nat whole @ [0x2E] @ six_digits decimals)"

definition json_to_string_number_impl ::
  "'f json_env \<Rightarrow> StringBuilder option \<Rightarrow> 'f \<Rightarrow> (unit, StringBuilder option) res" where
  "json_to_string_number_impl env sb x = string_builder_appendf env sb (printf_f env x)"

definition json_impl_needs_escaping :: "'f json_env \<Rightarrow> Utf8Codepoint \<Rightarrow> bool" where
  "json_impl_needs_escaping env codepoint =
     (if codepoint = 0x22 \<or> codepoint = 0x5C then True
      else if codepoint = 0x2F then False
      else if codepoint = 0x08 \<or> codepoint = 0x0C \<or> codepoint = 0x0A \<or> codepoint = 0x0D \<or> codepoint = 0x09 then True
      else utf8proc_is_control env codepoint)"

definition hex_char :: "nat \<Rightarrow> u8" where
  "hex_char d = (if d < 10 then 0x30 + word_of_nat d else 0x41 + word_of_nat (d - 10))"

definition hex4 :: "int \<Rightarrow> bytes" where
  "hex4 c = map (\<lambda>k. hex_char (nat c div 16 ^ k mod 16)) [3, 2, 1, 0]"

text \<open>The escape sequence that is written, in the order of the code's cases.\<close>

definition json_impl_escape_char_into :: "'f json_env \<Rightarrow> Utf8Codepoint \<Rightarrow> (unit, bytes) res" where
  "json_impl_escape_char_into env codepoint =
     (if codepoint = 0x22 \<or> codepoint = 0x5C \<or> codepoint = 0x2F then Ok [0x5C, word_of_int codepoint]
      else if codepoint = 0x08 then Ok [0x5C, 0x62]
      else if codepoint = 0x0C then Ok [0x5C, 0x66]
      else if codepoint = 0x0A then Ok [0x5C, 0x6E]
      else if codepoint = 0x0D then Ok [0x5C, 0x72]
      else if codepoint = 0x09 then Ok [0x5C, 0x74]
      else if codepoint > 0xFFFF then Undef (oom_fault env)
      else if \<not> js_ndebug env then Undef AssertFailed
      else Ok ([0x5C, 0x75] @ hex4 (codepoint mod 2 ^ 16)))"

text \<open>
  The loop over the code points: \<open>bs\<close> are the bytes written so far to a buffer of \<open>buffer_size\<close> bytes. A write beyond
  the buffer is a fault; \<open>None\<close> is \<open>tstr_null ()\<close>.
\<close>

definition escaped_char :: "'f json_env \<Rightarrow> Utf8Codepoint \<Rightarrow> (unit, bytes option) res" where
  "escaped_char env codepoint =
     (if json_impl_needs_escaping env codepoint
      then rbind (json_impl_escape_char_into env codepoint) (\<lambda>bs. Ok (Some bs))
      else Ok (utf8proc_encode_char env codepoint))"

fun normalize_loop :: "'f json_env \<Rightarrow> nat \<Rightarrow> bytes \<Rightarrow> codepoints \<Rightarrow> (unit, tstr) res" where
  "normalize_loop env buffer_size bs [] =
     (if buffer_size - length bs < 1 \<and> \<not> js_alloc env (buffer_size + 1) then Ok None else Ok (Some bs))"
| "normalize_loop env buffer_size bs (codepoint # codepoints) =
     (let buffer_size' = (if buffer_size - length bs < 6 then buffer_size + 256 else buffer_size) in
      if buffer_size' \<noteq> buffer_size \<and> \<not> js_alloc env buffer_size' then Ok None
      else
        rbind (escaped_char env codepoint) (\<lambda>written.
        case written of
          None \<Rightarrow> Ok None
        | Some new \<Rightarrow>
            (if length bs + length new > buffer_size' then Undef OutOfBounds
             else normalize_loop env buffer_size' (bs @ new) codepoints)))"

definition get_normalized_string_from_codepoints_json_escaped ::
  "'f json_env \<Rightarrow> codepoints \<Rightarrow> (unit, tstr) res" where
  "get_normalized_string_from_codepoints_json_escaped env codepoints =
     (if codepoints = [] \<and> js_empty_null env then Ok None
      else if \<not> js_alloc env 256 then Ok None
      else normalize_loop env 256 [] codepoints)"

definition json_to_string_string_impl ::
  "'f json_env \<Rightarrow> StringBuilder option \<Rightarrow> codepoints \<Rightarrow> (unit, StringBuilder option) res" where
  "json_to_string_string_impl env sb json_string =
     rbind (get_normalized_string_from_codepoints_json_escaped env json_string) (\<lambda>string_escaped.
     case string_escaped of
       None \<Rightarrow> Undef (oom_fault env)
     | Some str \<Rightarrow> string_builder_appendf env sb ([0x22] @ c_string str @ [0x22]))"

section \<open>Arrays and objects\<close>

text \<open>The start, separator and end of an array or object with the given brackets.\<close>

definition structure_strings :: "'f json_env \<Rightarrow> nat \<Rightarrow> u8 \<Rightarrow> u8 \<Rightarrow> (unit, bytes \<times> bytes \<times> bytes) res" where
  "structure_strings env indent_size opening closing =
     (if indent_size = 0 then Ok ([opening], lit '', '', [closing])
      else if indent_size > 4 then Ok ([opening, 0x0A], [0x2C, 0x0A], [0x0A, closing])
      else
        rbind (format_string env (0x2C # replicate indent_size 0x20)) (\<lambda>separator_str.
        Ok ([opening], separator_str, [closing])))"

text \<open>The entries in the order in which the map library iterates.\<close>

definition iteration :: "'f json_env \<Rightarrow> (codepoints \<times> 'a) list \<Rightarrow> (codepoints \<times> 'a) list" where
  "iteration env es = List.map_filter (\<lambda>k. map_option (Pair k) (map_of es k)) (js_order env (map fst es))"

lemma iteration_member: "(k, v) \<in> set (iteration env es) \<Longrightarrow> (k, v) \<in> set es"
  by (auto simp: iteration_def map_filter_def dest: map_of_SomeD)

text \<open>The iterator is the rest of the entries; without memory it is the NULL pointer.\<close>

definition json_object_get_iterator :: "'f json_env \<Rightarrow> (codepoints \<times> 'a) list \<Rightarrow> (codepoints \<times> 'a) list option" where
  "json_object_get_iterator env json_object = (if js_alloc env 1 then Some (iteration env json_object) else None)"

definition json_object_iterator_next ::
  "(codepoints \<times> 'a) list option \<Rightarrow> (unit, (codepoints \<times> 'a) option \<times> (codepoints \<times> 'a) list option) res" where
  "json_object_iterator_next iter =
     (case iter of
        None \<Rightarrow> Undef OutOfBounds
      | Some [] \<Rightarrow> Ok (None, iter)
      | Some (entry # rest) \<Rightarrow> Ok (Some entry, Some rest))"

text \<open>The loop of both printers: a separator in front of every element but the first.\<close>

fun separated_loop ::
  "('s \<Rightarrow> (unit, 's) res) \<Rightarrow> ('s \<Rightarrow> 'a \<Rightarrow> (unit, 's) res) \<Rightarrow> bool \<Rightarrow> 's \<Rightarrow> 'a list \<Rightarrow> (unit, 's) res" where
  "separated_loop separator item start sb [] = Ok sb"
| "separated_loop separator item start sb (x # xs) =
     rbind (if start then Ok sb else separator sb) (\<lambda>sb1.
     rbind (item sb1 x) (\<lambda>sb2. separated_loop separator item False sb2 xs))"

lemma separated_loop_cong [fundef_cong]:
  "xs = ys \<Longrightarrow> (\<And>x sb. x \<in> set ys \<Longrightarrow> item sb x = item' sb x) \<Longrightarrow>
   separated_loop separator item start sb xs = separated_loop separator item' start sb ys"
proof (induction xs arbitrary: ys start sb)
  case (Cons x xs)
  then show ?case by (auto intro!: rbind_cong)
qed simp

definition json_to_string_array_impl ::
  "'f json_env \<Rightarrow> (StringBuilder option \<Rightarrow> 'f JsonValue \<Rightarrow> (unit, StringBuilder option) res) \<Rightarrow> nat \<Rightarrow>
   StringBuilder option \<Rightarrow> 'f JsonValue list \<Rightarrow> (unit, StringBuilder option) res" where
  "json_to_string_array_impl env variant_impl indent_size sb json_array =
     rbind (structure_strings env indent_size 0x5B 0x5D) (\<lambda>(start_str, separator_str, end_str).
     rbind (put_tstr env sb start_str) (\<lambda>sb1.
     rbind (separated_loop (\<lambda>s. put_tstr env s separator_str) variant_impl True sb1 json_array) (\<lambda>sb2.
     put_tstr env sb2 end_str)))"

definition json_to_string_object_impl ::
  "'f json_env \<Rightarrow> (StringBuilder option \<Rightarrow> 'f JsonValue \<Rightarrow> (unit, StringBuilder option) res) \<Rightarrow> nat \<Rightarrow>
   StringBuilder option \<Rightarrow> (codepoints \<times> 'f JsonValue) list \<Rightarrow> (unit, StringBuilder option) res" where
  "json_to_string_object_impl env variant_impl indent_size sb json_object =
     rbind (structure_strings env indent_size 0x7B 0x7D) (\<lambda>(start_str, separator_str, end_str).
     rbind (put_tstr env sb start_str) (\<lambda>sb1.
     case json_object_get_iterator env json_object of
       None \<Rightarrow> Undef OutOfBounds
     | Some entries' \<Rightarrow>
         rbind (separated_loop (\<lambda>s. put_tstr env s separator_str)
           (\<lambda>s entry.
              rbind (json_to_string_string_impl env s (fst entry)) (\<lambda>s1.
              rbind (put_static env s1 (lit '': '')) (\<lambda>s2. variant_impl s2 (snd entry))))
           True sb1 entries') (\<lambda>sb2.
         put_tstr env sb2 end_str)))"

lemma array_impl_cong [fundef_cong]:
  "vs = ws \<Longrightarrow> (\<And>v s. v \<in> set ws \<Longrightarrow> f s v = g s v) \<Longrightarrow>
   json_to_string_array_impl env f ind sb vs = json_to_string_array_impl env g ind sb ws"
  unfolding json_to_string_array_impl_def by (auto intro!: rbind_cong separated_loop_cong)

lemma object_impl_cong [fundef_cong]:
  "es = es' \<Longrightarrow> (\<And>k v s. (k, v) \<in> set es' \<Longrightarrow> f s v = g s v) \<Longrightarrow>
   json_to_string_object_impl env f ind sb es = json_to_string_object_impl env g ind sb es'"
  unfolding json_to_string_object_impl_def
  by (auto intro!: rbind_cong separated_loop_cong simp: json_object_get_iterator_def dest: iteration_member)

fun json_to_string_variant_impl ::
  "'f json_env \<Rightarrow> nat \<Rightarrow> StringBuilder option \<Rightarrow> 'f JsonValue \<Rightarrow> (unit, StringBuilder option) res" where
  "json_to_string_variant_impl env indent_size sb (JsonObject json_object) =
     json_to_string_object_impl env (json_to_string_variant_impl env indent_size) indent_size sb json_object"
| "json_to_string_variant_impl env indent_size sb (JsonArray json_array) =
     json_to_string_array_impl env (json_to_string_variant_impl env indent_size) indent_size sb json_array"
| "json_to_string_variant_impl env indent_size sb (JsonNumber x) = json_to_string_number_impl env sb x"
| "json_to_string_variant_impl env indent_size sb (JsonString s) = json_to_string_string_impl env sb s"
| "json_to_string_variant_impl env indent_size sb (JsonBoolean b) = json_to_string_boolean_impl env sb b"
| "json_to_string_variant_impl env indent_size sb JsonNull = json_to_string_null_impl env sb"

definition json_value_to_string_advanced :: "'f json_env \<Rightarrow> 'f JsonValue \<Rightarrow> nat \<Rightarrow> (unit, tstr) res" where
  "json_value_to_string_advanced env json_value indent_size =
     (case string_builder_init (js_alloc env) of
        None \<Rightarrow> Ok None
      | Some builder \<Rightarrow>
          rbind (json_to_string_variant_impl env indent_size (Some builder) json_value) (\<lambda>sb.
          rbind (string_builder_release_into_sized_buffer sb) (\<lambda>buffer.
          Ok (if buffer = [] then None else Some buffer))))"

definition json_value_to_string :: "'f json_env \<Rightarrow> 'f JsonValue \<Rightarrow> (unit, tstr) res" where
  "json_value_to_string env json_value = json_value_to_string_advanced env json_value 0"

section \<open>Operations on values\<close>

definition json_string_eq :: "codepoints \<Rightarrow> codepoints \<Rightarrow> bool" where
  "json_string_eq str1 str2 \<longleftrightarrow> (if length str1 \<noteq> length str2 then False else list_all2 (=) str1 str2)"

definition json_array_size :: "'f JsonValue list \<Rightarrow> nat" where
  "json_array_size array = length array"

definition json_array_at :: "'f JsonValue list \<Rightarrow> nat \<Rightarrow> (unit, 'f JsonValue) res" where
  "json_array_at array index = rbind (check_assert (index < json_array_size array)) (\<lambda>_. Ok (array ! index))"

definition json_object_count :: "(codepoints \<times> 'f JsonValue) list \<Rightarrow> nat" where
  "json_object_count object = length object"

definition json_object_get_entry_by_key ::
  "(codepoints \<times> 'f JsonValue) list \<Rightarrow> codepoints option \<Rightarrow> (codepoints \<times> 'f JsonValue) option" where
  "json_object_get_entry_by_key object key =
     (case key of None \<Rightarrow> None | Some k \<Rightarrow> map_option (Pair k) (map_of object k))"

text \<open>Strings from UTF-8 text.\<close>

fun add_chars :: "'f json_env \<Rightarrow> codepoints \<Rightarrow> codepoints \<Rightarrow> codepoints option" where
  "add_chars env json_string [] = Some json_string"
| "add_chars env json_string (c # cs) =
     (case json_string_add_char_impl env json_string c of Ok s \<Rightarrow> add_chars env s cs | _ \<Rightarrow> None)"

definition json_get_string_from_tstr_view ::
  "'f json_env \<Rightarrow> (bytes \<Rightarrow> bytes + codepoints) \<Rightarrow> bytes \<Rightarrow> codepoints option" where
  "json_get_string_from_tstr_view env decompose str_view =
     (if \<not> js_alloc env 1 then None
      else
        (case get_utf8_string (js_alloc env) decompose str_view of
           Ok data \<Rightarrow> add_chars env [] data
         | _ \<Rightarrow> None))"

definition json_object_add_entry_tstr ::
  "'f json_env \<Rightarrow> (bytes \<Rightarrow> bytes + codepoints) \<Rightarrow> (codepoints \<times> 'f JsonValue) list \<Rightarrow> bytes \<Rightarrow> 'f JsonValue
     \<Rightarrow> (string, (codepoints \<times> 'f JsonValue) list) res" where
  "json_object_add_entry_tstr env decompose json_object key v =
     (case json_get_string_from_tstr_view env decompose key of
        None \<Rightarrow> Err ''OOM''
      | Some key_string \<Rightarrow> json_object_add_entry_impl env json_object key_string v)"

section \<open>Places in error messages\<close>

definition place_text :: "bytes \<Rightarrow> SourcePosition \<Rightarrow> bytes" where
  "place_text source loc_pos =
     source @ lit '':'' @ print_nat (size_add (sp_line loc_pos) 1) @ lit '':'' @ print_nat (size_add (sp_col loc_pos) 1)"

text \<open>Without memory the formatting returns from the function; the builder stays as it is.\<close>

definition appendf_or_return ::
  "'f json_env \<Rightarrow> StringBuilder option \<Rightarrow> bytes \<Rightarrow> (unit, StringBuilder option) res" where
  "appendf_or_return env sb s =
     (if sb = None then Ok sb
      else if length s \<ge> 2 ^ 31 - 1 then Undef OutOfBounds
      else if \<not> js_alloc env (length s + 1) then Ok sb
      else ignored sb (string_builder_append_string (js_alloc env) sb s))"

definition json_format_source_location_impl ::
  "'f json_env \<Rightarrow> StringBuilder option \<Rightarrow> SourceLocation \<Rightarrow> (unit, StringBuilder option) res" where
  "json_format_source_location_impl env sb location =
     (if is_null_source_location location
      then ignored sb (string_builder_append_single (js_alloc env) sb (lit ''<Nowhere>''))
      else
        (case sl_source location of
           JsonSourceFile file_path \<Rightarrow>
             appendf_or_return env sb
               (place_text (case file_path of None \<Rightarrow> [] | Some path \<Rightarrow> c_string path) (sl_pos location))
         | JsonSourceString _ \<Rightarrow> appendf_or_return env sb (place_text (lit ''<string source>'') (sl_pos location))))"

definition json_format_source_location :: "'f json_env \<Rightarrow> SourceLocation \<Rightarrow> (unit, bytes) res" where
  "json_format_source_location env location =
     rbind (json_format_source_location_impl env (string_builder_init (js_alloc env)) location)
       string_builder_release_into_sized_buffer"

definition json_format_error :: "'f json_env \<Rightarrow> JsonError \<Rightarrow> (unit, bytes) res" where
  "json_format_error env error =
     rbind (put_static env (string_builder_init (js_alloc env)) (je_message error)) (\<lambda>sb1.
     rbind (ignored sb1 (string_builder_append_single (js_alloc env) sb1 (lit '': ''))) (\<lambda>sb2.
     rbind (json_format_source_location_impl env sb2 (je_loc error))
       string_builder_release_into_sized_buffer))"

section \<open>What the printer writes\<close>

text \<open>
  The text of a value, as a function. \<open>json_printable\<close> collects what the printer needs of a value:
  its strings are not empty where the array of an empty vector is NULL, their characters can be encoded and
  need no \<open>\u\<close> escape in a debug build, its numbers are finite, the keys of its objects are distinct.
\<close>

definition char_text :: "'f json_env \<Rightarrow> Utf8Codepoint \<Rightarrow> bytes" where
  "char_text env c = (case escaped_char env c of Ok (Some bs) \<Rightarrow> bs | _ \<Rightarrow> [])"

definition string_text :: "'f json_env \<Rightarrow> codepoints \<Rightarrow> bytes" where
  "string_text env cs = [0x22] @ concat (map (char_text env) cs) @ [0x22]"

definition brackets :: "nat \<Rightarrow> u8 \<Rightarrow> u8 \<Rightarrow> bytes \<times> bytes \<times> bytes" where
  "brackets ind opening closing =
     (if ind = 0 then ([opening], [0x2C, 0x20], [closing])
      else if ind > 4 then ([opening, 0x0A], [0x2C, 0x0A], [0x0A, closing])
      else ([opening], 0x2C # replicate ind 0x20, [closing]))"

fun join_texts :: "bytes \<Rightarrow> bytes list \<Rightarrow> bytes" where
  "join_texts separator [] = []"
| "join_texts separator (x # xs) = x @ concat (map (\<lambda>y. separator @ y) xs)"

definition structure_text :: "nat \<Rightarrow> u8 \<Rightarrow> u8 \<Rightarrow> bytes list \<Rightarrow> bytes" where
  "structure_text ind opening closing xs =
     (case brackets ind opening closing of (start_str, separator_str, end_str) \<Rightarrow>
        start_str @ join_texts separator_str xs @ end_str)"

lemma iteration_size [termination_simp]:
  "(k, v) \<in> set (iteration env es) \<Longrightarrow> size v < Suc (size_list (\<lambda>x. Suc (size (snd x))) es)"
  using size_list_estimation' [of "(k, v)" es "size v" "\<lambda>x. Suc (size (snd x))"] by (auto dest: iteration_member)

fun json_text :: "'f json_env \<Rightarrow> nat \<Rightarrow> 'f JsonValue \<Rightarrow> bytes" where
  "json_text env ind (JsonObject es) =
     structure_text ind 0x7B 0x7D
       (map (\<lambda>e. string_text env (fst e) @ [0x3A, 0x20] @ json_text env ind (snd e)) (iteration env es))"
| "json_text env ind (JsonArray vs) = structure_text ind 0x5B 0x5D (map (json_text env ind) vs)"
| "json_text env ind (JsonNumber x) = printf_f env x"
| "json_text env ind (JsonString cs) = string_text env cs"
| "json_text env ind (JsonBoolean b) = (if b then lit ''true'' else lit ''false'')"
| "json_text env ind JsonNull = lit ''null''"

definition char_printable :: "'f json_env \<Rightarrow> Utf8Codepoint \<Rightarrow> bool" where
  "char_printable env c \<longleftrightarrow>
     0 \<le> c \<and> c \<le> 0x10FFFF \<and> \<not> (0xD800 \<le> c \<and> c \<le> 0xDFFF) \<and>
     (js_ndebug env \<or> \<not> utf8proc_is_control env c \<or> c \<in> {0x08, 0x09, 0x0A, 0x0C, 0x0D})"

definition string_printable :: "'f json_env \<Rightarrow> codepoints \<Rightarrow> bool" where
  "string_printable env cs \<longleftrightarrow> (cs = [] \<longrightarrow> \<not> js_empty_null env) \<and> list_all (char_printable env) cs"

definition number_printable :: "'f json_env \<Rightarrow> 'f \<Rightarrow> bool" where
  "number_printable env x =
     (case js_decimal env x of None \<Rightarrow> False | Some (_, whole, decimals) \<Rightarrow> whole < 2 ^ 64 \<and> decimals < 10 ^ 6)"

fun json_printable :: "'f json_env \<Rightarrow> 'f JsonValue \<Rightarrow> bool" where
  "json_printable env (JsonObject es) \<longleftrightarrow>
     distinct (map fst es) \<and> list_all (\<lambda>e. string_printable env (fst e) \<and> json_printable env (snd e)) es"
| "json_printable env (JsonArray vs) \<longleftrightarrow> list_all (json_printable env) vs"
| "json_printable env (JsonNumber x) \<longleftrightarrow> number_printable env x"
| "json_printable env (JsonString cs) \<longleftrightarrow> string_printable env cs"
| "json_printable env (JsonBoolean b) \<longleftrightarrow> True"
| "json_printable env JsonNull \<longleftrightarrow> True"

text \<open>
  What is assumed of the libraries: memory is there; \<open>utf8proc\<close> encodes code points by at most four bytes, an ASCII
  character by itself, and decodes what it encoded; the control characters are those below 32 and some others in
  the basic plane; the map library iterates over exactly the keys that are in the map.
\<close>

definition utf8_law :: "'f json_env \<Rightarrow> bool" where
  "utf8_law env \<longleftrightarrow>
     (\<forall>c. 0 \<le> c \<and> c \<le> 0x10FFFF \<and> \<not> (0xD800 \<le> c \<and> c \<le> 0xDFFF) \<longrightarrow>
        (\<exists>bs. utf8proc_encode_char env c = Some bs \<and> bs \<noteq> [] \<and> length bs \<le> 4 \<and> (c \<noteq> 0 \<longrightarrow> 0 \<notin> set bs) \<and>
           (\<forall>rest. utf8proc_iterate env (bs @ rest) = Inr (length bs, c)))) \<and>
     (\<forall>c. 0 \<le> c \<and> c < 0x80 \<longrightarrow> utf8proc_encode_char env c = Some [word_of_int c]) \<and>
     (\<forall>c. 0 \<le> c \<and> c < 0x20 \<longrightarrow> utf8proc_is_control env c) \<and>
     (\<forall>c. utf8proc_is_control env c \<longrightarrow> c \<le> 0xFFFF)"

definition memory_law :: "'f json_env \<Rightarrow> bool" where
  "memory_law env \<longleftrightarrow> (\<forall>n. js_alloc env n) \<and> (\<forall>n. js_push env n) \<and> (\<forall>n. js_insert env n)"

definition order_law :: "'f json_env \<Rightarrow> bool" where
  "order_law env \<longleftrightarrow> (\<forall>ks. distinct ks \<longrightarrow> distinct (js_order env ks) \<and> set (js_order env ks) = set ks)"

lemma utf8_encode:
  assumes "utf8_law env" "0 \<le> c" "c \<le> 0x10FFFF" "\<not> (0xD800 \<le> c \<and> c \<le> 0xDFFF)"
  obtains bs where "utf8proc_encode_char env c = Some bs" "bs \<noteq> []" "length bs \<le> 4" "c \<noteq> 0 \<longrightarrow> 0 \<notin> set bs"
    "\<And>rest. utf8proc_iterate env (bs @ rest) = Inr (length bs, c)"
  using assms unfolding utf8_law_def by blast

lemma utf8_ascii:
  assumes "utf8_law env" "c < 0x80"
  shows "utf8proc_iterate env (c # rest) = Inr (1, uint c)"
proof -
  have c: "0 \<le> uint c" "uint c < 0x80" using assms(2) by (simp_all add: word_less_def)
  obtain bs where bs: "utf8proc_encode_char env (uint c) = Some bs"
    "\<And>rest. utf8proc_iterate env (bs @ rest) = Inr (length bs, uint c)"
    using utf8_encode [OF assms(1), of "uint c"] c by auto
  moreover have "utf8proc_encode_char env (uint c) = Some [c]"
    using assms(1) c unfolding utf8_law_def by simp
  ultimately show ?thesis by (metis append_Cons append_Nil length_Cons list.size(3) One_nat_def option.inject)
qed

lemma utf8_control:
  assumes "utf8_law env"
  shows "utf8proc_is_control env c \<Longrightarrow> c \<le> 0xFFFF" "0 \<le> c \<Longrightarrow> c < 0x20 \<Longrightarrow> utf8proc_is_control env c"
  using assms unfolding utf8_law_def by blast+

lemma hex_char_nz: "hex_char (n mod 16) \<noteq> 0"
proof -
  have "n mod 16 \<in> set [0..<16]" by simp
  then show ?thesis by (auto simp: hex_char_def upt_rec)
qed

lemma hex4_props: "length (hex4 c) = 4" "0 \<notin> set (hex4 c)"
  using hex_char_nz by (auto simp: hex4_def)

lemma escaped_char_Ok:
  assumes "utf8_law env" "char_printable env c"
  shows "\<exists>bs. escaped_char env c = Ok (Some bs) \<and> length bs \<le> 6 \<and> 0 \<notin> set bs"
proof (cases "json_impl_needs_escaping env c")
  case True
  show ?thesis
  proof (cases "c \<in> {0x22, 0x5C, 0x08, 0x0C, 0x0A, 0x0D, 0x09}")
    case short: True
    with True show ?thesis by (auto simp: escaped_char_def json_impl_escape_char_into_def)
  next
    case control: False
    with True have "utf8proc_is_control env c" "c \<noteq> 0x2F"
      by (auto simp: json_impl_needs_escaping_def split: if_splits)
    with utf8_control(1) [OF assms(1)] assms(2) control have "c \<le> 0xFFFF" "js_ndebug env"
      by (auto simp: char_printable_def)
    with True control \<open>c \<noteq> 0x2F\<close> hex4_props [of "c mod 2 ^ 16"] show ?thesis
      by (simp add: escaped_char_def json_impl_escape_char_into_def)
  qed
next
  case False
  have "c \<noteq> 0" using False utf8_control(2) [OF assms(1), of 0] by (auto simp: json_impl_needs_escaping_def)
  moreover have range: "0 \<le> c" "c \<le> 0x10FFFF" "\<not> (0xD800 \<le> c \<and> c \<le> 0xDFFF)"
    using assms(2) unfolding char_printable_def by simp_all
  obtain bs where "utf8proc_encode_char env c = Some bs" "length bs \<le> 4" "c \<noteq> 0 \<longrightarrow> 0 \<notin> set bs"
    by (rule utf8_encode [OF assms(1) range])
  ultimately show ?thesis using False by (simp add: escaped_char_def)
qed

lemma char_text_Ok:
  assumes "utf8_law env" "char_printable env c"
  shows "escaped_char env c = Ok (Some (char_text env c))" "length (char_text env c) \<le> 6" "0 \<notin> set (char_text env c)"
  using escaped_char_Ok [OF assms] by (auto simp: char_text_def)

lemma normalize_loop_Ok:
  assumes "utf8_law env" "memory_law env"
  shows "list_all (char_printable env) cs \<Longrightarrow> length bs \<le> buffer_size \<Longrightarrow>
    normalize_loop env buffer_size bs cs = Ok (Some (bs @ concat (map (char_text env) cs)))"
proof (induction cs arbitrary: bs buffer_size)
  case (Cons c cs)
  then have c: "char_printable env c" by simp
  note written = char_text_Ok [OF assms(1) c]
  let ?size = "if buffer_size - length bs < 6 then buffer_size + 256 else buffer_size"
  have "length bs + length (char_text env c) \<le> ?size"
    using Cons.prems(2) written(2) by (auto split: if_splits)
  with Cons assms(2) written(1) show ?case by (auto simp: memory_law_def Let_def)
qed (use assms(2) in \<open>simp add: memory_law_def\<close>)

lemma string_Ok:
  assumes "utf8_law env" "memory_law env" "string_printable env cs"
  shows "get_normalized_string_from_codepoints_json_escaped env cs = Ok (Some (concat (map (char_text env) cs)))"
    "0 \<notin> set (string_text env cs)"
proof -
  show "get_normalized_string_from_codepoints_json_escaped env cs = Ok (Some (concat (map (char_text env) cs)))"
    using assms normalize_loop_Ok [OF assms(1,2), of cs "[]" 256]
    by (auto simp: get_normalized_string_from_codepoints_json_escaped_def string_printable_def memory_law_def)
  show "0 \<notin> set (string_text env cs)"
    using assms char_text_Ok(3) [OF assms(1)] by (auto simp: string_text_def string_printable_def list_all_iff)
qed

text \<open>\<open>appends m s x\<close>: the printing step \<open>m\<close> adds the text \<open>x\<close> to any builder, within the limit of \<open>FORMAT_STRING\<close>.\<close>

definition appends :: "(StringBuilder option \<Rightarrow> (unit, StringBuilder option) res) \<Rightarrow> bytes \<Rightarrow> bool" where
  "appends m x \<longleftrightarrow>
     (\<forall>sb t. builder_holds sb t \<longrightarrow> length t + length x < 2 ^ 31 - 1 \<longrightarrow>
        (\<exists>sb'. m sb = Ok sb' \<and> builder_holds sb' (t @ x)))"

lemma appends_bind:
  assumes "appends m x" "\<And>sb. appends f y" "z = x @ y"
  shows "appends (\<lambda>sb. rbind (m sb) f) z"
  unfolding appends_def
proof (intro allI impI)
  fix sb t
  assume *: "builder_holds sb t" "length t + length z < 2 ^ 31 - 1"
  then obtain sb1 where "m sb = Ok sb1" "builder_holds sb1 (t @ x)"
    using assms(1,3) unfolding appends_def by fastforce
  with assms(2,3) * show "\<exists>sb'. rbind (m sb) f = Ok sb' \<and> builder_holds sb' (t @ z)"
    unfolding appends_def by (metis append_assoc length_append add.assoc rbind.simps(1))
qed

lemma appends_put:
  assumes "memory_law env"
  shows "appends (\<lambda>sb. put_tstr env sb x) x" "appends (\<lambda>sb. put_static env sb x) x"
proof -
  have "\<exists>sb'. string_builder_append_string_impl (js_alloc env) sb x = Ok sb' \<and> builder_holds sb' (t @ x)"
    if "builder_holds sb t" "length t + length x < 2 ^ 31 - 1" for sb t
    using assms that by (intro append_impl_holds) (auto simp: memory_law_def)
  then show "appends (\<lambda>sb. put_tstr env sb x) x" "appends (\<lambda>sb. put_static env sb x) x"
    by (fastforce simp: appends_def ignored_def string_builder_append_tstr_def string_builder_append_tstr_static_def)+
qed

lemma appends_format:
  assumes "memory_law env" "0 \<notin> set x"
  shows "appends (\<lambda>sb. string_builder_appendf env sb x) x"
  unfolding appends_def
proof (intro allI impI)
  fix sb t
  assume *: "builder_holds sb t" "length t + length x < 2 ^ 31 - 1"
  then have "\<exists>sb'. put_tstr env sb x = Ok sb' \<and> builder_holds sb' (t @ x)"
    using appends_put(1) [OF assms(1), of x] by (simp add: appends_def)
  moreover have "sb \<noteq> None" using *(1) by (auto simp: builder_holds_def)
  moreover have "format_string env x = Ok x" using * assms(1) by (simp add: format_string_def memory_law_def)
  ultimately show "\<exists>sb'. string_builder_appendf env sb x = Ok sb' \<and> builder_holds sb' (t @ x)"
    using assms(2) by (cases sb) (simp_all add: string_builder_appendf_def string_builder_append_string_def string_builder_append_tstr_def)
qed

lemma appends_separated:
  assumes "\<And>x. x \<in> set xs \<Longrightarrow> appends (\<lambda>sb. item sb x) (f x)" "appends separator sep"
  shows "appends (\<lambda>sb. separated_loop separator item start sb xs)
    (if start then join_texts sep (map f xs) else concat (map (\<lambda>y. sep @ f y) xs))"
  using assms(1)
proof (induction xs arbitrary: start)
  case Nil
  then show ?case by (simp add: appends_def)
next
  case (Cons x xs)
  have rest: "appends (\<lambda>sb. separated_loop separator item False sb xs) (concat (map (\<lambda>y. sep @ f y) xs))"
    using Cons.IH [of False] Cons.prems by simp
  have start: "appends (\<lambda>sb. if start then Ok sb else separator sb) (if start then [] else sep)"
    using assms(2) by (cases start) (simp_all add: appends_def)
  have "appends (\<lambda>sb. rbind (if start then Ok sb else separator sb) (\<lambda>sb1.
      rbind (item sb1 x) (\<lambda>sb2. separated_loop separator item False sb2 xs)))
      ((if start then [] else sep) @ f x @ concat (map (\<lambda>y. sep @ f y) xs))"
    by (rule appends_bind [OF start _ refl], rule appends_bind [OF Cons.prems rest refl]) simp
  then show ?case by (cases start) (simp_all add: comp_def)
qed

lemma structure_strings_Ok:
  "memory_law env \<Longrightarrow> structure_strings env ind opening closing = Ok (brackets ind opening closing)"
  by (simp add: structure_strings_def brackets_def format_string_def memory_law_def lit_def)

lemma appends_structure:
  assumes "memory_law env" "\<And>sep. appends (loop sep) (join_texts sep xs)"
  shows "appends (\<lambda>sb. rbind (structure_strings env ind opening closing) (\<lambda>(start_str, separator_str, end_str).
    rbind (put_tstr env sb start_str) (\<lambda>sb1. rbind (loop separator_str sb1) (\<lambda>sb2. put_tstr env sb2 end_str))))
    (structure_text ind opening closing xs)"
proof -
  obtain b s e where b: "brackets ind opening closing = (b, s, e)" by (metis prod_cases3)
  have "appends (\<lambda>sb. rbind (put_tstr env sb b) (\<lambda>sb1. rbind (loop s sb1) (\<lambda>sb2. put_tstr env sb2 e)))
      (b @ join_texts s xs @ e)"
    using assms(2)
    by (intro appends_bind [OF appends_put(1) [OF assms(1)] _ refl] appends_bind [OF _ appends_put(1) [OF assms(1)] refl])
  with b assms(1) show ?thesis by (simp add: structure_strings_Ok structure_text_def)
qed

lemma six_digits_string: "digit_string (six_digits n)"
proof -
  have "48 \<le> (48 :: u8) + word_of_nat (m mod 10) \<and> (48 :: u8) + word_of_nat (m mod 10) \<le> 57" for m
  proof -
    have "m mod 10 \<in> set [0..<10]" by simp
    then show ?thesis by (auto simp: upt_rec)
  qed
  then show ?thesis by (simp add: six_digits_def)
qed

lemma digit_string_nz: "digit_string ds \<Longrightarrow> 0 \<notin> set ds"
  by (auto simp: digit_string_def word_le_nat_alt)

lemma number_text_nz: "number_printable env x \<Longrightarrow> 0 \<notin> set (printf_f env x)"
  using six_digits_string print_nat_digits
  by (auto simp: number_printable_def printf_f_def split: option.splits dest!: digit_string_nz)

lemma variant_appends:
  assumes "utf8_law env" "memory_law env" "json_printable env v"
  shows "appends (\<lambda>sb. json_to_string_variant_impl env ind sb v) (json_text env ind v)"
  using assms
proof (induction env ind v rule: json_text.induct)
  case (1 env ind es)
  let ?item = "\<lambda>s e. rbind (json_to_string_string_impl env s (fst e)) (\<lambda>s1.
      rbind (put_static env s1 (lit '': '')) (\<lambda>s2. json_to_string_variant_impl env ind s2 (snd e)))"
  let ?text = "\<lambda>e. string_text env (fst e) @ [0x3A, 0x20] @ json_text env ind (snd e)"
  have entry: "appends (\<lambda>s. ?item s e) (?text e)" if e: "e \<in> set (iteration env es)" for e
  proof -
    have p: "string_printable env (fst e)" "json_printable env (snd e)"
      using "1.prems"(3) e by (auto simp: list_all_iff dest!: iteration_member [of "fst e" "snd e", simplified])
    have "appends (\<lambda>s. json_to_string_string_impl env s (fst e)) (string_text env (fst e))"
      using appends_format [OF "1.prems"(2) string_Ok(2) [OF "1.prems"(1,2) p(1)]] string_Ok [OF "1.prems"(1,2) p(1)]
      by (simp add: json_to_string_string_impl_def string_text_def)
    moreover have "lit '': '' = [0x3A, 0x20]" by (simp add: lit_def)
    ultimately show ?thesis
      using appends_put(2) [OF "1.prems"(2), of "lit '': ''"] "1.IH" [OF e "1.prems"(1,2) p(2)]
      by (auto intro!: appends_bind)
  qed
  have loop: "appends (\<lambda>sb. separated_loop (\<lambda>s. put_tstr env s sep) ?item True sb (iteration env es))
      (join_texts sep (map ?text (iteration env es)))" for sep
    using appends_separated [of "iteration env es" ?item ?text _ sep True, OF entry appends_put(1) [OF "1.prems"(2)]]
    by (simp only: if_True)
  have iter: "json_object_get_iterator env es = Some (iteration env es)"
    using "1.prems"(2) by (simp add: json_object_get_iterator_def memory_law_def)
  show ?case
    using appends_structure [OF "1.prems"(2) loop, of ind "0x7B" "0x7D"] by (simp add: json_to_string_object_impl_def iter)
next
  case (2 env ind vs)
  have item: "appends (\<lambda>sb. json_to_string_variant_impl env ind sb v) (json_text env ind v)" if "v \<in> set vs" for v
    using "2.IH" [OF that "2.prems"(1,2)] "2.prems"(3) that by (simp add: list_all_iff)
  have loop: "appends (\<lambda>sb. separated_loop (\<lambda>s. put_tstr env s sep) (json_to_string_variant_impl env ind) True sb vs)
      (join_texts sep (map (json_text env ind) vs))" for sep
    using appends_separated [of vs "json_to_string_variant_impl env ind" "json_text env ind" _ sep True, OF item
        appends_put(1) [OF "2.prems"(2)]] by (simp only: if_True)
  show ?case
    using appends_structure [OF "2.prems"(2) loop, of ind "0x5B" "0x5D"] by (simp add: json_to_string_array_impl_def)
next
  case (3 env ind x)
  then show ?case using appends_format [OF 3(2) number_text_nz [of env x]] by (simp add: json_to_string_number_impl_def)
next
  case (4 env ind cs)
  then show ?case
    using appends_format [OF 4(2) string_Ok(2) [OF 4(1,2)]] string_Ok [OF 4(1,2)]
    by (simp add: json_to_string_string_impl_def string_text_def)
qed (use appends_put(2) in \<open>auto simp: json_to_string_boolean_impl_def json_to_string_null_impl_def\<close>)

end
