(* ===== verification/Json_Roundtrip.thy ===== *)
theory Json_Roundtrip
  imports Json_Print
begin

text \<open>
  Reading back what the JSON printer wrote. \<open>json_arranged\<close> is the value that comes back: objects list their entries
  in the order in which the map library iterates, and a number is what the parser computes from its printed digits.
\<close>

section \<open>The value that comes back\<close>

fun frac_fold :: "'f json_env \<Rightarrow> 'f \<Rightarrow> 'f \<Rightarrow> bytes \<Rightarrow> 'f" where
  "frac_fold env divider v [] = v"
| "frac_fold env divider v (c # cs) =
     (let divider' = js_mul env divider (js_of_int env 10) in
      frac_fold env divider'
        (js_add env v (js_div env (js_sub env (js_of_int env (uint c)) (js_of_int env 48)) divider')) cs)"

definition frac_value :: "'f json_env \<Rightarrow> bytes \<Rightarrow> 'f" where
  "frac_value env ds =
     frac_fold env (js_of_int env 10) (js_div env (js_of_int env (uint (hd ds - 0x30))) (js_of_int env 10)) (tl ds)"

definition number_reread :: "'f json_env \<Rightarrow> 'f \<Rightarrow> 'f" where
  "number_reread env x =
     (case js_decimal env x of
        None \<Rightarrow> x
      | Some (negative, whole, decimals) \<Rightarrow>
          (let v = js_add env (js_of_int env (int whole)) (frac_value env (six_digits decimals)) in
           if negative then js_neg env v else v))"

fun json_arranged :: "'f json_env \<Rightarrow> 'f JsonValue \<Rightarrow> 'f JsonValue" where
  "json_arranged env (JsonObject es) = JsonObject (map (\<lambda>e. (fst e, json_arranged env (snd e))) (iteration env es))"
| "json_arranged env (JsonArray vs) = JsonArray (map (json_arranged env) vs)"
| "json_arranged env (JsonNumber x) = JsonNumber (number_reread env x)"
| "json_arranged env v = v"

section \<open>Reading characters and numbers\<close>

text \<open>\<open>reads p bs v rest\<close>: on the text \<open>bs\<close>, wherever it stands, \<open>p\<close> returns \<open>v\<close> and leaves \<open>rest\<close>.\<close>

definition reads :: "(JsonParseState \<Rightarrow> (JsonError, 'a \<times> JsonParseState) res) \<Rightarrow> bytes \<Rightarrow> 'a \<Rightarrow> bytes \<Rightarrow> bool" where
  "reads p bs v rest \<longleftrightarrow> (\<forall>loc. \<exists>loc'. p \<lparr>ps_view = bs, ps_loc = loc\<rparr> = Ok (v, \<lparr>ps_view = rest, ps_loc = loc'\<rparr>))"

lemma readsE:
  assumes "reads p bs v rest"
  obtains loc' where "p \<lparr>ps_view = bs, ps_loc = loc\<rparr> = Ok (v, \<lparr>ps_view = rest, ps_loc = loc'\<rparr>)"
  using assms unfolding reads_def by blast

lemma readsI:
  "(\<And>loc. \<exists>loc'. p \<lparr>ps_view = bs, ps_loc = loc\<rparr> = Ok (v, \<lparr>ps_view = rest, ps_loc = loc'\<rparr>)) \<Longrightarrow> reads p bs v rest"
  by (simp add: reads_def)

lemma skip_one:
  obtains loc' where "json_parse_state_skip_by \<lparr>ps_view = c # bs, ps_loc = loc\<rparr> (Suc 0) adv = Ok \<lparr>ps_view = bs, ps_loc = loc'\<rparr>"
  using skip_by_Ok [of 1 "\<lparr>ps_view = c # bs, ps_loc = loc\<rparr>" adv] by auto

lemma skip_one_Ok: "\<exists>loc'. json_parse_state_skip_by \<lparr>ps_view = c # bs, ps_loc = loc\<rparr> (Suc 0) adv = Ok \<lparr>ps_view = bs, ps_loc = loc'\<rparr>"
  using skip_one by blast

lemma reads_skip:
  "reads p bs v rest \<Longrightarrow>
   \<exists>loc'. rbind (json_parse_state_skip_by \<lparr>ps_view = c # bs, ps_loc = loc\<rparr> (Suc 0) adv) p = Ok (v, \<lparr>ps_view = rest, ps_loc = loc'\<rparr>)"
  using skip_one [of c bs loc adv] unfolding reads_def by (metis rbind.simps(1))

lemma is_digit_iff: "is_digit c \<longleftrightarrow> 48 \<le> c \<and> c \<le> 57"
  by (auto simp: is_digit_def not_less)

definition not_digit :: "bytes \<Rightarrow> bool" where
  "not_digit rest \<longleftrightarrow> (case rest of [] \<Rightarrow> True | c # _ \<Rightarrow> \<not> is_digit c)"

lemma int_digits_reads:
  assumes "not_digit rest"
  shows "digit_string ds \<Longrightarrow> dec_acc (unat v) ds < 2 ^ 64 \<Longrightarrow>
    reads (\<lambda>state. int_digits_loop state v) (ds @ rest) (word_of_nat (dec_acc (unat v) ds)) rest"
proof (induction ds arbitrary: v)
  case Nil
  show ?case
    using assms by (cases rest) (auto intro!: readsI simp: int_digits_loop.simps not_digit_def)
next
  case (Cons c ds)
  let ?v = "v * 10 + ucast (c - 48) :: u64"
  have lt: "unat v * 10 + digit_val c < 2 ^ 64"
    using Cons.prems(2) dec_acc_ge [of "unat v * 10 + digit_val c" ds] by simp
  then have v: "unat ?v = unat v * 10 + digit_val c"
    using unat_digit_step [of c v] Cons.prems(1) by simp
  then have le: "\<not> ?v < v" by (simp add: word_less_nat_alt)
  have "reads (\<lambda>state. int_digits_loop state ?v) (ds @ rest) (word_of_nat (dec_acc (unat v) (c # ds))) rest"
    using Cons.IH [of ?v] Cons.prems v by simp
  then show ?case
    using Cons.prems(1) le reads_skip [of "\<lambda>state. int_digits_loop state ?v" "ds @ rest" _ rest c]
    by (intro readsI) (subst int_digits_loop.simps, simp add: is_digit_iff Let_def)
qed

lemma frac_digits_reads:
  assumes "not_digit rest"
  shows "digit_string ds \<Longrightarrow> reads (\<lambda>state. frac_digits_loop env state d v) (ds @ rest) (frac_fold env d v ds) rest"
proof (induction ds arbitrary: d v)
  case Nil
  show ?case
    using assms by (cases rest) (auto intro!: readsI simp: frac_digits_loop.simps not_digit_def)
next
  case (Cons c ds)
  let ?d = "js_mul env d (js_of_int env 10)"
  let ?v = "js_add env v (js_div env (js_sub env (js_of_int env (uint c)) (js_of_int env 48)) ?d)"
  have "reads (\<lambda>state. frac_digits_loop env state ?d ?v) (ds @ rest) (frac_fold env d v (c # ds)) rest"
    using Cons.IH [of ?d ?v] Cons.prems by (simp add: Let_def)
  then show ?case
    using Cons.prems(1) reads_skip [of "\<lambda>state. frac_digits_loop env state ?d ?v" "ds @ rest" _ rest c]
    by (intro readsI) (subst frac_digits_loop.simps, simp add: is_digit_iff Let_def)
qed

lemma print_nat_start: "n \<noteq> 0 \<Longrightarrow> \<exists>c ds. print_nat n = c # ds \<and> c \<noteq> 48"
proof (induction n rule: print_nat.induct)
  case (1 n)
  show ?case
  proof (cases "n < 10")
    case True
    with "1.prems" have "n \<in> set [1..<10]" by simp
    then have "word_of_nat (48 + n) \<noteq> (48 :: u8)" by (auto simp: upt_rec)
    with True show ?thesis by (subst print_nat.simps) simp
  next
    case False
    with 1 obtain c ds where "print_nat (n div 10) = c # ds" "c \<noteq> 48" by (auto simp: div_eq_0_iff)
    with False show ?thesis by (subst print_nat.simps) simp
  qed
qed

lemma int_part_reads:
  assumes "n < 2 ^ 64" "not_digit rest"
  shows "reads (json_parse_impl_parse_number_int_part env) (print_nat n @ rest) (js_of_int env (int n)) rest"
proof (cases "n = 0")
  case True
  have "print_nat 0 = [48]" by (subst print_nat.simps) simp
  moreover have "reads (\<lambda>state'. Ok (js_of_int env 0, state')) rest (js_of_int env 0) rest" by (simp add: reads_def)
  ultimately show ?thesis
    using True reads_skip [of "\<lambda>state'. Ok (js_of_int env 0, state')" rest _ rest 48]
    by (intro readsI) (simp add: json_parse_impl_parse_number_int_part_def)
next
  case False
  then obtain c ds where p: "print_nat n = c # ds" "c \<noteq> 48" using print_nat_start by blast
  have ds: "digit_string (c # ds)" using print_nat_digits [of n] p by simp
  then have c: "unat (ucast (c - 48) :: u64) = digit_val c"
    using digit_val_word [of c] by (simp add: unsigned_ucast_eq take_bit_nat_eq_self_iff)
  have n: "dec_acc (digit_val c) ds = n" using print_nat_value [of n] p by (simp add: dec_value_def)
  have digits: "reads (\<lambda>state. int_digits_loop state (ucast (c - 48))) (ds @ rest) (word_of_nat n) rest"
    using int_digits_reads [OF assms(2), of ds "ucast (c - 48)"] ds assms(1) n c by simp
  have "reads (\<lambda>state'. rbind (int_digits_loop state' (ucast (c - 48))) (\<lambda>(v, state''). Ok (js_of_int env (uint v), state'')))
      (ds @ rest) (js_of_int env (int n)) rest"
  proof (rule readsI)
    fix loc
    have n64: "uint (word_of_nat n :: u64) = int n" using assms(1) by (simp add: unsigned_of_nat take_bit_nat_eq_self)
    obtain loc' where "int_digits_loop \<lparr>ps_view = ds @ rest, ps_loc = loc\<rparr> (ucast (c - 48)) =
        Ok (word_of_nat n, \<lparr>ps_view = rest, ps_loc = loc'\<rparr>)" by (rule readsE [OF digits])
    then show "\<exists>loc'. rbind (int_digits_loop \<lparr>ps_view = ds @ rest, ps_loc = loc\<rparr> (ucast (c - 48)))
        (\<lambda>(v, state''). Ok (js_of_int env (uint v), state'')) =
        Ok (js_of_int env (int n), \<lparr>ps_view = rest, ps_loc = loc'\<rparr>)" by (simp add: n64)
  qed
  moreover have "\<not> 57 < c" "\<not> c < 49" using ds p(2) by (simp_all add: word_le_def word_less_def word_uint_eq_iff)
  ultimately show ?thesis
    using p reads_skip [of _ "ds @ rest" _ rest c]
    by (intro readsI) (simp add: json_parse_impl_parse_number_int_part_def)
qed

text \<open>What may stand behind a value: a separator, a closing bracket, a new line in front of it, or nothing.\<close>

definition follows :: "bytes \<Rightarrow> bool" where
  "follows rest \<longleftrightarrow> (case rest of [] \<Rightarrow> True | c # _ \<Rightarrow> c \<in> {0x2C, 0x0A, 0x5D, 0x7D})"

lemma follows_not_digit: "follows rest \<Longrightarrow> not_digit rest"
  by (cases rest) (auto simp: follows_def not_digit_def is_digit_def)

lemma reads_skip_bind:
  assumes "reads p bs v rest"
  shows "\<exists>loc'. rbind (json_parse_state_skip_by \<lparr>ps_view = c # bs, ps_loc = loc\<rparr> (Suc 0) adv) (\<lambda>s. rbind (p s) f) =
    f (v, \<lparr>ps_view = rest, ps_loc = loc'\<rparr>)"
  using reads_skip [OF assms, of c loc adv] by (auto simp: rbind_assoc [symmetric])

lemma frac_part_reads:
  assumes "digit_string ds" "ds \<noteq> []" "not_digit rest"
  shows "reads (json_parse_impl_parse_number_frac_part env) (0x2E # ds @ rest) (frac_value env ds) rest"
proof -
  obtain c cs where ds: "ds = c # cs" using assms(2) by (cases ds) auto
  let ?v = "js_div env (js_of_int env (uint (c - 48))) (js_of_int env 10)"
  have "reads (\<lambda>state. frac_digits_loop env state (js_of_int env 10) ?v) (cs @ rest) (frac_value env ds) rest"
    using frac_digits_reads [OF assms(3), of cs env "js_of_int env 10" ?v] assms(1) ds by (simp add: frac_value_def)
  note inner = reads_skip [OF this, of c]
  show ?thesis
  proof (rule readsI)
    fix loc
    obtain loc1 where "json_parse_state_skip_by \<lparr>ps_view = 0x2E # ds @ rest, ps_loc = loc\<rparr> (Suc 0) True =
        Ok \<lparr>ps_view = ds @ rest, ps_loc = loc1\<rparr>" by (rule skip_one)
    with inner [of loc1 True] ds assms(1)
    show "\<exists>loc'. json_parse_impl_parse_number_frac_part env \<lparr>ps_view = 0x2E # ds @ rest, ps_loc = loc\<rparr> =
        Ok (frac_value env ds, \<lparr>ps_view = rest, ps_loc = loc'\<rparr>)"
      by (simp add: json_parse_impl_parse_number_frac_part_def is_digit_iff Let_def)
  qed
qed

lemma after_frac_reads:
  assumes "digit_string ds" "ds \<noteq> []" "follows rest"
  shows "reads (number_after_frac env negative i) (0x2E # ds @ rest)
    (signed_number env negative (js_add env i (frac_value env ds))) rest"
proof (rule readsI)
  fix loc
  obtain loc' where "json_parse_impl_parse_number_frac_part env \<lparr>ps_view = 0x2E # ds @ rest, ps_loc = loc\<rparr> =
      Ok (frac_value env ds, \<lparr>ps_view = rest, ps_loc = loc'\<rparr>)"
    using frac_part_reads [OF assms(1,2) follows_not_digit [OF assms(3)]] by (rule readsE)
  with assms(3) show "\<exists>loc'. number_after_frac env negative i \<lparr>ps_view = 0x2E # ds @ rest, ps_loc = loc\<rparr> =
      Ok (signed_number env negative (js_add env i (frac_value env ds)), \<lparr>ps_view = rest, ps_loc = loc'\<rparr>)"
    by (cases rest) (auto simp: number_after_frac_def follows_def)
qed

text \<open>The number without its sign.\<close>

definition number_unsigned ::
  "'f json_env \<Rightarrow> bool \<Rightarrow> JsonParseState \<Rightarrow> (JsonError, 'f JsonValue \<times> JsonParseState) res" where
  "number_unsigned env negative state1 =
     rbind (json_parse_impl_parse_number_int_part env state1) (\<lambda>(int_value, state2).
     if json_parse_state_is_eof state2 then Ok (signed_number env negative int_value, state2)
     else rbind (json_parse_state_peek_next_char state2) (\<lambda>next_value.
       if next_value = 0x2E then number_after_frac env negative int_value state2
       else if next_value = 0x65 \<or> next_value = 0x45 then number_after_exp env negative int_value state2
       else Ok (signed_number env negative int_value, state2)))"

lemma parse_number_sign:
  "json_parse_impl_parse_number env \<lparr>ps_view = c # bs, ps_loc = loc\<rparr> =
     rbind (if c = 0x2D then json_parse_state_skip_by \<lparr>ps_view = c # bs, ps_loc = loc\<rparr> 1 True
            else Ok \<lparr>ps_view = c # bs, ps_loc = loc\<rparr>) (\<lambda>state1.
     if json_parse_state_is_eof state1 then json_fail state1 ''empty number: <EOF> after -''
     else number_unsigned env (c = 0x2D) state1)"
  unfolding json_parse_impl_parse_number_def number_unsigned_def Let_def by simp

lemma unsigned_reads:
  assumes "n < 2 ^ 64" "digit_string ds" "ds \<noteq> []" "follows rest"
  shows "reads (number_unsigned env negative) (print_nat n @ 0x2E # ds @ rest)
    (signed_number env negative (js_add env (js_of_int env (int n)) (frac_value env ds))) rest"
proof (rule readsI, goal_cases)
  case (1 loc)
  have "not_digit (0x2E # ds @ rest)" by (simp add: not_digit_def is_digit_def)
  then obtain loc1 where "json_parse_impl_parse_number_int_part env
      \<lparr>ps_view = print_nat n @ 0x2E # ds @ rest, ps_loc = loc\<rparr> =
      Ok (js_of_int env (int n), \<lparr>ps_view = 0x2E # ds @ rest, ps_loc = loc1\<rparr>)"
    using int_part_reads [OF assms(1)] readsE by metis
  moreover obtain loc2 where "number_after_frac env negative (js_of_int env (int n))
      \<lparr>ps_view = 0x2E # ds @ rest, ps_loc = loc1\<rparr> =
      Ok (signed_number env negative (js_add env (js_of_int env (int n)) (frac_value env ds)),
        \<lparr>ps_view = rest, ps_loc = loc2\<rparr>)"
    using after_frac_reads [OF assms(2-4)] by (rule readsE)
  ultimately show ?case by (simp add: number_unsigned_def)
qed

lemma print_nat_Cons: "\<exists>c cs. print_nat n = c # cs \<and> 48 \<le> c \<and> c \<le> 57"
  using print_nat_digits [of n] by (cases "print_nat n") (auto simp: print_nat.simps [of n] split: if_splits)

lemma number_reads:
  assumes "number_printable env x" "follows rest"
  shows "reads (json_parse_impl_parse_number env) (printf_f env x @ rest) (JsonNumber (number_reread env x)) rest"
proof (rule readsI)
  fix loc
  obtain negative n d where x: "js_decimal env x = Some (negative, n, d)" "n < 2 ^ 64"
    using assms(1) by (auto simp: number_printable_def split: option.splits)
  let ?rest = "print_nat n @ 0x2E # six_digits d @ rest"
  have six: "six_digits d \<noteq> []" by (simp add: six_digits_def)
  have v: "signed_number env negative (js_add env (js_of_int env (int n)) (frac_value env (six_digits d))) =
      JsonNumber (number_reread env x)" using x by (simp add: signed_number_def number_reread_def Let_def)
  note tail = unsigned_reads [OF x(2) six_digits_string six assms(2), of env negative, unfolded v]
  obtain c cs where n: "print_nat n = c # cs" "48 \<le> c" using print_nat_Cons by blast
  show "\<exists>loc'. json_parse_impl_parse_number env \<lparr>ps_view = printf_f env x @ rest, ps_loc = loc\<rparr> =
      Ok (JsonNumber (number_reread env x), \<lparr>ps_view = rest, ps_loc = loc'\<rparr>)"
  proof (cases negative)
    case True
    then have text_eq: "printf_f env x @ rest = 0x2D # ?rest" using x by (simp add: printf_f_def)
    obtain loc1 where loc1: "json_parse_state_skip_by \<lparr>ps_view = 0x2D # ?rest, ps_loc = loc\<rparr> (Suc 0) True =
        Ok \<lparr>ps_view = ?rest, ps_loc = loc1\<rparr>" by (rule skip_one)
    obtain loc2 where "number_unsigned env True \<lparr>ps_view = ?rest, ps_loc = loc1\<rparr> =
        Ok (JsonNumber (number_reread env x), \<lparr>ps_view = rest, ps_loc = loc2\<rparr>)"
      using tail True by (auto elim: readsE)
    then show ?thesis unfolding text_eq parse_number_sign using loc1 by simp
  next
    case False
    then have text_eq: "printf_f env x @ rest = c # cs @ 0x2E # six_digits d @ rest" using x n by (simp add: printf_f_def)
    have "c \<noteq> 0x2D" using n(2) by auto
    moreover obtain loc2 where "number_unsigned env False \<lparr>ps_view = ?rest, ps_loc = loc\<rparr> =
        Ok (JsonNumber (number_reread env x), \<lparr>ps_view = rest, ps_loc = loc2\<rparr>)"
      using tail False by (auto elim: readsE)
    ultimately show ?thesis unfolding text_eq parse_number_sign using n by simp
  qed
qed

section \<open>Reading strings\<close>

lemma utf8_consume_encoded:
  assumes "utf8proc_iterate env (bs @ rest) = Inr (length bs, c)" "bs \<noteq> []"
  shows "reads (utf8_get_next_char_and_consume env) (bs @ rest) c rest"
proof (rule readsI)
  fix loc
  obtain loc' where "json_parse_state_skip_by \<lparr>ps_view = bs @ rest, ps_loc = loc\<rparr> (length bs) True =
      Ok \<lparr>ps_view = rest, ps_loc = loc'\<rparr>"
    using skip_by_Ok [of "length bs" "\<lparr>ps_view = bs @ rest, ps_loc = loc\<rparr>" True] by auto
  with assms show "\<exists>loc'. utf8_get_next_char_and_consume env \<lparr>ps_view = bs @ rest, ps_loc = loc\<rparr> =
      Ok (c, \<lparr>ps_view = rest, ps_loc = loc'\<rparr>)" by (simp add: utf8_get_next_char_and_consume_def)
qed

lemma utf8_consume_ascii:
  "utf8_law env \<Longrightarrow> c < 0x80 \<Longrightarrow> reads (utf8_get_next_char_and_consume env) (c # rest) (uint c) rest"
  using utf8_consume_encoded [of env "[c]" rest "uint c"] utf8_ascii [of env c rest] by simp

lemma get_next_reads: "reads json_parse_state_get_next_char (c # rest) c rest"
proof -
  have "reads (\<lambda>s. Ok (c, s)) rest c rest" by (simp add: reads_def)
  from reads_skip [OF this] show ?thesis
    by (intro readsI) (simp add: json_parse_state_get_next_char_def check_assert_def)
qed

lemma hex_digit_char: "d < 16 \<Longrightarrow> hex_digit (hex_char d) = Some (int d)"
proof -
  have "list_all (\<lambda>d. hex_digit (hex_char d) = Some (int d)) [0..<16]" by code_simp
  then show "d < 16 \<Longrightarrow> hex_digit (hex_char d) = Some (int d)" by (simp add: list_all_iff)
qed

lemma hex_loop_read:
  assumes "a < 16" "b < 16" "c < 16" "d < 16"
  shows "unicode_escape_loop \<lparr>ps_view = hex_char a # hex_char b # hex_char c # hex_char d # rest, ps_loc = loc\<rparr> 0
    (Suc (Suc (Suc (Suc 0)))) 0 = Ok (((int a * 16 + int b) * 16 + int c) * 16 + int d)"
  using assms by (simp add: json_parse_state_peek_char_at_def check_assert_def hex_digit_char)

lemma hex_digits_value:
  assumes "n < 65536"
  shows "((n div 4096 mod 16 * 16 + n div 256 mod 16) * 16 + n div 16 mod 16) * 16 + n mod 16 = (n :: nat)"
proof -
  have "n div 256 = n div 16 div 16" "n div 4096 = n div 16 div 16 div 16" by (simp_all add: div_mult2_eq [symmetric])
  moreover have "n div 16 div 16 div 16 < 16" using assms by simp
  ultimately show ?thesis
    using div_mult_mod_eq [of n 16] div_mult_mod_eq [of "n div 16" 16] div_mult_mod_eq [of "n div 16 div 16" 16]
    by simp
qed

lemma hex4_read:
  assumes "0 \<le> c" "c \<le> 0xFFFF"
  shows "unicode_escape_loop \<lparr>ps_view = hex4 c @ rest, ps_loc = loc\<rparr> 0 4 0 = Ok c"
proof -
  have four: "4 = Suc (Suc (Suc (Suc 0)))" by simp
  let ?n = "nat c"
  have h: "hex4 c @ rest = hex_char (?n div 4096 mod 16) # hex_char (?n div 256 mod 16) # hex_char (?n div 16 mod 16) #
      hex_char (?n mod 16) # rest" by (simp add: hex4_def)
  have "int (((?n div 4096 mod 16 * 16 + ?n div 256 mod 16) * 16 + ?n div 16 mod 16) * 16 + ?n mod 16) = c"
    by (subst hex_digits_value) (use assms in auto)
  then show ?thesis unfolding h four by (subst hex_loop_read) simp_all
qed

text \<open>The characters with an escape of two letters.\<close>

definition short_escapes :: "(Utf8Codepoint \<times> u8) list" where
  "short_escapes = [(0x22, 0x22), (0x5C, 0x5C), (0x08, 0x62), (0x0C, 0x66), (0x0A, 0x6E), (0x0D, 0x72), (0x09, 0x74)]"

lemma short_escape_written: "(c, e) \<in> set short_escapes \<Longrightarrow> json_impl_escape_char_into env c = Ok [0x5C, e]"
  by (auto simp: short_escapes_def json_impl_escape_char_into_def)

lemma short_escape_reads:
  assumes "(c, e) \<in> set short_escapes"
  shows "reads escape_logic (e # rest) c rest"
proof (rule readsI)
  fix loc
  obtain loc' where "json_parse_state_get_next_char \<lparr>ps_view = e # rest, ps_loc = loc\<rparr> =
      Ok (e, \<lparr>ps_view = rest, ps_loc = loc'\<rparr>)" by (rule readsE [OF get_next_reads])
  then have "escape_logic \<lparr>ps_view = e # rest, ps_loc = loc\<rparr> = Ok (c, \<lparr>ps_view = rest, ps_loc = loc'\<rparr>)"
    using assms by (auto simp: escape_logic_def short_escapes_def)
  then show "\<exists>loc'. escape_logic \<lparr>ps_view = e # rest, ps_loc = loc\<rparr> = Ok (c, \<lparr>ps_view = rest, ps_loc = loc'\<rparr>)" ..
qed

lemma unicode_escape_reads:
  assumes "0 \<le> c" "c \<le> 0xFFFF"
  shows "reads escape_logic (0x75 # hex4 c @ rest) c rest"
proof (rule readsI)
  fix loc
  obtain loc1 where loc1: "json_parse_state_get_next_char \<lparr>ps_view = 0x75 # hex4 c @ rest, ps_loc = loc\<rparr> =
      Ok (0x75, \<lparr>ps_view = hex4 c @ rest, ps_loc = loc1\<rparr>)" by (rule readsE [OF get_next_reads])
  obtain loc2 where "json_parse_state_skip_by \<lparr>ps_view = hex4 c @ rest, ps_loc = loc1\<rparr> 4 True =
      Ok \<lparr>ps_view = rest, ps_loc = loc2\<rparr>"
    using skip_by_Ok [of 4 "\<lparr>ps_view = hex4 c @ rest, ps_loc = loc1\<rparr>" True] hex4_props(1) [of c] by auto
  with loc1 hex4_read [OF assms, of rest loc1] hex4_props(1) [of c]
  show "\<exists>loc'. escape_logic \<lparr>ps_view = 0x75 # hex4 c @ rest, ps_loc = loc\<rparr> =
      Ok (c, \<lparr>ps_view = rest, ps_loc = loc'\<rparr>)" by (simp add: escape_logic_def)
qed

lemma escape_reads:
  assumes "utf8_law env" "char_printable env c" "json_impl_needs_escaping env c"
  shows "\<exists>bs. json_impl_escape_char_into env c = Ok (0x5C # bs) \<and> reads escape_logic (bs @ rest) c rest"
proof (cases "c \<in> fst ` set short_escapes")
  case True
  then obtain e where "(c, e) \<in> set short_escapes" by auto
  then show ?thesis using short_escape_written [of c e env] short_escape_reads [of c e rest] by auto
next
  case False
  then have no: "c \<noteq> 0x22" "c \<noteq> 0x5C" "c \<noteq> 0x08" "c \<noteq> 0x0C" "c \<noteq> 0x0A" "c \<noteq> 0x0D" "c \<noteq> 0x09"
    by (auto simp: short_escapes_def)
  with assms(3) have control: "utf8proc_is_control env c" "c \<noteq> 0x2F"
    by (simp_all add: json_impl_needs_escaping_def split: if_splits)
  with no assms(2) have c: "0 \<le> c" "c \<le> 0xFFFF" "js_ndebug env"
    using utf8_control(1) [OF assms(1), of c] by (simp_all add: char_printable_def)
  then have "c mod 65536 = c" by simp
  then have "json_impl_escape_char_into env c = Ok (0x5C # 0x75 # hex4 c)"
    using no control c by (simp add: json_impl_escape_char_into_def)
  with unicode_escape_reads [OF c(1,2), of rest] show ?thesis by auto
qed

lemma escape_char_reads:
  assumes "utf8_law env" "reads escape_logic bs c rest"
  shows "reads (string_char env) (0x5C # bs) (Some c) rest"
proof (rule readsI)
  fix loc
  obtain loc1 where loc1: "utf8_get_next_char_and_consume env \<lparr>ps_view = 0x5C # bs, ps_loc = loc\<rparr> =
      Ok (0x5C, \<lparr>ps_view = bs, ps_loc = loc1\<rparr>)"
    using readsE [OF utf8_consume_ascii [OF assms(1), of "0x5C" bs]] by auto
  obtain loc2 where "escape_logic \<lparr>ps_view = bs, ps_loc = loc1\<rparr> = Ok (c, \<lparr>ps_view = rest, ps_loc = loc2\<rparr>)"
    by (rule readsE [OF assms(2)])
  with loc1 show "\<exists>loc'. string_char env \<lparr>ps_view = 0x5C # bs, ps_loc = loc\<rparr> =
      Ok (Some c, \<lparr>ps_view = rest, ps_loc = loc'\<rparr>)" by (simp add: string_char_def)
qed

lemma char_reads:
  assumes "utf8_law env" "char_printable env c"
  shows "reads (string_char env) (char_text env c @ rest) (Some c) rest"
proof (cases "json_impl_needs_escaping env c")
  case True
  with escape_reads [OF assms] obtain bs where bs: "json_impl_escape_char_into env c = Ok (0x5C # bs)"
    "reads escape_logic (bs @ rest) c rest" by blast
  then have text_eq: "char_text env c @ rest = 0x5C # bs @ rest" using True by (simp add: char_text_def escaped_char_def)
  show ?thesis unfolding text_eq by (rule escape_char_reads [OF assms(1) bs(2)])
next
  case False
  have range: "0 \<le> c" "c \<le> 0x10FFFF" "\<not> (0xD800 \<le> c \<and> c \<le> 0xDFFF)"
    using assms(2) unfolding char_printable_def by simp_all
  obtain bs where bs: "utf8proc_encode_char env c = Some bs" "bs \<noteq> []"
      "\<And>rest. utf8proc_iterate env (bs @ rest) = Inr (length bs, c)"
    by (rule utf8_encode [OF assms(1) range]) blast
  have c: "\<not> c < 0x20" "c \<noteq> 0x22" "c \<noteq> 0x5C"
    using False utf8_control(2) [OF assms(1), of c] range(1) by (auto simp: json_impl_needs_escaping_def split: if_splits)
  have text_eq: "char_text env c = bs" using False bs(1) by (simp add: char_text_def escaped_char_def)
  show ?thesis unfolding text_eq
  proof (rule readsI)
    fix loc
    obtain loc1 where "utf8_get_next_char_and_consume env \<lparr>ps_view = bs @ rest, ps_loc = loc\<rparr> =
        Ok (c, \<lparr>ps_view = rest, ps_loc = loc1\<rparr>)" by (rule readsE [OF utf8_consume_encoded [OF bs(3,2)]])
    with range c bs(2) show "\<exists>loc'. string_char env \<lparr>ps_view = bs @ rest, ps_loc = loc\<rparr> =
        Ok (Some c, \<lparr>ps_view = rest, ps_loc = loc'\<rparr>)" by (simp add: string_char_def)
  qed
qed

lemma string_loop_reads:
  assumes "utf8_law env" "memory_law env"
  shows "list_all (char_printable env) cs \<Longrightarrow>
    reads (\<lambda>state. string_loop env state acc) (concat (map (char_text env) cs) @ 0x22 # rest) (JsonString (acc @ cs)) rest"
proof (induction cs arbitrary: acc)
  case Nil
  show ?case
  proof (rule readsI)
    fix loc
    obtain loc1 where "utf8_get_next_char_and_consume env \<lparr>ps_view = 0x22 # rest, ps_loc = loc\<rparr> =
        Ok (0x22, \<lparr>ps_view = rest, ps_loc = loc1\<rparr>)"
      using readsE [OF utf8_consume_ascii [OF assms(1), of "0x22" rest]] by auto
    then have "string_char env \<lparr>ps_view = 0x22 # rest, ps_loc = loc\<rparr> = Ok (None, \<lparr>ps_view = rest, ps_loc = loc1\<rparr>)"
      by (simp add: string_char_def)
    then show "\<exists>loc'. string_loop env \<lparr>ps_view = concat (map (char_text env) []) @ 0x22 # rest, ps_loc = loc\<rparr> acc =
        Ok (JsonString (acc @ []), \<lparr>ps_view = rest, ps_loc = loc'\<rparr>)" by (subst string_loop.simps) simp
  qed
next
  case (Cons c cs)
  let ?rest = "concat (map (char_text env) cs) @ 0x22 # rest"
  show ?case
  proof (rule readsI)
    fix loc
    obtain loc1 where loc1: "string_char env \<lparr>ps_view = char_text env c @ ?rest, ps_loc = loc\<rparr> =
        Ok (Some c, \<lparr>ps_view = ?rest, ps_loc = loc1\<rparr>)"
      using Cons.prems char_reads [OF assms(1), of c ?rest] by (auto elim: readsE)
    obtain loc2 where "string_loop env \<lparr>ps_view = ?rest, ps_loc = loc1\<rparr> (acc @ [c]) =
        Ok (JsonString ((acc @ [c]) @ cs), \<lparr>ps_view = rest, ps_loc = loc2\<rparr>)"
      using Cons.IH [of "acc @ [c]"] Cons.prems by (auto elim: readsE)
    with loc1 assms(2)
    show "\<exists>loc'. string_loop env \<lparr>ps_view = concat (map (char_text env) (c # cs)) @ 0x22 # rest, ps_loc = loc\<rparr> acc =
        Ok (JsonString (acc @ c # cs), \<lparr>ps_view = rest, ps_loc = loc'\<rparr>)"
      by (subst string_loop.simps) (simp add: json_string_add_char_impl_def memory_law_def)
  qed
qed

lemma string_reads:
  assumes "utf8_law env" "memory_law env" "string_printable env cs"
  shows "reads (json_parse_impl_parse_string env) (string_text env cs @ rest) (JsonString cs) rest"
proof (rule readsI)
  fix loc
  let ?rest = "concat (map (char_text env) cs) @ 0x22 # rest"
  obtain loc1 where loc1: "json_parse_state_skip_by \<lparr>ps_view = 0x22 # ?rest, ps_loc = loc\<rparr> (Suc 0) True =
      Ok \<lparr>ps_view = ?rest, ps_loc = loc1\<rparr>" by (rule skip_one)
  obtain loc2 where "string_loop env \<lparr>ps_view = ?rest, ps_loc = loc1\<rparr> [] =
      Ok (JsonString cs, \<lparr>ps_view = rest, ps_loc = loc2\<rparr>)"
    using string_loop_reads [OF assms(1,2), of cs "[]" rest] assms(3) by (auto simp: string_printable_def elim: readsE)
  with loc1 assms(2) show "\<exists>loc'. json_parse_impl_parse_string env \<lparr>ps_view = string_text env cs @ rest, ps_loc = loc\<rparr> =
      Ok (JsonString cs, \<lparr>ps_view = rest, ps_loc = loc'\<rparr>)"
    by (simp add: json_parse_impl_parse_string_def string_text_def memory_law_def)
qed

section \<open>Reading values\<close>

abbreviation after_ws :: "bytes \<Rightarrow> bytes" where
  "after_ws \<equiv> dropWhile json_parse_impl_is_ws"

text \<open>\<open>reads_ws p bs v rest\<close>: like \<open>reads\<close>, up to white space in front of what is left.\<close>

definition reads_ws :: "(JsonParseState \<Rightarrow> (JsonError, 'a \<times> JsonParseState) res) \<Rightarrow> bytes \<Rightarrow> 'a \<Rightarrow> bytes \<Rightarrow> bool" where
  "reads_ws p bs v rest \<longleftrightarrow>
     (\<forall>loc. \<exists>state'. p \<lparr>ps_view = bs, ps_loc = loc\<rparr> = Ok (v, state') \<and> after_ws (ps_view state') = after_ws rest)"

lemma reads_wsE:
  assumes "reads_ws p bs v rest"
  obtains state' where "p \<lparr>ps_view = bs, ps_loc = loc\<rparr> = Ok (v, state')" "after_ws (ps_view state') = after_ws rest"
  using assms unfolding reads_ws_def by blast

lemma reads_imp_ws: "reads p bs v rest \<Longrightarrow> reads_ws p bs v rest"
  unfolding reads_def reads_ws_def by fastforce

lemma skip_ws_to:
  assumes "after_ws (ps_view state) = bs"
  obtains loc where "json_parse_impl_skip_ws state = Ok \<lparr>ps_view = bs, ps_loc = loc\<rparr>"
  using skip_ws_Ok [of state] assms by blast

lemma skip_ws_at: "\<exists>loc'. json_parse_impl_skip_ws \<lparr>ps_view = bs, ps_loc = loc\<rparr> = Ok \<lparr>ps_view = after_ws bs, ps_loc = loc'\<rparr>"
  using skip_ws_Ok [of "\<lparr>ps_view = bs, ps_loc = loc\<rparr>"] by simp

lemma end_structure_to:
  assumes "ps_view state = c # rest"
  obtains loc where "end_structure state = Ok \<lparr>ps_view = after_ws rest, ps_loc = loc\<rparr>"
proof -
  obtain loc1 where "json_parse_state_skip_by state (Suc 0) True = Ok \<lparr>ps_view = rest, ps_loc = loc1\<rparr>"
    using skip_by_Ok [of 1 state True] assms by auto
  moreover obtain loc2 where "json_parse_impl_skip_ws \<lparr>ps_view = rest, ps_loc = loc1\<rparr> =
      Ok \<lparr>ps_view = after_ws rest, ps_loc = loc2\<rparr>" using skip_ws_at by blast
  ultimately have "end_structure state = Ok \<lparr>ps_view = after_ws rest, ps_loc = loc2\<rparr>" by (simp add: end_structure_def)
  then show ?thesis by (rule that)
qed

lemma element_end_close:
  assumes "after_ws (ps_view state) = cbr # rest"
  obtains loc where "element_end cbr m i state = Ok (AfterEnd \<lparr>ps_view = after_ws rest, ps_loc = loc\<rparr>)"
proof -
  obtain loc1 where "json_parse_impl_skip_ws state = Ok \<lparr>ps_view = cbr # rest, ps_loc = loc1\<rparr>"
    using assms by (rule skip_ws_to)
  moreover obtain loc2 where "end_structure \<lparr>ps_view = cbr # rest, ps_loc = loc1\<rparr> =
      Ok \<lparr>ps_view = after_ws rest, ps_loc = loc2\<rparr>"
    using end_structure_to [of "\<lparr>ps_view = cbr # rest, ps_loc = loc1\<rparr>" cbr rest] by auto
  ultimately have "element_end cbr m i state = Ok (AfterEnd \<lparr>ps_view = after_ws rest, ps_loc = loc2\<rparr>)"
    by (simp add: element_end_def)
  then show ?thesis by (rule that)
qed

lemma element_end_separator:
  assumes "after_ws (ps_view state) = 0x2C # rest" "cbr \<noteq> 0x2C"
  obtains loc where "element_end cbr m i state = Ok (AfterSeparator \<lparr>ps_view = after_ws rest, ps_loc = loc\<rparr>)"
proof -
  obtain loc1 where "json_parse_impl_skip_ws state = Ok \<lparr>ps_view = 0x2C # rest, ps_loc = loc1\<rparr>"
    using assms(1) by (rule skip_ws_to)
  moreover obtain loc2 where "json_parse_state_skip_by \<lparr>ps_view = 0x2C # rest, ps_loc = loc1\<rparr> (Suc 0) True =
      Ok \<lparr>ps_view = rest, ps_loc = loc2\<rparr>" by (rule skip_one)
  moreover obtain loc3 where "json_parse_impl_skip_ws \<lparr>ps_view = rest, ps_loc = loc2\<rparr> =
      Ok \<lparr>ps_view = after_ws rest, ps_loc = loc3\<rparr>" using skip_ws_at by blast
  ultimately have "element_end cbr m i state = Ok (AfterSeparator \<lparr>ps_view = after_ws rest, ps_loc = loc3\<rparr>)"
    using assms(2) by (auto simp: element_end_def)
  then show ?thesis by (rule that)
qed

lemma begin_structure_to:
  assumes "after_ws rest = c # cs" "\<not> json_parse_impl_is_ws obr"
  obtains loc' where "begin_structure obr n m \<lparr>ps_view = obr # rest, ps_loc = loc\<rparr> =
    Ok \<lparr>ps_view = c # cs, ps_loc = loc'\<rparr>"
proof -
  have c: "\<not> json_parse_impl_is_ws c" using assms(1) by (metis dropWhile_eq_Cons_conv)
  obtain loc1 where "json_parse_impl_skip_ws \<lparr>ps_view = obr # rest, ps_loc = loc\<rparr> =
      Ok \<lparr>ps_view = obr # rest, ps_loc = loc1\<rparr>" using skip_ws_at [of "obr # rest" loc] assms(2) by auto
  moreover obtain loc2 where "json_parse_state_skip_by \<lparr>ps_view = obr # rest, ps_loc = loc1\<rparr> (Suc 0) True =
      Ok \<lparr>ps_view = rest, ps_loc = loc2\<rparr>" by (rule skip_one)
  moreover obtain loc3 where "json_parse_impl_skip_ws \<lparr>ps_view = rest, ps_loc = loc2\<rparr> =
      Ok \<lparr>ps_view = c # cs, ps_loc = loc3\<rparr>" using skip_ws_at [of rest loc2] assms(1) by auto
  moreover obtain loc4 where "json_parse_impl_skip_ws \<lparr>ps_view = c # cs, ps_loc = loc3\<rparr> =
      Ok \<lparr>ps_view = c # cs, ps_loc = loc4\<rparr>" using skip_ws_at [of "c # cs" loc3] c by auto
  ultimately have "begin_structure obr n m \<lparr>ps_view = obr # rest, ps_loc = loc\<rparr> =
      Ok \<lparr>ps_view = c # cs, ps_loc = loc4\<rparr>" by (simp add: begin_structure_def)
  then show ?thesis by (rule that)
qed

section \<open>Reading structures\<close>

lemma after_ws_append: "\<forall>c \<in> set w. json_parse_impl_is_ws c \<Longrightarrow> after_ws (w @ bs) = after_ws bs"
  by (simp add: dropWhile_append2)

lemma comma_no_ws: "\<not> json_parse_impl_is_ws 0x2C"
  by (simp add: json_parse_impl_is_ws_def)

lemma brackets_shape:
  "\<exists>w1 w2 w3. brackets ind obr cbr = (obr # w1, 0x2C # w2, w3 @ [cbr]) \<and>
     (\<forall>c \<in> set (w1 @ w2 @ w3). json_parse_impl_is_ws c) \<and> set w3 \<subseteq> {0x0A}"
  by (auto simp: brackets_def json_parse_impl_is_ws_def)

text \<open>The beginning of a value: neither white space nor a cbr bracket.\<close>

definition value_start :: "bytes \<Rightarrow> bool" where
  "value_start t \<longleftrightarrow> (case t of [] \<Rightarrow> False | c # _ \<Rightarrow> \<not> json_parse_impl_is_ws c \<and> c \<noteq> 0x5D \<and> c \<noteq> 0x7D)"

lemma value_start_ws: "value_start t \<Longrightarrow> after_ws (t @ rest) = t @ rest"
  by (cases t) (simp_all add: value_start_def)

text \<open>\<open>adds item t x acc\<close>: reading the text \<open>t\<close> of an element adds \<open>x\<close> to the elements \<open>acc\<close> so far.\<close>

definition adds ::
  "(JsonParseState \<Rightarrow> 'a list \<Rightarrow> (JsonError, 'a list \<times> JsonParseState) res) \<Rightarrow> bytes \<Rightarrow> 'a \<Rightarrow> 'a list \<Rightarrow> bool" where
  "adds item t x acc \<longleftrightarrow>
     value_start t \<and> (\<forall>rest. follows rest \<longrightarrow> reads_ws (\<lambda>state. item state acc) (t @ rest) (acc @ [x]) rest)"

lemma adds_reads:
  "adds item t x acc \<Longrightarrow> follows rest \<Longrightarrow>
   \<exists>state'. item \<lparr>ps_view = t @ rest, ps_loc = loc\<rparr> acc = Ok (acc @ [x], state') \<and> after_ws (ps_view state') = after_ws rest"
  by (simp add: adds_def reads_ws_def)

fun adds_all ::
  "(JsonParseState \<Rightarrow> 'a list \<Rightarrow> (JsonError, 'a list \<times> JsonParseState) res) \<Rightarrow> (bytes \<times> 'a) list \<Rightarrow> 'a list \<Rightarrow> bool" where
  "adds_all item [] acc \<longleftrightarrow> True"
| "adds_all item ((t, x) # txs) acc \<longleftrightarrow> adds item t x acc \<and> adds_all item txs (acc @ [x])"

text \<open>Objects and arrays are read by the same scheme.\<close>

locale json_structure =
  fixes item :: "JsonParseState \<Rightarrow> 'a list \<Rightarrow> (JsonError, 'a list \<times> JsonParseState) res"
    and loop :: "JsonParseState \<Rightarrow> 'a list \<Rightarrow> (JsonError, 'v \<times> JsonParseState) res"
    and whole :: "JsonParseState \<Rightarrow> (JsonError, 'v \<times> JsonParseState) res"
    and mk :: "'a list \<Rightarrow> 'v"
    and none :: "'a list option"
    and obr :: u8
    and cbr :: u8
    and name :: string
    and content :: string
    and missing :: string
    and invalid :: string
  assumes bracket_chars: "\<not> json_parse_impl_is_ws obr" "\<not> json_parse_impl_is_ws cbr" "cbr \<noteq> 0x2C"
      "cbr \<in> {0x5D, 0x7D}"
    and loop_eq: "loop state acc =
      rbind (element_end cbr missing invalid state) (\<lambda>after.
      case after of
        AfterEnd s \<Rightarrow> Ok (mk acc, s)
      | AfterSeparator s \<Rightarrow> rbind (item s acc) (\<lambda>(acc', s'). loop s' acc'))"
    and whole_eq: "whole state =
      rbind (begin_structure obr name content state) (\<lambda>state1.
      rbind (json_parse_state_peek_next_char state1) (\<lambda>next_char.
      if next_char = cbr then
        rbind (end_structure state1) (\<lambda>state2.
        case none of None \<Rightarrow> json_fail state2 ''OOM'' | Some acc \<Rightarrow> Ok (mk acc, state2))
      else
        (case none of
           None \<Rightarrow> json_fail state1 ''OOM''
         | Some acc \<Rightarrow> rbind (item state1 acc) (\<lambda>(acc', state2). loop state2 acc'))))"
begin

abbreviation rest_text :: "bytes \<Rightarrow> bytes \<Rightarrow> (bytes \<times> 'a) list \<Rightarrow> bytes \<Rightarrow> bytes" where
  "rest_text w2 w3 txs rest \<equiv> concat (map (\<lambda>t. 0x2C # w2 @ t) (map fst txs)) @ w3 @ cbr # rest"

lemma rest_text_follows: "set w3 \<subseteq> {0x0A} \<Longrightarrow> follows (rest_text w2 w3 txs rest)"
  using bracket_chars(4) by (cases txs; cases w3) (auto simp: follows_def)

lemma loop_reads:
  assumes "\<forall>c \<in> set w2. json_parse_impl_is_ws c" "\<forall>c \<in> set w3. json_parse_impl_is_ws c" "set w3 \<subseteq> {0x0A}"
  shows "adds_all item txs acc \<Longrightarrow> after_ws (ps_view state) = after_ws (rest_text w2 w3 txs rest) \<Longrightarrow>
    \<exists>loc. loop state acc = Ok (mk (acc @ map snd txs), \<lparr>ps_view = after_ws rest, ps_loc = loc\<rparr>)"
proof (induction txs arbitrary: state acc)
  case Nil
  then have "after_ws (ps_view state) = cbr # rest" using after_ws_append [OF assms(2)] bracket_chars by simp
  then obtain loc where "element_end cbr missing invalid state = Ok (AfterEnd \<lparr>ps_view = after_ws rest, ps_loc = loc\<rparr>)"
    by (rule element_end_close)
  then show ?case by (subst loop_eq) simp
next
  case (Cons tx txs)
  obtain t x where tx: "tx = (t, x)" by fastforce
  let ?rest = "rest_text w2 w3 txs rest"
  from Cons.prems tx have adds: "adds item t x acc" "adds_all item txs (acc @ [x])" by simp_all
  then have t: "after_ws (w2 @ t @ ?rest) = t @ ?rest"
    using after_ws_append [OF assms(1)] value_start_ws by (simp add: adds_def)
  have "after_ws (ps_view state) = 0x2C # w2 @ t @ ?rest"
    using Cons.prems(2) tx comma_no_ws by simp
  then obtain loc where sep: "element_end cbr missing invalid state =
      Ok (AfterSeparator \<lparr>ps_view = t @ ?rest, ps_loc = loc\<rparr>)"
    using element_end_separator [of state "w2 @ t @ ?rest" cbr] bracket_chars(3) t by metis
  obtain state' where "item \<lparr>ps_view = t @ ?rest, ps_loc = loc\<rparr> acc = Ok (acc @ [x], state')"
    "after_ws (ps_view state') = after_ws ?rest"
    using adds_reads [OF adds(1) rest_text_follows [OF assms(3), of w2 txs rest], of loc] by auto
  with sep Cons.IH [OF adds(2), of state'] tx show ?case by (subst loop_eq) simp
qed

lemma whole_reads:
  assumes "adds_all item txs []" "none = Some []"
  shows "reads_ws whole (structure_text ind obr cbr (map fst txs) @ rest) (mk (map snd txs)) rest"
proof -
  obtain w1 w2 w3 where w: "brackets ind obr cbr = (obr # w1, 0x2C # w2, w3 @ [cbr])"
      "\<forall>c \<in> set w1. json_parse_impl_is_ws c" "\<forall>c \<in> set w2. json_parse_impl_is_ws c"
      "\<forall>c \<in> set w3. json_parse_impl_is_ws c" "set w3 \<subseteq> {0x0A}"
    using brackets_shape [of ind obr cbr] by auto
  show ?thesis unfolding reads_ws_def
  proof (intro allI)
    fix loc
    show "\<exists>state'. whole \<lparr>ps_view = structure_text ind obr cbr (map fst txs) @ rest, ps_loc = loc\<rparr> =
        Ok (mk (map snd txs), state') \<and> after_ws (ps_view state') = after_ws rest"
    proof (cases txs)
      case Nil
      have "after_ws (w1 @ w3 @ cbr # rest) = cbr # rest"
        using after_ws_append [OF w(2)] after_ws_append [OF w(4)] bracket_chars by simp
      then obtain loc1 where "begin_structure obr name content
          \<lparr>ps_view = obr # w1 @ w3 @ cbr # rest, ps_loc = loc\<rparr> = Ok \<lparr>ps_view = cbr # rest, ps_loc = loc1\<rparr>"
        using begin_structure_to [OF _ bracket_chars(1)] by blast
      moreover obtain loc2 where "end_structure \<lparr>ps_view = cbr # rest, ps_loc = loc1\<rparr> =
          Ok \<lparr>ps_view = after_ws rest, ps_loc = loc2\<rparr>"
        using end_structure_to [of "\<lparr>ps_view = cbr # rest, ps_loc = loc1\<rparr>" cbr rest] by auto
      ultimately show ?thesis using Nil assms(2) w(1) by (subst whole_eq) (simp add: structure_text_def)
    next
      case (Cons tx txs')
      obtain t x where tx: "tx = (t, x)" by fastforce
      let ?rest = "rest_text w2 w3 txs' rest"
      from Cons assms(1) tx have adds: "adds item t x []" "adds_all item txs' [x]" by simp_all
      have "after_ws (w1 @ t @ ?rest) = t @ ?rest"
        using after_ws_append [OF w(2)] adds(1) value_start_ws by (simp add: adds_def)
      moreover obtain c cs where c: "t = c # cs" "c \<noteq> cbr"
        using adds(1) bracket_chars(4) by (cases t) (auto simp: adds_def value_start_def)
      ultimately have "after_ws (w1 @ t @ ?rest) = c # cs @ ?rest" by simp
      then obtain loc1 where "begin_structure obr name content \<lparr>ps_view = obr # w1 @ t @ ?rest, ps_loc = loc\<rparr> =
          Ok \<lparr>ps_view = c # cs @ ?rest, ps_loc = loc1\<rparr>" by (rule begin_structure_to [OF _ bracket_chars(1)])
      then have beg: "begin_structure obr name content
          \<lparr>ps_view = obr # w1 @ t @ ?rest, ps_loc = loc\<rparr> = Ok \<lparr>ps_view = t @ ?rest, ps_loc = loc1\<rparr>"
        using c(1) by simp
      obtain state' where item: "item \<lparr>ps_view = t @ ?rest, ps_loc = loc1\<rparr> [] = Ok ([x], state')"
        "after_ws (ps_view state') = after_ws ?rest"
        using adds_reads [OF adds(1) rest_text_follows [OF w(5), of w2 txs' rest], of loc1] by auto
      obtain loc2 where "loop state' [x] = Ok (mk (x # map snd txs'), \<lparr>ps_view = after_ws rest, ps_loc = loc2\<rparr>)"
        using loop_reads [OF w(3-5) adds(2) item(2)] by auto
      with beg item(1) c Cons tx assms(2) w(1) show ?thesis
        by (subst whole_eq) (simp add: structure_text_def comp_def)
    qed
  qed
qed

end

interpretation arrays: json_structure "json_parse_impl_parse_array_value env" "array_loop env" "json_parse_impl_parse_array env"
  JsonArray "get_empty_json_array env" "0x5B" "0x5D" "''array''" "''value''" "''empty array: missing value or end-array''"
  "''invalid continuation of values in array''" for env
  by unfold_locales
    (simp_all add: json_parse_impl_is_ws_def array_loop.simps [symmetric] json_parse_impl_parse_array.simps [symmetric])

interpretation objects: json_structure "json_parse_impl_parse_object_member env" "object_loop env"
  "json_parse_impl_parse_object env" JsonObject "get_empty_json_object env" "0x7B" "0x7D" "''object''" "''member''"
  "''empty object: missing member or end-object''" "''invalid continuation of member in object''" for env
  by unfold_locales
    (simp_all add: json_parse_impl_is_ws_def object_loop.simps [symmetric] json_parse_impl_parse_object.simps [symmetric])

lemma value_start_text:
  assumes "json_printable env v"
  shows "value_start (json_text env ind v)"
proof (cases v)
  case (JsonNumber x)
  then obtain negative n d where "js_decimal env x = Some (negative, n, d)"
    using assms by (auto simp: number_printable_def split: option.splits)
  moreover obtain c cs where "print_nat n = c # cs" "48 \<le> c" "c \<le> 57" using print_nat_Cons by blast
  moreover from this(2,3) have "\<not> json_parse_impl_is_ws c" "c \<noteq> 0x5D" "c \<noteq> 0x7D"
    by (auto simp: json_parse_impl_is_ws_def)
  ultimately show ?thesis using JsonNumber by (auto simp: printf_f_def value_start_def json_parse_impl_is_ws_def)
qed (auto simp: value_start_def structure_text_def brackets_def string_text_def lit_def json_parse_impl_is_ws_def)

lemma array_value_adds:
  assumes "memory_law env" "json_printable env v"
    "\<And>rest. follows rest \<Longrightarrow> reads_ws (json_parse_impl_parse_value env) (json_text env ind v @ rest) w rest"
  shows "adds (json_parse_impl_parse_array_value env) (json_text env ind v) w acc"
  unfolding adds_def
proof (intro conjI allI impI)
  show start: "value_start (json_text env ind v)" using assms(2) by (rule value_start_text)
  fix rest assume "follows rest"
  from assms(3) [OF this] show "reads_ws (\<lambda>state. json_parse_impl_parse_array_value env state acc)
      (json_text env ind v @ rest) (acc @ [w]) rest"
    unfolding reads_ws_def
  proof (intro allI, goal_cases)
    case (1 loc)
    then obtain state' where "json_parse_impl_parse_value env \<lparr>ps_view = json_text env ind v @ rest, ps_loc = loc\<rparr> = Ok (w, state')"
      "after_ws (ps_view state') = after_ws rest" by blast
    moreover have "json_text env ind v \<noteq> []" using start by (auto simp: value_start_def)
    ultimately show ?case
      using assms(1)
      by (simp add: json_parse_impl_parse_array_value.simps add_or_fail_def json_array_add_entry_def memory_law_def)
  qed
qed

lemma member_name_reads:
  assumes "utf8_law env" "memory_law env" "string_printable env k" "value_start t"
  shows "\<exists>loc'. member_name env \<lparr>ps_view = string_text env k @ [0x3A, 0x20] @ t @ rest, ps_loc = loc\<rparr> =
    Ok (k, \<lparr>ps_view = t @ rest, ps_loc = loc'\<rparr>)"
proof -
  let ?rest = "0x3A # 0x20 # t @ rest"
  obtain loc1 where s: "json_parse_impl_parse_string env \<lparr>ps_view = string_text env k @ ?rest, ps_loc = loc\<rparr> =
      Ok (JsonString k, \<lparr>ps_view = ?rest, ps_loc = loc1\<rparr>)" by (rule readsE [OF string_reads [OF assms(1-3)]])
  have colon: "after_ws ?rest = ?rest" by (simp add: json_parse_impl_is_ws_def)
  then obtain loc2 where ws: "json_parse_impl_skip_ws \<lparr>ps_view = ?rest, ps_loc = loc1\<rparr> = Ok \<lparr>ps_view = ?rest, ps_loc = loc2\<rparr>"
    using skip_ws_at [of ?rest loc1] by auto
  obtain loc3 where skip: "json_parse_state_skip_by \<lparr>ps_view = ?rest, ps_loc = loc2\<rparr> (Suc 0) True =
      Ok \<lparr>ps_view = 0x20 # t @ rest, ps_loc = loc3\<rparr>" by (rule skip_one)
  have "after_ws (0x20 # t @ rest) = t @ rest"
    using value_start_ws [OF assms(4), of rest] by (simp add: json_parse_impl_is_ws_def)
  then obtain loc4 where "json_parse_impl_skip_ws \<lparr>ps_view = 0x20 # t @ rest, ps_loc = loc3\<rparr> =
      Ok \<lparr>ps_view = t @ rest, ps_loc = loc4\<rparr>"
    using skip_ws_at [of "0x20 # t @ rest" loc3] by auto
  moreover have "string_text env k \<noteq> []" by (simp add: string_text_def)
  ultimately show ?thesis using s ws skip by (simp add: member_name_def)
qed

lemma object_member_adds:
  assumes "utf8_law env" "memory_law env" "string_printable env k" "json_printable env v" "k \<notin> set (map fst acc)"
    "\<And>rest. follows rest \<Longrightarrow> reads_ws (json_parse_impl_parse_value env) (json_text env ind v @ rest) w rest"
  shows "adds (json_parse_impl_parse_object_member env) (string_text env k @ [0x3A, 0x20] @ json_text env ind v) (k, w) acc"
  unfolding adds_def
proof (intro conjI allI impI)
  show "value_start (string_text env k @ [0x3A, 0x20] @ json_text env ind v)"
    by (simp add: value_start_def string_text_def json_parse_impl_is_ws_def)
  fix rest assume "follows rest"
  note value_reads = assms(6) [OF this]
  show "reads_ws (\<lambda>state. json_parse_impl_parse_object_member env state acc)
      ((string_text env k @ [0x3A, 0x20] @ json_text env ind v) @ rest) (acc @ [(k, w)]) rest"
    unfolding reads_ws_def
  proof (intro allI)
    fix loc
    let ?rest = "json_text env ind v @ rest"
    obtain loc1 where name: "member_name env \<lparr>ps_view = string_text env k @ [0x3A, 0x20] @ ?rest, ps_loc = loc\<rparr> =
        Ok (k, \<lparr>ps_view = ?rest, ps_loc = loc1\<rparr>)"
      using member_name_reads [OF assms(1-3) value_start_text [OF assms(4)]] by blast
    obtain state' where "json_parse_impl_parse_value env \<lparr>ps_view = ?rest, ps_loc = loc1\<rparr> = Ok (w, state')"
      "after_ws (ps_view state') = after_ws rest" by (rule reads_wsE [OF value_reads])
    with name assms(2,5)
    show "\<exists>state'. json_parse_impl_parse_object_member env
        \<lparr>ps_view = (string_text env k @ [0x3A, 0x20] @ json_text env ind v) @ rest, ps_loc = loc\<rparr> acc =
        Ok (acc @ [(k, w)], state') \<and> after_ws (ps_view state') = after_ws rest"
      by (simp add: json_parse_impl_parse_object_member.simps add_or_fail_def json_object_add_entry_impl_def memory_law_def)
  qed
qed

section \<open>The round trip\<close>

lemma iteration_keys:
  assumes "order_law env" "distinct (map fst es)"
  shows "map fst (iteration env es) = js_order env (map fst es)"
proof -
  have "\<exists>v. map_of es k = Some v" if "k \<in> set (js_order env (map fst es))" for k
    using assms that by (auto simp: order_law_def map_of_eq_None_iff not_None_eq [symmetric])
  then have "map fst (List.map_filter (\<lambda>k. map_option (Pair k) (map_of es k)) ks) = ks"
    if "set ks \<subseteq> set (js_order env (map fst es))" for ks
    using that by (induction ks) (fastforce simp: map_filter_def)+
  then show ?thesis by (simp add: iteration_def)
qed

lemma iteration_distinct: "order_law env \<Longrightarrow> distinct (map fst es) \<Longrightarrow> distinct (map fst (iteration env es))"
  by (simp add: iteration_keys order_law_def)

lemma array_adds_all:
  assumes "memory_law env"
    "\<And>v rest. v \<in> set vs \<Longrightarrow> follows rest \<Longrightarrow>
      reads_ws (json_parse_impl_parse_value env) (json_text env ind v @ rest) (json_arranged env v) rest"
    "\<And>v. v \<in> set vs \<Longrightarrow> json_printable env v"
  shows "adds_all (json_parse_impl_parse_array_value env) (map (\<lambda>v. (json_text env ind v, json_arranged env v)) vs) acc"
  using assms(2,3)
proof (induction vs arbitrary: acc)
  case (Cons v vs)
  then show ?case using array_value_adds [OF assms(1), of v ind "json_arranged env v"] by simp
qed simp

abbreviation member_text :: "'f json_env \<Rightarrow> nat \<Rightarrow> codepoints \<times> 'f JsonValue \<Rightarrow> bytes" where
  "member_text env ind e \<equiv> string_text env (fst e) @ [0x3A, 0x20] @ json_text env ind (snd e)"

lemma object_adds_all:
  assumes "utf8_law env" "memory_law env"
    "\<And>e rest. e \<in> set es \<Longrightarrow> follows rest \<Longrightarrow>
      reads_ws (json_parse_impl_parse_value env) (json_text env ind (snd e) @ rest) (json_arranged env (snd e)) rest"
    "\<And>e. e \<in> set es \<Longrightarrow> string_printable env (fst e) \<and> json_printable env (snd e)"
    "distinct (map fst acc @ map fst es)"
  shows "adds_all (json_parse_impl_parse_object_member env)
    (map (\<lambda>e. (member_text env ind e, (fst e, json_arranged env (snd e)))) es) acc"
  using assms(3-5)
proof (induction es arbitrary: acc)
  case (Cons e es)
  have "adds (json_parse_impl_parse_object_member env) (member_text env ind e) (fst e, json_arranged env (snd e)) acc"
    using Cons.prems by (intro object_member_adds [OF assms(1,2)]) auto
  moreover have "adds_all (json_parse_impl_parse_object_member env)
      (map (\<lambda>e. (member_text env ind e, (fst e, json_arranged env (snd e)))) es) (acc @ [(fst e, json_arranged env (snd e))])"
    using Cons.prems by (intro Cons.IH) auto
  ultimately show ?case by simp
qed simp

lemma value_dispatch:
  "json_parse_impl_parse_value env \<lparr>ps_view = 0x7B # bs, ps_loc = loc\<rparr> = json_parse_impl_parse_object env \<lparr>ps_view = 0x7B # bs, ps_loc = loc\<rparr>"
  "json_parse_impl_parse_value env \<lparr>ps_view = 0x5B # bs, ps_loc = loc\<rparr> = json_parse_impl_parse_array env \<lparr>ps_view = 0x5B # bs, ps_loc = loc\<rparr>"
  "json_parse_impl_parse_value env \<lparr>ps_view = 0x22 # bs, ps_loc = loc\<rparr> = json_parse_impl_parse_string env \<lparr>ps_view = 0x22 # bs, ps_loc = loc\<rparr>"
  "c = 0x2D \<or> 0x30 \<le> c \<and> c \<le> 0x39 \<Longrightarrow>
   json_parse_impl_parse_value env \<lparr>ps_view = c # bs, ps_loc = loc\<rparr> = json_parse_impl_parse_number env \<lparr>ps_view = c # bs, ps_loc = loc\<rparr>"
  by (auto simp: json_parse_impl_parse_value.simps)

lemma number_text_start:
  assumes "number_printable env x"
  shows "\<exists>c cs. printf_f env x = c # cs \<and> (c = 0x2D \<or> 0x30 \<le> c \<and> c \<le> 0x39)"
proof -
  obtain negative n d where "js_decimal env x = Some (negative, n, d)"
    using assms by (auto simp: number_printable_def split: option.splits)
  moreover obtain c cs where "print_nat n = c # cs" "48 \<le> c" "c \<le> 57" using print_nat_Cons by blast
  ultimately show ?thesis by (simp add: printf_f_def)
qed

lemma structure_text_start: "\<exists>t. structure_text ind obr cbr xs = obr # t"
  by (simp add: structure_text_def brackets_def)

lemma literal_reads:
  "reads (json_parse_impl_parse_value env) (lit ''true'' @ rest) (JsonBoolean True) rest"
  "reads (json_parse_impl_parse_value env) (lit ''false'' @ rest) (JsonBoolean False) rest"
  "reads (json_parse_impl_parse_value env) (lit ''null'' @ rest) JsonNull rest"
proof -
  have skip: "\<exists>loc'. json_parse_state_skip_by \<lparr>ps_view = w @ rest, ps_loc = loc\<rparr> n True =
      Ok \<lparr>ps_view = rest, ps_loc = loc'\<rparr>" if "n = length w" for w loc n
    using skip_by_Ok [of "length w" "\<lparr>ps_view = w @ rest, ps_loc = loc\<rparr>" True] that by simp
  show "reads (json_parse_impl_parse_value env) (lit ''true'' @ rest) (JsonBoolean True) rest"
    "reads (json_parse_impl_parse_value env) (lit ''false'' @ rest) (JsonBoolean False) rest"
    "reads (json_parse_impl_parse_value env) (lit ''null'' @ rest) JsonNull rest"
    using skip [of 4 "lit ''true''"] skip [of 5 "lit ''false''"] skip [of 4 "lit ''null''"]
    by (auto intro!: readsI simp: json_parse_impl_parse_value.simps json_parse_impl_parse_boolean_def
        json_parse_impl_parse_null_def starts_with_def lit_def rbind_Ok_iff)
qed

lemma value_reads:
  assumes "utf8_law env" "memory_law env" "order_law env" "json_printable env v" "follows rest"
  shows "reads_ws (json_parse_impl_parse_value env) (json_text env ind v @ rest) (json_arranged env v) rest"
  using assms
proof (induction env ind v arbitrary: rest rule: json_text.induct)
  case (1 env ind es)
  have mem: "string_printable env (fst e) \<and> json_printable env (snd e)" if "e \<in> set (iteration env es)" for e
    using "1.prems"(4) that by (auto simp: list_all_iff dest!: iteration_member [of "fst e" "snd e", simplified])
  have "adds_all (json_parse_impl_parse_object_member env)
      (map (\<lambda>e. (member_text env ind e, (fst e, json_arranged env (snd e)))) (iteration env es)) []"
    using "1.IH" "1.prems" mem iteration_distinct [OF "1.prems"(3), of es]
    by (intro object_adds_all [OF "1.prems"(1,2)]) auto
  from objects.whole_reads [OF this, of ind rest] "1.prems"(2)
  have "reads_ws (json_parse_impl_parse_object env) (json_text env ind (JsonObject es) @ rest)
      (json_arranged env (JsonObject es)) rest"
    by (simp add: get_empty_json_object_def memory_law_def comp_def)
  moreover obtain t where "json_text env ind (JsonObject es) = 0x7B # t"
    unfolding json_text.simps using structure_text_start by blast
  ultimately show ?case by (simp only: reads_ws_def append_Cons value_dispatch(1) simp_thms)
next
  case (2 env ind vs)
  have "adds_all (json_parse_impl_parse_array_value env) (map (\<lambda>v. (json_text env ind v, json_arranged env v)) vs) []"
    using "2.IH" "2.prems" by (intro array_adds_all) (auto simp: list_all_iff)
  from arrays.whole_reads [OF this, of ind rest] "2.prems"(2)
  have "reads_ws (json_parse_impl_parse_array env) (json_text env ind (JsonArray vs) @ rest)
      (json_arranged env (JsonArray vs)) rest"
    by (simp add: get_empty_json_array_def memory_law_def comp_def)
  moreover obtain t where "json_text env ind (JsonArray vs) = 0x5B # t"
    unfolding json_text.simps using structure_text_start by blast
  ultimately show ?case by (simp only: reads_ws_def append_Cons value_dispatch(2) simp_thms)
next
  case (3 env ind x)
  then obtain c cs where "printf_f env x = c # cs" "c = 0x2D \<or> 0x30 \<le> c \<and> c \<le> 0x39"
    using number_text_start [of env x] by auto
  with 3 reads_imp_ws [OF number_reads [of env x rest]] value_dispatch(4) [of c env] show ?case
    by (simp add: reads_ws_def)
next
  case (4 env ind cs)
  with reads_imp_ws [OF string_reads [of env cs rest]] show ?case
    by (simp add: reads_ws_def string_text_def value_dispatch(3))
qed (auto intro!: reads_imp_ws literal_reads)

lemma parse_text:
  assumes "utf8_law env" "memory_law env" "order_law env" "json_printable env v"
  shows "json_value_parse_from_str env (json_text env ind v) = Ok (json_arranged env v)"
proof -
  let ?source = "JsonSourceString (Some (json_text env ind v))"
  have "follows []" by (simp add: follows_def)
  note value_reads = value_reads [OF assms this, of ind, unfolded append_Nil2]
  obtain loc1 where ws1: "json_parse_impl_skip_ws \<lparr>ps_view = json_text env ind v,
      ps_loc = \<lparr>sl_source = ?source, sl_pos = \<lparr>sp_line = 0, sp_col = 0\<rparr>\<rparr>\<rparr> = Ok \<lparr>ps_view = json_text env ind v, ps_loc = loc1\<rparr>"
    using skip_ws_at [of "json_text env ind v"] value_start_ws [OF value_start_text [OF assms(4)], of ind "[]"]
    by (metis append_Nil2)
  obtain state2 where v: "json_parse_impl_parse_value env \<lparr>ps_view = json_text env ind v, ps_loc = loc1\<rparr> =
      Ok (json_arranged env v, state2)" "after_ws (ps_view state2) = []"
    using reads_wsE [OF value_reads, of loc1] by auto
  then obtain loc3 where "json_parse_impl_skip_ws state2 = Ok \<lparr>ps_view = [], ps_loc = loc3\<rparr>"
    using skip_ws_Ok [of state2] by auto
  with ws1 v(1) show ?thesis by (simp add: json_value_parse_from_str_def json_value_parse_from_str_impl_def)
qed

lemma print_text:
  assumes "utf8_law env" "memory_law env" "json_printable env v" "length (json_text env ind v) < 2 ^ 31 - 1"
  shows "json_value_to_string_advanced env v ind = Ok (Some (json_text env ind v))"
proof -
  have holds: "builder_holds (string_builder_init (js_alloc env)) []"
    using assms(2) by (intro builder_init_holds) (simp add: memory_law_def)
  then obtain sb where "json_to_string_variant_impl env ind (string_builder_init (js_alloc env)) v = Ok sb"
      "builder_holds sb (json_text env ind v)"
    using variant_appends [OF assms(1-3), of ind] assms(4) unfolding appends_def by fastforce
  moreover obtain b where "string_builder_init (js_alloc env) = Some b" using holds by (auto simp: builder_holds_def)
  moreover have "json_text env ind v \<noteq> []" using value_start_text [OF assms(3), of ind] by (auto simp: value_start_def)
  ultimately show ?thesis by (simp add: json_value_to_string_advanced_def builder.release_law)
qed

end
