(* ===== verification/Json_Properties.thy ===== *)
theory Json_Properties
  imports Json_Roundtrip
begin

text \<open>
  The properties of the JSON component: the round trip, the safety of the parser, the type of the values it
  returns, and where parser and printer fail. They are shown at an instance of the libraries, with the
  UTF-8 encoding and integers as numbers.
\<close>

section \<open>An instance of the libraries\<close>

definition utf8_byte :: "int \<Rightarrow> u8" where
  "utf8_byte x = word_of_int x"

definition utf8_encode_sample :: "int \<Rightarrow> bytes option" where
  "utf8_encode_sample c =
     (if c < 0 then None
      else if c < 0x80 then Some [utf8_byte c]
      else if c < 0x800 then Some [utf8_byte (0xC0 + c div 64), utf8_byte (0x80 + c mod 64)]
      else if c < 0x10000 then
        Some [utf8_byte (0xE0 + c div 64 div 64), utf8_byte (0x80 + c div 64 mod 64), utf8_byte (0x80 + c mod 64)]
      else if c < 0x110000 then
        Some [utf8_byte (0xF0 + c div 64 div 64 div 64), utf8_byte (0x80 + c div 64 div 64 mod 64),
              utf8_byte (0x80 + c div 64 mod 64), utf8_byte (0x80 + c mod 64)]
      else None)"

fun utf8_continue :: "nat \<Rightarrow> nat \<Rightarrow> int \<Rightarrow> bytes \<Rightarrow> bytes + nat \<times> int" where
  "utf8_continue taken 0 v bs = Inr (taken, v)"
| "utf8_continue taken (Suc n) v [] = Inl []"
| "utf8_continue taken (Suc n) v (b # bs) = utf8_continue (Suc taken) n (v * 64 + (uint b - 0x80)) bs"

fun utf8_decode_sample :: "bytes \<Rightarrow> bytes + nat \<times> int" where
  "utf8_decode_sample [] = Inl []"
| "utf8_decode_sample (b # bs) =
     (if uint b < 0x80 then Inr (1, uint b)
      else if uint b < 0xE0 then utf8_continue 1 1 (uint b - 0xC0) bs
      else if uint b < 0xF0 then utf8_continue 1 2 (uint b - 0xE0) bs
      else utf8_continue 1 3 (uint b - 0xF0) bs)"

definition sample_json :: "int json_env" where
  "sample_json =
     \<lparr>js_alloc = (\<lambda>_. True), js_push = (\<lambda>_. True), js_insert = (\<lambda>_. True), js_order = rev,
      js_read_file = (\<lambda>_. None), utf8proc_iterate = utf8_decode_sample, utf8proc_encode_char = utf8_encode_sample,
      utf8proc_is_control = (\<lambda>c. 0 \<le> c \<and> c < 0x20 \<or> 0x7F \<le> c \<and> c < 0xA0),
      js_of_int = id, js_add = (+), js_sub = (-), js_mul = (*), js_div = (div), js_neg = uminus,
      js_pow = (\<lambda>a b. a ^ nat b), js_decimal = (\<lambda>x. Some (x < 0, nat \<bar>x\<bar>, 0)), js_nonfinite = (\<lambda>_. []),
      js_empty_null = True, js_ndebug = False\<rparr>"

lemma uint_byte: "0 \<le> x \<Longrightarrow> x < 256 \<Longrightarrow> uint (utf8_byte x) = x"
  by (simp add: utf8_byte_def unsigned_of_int take_bit_int_eq_self)

lemma byte_nonzero: "0 < x \<Longrightarrow> x < 256 \<Longrightarrow> utf8_byte x \<noteq> 0"
  using uint_byte [of x] by auto

lemma sample_encode_cases:
  assumes "0 \<le> c" "c \<le> 0x10FFFF"
  obtains "c < 0x80" "utf8_encode_sample c = Some [utf8_byte c]"
  | a b where "utf8_encode_sample c = Some [utf8_byte (0xC0 + a), utf8_byte (0x80 + b)]"
      "a * 64 + b = c" "0 \<le> a" "a < 32" "0 \<le> b" "b < 64"
  | a b d where "utf8_encode_sample c = Some [utf8_byte (0xE0 + a), utf8_byte (0x80 + b), utf8_byte (0x80 + d)]"
      "(a * 64 + b) * 64 + d = c" "0 \<le> a" "a < 16" "0 \<le> b" "b < 64" "0 \<le> d" "d < 64"
  | a b d e where "utf8_encode_sample c =
        Some [utf8_byte (0xF0 + a), utf8_byte (0x80 + b), utf8_byte (0x80 + d), utf8_byte (0x80 + e)]"
      "((a * 64 + b) * 64 + d) * 64 + e = c" "0 \<le> a" "a < 8" "0 \<le> b" "b < 64" "0 \<le> d" "d < 64" "0 \<le> e" "e < 64"
proof -
  consider (1) "c < 0x80" | (2) "0x80 \<le> c" "c < 0x800" | (3) "0x800 \<le> c" "c < 0x10000" | (4) "0x10000 \<le> c"
    by linarith
  then show thesis
  proof cases
    case 1
    with assms that(1) show ?thesis by (simp add: utf8_encode_sample_def)
  next
    case 2
    with that(2) [of "c div 64" "c mod 64"] show ?thesis by (simp add: utf8_encode_sample_def div_less_iff_less_mult)
  next
    case 3
    with that(3) [of "c div 64 div 64" "c div 64 mod 64" "c mod 64"] show ?thesis
      by (simp add: utf8_encode_sample_def div_less_iff_less_mult)
  next
    case 4
    with assms that(4) [of "c div 64 div 64 div 64" "c div 64 div 64 mod 64" "c div 64 mod 64" "c mod 64"] show ?thesis
      by (simp add: utf8_encode_sample_def div_less_iff_less_mult)
  qed
qed

lemma sample_utf8:
  assumes "0 \<le> c" "c \<le> 0x10FFFF"
  shows "\<exists>bs. utf8_encode_sample c = Some bs \<and> bs \<noteq> [] \<and> length bs \<le> 4 \<and> (c \<noteq> 0 \<longrightarrow> 0 \<notin> set bs) \<and>
    (\<forall>rest. utf8_decode_sample (bs @ rest) = Inr (length bs, c))"
  using assms
proof (cases rule: sample_encode_cases)
  case 1
  with assms byte_nonzero [of c] show ?thesis by (auto simp: uint_byte)
next
  case (2 a b)
  with byte_nonzero [of "0xC0 + a"] byte_nonzero [of "0x80 + b"] show ?thesis by (auto simp: uint_byte)
next
  case (3 a b d)
  with byte_nonzero [of "0xE0 + a"] byte_nonzero [of "0x80 + b"] byte_nonzero [of "0x80 + d"] show ?thesis
    by (auto simp: uint_byte numeral_2_eq_2)
next
  case (4 a b d e)
  with byte_nonzero [of "0xF0 + a"] byte_nonzero [of "0x80 + b"] byte_nonzero [of "0x80 + d"] byte_nonzero [of "0x80 + e"]
  show ?thesis by (auto simp: uint_byte numeral_3_eq_3)
qed

lemma sample_select [simp]:
  "js_alloc sample_json = (\<lambda>_. True)" "js_push sample_json = (\<lambda>_. True)" "js_insert sample_json = (\<lambda>_. True)"
  "js_order sample_json = rev" "utf8proc_iterate sample_json = utf8_decode_sample"
  "utf8proc_encode_char sample_json = utf8_encode_sample" "js_empty_null sample_json" "\<not> js_ndebug sample_json"
  "utf8proc_is_control sample_json c \<longleftrightarrow> 0 \<le> c \<and> c < 0x20 \<or> 0x7F \<le> c \<and> c < 0xA0"
  "js_decimal sample_json x = Some (x < 0, nat \<bar>x\<bar>, 0)"
  "js_of_int sample_json x = x" "js_add sample_json x y = x + y" "js_sub sample_json x y = x - y"
  "js_mul sample_json x y = x * y" "js_div sample_json x y = x div y" "js_neg sample_json x = - x"
  by (simp_all add: sample_json_def)

lemma sample_laws: "utf8_law sample_json" "memory_law sample_json" "order_law sample_json"
proof -
  have "\<forall>c. 0 \<le> c \<and> c < 0x80 \<longrightarrow> utf8_encode_sample c = Some [word_of_int c]"
    by (simp add: utf8_encode_sample_def utf8_byte_def)
  with sample_utf8 show "utf8_law sample_json" unfolding utf8_law_def sample_select by simp
qed (simp_all add: memory_law_def order_law_def)

lemma continue_taken: "utf8_continue taken n v bs = Inr (m, c) \<Longrightarrow> m \<le> taken + length bs"
proof (induction taken n v bs rule: utf8_continue.induct)
  case (3 taken n v b bs)
  then show ?case by fastforce
qed auto

lemma sample_iterate_law: "iterate_law sample_json"
  unfolding iterate_law_def sample_select
proof (intro allI impI)
  fix bs n c
  show "utf8_decode_sample bs = Inr (n, c) \<Longrightarrow> n \<le> length bs"
    by (cases bs) (auto dest!: continue_taken split: if_splits)
qed



definition sample_value :: "int JsonValue" where
  "sample_value = JsonObject [([0x61], JsonArray [JsonNumber (- 12), JsonString [0x22, 0x0A, 0xE9, 0x20AC], JsonBoolean True]),
     ([0x62, 0x63], JsonNull)]"

lemma sample_printable: "json_printable sample_json sample_value"
  by (simp add: sample_value_def string_printable_def char_printable_def number_printable_def)

lemma sample_length: "length (json_text sample_json 2 sample_value) < 1000"
proof -
  have "print_nat 12 = [49, 50]" by (simp add: print_nat.simps [of 12] print_nat.simps [of "Suc 0"])
  then show ?thesis
    by (simp add: sample_value_def structure_text_def brackets_def iteration_def map_filter_def string_text_def
        char_text_def escaped_char_def json_impl_needs_escaping_def json_impl_escape_char_into_def
        utf8_encode_sample_def printf_f_def six_digits_def lit_def)
qed


section \<open>Safety\<close>


section \<open>The type of parsed values\<close>

lemmas parse_induct =
  json_parse_impl_parse_value_json_parse_impl_parse_object_member_object_loop_json_parse_impl_parse_object_json_parse_impl_parse_array_value_array_loop_json_parse_impl_parse_array.induct

text \<open>Parsed values: the keys of an object are distinct, characters are Unicode code points.\<close>

definition codepoint_ok :: "Utf8Codepoint \<Rightarrow> bool" where
  "codepoint_ok c \<longleftrightarrow> 0 \<le> c \<and> c \<le> 0x10FFFF"

fun json_wf :: "'f JsonValue \<Rightarrow> bool" where
  "json_wf (JsonObject es) \<longleftrightarrow>
     distinct (map fst es) \<and> list_all (\<lambda>e. list_all codepoint_ok (fst e) \<and> json_wf (snd e)) es"
| "json_wf (JsonArray vs) \<longleftrightarrow> list_all json_wf vs"
| "json_wf (JsonString cs) \<longleftrightarrow> list_all codepoint_ok cs"
| "json_wf v \<longleftrightarrow> True"

abbreviation returns :: "('a \<Rightarrow> bool) \<Rightarrow> ('e, 'a \<times> JsonParseState) res \<Rightarrow> bool" where
  "returns P \<equiv> outcome (\<lambda>x. P (fst x)) (\<lambda>_. True)"

lemma returns_bind: "(\<And>x. m = Ok x \<Longrightarrow> returns P (f x)) \<Longrightarrow> returns P (rbind m f)"
  by (cases m) simp_all

lemma returns_if: "(b \<Longrightarrow> returns P x) \<Longrightarrow> (\<not> b \<Longrightarrow> returns P y) \<Longrightarrow> returns P (if b then x else y)"
  by simp

lemma returns_prod: "(\<And>a b. x = (a, b) \<Longrightarrow> returns P (f a b)) \<Longrightarrow> returns P (case x of (a, b) \<Rightarrow> f a b)"
  by (cases x) simp

lemma returnsD: "returns P m \<Longrightarrow> m = Ok (x, s) \<Longrightarrow> P x"
  by auto

lemma hex_digit_range: "hex_digit v = Some n \<Longrightarrow> 0 \<le> n \<and> n < 16"
proof -
  have "list_all (\<lambda>x. case hex_digit (word_of_int x) of None \<Rightarrow> True | Some n \<Rightarrow> 0 \<le> n \<and> n < 16) [0..255]" by code_simp
  then have "case hex_digit (word_of_int (uint v)) of None \<Rightarrow> True | Some n \<Rightarrow> 0 \<le> n \<and> n < 16"
    unfolding list_all_iff set_upto using uint_lt2p [of v] by (elim bspec) simp
  then show "hex_digit v = Some n \<Longrightarrow> 0 \<le> n \<and> n < 16" by simp
qed

lemma unicode_escape_range:
  "unicode_escape_loop state i n composed = Ok c \<Longrightarrow> 0 \<le> composed \<Longrightarrow> composed < 16 ^ k \<Longrightarrow> 0 \<le> c \<and> c < 16 ^ (k + n)"
proof (induction n arbitrary: i composed k)
  case (Suc n)
  then obtain v num where v: "hex_digit v = Some num" "unicode_escape_loop state (i + 1) n (composed * 16 + num) = Ok c"
    by (auto simp: rbind_Ok_iff split: option.splits)
  have "0 \<le> composed * 16 + num" "composed * 16 + num < 16 ^ Suc k"
    using hex_digit_range [OF v(1)] Suc.prems(2,3) by auto
  from Suc.IH [OF v(2) this] show ?case by simp
qed simp

lemma escape_range: "returns codepoint_ok (escape_logic state)"
proof -
  have "codepoint_ok c" if "unicode_escape_loop s 0 4 0 = Ok c" for s c
    using unicode_escape_range [OF that, of 0] by (simp add: codepoint_ok_def)
  then show ?thesis
    unfolding escape_logic_def
    by (intro returns_if returns_bind returns_prod) (auto simp: codepoint_ok_def)
qed

lemma string_char_range: "returns (pred_option codepoint_ok) (string_char env state)"
  unfolding string_char_def
  by (intro returns_if returns_bind returns_prod) (auto simp: codepoint_ok_def dest!: returnsD [OF escape_range])

abbreviation wf_string :: "'f JsonValue \<Rightarrow> bool" where
  "wf_string v \<equiv> (\<exists>cs. v = JsonString cs \<and> list_all codepoint_ok cs)"

lemma string_loop_wf: "list_all codepoint_ok cs \<Longrightarrow> returns wf_string (string_loop env state cs)"
proof (induction env state cs rule: string_loop.induct)
  case (1 env state cs)
  have step: "returns wf_string (string_loop env s (cs @ [c]))"
    if "string_char env state = Ok (Some c, s)" "js_push env (length cs)" for c s
    using "1.IH" [OF that(1) refl refl, of "cs @ [c]"] "1.prems" that returnsD [OF string_char_range that(1)]
    by (simp add: json_string_add_char_impl_def)
  show ?case
    by (subst string_loop.simps)
      (auto intro!: returns_bind step simp: json_string_add_char_impl_def "1.prems" split: option.splits if_splits)
qed

lemma parse_string_wf: "returns wf_string (json_parse_impl_parse_string env state)"
  unfolding json_parse_impl_parse_string_def
  by (auto intro!: returns_if returns_bind string_loop_wf)

lemma member_name_wf: "returns (list_all codepoint_ok) (member_name env state)"
  unfolding member_name_def
  by (auto intro!: returns_if returns_bind dest!: returnsD [OF parse_string_wf])

lemma literal_wf:
  "returns json_wf (json_parse_impl_parse_boolean state)" "returns json_wf (json_parse_impl_parse_null state)"
  "returns json_wf (json_parse_impl_parse_number env state)"
  unfolding json_parse_impl_parse_boolean_def json_parse_impl_parse_null_def json_parse_impl_parse_number_def
    number_after_frac_def number_after_exp_def
  by (auto intro!: returns_if returns_bind returns_prod simp: signed_number_def Let_def)

lemma add_entry_wf:
  "json_wf (JsonObject ob) \<Longrightarrow> list_all codepoint_ok k \<Longrightarrow> json_wf v \<Longrightarrow>
   returns (\<lambda>ob'. json_wf (JsonObject ob')) (add_or_fail state (json_object_add_entry_impl env ob k v))"
  "json_wf (JsonArray ar) \<Longrightarrow> json_wf v \<Longrightarrow>
   returns (\<lambda>ar'. json_wf (JsonArray ar')) (add_or_fail state (json_array_add_entry env ar v))"
  by (auto simp: add_or_fail_def json_object_add_entry_impl_def json_array_add_entry_def)

lemma parse_value_wf:
  fixes env :: "'f json_env"
  shows "returns json_wf (json_parse_impl_parse_value env state)"
    "json_wf (JsonObject ob1) \<Longrightarrow> returns (\<lambda>ob. json_wf (JsonObject ob)) (json_parse_impl_parse_object_member env state1 ob1)"
    "json_wf (JsonObject ob2) \<Longrightarrow> returns json_wf (object_loop env state2 ob2)"
    "returns json_wf (json_parse_impl_parse_object env state3)"
    "json_wf (JsonArray ar4) \<Longrightarrow> returns (\<lambda>ar. json_wf (JsonArray ar)) (json_parse_impl_parse_array_value env state4 ar4)"
    "json_wf (JsonArray ar5) \<Longrightarrow> returns json_wf (array_loop env state5 ar5)"
    "returns json_wf (json_parse_impl_parse_array env state6)"
proof (induction env state and env state1 ob1 and env state2 ob2 and env state3 and env state4 ar4 and env state5 ar5
    and env state6 rule: parse_induct)
  case (1 env state)
  have "returns json_wf (json_parse_impl_parse_string env state)"
    using parse_string_wf [of env state] by (auto simp: outcome_def split: res.splits)
  with 1 show ?case
    by (subst json_parse_impl_parse_value.simps) (auto intro!: returns_if returns_bind literal_wf)
next
  case (2 env state json_object)
  have "returns (\<lambda>ob. json_wf (JsonObject ob)) (add_or_fail s2 (json_object_add_entry_impl env json_object k v))"
    if k: "member_name env state = Ok (k, s1)" and v: "json_parse_impl_parse_value env s1 = Ok (v, s2)" for k s1 v s2
    using returnsD [OF member_name_wf k] returnsD [OF "2.IH" [OF k refl] v] "2.prems" by (intro add_entry_wf)
  then show ?case
    by (subst json_parse_impl_parse_object_member.simps) (auto intro!: returns_bind simp del: json_wf.simps(1))
next
  case (3 env state json_object)
  then show ?case
    by (subst object_loop.simps)
      (fastforce intro!: returns_bind dest: returnsD split: after_element.splits simp del: json_wf.simps(1))
next
  case (4 env state)
  have "json_wf (JsonObject [])" by simp
  with 4 show ?case
    by (subst json_parse_impl_parse_object.simps)
      (fastforce intro!: returns_bind returns_if dest: returnsD split: option.splits simp: get_empty_json_object_def
        simp del: json_wf.simps(1))
next
  case (5 env state json_array)
  then show ?case
    by (subst json_parse_impl_parse_array_value.simps)
      (auto intro!: returns_bind returns_if add_entry_wf dest: returnsD simp del: json_wf.simps(2))
next
  case (6 env state json_array)
  then show ?case
    by (subst array_loop.simps)
      (fastforce intro!: returns_bind dest: returnsD split: after_element.splits simp del: json_wf.simps(2))
next
  case (7 env state)
  have "json_wf (JsonArray [])" by simp
  with 7 show ?case
    by (subst json_parse_impl_parse_array.simps)
      (fastforce intro!: returns_bind returns_if dest: returnsD split: option.splits simp: get_empty_json_array_def
        simp del: json_wf.simps(2))
qed

text \<open>
  C28. Every value the JSON parser returns has the keys of its objects distinct, and only code points between 0 and
  10FFFF in its strings and keys.
\<close>

theorem json_parse_wellformed:
  assumes "json_value_parse_from_str env data = Ok v"
  shows "json_wf v"
  using assms parse_value_wf(1) [of env]
  by (auto simp: json_value_parse_from_str_def json_value_parse_from_str_impl_def rbind_Ok_iff split: if_splits dest: returnsD)

section \<open>Where parser and printer fail\<close>

lemma parse_five:
  assumes "after_ws rest = rest" "not_digit rest"
  shows "reads json_parse_impl_parse_number_exp_part (0x65 # 0x35 # rest) 5 rest"
proof (rule readsI)
  fix loc
  obtain loc1 where "json_parse_state_skip_by \<lparr>ps_view = 0x65 # 0x35 # rest, ps_loc = loc\<rparr> (Suc 0) True =
      Ok \<lparr>ps_view = 0x35 # rest, ps_loc = loc1\<rparr>" by (rule skip_one)
  moreover obtain loc2 where "json_parse_state_skip_by \<lparr>ps_view = 0x35 # rest, ps_loc = loc1\<rparr> (Suc 0) True =
      Ok \<lparr>ps_view = rest, ps_loc = loc2\<rparr>" by (rule skip_one)
  moreover have "exp_digits_loop \<lparr>ps_view = rest, ps_loc = loc2\<rparr> 5 = Ok (5, \<lparr>ps_view = rest, ps_loc = loc2\<rparr>)"
    using assms(2) by (subst exp_digits_loop.simps, cases rest) (auto simp: not_digit_def)
  ultimately show "\<exists>loc'. json_parse_impl_parse_number_exp_part \<lparr>ps_view = 0x65 # 0x35 # rest, ps_loc = loc\<rparr> =
      Ok (5, \<lparr>ps_view = rest, ps_loc = loc'\<rparr>)"
    by (simp add: json_parse_impl_parse_number_exp_part_def exp_sign_def is_digit_def)
qed

lemma parse_one_exp:
  assumes "memory_law env"
  shows "json_parse_impl_parse_value env \<lparr>ps_view = [0x31, 0x65, 0x35, 0x5D], ps_loc = loc\<rparr> =
      Undef AssertFailed \<and> \<not> js_ndebug env \<or>
    js_ndebug env \<and> (\<exists>loc'. json_parse_impl_parse_value env \<lparr>ps_view = [0x31, 0x65, 0x35, 0x5D], ps_loc = loc\<rparr> =
      Ok (JsonNumber (json_number_make_value_int_exp env (js_of_int env 1) 5), \<lparr>ps_view = [0x5D], ps_loc = loc'\<rparr>))"
proof -
  have "print_nat 1 = [0x31]" by (simp add: print_nat.simps [of "Suc 0"])
  then obtain loc1 where i: "json_parse_impl_parse_number_int_part env \<lparr>ps_view = [0x31, 0x65, 0x35, 0x5D], ps_loc = loc\<rparr> =
      Ok (js_of_int env 1, \<lparr>ps_view = [0x65, 0x35, 0x5D], ps_loc = loc1\<rparr>)"
    using readsE [OF int_part_reads [of 1 "[0x65, 0x35, 0x5D]" env], of loc]
    by (auto simp: not_digit_def is_digit_def)
  obtain loc2 where e: "json_parse_impl_parse_number_exp_part \<lparr>ps_view = [0x65, 0x35, 0x5D], ps_loc = loc1\<rparr> =
      Ok (5, \<lparr>ps_view = [0x5D], ps_loc = loc2\<rparr>)"
    using readsE [OF parse_five [of "[0x5D]"], of loc1] by (auto simp: not_digit_def is_digit_def json_parse_impl_is_ws_def)
  show ?thesis
    using i e by (simp add: value_dispatch(4) parse_number_sign number_unsigned_def number_after_exp_def signed_number_def)
qed

lemma exponent_asserts:
  assumes "memory_law env"
  shows "json_value_parse_from_str env (lit ''[1e5]'') =
    (if js_ndebug env then Ok (JsonArray [JsonNumber (json_number_make_value_int_exp env (js_of_int env 1) 5)])
     else Undef AssertFailed)"
proof -
  let ?source = "JsonSourceString (Some (lit ''[1e5]''))"
  let ?n = "JsonNumber (json_number_make_value_int_exp env (js_of_int env 1) 5)"
  have text_eq: "lit ''[1e5]'' = [0x5B, 0x31, 0x65, 0x35, 0x5D]" by (simp add: lit_def)
  obtain loc1 where ws1: "json_parse_impl_skip_ws \<lparr>ps_view = [0x5B, 0x31, 0x65, 0x35, 0x5D],
      ps_loc = \<lparr>sl_source = ?source, sl_pos = \<lparr>sp_line = 0, sp_col = 0\<rparr>\<rparr>\<rparr> =
      Ok \<lparr>ps_view = [0x5B, 0x31, 0x65, 0x35, 0x5D], ps_loc = loc1\<rparr>"
    using skip_ws_at [of "[0x5B, 0x31, 0x65, 0x35, 0x5D]"] by (auto simp: json_parse_impl_is_ws_def)
  obtain loc2 where beg: "begin_structure 0x5B ''array'' ''value'' \<lparr>ps_view = [0x5B, 0x31, 0x65, 0x35, 0x5D], ps_loc = loc1\<rparr> =
      Ok \<lparr>ps_view = [0x31, 0x65, 0x35, 0x5D], ps_loc = loc2\<rparr>"
    by (rule begin_structure_to [of "[0x31, 0x65, 0x35, 0x5D]" "0x31" "[0x65, 0x35, 0x5D]" "0x5B" "''array''" "''value''" loc1])
      (simp_all add: json_parse_impl_is_ws_def)
  note split_case = parse_one_exp [OF assms, of loc2]
  have close: "\<exists>loc'. array_loop env \<lparr>ps_view = [0x5D], ps_loc = loc\<rparr> [?n] = Ok (JsonArray [?n], \<lparr>ps_view = [], ps_loc = loc'\<rparr>)" for loc
    using arrays.loop_reads [of "[]" "[]" env "[]" "[?n]" "\<lparr>ps_view = [0x5D], ps_loc = loc\<rparr>" "[]"]
    by (simp add: json_parse_impl_is_ws_def)
  show ?thesis
  proof (cases "js_ndebug env")
    case False
    with split_case ws1 beg text_eq assms show ?thesis
      by (simp add: json_value_parse_from_str_def json_value_parse_from_str_impl_def value_dispatch(2)
          json_parse_impl_parse_array.simps json_parse_impl_parse_array_value.simps get_empty_json_array_def memory_law_def)
  next
    case True
    with split_case obtain loc3 where n: "json_parse_impl_parse_value env \<lparr>ps_view = [0x31, 0x65, 0x35, 0x5D], ps_loc = loc2\<rparr> =
        Ok (?n, \<lparr>ps_view = [0x5D], ps_loc = loc3\<rparr>)" by auto
    obtain loc4 where "array_loop env \<lparr>ps_view = [0x5D], ps_loc = loc3\<rparr> [?n] = Ok (JsonArray [?n], \<lparr>ps_view = [], ps_loc = loc4\<rparr>)"
      using close by blast
    moreover obtain loc5 where "json_parse_impl_skip_ws \<lparr>ps_view = [], ps_loc = loc4\<rparr> = Ok \<lparr>ps_view = [], ps_loc = loc5\<rparr>"
      using skip_ws_at [of "[]" loc4] by auto
    ultimately show ?thesis using True n ws1 beg text_eq assms
      by (simp add: json_value_parse_from_str_def json_value_parse_from_str_impl_def value_dispatch(2) add_or_fail_def
          json_parse_impl_parse_array.simps json_parse_impl_parse_array_value.simps get_empty_json_array_def memory_law_def
          json_array_add_entry_def)
  qed
qed

text \<open>
  A number with an exponent directly behind its integer part is refused by an assertion in a debug build unless it
  ends the text, for example in the text [1e5], which RFC 8259 allows; a release build reads it.
\<close>

theorem json_exponent_asserts:
  assumes "memory_law env"
  shows "json_value_parse_from_str env (lit ''[1e5]'') =
    (if js_ndebug env then Ok (JsonArray [JsonNumber (json_number_make_value_int_exp env (js_of_int env 1) 5)])
     else Undef AssertFailed)"
  using assms by (rule exponent_asserts)

theorem json_exponent_asserts_witness:
  "json_value_parse_from_str sample_json (lit ''[1e5]'') = Undef AssertFailed"
  using json_exponent_asserts [OF sample_laws(2)] by simp

lemma string_text_parses:
  assumes "memory_law env" "reads (\<lambda>state. string_loop env state []) bs (JsonString cs) []"
  shows "json_value_parse_from_str env (0x22 # bs) = Ok (JsonString cs)"
proof -
  let ?source = "JsonSourceString (Some (0x22 # bs))"
  obtain loc1 where ws1: "json_parse_impl_skip_ws \<lparr>ps_view = 0x22 # bs,
      ps_loc = \<lparr>sl_source = ?source, sl_pos = \<lparr>sp_line = 0, sp_col = 0\<rparr>\<rparr>\<rparr> = Ok \<lparr>ps_view = 0x22 # bs, ps_loc = loc1\<rparr>"
    using skip_ws_at [of "0x22 # bs"] by (auto simp: json_parse_impl_is_ws_def)
  obtain loc2 where skip: "json_parse_state_skip_by \<lparr>ps_view = 0x22 # bs, ps_loc = loc1\<rparr> (Suc 0) True =
      Ok \<lparr>ps_view = bs, ps_loc = loc2\<rparr>" by (rule skip_one)
  obtain loc3 where loop: "string_loop env \<lparr>ps_view = bs, ps_loc = loc2\<rparr> [] = Ok (JsonString cs, \<lparr>ps_view = [], ps_loc = loc3\<rparr>)"
    by (rule readsE [OF assms(2)])
  have "bs \<noteq> []" using loop by (subst (asm) string_loop.simps) (auto simp: string_char_def)
  moreover obtain loc4 where "json_parse_impl_skip_ws \<lparr>ps_view = [], ps_loc = loc3\<rparr> = Ok \<lparr>ps_view = [], ps_loc = loc4\<rparr>"
    using skip_ws_at [of "[]" loc3] by auto
  ultimately show ?thesis using ws1 skip loop assms(1)
    by (simp add: json_value_parse_from_str_def json_value_parse_from_str_impl_def value_dispatch(3)
        json_parse_impl_parse_string_def memory_law_def)
qed

text \<open>
  Values that the parser returns and the printer cannot print. The empty string ends the process (where the vector
  library keeps no array for an empty vector); a control character without a short escape, read from its
  \<open>\u\<close> escape, fails an assertion in a debug build.
\<close>

theorem json_unprintable:
  assumes "utf8_law env" "memory_law env" "js_empty_null env"
    "0 \<le> c" "utf8proc_is_control env c" "c \<notin> {0x08, 0x09, 0x0A, 0x0C, 0x0D, 0x22, 0x2F, 0x5C}"
  shows "json_value_parse_from_str env [0x22, 0x22] = Ok (JsonString []) \<and>
    json_value_to_string env (JsonString []) = Undef (oom_fault env) \<and>
    json_value_parse_from_str env ([0x22, 0x5C, 0x75] @ hex4 c @ [0x22]) = Ok (JsonString [c]) \<and>
    (\<not> js_ndebug env \<longrightarrow> json_value_to_string env (JsonString [c]) = Undef AssertFailed)"
proof (intro conjI impI)
  show "json_value_parse_from_str env [0x22, 0x22] = Ok (JsonString [])"
    using string_loop_reads [OF assms(1,2), of "[]" "[]" "[]"] by (intro string_text_parses [OF assms(2)]) simp
  have builder: "string_builder_init (js_alloc env) = Some \<lparr>sb_value = []\<rparr>"
    using assms(2) by (simp add: string_builder_init_def memory_law_def)
  then show "json_value_to_string env (JsonString []) = Undef (oom_fault env)"
    using assms(3) by (simp add: json_value_to_string_def json_value_to_string_advanced_def json_to_string_string_impl_def
        get_normalized_string_from_codepoints_json_escaped_def)
  have c: "c \<le> 0xFFFF" using utf8_control(1) [OF assms(1,5)] .
  note char = escape_char_reads [OF assms(1) unicode_escape_reads [OF assms(4) c], of "[0x22]"]
  have "reads (\<lambda>state. string_loop env state []) (0x5C # 0x75 # hex4 c @ [0x22]) (JsonString [c]) []"
  proof (rule readsI)
    fix loc
    obtain loc1 where loc1: "string_char env \<lparr>ps_view = 0x5C # 0x75 # hex4 c @ [0x22], ps_loc = loc\<rparr> =
        Ok (Some c, \<lparr>ps_view = [0x22], ps_loc = loc1\<rparr>)" by (rule readsE [OF char])
    obtain loc2 where "string_loop env \<lparr>ps_view = [0x22], ps_loc = loc1\<rparr> [c] = Ok (JsonString [c], \<lparr>ps_view = [], ps_loc = loc2\<rparr>)"
      using readsE [OF string_loop_reads [OF assms(1,2), of "[]" "[c]" "[]"], of loc1] by auto
    with loc1 assms(2) show "\<exists>loc'. string_loop env \<lparr>ps_view = 0x5C # 0x75 # hex4 c @ [0x22], ps_loc = loc\<rparr> [] =
        Ok (JsonString [c], \<lparr>ps_view = [], ps_loc = loc'\<rparr>)"
      by (subst string_loop.simps) (simp add: json_string_add_char_impl_def memory_law_def)
  qed
  from string_text_parses [OF assms(2) this]
  show "json_value_parse_from_str env ([0x22, 0x5C, 0x75] @ hex4 c @ [0x22]) = Ok (JsonString [c])" by simp
  assume "\<not> js_ndebug env"
  then have "escaped_char env c = Undef AssertFailed"
    using assms(5,6) c by (simp add: escaped_char_def json_impl_needs_escaping_def json_impl_escape_char_into_def)
  then show "json_value_to_string env (JsonString [c]) = Undef AssertFailed"
    using builder assms(2) by (simp add: json_value_to_string_def json_value_to_string_advanced_def json_to_string_string_impl_def
        get_normalized_string_from_codepoints_json_escaped_def memory_law_def Let_def)
qed

theorem json_unprintable_witness:
  "json_value_parse_from_str sample_json [0x22, 0x22] = Ok (JsonString []) \<and>
   json_value_to_string sample_json (JsonString []) = Undef AssertFailed \<and>
   json_value_to_string sample_json (JsonString [0x7F]) = Undef AssertFailed"
  using json_unprintable [OF sample_laws(1,2), of "0x7F"] by (simp add: oom_fault_def)

section \<open>Witnesses\<close>


theorem json_parse_wellformed_witness:
  "\<exists>v. json_value_parse_from_str sample_json (json_text sample_json 2 sample_value) = Ok v \<and> json_wf v"
  using json_parse_wellformed [OF parse_text [OF sample_laws sample_printable, of 2]]
    parse_text [OF sample_laws sample_printable, of 2] by blast

end
