(* ===== verification/Ws_Extension.thy ===== *)
theory Ws_Extension
  imports Http1_Parser
begin

text \<open>
  WebSocket extensions (\<open>src/src/ws/extension.c\<close>): the offers of a client, the answer to them, and the pipeline that
  decompresses received and compresses sent messages.

  Compression with zlib is a parameter of the functions that call it. The theorems: the answer of the server is read by its own
  parser as the extensions that were accepted.
\<close>

section \<open>Data\<close>

record WsDeflateSingleOption =
  wo_no_context_takeover :: bool
  wo_max_window_bits :: u8

record WsDeflateOptions =
  wd_client :: WsDeflateSingleOption
  wd_server :: WsDeflateSingleOption

datatype WSExtension = WSExtensionTypePerMessageDeflate WsDeflateOptions

section \<open>Offers\<close>

text \<open>A parameter of the extension and its value, empty when there is none.\<close>

definition param_parts :: "'f http_env \<Rightarrow> bytes \<Rightarrow> bytes \<times> bytes" where
  "param_parts http param =
     (case lib_split (env_uri http) param (lit ''='') of None \<Rightarrow> (param, []) | Some split_result \<Rightarrow> split_result)"

definition deflate_param :: "'f http_env \<Rightarrow> bytes \<Rightarrow> WsDeflateOptions \<Rightarrow> WsDeflateOptions option" where
  "deflate_param http param options =
     (case param_parts http param of (name, value) \<Rightarrow>
      if name = lit ''server_no_context_takeover'' then
        (if value \<noteq> [] then None else Some (options\<lparr>wd_server := (wd_server options)\<lparr>wo_no_context_takeover := True\<rparr>\<rparr>))
      else if name = lit ''server_max_window_bits'' then
        (if value = [] then Some (options\<lparr>wd_server := (wd_server options)\<lparr>wo_max_window_bits := 15\<rparr>\<rparr>)
         else
           (case parse_u64 value of
              None \<Rightarrow> None
            | Some parsed_number \<Rightarrow>
                (if parsed_number < 8 \<or> parsed_number > 15 then None
                 else Some (options\<lparr>wd_server := (wd_server options)\<lparr>wo_max_window_bits := ucast parsed_number\<rparr>\<rparr>))))
      else if name = lit ''client_no_context_takeover'' then
        (if value \<noteq> [] then None else Some (options\<lparr>wd_client := (wd_client options)\<lparr>wo_no_context_takeover := True\<rparr>\<rparr>))
      else if name = lit ''client_max_window_bits'' then
        (if value = [] then Some (options\<lparr>wd_client := (wd_client options)\<lparr>wo_max_window_bits := 15\<rparr>\<rparr>)
         else
           (case parse_u64 value of
              None \<Rightarrow> None
            | Some parsed_number \<Rightarrow>
                (if parsed_number > 255 then None
                 else Some (options\<lparr>wd_client := (wd_client options)\<lparr>wo_max_window_bits := ucast parsed_number\<rparr>\<rparr>))))
      else None)"

fun deflate_params :: "'f http_env \<Rightarrow> bytes list \<Rightarrow> WsDeflateOptions \<Rightarrow> WsDeflateOptions option" where
  "deflate_params http [] options = Some options"
| "deflate_params http (current_param # ps) options =
     (case deflate_param http (lib_lstrip http current_param) options of
        None \<Rightarrow> None | Some options' \<Rightarrow> deflate_params http ps options')"

definition parse_ws_extension_per_message_deflate_params ::
  "'f http_env \<Rightarrow> bytes \<Rightarrow> WsDeflateOptions \<Rightarrow> WsDeflateOptions option" where
  "parse_ws_extension_per_message_deflate_params http params options =
     deflate_params http (lib_parts http params (lit '';'')) options"

definition default_options :: WsDeflateOptions where
  "default_options =
     \<lparr>wd_client = \<lparr>wo_no_context_takeover = False, wo_max_window_bits = 15\<rparr>,
      wd_server = \<lparr>wo_no_context_takeover = True, wo_max_window_bits = 15\<rparr>\<rparr>"

definition parse_ws_extension_value :: "'f http_env \<Rightarrow> bytes \<Rightarrow> WSExtension option" where
  "parse_ws_extension_value http value =
     (case (case lib_split (env_uri http) value (lit '';'') of
              None \<Rightarrow> (value, []) | Some (name, params) \<Rightarrow> (name, lib_lstrip http params)) of
        (name, params) \<Rightarrow>
          if name = lit ''permessage-deflate'' then
            (if params \<noteq> []
             then map_option WSExtensionTypePerMessageDeflate
                    (parse_ws_extension_per_message_deflate_params http params default_options)
             else Some (WSExtensionTypePerMessageDeflate default_options))
          else None)"

text \<open>Offers that cannot be parsed or stored are skipped.\<close>

fun parse_ws_extension_parts :: "'f http_env \<Rightarrow> WSExtension list \<Rightarrow> bytes list \<Rightarrow> WSExtension list" where
  "parse_ws_extension_parts http extensions [] = extensions"
| "parse_ws_extension_parts http extensions (part # ps) =
     parse_ws_extension_parts http
       (case parse_ws_extension_value http part of
          None \<Rightarrow> extensions
        | Some extension \<Rightarrow> if lib_push http (length extensions) then extensions @ [extension] else extensions) ps"

definition parse_ws_extensions :: "'f http_env \<Rightarrow> WSExtension list \<Rightarrow> bytes \<Rightarrow> WSExtension list" where
  "parse_ws_extensions http extensions value = parse_ws_extension_parts http extensions (lib_parts http value (lit '',''))"

section \<open>The answer\<close>

abbreviation put_text :: "'d h2_env \<Rightarrow> StringBuilder option \<Rightarrow> string \<Rightarrow> (unit, StringBuilder option) res" where
  "put_text env sb s \<equiv> put_single env sb (lit s)"

definition append_ws_extension_as_string ::
  "'d h2_env \<Rightarrow> StringBuilder option \<Rightarrow> WSExtension \<Rightarrow> (unit, StringBuilder option) res" where
  "append_ws_extension_as_string env sb extension =
     (case extension of
        WSExtensionTypePerMessageDeflate options \<Rightarrow>
          (let server = wo_no_context_takeover (wd_server options);
               client = wo_no_context_takeover (wd_client options);
               additional_options_count = (if client then 1 else 0) + (if server then 1 else 0 :: nat) in
           rbind (put_text env sb ''permessage-deflate;'') (\<lambda>sb1.
           rbind (put_text env sb1 ''server_max_window_bits='') (\<lambda>sb2.
           rbind (appendf env sb2 (print_nat (unat (wo_max_window_bits (wd_server options))))) (\<lambda>sb3.
           rbind (put_text env sb3 '';'') (\<lambda>sb4.
           rbind (put_text env sb4 ''client_max_window_bits='') (\<lambda>sb5.
           rbind (appendf env sb5 (print_nat (unat (wo_max_window_bits (wd_client options))))) (\<lambda>sb6.
           rbind (if additional_options_count \<noteq> 0 then put_text env sb6 '';'' else Ok sb6) (\<lambda>sb7.
           rbind (if server then
                    rbind (put_text env sb7 ''server_no_context_takeover'') (\<lambda>sb.
                    if additional_options_count \<noteq> 1 then put_text env sb '';'' else Ok sb)
                  else Ok sb7) (\<lambda>sb8.
           if client then put_text env sb8 ''client_no_context_takeover'' else Ok sb8))))))))))"

fun accepted_loop :: "'d h2_env \<Rightarrow> StringBuilder option \<Rightarrow> WSExtension list \<Rightarrow> (unit, StringBuilder option) res" where
  "accepted_loop env sb [] = Ok sb"
| "accepted_loop env sb (extension # es) =
     rbind (append_ws_extension_as_string env sb extension) (\<lambda>sb1.
     rbind (if es \<noteq> [] then put_text env sb1 '','' else Ok sb1) (\<lambda>sb2.
     accepted_loop env sb2 es))"

text \<open>\<open>Ok None\<close> is the NULL pointer; the text is a C string, without its terminator.\<close>

definition get_accepted_ws_extensions_as_string :: "'d h2_env \<Rightarrow> WSExtension list \<Rightarrow> (unit, bytes option) res" where
  "get_accepted_ws_extensions_as_string env extensions =
     (case string_builder_init (h2_alloc env) of
        None \<Rightarrow> Ok None
      | Some builder \<Rightarrow>
          (case accepted_loop env (Some builder) extensions of
             Err _ \<Rightarrow> Ok None
           | Undef u \<Rightarrow> Undef u
           | Ok sb \<Rightarrow> rbind (string_builder_release_into_string sb) (\<lambda>s. Ok (map_option c_string s))))"

section \<open>The pipeline\<close>

record WebSocketMessage =
  wm_is_text :: bool
  wm_buffer :: SizedBuffer

text \<open>The receive and send functions of the pipeline are those of the stored options; a push that fails drops one.\<close>

record ExtensionPipeline =
  ep_allowed_rsv_bytes :: u8
  ep_process :: "WsDeflateOptions list"
  ep_active_extensions :: nat
  ep_deflate_mask :: bool

record ws_env =
  ws_alloc :: "nat \<Rightarrow> bool"
  ws_push :: "nat \<Rightarrow> bool"
  ws_decompress :: "bytes \<Rightarrow> u8 \<Rightarrow> bytes option"
  ws_compress :: "SizedBuffer \<Rightarrow> u8 \<Rightarrow> bytes option"

fun deflate_options :: "WSExtension \<Rightarrow> WsDeflateOptions" where
  "deflate_options (WSExtensionTypePerMessageDeflate options) = options"

definition get_pipeline_settings :: "WSExtension list \<Rightarrow> u8" where
  "get_pipeline_settings extensions =
     fold (\<lambda>extension allowed. case extension of WSExtensionTypePerMessageDeflate _ \<Rightarrow> allowed OR 4) extensions 0"

fun push_process :: "ws_env \<Rightarrow> WsDeflateOptions list \<Rightarrow> WSExtension list \<Rightarrow> WsDeflateOptions list" where
  "push_process env fns [] = fns"
| "push_process env fns (extension # es) =
     push_process env (if ws_push env (length fns) then fns @ [deflate_options extension] else fns) es"

definition get_extension_pipeline :: "ws_env \<Rightarrow> WSExtension list \<Rightarrow> ExtensionPipeline option" where
  "get_extension_pipeline env extensions =
     (if \<not> ws_alloc env 1 then None
      else if extensions = [] then
        Some \<lparr>ep_allowed_rsv_bytes = get_pipeline_settings extensions, ep_process = [], ep_active_extensions = 0,
              ep_deflate_mask = False\<rparr>
      else if \<not> ws_alloc env 2 then None
      else
        Some \<lparr>ep_allowed_rsv_bytes = get_pipeline_settings extensions, ep_process = push_process env [] extensions,
              ep_active_extensions = length extensions, ep_deflate_mask = True\<rparr>)"

text \<open>
  The state of a message under reception is a pointer to a flag: \<open>None\<close> without extensions and after a failed
  allocation, which is not checked.
\<close>

definition init_extension_receive_message_state :: "ws_env \<Rightarrow> ExtensionPipeline \<Rightarrow> bool option" where
  "init_extension_receive_message_state env pipeline =
     (if ep_active_extensions pipeline = 0 then None else if ws_alloc env 1 then Some False else None)"

definition extension_receive_pipeline_is_valid_cont_frame :: "ExtensionPipeline \<Rightarrow> u8 \<Rightarrow> string option" where
  "extension_receive_pipeline_is_valid_cont_frame pipeline rsv_bytes =
     (if ep_active_extensions pipeline = 0 then None
      else if ep_deflate_mask pipeline \<and> rsv_bytes AND 4 \<noteq> 0
      then Some ''Received Opcode CONTINUATION with compressed bit set, this is an extension error''
      else None)"

definition extension_receive_pipeline_process_start_message ::
  "ExtensionPipeline \<Rightarrow> bool option \<Rightarrow> u8 \<Rightarrow> (unit, bool option) res" where
  "extension_receive_pipeline_process_start_message pipeline message_state rsv_bytes =
     (if ep_active_extensions pipeline = 0 then Ok message_state
      else if ep_deflate_mask pipeline then
        (case message_state of None \<Rightarrow> Undef OutOfBounds | Some _ \<Rightarrow> Ok (Some (rsv_bytes AND 4 \<noteq> 0)))
      else Ok message_state)"

definition decompress_ws_message :: "ws_env \<Rightarrow> WebSocketMessage \<Rightarrow> WsDeflateOptions \<Rightarrow> (string, WebSocketMessage) res" where
  "decompress_ws_message env message options =
     (if \<not> wo_no_context_takeover (wd_client options) then Err ''client context takeover is not supported''
      else
        (let input = (case wm_buffer message of None \<Rightarrow> [] | Some b \<Rightarrow> b) @ [0x00, 0x00, 0xff, 0xff] in
         if \<not> ws_alloc env (length input) then Err ''allocation error''
         else
           (case ws_decompress env input (wo_max_window_bits (wd_client options)) of
              None \<Rightarrow> Err ''decompress error''
            | Some result \<Rightarrow> Ok (message\<lparr>wm_buffer := Some result\<rparr>))))"

definition compress_ws_message :: "ws_env \<Rightarrow> WebSocketMessage \<Rightarrow> WsDeflateOptions \<Rightarrow> (string, WebSocketMessage) res" where
  "compress_ws_message env message options =
     (if \<not> wo_no_context_takeover (wd_server options) then Err ''server context takeover is not supported''
      else
        (case ws_compress env (wm_buffer message) (wo_max_window_bits (wd_server options)) of
           None \<Rightarrow> Err ''compress error''
         | Some result \<Rightarrow> Ok (message\<lparr>wm_buffer := Some result\<rparr>)))"

text \<open>One stage of the pipeline: only messages with the compressed flag are changed.\<close>

definition pipeline_stage ::
  "(WebSocketMessage \<Rightarrow> (string, WebSocketMessage) res) \<Rightarrow> bool option \<Rightarrow> WebSocketMessage \<Rightarrow> (string, WebSocketMessage) res" where
  "pipeline_stage process message_state message =
     (case message_state of
        None \<Rightarrow> Undef OutOfBounds
      | Some is_compressed_message \<Rightarrow> if \<not> is_compressed_message then Ok message else process message)"

fun run_stages ::
  "(WebSocketMessage \<Rightarrow> WsDeflateOptions \<Rightarrow> (string, WebSocketMessage) res) \<Rightarrow> WsDeflateOptions list \<Rightarrow> bool option
     \<Rightarrow> WebSocketMessage \<Rightarrow> (string, WebSocketMessage) res" where
  "run_stages process [] message_state message = Ok message"
| "run_stages process (options # rest) message_state message =
     rbind (pipeline_stage (\<lambda>m. process m options) message_state message) (run_stages process rest message_state)"

definition extension_receive_pipeline_process_finished_message ::
  "ws_env \<Rightarrow> ExtensionPipeline \<Rightarrow> bool option \<Rightarrow> WebSocketMessage \<Rightarrow> (string, WebSocketMessage) res" where
  "extension_receive_pipeline_process_finished_message env pipeline message_state message =
     (if ep_active_extensions pipeline = 0 then Ok message
      else run_stages (decompress_ws_message env) (rev (ep_process pipeline)) message_state message)"

record ExtensionSendState =
  es_pipeline :: ExtensionPipeline
  es_message_state :: "bool option"

definition pipline_get_extension_send_state :: "ws_env \<Rightarrow> ExtensionPipeline \<Rightarrow> bool option \<Rightarrow> ExtensionSendState option" where
  "pipline_get_extension_send_state env pipeline message_state =
     (if ws_alloc env 1 then Some \<lparr>es_pipeline = pipeline, es_message_state = message_state\<rparr> else None)"

definition extension_send_pipeline_process_initial_message ::
  "ws_env \<Rightarrow> ExtensionSendState \<Rightarrow> WebSocketMessage \<Rightarrow> (string, WebSocketMessage) res" where
  "extension_send_pipeline_process_initial_message env send_state message =
     (if ep_active_extensions (es_pipeline send_state) = 0 then Ok message
      else run_stages (compress_ws_message env) (ep_process (es_pipeline send_state)) (es_message_state send_state) message)"

definition extension_send_pipeline_process_start_message :: "ExtensionSendState \<Rightarrow> u8 \<Rightarrow> (unit, u8) res" where
  "extension_send_pipeline_process_start_message send_state rsv_bytes =
     (if ep_active_extensions (es_pipeline send_state) = 0 then Ok rsv_bytes
      else if ep_deflate_mask (es_pipeline send_state) then
        (case es_message_state send_state of
           None \<Rightarrow> Undef OutOfBounds
         | Some is_compressed_message \<Rightarrow> Ok (if is_compressed_message then rsv_bytes OR 4 else rsv_bytes))
      else Ok rsv_bytes)"

definition extension_send_pipeline_process_cont_message :: "ExtensionSendState \<Rightarrow> u8 \<Rightarrow> (unit, u8) res" where
  "extension_send_pipeline_process_cont_message send_state rsv_bytes = Ok rsv_bytes"

section \<open>What the answer says\<close>

text \<open>Steps that extend the text of a builder.\<close>

definition extends :: "(StringBuilder option \<Rightarrow> (unit, StringBuilder option) res) \<Rightarrow> bytes \<Rightarrow> bool" where
  "extends f s \<longleftrightarrow>
     (\<forall>sb t. builder_holds sb t \<longrightarrow> length t + length s < 2 ^ 31 - 1 \<longrightarrow> (\<exists>sb'. f sb = Ok sb' \<and> builder_holds sb' (t @ s)))"

lemma extends_bind:
  assumes "extends f s" "extends g s'"
  shows "extends (\<lambda>sb. rbind (f sb) g) (s @ s')"
  unfolding extends_def
proof (intro allI impI)
  fix sb t
  assume sb: "builder_holds sb t" and len: "length t + length (s @ s') < 2 ^ 31 - 1"
  with assms(1) obtain sb1 where sb1: "f sb = Ok sb1" "builder_holds sb1 (t @ s)" by (fastforce simp: extends_def)
  with assms(2) len show "\<exists>sb'. rbind (f sb) g = Ok sb' \<and> builder_holds sb' (t @ s @ s')" by (fastforce simp: extends_def)
qed

lemma extends_Ok: "extends Ok []"
  by (simp add: extends_def)

lemma extends_if: "(c \<Longrightarrow> extends f s) \<Longrightarrow> (\<not> c \<Longrightarrow> extends g s') \<Longrightarrow> extends (\<lambda>sb. if c then f sb else g sb) (if c then s else s')"
  by simp

lemma extends_put: "\<forall>n. h2_alloc env n \<Longrightarrow> 0 \<notin> set (lit s) \<Longrightarrow> extends (\<lambda>sb. put_text env sb s) (lit s)"
  using put_single_holds by (fastforce simp: extends_def)

lemma extends_appendf: "\<forall>n. h2_alloc env n \<Longrightarrow> 0 \<notin> set s \<Longrightarrow> extends (\<lambda>sb. appendf env sb s) s"
  using appendf_holds by (fastforce simp: extends_def)

definition extension_text :: "WSExtension \<Rightarrow> bytes" where
  "extension_text extension =
     (let options = deflate_options extension;
          server = wo_no_context_takeover (wd_server options); client = wo_no_context_takeover (wd_client options) in
      lit ''permessage-deflate;'' @ lit ''server_max_window_bits='' @ print_nat (unat (wo_max_window_bits (wd_server options))) @
      lit '';'' @ lit ''client_max_window_bits='' @ print_nat (unat (wo_max_window_bits (wd_client options))) @
      (if server \<or> client then lit '';'' else []) @
      (if server then lit ''server_no_context_takeover'' @ (if client then lit '';'' else []) else []) @
      (if client then lit ''client_no_context_takeover'' else []))"

fun extensions_text :: "WSExtension list \<Rightarrow> bytes" where
  "extensions_text [] = []"
| "extensions_text (e # es) = extension_text e @ (if es = [] then [] else lit '','' @ extensions_text es)"

lemma extends_extension:
  assumes "\<forall>n. h2_alloc env n"
  shows "extends (\<lambda>sb. append_ws_extension_as_string env sb e) (extension_text e)"
proof -
  obtain options where e: "e = WSExtensionTypePerMessageDeflate options" by (cases e)
  let ?s = "wo_no_context_takeover (wd_server options)" and ?c = "wo_no_context_takeover (wd_client options)"
  let ?n = "(if ?c then 1 else 0) + (if ?s then 1 else 0 :: nat)"
  have semi: "extends (\<lambda>sb. put_text env sb '';'') (lit '';'')" by (rule extends_put [OF assms]) (simp add: lit_def)
  have "extends (\<lambda>sb. if ?n \<noteq> 0 then put_text env sb '';'' else Ok sb) (if ?s \<or> ?c then lit '';'' else [])"
    using semi extends_Ok by simp
  moreover have "extends (\<lambda>sb. if ?n \<noteq> 1 then put_text env sb '';'' else Ok sb) (if ?c then lit '';'' else [])" if ?s
    using semi extends_Ok that by simp
  then have "extends (\<lambda>sb. if ?s then rbind (put_text env sb ''server_no_context_takeover'')
        (\<lambda>sb. if ?n \<noteq> 1 then put_text env sb '';'' else Ok sb) else Ok sb)
      (if ?s then lit ''server_no_context_takeover'' @ (if ?c then lit '';'' else []) else [])"
    using extends_Ok by (intro extends_if extends_bind extends_put [OF assms]) (simp_all add: lit_def)
  moreover have "extends (\<lambda>sb. if ?c then put_text env sb ''client_no_context_takeover'' else Ok sb)
      (if ?c then lit ''client_no_context_takeover'' else [])"
    using extends_Ok by (intro extends_if extends_put [OF assms]) (simp_all add: lit_def)
  ultimately show ?thesis
    unfolding append_ws_extension_as_string_def extension_text_def e Let_def deflate_options.simps WSExtension.case
    by (intro extends_bind extends_appendf [OF assms digits_no_nul] semi extends_put [OF assms]) (simp_all add: lit_def)
qed

lemma extends_extensions:
  assumes "\<forall>n. h2_alloc env n"
  shows "extends (\<lambda>sb. accepted_loop env sb es) (extensions_text es)"
proof (induction es)
  case Nil
  then show ?case using extends_Ok by simp
next
  case (Cons e es)
  have "extends (\<lambda>sb. if es \<noteq> [] then put_text env sb '','' else Ok sb) (if es \<noteq> [] then lit '','' else [])"
    using extends_Ok by (intro extends_if extends_put [OF assms]) (simp_all add: lit_def)
  from extends_bind [OF extends_extension [OF assms, of e] extends_bind [OF this Cons.IH]]
  show ?case by (cases es) simp_all
qed

lemma accepted_text:
  assumes "\<forall>n. h2_alloc env n" "length (extensions_text es) < 2 ^ 31 - 1" "0 \<notin> set (extensions_text es)" "es \<noteq> []"
  shows "get_accepted_ws_extensions_as_string env es = Ok (Some (extensions_text es))"
proof -
  have init: "builder_holds (string_builder_init (h2_alloc env)) []" using assms(1) by (simp add: builder_init_holds)
  then obtain b where b: "string_builder_init (h2_alloc env) = Some b" by (auto simp: builder_holds_def)
  obtain sb where sb: "accepted_loop env (Some b) es = Ok sb" "builder_holds sb (extensions_text es)"
    using extends_extensions [OF assms(1), of es] init assms(2) unfolding b extends_def by fastforce
  have ne: "extensions_text es \<noteq> []"
    using assms(4) by (cases es) (simp_all add: extension_text_def Let_def lit_def)
  have "read_block (map Some (extensions_text es) @ [Some 0]) = (Ok (extensions_text es @ [0]) :: (unit, bytes) res)"
    using read_block_map_Some [of "extensions_text es @ [0]"] by simp
  with sb(2) ne have "string_builder_release_into_string sb = Ok (Some (extensions_text es @ [0]))"
    by (auto simp: builder_holds_def string_builder_release_into_string_def)
  moreover have "c_string (extensions_text es @ [0]) = extensions_text es"
    using assms(3) unfolding c_string_def by (subst takeWhile_append2) auto
  ultimately show ?thesis using b sb(1) by (simp add: get_accepted_ws_extensions_as_string_def)
qed

section \<open>The answer is understood\<close>

definition strip_law :: "(bytes \<Rightarrow> bytes) \<Rightarrow> bool" where
  "strip_law lstrip \<longleftrightarrow> (\<forall>s. starts_visible s \<longrightarrow> lstrip s = s)"

text \<open>What the parser accepts.\<close>

definition negotiated :: "WSExtension \<Rightarrow> bool" where
  "negotiated e \<longleftrightarrow>
     wo_no_context_takeover (wd_server (deflate_options e)) \<and>
     8 \<le> wo_max_window_bits (wd_server (deflate_options e)) \<and> wo_max_window_bits (wd_server (deflate_options e)) \<le> 15"

lemma deflate_param_negotiated:
  "negotiated (WSExtensionTypePerMessageDeflate options) \<Longrightarrow> deflate_param http param options = Some options' \<Longrightarrow>
    negotiated (WSExtensionTypePerMessageDeflate options')"
proof -
  have small: "8 \<le> (ucast n :: u8) \<and> (ucast n :: u8) \<le> 15" if "\<not> n < 8" "\<not> n > (15 :: u64)" for n
  proof -
    have "unat n \<le> 15" "8 \<le> unat n" using that by (simp_all add: word_less_nat_alt not_less)
    then show ?thesis by (simp add: word_le_nat_alt unsigned_ucast_eq take_bit_nat_eq_self)
  qed
  assume "negotiated (WSExtensionTypePerMessageDeflate options)" "deflate_param http param options = Some options'"
  then show ?thesis using small
    by (auto simp: deflate_param_def negotiated_def split: prod.splits if_splits option.splits)
qed

lemma deflate_params_negotiated:
  "negotiated (WSExtensionTypePerMessageDeflate options) \<Longrightarrow> deflate_params http ps options = Some options' \<Longrightarrow>
    negotiated (WSExtensionTypePerMessageDeflate options')"
  by (induction ps arbitrary: options) (auto split: option.splits dest: deflate_param_negotiated)

lemma default_negotiated: "negotiated (WSExtensionTypePerMessageDeflate default_options)"
  by (simp add: negotiated_def default_options_def)

lemma parsed_negotiated: "parse_ws_extension_value http value = Some e \<Longrightarrow> negotiated e"
  using default_negotiated deflate_params_negotiated [OF default_negotiated]
  by (auto simp: parse_ws_extension_value_def parse_ws_extension_per_message_deflate_params_def
      split: option.splits prod.splits if_splits)

lemma parse_parts_negotiated:
  "\<forall>e \<in> set es. negotiated e \<Longrightarrow> \<forall>e \<in> set (parse_ws_extension_parts http es ps). negotiated e"
proof (induction ps arbitrary: es)
  case (Cons p ps)
  show ?case unfolding parse_ws_extension_parts.simps
    by (rule Cons.IH) (use Cons.prems in \<open>auto split: option.splits dest: parsed_negotiated\<close>)
qed simp

lemma digits_only: "c \<in> set (print_nat n) \<Longrightarrow> 48 \<le> c \<and> c \<le> 57"
  using print_nat_digits [of n] by (simp add: digit_string_def)

lemma not_in_digits [simp]:
  "44 \<notin> set (print_nat n)" "59 \<notin> set (print_nat n)" "61 \<notin> set (print_nat n)" "0 \<notin> set (print_nat n)"
  using digits_only [of _ n] by (force simp: word_le_nat_alt)+

lemma param_bits:
  assumes "string_library http" "61 \<notin> set name"
  shows "param_parts http (name @ 61 # value) = (name, value)" "param_parts http name = (name, [])"
  using assms split_char [of "lib_split (env_uri http)"] before_behind_cut [OF assms(2)]
  by (simp_all add: param_parts_def string_library_def lit_def)

lemma u8_in_u64: "parse_u64 (print_nat (unat (b :: u8))) = Some (ucast b)"
proof -
  have "unat b < 2 ^ 64" by (rule order.strict_trans [OF unat_u8_less]) simp
  moreover have "(word_of_nat (unat b) :: u64) = ucast b" by (rule of_nat_unat)
  ultimately show ?thesis by (simp add: parse_u64_def parse_digits_print_nat)
qed

lemma deflate_param_answers:
  assumes "string_library http"
  shows "deflate_param http (lit ''server_max_window_bits='' @ print_nat (unat (b :: u8))) options =
      (if 8 \<le> b \<and> b \<le> 15 then Some (options\<lparr>wd_server := (wd_server options)\<lparr>wo_max_window_bits := b\<rparr>\<rparr>) else None)"
    and "deflate_param http (lit ''client_max_window_bits='' @ print_nat (unat b)) options =
      Some (options\<lparr>wd_client := (wd_client options)\<lparr>wo_max_window_bits := b\<rparr>\<rparr>)"
    and "deflate_param http (lit ''server_no_context_takeover'') options =
      Some (options\<lparr>wd_server := (wd_server options)\<lparr>wo_no_context_takeover := True\<rparr>\<rparr>)"
    and "deflate_param http (lit ''client_no_context_takeover'') options =
      Some (options\<lparr>wd_client := (wd_client options)\<lparr>wo_no_context_takeover := True\<rparr>\<rparr>)"
proof -
  note bits = param_bits [OF assms]
  have cast: "(ucast (ucast b :: u64) :: u8) = b" by (transfer, simp add: take_bit_take_bit min_def)
  have unat: "unat (ucast b :: u64) = unat b" by (simp add: unsigned_ucast_eq take_bit_nat_eq_self order.strict_trans [OF unat_u8_less])
  have "param_parts http (lit ''server_max_window_bits='' @ v) = (lit ''server_max_window_bits'', v)"
      "param_parts http (lit ''client_max_window_bits='' @ v) = (lit ''client_max_window_bits'', v)" for v
    using bits(1) [of "lit ''server_max_window_bits''" v] bits(1) [of "lit ''client_max_window_bits''" v] by (simp_all add: lit_def)
  moreover have "param_parts http (lit ''server_no_context_takeover'') = (lit ''server_no_context_takeover'', [])"
      "param_parts http (lit ''client_no_context_takeover'') = (lit ''client_no_context_takeover'', [])"
    by (rule bits(2); simp add: lit_def)+
  moreover have "unat (ucast b :: u64) \<le> 255" using unat unat_u8_less [of b] by linarith
  then have "\<not> (ucast b :: u64) > 255" by (simp add: word_less_nat_alt)
  ultimately show "deflate_param http (lit ''server_max_window_bits='' @ print_nat (unat b)) options =
      (if 8 \<le> b \<and> b \<le> 15 then Some (options\<lparr>wd_server := (wd_server options)\<lparr>wo_max_window_bits := b\<rparr>\<rparr>) else None)"
    "deflate_param http (lit ''client_max_window_bits='' @ print_nat (unat b)) options =
      Some (options\<lparr>wd_client := (wd_client options)\<lparr>wo_max_window_bits := b\<rparr>\<rparr>)"
    "deflate_param http (lit ''server_no_context_takeover'') options =
      Some (options\<lparr>wd_server := (wd_server options)\<lparr>wo_no_context_takeover := True\<rparr>\<rparr>)"
    "deflate_param http (lit ''client_no_context_takeover'') options =
      Some (options\<lparr>wd_client := (wd_client options)\<lparr>wo_no_context_takeover := True\<rparr>\<rparr>)"
    using cast unat by (simp_all add: deflate_param_def u8_in_u64 lit_def word_less_nat_alt word_le_nat_alt not_less)
qed

definition answer_params :: "WsDeflateOptions \<Rightarrow> bytes list" where
  "answer_params options =
     [lit ''server_max_window_bits='' @ print_nat (unat (wo_max_window_bits (wd_server options))),
      lit ''client_max_window_bits='' @ print_nat (unat (wo_max_window_bits (wd_client options))),
      lit ''server_no_context_takeover''] @
     (if wo_no_context_takeover (wd_client options) then [lit ''client_no_context_takeover''] else [])"

lemma answer_params_parts:
  assumes "wo_no_context_takeover (wd_server options)"
  shows "\<exists>params. extension_text (WSExtensionTypePerMessageDeflate options) = lit ''permessage-deflate'' @ 59 # params \<and>
    char_parts 59 params = answer_params options \<and> params \<noteq> [] \<and> starts_visible params"
proof -
  let ?client = "wo_no_context_takeover (wd_client options)"
  let ?rest = "lit ''server_no_context_takeover'' @ (if ?client then 59 # lit ''client_no_context_takeover'' else [])"
  let ?second = "lit ''client_max_window_bits='' @ print_nat (unat (wo_max_window_bits (wd_client options)))"
  let ?first = "lit ''server_max_window_bits='' @ print_nat (unat (wo_max_window_bits (wd_server options)))"
  let ?params = "?first @ 59 # ?second @ 59 # ?rest"
  have plain: "59 \<notin> set ?first" "59 \<notin> set ?second" "59 \<notin> set (lit ''server_no_context_takeover'')"
      "59 \<notin> set (lit ''client_no_context_takeover'')" by (simp_all add: lit_def)
  have rest: "char_parts 59 ?rest = lit ''server_no_context_takeover'' # (if ?client then [lit ''client_no_context_takeover''] else [])"
    using plain(3,4) char_parts_cut [OF plain(3)] by (cases ?client) simp_all
  have parts: "char_parts 59 ?params = answer_params options"
    unfolding char_parts_cut [OF plain(1)] char_parts_cut [OF plain(2)] rest by (simp add: answer_params_def)
  have whole: "extension_text (WSExtensionTypePerMessageDeflate options) = lit ''permessage-deflate'' @ 59 # ?params"
    using assms by (simp add: extension_text_def Let_def lit_def)
  show ?thesis by (rule exI [of _ ?params], intro conjI whole parts) (simp_all add: starts_visible_def lit_def)
qed

lemma answer_value:
  assumes "string_library http" "strip_law (lib_lstrip http)" "negotiated e"
  shows "parse_ws_extension_value http (extension_text e) = Some e"
proof -
  obtain options where e: "e = WSExtensionTypePerMessageDeflate options" by (cases e)
  have opts: "wo_no_context_takeover (wd_server options)" "8 \<le> wo_max_window_bits (wd_server options)"
      "wo_max_window_bits (wd_server options) \<le> 15" using assms(3) by (simp_all add: e negotiated_def)
  obtain params where params: "extension_text e = lit ''permessage-deflate'' @ 59 # params"
      "char_parts 59 params = answer_params options" "params \<noteq> []" "starts_visible params"
    using answer_params_parts [OF opts(1)] unfolding e by blast
  have "59 \<notin> set (lit ''permessage-deflate'')" by (simp add: lit_def)
  then have "lib_split (env_uri http) (extension_text e) (lit '';'') = Some (lit ''permessage-deflate'', params)"
    using assms(1) split_char [of "lib_split (env_uri http)"] before_behind_cut [of 59 "lit ''permessage-deflate''" params]
    unfolding params(1) by (simp add: string_library_def lit_def)
  moreover have "lib_lstrip http params = params" using assms(2) params(4) by (simp add: strip_law_def)
  moreover have "lib_parts http params (lit '';'') = answer_params options"
    using assms(1) params(2) by (simp add: string_library_def parts_law_def lit_def)
  moreover have "deflate_params http (answer_params options) default_options = Some options"
  proof -
    have "\<forall>p \<in> set (answer_params options). starts_visible p" by (auto simp: answer_params_def starts_visible_def lit_def)
    then have strip: "\<forall>p \<in> set (answer_params options). lib_lstrip http p = p" using assms(2) by (simp add: strip_law_def)
    then show ?thesis
      using opts unfolding answer_params_def
      by (cases "wo_no_context_takeover (wd_client options)")
        (simp_all add: deflate_param_answers [OF assms(1)] default_options_def)
  qed
  ultimately show ?thesis using params(3)
    by (simp add: e parse_ws_extension_value_def parse_ws_extension_per_message_deflate_params_def)
qed

lemma extension_text_plain: "44 \<notin> set (extension_text e)" "0 \<notin> set (extension_text e)"
  by (simp_all add: extension_text_def Let_def lit_def)

lemma extensions_parts: "es \<noteq> [] \<Longrightarrow> char_parts 44 (extensions_text es) = map extension_text es"
proof (induction es)
  case (Cons e es)
  show ?case
  proof (cases "es = []")
    case True
    then show ?thesis using extension_text_plain(1) by simp
  next
    case False
    with Cons.IH char_parts_cut [OF extension_text_plain(1), of e "extensions_text es"] show ?thesis by (simp add: lit_def)
  qed
qed simp

lemma parse_parts_all:
  "(\<And>e. e \<in> set es \<Longrightarrow> parse_ws_extension_value http (extension_text e) = Some e) \<Longrightarrow> \<forall>n. lib_push http n \<Longrightarrow>
    parse_ws_extension_parts http acc (map extension_text es) = acc @ es"
  by (induction es arbitrary: acc) simp_all

text \<open>
  C32. The WebSocket extensions that the server accepts are a fixed point of the negotiation: whatever a client offers, the
  answer that \<open>get_accepted_ws_extensions_as_string\<close> prints for the parsed offers is read by
  \<open>parse_ws_extensions\<close> as exactly these extensions again.
\<close>

theorem ws_extension_answer_roundtrip:
  assumes "string_library http" "strip_law (lib_lstrip http)" "\<forall>n. h2_alloc env n"
    and "parse_ws_extensions http [] offer = accepted" "accepted \<noteq> []" "length (extensions_text accepted) < 2 ^ 31 - 1"
  shows "\<exists>answer. get_accepted_ws_extensions_as_string env accepted = Ok (Some answer) \<and>
    parse_ws_extensions http [] answer = accepted"
proof -
  have "\<forall>e \<in> set accepted. negotiated e"
    using assms(4) parse_parts_negotiated [of "[]" http] by (auto simp: parse_ws_extensions_def)
  then have "parse_ws_extension_parts http [] (map extension_text accepted) = [] @ accepted"
    using assms(1) answer_value [OF assms(1,2)] by (intro parse_parts_all) (auto simp: string_library_def)
  moreover have "lib_parts http (extensions_text accepted) (lit '','') = map extension_text accepted"
    using assms(1,5) extensions_parts by (simp add: string_library_def parts_law_def lit_def)
  moreover have "0 \<notin> set (extensions_text es)" for es
    by (induction es) (auto simp: extension_text_plain lit_def)
  ultimately show ?thesis using accepted_text [OF assms(3,6) _ assms(5)] by (simp add: parse_ws_extensions_def)
qed

lemma sample_strip: "strip_law (lib_lstrip sample_http)"
proof -
  have "dropWhile (\<lambda>c. c = 32) s = s" if "starts_visible s" for s :: bytes
    using that by (cases s) (auto simp: starts_visible_def)
  then show ?thesis by (simp add: strip_law_def sample_http_def thousandths_env_def)
qed

theorem ws_extension_answer_roundtrip_witness:
  "\<exists>answer. get_accepted_ws_extensions_as_string (pipe_env 0)
      (parse_ws_extensions sample_http [] (lit ''permessage-deflate; client_no_context_takeover'')) = Ok (Some answer) \<and>
    parse_ws_extensions sample_http [] answer = parse_ws_extensions sample_http [] (lit ''permessage-deflate; client_no_context_takeover'')"
proof -
  let ?offer = "lit ''permessage-deflate; client_no_context_takeover''"
  let ?ext = "WSExtensionTypePerMessageDeflate (default_options\<lparr>wd_client := (wd_client default_options)\<lparr>wo_no_context_takeover := True\<rparr>\<rparr>)"
  have offer: "parse_ws_extensions sample_http [] ?offer = [?ext]"
    by (simp add: parse_ws_extensions_def sample_http_def thousandths_env_def lit_def char_parts.simps parse_ws_extension_value_def
        sample_env_def cut_first.simps parse_ws_extension_per_message_deflate_params_def deflate_param_def param_parts_def)
  have "length (extensions_text [?ext]) < 2 ^ 31 - 1"
    by (simp add: extension_text_def Let_def lit_def default_options_def print_nat.simps)
  with ws_extension_answer_roundtrip [OF sample_library sample_strip _ offer, of "pipe_env 0"] offer show ?thesis
    by (simp add: pipe_env_def)
qed

end
