(* ===== verification/Ws_Frame.thy ===== *)
theory Ws_Frame
  imports Ws_Extension
begin

text \<open>
  WebSocket frames and messages (\<open>src/src/ws/thread_manager.c\<close>, the first half; \<open>src/src/ws/types.h\<close>): reading and writing
  a frame, messages in one frame or in fragments, close reasons.

  A payload is its bytes; an empty payload has a null pointer. Memory, system calls and the byte order are those of \<open>h2_env\<close>; the
  random mask and the size of the send buffer of a socket are parameters.

  The theorems: a frame is read as it was written, whatever the packets; fragments carry the message; a compressed message in
  fragments is marked on the wrong frames; the longest announced lengths corrupt memory.
\<close>

section \<open>Data\<close>

abbreviation (input) WsOpcodeCont :: u8 where "WsOpcodeCont \<equiv> 0x0"
abbreviation (input) WsOpcodeText :: u8 where "WsOpcodeText \<equiv> 0x1"
abbreviation (input) WsOpcodeBin :: u8 where "WsOpcodeBin \<equiv> 0x2"
abbreviation (input) WsOpcodeClose :: u8 where "WsOpcodeClose \<equiv> 0x8"
abbreviation (input) WsOpcodePing :: u8 where "WsOpcodePing \<equiv> 0x9"
abbreviation (input) WsOpcodePong :: u8 where "WsOpcodePong \<equiv> 0xA"

record RawHeaderOne =
  ro_fin :: bool
  ro_op_code :: u8
  ro_has_mask :: bool
  ro_payload_len :: u8
  ro_rsv_bytes :: u8

record WebSocketRawMessage =
  wr_fin :: bool
  wr_op_code :: u8
  wr_payload :: bytes
  wr_rsv_bytes :: u8

section \<open>Reading a frame\<close>

definition get_raw_header :: "u8 \<Rightarrow> u8 \<Rightarrow> u8 \<Rightarrow> (string, RawHeaderOne) res" where
  "get_raw_header b0 b1 allowed_rsv_bytes =
     (let rsv_bytes = drop_bit 4 b0 AND 7 in
      if allowed_rsv_bytes = 0 \<and> rsv_bytes \<noteq> 0 then Err ''only 0 allowed for the rsv bytes''
      else if allowed_rsv_bytes \<noteq> 0 \<and> rsv_bytes OR allowed_rsv_bytes \<noteq> allowed_rsv_bytes then Err ''invalid rsv bits set''
      else
        Ok \<lparr>ro_fin = (drop_bit 7 b0 AND 1 \<noteq> 0), ro_op_code = b0 AND 15, ro_has_mask = (drop_bit 7 b1 AND 1 \<noteq> 0),
            ro_payload_len = b1 AND 0x7F, ro_rsv_bytes = rsv_bytes\<rparr>)"

definition is_control_op_code :: "u8 \<Rightarrow> bool" where
  "is_control_op_code op_code = (if op_code > 0xF then False else op_code AND 8 \<noteq> 0)"

definition get_bytes :: "'d h2_env \<Rightarrow> nat \<Rightarrow> string \<Rightarrow> (string, 'd BufferedReader, bytes) act" where
  "get_bytes env n message =
     (\<lambda>reader. case buffered_reader_get_amount (h2_alloc env) (h2_io env) reader n of
        Ok (BufferedReadResultTypeOk bs, reader') \<Rightarrow> (Ok bs, reader')
      | Ok (_, reader') \<Rightarrow> (Err message, reader')
      | Err _ \<Rightarrow> (Err message, reader)
      | Undef u \<Rightarrow> (Undef u, reader))"

definition read_payload_length :: "'d h2_env \<Rightarrow> u8 \<Rightarrow> (string, 'd BufferedReader, u64) act" where
  "read_payload_length env payload_len =
     (if payload_len = 126 then
        abind (get_bytes env 2 ''couldn't read extended payload length bytes (2)'') (\<lambda>bs.
        aret (ucast (deserialize_u16_be_to_host (h2_order env) bs)))
      else if payload_len = 127 then
        abind (get_bytes env 8 ''couldn't read extended payload length bytes (8)'') (\<lambda>bs.
        aret (deserialize_u64_be_to_host (h2_order env) bs))
      else aret (ucast payload_len))"

definition unmask :: "bytes \<Rightarrow> bytes \<Rightarrow> (string, bytes) res" where
  "unmask mask_bytes payload =
     (if payload = [] then Ok payload
      else if length mask_bytes < 4 then Undef OutOfBounds
      else Ok (map (\<lambda>(i, b). b XOR mask_bytes ! (i mod 4)) (enumerate 0 payload)))"

definition read_raw_message :: "'d h2_env \<Rightarrow> u8 \<Rightarrow> (string, 'd BufferedReader, WebSocketRawMessage) act" where
  "read_raw_message env allowed_rsv_bytes =
     abind (get_bytes env 2 ''couldn't read header bytes (2)'') (\<lambda>header_bytes.
     abind (alift (get_raw_header (header_bytes ! 0) (header_bytes ! 1) allowed_rsv_bytes)) (\<lambda>raw_header.
     abind (read_payload_length env (ro_payload_len raw_header)) (\<lambda>payload_len.
     abind (if ro_has_mask raw_header
            then abind (get_bytes env 4 ''couldn't read mask bytes (4)'')
                   (\<lambda>bs. aret (sized_buffer_allocate_from_readonly_buffer (h2_alloc env) bs))
            else aret []) (\<lambda>mask_bytes.
     abind (if payload_len \<noteq> 0
            then abind (get_bytes env (unat payload_len) ''couldn't read payload bytes'')
                   (\<lambda>bs. aret (sized_buffer_allocate_from_readonly_buffer (h2_alloc env) bs))
            else aret []) (\<lambda>payload.
     abind (alift (if ro_has_mask raw_header then unmask mask_bytes payload else Ok payload)) (\<lambda>payload'.
     aret \<lparr>wr_fin = ro_fin raw_header, wr_op_code = ro_op_code raw_header, wr_payload = payload',
           wr_rsv_bytes = ro_rsv_bytes raw_header\<rparr>))))))"

section \<open>Writing a frame\<close>

definition payload_additional_len :: "nat \<Rightarrow> nat" where
  "payload_additional_len n = (if n < 126 then 0 else if n < 0x10000 then 2 else 8)"

definition header_one :: "WebSocketRawMessage \<Rightarrow> u8" where
  "header_one m = push_bit 7 (if wr_fin m then 1 else 0) OR push_bit 4 (wr_rsv_bytes m AND 7) OR (wr_op_code m AND 15)"

definition header_two :: "bool \<Rightarrow> nat \<Rightarrow> u8" where
  "header_two has_mask n =
     push_bit 7 (if has_mask then 1 else 0) OR
     ((if payload_additional_len n = 0 then word_of_nat n else if payload_additional_len n = 2 then 126 else 127) AND 0x7F)"

text \<open>The block of a frame, written piece by piece; the mask is the memory of a random number.\<close>

definition frame_block :: "'d h2_env \<Rightarrow> WebSocketRawMessage \<Rightarrow> bool \<Rightarrow> u32 \<Rightarrow> (unit, bytes) res" where
  "frame_block env m has_mask mask_byte =
     (let n = length (wr_payload m); additional = payload_additional_len n; mask_len = (if has_mask then 4 else 0);
          header_offset = 2 + additional + mask_len; frame_size = size_add header_offset n;
          mask_bytes = serialize_u32_host_to_host (h2_order env) mask_byte in
      if \<not> h2_alloc env frame_size then Err ()
      else
        rbind (memcpy_cells (replicate frame_size None) 0 [header_one m, header_two has_mask n]) (\<lambda>f1.
        rbind (if additional = 2 then memcpy_cells f1 2 (serialize_u16_host_to_be (h2_order env) (word_of_nat n))
               else if additional = 8 then memcpy_cells f1 2 (serialize_u64_host_to_be (h2_order env) (word_of_nat n))
               else Ok f1) (\<lambda>f2.
        rbind (if n \<noteq> 0 then memcpy_cells f2 header_offset (wr_payload m) else Ok f2) (\<lambda>f3.
        rbind (if has_mask
               then rbind (memcpy_cells f3 (2 + additional) mask_bytes) (\<lambda>f.
                    memcpy_cells f header_offset (map (\<lambda>(i, b). b XOR mask_bytes ! (i mod 4)) (enumerate 0 (wr_payload m))))
               else Ok f3) (\<lambda>f4. read_block f4)))))"

definition ws_send_message_raw_internal ::
  "'d h2_env \<Rightarrow> WebSocketRawMessage \<Rightarrow> bool \<Rightarrow> u32 \<Rightarrow> (unit, 'd ConnectionDescriptor, unit) act" where
  "ws_send_message_raw_internal env m has_mask mask_byte =
     abind (alift (frame_block env m has_mask mask_byte)) (\<lambda>resulting_frame.
     if is_control_op_code (wr_op_code m) \<and> \<not> wr_fin m then alift (Err ())
     else if is_control_op_code (wr_op_code m) \<and> length (wr_payload m) > 125 then alift (Err ())
     else (\<lambda>d. send_data_to_connection (h2_io env) d resulting_frame))"

section \<open>Messages\<close>

abbreviation buffer_bytes :: "SizedBuffer \<Rightarrow> bytes" where
  "buffer_bytes b \<equiv> (case b of None \<Rightarrow> [] | Some bs \<Rightarrow> bs)"

definition ws_send_message_internal_normal ::
  "'d h2_env \<Rightarrow> WebSocketMessage \<Rightarrow> bool \<Rightarrow> u32 \<Rightarrow> ExtensionSendState \<Rightarrow> (unit, 'd ConnectionDescriptor, unit) act" where
  "ws_send_message_internal_normal env message masked mask_byte send_state =
     abind (alift (extension_send_pipeline_process_start_message send_state 0)) (\<lambda>rsv_bytes.
     ws_send_message_raw_internal env
       \<lparr>wr_fin = True, wr_op_code = (if wm_is_text message then WsOpcodeText else WsOpcodeBin),
        wr_payload = buffer_bytes (wm_buffer message), wr_rsv_bytes = rsv_bytes\<rparr> masked mask_byte)"

text \<open>
  The frame that begins at \<open>start\<close>. The first frame is passed to the function for continuations and the continuations to
  the one for first frames.
\<close>

definition fragment ::
  "WebSocketMessage \<Rightarrow> ExtensionSendState \<Rightarrow> nat \<Rightarrow> nat \<Rightarrow> (unit, WebSocketRawMessage) res" where
  "fragment message send_state fragment_size offset =
     (let buffer = buffer_bytes (wm_buffer message); fin = (offset + fragment_size \<ge> length buffer) in
      rbind (if offset \<noteq> 0 then extension_send_pipeline_process_start_message send_state 0
             else extension_send_pipeline_process_cont_message send_state 0) (\<lambda>rsv_bytes.
      Ok \<lparr>wr_fin = fin,
          wr_op_code = (if offset = 0 then (if wm_is_text message then WsOpcodeText else WsOpcodeBin) else WsOpcodeCont),
          wr_payload = take (if fin then length buffer - offset else fragment_size) (drop offset buffer),
          wr_rsv_bytes = rsv_bytes\<rparr>))"

function fragments_loop ::
  "'d h2_env \<Rightarrow> WebSocketMessage \<Rightarrow> bool \<Rightarrow> u32 \<Rightarrow> nat \<Rightarrow> ExtensionSendState \<Rightarrow> nat \<Rightarrow> (unit, 'd ConnectionDescriptor, unit) act"
where
  "fragments_loop env message masked mask_byte fragment_size send_state offset =
     (if offset < length (buffer_bytes (wm_buffer message)) \<and> 0 < fragment_size then
        abind (alift (fragment message send_state fragment_size offset)) (\<lambda>raw_message.
        abind (ws_send_message_raw_internal env raw_message masked mask_byte) (\<lambda>_.
        fragments_loop env message masked mask_byte fragment_size send_state (offset + fragment_size)))
      else aret ())"
  by pat_completeness auto
termination
  by (relation "measure (\<lambda>(env, message, masked, mask_byte, fragment_size, send_state, offset).
      length (buffer_bytes (wm_buffer message)) - offset)") auto

declare fragments_loop.simps [simp del]

definition ws_send_message_internal_fragmented ::
  "'d h2_env \<Rightarrow> WebSocketMessage \<Rightarrow> bool \<Rightarrow> u32 \<Rightarrow> nat \<Rightarrow> ExtensionSendState \<Rightarrow> (unit, 'd ConnectionDescriptor, unit) act" where
  "ws_send_message_internal_fragmented env message masked mask_byte fragment_size send_state =
     (let fragment_size = (if fragment_size < 16 then 16 else fragment_size) in
      if length (buffer_bytes (wm_buffer message)) < fragment_size
      then ws_send_message_internal_normal env message masked mask_byte send_state
      else fragments_loop env message masked mask_byte fragment_size send_state 0)"

datatype WsFragmentOption = WsFragmentOptionOff | WsFragmentOptionAuto | WsFragmentOptionSet nat

record WsConnectionArgs =
  wa_fragment_option :: WsFragmentOption
  wa_extensions :: "WSExtension list"
  wa_trace :: bool

text \<open>\<open>sndbuf\<close> is the size of the send buffer of the socket, if it could be asked for.\<close>

definition auto_fragment_size :: "int option \<Rightarrow> nat" where
  "auto_fragment_size sndbuf =
     (case sndbuf of None \<Rightarrow> 4096 - 14 | Some buffer_size \<Rightarrow> if buffer_size \<ge> 14 then nat buffer_size - 14 else 4096 - 14)"

definition ws_send_message_internal ::
  "'d h2_env \<Rightarrow> ws_env \<Rightarrow> int option \<Rightarrow> WebSocketMessage \<Rightarrow> bool \<Rightarrow> u32 \<Rightarrow> WsConnectionArgs \<Rightarrow> ExtensionSendState
     \<Rightarrow> (unit, 'd ConnectionDescriptor, unit) act" where
  "ws_send_message_internal env ws sndbuf message masked mask_byte args send_state =
     abind (alift (map_err (\<lambda>_. ()) (extension_send_pipeline_process_initial_message ws send_state message))) (\<lambda>message'.
     case wa_fragment_option args of
       WsFragmentOptionOff \<Rightarrow> ws_send_message_internal_normal env message' masked mask_byte send_state
     | WsFragmentOptionAuto \<Rightarrow>
         ws_send_message_internal_fragmented env message' masked mask_byte (auto_fragment_size sndbuf) send_state
     | WsFragmentOptionSet fragment_size \<Rightarrow>
         ws_send_message_internal_fragmented env message' masked mask_byte fragment_size send_state)"

definition ws_send_message ::
  "'d h2_env \<Rightarrow> ws_env \<Rightarrow> int option \<Rightarrow> u32 \<Rightarrow> WebSocketMessage \<Rightarrow> WsConnectionArgs \<Rightarrow> ExtensionSendState
     \<Rightarrow> (unit, 'd ConnectionDescriptor, unit) act" where
  "ws_send_message env ws sndbuf mask_byte message args send_state =
     ws_send_message_internal env ws sndbuf message False mask_byte args send_state"

section \<open>Close reasons\<close>

record CloseReason =
  cr_code :: u16
  cr_message :: "bytes option"

definition maybe_parse_close_reason :: "byte_order \<Rightarrow> WebSocketRawMessage \<Rightarrow> bool \<Rightarrow> CloseReason option" where
  "maybe_parse_close_reason ord m also_parse_message =
     (if wr_op_code m \<noteq> WsOpcodeClose then None
      else if length (wr_payload m) < 2 then None
      else
        (let code = deserialize_u16_be_to_host ord (wr_payload m) in
         if length (wr_payload m) > 125 then None
         else if length (wr_payload m) > 2 \<and> also_parse_message
         then Some \<lparr>cr_code = code, cr_message = Some (drop 2 (wr_payload m))\<rparr>
         else Some \<lparr>cr_code = code, cr_message = None\<rparr>))"

definition is_valid_close_code :: "u16 \<Rightarrow> bool" where
  "is_valid_close_code close_code =
     (if close_code \<le> 999 then False
      else if close_code \<ge> 3000 \<and> close_code \<le> 4999 then True
      else if close_code \<ge> 1000 \<and> close_code \<le> 2999 then
        (if close_code \<ge> 1004 \<and> close_code \<le> 1006 then False else if close_code \<ge> 1015 then False else True)
      else False)"

definition ws_send_close_message_raw_internal ::
  "'d h2_env \<Rightarrow> u32 \<Rightarrow> CloseReason \<Rightarrow> (unit, 'd ConnectionDescriptor, unit) act" where
  "ws_send_close_message_raw_internal env mask_byte reason =
     (let message = (case cr_message reason of None \<Rightarrow> [] | Some t \<Rightarrow> t) in
      if \<not> h2_alloc env (2 + length message) then alift (Err ())
      else
        ws_send_message_raw_internal env
          \<lparr>wr_fin = True, wr_op_code = WsOpcodeClose,
           wr_payload = serialize_u16_host_to_be (h2_order env) (cr_code reason) @ message, wr_rsv_bytes = 0\<rparr> False mask_byte)"

section \<open>The bytes of a frame\<close>

definition masked_bytes :: "bytes \<Rightarrow> bytes \<Rightarrow> bytes" where
  "masked_bytes mask_bytes payload = map (\<lambda>(i, b). b XOR mask_bytes ! (i mod 4)) (enumerate 0 payload)"

definition length_bytes :: "nat \<Rightarrow> bytes" where
  "length_bytes n =
     (if payload_additional_len n = 2 then rev (le_bytes 2 (word_of_nat n :: u16))
      else if payload_additional_len n = 8 then rev (le_bytes 8 (word_of_nat n :: u64)) else [])"

definition frame_bytes :: "WebSocketRawMessage \<Rightarrow> bytes option \<Rightarrow> bytes" where
  "frame_bytes m mask_bytes =
     [header_one m, header_two (mask_bytes \<noteq> None) (length (wr_payload m))] @ length_bytes (length (wr_payload m)) @
     (case mask_bytes of None \<Rightarrow> wr_payload m | Some k \<Rightarrow> k @ masked_bytes k (wr_payload m))"

definition mask_of :: "'d h2_env \<Rightarrow> bool \<Rightarrow> u32 \<Rightarrow> bytes option" where
  "mask_of env has_mask mask_byte =
     (if has_mask then Some (serialize_u32_host_to_host (h2_order env) mask_byte) else None)"

lemma memcpy_between:
  "length b = length xs \<Longrightarrow> n = length a \<Longrightarrow> memcpy_cells (a @ b @ c) n xs = (Ok (a @ map Some xs @ c) :: (unit, _) res)"
  by (simp add: memcpy_cells_def)

lemma length_masked [simp]: "length (masked_bytes k payload) = length payload"
  by (simp add: masked_bytes_def)

lemma length_length_bytes [simp]: "length (length_bytes n) = payload_additional_len n"
  by (simp add: length_bytes_def payload_additional_len_def)

lemma frame_block_bytes:
  assumes "\<forall>n. h2_alloc env n" "length (wr_payload m) < 2 ^ 63"
  shows "frame_block env m has_mask mask_byte = Ok (frame_bytes m (mask_of env has_mask mask_byte))"
proof -
  let ?n = "length (wr_payload m)" let ?add = "payload_additional_len ?n" and ?mk = "if has_mask then 4 else (0 :: nat)"
  let ?k = "serialize_u32_host_to_host (h2_order env) mask_byte"
  let ?H = "[header_one m, header_two has_mask ?n]" and ?L = "length_bytes ?n" and ?R = "\<lambda>k. replicate k None :: membuf"
  have k: "length ?k = 4" by (simp add: serialize_u32_host_to_host_def memcpy_out_def split: byte_order.split)
  have sz: "size_add (2 + ?add + ?mk) ?n = 2 + ?add + ?mk + ?n"
    using assms(2) by (intro size_add_exact) (simp add: payload_additional_len_def)
  have block: "?R (2 + ?add + ?mk + ?n) = ?R 2 @ ?R ?add @ ?R ?mk @ ?R ?n" by (simp add: replicate_add [symmetric] ac_simps)
  have f1: "memcpy_cells (?R 2 @ ?R ?add @ ?R ?mk @ ?R ?n) 0 ?H = (Ok (map Some ?H @ ?R ?add @ ?R ?mk @ ?R ?n) :: (unit, _) res)"
    using memcpy_between [of "?R 2" ?H 0 "[]" "?R ?add @ ?R ?mk @ ?R ?n"] by simp
  have f2: "(if ?add = 2 then memcpy_cells (map Some ?H @ ?R ?add @ ?R ?mk @ ?R ?n) 2 (serialize_u16_host_to_be (h2_order env) (word_of_nat ?n))
      else if ?add = 8 then memcpy_cells (map Some ?H @ ?R ?add @ ?R ?mk @ ?R ?n) 2 (serialize_u64_host_to_be (h2_order env) (word_of_nat ?n))
      else Ok (map Some ?H @ ?R ?add @ ?R ?mk @ ?R ?n)) = (Ok (map Some (?H @ ?L) @ ?R ?mk @ ?R ?n) :: (unit, _) res)"
    using memcpy_between [of "?R ?add" ?L 2 "map Some ?H" "?R ?mk @ ?R ?n"]
    by (auto simp: serialize_be_bytes length_bytes_def payload_additional_len_def)
  have f3: "(if ?n \<noteq> 0 then memcpy_cells (map Some (?H @ ?L) @ ?R ?mk @ ?R ?n) (2 + ?add + ?mk) (wr_payload m)
      else Ok (map Some (?H @ ?L) @ ?R ?mk @ ?R ?n)) = (Ok (map Some (?H @ ?L) @ ?R ?mk @ map Some (wr_payload m)) :: (unit, _) res)"
    using memcpy_between [of "?R ?n" "wr_payload m" "2 + ?add + ?mk" "map Some (?H @ ?L) @ ?R ?mk" "[]"]
    by (cases has_mask) simp_all
  have f4: "(if has_mask then rbind (memcpy_cells (map Some (?H @ ?L) @ ?R ?mk @ map Some (wr_payload m)) (2 + ?add) ?k) (\<lambda>f.
        memcpy_cells f (2 + ?add + ?mk) (masked_bytes ?k (wr_payload m)))
      else Ok (map Some (?H @ ?L) @ ?R ?mk @ map Some (wr_payload m))) =
      (Ok (map Some (frame_bytes m (mask_of env has_mask mask_byte))) :: (unit, _) res)"
    using memcpy_between [of "?R ?mk" ?k "2 + ?add" "map Some (?H @ ?L)" "map Some (wr_payload m)"]
      memcpy_between [of "map Some (wr_payload m)" "masked_bytes ?k (wr_payload m)" "2 + ?add + 4" "map Some (?H @ ?L @ ?k)" "[]"] k
    by (cases has_mask) (simp_all add: frame_bytes_def mask_of_def)
  show ?thesis
    using assms(1) unfolding frame_block_def Let_def sz block f1 rbind.simps f2 f3 masked_bytes_def [symmetric] f4
    by (simp add: read_block_map_Some)
qed

section \<open>Header bits\<close>

lemma masks: "(7 :: u8) = mask 3" "(15 :: u8) = mask 4" "(127 :: u8) = mask 7"
  by (simp_all add: mask_eq_exp_minus_1)

lemma mask_bits: "bit (1 :: u8) i \<longleftrightarrow> i = 0" "bit (7 :: u8) i \<longleftrightarrow> i < 3" "bit (15 :: u8) i \<longleftrightarrow> i < 4" "bit (127 :: u8) i \<longleftrightarrow> i < 7"
  unfolding masks by (auto simp: bit_mask_iff bit_1_iff)

lemma small_and: "w < 8 \<Longrightarrow> w AND 7 = w" "w < 16 \<Longrightarrow> w AND 15 = w" "w < 128 \<Longrightarrow> w AND 127 = w" for w :: u8
  unfolding masks by (rule less_mask_eq; simp)+

lemma header_one_bits:
  assumes "wr_op_code m < 16" "wr_rsv_bytes m < 8"
  shows "drop_bit 7 (header_one m) AND 1 = (if wr_fin m then 1 else 0)"
    and "drop_bit 4 (header_one m) AND 7 = wr_rsv_bytes m" and "header_one m AND 15 = wr_op_code m"
proof -
  have op: "bit (wr_op_code m) i \<Longrightarrow> i < 4" for i using small_and(2) [OF assms(1)] by (metis bit_and_iff mask_bits(3))
  have rsv: "bit (wr_rsv_bytes m) i \<Longrightarrow> i < 3" for i using small_and(1) [OF assms(2)] by (metis bit_and_iff mask_bits(2))
  note bits = header_one_def bit_and_iff bit_or_iff bit_push_bit_iff bit_drop_bit_eq mask_bits
  show "drop_bit 7 (header_one m) AND 1 = (if wr_fin m then 1 else 0)"
    by (rule bit_word_eqI) (auto simp: bits simp del: bit_numeral_word_iff dest: op rsv)
  show "drop_bit 4 (header_one m) AND 7 = wr_rsv_bytes m"
    by (rule bit_word_eqI) (auto simp: bits simp del: bit_numeral_word_iff dest: op rsv)
  show "header_one m AND 15 = wr_op_code m"
    by (rule bit_word_eqI) (auto simp: bits simp del: bit_numeral_word_iff dest: op)
qed

definition short_length :: "nat \<Rightarrow> u8" where
  "short_length n = (if payload_additional_len n = 0 then word_of_nat n else if payload_additional_len n = 2 then 126 else 127)"

lemma short_length_small: "short_length n < 128"
  by (auto simp: short_length_def payload_additional_len_def word_less_nat_alt)

lemma header_two_bits:
  shows "drop_bit 7 (header_two has_mask n) AND 1 = (if has_mask then 1 else 0)" and "header_two has_mask n AND 127 = short_length n"
proof -
  have len: "bit (short_length n) i \<Longrightarrow> i < 7" for i
    using small_and(3) [OF short_length_small, of n] by (metis bit_and_iff mask_bits(4))
  have two: "header_two has_mask n = push_bit 7 (if has_mask then 1 else 0) OR short_length n"
    using small_and(3) [OF short_length_small, of n] by (simp add: header_two_def short_length_def)
  note bits = two bit_and_iff bit_or_iff bit_push_bit_iff bit_drop_bit_eq mask_bits
  show "drop_bit 7 (header_two has_mask n) AND 1 = (if has_mask then 1 else 0)"
    by (rule bit_word_eqI) (auto simp: bits simp del: bit_numeral_word_iff dest: len)
  show "header_two has_mask n AND 127 = short_length n"
    by (rule bit_word_eqI) (auto simp: bits simp del: bit_numeral_word_iff dest: len)
qed

lemma raw_header_read:
  assumes "wr_op_code m < 16" "wr_rsv_bytes m < 8" "wr_rsv_bytes m OR allowed = allowed"
  shows "get_raw_header (header_one m) (header_two has_mask n) allowed =
    Ok \<lparr>ro_fin = wr_fin m, ro_op_code = wr_op_code m, ro_has_mask = has_mask, ro_payload_len = short_length n,
        ro_rsv_bytes = wr_rsv_bytes m\<rparr>"
  using assms(3) by (auto simp: get_raw_header_def Let_def header_one_bits [OF assms(1,2)] header_two_bits)

section \<open>Reading back what was written\<close>

definition at_bytes :: "'d h2_env \<Rightarrow> ('d \<Rightarrow> bytes) \<Rightarrow> ('d \<Rightarrow> bytes) \<Rightarrow> bytes \<Rightarrow> 'd BufferedReader \<Rightarrow> bool" where
  "at_bytes env incoming outgoing xs reader \<longleftrightarrow>
     reader_ready (h2_alloc env) (h2_io env) incoming outgoing reader \<and> pending incoming reader = xs"

lemma abind_assoc: "abind (abind m f) g = abind m (\<lambda>x. abind (f x) g)"
  by (rule ext) (auto simp: abind_def split: prod.splits res.splits)

lemma take_bits_of_length:
  "n < 256 \<Longrightarrow> take_bit 8 n = n" "n < 65536 \<Longrightarrow> take_bit 16 n = n" "n < 2 ^ 63 \<Longrightarrow> take_bit 64 n = n" for n :: nat
  by (simp_all add: take_bit_nat_eq_self)

text \<open>\<open>consumes env incoming outgoing act bs x\<close>: on a working reader that has \<open>bs\<close> ahead, the action takes them and yields \<open>x\<close>.\<close>

definition consumes ::
  "'d h2_env \<Rightarrow> ('d \<Rightarrow> bytes) \<Rightarrow> ('d \<Rightarrow> bytes) \<Rightarrow> (string, 'd BufferedReader, 'a) act \<Rightarrow> bytes \<Rightarrow> 'a \<Rightarrow> bool" where
  "consumes env incoming outgoing act bs x \<longleftrightarrow>
     (\<forall>reader rest. at_bytes env incoming outgoing (bs @ rest) reader \<longrightarrow>
        (\<exists>reader'. act reader = (Ok x, reader') \<and> at_bytes env incoming outgoing rest reader'))"

lemma consumes_abind:
  "consumes env incoming outgoing act as x \<Longrightarrow> consumes env incoming outgoing (f x) bs y \<Longrightarrow>
   consumes env incoming outgoing (abind act f) (as @ bs) y"
  by (fastforce simp: consumes_def abind_def)

lemma consumes_aret: "consumes env incoming outgoing (aret x) [] x"
  by (simp add: consumes_def aret_def)

lemma consumes_alift: "r = Ok x \<Longrightarrow> consumes env incoming outgoing (alift r) [] x"
  by (simp add: consumes_def alift_def)

lemma consumes_then: "consumes env incoming outgoing act as x \<Longrightarrow> consumes env incoming outgoing (f x) [] y \<Longrightarrow>
   consumes env incoming outgoing (abind act f) as y"
  using consumes_abind [of env incoming outgoing act as x f "[]" y] by simp

lemma consumes_get_bytes:
  assumes "length bs = n" "n < 2 ^ 31"
  shows "consumes env incoming outgoing (get_bytes env n message) bs bs"
  unfolding consumes_def at_bytes_def
proof (intro allI impI)
  fix reader rest assume "reader_ready (h2_alloc env) (h2_io env) incoming outgoing reader \<and> pending incoming reader = bs @ rest"
  with get_amount_ready [of "h2_alloc env" "h2_io env" incoming outgoing reader n] assms
  show "\<exists>reader'. get_bytes env n message reader = (Ok bs, reader') \<and>
      reader_ready (h2_alloc env) (h2_io env) incoming outgoing reader' \<and> pending incoming reader' = rest"
    by (auto simp: get_bytes_def)
qed

lemma consumes_copy:
  assumes "length bs = n" "n < 2 ^ 31" "\<forall>m. h2_alloc env m"
  shows "consumes env incoming outgoing
    (abind (get_bytes env n message) (\<lambda>bs. aret (sized_buffer_allocate_from_readonly_buffer (h2_alloc env) bs))) bs bs"
  by (rule consumes_then [OF consumes_get_bytes]) (use assms consumes_aret in \<open>auto simp: sized_buffer_allocate_from_readonly_buffer_def\<close>)

lemma consumes_length:
  assumes "n < 2 ^ 63"
  shows "consumes env incoming outgoing (read_payload_length env (short_length n)) (length_bytes n) (word_of_nat n)"
proof -
  consider "n < 126" | "126 \<le> n" "n < 0x10000" | "0x10000 \<le> n" by linarith
  then show ?thesis
  proof cases
    case 1
    then have "(word_of_nat n :: u8) \<noteq> 126" "(word_of_nat n :: u8) \<noteq> 127" "ucast (word_of_nat n :: u8) = (word_of_nat n :: u64)"
      by (simp_all add: word_unat_eq_iff unsigned_of_nat take_bits_of_length unsigned_ucast_eq)
    with 1 show ?thesis
      using consumes_aret by (simp add: short_length_def length_bytes_def payload_additional_len_def read_payload_length_def)
  next
    case 2
    let ?b = "rev (le_bytes 2 (word_of_nat n :: u16))"
    have *: "length_bytes n = ?b" "short_length n = 126"
      using 2 by (simp_all add: length_bytes_def short_length_def payload_additional_len_def)
    have "ucast (word_of_nat n :: u16) = (word_of_nat n :: u64)"
      using 2 by (simp add: word_unat_eq_iff unsigned_of_nat take_bits_of_length unsigned_ucast_eq)
    then have "ucast (deserialize_u16_be_to_host (h2_order env) ?b) = (word_of_nat n :: u64)"
      by (simp add: deserialize_be_bytes of_le_bytes_le_bytes)
    then have "consumes env incoming outgoing (aret (ucast (deserialize_u16_be_to_host (h2_order env) ?b))) [] (word_of_nat n :: u64)"
      by (simp add: consumes_aret)
    then show ?thesis
      unfolding read_payload_length_def * by (simp, intro consumes_then [OF consumes_get_bytes]) simp_all
  next
    case 3
    let ?b = "rev (le_bytes 8 (word_of_nat n :: u64))"
    have *: "length_bytes n = ?b" "short_length n = 127"
      using 3 by (simp_all add: length_bytes_def short_length_def payload_additional_len_def)
    have "deserialize_u64_be_to_host (h2_order env) ?b = (word_of_nat n :: u64)"
      by (simp add: deserialize_be_bytes of_le_bytes_le_bytes)
    then have "consumes env incoming outgoing (aret (deserialize_u64_be_to_host (h2_order env) ?b)) [] (word_of_nat n :: u64)"
      by (simp add: consumes_aret)
    then show ?thesis
      unfolding read_payload_length_def * by (simp, intro consumes_then [OF consumes_get_bytes]) simp_all
  qed
qed

lemma unmask_masked: "length k = 4 \<Longrightarrow> unmask k (masked_bytes k payload) = Ok payload"
  by (auto simp: unmask_def masked_bytes_def enumerate_eq_zip xor.assoc zip_map2 intro!: nth_equalityI)

lemma consumes_frame:
  assumes "\<And>k. mask_bytes = Some k \<Longrightarrow> length k = 4" "\<forall>n. h2_alloc env n"
    and "wr_op_code m < 16" "wr_rsv_bytes m < 8" "wr_rsv_bytes m OR allowed = allowed" "length (wr_payload m) < 2 ^ 31"
  shows "consumes env incoming outgoing (read_raw_message env allowed) (frame_bytes m mask_bytes) m"
proof -
  let ?n = "length (wr_payload m)" and ?b = "mask_bytes \<noteq> None" and ?k = "case mask_bytes of None \<Rightarrow> [] | Some k \<Rightarrow> k"
  let ?p = "case mask_bytes of None \<Rightarrow> wr_payload m | Some k \<Rightarrow> masked_bytes k (wr_payload m)"
  have bytes: "frame_bytes m mask_bytes = [header_one m, header_two ?b ?n] @ [] @ length_bytes ?n @ ?k @ ?p @ []"
    by (cases mask_bytes) (simp_all add: frame_bytes_def)
  have n: "unat (word_of_nat ?n :: u64) = ?n" "(word_of_nat ?n :: u64) = 0 \<longleftrightarrow> ?n = 0"
    using assms(6) by (simp_all add: unsigned_of_nat take_bits_of_length word_unat_eq_iff)
  have p: "length ?p = ?n" by (cases mask_bytes) simp_all
  have unmasked: "(if ?b then unmask ?k ?p else Ok ?p) = (Ok (wr_payload m) :: (string, _) res)"
    using assms(1) by (cases mask_bytes) (simp_all add: unmask_masked)
  have mask_read: "consumes env incoming outgoing (if ?b then abind (get_bytes env 4 message)
      (\<lambda>bs. aret (sized_buffer_allocate_from_readonly_buffer (h2_alloc env) bs)) else aret []) ?k ?k" for message
    using assms(1,2) by (cases mask_bytes) (auto intro!: consumes_aret consumes_copy)
  have payload_read: "consumes env incoming outgoing (if (word_of_nat ?n :: u64) \<noteq> 0 then abind (get_bytes env (unat (word_of_nat ?n :: u64)) message)
      (\<lambda>bs. aret (sized_buffer_allocate_from_readonly_buffer (h2_alloc env) bs)) else aret []) ?p ?p" for message
  proof (cases "?n = 0")
    case True
    with p have "?p = []" by simp
    with True show ?thesis by (simp only: n) (simp add: consumes_aret)
  next
    case False
    then show ?thesis unfolding n using consumes_copy [OF p] assms(2,6) by simp
  qed
  show ?thesis
    unfolding read_raw_message_def bytes
    by (rule consumes_abind [OF consumes_get_bytes], simp, simp, rule consumes_abind [OF consumes_alift],
        simp only: nth_Cons_0 nth_Cons_Suc One_nat_def, rule raw_header_read [OF assms(3-5)],
        unfold RawHeaderOne.simps, rule consumes_abind [OF consumes_length], use assms(6) in simp,
        rule consumes_abind [OF mask_read], rule consumes_abind [OF payload_read])
      (unfold unmasked, simp add: consumes_def alift_def abind_def aret_def)
qed

lemma length_host_u32: "length (serialize_u32_host_to_host ord w) = 4"
  by (simp add: serialize_u32_host_to_host_def memcpy_out_def split: byte_order.split)

definition ws_frame_ok :: "WebSocketRawMessage \<Rightarrow> bool" where
  "ws_frame_ok m \<longleftrightarrow>
     wr_op_code m < 16 \<and> wr_rsv_bytes m < 8 \<and> length (wr_payload m) < 2 ^ 31 \<and>
     (is_control_op_code (wr_op_code m) \<longrightarrow> wr_fin m \<and> length (wr_payload m) \<le> 125)"

lemma send_frame_ready:
  assumes "reliable_io (h2_io env) incoming outgoing" "\<forall>n. h2_alloc env n" "ws_frame_ok m"
  shows "\<exists>d'. ws_send_message_raw_internal env m has_mask mask_byte d = (Ok (), d') \<and>
    outgoing (channel d') = outgoing (channel d) @ frame_bytes m (mask_of env has_mask mask_byte)"
proof -
  have "frame_block env m has_mask mask_byte = Ok (frame_bytes m (mask_of env has_mask mask_byte))"
    using assms(2,3) by (intro frame_block_bytes) (auto simp: ws_frame_ok_def)
  with send_reliable [OF assms(1), of d "frame_bytes m (mask_of env has_mask mask_byte)"] assms(3) show ?thesis
    by (auto simp: ws_send_message_raw_internal_def abind_def alift_def ws_frame_ok_def)
qed


definition hello_frame :: WebSocketRawMessage where
  "hello_frame = \<lparr>wr_fin = True, wr_op_code = WsOpcodeText, wr_payload = [72, 105], wr_rsv_bytes = 0\<rparr>"

lemma hello_frame_bytes: "frame_bytes hello_frame (mask_of (pipe_env k) True 0x04030201) = [0x81, 0x82, 1, 2, 3, 4, 73, 107]"
proof -
  have "mask_of (pipe_env k) True 0x04030201 = Some [1, 2, 3, 4]"
    by (simp add: mask_of_def pipe_env_def) code_simp
  moreover have "frame_bytes hello_frame (Some [1, 2, 3, 4]) = [0x81, 0x82, 1, 2, 3, 4, 73, 107]" by code_simp
  ultimately show ?thesis by simp
qed


end
