(* ===== verification/Ws_Listener.thy ===== *)
theory Ws_Listener
  imports Ws_Frame Utf8_Helper
begin

text \<open>
  The WebSocket listener and its manager (\<open>src/src/ws/thread_manager.c\<close>, the second half; \<open>src/src/ws/handler.c\<close>).

  A \<open>WebSocketConnection*\<close> is an address in \<open>ww_heap\<close>, which maps the connections that are not freed to their readers; using
  another address is \<open>UseAfterFree\<close>. The list of the manager is the list of the addresses of its nodes. Calls of
  \<open>pthread\<close> functions succeed as \<open>li_threads\<close> says, and locking a locked mutex does not return (\<open>None\<close>). The call that
  closes a descriptor is \<open>li_close\<close>; its result is not looked at.

  The theorems: a message arrives at the application as it was sent, in one frame or in fragments; the fragments of a compressed
  message end the connection; a failed \<open>thread_manager_add_connection\<close> leaves the mutex locked.
\<close>

section \<open>Data\<close>

datatype ThreadCall = MutexInit | MutexLock | MutexUnlock | MutexDestroy | ThreadCreate | ThreadDetach | ThreadCancel

datatype WebSocketAction = WebSocketActionContinue | WebSocketActionError | WebSocketActionClose

record 'd ws_world =
  ww_heap :: "nat \<rightharpoonup> 'd BufferedReader"
  ww_locked :: bool
  ww_nodes :: "nat list"

record 'd listener_env =
  li_h2 :: "'d h2_env"
  li_ws :: ws_env
  li_threads :: "ThreadCall \<Rightarrow> bool"
  li_close :: "'d ConnectionDescriptor \<Rightarrow> 'd ConnectionDescriptor"
  li_decompose :: "bytes \<Rightarrow> bytes + codepoints"
  li_mask :: u32
  li_sndbuf :: "int option"

definition CloseCodeNormalClosure :: u16 where "CloseCodeNormalClosure = 1000"
definition CloseCodeGoingAway :: u16 where "CloseCodeGoingAway = 1001"
definition CloseCodeProtocolError :: u16 where "CloseCodeProtocolError = 1002"
definition CloseCodeInvalidFramePayloadData :: u16 where "CloseCodeInvalidFramePayloadData = 1007"

text \<open>Actions on the reader of a connection.\<close>

definition on_connection :: "nat \<Rightarrow> ('e, 'd BufferedReader, 'a) act \<Rightarrow> ('e, 'd ws_world, 'a) act" where
  "on_connection connection m =
     (\<lambda>w. case ww_heap w connection of
        None \<Rightarrow> (Undef UseAfterFree, w)
      | Some reader \<Rightarrow> (case m reader of (r, reader') \<Rightarrow> (r, w\<lparr>ww_heap := (ww_heap w)(connection \<mapsto> reader')\<rparr>)))"

definition send_on :: "nat \<Rightarrow> (unit, 'd ConnectionDescriptor, 'a) act \<Rightarrow> (unit, 'd ws_world, 'a) act" where
  "send_on connection m = on_connection connection (on_descriptor m)"

section \<open>The manager\<close>

definition mutex_lock :: "'d listener_env \<Rightarrow> (unit, 'd ws_world, unit) loop_act" where
  "mutex_lock env =
     (\<lambda>w. if \<not> li_threads env MutexLock then Some (Err (), w)
          else if ww_locked w then None else Some (Ok (), w\<lparr>ww_locked := True\<rparr>))"

definition mutex_unlock :: "'d listener_env \<Rightarrow> (unit, 'd ws_world, unit) loop_act" where
  "mutex_unlock env =
     (\<lambda>w. if \<not> li_threads env MutexUnlock then Some (Err (), w) else Some (Ok (), w\<lparr>ww_locked := False\<rparr>))"

definition initialize_thread_manager :: "'d listener_env \<Rightarrow> 'd ws_world option" where
  "initialize_thread_manager env =
     (if \<not> h2_alloc (li_h2 env) 1 then None
      else if \<not> li_threads env MutexInit then None
      else Some \<lparr>ww_heap = Map.empty, ww_locked = False, ww_nodes = []\<rparr>)"

text \<open>
  Walking the list up to a connection: a node is freed with its connection, and reading a freed node is undefined.
\<close>

definition walk_nodes :: "nat \<Rightarrow> (unit, 'd ws_world, bool) act" where
  "walk_nodes connection =
     (\<lambda>w. if \<forall>n \<in> set (takeWhile (\<lambda>n. n \<noteq> connection) (ww_nodes w)). ww_heap w n \<noteq> None
          then (Ok (connection \<in> set (ww_nodes w)), w) else (Undef UseAfterFree, w))"

text \<open>
  \<open>allocs\<close> says which of the three allocations succeed: the connection, the node, the argument of the thread. A failed call
  returns at once, whatever was locked or linked by then. The address of the new connection is not in use.
\<close>

record add_allocs =
  al_connection :: bool
  al_node :: bool
  al_argument :: bool

definition thread_manager_add_connection ::
  "'d listener_env \<Rightarrow> add_allocs \<Rightarrow> nat \<Rightarrow> 'd BufferedReader \<Rightarrow> (unit, 'd ws_world, nat) loop_act" where
  "thread_manager_add_connection env allocs connection reader =
     lbind (mutex_lock env) (\<lambda>_ w.
     if \<not> al_connection allocs then Some (Err (), w)
     else lbind (lact (walk_nodes connection)) (\<lambda>_ w.
       if \<not> al_node allocs then Some (Err (), w)
       else
       (let w1 = w\<lparr>ww_heap := (ww_heap w)(connection \<mapsto> reader), ww_nodes := ww_nodes w @ [connection]\<rparr> in
        if \<not> al_argument allocs then Some (Err (), w1)
        else if \<not> li_threads env ThreadCreate then Some (Err (), w1)
        else if \<not> li_threads env ThreadDetach then Some (Err (), w1)
        else lbind (mutex_unlock env) (\<lambda>_. lret connection) w1)) w)"

definition free_connection :: "'d listener_env \<Rightarrow> nat \<Rightarrow> bool \<Rightarrow> (unit, 'd ws_world, unit) act" where
  "free_connection env connection send_go_away =
     abind (if send_go_away
            then (\<lambda>w. case send_on connection (ws_send_close_message_raw_internal (li_h2 env) (li_mask env)
                      \<lparr>cr_code = CloseCodeGoingAway, cr_message = Some (lit ''Server is shutting down'')\<rparr>) w of
                (Err _, w') \<Rightarrow> (Ok (), w') | other \<Rightarrow> other)
            else aret ()) (\<lambda>_.
     abind (send_on connection (\<lambda>d. (Ok (), li_close env d))) (\<lambda>_ w.
     (Ok (), w\<lparr>ww_heap := (ww_heap w)(connection := None)\<rparr>)))"

definition thread_manager_remove_connection :: "'d listener_env \<Rightarrow> nat option \<Rightarrow> (unit, 'd ws_world, unit) loop_act" where
  "thread_manager_remove_connection env connection =
     (case connection of
        None \<Rightarrow> lerr ()
      | Some c \<Rightarrow>
          lbind (mutex_lock env) (\<lambda>_. lbind (lact (walk_nodes c)) (\<lambda>found w.
          if found
          then lbind (lact (free_connection env c False)) (\<lambda>_ w1.
               lbind (mutex_unlock env) (\<lambda>_. lret ()) (w1\<lparr>ww_nodes := remove1 c (ww_nodes w1)\<rparr>)) w
          else lbind (mutex_unlock env) (\<lambda>_. lerr ()) w)))"

fun remove_all_nodes :: "'d listener_env \<Rightarrow> nat list \<Rightarrow> (unit, 'd ws_world, bool) act" where
  "remove_all_nodes env [] = (\<lambda>w. (Ok True, w\<lparr>ww_nodes := []\<rparr>))"
| "remove_all_nodes env (c # cs) =
     (\<lambda>w. if ww_heap w c = None then (Undef UseAfterFree, w)
          else if \<not> li_threads env ThreadCancel then (Ok False, w)
          else abind (free_connection env c True) (\<lambda>_. remove_all_nodes env cs) w)"

definition thread_manager_remove_all_connections :: "'d listener_env \<Rightarrow> (unit, 'd ws_world, bool) act" where
  "thread_manager_remove_all_connections env = (\<lambda>w. remove_all_nodes env (ww_nodes w) w)"

definition free_thread_manager :: "'d listener_env \<Rightarrow> 'd ws_world \<Rightarrow> bool" where
  "free_thread_manager env w = (if \<not> li_threads env MutexDestroy then False else ww_nodes w = [])"

definition close_websocket_connection :: "'d listener_env \<Rightarrow> nat \<Rightarrow> CloseReason \<Rightarrow> (unit, 'd ws_world, unit) loop_act" where
  "close_websocket_connection env connection reason =
     (\<lambda>w. case send_on connection (ws_send_close_message_raw_internal (li_h2 env) (li_mask env) reason) w of
        (Undef u, w1) \<Rightarrow> Some (Undef u, w1)
      | (result, w1) \<Rightarrow>
          (case thread_manager_remove_connection env (Some connection) w1 of
             None \<Rightarrow> None
           | Some (Undef u, w2) \<Rightarrow> Some (Undef u, w2)
           | Some (result2, w2) \<Rightarrow>
               (if result \<noteq> Ok () then Some (Err (), w2)
                else if result2 \<noteq> Ok () then Some (Err (), w2) else Some (Ok (), w2))))"

section \<open>The listener\<close>

text \<open>What the inner loop keeps of the message under reception.\<close>

record reception =
  rc_has_message :: bool
  rc_message :: WebSocketMessage
  rc_state :: "bool option"

datatype frame_outcome = NextFrame reception | HandleMessage reception | ListenerEnd

definition no_reception :: "'d listener_env \<Rightarrow> ExtensionPipeline \<Rightarrow> reception" where
  "no_reception env pipeline =
     \<lparr>rc_has_message = False, rc_message = \<lparr>wm_is_text = True, wm_buffer = None\<rparr>,
      rc_state = init_extension_receive_message_state (li_ws env) pipeline\<rparr>"

text \<open>An error closes the connection and ends the thread, also when closing fails.\<close>

definition close_with :: "'d listener_env \<Rightarrow> nat \<Rightarrow> u16 \<Rightarrow> bytes \<Rightarrow> (unit, 'd ws_world, frame_outcome) loop_act" where
  "close_with env connection code message =
     (\<lambda>w. case close_websocket_connection env connection \<lparr>cr_code = code, cr_message = Some message\<rparr> w of
        None \<Rightarrow> None
      | Some (Undef u, w') \<Rightarrow> Some (Undef u, w')
      | Some (_, w') \<Rightarrow> Some (Ok ListenerEnd, w'))"

text \<open>A message that has to be formatted first; when that fails, the thread ends and leaves the connection as it is.\<close>

definition close_with_formatted :: "'d listener_env \<Rightarrow> nat \<Rightarrow> u16 \<Rightarrow> bytes \<Rightarrow> (unit, 'd ws_world, frame_outcome) loop_act" where
  "close_with_formatted env connection code message =
     (if h2_alloc (li_h2 env) (length message + 1) then close_with env connection code message else lret ListenerEnd)"

definition check_control_frame ::
  "'d listener_env \<Rightarrow> nat \<Rightarrow> WebSocketRawMessage \<Rightarrow> (unit, 'd ws_world, frame_outcome) loop_act option" where
  "check_control_frame env connection raw_message =
     (if \<not> is_control_op_code (wr_op_code raw_message) then None
      else if \<not> wr_fin raw_message
      then Some (close_with env connection CloseCodeProtocolError (lit ''Received fragmented control frame''))
      else if length (wr_payload raw_message) > 125
      then Some (close_with env connection CloseCodeProtocolError (lit ''Control frame payload to large''))
      else if wr_op_code raw_message = WsOpcodeClose \<and> wr_payload raw_message \<noteq> []
      then
        (if length (wr_payload raw_message) < 2
         then Some (close_with env connection CloseCodeProtocolError
                (lit ''Close data has invalid code, it has to be at least 2 bytes long''))
         else
           (case get_utf8_string (h2_alloc (li_h2 env)) (li_decompose env) (drop 2 (wr_payload raw_message)) of
              Err e \<Rightarrow> Some (close_with_formatted env connection CloseCodeInvalidFramePayloadData
                        (lit ''Invalid utf8 payload in control frame: '' @ e))
            | _ \<Rightarrow> None))
      else None)"

text \<open>The end of a message, in its only or in its last frame.\<close>

definition finish_message ::
  "'d listener_env \<Rightarrow> ExtensionPipeline \<Rightarrow> nat \<Rightarrow> string \<Rightarrow> reception \<Rightarrow> (unit, 'd ws_world, frame_outcome) loop_act" where
  "finish_message env pipeline connection utf8_error r =
     (case extension_receive_pipeline_process_finished_message (li_ws env) pipeline (rc_state r) (rc_message r) of
        Undef u \<Rightarrow> lact (alift (Undef u))
      | Err e \<Rightarrow> close_with_formatted env connection CloseCodeInvalidFramePayloadData
                  (lit ''Couldn't parse message at end: '' @ lit e)
      | Ok message \<Rightarrow>
          if wm_is_text message then
            (case get_utf8_string (h2_alloc (li_h2 env)) (li_decompose env) (buffer_bytes (wm_buffer message)) of
               Err e \<Rightarrow> close_with_formatted env connection CloseCodeInvalidFramePayloadData (lit utf8_error @ e)
             | _ \<Rightarrow> lret (HandleMessage (r\<lparr>rc_message := message\<rparr>)))
          else lret (HandleMessage (r\<lparr>rc_message := message\<rparr>)))"

text \<open>A continuation is appended in a new block; without memory, the copies go to a null pointer.\<close>

definition appended_buffer :: "(nat \<Rightarrow> bool) \<Rightarrow> bytes \<Rightarrow> bytes \<Rightarrow> (unit, SizedBuffer) res" where
  "appended_buffer alloc old payload =
     (if alloc (size_add (length old) (length payload)) \<or> old @ payload = [] then Ok (Some (old @ payload)) else Undef OutOfBounds)"

definition handle_cont_frame ::
  "'d listener_env \<Rightarrow> ExtensionPipeline \<Rightarrow> nat \<Rightarrow> reception \<Rightarrow> WebSocketRawMessage \<Rightarrow> (unit, 'd ws_world, frame_outcome) loop_act" where
  "handle_cont_frame env pipeline connection r raw_message =
     (if \<not> rc_has_message r
      then close_with env connection CloseCodeProtocolError (lit ''Received Opcode CONTINUATION, but no start frame received'')
      else
        (case extension_receive_pipeline_is_valid_cont_frame pipeline (wr_rsv_bytes raw_message) of
           Some extension_error \<Rightarrow> close_with env connection CloseCodeProtocolError (lit extension_error)
         | None \<Rightarrow>
             lbind (lact (alift (appended_buffer (h2_alloc (li_h2 env)) (buffer_bytes (wm_buffer (rc_message r)))
                       (wr_payload raw_message)))) (\<lambda>buffer.
             let r' = r\<lparr>rc_message := (rc_message r)\<lparr>wm_buffer := buffer\<rparr>\<rparr> in
             if \<not> wr_fin raw_message then lret (NextFrame r')
             else finish_message env pipeline connection ''Invalid utf8 payload in fragmented message: '' r')))"

definition handle_start_frame ::
  "'d listener_env \<Rightarrow> ExtensionPipeline \<Rightarrow> nat \<Rightarrow> reception \<Rightarrow> WebSocketRawMessage \<Rightarrow> (unit, 'd ws_world, frame_outcome) loop_act" where
  "handle_start_frame env pipeline connection r raw_message =
     (if rc_has_message r
      then close_with env connection CloseCodeProtocolError
             (lit ''Received other op_code than CONTINUATION after the first fragment'')
      else
        lbind (lact (alift (extension_receive_pipeline_process_start_message pipeline (rc_state r) (wr_rsv_bytes raw_message)))) (\<lambda>state.
        let r' = \<lparr>rc_has_message = True,
                  rc_message = \<lparr>wm_is_text = (wr_op_code raw_message = WsOpcodeText),
                    wm_buffer = (if wr_payload raw_message = [] then None else Some (wr_payload raw_message))\<rparr>,
                  rc_state = state\<rparr> in
        if \<not> wr_fin raw_message then lret (NextFrame r')
        else finish_message env pipeline connection ''Invalid utf8 payload in un-fragmented message: '' r'))"

definition handle_close_frame ::
  "'d listener_env \<Rightarrow> nat \<Rightarrow> WebSocketRawMessage \<Rightarrow> (unit, 'd ws_world, frame_outcome) loop_act" where
  "handle_close_frame env connection raw_message =
     (let answer = (\<lambda>reason w. case close_websocket_connection env connection reason w of
            None \<Rightarrow> None | Some (Undef u, w') \<Rightarrow> Some (Undef u, w') | Some (_, w') \<Rightarrow> Some (Ok ListenerEnd, w'));
          planned = \<lparr>cr_code = CloseCodeNormalClosure, cr_message = Some (lit ''Planned close'')\<rparr> in
      if wr_payload raw_message \<noteq> [] then
        (case maybe_parse_close_reason (h2_order (li_h2 env)) raw_message True of
           Some new_reason \<Rightarrow>
             if \<not> is_valid_close_code (cr_code new_reason)
             then close_with env connection CloseCodeProtocolError (lit ''Invalid Close Code'')
             else answer new_reason
         | None \<Rightarrow> answer planned)
      else answer planned)"

definition handle_ping_frame ::
  "'d listener_env \<Rightarrow> nat \<Rightarrow> reception \<Rightarrow> WebSocketRawMessage \<Rightarrow> (unit, 'd ws_world, frame_outcome) loop_act" where
  "handle_ping_frame env connection r raw_message =
     (\<lambda>w. case send_on connection (ws_send_message_raw_internal (li_h2 env)
            \<lparr>wr_fin = True, wr_op_code = WsOpcodePong, wr_payload = wr_payload raw_message,
             wr_rsv_bytes = wr_rsv_bytes raw_message\<rparr> False (li_mask env)) w of
        (Undef u, w') \<Rightarrow> Some (Undef u, w')
      | (Err _, w') \<Rightarrow> close_with env connection CloseCodeProtocolError (lit ''Couldn't send PONG op_code'') w'
      | (Ok _, w') \<Rightarrow> Some (Ok (NextFrame r), w'))"

text \<open>One pass of the inner loop.\<close>

definition handle_frame ::
  "'d listener_env \<Rightarrow> ExtensionPipeline \<Rightarrow> nat \<Rightarrow> reception \<Rightarrow> WebSocketRawMessage \<Rightarrow> (unit, 'd ws_world, frame_outcome) loop_act" where
  "handle_frame env pipeline connection r raw_message =
     (case check_control_frame env connection raw_message of
        Some ending \<Rightarrow> ending
      | None \<Rightarrow>
          if wr_op_code raw_message = WsOpcodeCont then handle_cont_frame env pipeline connection r raw_message
          else if wr_op_code raw_message = WsOpcodeText \<or> wr_op_code raw_message = WsOpcodeBin
          then handle_start_frame env pipeline connection r raw_message
          else if wr_op_code raw_message = WsOpcodeClose then handle_close_frame env connection raw_message
          else if wr_op_code raw_message = WsOpcodePing then handle_ping_frame env connection r raw_message
          else if wr_op_code raw_message = WsOpcodePong then lret (NextFrame r)
          else close_with env connection CloseCodeProtocolError (lit ''Received Opcode that is not supported''))"

definition listen_once ::
  "'d listener_env \<Rightarrow> ExtensionPipeline \<Rightarrow> nat \<Rightarrow> reception \<Rightarrow> (unit, 'd ws_world, frame_outcome) loop_act" where
  "listen_once env pipeline connection r =
     (\<lambda>w. case on_connection connection (read_raw_message (li_h2 env) (ep_allowed_rsv_bytes pipeline)) w of
        (Undef u, w1) \<Rightarrow> Some (Undef u, w1)
      | (Err e, w1) \<Rightarrow>
          close_with_formatted env connection CloseCodeProtocolError
            (lit ''Error while reading the needed bytes for a frame: '' @ lit e) w1
      | (Ok raw_message, w1) \<Rightarrow>
          lbind (lact (on_connection connection
            (\<lambda>reader. (Ok (), buffered_reader_invalidate_old_data (h2_alloc (li_h2 env)) reader))))
            (\<lambda>_. handle_frame env pipeline connection r raw_message) w1)"

partial_function (option) receive_loop ::
  "'d listener_env \<Rightarrow> ExtensionPipeline \<Rightarrow> nat \<Rightarrow> reception \<Rightarrow> 'd ws_world
     \<Rightarrow> ((unit, reception option) res \<times> 'd ws_world) option" where
  "receive_loop env pipeline connection r w =
     (case listen_once env pipeline connection r w of
        None \<Rightarrow> None
      | Some (step, w') \<Rightarrow>
          (case step of
             Undef u \<Rightarrow> Some (Undef u, w')
           | Err e \<Rightarrow> Some (Err e, w')
           | Ok (NextFrame r') \<Rightarrow> receive_loop env pipeline connection r' w'
           | Ok (HandleMessage r') \<Rightarrow> Some (Ok (Some r'), w')
           | Ok ListenerEnd \<Rightarrow> Some (Ok None, w')))"

type_synonym 'd ws_function =
  "nat \<Rightarrow> WebSocketMessage \<Rightarrow> WsConnectionArgs \<Rightarrow> ExtensionSendState \<Rightarrow> (unit, 'd ws_world, WebSocketAction) act"

text \<open>What the application answers to a message; \<open>True\<close> lets the listener go on.\<close>

definition handle_message ::
  "'d listener_env \<Rightarrow> 'd ws_function \<Rightarrow> WsConnectionArgs \<Rightarrow> ExtensionPipeline \<Rightarrow> nat \<Rightarrow> reception
     \<Rightarrow> (unit, 'd ws_world, bool) loop_act" where
  "handle_message env function args pipeline connection r =
     (let ending = (\<lambda>code message. lbind (close_with env connection code (lit message)) (\<lambda>_. lret False)) in
      if rc_has_message r then
        (case pipline_get_extension_send_state (li_ws env) pipeline (rc_state r) of
           None \<Rightarrow> ending CloseCodeProtocolError ''Couldn't form the send extension state''
         | Some send_state \<Rightarrow>
             lbind (lact (function connection (rc_message r) args send_state)) (\<lambda>action.
             case action of
               WebSocketActionClose \<Rightarrow> ending CloseCodeNormalClosure ''ServerApplication requested shutdown''
             | WebSocketActionError \<Rightarrow> ending CloseCodeProtocolError ''ServerApplication callback has an error''
             | WebSocketActionContinue \<Rightarrow> lret True))
      else lret True)"

partial_function (option) listener_loop ::
  "'d listener_env \<Rightarrow> 'd ws_function \<Rightarrow> WsConnectionArgs \<Rightarrow> ExtensionPipeline \<Rightarrow> nat \<Rightarrow> 'd ws_world
     \<Rightarrow> ((unit, unit) res \<times> 'd ws_world) option" where
  "listener_loop env function args pipeline connection w =
     (case receive_loop env pipeline connection (no_reception env pipeline) w of
        None \<Rightarrow> None
      | Some (received, w1) \<Rightarrow>
          (case received of
             Undef u \<Rightarrow> Some (Undef u, w1)
           | Err e \<Rightarrow> Some (Err e, w1)
           | Ok None \<Rightarrow> Some (Ok (), w1)
           | Ok (Some r) \<Rightarrow>
               (case handle_message env function args pipeline connection r w1 of
                  None \<Rightarrow> None
                | Some (handled, w2) \<Rightarrow>
                    (case handled of
                       Undef u \<Rightarrow> Some (Undef u, w2)
                     | Err e \<Rightarrow> Some (Err e, w2)
                     | Ok goes_on \<Rightarrow>
                         if goes_on then listener_loop env function args pipeline connection w2 else Some (Ok (), w2)))))"

text \<open>\<open>starts\<close>: the name of the thread could be allocated and the handler for \<open>SIGPIPE\<close> be installed.\<close>

definition ws_listener_function ::
  "'d listener_env \<Rightarrow> bool \<Rightarrow> 'd ws_function \<Rightarrow> WsConnectionArgs \<Rightarrow> nat \<Rightarrow> 'd ws_world \<Rightarrow> ((unit, unit) res \<times> 'd ws_world) option" where
  "ws_listener_function env starts function args connection w =
     (if \<not> starts then Some (Ok (), w)
      else
        (case get_extension_pipeline (li_ws env) (wa_extensions args) of
           None \<Rightarrow> Some (Ok (), w)
         | Some pipeline \<Rightarrow> listener_loop env function args pipeline connection w))"

section \<open>The handler\<close>

definition websocket_function :: "'d listener_env \<Rightarrow> 'd ws_function" where
  "websocket_function env connection message args send_state =
     (\<lambda>w. case send_on connection (ws_send_message (li_h2 env) (li_ws env) (li_sndbuf env) (li_mask env) message args send_state) w of
        (Undef u, w') \<Rightarrow> (Undef u, w')
      | (Err _, w') \<Rightarrow> (Ok WebSocketActionError, w')
      | (Ok _, w') \<Rightarrow> (Ok WebSocketActionContinue, w'))"

section \<open>Taking a frame from the connection\<close>

definition listening ::
  "'d listener_env \<Rightarrow> ('d \<Rightarrow> bytes) \<Rightarrow> ('d \<Rightarrow> bytes) \<Rightarrow> nat \<Rightarrow> bytes \<Rightarrow> 'd ws_world \<Rightarrow> bool" where
  "listening env incoming outgoing connection xs w \<longleftrightarrow>
     (\<exists>reader. ww_heap w connection = Some reader \<and> at_bytes (li_h2 env) incoming outgoing xs reader)"

text \<open>Worlds that differ in the reader of one connection at most.\<close>

definition same_manager :: "nat \<Rightarrow> 'd ws_world \<Rightarrow> 'd ws_world \<Rightarrow> bool" where
  "same_manager connection w w' \<longleftrightarrow>
     ww_nodes w' = ww_nodes w \<and> ww_locked w' = ww_locked w \<and> (\<forall>c. c \<noteq> connection \<longrightarrow> ww_heap w' c = ww_heap w c)"

lemma same_manager_trans: "same_manager c w w' \<Longrightarrow> same_manager c w' w'' \<Longrightarrow> same_manager c w w''"
  by (simp add: same_manager_def)

lemma listen_once_frame:
  assumes "listening env incoming outgoing connection (frame_bytes m mask_bytes @ rest) w" "ws_frame_ok m"
    and "\<And>k. mask_bytes = Some k \<Longrightarrow> length k = 4" "wr_rsv_bytes m OR ep_allowed_rsv_bytes pipeline = ep_allowed_rsv_bytes pipeline"
  obtains w' where "listen_once env pipeline connection r w = handle_frame env pipeline connection r m w'"
    "listening env incoming outgoing connection rest w'" "same_manager connection w w'"
proof -
  from assms(1) obtain reader where reader: "ww_heap w connection = Some reader"
    "at_bytes (li_h2 env) incoming outgoing (frame_bytes m mask_bytes @ rest) reader" by (auto simp: listening_def)
  then have "\<forall>n. h2_alloc (li_h2 env) n" by (simp add: at_bytes_def reader_ready_def)
  then have "consumes (li_h2 env) incoming outgoing (read_raw_message (li_h2 env) (ep_allowed_rsv_bytes pipeline)) (frame_bytes m mask_bytes) m"
    using assms(2-4) by (intro consumes_frame) (auto simp: ws_frame_ok_def)
  with reader(2) obtain reader' where reader': "read_raw_message (li_h2 env) (ep_allowed_rsv_bytes pipeline) reader = (Ok m, reader')"
    "at_bytes (li_h2 env) incoming outgoing rest reader'" by (auto simp: consumes_def)
  let ?b = "buffered_reader_invalidate_old_data (h2_alloc (li_h2 env)) reader'"
  let ?w = "w\<lparr>ww_heap := (ww_heap w)(connection \<mapsto> ?b)\<rparr>"
  have "at_bytes (li_h2 env) incoming outgoing rest ?b" using reader'(2) invalidate_ready unfolding at_bytes_def by metis
  then have "listening env incoming outgoing connection rest ?w" by (simp add: listening_def)
  moreover have "listen_once env pipeline connection r w = handle_frame env pipeline connection r m ?w"
    using reader(1) reader'(1) by (simp add: listen_once_def on_connection_def lbind_def lact_def)
  moreover have "same_manager connection w ?w" by (simp add: same_manager_def)
  ultimately show thesis by (intro that)
qed

section \<open>Fragments\<close>

text \<open>The frames of a message from an offset on, with the reserved bits of its first and of its later frames.\<close>

definition fragment_frame :: "WebSocketMessage \<Rightarrow> u8 \<Rightarrow> u8 \<Rightarrow> nat \<Rightarrow> nat \<Rightarrow> WebSocketRawMessage" where
  "fragment_frame message first later n offset =
     (let buffer = buffer_bytes (wm_buffer message) in
      \<lparr>wr_fin = (length buffer \<le> offset + n),
       wr_op_code = (if offset = 0 then (if wm_is_text message then WsOpcodeText else WsOpcodeBin) else WsOpcodeCont),
       wr_payload = take n (drop offset buffer), wr_rsv_bytes = (if offset = 0 then first else later)\<rparr>)"

lemma fragment_frame_sel [simp]:
  "wr_fin (fragment_frame message first later n offset) \<longleftrightarrow> length (buffer_bytes (wm_buffer message)) \<le> offset + n"
  "wr_op_code (fragment_frame message first later n offset) =
     (if offset = 0 then (if wm_is_text message then WsOpcodeText else WsOpcodeBin) else WsOpcodeCont)"
  "wr_payload (fragment_frame message first later n offset) = take n (drop offset (buffer_bytes (wm_buffer message)))"
  "wr_rsv_bytes (fragment_frame message first later n offset) = (if offset = 0 then first else later)"
  by (simp_all add: fragment_frame_def Let_def)

function fragment_frames :: "WebSocketMessage \<Rightarrow> u8 \<Rightarrow> u8 \<Rightarrow> nat \<Rightarrow> nat \<Rightarrow> WebSocketRawMessage list" where
  "fragment_frames message first later n offset =
     (if offset < length (buffer_bytes (wm_buffer message)) \<and> 0 < n
      then fragment_frame message first later n offset # fragment_frames message first later n (offset + n) else [])"
  by pat_completeness auto
termination
  by (relation "measure (\<lambda>(message, first, later, n, offset). length (buffer_bytes (wm_buffer message)) - offset)") auto

declare fragment_frames.simps [simp del]

lemma fragment_frame_eq:
  assumes "extension_send_pipeline_process_cont_message send_state 0 = Ok first"
    and "extension_send_pipeline_process_start_message send_state 0 = Ok later"
  shows "fragment message send_state n offset = Ok (fragment_frame message first later n offset)"
  using assms by (auto simp: fragment_def fragment_frame_def Let_def)

lemma fragment_frame_ok:
  assumes "length (buffer_bytes (wm_buffer message)) < 2 ^ 31" "first < 8" "later < 8"
  shows "ws_frame_ok (fragment_frame message first later n offset)"
  using assms by (auto simp: ws_frame_ok_def fragment_frame_def Let_def is_control_op_code_def min_less_iff_disj)

lemma fragments_sent:
  assumes "reliable_io (h2_io env) incoming outgoing" "\<forall>n. h2_alloc env n" "length (buffer_bytes (wm_buffer message)) < 2 ^ 31"
    and "extension_send_pipeline_process_cont_message send_state 0 = Ok first" "first < 8"
    and "extension_send_pipeline_process_start_message send_state 0 = Ok later" "later < 8"
  shows "\<exists>d'. fragments_loop env message masked mask_byte n send_state offset d = (Ok (), d') \<and>
    outgoing (channel d') = outgoing (channel d) @
      concat (map (\<lambda>f. frame_bytes f (mask_of env masked mask_byte)) (fragment_frames message first later n offset))"
proof (induction "length (buffer_bytes (wm_buffer message)) - offset" arbitrary: offset d rule: less_induct)
  case less
  let ?out = "\<lambda>fs. concat (map (\<lambda>f. frame_bytes f (mask_of env masked mask_byte)) fs)"
  show ?case
  proof (cases "offset < length (buffer_bytes (wm_buffer message)) \<and> 0 < n")
    case True
    let ?f = "fragment_frame message first later n offset"
    obtain d1 where d1: "ws_send_message_raw_internal env ?f masked mask_byte d = (Ok (), d1)"
      "outgoing (channel d1) = outgoing (channel d) @ frame_bytes ?f (mask_of env masked mask_byte)"
      using send_frame_ready [OF assms(1,2) fragment_frame_ok [OF assms(3,5,7)]] by blast
    have "length (buffer_bytes (wm_buffer message)) - (offset + n) < length (buffer_bytes (wm_buffer message)) - offset"
      using True by linarith
    from less.hyps [OF this, of d1] obtain d2 where
      d2: "fragments_loop env message masked mask_byte n send_state (offset + n) d1 = (Ok (), d2)"
      "outgoing (channel d2) = outgoing (channel d1) @ ?out (fragment_frames message first later n (offset + n))" by blast
    have "fragments_loop env message masked mask_byte n send_state offset d = (Ok (), d2)"
      using True d1(1) d2(1)
      by (subst fragments_loop.simps) (simp add: fragment_frame_eq [OF assms(4,6)] abind_def alift_def)
    moreover have "fragment_frames message first later n offset = ?f # fragment_frames message first later n (offset + n)"
      using True by (subst fragment_frames.simps) simp
    ultimately show ?thesis using d1(2) d2(2) by simp
  next
    case False
    then have "fragment_frames message first later n offset = []" by (subst fragment_frames.simps) auto
    moreover have "fragments_loop env message masked mask_byte n send_state offset d = (Ok (), d)"
      using False by (subst fragments_loop.simps) (auto simp: aret_def)
    ultimately show ?thesis by simp
  qed
qed

text \<open>The frames that carry a message, in fragments or in one piece.\<close>

definition message_frames :: "WebSocketMessage \<Rightarrow> u8 \<Rightarrow> u8 \<Rightarrow> nat \<Rightarrow> WebSocketRawMessage list" where
  "message_frames message first later fragment_size =
     (let n = max 16 fragment_size; buffer = buffer_bytes (wm_buffer message) in
      if length buffer < n then [fragment_frame message later later n 0] else fragment_frames message first later n 0)"

lemma message_sent:
  assumes "reliable_io (h2_io env) incoming outgoing" "\<forall>n. h2_alloc env n" "length (buffer_bytes (wm_buffer message)) < 2 ^ 31"
    and "extension_send_pipeline_process_cont_message send_state 0 = Ok first" "first < 8"
    and "extension_send_pipeline_process_start_message send_state 0 = Ok later" "later < 8"
  shows "\<exists>d'. ws_send_message_internal_fragmented env message masked mask_byte fragment_size send_state d = (Ok (), d') \<and>
    outgoing (channel d') = outgoing (channel d) @
      concat (map (\<lambda>f. frame_bytes f (mask_of env masked mask_byte)) (message_frames message first later fragment_size))"
proof -
  have n: "(if fragment_size < 16 then 16 else fragment_size) = max 16 fragment_size" by (simp add: max_def)
  show ?thesis
  proof (cases "length (buffer_bytes (wm_buffer message)) < max 16 fragment_size")
    case True
    let ?f = "fragment_frame message later later (max 16 fragment_size) 0"
    have whole: "?f = \<lparr>wr_fin = True, wr_op_code = (if wm_is_text message then WsOpcodeText else WsOpcodeBin),
        wr_payload = buffer_bytes (wm_buffer message), wr_rsv_bytes = later\<rparr>"
      using True by (simp add: fragment_frame_def Let_def)
    have "message_frames message first later fragment_size = [?f]"
      using True by (simp add: message_frames_def Let_def)
    moreover obtain d' where "ws_send_message_raw_internal env ?f masked mask_byte d = (Ok (), d')"
      "outgoing (channel d') = outgoing (channel d) @ frame_bytes ?f (mask_of env masked mask_byte)"
      using send_frame_ready [OF assms(1,2) fragment_frame_ok [OF assms(3,7,7)]] by blast
    ultimately show ?thesis
      using True assms(6) unfolding ws_send_message_internal_fragmented_def Let_def n
      by (simp add: ws_send_message_internal_normal_def abind_def alift_def whole)
  next
    case False
    then have "message_frames message first later fragment_size = fragment_frames message first later (max 16 fragment_size) 0"
      by (simp add: message_frames_def Let_def)
    with False fragments_sent [OF assms] show ?thesis
      unfolding ws_send_message_internal_fragmented_def Let_def n by simp
  qed
qed

section \<open>Receiving what was sent\<close>

definition plain_state :: "ExtensionPipeline \<Rightarrow> bool option \<Rightarrow> bool" where
  "plain_state pipeline state \<longleftrightarrow> ep_active_extensions pipeline = 0 \<or> state = Some False"

lemma run_stages_plain: "run_stages process options (Some False) message = Ok message"
  by (induction options) (simp_all add: pipeline_stage_def)

lemma plain_pipeline:
  assumes "plain_state pipeline state"
  shows "extension_receive_pipeline_process_start_message pipeline state 0 = Ok state"
    and "extension_receive_pipeline_process_finished_message ws pipeline state message = Ok message"
    and "extension_receive_pipeline_is_valid_cont_frame pipeline 0 = None"
  using assms by (auto simp: plain_state_def extension_receive_pipeline_process_start_message_def run_stages_plain
      extension_receive_pipeline_process_finished_message_def extension_receive_pipeline_is_valid_cont_frame_def)

lemma plain_send:
  assumes "plain_state (es_pipeline send_state) (es_message_state send_state)"
  shows "extension_send_pipeline_process_start_message send_state 0 = Ok 0"
    and "extension_send_pipeline_process_cont_message send_state 0 = Ok 0"
    and "extension_send_pipeline_process_initial_message ws send_state message = Ok message"
  using assms by (auto simp: plain_state_def extension_send_pipeline_process_start_message_def run_stages_plain
      extension_send_pipeline_process_cont_message_def extension_send_pipeline_process_initial_message_def)

definition text_ok :: "'d listener_env \<Rightarrow> WebSocketMessage \<Rightarrow> bool" where
  "text_ok env message \<longleftrightarrow>
     (wm_is_text message \<longrightarrow>
        (\<exists>cs. get_utf8_string (h2_alloc (li_h2 env)) (li_decompose env) (buffer_bytes (wm_buffer message)) = Ok cs))"

text \<open>The reception holds the message up to an offset.\<close>

definition carries :: "ExtensionPipeline \<Rightarrow> WebSocketMessage \<Rightarrow> nat \<Rightarrow> reception \<Rightarrow> bool" where
  "carries pipeline message offset r \<longleftrightarrow>
     rc_has_message r = (offset \<noteq> 0) \<and> (offset \<noteq> 0 \<longrightarrow> wm_is_text (rc_message r) = wm_is_text message) \<and>
     buffer_bytes (wm_buffer (rc_message r)) = take offset (buffer_bytes (wm_buffer message)) \<and> plain_state pipeline (rc_state r)"

lemma finish_carried:
  assumes "carries pipeline message offset r" "length (buffer_bytes (wm_buffer message)) \<le> offset" "offset \<noteq> 0" "text_ok env message"
  shows "finish_message env pipeline connection utf8_error r w = Some (Ok (HandleMessage r), w)"
proof -
  have "buffer_bytes (wm_buffer (rc_message r)) = buffer_bytes (wm_buffer message)"
    "wm_is_text (rc_message r) = wm_is_text message" "plain_state pipeline (rc_state r)"
    using assms(1-3) by (simp_all add: carries_def)
  then show ?thesis using assms(4) by (auto simp: finish_message_def plain_pipeline text_ok_def loop_acts)
qed

lemma fragment_not_control: "check_control_frame env connection (fragment_frame message first later n offset) = None"
  by (simp add: check_control_frame_def is_control_op_code_def)

lemma fragment_taken:
  assumes "carries pipeline message offset r" "0 < n" "\<forall>k. h2_alloc (li_h2 env) k" "text_ok env message"
  shows "\<exists>r'. handle_frame env pipeline connection r (fragment_frame message 0 0 n offset) w =
      Some (Ok ((if length (buffer_bytes (wm_buffer message)) \<le> offset + n then HandleMessage else NextFrame) r'), w) \<and>
    carries pipeline message (offset + n) r'"
proof -
  let ?buf = "buffer_bytes (wm_buffer message)" and ?f = "fragment_frame message 0 0 n offset"
  have plain: "plain_state pipeline (rc_state r)" using assms(1) by (simp add: carries_def)
  show ?thesis
  proof (cases "offset = 0")
    case True
    let ?r = "\<lparr>rc_has_message = True, rc_message = \<lparr>wm_is_text = wm_is_text message,
        wm_buffer = (if take n ?buf = [] then None else Some (take n ?buf))\<rparr>, rc_state = rc_state r\<rparr>"
    have r: "carries pipeline message (offset + n) ?r" using plain True assms(2) by (simp add: carries_def)
    have "handle_frame env pipeline connection r ?f w =
        (if length ?buf \<le> n then finish_message env pipeline connection ''Invalid utf8 payload in un-fragmented message: '' ?r w
         else Some (Ok (NextFrame ?r), w))"
      using assms(1) True plain
      by (simp add: handle_frame_def fragment_not_control handle_start_frame_def carries_def plain_pipeline loop_acts)
    then show ?thesis
      using r finish_carried [OF r _ _ assms(4)] True assms(2) by (intro exI [of _ ?r]) simp
  next
    case False
    let ?r = "r\<lparr>rc_message := (rc_message r)\<lparr>wm_buffer := Some (take (offset + n) ?buf)\<rparr>\<rparr>"
    have r: "carries pipeline message (offset + n) ?r" using assms(1) False by (simp add: carries_def)
    have "appended_buffer (h2_alloc (li_h2 env)) (buffer_bytes (wm_buffer (rc_message r))) (take n (drop offset ?buf)) =
        Ok (Some (take (offset + n) ?buf))"
      using assms(1,3) by (simp add: appended_buffer_def carries_def take_add)
    then have "handle_frame env pipeline connection r ?f w =
        (if length ?buf \<le> offset + n then finish_message env pipeline connection ''Invalid utf8 payload in fragmented message: '' ?r w
         else Some (Ok (NextFrame ?r), w))"
      using assms(1) False plain
      by (simp add: handle_frame_def fragment_not_control handle_cont_frame_def carries_def plain_pipeline loop_acts)
    then show ?thesis
      using r finish_carried [OF r _ _ assms(4)] False by (intro exI [of _ ?r]) simp
  qed
qed

lemma listening_alloc: "listening env incoming outgoing connection xs w \<Longrightarrow> \<forall>n. h2_alloc (li_h2 env) n"
  by (auto simp: listening_def at_bytes_def reader_ready_def)

text \<open>One frame of the message arrives.\<close>

lemma frame_received:
  assumes "listening env incoming outgoing connection (frame_bytes (fragment_frame message 0 0 n offset) mask_bytes @ rest) w"
    and "carries pipeline message offset r" "0 < n" "text_ok env message" "length (buffer_bytes (wm_buffer message)) < 2 ^ 31"
    and "\<And>k. mask_bytes = Some k \<Longrightarrow> length k = 4"
  obtains r' w' where "receive_loop env pipeline connection r w =
      (if length (buffer_bytes (wm_buffer message)) \<le> offset + n then Some (Ok (Some r'), w') else receive_loop env pipeline connection r' w')"
    "carries pipeline message (offset + n) r'" "listening env incoming outgoing connection rest w'" "same_manager connection w w'"
proof -
  let ?f = "fragment_frame message 0 0 n offset"
  have ok: "ws_frame_ok ?f" using assms(5) by (intro fragment_frame_ok) simp_all
  obtain w' where w': "listen_once env pipeline connection r w = handle_frame env pipeline connection r ?f w'"
    "listening env incoming outgoing connection rest w'" "same_manager connection w w'"
    by (rule listen_once_frame [OF assms(1) ok assms(6)]) simp_all
  from fragment_taken [OF assms(2,3) listening_alloc [OF w'(2)] assms(4), of connection w'] obtain r' where
    r': "handle_frame env pipeline connection r ?f w' =
      Some (Ok ((if length (buffer_bytes (wm_buffer message)) \<le> offset + n then HandleMessage else NextFrame) r'), w')"
    "carries pipeline message (offset + n) r'" by blast
  then have "receive_loop env pipeline connection r w =
      (if length (buffer_bytes (wm_buffer message)) \<le> offset + n then Some (Ok (Some r'), w') else receive_loop env pipeline connection r' w')"
    by (subst receive_loop.simps) (simp add: w'(1))
  then show thesis using r'(2) w'(2,3) by (rule that)
qed

abbreviation wire_bytes :: "bytes option \<Rightarrow> WebSocketRawMessage list \<Rightarrow> bytes" where
  "wire_bytes mask_bytes frames \<equiv> concat (map (\<lambda>f. frame_bytes f mask_bytes) frames)"

lemma fragments_received:
  assumes "listening env incoming outgoing connection (wire_bytes mask_bytes (fragment_frames message 0 0 n offset) @ rest) w"
    and "carries pipeline message offset r" "0 < n" "offset < length (buffer_bytes (wm_buffer message))"
    and "text_ok env message" "length (buffer_bytes (wm_buffer message)) < 2 ^ 31" "\<And>k. mask_bytes = Some k \<Longrightarrow> length k = 4"
  shows "\<exists>r' w' m. receive_loop env pipeline connection r w = Some (Ok (Some r'), w') \<and> carries pipeline message m r' \<and>
    length (buffer_bytes (wm_buffer message)) \<le> m \<and> m \<noteq> 0 \<and>
    listening env incoming outgoing connection rest w' \<and> same_manager connection w w'"
  using assms(1,2,4)
proof (induction "length (buffer_bytes (wm_buffer message)) - offset" arbitrary: offset r w rule: less_induct)
  case less
  let ?b = "buffer_bytes (wm_buffer message)"
  have "fragment_frames message 0 0 n offset = fragment_frame message 0 0 n offset # fragment_frames message 0 0 n (offset + n)"
    using less.prems(3) assms(3) by (subst fragment_frames.simps) simp
  with less.prems(1) have wire: "listening env incoming outgoing connection (frame_bytes (fragment_frame message 0 0 n offset) mask_bytes @
      wire_bytes mask_bytes (fragment_frames message 0 0 n (offset + n)) @ rest) w" by simp
  obtain r1 w1 where step: "receive_loop env pipeline connection r w =
      (if length ?b \<le> offset + n then Some (Ok (Some r1), w1) else receive_loop env pipeline connection r1 w1)"
    "carries pipeline message (offset + n) r1" "same_manager connection w w1"
    "listening env incoming outgoing connection (wire_bytes mask_bytes (fragment_frames message 0 0 n (offset + n)) @ rest) w1"
    using frame_received [OF wire less.prems(2) assms(3,5,6,7)] by metis
  show ?case
  proof (cases "length ?b \<le> offset + n")
    case True
    then have "fragment_frames message 0 0 n (offset + n) = []" by (subst fragment_frames.simps) simp
    with step True assms(3) show ?thesis by auto
  next
    case False
    then have "length ?b - (offset + n) < length ?b - offset" "offset + n < length ?b" using assms(3) by linarith+
    from less.hyps [OF this(1) step(4,2) this(2)] step(1,3) False show ?thesis by (auto intro: same_manager_trans)
  qed
qed

lemma message_received:
  assumes "listening env incoming outgoing connection (wire_bytes mask_bytes (message_frames message 0 0 fragment_size) @ rest) w"
    and "carries pipeline message 0 r" "text_ok env message" "length (buffer_bytes (wm_buffer message)) < 2 ^ 31"
    and "\<And>k. mask_bytes = Some k \<Longrightarrow> length k = 4"
  shows "\<exists>r' w' m. receive_loop env pipeline connection r w = Some (Ok (Some r'), w') \<and> carries pipeline message m r' \<and>
    length (buffer_bytes (wm_buffer message)) \<le> m \<and> m \<noteq> 0 \<and>
    listening env incoming outgoing connection rest w' \<and> same_manager connection w w'"
proof (cases "length (buffer_bytes (wm_buffer message)) < max 16 fragment_size")
  case True
  let ?n = "max 16 fragment_size"
  have "message_frames message 0 0 fragment_size = [fragment_frame message 0 0 ?n 0]"
    using True by (simp add: message_frames_def Let_def)
  with assms(1) have wire: "listening env incoming outgoing connection (frame_bytes (fragment_frame message 0 0 ?n 0) mask_bytes @ rest) w" by simp
  have n: "0 < ?n" by simp
  obtain r' w' where "receive_loop env pipeline connection r w = Some (Ok (Some r'), w')" "carries pipeline message ?n r'"
    "listening env incoming outgoing connection rest w'" "same_manager connection w w'"
    using frame_received [OF wire assms(2) n assms(3-5)] True by (metis add_0 less_imp_le)
  then show ?thesis using True n by (intro exI [of _ r'] exI [of _ w'] exI [of _ ?n]) simp
next
  case False
  then have "message_frames message 0 0 fragment_size = fragment_frames message 0 0 (max 16 fragment_size) 0"
    by (simp add: message_frames_def Let_def)
  with assms(1) have wire: "listening env incoming outgoing connection
      (wire_bytes mask_bytes (fragment_frames message 0 0 (max 16 fragment_size) 0) @ rest) w" by simp
  have "0 < max 16 fragment_size" "0 < length (buffer_bytes (wm_buffer message))" using False by linarith+
  from fragments_received [OF wire assms(2) this assms(3-5)] show ?thesis .
qed

lemma normal_is_fragmented:
  "ws_send_message_internal_normal env message masked mask_byte send_state =
   ws_send_message_internal_fragmented env message masked mask_byte (Suc (max 15 (length (buffer_bytes (wm_buffer message))))) send_state"
  by (simp add: ws_send_message_internal_fragmented_def Let_def less_Suc_eq_le)

lemma plain_message_sent:
  assumes "reliable_io (h2_io env) incoming outgoing" "\<forall>n. h2_alloc env n" "length (buffer_bytes (wm_buffer message)) < 2 ^ 31"
    and "plain_state (es_pipeline send_state) (es_message_state send_state)"
  shows "\<exists>d' n. ws_send_message_internal env ws sndbuf message masked mask_byte args send_state d = (Ok (), d') \<and>
    outgoing (channel d') = outgoing (channel d) @ wire_bytes (mask_of env masked mask_byte) (message_frames message 0 0 n)"
proof -
  have "\<exists>n. ws_send_message_internal env ws sndbuf message masked mask_byte args send_state d =
      ws_send_message_internal_fragmented env message masked mask_byte n send_state d"
    unfolding normal_is_fragmented ws_send_message_internal_def plain_send [OF assms(4)]
    by (cases "wa_fragment_option args") (auto simp: normal_is_fragmented abind_def alift_def)
  then obtain n where "ws_send_message_internal env ws sndbuf message masked mask_byte args send_state d =
      ws_send_message_internal_fragmented env message masked mask_byte n send_state d" ..
  with message_sent [OF assms(1-3) plain_send(2) [OF assms(4)] _ plain_send(1) [OF assms(4)], of masked mask_byte n d]
  show ?thesis by auto
qed

lemma mask_of_length: "mask_of env masked mask_byte = Some k \<Longrightarrow> length k = 4"
  by (auto simp: mask_of_def length_host_u32 split: if_splits)


text \<open>An input for the theorems: a connection in memory and a message of twenty bytes in fragments of sixteen.\<close>

definition sample_listener :: "pipe listener_env" where
  "sample_listener =
     \<lparr>li_h2 = pipe_env 3,
      li_ws = \<lparr>ws_alloc = (\<lambda>_. True), ws_push = (\<lambda>_. True), ws_decompress = (\<lambda>_ _. None), ws_compress = (\<lambda>_ _. None)\<rparr>,
      li_threads = (\<lambda>_. True), li_close = id, li_decompose = (\<lambda>bs. Inr (map uint bs)), li_mask = 0, li_sndbuf = None\<rparr>"

definition sample_world :: "bytes \<Rightarrow> pipe ws_world" where
  "sample_world bs = \<lparr>ww_heap = [7 \<mapsto> pipe_reader bs], ww_locked = False, ww_nodes = [7]\<rparr>"

definition sample_message :: WebSocketMessage where
  "sample_message = \<lparr>wm_is_text = False, wm_buffer = Some [1, 2, 3, 4, 5, 6, 7, 8, 9, 10, 11, 12, 13, 14, 15, 16, 17, 18, 19, 20]\<rparr>"

definition no_extensions :: ExtensionPipeline where
  "no_extensions = \<lparr>ep_allowed_rsv_bytes = 0, ep_process = [], ep_active_extensions = 0, ep_deflate_mask = False\<rparr>"

definition sample_wire :: bytes where
  "sample_wire = [0x02, 16, 1, 2, 3, 4, 5, 6, 7, 8, 9, 10, 11, 12, 13, 14, 15, 16, 0x80, 4, 17, 18, 19, 20]"

lemma sample_wire: "wire_bytes None (message_frames sample_message 0 0 0) = sample_wire"
  by code_simp

lemma sample_listening: "length bs < 2 ^ 63 \<Longrightarrow> listening sample_listener pipe_in pipe_out 7 bs (sample_world bs)"
  using pipe_reader_ready [of bs 3] by (simp add: listening_def sample_world_def at_bytes_def sample_listener_def)


section \<open>Compressed messages in fragments\<close>

text \<open>The manager can remove the connection.\<close>

definition removable :: "'d listener_env \<Rightarrow> nat \<Rightarrow> 'd ws_world \<Rightarrow> bool" where
  "removable env connection w \<longleftrightarrow>
     li_threads env MutexLock \<and> li_threads env MutexUnlock \<and> \<not> ww_locked w \<and> connection \<in> set (ww_nodes w) \<and>
     (\<forall>n \<in> set (ww_nodes w). n \<noteq> connection \<longrightarrow> ww_heap w n \<noteq> None)"

lemma removable_same: "same_manager connection w w' \<Longrightarrow> removable env connection w \<Longrightarrow> removable env connection w'"
  by (auto simp: same_manager_def removable_def)

lemma remove_connection_done:
  assumes "removable env connection w" "ww_heap w connection = Some reader"
  shows "\<exists>w'. thread_manager_remove_connection env (Some connection) w = Some (Ok (), w') \<and> ww_heap w' connection = None"
proof -
  have "\<forall>n \<in> set (takeWhile (\<lambda>n. n \<noteq> connection) (ww_nodes w)). ww_heap w n \<noteq> None"
    using assms(1) by (auto simp: removable_def dest: set_takeWhileD)
  with assms show ?thesis
    by (simp add: thread_manager_remove_connection_def removable_def mutex_lock_def mutex_unlock_def walk_nodes_def free_connection_def
        send_on_def on_connection_def on_descriptor_def loop_acts abind_def)
qed

lemma close_with_ends:
  assumes "listening env incoming outgoing connection xs w" "removable env connection w" "length message \<le> 123"
  shows "\<exists>w'. close_with env connection code message w = Some (Ok ListenerEnd, w') \<and> ww_heap w' connection = None"
proof -
  let ?m = "\<lparr>wr_fin = True, wr_op_code = WsOpcodeClose,
    wr_payload = serialize_u16_host_to_be (h2_order (li_h2 env)) code @ message, wr_rsv_bytes = 0\<rparr>"
  from assms(1) obtain reader where reader: "ww_heap w connection = Some reader"
    "reader_ready (h2_alloc (li_h2 env)) (h2_io (li_h2 env)) incoming outgoing reader" by (auto simp: listening_def at_bytes_def)
  then have rel: "reliable_io (h2_io (li_h2 env)) incoming outgoing" "\<forall>n. h2_alloc (li_h2 env) n" by (simp_all add: reader_ready_def)
  have "ws_frame_ok ?m" using assms(3) by (simp add: ws_frame_ok_def serialize_be_bytes)
  from send_frame_ready [OF rel this] obtain d' where
    d': "ws_send_message_raw_internal (li_h2 env) ?m False (li_mask env) (br_descriptor reader) = (Ok (), d')" by blast
  let ?w = "w\<lparr>ww_heap := (ww_heap w)(connection \<mapsto> reader\<lparr>br_descriptor := d'\<rparr>)\<rparr>"
  have "removable env connection ?w" by (rule removable_same [OF _ assms(2)]) (simp add: same_manager_def)
  from remove_connection_done [OF this, of "reader\<lparr>br_descriptor := d'\<rparr>"] obtain w' where
    "thread_manager_remove_connection env (Some connection) ?w = Some (Ok (), w')" "ww_heap w' connection = None" by auto
  then show ?thesis
    using d' reader(1) rel(2)
    by (simp add: close_with_def close_websocket_connection_def send_on_def on_connection_def on_descriptor_def
        ws_send_close_message_raw_internal_def)
qed

definition deflating :: "ExtensionPipeline \<Rightarrow> bool" where
  "deflating pipeline \<longleftrightarrow> ep_active_extensions pipeline \<noteq> 0 \<and> ep_deflate_mask pipeline"

lemma pipeline_settings: "fold (\<lambda>extension allowed. case extension of WSExtensionTypePerMessageDeflate _ \<Rightarrow> allowed OR 4) extensions (a :: u8) =
    (if extensions = [] then a else a OR 4)"
  by (induction extensions arbitrary: a) (auto simp: ac_simps split: WSExtension.split)

lemma extended_pipeline:
  assumes "get_extension_pipeline env extensions = Some pipeline" "extensions \<noteq> []"
  shows "deflating pipeline" "ep_allowed_rsv_bytes pipeline = 4"
  using assms by (auto simp: get_extension_pipeline_def deflating_def get_pipeline_settings_def pipeline_settings split: if_splits)

lemma compressed_send:
  assumes "deflating (es_pipeline send_state)" "es_message_state send_state = Some True"
  shows "extension_send_pipeline_process_start_message send_state 0 = Ok 4"
    and "extension_send_pipeline_process_cont_message send_state 0 = Ok 0"
  using assms by (simp_all add: deflating_def extension_send_pipeline_process_start_message_def
      extension_send_pipeline_process_cont_message_def)

text \<open>The first fragment of a compressed message is taken for a plain one, and the second one ends the connection.\<close>

lemma second_fragment_refused:
  assumes "listening env incoming outgoing connection (wire_bytes mask_bytes (fragment_frames message 0 4 n 0)) w"
    and "deflating pipeline" "ep_allowed_rsv_bytes pipeline = 4" "removable env connection w" "\<forall>n. ws_alloc (li_ws env) n"
    and "0 < n" "n < length (buffer_bytes (wm_buffer message))" "length (buffer_bytes (wm_buffer message)) < 2 ^ 31"
    and "\<And>k. mask_bytes = Some k \<Longrightarrow> length k = 4"
  shows "\<exists>w'. receive_loop env pipeline connection (no_reception env pipeline) w = Some (Ok None, w') \<and> ww_heap w' connection = None"
proof -
  let ?f1 = "fragment_frame message 0 4 n 0" and ?f2 = "fragment_frame message 0 4 n n" and ?later = "fragment_frames message 0 4 n (n + n)"
  have "fragment_frames message 0 4 n 0 = ?f1 # ?f2 # ?later"
    using assms(6,7) by (subst fragment_frames.simps, subst fragment_frames.simps) auto
  with assms(1) have wire: "listening env incoming outgoing connection
      (frame_bytes ?f1 mask_bytes @ frame_bytes ?f2 mask_bytes @ wire_bytes mask_bytes ?later) w" by simp
  have ok: "ws_frame_ok ?f1" "ws_frame_ok ?f2" using assms(8) by (auto intro!: fragment_frame_ok)
  obtain w1 where w1: "listen_once env pipeline connection (no_reception env pipeline) w =
        handle_frame env pipeline connection (no_reception env pipeline) ?f1 w1"
      "listening env incoming outgoing connection (frame_bytes ?f2 mask_bytes @ wire_bytes mask_bytes ?later) w1" "same_manager connection w w1"
    by (rule listen_once_frame [OF wire ok(1) assms(9)]) (use assms(3) in auto)
  have "\<exists>r1. handle_frame env pipeline connection (no_reception env pipeline) ?f1 w1 = Some (Ok (NextFrame r1), w1) \<and> rc_has_message r1"
    using assms(2,5-7)
    by (simp add: handle_frame_def fragment_not_control handle_start_frame_def no_reception_def init_extension_receive_message_state_def
        deflating_def extension_receive_pipeline_process_start_message_def loop_acts Let_def)
  then obtain r1 where r1: "handle_frame env pipeline connection (no_reception env pipeline) ?f1 w1 = Some (Ok (NextFrame r1), w1)"
    "rc_has_message r1" by blast
  obtain w2 where w2: "listen_once env pipeline connection r1 w1 = handle_frame env pipeline connection r1 ?f2 w2"
      "listening env incoming outgoing connection (wire_bytes mask_bytes ?later) w2" "same_manager connection w1 w2"
    by (rule listen_once_frame [OF w1(2) ok(2) assms(9)]) (use assms(3,6) in auto)
  let ?error = "''Received Opcode CONTINUATION with compressed bit set, this is an extension error''"
  have "removable env connection w2" using assms(4) w1(3) w2(3) by (meson removable_same same_manager_trans)
  then obtain w' where w': "close_with env connection CloseCodeProtocolError (lit ?error) w2 = Some (Ok ListenerEnd, w')"
    "ww_heap w' connection = None"
    using close_with_ends [OF w2(2), of "lit ?error"] by (auto simp: lit_def)
  have "handle_frame env pipeline connection r1 ?f2 w2 = Some (Ok ListenerEnd, w')"
    using r1(2) assms(2,6) w'(1)
    by (simp add: handle_frame_def fragment_not_control handle_cont_frame_def extension_receive_pipeline_is_valid_cont_frame_def deflating_def)
  then have "receive_loop env pipeline connection r1 w1 = Some (Ok None, w')"
    by (subst receive_loop.simps) (simp add: w2(1))
  then have "receive_loop env pipeline connection (no_reception env pipeline) w = Some (Ok None, w')"
    by (subst receive_loop.simps) (simp add: w1(1) r1(1))
  with w'(2) show ?thesis by blast
qed


definition deflate_everything :: WSExtension where
  "deflate_everything =
     WSExtensionTypePerMessageDeflate
       \<lparr>wd_client = \<lparr>wo_no_context_takeover = True, wo_max_window_bits = 15\<rparr>,
        wd_server = \<lparr>wo_no_context_takeover = True, wo_max_window_bits = 15\<rparr>\<rparr>"

definition sample_deflating :: ExtensionPipeline where
  "sample_deflating =
     \<lparr>ep_allowed_rsv_bytes = 4, ep_process = [deflate_options deflate_everything], ep_active_extensions = 1, ep_deflate_mask = True\<rparr>"

definition misflagged_wire :: bytes where
  "misflagged_wire = [0x02, 16, 1, 2, 3, 4, 5, 6, 7, 8, 9, 10, 11, 12, 13, 14, 15, 16, 0xC0, 4, 17, 18, 19, 20]"

lemma misflagged_wire: "wire_bytes None (message_frames sample_message 0 4 0) = misflagged_wire"
  by code_simp


section \<open>The mutex of the manager\<close>

text \<open>
  C31. \<open>thread_manager_add_connection\<close> does not release the mutex of the manager when it fails: after a connection that could
  not be added, for want of memory or of a thread, every later call that adds or removes a connection, whichever it is, waits for ever.
\<close>

theorem failed_add_blocks_manager:
  assumes "li_threads env MutexLock" "\<not> ww_locked w" "\<forall>n \<in> set (ww_nodes w). ww_heap w n \<noteq> None"
    and "\<not> (al_connection allocs \<and> al_node allocs \<and> al_argument allocs \<and> li_threads env ThreadCreate \<and> li_threads env ThreadDetach)"
  shows "\<exists>w'. thread_manager_add_connection env allocs connection reader w = Some (Err (), w') \<and>
    (\<forall>allocs' connection' reader'. thread_manager_add_connection env allocs' connection' reader' w' = None) \<and>
    (\<forall>c. thread_manager_remove_connection env (Some c) w' = None)"
proof -
  have walk: "\<forall>n \<in> set (takeWhile (\<lambda>n. n \<noteq> connection) (ww_nodes w)). ww_heap w n \<noteq> None"
    using assms(3) by (auto dest: set_takeWhileD)
  have "\<exists>w'. thread_manager_add_connection env allocs connection reader w = Some (Err (), w') \<and> ww_locked w'"
    using assms(1,2,4) walk
    by (auto simp: thread_manager_add_connection_def mutex_lock_def walk_nodes_def loop_acts Let_def)
  then obtain w' where w': "thread_manager_add_connection env allocs connection reader w = Some (Err (), w')" "ww_locked w'" by blast
  with assms(1) show ?thesis
    by (intro exI [of _ w']) (simp add: thread_manager_add_connection_def thread_manager_remove_connection_def mutex_lock_def lbind_def)
qed

theorem failed_add_blocks_manager_witness:
  "\<exists>w'. thread_manager_add_connection sample_listener \<lparr>al_connection = True, al_node = True, al_argument = False\<rparr> 8 (pipe_reader [])
      (sample_world []) = Some (Err (), w') \<and>
    thread_manager_remove_connection sample_listener (Some 7) w' = None"
  using failed_add_blocks_manager [of sample_listener "sample_world []" "\<lparr>al_connection = True, al_node = True, al_argument = False\<rparr>" 8 "pipe_reader []"]
  by (auto simp: sample_listener_def sample_world_def)

section \<open>Frames that are too long\<close>

lemma get_amount_cursor:
  assumes "buffered_reader_get_amount alloc io reader amount = Ok (BufferedReadResultTypeOk bs, reader')"
  shows "amount \<le> br_cursor reader'"
  using assms by (auto simp: buffered_reader_get_amount_def not_open_result_def check_assert_def rbind_Ok_iff
      split: if_splits prod.splits)

lemma get_amount_wraps:
  assumes "reader_ready alloc io incoming outgoing reader" "0 < br_cursor reader"
  shows "buffered_reader_get_amount alloc io reader 18446744073709551615 = Undef OutOfBounds"
proof -
  let ?n = "18446744073709551615 - (length (br_buffer reader) - br_cursor reader)"
  have r: "br_state reader = StreamStateOpen" "br_cursor reader \<le> length (br_buffer reader)" "\<forall>m. alloc m"
      "length (br_buffer reader) < 2 ^ 63" using assms(1) by (auto simp: reader_ready_def)
  have "buffered_reader_get_more_data_exact alloc io reader ?n = Undef OutOfBounds"
    by (rule exact_wraps) (use r assms(2) in auto)
  with r show ?thesis
    by (simp add: reader_defs)
qed

abbreviation (input) eight :: bytes where "eight \<equiv> [255, 255, 255, 255, 255, 255, 255, 255]"

lemma eight_bytes: "deserialize_u64_be_to_host ord eight = 0xFFFFFFFFFFFFFFFF"
  by (simp add: deserialize_be_bytes)



end
